(* ===== verification/Prelude.thy ===== *)
theory Prelude
  imports Main "HOL-Library.Word" "HOL-Library.Char_ord" "HOL-Library.List_Lexorder"
    "HOL-Library.Product_Lexorder"
begin

text \<open>
  Shared vocabulary of the development: names for the machine types of the Rust sources, decimal
  printing (Rust's \<^verbatim>\<open>to_string\<close> and the \<^verbatim>\<open>{:04}\<close> padding of \<^verbatim>\<open>format!\<close>), SQL statements on
  tables held as lists of rows. Text is \<open>string\<close> (its bytes), compared bytewise by the library's
  lexicographic order, as SQLite and Rust compare text. The contracts several components share are
  locales:
  \<^item> \<open>wire_enum\<close>: an enum with its stable text form (\<^verbatim>\<open>as_str\<close> and \<^verbatim>\<open>parse\<close>);
  \<^item> \<open>transition_system\<close>: a table of legal transitions with terminal states;
  \<^item> \<open>keyed_rows\<close>: rows with a unique key, as the primary keys of the store's tables.
\<close>

section \<open>Names\<close>

named_theorems rows_simps \<open>evaluation of selections and updates on keyed tables\<close>
named_theorems wire_simps \<open>text forms of enums\<close>

type_synonym u8 = "8 word"
type_synonym u32 = "32 word"
type_synonym u64 = "64 word"
type_synonym bytes = "u8 list"

section \<open>Decimal numbers\<close>

definition digit_char :: "nat \<Rightarrow> char" where
  "digit_char d = char_of (48 + d mod 10)"

fun show_nat :: "nat \<Rightarrow> string" where
  "show_nat n = (if n < 10 then [digit_char n] else show_nat (n div 10) @ [digit_char (n mod 10)])"

declare show_nat.simps [simp del]

text \<open>\<^verbatim>\<open>{n:04}\<close>: zero padding on the left up to a width.\<close>

definition pad_zeros :: "nat \<Rightarrow> string \<Rightarrow> string" where
  "pad_zeros w s = replicate (w - length s) (CHR ''0'') @ s"

text \<open>Reading a digit string back, used to show that printing loses nothing.\<close>

definition digit_val :: "char \<Rightarrow> nat" where
  "digit_val c = of_char c - 48"

definition read_nat :: "string \<Rightarrow> nat" where
  "read_nat s = foldl (\<lambda>a c. 10 * a + digit_val c) 0 s"

text \<open>\<^verbatim>\<open>{b:02x}\<close>: a byte as two lowercase hexadecimal digits.\<close>

definition hex_digit :: "nat \<Rightarrow> char" where
  "hex_digit d = (if d < 10 then char_of (48 + d) else char_of (87 + d))"

definition hex_byte :: "u8 \<Rightarrow> string" where
  "hex_byte b = [hex_digit (unat b div 16), hex_digit (unat b mod 16)]"

section \<open>Bytes\<close>

text \<open>The bytes of a text, and the \<^verbatim>\<open>k\<close>-byte big-endian form of a number (\<^verbatim>\<open>to_be_bytes\<close>;
  \<^verbatim>\<open>to_le_bytes\<close> is its reverse) with its value (\<^verbatim>\<open>from_be_bytes\<close>).\<close>

definition str_bytes :: "string \<Rightarrow> bytes" where
  "str_bytes s = map (\<lambda>c. of_nat (of_char c)) s"

primrec be_bytes :: "nat \<Rightarrow> nat \<Rightarrow> bytes" where
  "be_bytes 0 v = []"
| "be_bytes (Suc k) v = be_bytes k (v div 256) @ [of_nat v]"

definition be_value :: "bytes \<Rightarrow> nat" where
  "be_value bs = foldl (\<lambda>a b. 256 * a + unat b) 0 bs"

definition le_bytes :: "nat \<Rightarrow> nat \<Rightarrow> bytes" where
  "le_bytes k v = rev (be_bytes k v)"

text \<open>\<^verbatim>\<open>chars().take(n)\<close> on UTF-8: a byte \<open>10xxxxxx\<close> continues the character before it.\<close>

definition utf8_continuation :: "char \<Rightarrow> bool" where
  "utf8_continuation c \<longleftrightarrow> 128 \<le> (of_char c :: nat) \<and> (of_char c :: nat) < 192"

fun take_chars :: "nat \<Rightarrow> string \<Rightarrow> string" where
  "take_chars n [] = []"
| "take_chars n (c # s) =
     (if utf8_continuation c then c # take_chars n s
      else (case n of 0 \<Rightarrow> [] | Suc m \<Rightarrow> c # take_chars m s))"

section \<open>SQL statements on tables held as row lists\<close>

text \<open>\<^verbatim>\<open>UPDATE ... SET f WHERE p\<close>, \<^verbatim>\<open>DELETE ... WHERE p\<close>, the number of rows a statement touches,
  and the row \<^verbatim>\<open>query_row(...).optional()\<close> returns.\<close>

definition sql_update :: "('r \<Rightarrow> bool) \<Rightarrow> ('r \<Rightarrow> 'r) \<Rightarrow> 'r list \<Rightarrow> 'r list" where
  "sql_update p f rs = map (\<lambda>r. if p r then f r else r) rs"

definition sql_delete :: "('r \<Rightarrow> bool) \<Rightarrow> 'r list \<Rightarrow> 'r list" where
  "sql_delete p rs = filter (\<lambda>r. \<not> p r) rs"

definition sql_count :: "('r \<Rightarrow> bool) \<Rightarrow> 'r list \<Rightarrow> nat" where
  "sql_count p rs = length (filter p rs)"

text \<open>\<^verbatim>\<open>COALESCE(new, old)\<close>.\<close>

definition coalesce :: "'a option \<Rightarrow> 'a option \<Rightarrow> 'a option" where
  "coalesce new old = (case new of None \<Rightarrow> old | Some v \<Rightarrow> Some v)"

definition row_by :: "('r \<Rightarrow> 'k) \<Rightarrow> 'k \<Rightarrow> 'r list \<Rightarrow> 'r option" where
  "row_by key k rs = List.find (\<lambda>r. key r = k) rs"

definition unique_rows :: "('r \<Rightarrow> 'k) \<Rightarrow> 'r list \<Rightarrow> bool" where
  "unique_rows key rs = distinct (map key rs)"

text \<open>\<^verbatim>\<open>INSERT ... ON CONFLICT(key) DO UPDATE\<close>: \<open>row\<close> is inserted, or \<open>f\<close> updates the row there.\<close>

definition sql_upsert :: "('r \<Rightarrow> 'k) \<Rightarrow> 'k \<Rightarrow> 'r \<Rightarrow> ('r \<Rightarrow> 'r) \<Rightarrow> 'r list \<Rightarrow> 'r list" where
  "sql_upsert key k row f rs =
     (if row_by key k rs = None then rs @ [row] else sql_update (\<lambda>r. key r = k) f rs)"

section \<open>Lemmas on decimal numbers\<close>

lemma digit_val_digit_char [simp]: "digit_val (digit_char d) = d mod 10"
proof -
  have "(48 + d mod 10) mod 256 = 48 + d mod 10"
    by (simp add: mod_less)
  then show ?thesis
    by (simp add: digit_val_def digit_char_def)
qed

lemma show_nat_not_Nil [simp]: "show_nat n \<noteq> []"
  by (subst show_nat.simps) simp

lemma read_nat_snoc: "read_nat (s @ [c]) = 10 * read_nat s + digit_val c"
  by (simp add: read_nat_def)

lemma read_nat_show_nat [simp]: "read_nat (show_nat n) = n"
proof (induction n rule: show_nat.induct)
  case (1 n)
  show ?case
  proof (cases "n < 10")
    case True
    then show ?thesis
      by (subst show_nat.simps) (simp add: read_nat_def)
  next
    case False
    with 1 have "read_nat (show_nat (n div 10)) = n div 10" by simp
    with False show ?thesis
      by (subst show_nat.simps) (simp add: read_nat_snoc)
  qed
qed

lemma show_nat_inject [simp]: "show_nat m = show_nat n \<longleftrightarrow> m = n"
  by (metis read_nat_show_nat)

lemma of_char_digit_char: "of_char (digit_char d) = (48 + d mod 10 :: nat)"
  by (simp add: digit_char_def mod_less)

lemma digit_char_range: "(of_char (digit_char d) :: nat) \<in> {48..57}"
proof -
  have "d mod 10 < 10" by simp
  then show ?thesis by (simp add: of_char_digit_char del: mod_less_divisor)
qed

lemma show_nat_digits: "c \<in> set (show_nat n) \<Longrightarrow> (of_char c :: nat) \<in> {48..57}"
proof (induction n rule: show_nat.induct)
  case (1 n)
  show ?case
  proof (cases "n < 10")
    case True
    with "1.prems" show ?thesis
      by (subst (asm) show_nat.simps) (simp add: digit_char_range del: atLeastAtMost_iff)
  next
    case False
    with "1.prems" have "c \<in> set (show_nat (n div 10)) \<or> c = digit_char (n mod 10)"
      by (subst (asm) show_nat.simps) auto
    with False "1.IH" show ?thesis
      using digit_char_range by blast
  qed
qed

lemma append_first_separator:
  assumes "c \<notin> set xs" and "c \<notin> set xs'"
  shows "xs @ c # ys = xs' @ c # ys' \<longleftrightarrow> xs = xs' \<and> ys = ys'"
  using assms
proof (induction xs arbitrary: xs')
  case Nil
  then show ?case by (cases xs') auto
next
  case (Cons x xs)
  then show ?case by (cases xs') auto
qed

lemma hex_digit_inject: "m < 16 \<Longrightarrow> n < 16 \<Longrightarrow> hex_digit m = hex_digit n \<Longrightarrow> m = n"
proof -
  assume "m < 16" "n < 16" "hex_digit m = hex_digit n"
  then have "(of_char (hex_digit m) :: nat) = of_char (hex_digit n)" by simp
  with \<open>m < 16\<close> \<open>n < 16\<close> show "m = n"
    by (auto simp: hex_digit_def mod_less split: if_splits)
qed

lemma hex_byte_inject [simp]: "hex_byte b = hex_byte b' \<longleftrightarrow> b = b'"
proof
  assume eq: "hex_byte b = hex_byte b'"
  have lt: "unat c div 16 < 16" "unat c mod 16 < 16" for c :: u8
  proof -
    have "unat c < 2 ^ LENGTH(8)" by (rule unsigned_less)
    then show "unat c div 16 < 16" "unat c mod 16 < 16" by simp_all
  qed
  from eq have "unat b div 16 = unat b' div 16" "unat b mod 16 = unat b' mod 16"
    using lt [of b] lt [of b'] hex_digit_inject by (auto simp: hex_byte_def)
  then have "unat b = unat b'" by (metis div_mult_mod_eq)
  then show "b = b'" by (simp only: unsigned_word_eqI)
qed simp

lemma foldr_max_upt: "foldr max [Suc 0..<Suc n] a = max n a"
proof (induction n arbitrary: a)
  case (Suc n)
  have "[Suc 0..<Suc (Suc n)] = [Suc 0..<Suc n] @ [Suc n]" by simp
  then show ?case using Suc.IH [of "max (Suc n) a"] by (simp del: upt_Suc)
qed simp

section \<open>Lemmas on bytes\<close>

lemma hex_string_inject: "concat (map hex_byte xs) = concat (map hex_byte ys) \<longleftrightarrow> xs = ys"
proof (induction xs arbitrary: ys)
  case Nil
  then show ?case by (cases ys) (auto simp: hex_byte_def)
next
  case (Cons x xs)
  show ?case
  proof (cases ys)
    case (Cons y ys')
    have "concat (map hex_byte (x # xs)) = concat (map hex_byte ys)
        \<longleftrightarrow> hex_byte x = hex_byte y \<and> concat (map hex_byte xs) = concat (map hex_byte ys')"
      using Cons by (simp add: hex_byte_def)
    with Cons Cons.IH show ?thesis by simp
  qed (simp add: hex_byte_def)
qed

lemma length_hex_string: "length (concat (map hex_byte xs)) = 2 * length xs"
  by (induction xs) (simp_all add: hex_byte_def)

lemma unat_byte_of_char: "unat (of_nat (of_char c) :: u8) = of_char c"
proof -
  have "(of_char c :: nat) < 256" using nat_of_char_less_256 by auto
  then show ?thesis by (simp add: unat_of_nat)
qed

lemma str_bytes_inject [simp]: "str_bytes s = str_bytes t \<longleftrightarrow> s = t"
proof -
  have "inj (\<lambda>c. of_nat (of_char c) :: u8)"
  proof (rule injI)
    fix c d :: char
    assume "(of_nat (of_char c) :: u8) = of_nat (of_char d)"
    then have "(of_char c :: nat) = of_char d" using unat_byte_of_char by metis
    then show "c = d" by simp
  qed
  then show ?thesis by (simp add: str_bytes_def)
qed

lemma length_str_bytes [simp]: "length (str_bytes s) = length s"
  by (simp add: str_bytes_def)

lemma length_be_bytes [simp]: "length (be_bytes k v) = k"
  by (induction k arbitrary: v) simp_all

lemma length_le_bytes [simp]: "length (le_bytes k v) = k"
  by (simp add: le_bytes_def)

lemma be_value_snoc: "be_value (bs @ [b]) = 256 * be_value bs + unat b"
  by (simp add: be_value_def)

lemma unat_of_nat_byte: "unat (of_nat v :: u8) = v mod 256"
  by (simp add: unat_of_nat)

lemma be_value_be_bytes: "be_value (be_bytes k v) = v mod 256 ^ k"
proof (induction k arbitrary: v)
  case (Suc k)
  have "be_value (be_bytes (Suc k) v) = 256 * (v div 256 mod 256 ^ k) + v mod 256"
    by (simp add: be_value_snoc Suc.IH unat_of_nat_byte)
  also have "\<dots> = v mod (256 * 256 ^ k)" by (simp add: mod_mult2_eq)
  finally show ?case by simp
qed (simp add: be_value_def)

lemma be_value_less: "be_value bs < 256 ^ length bs"
proof (induction bs rule: rev_induct)
  case (snoc b bs)
  have "unat b < 2 ^ LENGTH(8)" by (rule unsigned_less)
  then have "unat b \<le> 255" by simp
  with snoc show ?case by (simp add: be_value_snoc)
qed (simp add: be_value_def)

lemma be_bytes_be_value: "be_bytes (length bs) (be_value bs) = bs"
proof (induction bs rule: rev_induct)
  case (snoc b bs)
  have b: "unat b < 256" using unsigned_less [of b] by simp
  then have "(256 * be_value bs + unat b) div 256 = be_value bs" by simp
  moreover have "(of_nat (256 * be_value bs + unat b) :: u8) = b"
  proof (rule unsigned_word_eqI)
    show "unat (of_nat (256 * be_value bs + unat b) :: u8) = unat b"
      using b by (simp only: unat_of_nat_byte) simp
  qed
  ultimately show ?case using snoc by (simp add: be_value_snoc del: of_nat_add of_nat_mult)
qed simp

lemma be_bytes_inject:
  assumes "v < 256 ^ k" and "w < 256 ^ k"
  shows "be_bytes k v = be_bytes k w \<longleftrightarrow> v = w"
  using assms be_value_be_bytes by (metis mod_less)

lemma le_bytes_inject:
  assumes "v < 256 ^ k" and "w < 256 ^ k"
  shows "le_bytes k v = le_bytes k w \<longleftrightarrow> v = w"
  using be_bytes_inject [OF assms] by (simp add: le_bytes_def)

section \<open>Lemmas on tables\<close>

lemma sql_update_id: "(\<And>r. r \<in> set rs \<Longrightarrow> \<not> p r) \<Longrightarrow> sql_update p f rs = rs"
  by (simp add: sql_update_def map_idI)

lemma map_sql_update: "(\<And>r. p r \<Longrightarrow> g (f r) = g r) \<Longrightarrow> map g (sql_update p f rs) = map g rs"
  by (simp add: sql_update_def)

lemma length_sql_update [simp]: "length (sql_update p f rs) = length rs"
  by (simp add: sql_update_def)

lemma set_sql_update: "set (sql_update p f rs) = (\<lambda>r. if p r then f r else r) ` set rs"
  by (simp add: sql_update_def)

lemma image_sql_update:
  "(\<And>r. p r \<Longrightarrow> g (f r) = g r) \<Longrightarrow> g ` set (sql_update p f rs) = g ` set rs"
  using map_sql_update [of p g f rs] by (metis list.set_map)

lemma coalesce_simps [simp]:
  "coalesce None x = x" "coalesce (Some v) x = Some v"
  by (simp_all add: coalesce_def)

lemma coalesce_eq_None [simp]: "coalesce x y = None \<longleftrightarrow> x = None \<and> y = None"
  by (cases x) simp_all

lemma row_by_Nil [simp]: "row_by key k [] = None"
  by (simp add: row_by_def)

lemma row_by_Cons: "row_by key k (r # rs) = (if key r = k then Some r else row_by key k rs)"
  by (simp add: row_by_def)

lemma row_by_None_iff: "row_by key k rs = None \<longleftrightarrow> k \<notin> key ` set rs"
  by (induction rs) (auto simp: row_by_Cons)

lemma row_by_SomeD: "row_by key k rs = Some r \<Longrightarrow> r \<in> set rs \<and> key r = k"
  by (induction rs) (auto simp: row_by_Cons split: if_splits)

lemma row_by_append:
  "row_by key k (rs @ ss) = (case row_by key k rs of None \<Rightarrow> row_by key k ss | Some r \<Rightarrow> Some r)"
  by (induction rs) (auto simp: row_by_Cons)

lemma row_by_sql_update:
  "(\<And>r. p r \<Longrightarrow> key (f r) = key r) \<Longrightarrow>
   row_by key k (sql_update p f rs) = map_option (\<lambda>r. if p r then f r else r) (row_by key k rs)"
  by (induction rs) (auto simp: row_by_Cons sql_update_def)

text \<open>A contract for tables: rows, a key, and the discipline that keys stay unique.\<close>

locale keyed_rows =
  fixes key :: "'r \<Rightarrow> 'k"
begin

lemma unique_update:
  assumes "unique_rows key rs" and "\<And>r. p r \<Longrightarrow> key (f r) = key r"
  shows "unique_rows key (sql_update p f rs)"
  using assms by (simp add: unique_rows_def map_sql_update)

lemma unique_insert:
  assumes "unique_rows key rs" and "row_by key (key r) rs = None"
  shows "unique_rows key (rs @ [r])"
  using assms by (auto simp: unique_rows_def row_by_None_iff)

lemma unique_upsert:
  assumes "unique_rows key rs" and "key row = k" and "\<And>r. key r = k \<Longrightarrow> key (f r) = k"
  shows "unique_rows key (sql_upsert key k row f rs)"
proof -
  have "unique_rows key (sql_update (\<lambda>r. key r = k) f rs)"
    using assms(1) by (rule unique_update) (simp add: assms(3))
  then show ?thesis using assms unique_insert [of rs row] by (simp add: sql_upsert_def)
qed

lemma row_by_upsert:
  assumes "key row = k" and "\<And>r. key r = k \<Longrightarrow> key (f r) = k"
  shows "row_by key k' (sql_upsert key k row f rs) =
    (if k' = k then Some (case row_by key k rs of None \<Rightarrow> row | Some r \<Rightarrow> f r) else row_by key k' rs)"
proof (cases "row_by key k rs = None")
  case True
  then show ?thesis
    using assms(1) by (auto simp: sql_upsert_def row_by_append row_by_Cons split: option.split)
next
  case False
  have "row_by key k' (sql_update (\<lambda>r. key r = k) f rs)
      = map_option (\<lambda>r. if key r = k then f r else r) (row_by key k' rs)"
    by (rule row_by_sql_update) (simp add: assms(2))
  with False show ?thesis
    by (cases "row_by key k' rs") (auto simp: sql_upsert_def dest: row_by_SomeD)
qed

lemma row_by_delete:
  "row_by key k' (sql_delete (\<lambda>r. key r = k) rs) = (if k' = k then None else row_by key k' rs)"
  by (induction rs) (auto simp: sql_delete_def row_by_Cons)

lemma unique_delete: "unique_rows key rs \<Longrightarrow> unique_rows key (sql_delete p rs)"
  by (simp add: unique_rows_def sql_delete_def distinct_map_filter)

lemma member_row_by:
  assumes "unique_rows key rs" and "r \<in> set rs"
  shows "row_by key (key r) rs = Some r"
  using assms by (induction rs) (auto simp: row_by_Cons unique_rows_def)

lemma filter_other_keys: "k \<notin> key ` set rs \<Longrightarrow> filter (\<lambda>r. key r = k \<and> q r) rs = []"
  by (induction rs) auto

lemma count_le_1:
  assumes "unique_rows key rs"
  shows "sql_count (\<lambda>r. key r = k \<and> q r) rs \<le> 1"
  using assms
proof (induction rs)
  case Nil
  then show ?case by (simp add: sql_count_def)
next
  case (Cons a rs)
  then show ?case
    by (cases "key a = k") (auto simp: sql_count_def unique_rows_def filter_other_keys)
qed

lemma count_eq_1_iff:
  assumes "unique_rows key rs"
  shows "sql_count (\<lambda>r. key r = k \<and> q r) rs = 1 \<longleftrightarrow> (\<exists>r. row_by key k rs = Some r \<and> q r)"
  using assms
proof (induction rs)
  case Nil
  then show ?case by (simp add: sql_count_def)
next
  case (Cons a rs)
  then have IH: "sql_count (\<lambda>r. key r = k \<and> q r) rs = 1 \<longleftrightarrow> (\<exists>r. row_by key k rs = Some r \<and> q r)"
    and a: "key a \<notin> key ` set rs" by (simp_all add: unique_rows_def)
  show ?case
  proof (cases "key a = k")
    case True
    with a have "filter (\<lambda>r. key r = k \<and> q r) rs = []"
      by (simp add: filter_other_keys)
    with True show ?thesis by (simp add: sql_count_def row_by_Cons)
  next
    case False
    with IH show ?thesis by (simp add: sql_count_def row_by_Cons)
  qed
qed

end

section \<open>Enums with a text form\<close>

locale wire_enum =
  fixes as_str :: "'s \<Rightarrow> string" and parse :: "string \<Rightarrow> 's option"
  assumes parse_as_str: "parse (as_str s) = Some s"
    and parse_sound: "parse t = Some s \<Longrightarrow> t = as_str s"
begin

lemma as_str_inject: "as_str s = as_str s' \<longleftrightarrow> s = s'"
  by (metis option.inject parse_as_str)

lemma parse_iff: "parse t = Some s \<longleftrightarrow> t = as_str s"
  using parse_as_str parse_sound by blast

lemma parse_None_iff: "parse t = None \<longleftrightarrow> t \<notin> range as_str"
proof
  assume "parse t = None"
  then show "t \<notin> range as_str" using parse_as_str by auto
next
  assume "t \<notin> range as_str"
  then show "parse t = None" using parse_sound by (cases "parse t") auto
qed

end

section \<open>Transition tables\<close>

text \<open>Consecutive states of a history are legal transitions.\<close>

fun legal_path :: "('s \<Rightarrow> 's \<Rightarrow> bool) \<Rightarrow> 's list \<Rightarrow> bool" where
  "legal_path ok (s # t # ss) = (ok s t \<and> legal_path ok (t # ss))"
| "legal_path ok _ = True"

lemma legal_path_snoc:
  "ss \<noteq> [] \<Longrightarrow> legal_path ok (ss @ [t]) \<longleftrightarrow> legal_path ok ss \<and> ok (last ss) t"
  by (induction ok ss rule: legal_path.induct) auto

locale transition_system =
  fixes ok :: "'s \<Rightarrow> 's \<Rightarrow> bool" and terminal :: "'s \<Rightarrow> bool"
  assumes terminal_stuck: "terminal s \<Longrightarrow> \<not> ok s t"
begin

lemma terminal_only_last:
  assumes "legal_path ok ss" and "i < length ss" and "terminal (ss ! i)"
  shows "i = length ss - 1"
  using assms
proof (induction ss arbitrary: i rule: induct_list012)
  case (3 s t ss)
  show ?case
  proof (cases i)
    case 0
    with "3.prems" show ?thesis using terminal_stuck [of s t] by auto
  next
    case (Suc j)
    with 3 have "j = length (t # ss) - 1" by auto
    with Suc show ?thesis by simp
  qed
qed auto

end

end
