(* ===== verification/Account_Types.thy ===== *)
theory Account_Types
  imports BTree_Map
begin

text \<open>
  The durable records of the account lifecycle (\<^verbatim>\<open>crates/app-host/src/account_lifecycle.rs\<close>): providers,
  modes, phases, the installation, the authority with its epochs and active operations, the journal of
  an operation, receipts, exchange intents and candidates, with the validators every record passes when
  it is written and when it is read, and the table of phase transitions. Times, epochs and counters are
  natural numbers below the bound of their Rust type; additions are checked or saturating where the
  code's are.
\<close>

section \<open>Enumerations\<close>

datatype ProductProviderId = Claude | Codex

primrec provider_wire :: "ProductProviderId \<Rightarrow> string" where
  "provider_wire Claude = ''claude''"
| "provider_wire Codex = ''codex''"

definition provider_parse :: "string \<Rightarrow> ProductProviderId option" where
  "provider_parse v = (if v = ''claude'' then Some Claude else if v = ''codex'' then Some Codex else None)"

definition ALL_PROVIDERS :: "ProductProviderId list" where
  "ALL_PROVIDERS = [Claude, Codex]"

text \<open>The derived order: by position in the declaration.\<close>

instantiation ProductProviderId :: linorder
begin

definition less_eq_ProductProviderId :: "ProductProviderId \<Rightarrow> ProductProviderId \<Rightarrow> bool" where
  "less_eq_ProductProviderId p q \<longleftrightarrow> p = Claude \<or> q = Codex"

definition less_ProductProviderId :: "ProductProviderId \<Rightarrow> ProductProviderId \<Rightarrow> bool" where
  "less_ProductProviderId p q \<longleftrightarrow> p = Claude \<and> q = Codex"

instance
proof
  fix p q r :: ProductProviderId
  show "p < q \<longleftrightarrow> p \<le> q \<and> \<not> q \<le> p"
    by (cases p; cases q) (simp_all add: less_eq_ProductProviderId_def less_ProductProviderId_def)
  show "p \<le> p" by (cases p) (simp_all add: less_eq_ProductProviderId_def)
  show "p \<le> q \<Longrightarrow> q \<le> r \<Longrightarrow> p \<le> r"
    by (cases p; cases q; cases r) (simp_all add: less_eq_ProductProviderId_def)
  show "p \<le> q \<Longrightarrow> q \<le> p \<Longrightarrow> p = q"
    by (cases p; cases q) (simp_all add: less_eq_ProductProviderId_def)
  show "p \<le> q \<or> q \<le> p" by (cases p) (simp_all add: less_eq_ProductProviderId_def)
qed

end

datatype AccountLifecycleRoute = Logout | LifecycleResume | OAuthStart

primrec route_wire :: "AccountLifecycleRoute \<Rightarrow> string" where
  "route_wire Logout = ''logout''"
| "route_wire LifecycleResume = ''lifecycle_resume''"
| "route_wire OAuthStart = ''oauth_start''"

datatype AccountLifecycleMode = Connect | Disconnect | Reconnect | Switch

primrec mode_wire :: "AccountLifecycleMode \<Rightarrow> string" where
  "mode_wire Connect = ''connect''"
| "mode_wire Disconnect = ''disconnect''"
| "mode_wire Reconnect = ''reconnect''"
| "mode_wire Switch = ''switch''"

datatype AccountLifecyclePhase =
    Prepared | RevokeInFlight | RevokeOutcomeUnknown | RevokedPendingCleanup | Disconnected
  | AwaitingOAuthLogin | ExchangeInFlight | ExchangeOutcomeUnknown | OAuthCandidateStored
  | CandidateValidation | OAuthCandidateCleanup | Completed | FailedTerminal

primrec phase_wire :: "AccountLifecyclePhase \<Rightarrow> string" where
  "phase_wire Prepared = ''prepared''"
| "phase_wire RevokeInFlight = ''revoke_in_flight''"
| "phase_wire RevokeOutcomeUnknown = ''revoke_outcome_unknown''"
| "phase_wire RevokedPendingCleanup = ''revoked_pending_cleanup''"
| "phase_wire Disconnected = ''disconnected''"
| "phase_wire AwaitingOAuthLogin = ''awaiting_oauth_login''"
| "phase_wire ExchangeInFlight = ''exchange_in_flight''"
| "phase_wire ExchangeOutcomeUnknown = ''exchange_outcome_unknown''"
| "phase_wire OAuthCandidateStored = ''oauth_candidate_stored''"
| "phase_wire CandidateValidation = ''candidate_validation''"
| "phase_wire OAuthCandidateCleanup = ''oauth_candidate_cleanup''"
| "phase_wire Completed = ''completed''"
| "phase_wire FailedTerminal = ''failed_terminal''"

datatype RevokeRequestTarget = RefreshToken | AccessToken

datatype RevokeScopeGuarantee = GuaranteedTokenSession | ObservedTokenSession | UnknownScope | FullGrant

primrec revoke_target_wire :: "RevokeRequestTarget \<Rightarrow> string" where
  "revoke_target_wire RefreshToken = ''refresh_token''"
| "revoke_target_wire AccessToken = ''access_token''"

primrec revoke_scope_wire :: "RevokeScopeGuarantee \<Rightarrow> string" where
  "revoke_scope_wire GuaranteedTokenSession = ''guaranteed_token_session''"
| "revoke_scope_wire ObservedTokenSession = ''observed_token_session''"
| "revoke_scope_wire UnknownScope = ''unknown''"
| "revoke_scope_wire FullGrant = ''full_grant''"

datatype OAuthCandidateState = GrantBearing | RevokeUnknown | RevokedCleaned | Promoted

datatype RevokedGrantRef = ActiveCredential string | OAuthCandidateGrant string

datatype LifecycleRecordError =
    Invalid | SizeLimit | CountLimit | EpochExhausted | InvalidTransition | StoreFailed | Busy
  | MissingInstallationPrincipal | IdempotencyConflict | OperationInProgress | StaleFence
  | ReceiptCapacityExhausted

fun lifecycle_error_wire :: "LifecycleRecordError \<Rightarrow> string" where
  "lifecycle_error_wire Busy = ''provider_busy''"
| "lifecycle_error_wire OperationInProgress = ''provider_busy''"
| "lifecycle_error_wire IdempotencyConflict = ''idempotency_conflict''"
| "lifecycle_error_wire EpochExhausted = ''lifecycle_epoch_exhausted''"
| "lifecycle_error_wire StaleFence = ''stale_lifecycle_fence''"
| "lifecycle_error_wire ReceiptCapacityExhausted = ''receipt_capacity_exhausted''"
| "lifecycle_error_wire MissingInstallationPrincipal = ''lifecycle_unavailable''"
| "lifecycle_error_wire StoreFailed = ''lifecycle_unavailable''"
| "lifecycle_error_wire Invalid = ''lifecycle_invalid''"
| "lifecycle_error_wire SizeLimit = ''lifecycle_invalid''"
| "lifecycle_error_wire CountLimit = ''lifecycle_invalid''"
| "lifecycle_error_wire InvalidTransition = ''lifecycle_invalid''"

section \<open>Records\<close>

record PreparedOperation =
  po_version :: nat
  po_provider :: ProductProviderId
  po_operation_id :: string
  po_route :: AccountLifecycleRoute
  po_request_id_hash :: string
  po_idempotency_key :: string
  po_payload_digest :: string
  po_mode :: AccountLifecycleMode
  po_lifecycle_epoch :: nat
  po_fence_epoch :: nat
  po_lifecycle_key_version :: nat
  po_credential_etag :: "string option"
  po_prior_generation :: "string option"
  po_prior_subject_digest :: "string option"
  po_revoke_spec_version :: nat
  po_initial_revoke_request_target :: "RevokeRequestTarget option"
  po_initial_revoke_scope_guarantee :: "RevokeScopeGuarantee option"
  po_prepared_at_ms :: nat

record ActiveOperationRef =
  ao_prepared :: PreparedOperation
  ao_operation_etag :: string
  ao_journal_record_id :: string

record Installation =
  in_version :: nat
  in_initialized :: bool
  in_principal :: string

record Authority =
  au_version :: nat
  au_initialized :: bool
  au_lifecycle_epoch :: nat
  au_fence_epoch :: nat
  au_lifecycle_key_version :: nat
  au_current_credential_etags :: "(ProductProviderId, string) btree"
  au_retired_credential_etags :: "(ProductProviderId, string list) btree"
  au_active_operations :: "(ProductProviderId, ActiveOperationRef) btree"

record Journal =
  jo_version :: nat
  jo_prepared :: PreparedOperation
  jo_lease_owner_nonce :: string
  jo_operation_etag :: string
  jo_phase :: AccountLifecyclePhase
  jo_revoke_leg :: nat
  jo_revoked_grant :: "RevokedGrantRef option"
  jo_revoke_request_target :: "RevokeRequestTarget option"
  jo_revoke_scope_guarantee :: "RevokeScopeGuarantee option"
  jo_attempt_count :: nat
  jo_in_flight_until_ms :: nat
  jo_created_at_ms :: nat
  jo_updated_at_ms :: nat
  jo_closed_code :: "string option"

record Receipt =
  rc_version :: nat
  rc_operation_id :: string
  rc_operation_etag :: string
  rc_route :: AccountLifecycleRoute
  rc_mode :: AccountLifecycleMode
  rc_idempotency_key :: string
  rc_payload_digest :: string
  rc_prior_generation :: "string option"
  rc_result_generation :: "string option"
  rc_completed_revoke_legs :: nat
  rc_lifecycle_epoch :: nat
  rc_fence_epoch :: nat
  rc_lifecycle_key_version :: nat
  rc_terminal_code :: string
  rc_completed_at_ms :: nat
  rc_retention_not_before_ms :: nat

record ReceiptIndex =
  ri_version :: nat
  ri_provider :: ProductProviderId
  ri_lifecycle_epoch :: nat
  ri_receipts :: "Receipt list"

record ExchangeIntent =
  ei_version :: nat
  ei_provider :: ProductProviderId
  ei_operation_id :: string
  ei_attempt_id :: string
  ei_created_at_ms :: nat
  ei_expires_at_ms :: nat

record Candidate =
  ca_version :: nat
  ca_provider :: ProductProviderId
  ca_operation_id :: string
  ca_record_id :: string
  ca_access_token :: string
  ca_refresh_token :: string
  ca_expires_at_ms :: nat
  ca_provider_account_id :: "string option"
  ca_subject_digest :: "string option"
  ca_session_id_digest :: "string option"
  ca_result_generation :: "string option"
  ca_state :: OAuthCandidateState
  ca_created_at_ms :: nat
  ca_terminal_at_ms :: "nat option"

section \<open>Bounds\<close>

definition SCHEMA_VERSION :: nat where "SCHEMA_VERSION = 1"
definition MAX_RECEIPTS :: nat where "MAX_RECEIPTS = 64"
definition MAX_RETIRED_ETAGS :: nat where "MAX_RETIRED_ETAGS = 64"
definition MAX_RECEIPT_BYTES :: nat where "MAX_RECEIPT_BYTES = 1536"
definition MAX_ATTEMPTS :: nat where "MAX_ATTEMPTS = 8"
definition OPERATION_ID_LEN :: nat where "OPERATION_ID_LEN = 32"
definition DIGEST_LEN :: nat where "DIGEST_LEN = 43"
definition NONCE_LEN :: nat where "NONCE_LEN = 22"
definition MAX_TOKEN_BYTES :: nat where "MAX_TOKEN_BYTES = 32 * 1024"
definition MAX_PROVIDER_ACCOUNT_ID_BYTES :: nat where "MAX_PROVIDER_ACCOUNT_ID_BYTES = 512"
definition MAX_CLOSED_CODE_BYTES :: nat where "MAX_CLOSED_CODE_BYTES = 64"
definition TERMINAL_RECEIPT_RETENTION_MS :: nat where
  "TERMINAL_RECEIPT_RETENTION_MS = 30 * 24 * 60 * 60 * 1000"

definition AUTHORITY_PLAINTEXT_MAX :: nat where "AUTHORITY_PLAINTEXT_MAX = 32 * 1024"
definition JOURNAL_PLAINTEXT_MAX :: nat where "JOURNAL_PLAINTEXT_MAX = 16 * 1024"
definition EXCHANGE_PLAINTEXT_MAX :: nat where "EXCHANGE_PLAINTEXT_MAX = 16 * 1024"
definition CANDIDATE_PLAINTEXT_MAX :: nat where "CANDIDATE_PLAINTEXT_MAX = 64 * 1024"
definition RECEIPT_INDEX_PLAINTEXT_MAX :: nat where "RECEIPT_INDEX_PLAINTEXT_MAX = 128 * 1024"

definition U8_MAX :: nat where "U8_MAX = 2 ^ 8 - 1"
definition U32_MAX :: nat where "U32_MAX = 2 ^ 32 - 1"
definition U64_MAX :: nat where "U64_MAX = 2 ^ 64 - 1"

text \<open>\<^verbatim>\<open>checked_add(1)\<close> and \<^verbatim>\<open>saturating_add\<close> of \<^verbatim>\<open>u64\<close>.\<close>

definition checked_succ :: "nat \<Rightarrow> nat \<Rightarrow> nat option" where
  "checked_succ bound n = (if n < bound then Some (Suc n) else None)"

definition sat_add64 :: "nat \<Rightarrow> nat \<Rightarrow> nat" where
  "sat_add64 a b = min U64_MAX (a + b)"

definition next_epoch :: "nat \<Rightarrow> LifecycleRecordError + nat" where
  "next_epoch n = (case checked_succ U64_MAX n of None \<Rightarrow> Inl EpochExhausted | Some e \<Rightarrow> Inr e)"

definition receipt_retention_deadline :: "nat \<Rightarrow> nat" where
  "receipt_retention_deadline completed_at = sat_add64 completed_at TERMINAL_RECEIPT_RETENTION_MS"

section \<open>Validation of text\<close>

definition ascii_digit :: "char \<Rightarrow> bool" where
  "ascii_digit c \<longleftrightarrow> CHR ''0'' \<le> c \<and> c \<le> CHR ''9''"

definition ascii_lower :: "char \<Rightarrow> bool" where
  "ascii_lower c \<longleftrightarrow> CHR ''a'' \<le> c \<and> c \<le> CHR ''z''"

definition ascii_upper :: "char \<Rightarrow> bool" where
  "ascii_upper c \<longleftrightarrow> CHR ''A'' \<le> c \<and> c \<le> CHR ''Z''"

definition lower_hex :: "char \<Rightarrow> bool" where
  "lower_hex c \<longleftrightarrow> ascii_digit c \<or> (CHR ''a'' \<le> c \<and> c \<le> CHR ''f'')"

definition dash_positions :: "nat set" where
  "dash_positions = {8, 13, 18, 23}"

definition is_uuid_v4 :: "string \<Rightarrow> bool" where
  "is_uuid_v4 v \<longleftrightarrow>
     length v = 36 \<and> v ! 8 = CHR ''-'' \<and> v ! 13 = CHR ''-'' \<and> v ! 18 = CHR ''-'' \<and> v ! 23 = CHR ''-''
     \<and> v ! 14 = CHR ''4'' \<and> v ! 19 \<in> {CHR ''8'', CHR ''9'', CHR ''a'', CHR ''b''}
     \<and> (\<forall>i < 36. i \<in> dash_positions \<or> lower_hex (v ! i))"

definition validate_b64url :: "string \<Rightarrow> nat \<Rightarrow> bool" where
  "validate_b64url v n \<longleftrightarrow>
     length v = n \<and> (\<forall>c \<in> set v. ascii_digit c \<or> ascii_lower c \<or> ascii_upper c \<or> c = CHR ''-'' \<or> c = CHR ''_'')"

definition valid_closed_code :: "string \<Rightarrow> bool" where
  "valid_closed_code v \<longleftrightarrow>
     v \<noteq> [] \<and> length v \<le> MAX_CLOSED_CODE_BYTES \<and> (\<forall>c \<in> set v. ascii_lower c \<or> ascii_digit c \<or> c = CHR ''_'')"

definition validate_operation_id :: "string \<Rightarrow> bool" where
  "validate_operation_id v \<longleftrightarrow> validate_b64url v OPERATION_ID_LEN"

text \<open>\<^verbatim>\<open>is_some_and\<close> of a failing check, and \<^verbatim>\<open>is_some\<close>.\<close>

definition fits :: "('a \<Rightarrow> bool) \<Rightarrow> 'a option \<Rightarrow> bool" where
  "fits p x \<longleftrightarrow> (case x of None \<Rightarrow> True | Some v \<Rightarrow> p v)"

section \<open>Validation of records\<close>

definition validate_prepared :: "PreparedOperation \<Rightarrow> bool" where
  "validate_prepared p \<longleftrightarrow>
     po_version p = SCHEMA_VERSION \<and> validate_b64url (po_operation_id p) OPERATION_ID_LEN
     \<and> po_lifecycle_key_version p \<noteq> 0 \<and> po_revoke_spec_version p \<noteq> 0
     \<and> fits (\<lambda>v. validate_b64url v DIGEST_LEN) (po_credential_etag p)
     \<and> fits is_uuid_v4 (po_prior_generation p)
     \<and> fits (\<lambda>v. validate_b64url v DIGEST_LEN) (po_prior_subject_digest p)
     \<and> (po_initial_revoke_request_target p \<noteq> None \<longleftrightarrow> po_initial_revoke_scope_guarantee p \<noteq> None)
     \<and> validate_b64url (po_request_id_hash p) 43 \<and> validate_b64url (po_idempotency_key p) 43
     \<and> validate_b64url (po_payload_digest p) 43"

definition validate_authority :: "Authority \<Rightarrow> bool" where
  "validate_authority a \<longleftrightarrow>
     au_version a = SCHEMA_VERSION \<and> au_initialized a \<and> au_lifecycle_key_version a \<noteq> 0
     \<and> length (au_current_credential_etags a) \<le> length ALL_PROVIDERS
     \<and> length (au_active_operations a) \<le> length ALL_PROVIDERS
     \<and> length (au_retired_credential_etags a) \<le> length ALL_PROVIDERS
     \<and> (\<forall>e \<in> set (au_current_credential_etags a). validate_b64url (snd e) DIGEST_LEN)
     \<and> (\<forall>e \<in> set (au_retired_credential_etags a). length (snd e) \<le> MAX_RETIRED_ETAGS
          \<and> (\<forall>v \<in> set (snd e). validate_b64url v DIGEST_LEN))
     \<and> (\<forall>e \<in> set (au_active_operations a). validate_prepared (ao_prepared (snd e))
          \<and> validate_b64url (ao_operation_etag (snd e)) 43 \<and> validate_b64url (ao_journal_record_id (snd e)) 43)"

primrec validate_grant :: "RevokedGrantRef \<Rightarrow> bool" where
  "validate_grant (ActiveCredential generation) = is_uuid_v4 generation"
| "validate_grant (OAuthCandidateGrant record_id) = validate_b64url record_id DIGEST_LEN"

definition validate_journal :: "Journal \<Rightarrow> bool" where
  "validate_journal j \<longleftrightarrow>
     jo_version j = SCHEMA_VERSION \<and> jo_attempt_count j \<le> MAX_ATTEMPTS
     \<and> validate_prepared (jo_prepared j)
     \<and> validate_b64url (jo_lease_owner_nonce j) 22 \<and> validate_b64url (jo_operation_etag j) 43
     \<and> jo_created_at_ms j \<le> jo_updated_at_ms j
     \<and> (jo_attempt_count j = 0 \<longrightarrow> jo_in_flight_until_ms j = 0)
     \<and> fits valid_closed_code (jo_closed_code j)
     \<and> (jo_revoke_request_target j \<noteq> None \<longleftrightarrow> jo_revoke_scope_guarantee j \<noteq> None)
     \<and> (if jo_revoke_leg j = 0
        then jo_revoked_grant j = None \<and> jo_revoke_request_target j = None \<and> jo_revoke_scope_guarantee j = None
        else jo_revoked_grant j \<noteq> None \<and> jo_revoke_request_target j \<noteq> None \<and> jo_revoke_scope_guarantee j \<noteq> None)
     \<and> fits validate_grant (jo_revoked_grant j)"

definition validate_exchange_intent :: "ExchangeIntent \<Rightarrow> bool" where
  "validate_exchange_intent i \<longleftrightarrow>
     ei_version i = SCHEMA_VERSION \<and> validate_b64url (ei_operation_id i) OPERATION_ID_LEN
     \<and> length (ei_attempt_id i) = 32 \<and> (\<forall>c \<in> set (ei_attempt_id i). lower_hex c)
     \<and> ei_created_at_ms i < ei_expires_at_ms i"

definition validate_candidate :: "string \<Rightarrow> Candidate \<Rightarrow> bool" where
  "validate_candidate expected c \<longleftrightarrow>
     ca_version c = SCHEMA_VERSION \<and> ca_record_id c = expected
     \<and> validate_b64url (ca_record_id c) DIGEST_LEN \<and> validate_b64url (ca_operation_id c) OPERATION_ID_LEN
     \<and> ca_access_token c \<noteq> [] \<and> length (ca_access_token c) \<le> MAX_TOKEN_BYTES
     \<and> ca_refresh_token c \<noteq> [] \<and> length (ca_refresh_token c) \<le> MAX_TOKEN_BYTES
     \<and> fits (\<lambda>v. v \<noteq> [] \<and> length v \<le> MAX_PROVIDER_ACCOUNT_ID_BYTES) (ca_provider_account_id c)
     \<and> fits (\<lambda>v. validate_b64url v DIGEST_LEN) (ca_subject_digest c)
     \<and> fits (\<lambda>v. validate_b64url v DIGEST_LEN) (ca_session_id_digest c)
     \<and> fits is_uuid_v4 (ca_result_generation c)
     \<and> ca_created_at_ms c \<le> ca_expires_at_ms c
     \<and> (ca_state c \<in> {GrantBearing, RevokeUnknown} \<longrightarrow> ca_terminal_at_ms c = None)
     \<and> (ca_state c \<in> {RevokedCleaned, Promoted} \<longrightarrow> ca_terminal_at_ms c \<noteq> None)"

text \<open>The last bound is on the JSON form of a receipt, whose length is a parameter.\<close>

definition validate_receipt :: "(Receipt \<Rightarrow> nat) \<Rightarrow> Receipt \<Rightarrow> bool" where
  "validate_receipt json_len r \<longleftrightarrow>
     rc_version r = SCHEMA_VERSION \<and> validate_b64url (rc_operation_id r) OPERATION_ID_LEN
     \<and> validate_b64url (rc_operation_etag r) DIGEST_LEN \<and> validate_b64url (rc_idempotency_key r) DIGEST_LEN
     \<and> validate_b64url (rc_payload_digest r) DIGEST_LEN
     \<and> fits is_uuid_v4 (rc_prior_generation r) \<and> fits is_uuid_v4 (rc_result_generation r)
     \<and> rc_lifecycle_key_version r \<noteq> 0 \<and> valid_closed_code (rc_terminal_code r)
     \<and> (rc_retention_not_before_ms r \<noteq> 0 \<longrightarrow> rc_completed_at_ms r \<le> rc_retention_not_before_ms r)
     \<and> json_len r \<le> MAX_RECEIPT_BYTES"

definition validate_receipts :: "(Receipt \<Rightarrow> nat) \<Rightarrow> ReceiptIndex \<Rightarrow> LifecycleRecordError option" where
  "validate_receipts json_len ix =
     (if ri_version ix \<noteq> SCHEMA_VERSION \<or> MAX_RECEIPTS < length (ri_receipts ix) then Some CountLimit
      else if \<forall>r \<in> set (ri_receipts ix). validate_receipt json_len r then None
      else Some Invalid)"

section \<open>The table of transitions\<close>

text \<open>The code's table: first the pairs allowed in every mode, then those of each mode.\<close>

definition retry_pair :: "AccountLifecyclePhase \<Rightarrow> AccountLifecyclePhase \<Rightarrow> bool" where
  "retry_pair a b \<longleftrightarrow> (a, b) \<in> {(RevokeInFlight, RevokeOutcomeUnknown), (RevokeOutcomeUnknown, RevokeInFlight),
     (ExchangeInFlight, ExchangeOutcomeUnknown), (CandidateValidation, OAuthCandidateCleanup),
     (OAuthCandidateCleanup, RevokeInFlight)}"

definition login_pair :: "AccountLifecyclePhase \<Rightarrow> AccountLifecyclePhase \<Rightarrow> bool" where
  "login_pair a b \<longleftrightarrow> (a, b) \<in> {(AwaitingOAuthLogin, ExchangeInFlight), (ExchangeInFlight, OAuthCandidateStored),
     (OAuthCandidateStored, CandidateValidation), (CandidateValidation, Completed)}"

definition revoke_pair :: "AccountLifecyclePhase \<Rightarrow> AccountLifecyclePhase \<Rightarrow> bool" where
  "revoke_pair a b \<longleftrightarrow> (a, b) \<in> {(Prepared, RevokeInFlight), (RevokeInFlight, RevokedPendingCleanup),
     (RevokedPendingCleanup, Disconnected)}"

definition transition_allowed :: "AccountLifecycleMode \<Rightarrow> AccountLifecyclePhase \<Rightarrow> AccountLifecyclePhase \<Rightarrow> bool" where
  "transition_allowed mode a b \<longleftrightarrow> retry_pair a b \<or>
     (case mode of
        Connect \<Rightarrow> (a, b) = (Prepared, AwaitingOAuthLogin) \<or> login_pair a b
      | Disconnect \<Rightarrow> revoke_pair a b \<or> (a, b) = (Disconnected, Completed)
      | Reconnect \<Rightarrow> revoke_pair a b \<or> (a, b) = (Disconnected, AwaitingOAuthLogin) \<or> login_pair a b
      | Switch \<Rightarrow> revoke_pair a b \<or> (a, b) = (Disconnected, AwaitingOAuthLogin) \<or> login_pair a b)"

definition candidate_reapable :: "Candidate \<Rightarrow> nat \<Rightarrow> bool" where
  "candidate_reapable c now \<longleftrightarrow> ca_state c \<in> {RevokedCleaned, Promoted}
     \<and> (case ca_terminal_at_ms c of None \<Rightarrow> False | Some t \<Rightarrow> 30 * 24 * 60 * 60 * 1000 \<le> now - t)"

section \<open>Receipts\<close>

definition disconnect_receipt :: "Journal \<Rightarrow> nat \<Rightarrow> Receipt" where
  "disconnect_receipt j completed_at =
     \<lparr>rc_version = SCHEMA_VERSION, rc_operation_id = po_operation_id (jo_prepared j),
      rc_operation_etag = jo_operation_etag j, rc_route = po_route (jo_prepared j), rc_mode = po_mode (jo_prepared j),
      rc_idempotency_key = po_idempotency_key (jo_prepared j), rc_payload_digest = po_payload_digest (jo_prepared j),
      rc_prior_generation = po_prior_generation (jo_prepared j), rc_result_generation = None,
      rc_completed_revoke_legs = jo_revoke_leg j, rc_lifecycle_epoch = po_lifecycle_epoch (jo_prepared j),
      rc_fence_epoch = po_fence_epoch (jo_prepared j),
      rc_lifecycle_key_version = po_lifecycle_key_version (jo_prepared j), rc_terminal_code = ''disconnected'',
      rc_completed_at_ms = completed_at, rc_retention_not_before_ms = receipt_retention_deadline completed_at\<rparr>"

text \<open>\<^verbatim>\<open>extend_generation_receipt_retention\<close>: the index and whether it changed.\<close>

definition names_generation :: "string \<Rightarrow> Receipt \<Rightarrow> bool" where
  "names_generation g r \<longleftrightarrow> rc_prior_generation r = Some g \<or> rc_result_generation r = Some g"

definition extend_generation_receipt_retention :: "ReceiptIndex \<Rightarrow> string option \<Rightarrow> nat \<Rightarrow> ReceiptIndex \<times> bool" where
  "extend_generation_receipt_retention ix generation retired_at =
     (case generation of
        None \<Rightarrow> (ix, False)
      | Some g \<Rightarrow>
          (let deadline = receipt_retention_deadline retired_at;
               extends = (\<lambda>r. names_generation g r \<and> rc_retention_not_before_ms r < deadline)
           in (ix\<lparr>ri_receipts := map (\<lambda>r. if extends r then r\<lparr>rc_retention_not_before_ms := deadline\<rparr> else r) (ri_receipts ix)\<rparr>,
               \<exists>r \<in> set (ri_receipts ix). extends r)))"

section \<open>Laws of the vocabulary\<close>

lemma provider_parse_wire [simp]: "provider_parse (provider_wire p) = Some p"
  by (cases p) (simp_all add: provider_parse_def)

lemma provider_wire_inject [simp]: "provider_wire p = provider_wire q \<longleftrightarrow> p = q"
  by (metis provider_parse_wire option.inject)

lemma provider_in_ALL [simp]: "p \<in> set ALL_PROVIDERS"
  by (cases p) (simp_all add: ALL_PROVIDERS_def)

lemma bt_ok_providers: "bt_ok m \<Longrightarrow> length m \<le> length ALL_PROVIDERS"
  for m :: "(ProductProviderId, 'a) btree"
proof -
  assume ok: "bt_ok m"
  have "length m = card (fst ` set m)" using bt_ok_distinct [OF ok] by (metis distinct_card length_map set_map)
  also have "\<dots> \<le> card (set ALL_PROVIDERS)" by (rule card_mono) auto
  also have "\<dots> \<le> length ALL_PROVIDERS" by (rule card_length)
  finally show ?thesis .
qed

lemma fits_simps [simp]: "fits p None" "fits p (Some v) \<longleftrightarrow> p v"
  by (simp_all add: fits_def)

lemma sat_add64_ge: "a \<le> U64_MAX \<Longrightarrow> a \<le> sat_add64 a b"
  by (simp add: sat_add64_def)

lemma next_epoch_exact: "next_epoch n = Inr e \<longleftrightarrow> n < U64_MAX \<and> e = Suc n"
  by (auto simp: next_epoch_def checked_succ_def)

end
