(* ===== verification/Account_Repo.thy ===== *)
theory Account_Repo
  imports Account_Types "HOL-Library.AList"
begin

text \<open>
  The lifecycle repository: the encrypted record store it keeps its files in, the derived identifiers and
  the loading and storing of each kind of record (\<^verbatim>\<open>LifecycleRepository\<close> of
  \<^verbatim>\<open>crates/app-host/src/account_lifecycle.rs\<close>).

  A program takes the world and returns a result or an error with the new world. Every call that reaches
  the operating system takes the next entry of \<open>lw_calls\<close>: it works, fails without effect, fails after its
  effect (a file renamed into place whose permissions cannot be set any more), or finds a lock held. Past
  the end of the list calls work. As every error ends the operation that meets it, a crash between two
  calls and an error of the second one leave the same files. Random texts come from \<open>lw_random\<close>. The
  cryptography and the length of a record's JSON form are parameters: \<open>le_tag\<close> is the keyed hash of a
  domain and a message in its text form. A file the repository finds is one it has written.
\<close>

datatype call_result = Works | Fails | FailsLate | Blocked

record LifecycleAuditEvent =
  ae_provider :: ProductProviderId
  ae_mode :: AccountLifecycleMode
  ae_phase :: AccountLifecyclePhase
  ae_revoke_scope_guarantee :: "string option"
  ae_retryable :: bool
  ae_local_cleanup_completed :: bool
  ae_account_changed :: bool
  ae_code :: string
  ae_timestamp_ms :: nat
  ae_operation_id_hash :: string

record lifecycle_files =
  lw_installation :: "Installation option"
  lw_authority :: "(string \<times> Authority) list"
  lw_journals :: "(string \<times> Journal) list"
  lw_receipts :: "(string \<times> ReceiptIndex) list"
  lw_intents :: "(string \<times> ExchangeIntent) list"
  lw_candidates :: "(string \<times> Candidate) list"

record lifecycle_world =
  lw_files :: lifecycle_files
  lw_calls :: "call_result list"
  lw_random :: "string list"
  lw_audit :: "LifecycleAuditEvent list"

record lifecycle_env =
  le_tag :: "string \<Rightarrow> bytes \<Rightarrow> string"
  le_hash :: "string \<Rightarrow> string"
  le_authority_len :: "Authority \<Rightarrow> nat"
  le_journal_len :: "Journal \<Rightarrow> nat"
  le_candidate_len :: "Candidate \<Rightarrow> nat"
  le_intent_len :: "ExchangeIntent \<Rightarrow> nat"
  le_index_len :: "ReceiptIndex \<Rightarrow> nat"
  le_receipt_len :: "Receipt \<Rightarrow> nat"
  le_audited :: bool

type_synonym 'a life = "lifecycle_world \<Rightarrow> (LifecycleRecordError + 'a) \<times> lifecycle_world"

section \<open>Programs\<close>

definition lret :: "'a \<Rightarrow> 'a life" where
  "lret x w = (Inr x, w)"

definition lfail :: "LifecycleRecordError \<Rightarrow> 'a life" where
  "lfail e w = (Inl e, w)"

text \<open>Sequencing with \<^verbatim>\<open>?\<close>, \<^verbatim>\<open>if !b { return Err(e) }\<close>, \<^verbatim>\<open>ok_or(e)?\<close> and \<^verbatim>\<open>.ok()\<close>.\<close>

definition lbind :: "'a life \<Rightarrow> ('a \<Rightarrow> 'b life) \<Rightarrow> 'b life" where
  "lbind p f w = (case p w of (Inl e, w') \<Rightarrow> (Inl e, w') | (Inr x, w') \<Rightarrow> f x w')"

definition lneed :: "bool \<Rightarrow> LifecycleRecordError \<Rightarrow> unit life" where
  "lneed b e = (if b then lret () else lfail e)"

definition lsome :: "LifecycleRecordError \<Rightarrow> 'a option \<Rightarrow> 'a life" where
  "lsome e x = (case x of None \<Rightarrow> lfail e | Some v \<Rightarrow> lret v)"

definition lok :: "'a life \<Rightarrow> 'a option life" where
  "lok p w = (case p w of (Inl e, w') \<Rightarrow> (Inr None, w') | (Inr x, w') \<Rightarrow> (Inr (Some x), w'))"

definition lift_sum :: "LifecycleRecordError + 'a \<Rightarrow> 'a life" where
  "lift_sum r w = (r, w)"

section \<open>The operating system\<close>

definition next_call :: "lifecycle_world \<Rightarrow> call_result \<times> lifecycle_world" where
  "next_call w = (case lw_calls w of [] \<Rightarrow> (Works, w) | c # cs \<Rightarrow> (c, w\<lparr>lw_calls := cs\<rparr>))"

definition ask :: "(lifecycle_files \<Rightarrow> 'a) \<Rightarrow> 'a life" where
  "ask f w = (case next_call w of (c, w') \<Rightarrow> (if c = Works then Inr (f (lw_files w')) else Inl StoreFailed, w'))"

definition change :: "(lifecycle_files \<Rightarrow> lifecycle_files) \<Rightarrow> unit life" where
  "change f w = (case next_call w of
       (Works, w') \<Rightarrow> (Inr (), w'\<lparr>lw_files := f (lw_files w')\<rparr>)
     | (FailsLate, w') \<Rightarrow> (Inl StoreFailed, w'\<lparr>lw_files := f (lw_files w')\<rparr>)
     | (_, w') \<Rightarrow> (Inl StoreFailed, w'))"

definition try_acquire_lock :: "unit life" where
  "try_acquire_lock w = (case next_call w of
       (Works, w') \<Rightarrow> (Inr (), w') | (Blocked, w') \<Rightarrow> (Inl Busy, w') | (_, w') \<Rightarrow> (Inl StoreFailed, w'))"

definition random_b64url :: "string life" where
  "random_b64url w = (case lw_random w of [] \<Rightarrow> (Inl StoreFailed, w) | r # rs \<Rightarrow> (Inr r, w\<lparr>lw_random := rs\<rparr>))"

definition mint_operation_id :: "string life" where
  "mint_operation_id = random_b64url"

text \<open>\<^verbatim>\<open>put_record\<close>: nothing is written when the JSON form is over its bound.\<close>

definition put_record :: "('v \<Rightarrow> nat) \<Rightarrow> nat \<Rightarrow> 'v \<Rightarrow> (lifecycle_files \<Rightarrow> lifecycle_files) \<Rightarrow> unit life" where
  "put_record json_len bound v write = (if bound < json_len v then lfail SizeLimit else change write)"

section \<open>Derived identifiers\<close>

text \<open>The message is the fields, each after its length in four bytes.\<close>

definition tag_message :: "bytes list \<Rightarrow> bytes" where
  "tag_message parts = concat (map (\<lambda>f. be_bytes 4 (length f) @ f) parts)"

definition derive_tag :: "lifecycle_env \<Rightarrow> string \<Rightarrow> bytes list \<Rightarrow> string life" where
  "derive_tag env domain parts =
     (if \<exists>f \<in> set parts. U32_MAX < length f then lfail SizeLimit
      else if 64 * 1024 < length (tag_message parts) then lfail StoreFailed
      else ask (\<lambda>_. le_tag env domain (tag_message parts)))"

definition operation_fields :: "string \<Rightarrow> ProductProviderId \<Rightarrow> string \<Rightarrow> bytes list" where
  "operation_fields owner p operation_id =
     [str_bytes owner, str_bytes (provider_wire p), str_bytes operation_id]"

definition journal_record_id :: "lifecycle_env \<Rightarrow> string \<Rightarrow> ProductProviderId \<Rightarrow> string \<Rightarrow> string life" where
  "journal_record_id env owner p operation_id =
     derive_tag env ''isyncyou/account-lifecycle-journal-id/v1'' (operation_fields owner p operation_id)"

definition candidate_id_of :: "lifecycle_env \<Rightarrow> string \<Rightarrow> ProductProviderId \<Rightarrow> string \<Rightarrow> string life" where
  "candidate_id_of env owner p operation_id =
     derive_tag env ''isyncyou/account-lifecycle-candidate-id/v1'' (operation_fields owner p operation_id)"

definition receipt_index_id :: "lifecycle_env \<Rightarrow> string \<Rightarrow> ProductProviderId \<Rightarrow> string life" where
  "receipt_index_id env owner p =
     derive_tag env ''isyncyou/account-lifecycle-receipt-id/v1'' [str_bytes owner, str_bytes (provider_wire p)]"

definition credential_tag :: "lifecycle_env \<Rightarrow> string \<Rightarrow> ProductProviderId \<Rightarrow> string \<Rightarrow> nat \<Rightarrow> string life" where
  "credential_tag env owner p generation epoch =
     derive_tag env ''isyncyou/account-lifecycle-credential-etag/v1''
       [str_bytes owner, str_bytes (provider_wire p), str_bytes generation, be_bytes 8 epoch]"

definition credential_etag_for_epoch ::
    "lifecycle_env \<Rightarrow> string \<Rightarrow> ProductProviderId \<Rightarrow> string \<Rightarrow> nat \<Rightarrow> string life" where
  "credential_etag_for_epoch env owner p generation epoch =
     (if is_uuid_v4 generation then credential_tag env owner p generation epoch else lfail Invalid)"

section \<open>Loading and storing\<close>

definition put_authority :: "lifecycle_env \<Rightarrow> string \<Rightarrow> Authority \<Rightarrow> unit life" where
  "put_authority env owner a =
     (if validate_authority a
      then put_record (le_authority_len env) AUTHORITY_PLAINTEXT_MAX a (lw_authority_update (AList.update owner a))
      else lfail Invalid)"

definition put_journal :: "lifecycle_env \<Rightarrow> string \<Rightarrow> Journal \<Rightarrow> unit life" where
  "put_journal env i j =
     (if validate_b64url i 43 \<and> validate_journal j
      then put_record (le_journal_len env) JOURNAL_PLAINTEXT_MAX j (lw_journals_update (AList.update i j))
      else lfail Invalid)"

definition load_journal :: "string \<Rightarrow> Journal option life" where
  "load_journal i =
     (if validate_b64url i DIGEST_LEN
      then lbind (ask (\<lambda>w. map_of (lw_journals w) i)) (\<lambda>j. if fits validate_journal j then lret j else lfail Invalid)
      else lfail Invalid)"

definition delete_journal :: "string \<Rightarrow> unit life" where
  "delete_journal i =
     (if validate_b64url i DIGEST_LEN then change (lw_journals_update (AList.delete i)) else lfail Invalid)"

definition put_candidate :: "lifecycle_env \<Rightarrow> string \<Rightarrow> Candidate \<Rightarrow> unit life" where
  "put_candidate env i c =
     (if validate_b64url i 43 \<and> validate_candidate i c
      then put_record (le_candidate_len env) CANDIDATE_PLAINTEXT_MAX c (lw_candidates_update (AList.update i c))
      else lfail Invalid)"

definition load_candidate :: "string \<Rightarrow> Candidate option life" where
  "load_candidate i =
     (if validate_b64url i DIGEST_LEN
      then lbind (ask (\<lambda>w. map_of (lw_candidates w) i)) (\<lambda>c. if fits (validate_candidate i) c then lret c else lfail Invalid)
      else lfail Invalid)"

definition delete_candidate :: "string \<Rightarrow> unit life" where
  "delete_candidate i =
     (if validate_b64url i DIGEST_LEN then change (lw_candidates_update (AList.delete i)) else lfail Invalid)"

definition put_exchange_intent :: "lifecycle_env \<Rightarrow> string \<Rightarrow> ExchangeIntent \<Rightarrow> unit life" where
  "put_exchange_intent env i x =
     (if validate_b64url i DIGEST_LEN \<and> validate_exchange_intent x
      then put_record (le_intent_len env) EXCHANGE_PLAINTEXT_MAX x (lw_intents_update (AList.update i x))
      else lfail Invalid)"

definition put_receipt_index :: "lifecycle_env \<Rightarrow> string \<Rightarrow> ReceiptIndex \<Rightarrow> unit life" where
  "put_receipt_index env i ix =
     (if \<not> validate_b64url i DIGEST_LEN then lfail Invalid
      else case validate_receipts (le_receipt_len env) ix of
             Some e \<Rightarrow> lfail e
           | None \<Rightarrow> put_record (le_index_len env) RECEIPT_INDEX_PLAINTEXT_MAX ix (lw_receipts_update (AList.update i ix)))"

definition load_receipt_index :: "lifecycle_env \<Rightarrow> string \<Rightarrow> ReceiptIndex option life" where
  "load_receipt_index env i =
     lbind (ask (\<lambda>w. map_of (lw_receipts w) i)) (\<lambda>ix.
       case ix of
         None \<Rightarrow> lret None
       | Some x \<Rightarrow> (case validate_receipts (le_receipt_len env) x of Some e \<Rightarrow> lfail e | None \<Rightarrow> lret (Some x)))"

section \<open>The installation and its authority\<close>

record InstallationContext =
  ic_principal :: string
  ic_authority :: Authority

definition installation_ok :: "Installation \<Rightarrow> bool" where
  "installation_ok i \<longleftrightarrow> in_version i = SCHEMA_VERSION \<and> in_initialized i \<and> validate_b64url (in_principal i) NONCE_LEN"

text \<open>\<^verbatim>\<open>directory_contains_class\<close> asks for the files of one class, \<^verbatim>\<open>directory_contains_lifecycle_residue\<close>
  for those of five classes, in this order, up to the first that is there.\<close>

definition directory_contains_class :: "(lifecycle_files \<Rightarrow> bool) \<Rightarrow> bool life" where
  "directory_contains_class there = ask there"

fun any_class :: "(lifecycle_files \<Rightarrow> bool) list \<Rightarrow> bool life" where
  "any_class [] = lret False"
| "any_class (c # cs) = lbind (directory_contains_class c) (\<lambda>found. if found then lret True else any_class cs)"

definition directory_contains_lifecycle_residue :: "bool life" where
  "directory_contains_lifecycle_residue = any_class
     [\<lambda>w. lw_authority w \<noteq> [], \<lambda>w. lw_journals w \<noteq> [], \<lambda>w. lw_receipts w \<noteq> [], \<lambda>w. lw_intents w \<noteq> [],
      \<lambda>w. lw_candidates w \<noteq> []]"

definition fresh_authority :: "Authority" where
  "fresh_authority =
     \<lparr>au_version = SCHEMA_VERSION, au_initialized = True, au_lifecycle_epoch = 0, au_fence_epoch = 0,
      au_lifecycle_key_version = 1, au_current_credential_etags = [], au_retired_credential_etags = [],
      au_active_operations = []\<rparr>"

definition ensure_installation :: "Installation option \<Rightarrow> Installation life" where
  "ensure_installation found =
     (case found of
        Some i \<Rightarrow> if installation_ok i then lret i else lfail MissingInstallationPrincipal
      | None \<Rightarrow>
          lbind directory_contains_lifecycle_residue (\<lambda>residue.
          lbind (lneed (\<not> residue) MissingInstallationPrincipal) (\<lambda>_.
          lbind random_b64url (\<lambda>owner.
          let i = \<lparr>in_version = SCHEMA_VERSION, in_initialized = True, in_principal = owner\<rparr>
          in lbind (change (\<lambda>w. w\<lparr>lw_installation := Some i\<rparr>)) (\<lambda>_. lret i)))))"

definition initialize_repo :: "lifecycle_env \<Rightarrow> InstallationContext life" where
  "initialize_repo env =
     lbind try_acquire_lock (\<lambda>_.
     lbind (ask lw_installation) (\<lambda>found.
     lbind (ensure_installation found) (\<lambda>i.
     let owner = in_principal i in
     lbind (ask (\<lambda>w. map_of (lw_authority w) owner)) (\<lambda>a.
     case a of
       Some authority \<Rightarrow>
         if validate_authority authority then lret \<lparr>ic_principal = owner, ic_authority = authority\<rparr> else lfail Invalid
     | None \<Rightarrow>
         lbind (if found = None then lret False else directory_contains_lifecycle_residue) (\<lambda>residue.
         lbind (lneed (\<not> residue) MissingInstallationPrincipal) (\<lambda>_.
         lbind (put_authority env owner fresh_authority) (\<lambda>_.
         lret \<lparr>ic_principal = owner, ic_authority = fresh_authority\<rparr>)))))))"

definition load_existing :: "InstallationContext option life" where
  "load_existing =
     lbind (ask lw_installation) (\<lambda>found.
     case found of
       None \<Rightarrow>
         lbind (directory_contains_class (\<lambda>w. lw_authority w \<noteq> [])) (\<lambda>residue.
         if residue then lfail MissingInstallationPrincipal else lret None)
     | Some i \<Rightarrow>
         if \<not> installation_ok i then lfail MissingInstallationPrincipal
         else lbind (ask (\<lambda>w. map_of (lw_authority w) (in_principal i))) (\<lambda>a.
              case a of
                None \<Rightarrow> lfail MissingInstallationPrincipal
              | Some authority \<Rightarrow>
                  if validate_authority authority
                  then lret (Some \<lparr>ic_principal = in_principal i, ic_authority = authority\<rparr>)
                  else lfail Invalid))"

definition existing_or :: "LifecycleRecordError \<Rightarrow> InstallationContext life" where
  "existing_or e = lbind load_existing (lsome e)"

definition provider_blocked :: "ProductProviderId \<Rightarrow> bool life" where
  "provider_blocked p = lbind load_existing (\<lambda>ctx.
     lret (case ctx of None \<Rightarrow> False | Some c \<Rightarrow> map_of (au_active_operations (ic_authority c)) p \<noteq> None))"

definition active_operation :: "ProductProviderId \<Rightarrow> ActiveOperationRef option life" where
  "active_operation p = lbind load_existing (\<lambda>ctx.
     lret (case ctx of None \<Rightarrow> None | Some c \<Rightarrow> map_of (au_active_operations (ic_authority c)) p))"

definition projected_credential_etag :: "lifecycle_env \<Rightarrow> ProductProviderId \<Rightarrow> string \<Rightarrow> string life" where
  "projected_credential_etag env p generation =
     lbind (existing_or MissingInstallationPrincipal) (\<lambda>c.
     lbind (lift_sum (next_epoch (au_lifecycle_epoch (ic_authority c)))) (\<lambda>epoch.
     credential_etag_for_epoch env (ic_principal c) p generation epoch))"

definition bind_current_credential_generation :: "lifecycle_env \<Rightarrow> ProductProviderId \<Rightarrow> string \<Rightarrow> string life" where
  "bind_current_credential_generation env p generation =
     lbind (lneed (is_uuid_v4 generation) Invalid) (\<lambda>_.
     lbind (existing_or MissingInstallationPrincipal) (\<lambda>c.
     let a = ic_authority c in
     lbind (lneed (map_of (au_active_operations a) p = None) Busy) (\<lambda>_.
     case map_of (au_current_credential_etags a) p of
       Some existing \<Rightarrow> lret existing
     | None \<Rightarrow>
         lbind (credential_etag_for_epoch env (ic_principal c) p generation (au_lifecycle_epoch a)) (\<lambda>etag.
         lbind (put_authority env (ic_principal c)
                  (a\<lparr>au_current_credential_etags := bt_insert p etag (au_current_credential_etags a)\<rparr>)) (\<lambda>_.
         lret etag)))))"

definition candidate_record_id :: "lifecycle_env \<Rightarrow> ProductProviderId \<Rightarrow> string \<Rightarrow> string life" where
  "candidate_record_id env p operation_id =
     lbind (lneed (validate_b64url operation_id OPERATION_ID_LEN) Invalid) (\<lambda>_.
     lbind (existing_or MissingInstallationPrincipal) (\<lambda>c.
     candidate_id_of env (ic_principal c) p operation_id))"

definition exchange_intent_id :: "lifecycle_env \<Rightarrow> ProductProviderId \<Rightarrow> string \<Rightarrow> string life" where
  "exchange_intent_id env p operation_id =
     lbind (existing_or MissingInstallationPrincipal) (\<lambda>c.
     derive_tag env ''isyncyou/account-lifecycle-exchange-intent-id/v1''
       (operation_fields (ic_principal c) p operation_id))"

definition load_exchange_intent :: "lifecycle_env \<Rightarrow> ProductProviderId \<Rightarrow> string \<Rightarrow> ExchangeIntent option life" where
  "load_exchange_intent env p operation_id =
     lbind (exchange_intent_id env p operation_id) (\<lambda>i.
     lbind (ask (\<lambda>w. map_of (lw_intents w) i)) (\<lambda>x.
     if fits validate_exchange_intent x then lret x else lfail Invalid))"

definition delete_exchange_intent :: "lifecycle_env \<Rightarrow> ProductProviderId \<Rightarrow> string \<Rightarrow> unit life" where
  "delete_exchange_intent env p operation_id =
     lbind (exchange_intent_id env p operation_id) (\<lambda>i. change (lw_intents_update (AList.delete i)))"

section \<open>The audit\<close>

definition audit_event :: "lifecycle_env \<Rightarrow> Journal \<Rightarrow> bool \<Rightarrow> bool \<Rightarrow> LifecycleAuditEvent" where
  "audit_event env j cleaned changed =
     \<lparr>ae_provider = po_provider (jo_prepared j), ae_mode = po_mode (jo_prepared j), ae_phase = jo_phase j,
      ae_revoke_scope_guarantee = map_option revoke_scope_wire
        (case jo_revoke_scope_guarantee j of None \<Rightarrow> po_initial_revoke_scope_guarantee (jo_prepared j) | Some s \<Rightarrow> Some s),
      ae_retryable = (jo_phase j \<in> {RevokeOutcomeUnknown, RevokedPendingCleanup, ExchangeOutcomeUnknown, OAuthCandidateCleanup}),
      ae_local_cleanup_completed = cleaned, ae_account_changed = changed,
      ae_code = (case jo_closed_code j of None \<Rightarrow> phase_wire (jo_phase j) | Some c \<Rightarrow> c),
      ae_timestamp_ms = jo_updated_at_ms j, ae_operation_id_hash = le_hash env (po_operation_id (jo_prepared j))\<rparr>"

definition emit_audit :: "lifecycle_env \<Rightarrow> Journal \<Rightarrow> bool \<Rightarrow> bool \<Rightarrow> unit life" where
  "emit_audit env j cleaned changed w =
     (Inr (), if le_audited env then w\<lparr>lw_audit := lw_audit w @ [audit_event env j cleaned changed]\<rparr> else w)"

definition emit_transition_audit :: "lifecycle_env \<Rightarrow> Journal \<Rightarrow> unit life" where
  "emit_transition_audit env j = emit_audit env j (jo_phase j = AwaitingOAuthLogin) False"

definition emit_terminal_cleanup_audit :: "lifecycle_env \<Rightarrow> Journal \<Rightarrow> unit life" where
  "emit_terminal_cleanup_audit env j =
     emit_audit env j True (po_mode (jo_prepared j) = Switch \<and> jo_phase j = Completed)"

end
