(* ===== verification/Account_Ops.thy ===== *)
theory Account_Ops
  imports Account_Repo
begin

text \<open>
  The operations of the lifecycle repository (\<^verbatim>\<open>crates/app-host/src/account_lifecycle.rs\<close>): beginning an
  operation with its idempotent replay, the fenced writes of the journal, the revocation legs, the login
  exchange and its candidate, the terminal receipts, and the removal of what a finished operation leaves.
\<close>

section \<open>Beginning an operation\<close>

record BeginLifecycleOperation =
  bo_operation_id :: string
  bo_operation_etag :: string
  bo_journal_record_id :: string
  bo_idempotent_replay :: bool

record begin_request =
  br_provider :: ProductProviderId
  br_route :: AccountLifecycleRoute
  br_mode :: AccountLifecycleMode
  br_request_id :: string
  br_generation :: "string option"
  br_subject_digest :: "string option"
  br_target :: "RevokeRequestTarget option"
  br_scope :: "RevokeScopeGuarantee option"

definition begin_request_ok :: "begin_request \<Rightarrow> bool" where
  "begin_request_ok q \<longleftrightarrow>
     is_uuid_v4 (br_request_id q)
     \<and> fits is_uuid_v4 (br_generation q)
     \<and> fits (\<lambda>v. validate_b64url v DIGEST_LEN) (br_subject_digest q)
     \<and> (br_target q \<noteq> None \<longleftrightarrow> br_scope q \<noteq> None)
     \<and> (br_mode q \<in> {Disconnect, Reconnect, Switch} \<longrightarrow> br_generation q \<noteq> None \<and> br_target q \<noteq> None)
     \<and> (br_mode q = Connect \<longrightarrow> br_generation q = None \<and> br_subject_digest q = None \<and> br_target q = None)"

definition idempotency_tag :: "lifecycle_env \<Rightarrow> string \<Rightarrow> begin_request \<Rightarrow> string life" where
  "idempotency_tag env owner q =
     derive_tag env ''isyncyou/account-lifecycle-idempotency/v1''
       [str_bytes owner, str_bytes (route_wire (br_route q)), str_bytes (br_request_id q)]"

definition text_or_empty :: "string option \<Rightarrow> string" where
  "text_or_empty x = (case x of None \<Rightarrow> [] | Some v \<Rightarrow> v)"

definition payload_tag :: "lifecycle_env \<Rightarrow> begin_request \<Rightarrow> string life" where
  "payload_tag env q =
     derive_tag env ''isyncyou/account-lifecycle-payload/v1''
       [str_bytes (provider_wire (br_provider q)), str_bytes (mode_wire (br_mode q)),
        str_bytes (text_or_empty (br_generation q)),
        str_bytes (text_or_empty (map_option revoke_target_wire (br_target q))),
        str_bytes (text_or_empty (map_option revoke_scope_wire (br_scope q)))]"

definition replay_active :: "string \<Rightarrow> string \<Rightarrow> ActiveOperationRef \<Rightarrow> BeginLifecycleOperation life" where
  "replay_active key digest active =
     (if po_idempotency_key (ao_prepared active) \<noteq> key then lfail OperationInProgress
      else if po_payload_digest (ao_prepared active) \<noteq> digest then lfail IdempotencyConflict
      else lret \<lparr>bo_operation_id = po_operation_id (ao_prepared active), bo_operation_etag = ao_operation_etag active,
                 bo_journal_record_id = ao_journal_record_id active, bo_idempotent_replay = True\<rparr>)"

definition replay_receipt ::
    "lifecycle_env \<Rightarrow> string \<Rightarrow> ProductProviderId \<Rightarrow> string \<Rightarrow> Receipt \<Rightarrow> BeginLifecycleOperation life" where
  "replay_receipt env owner p digest r =
     (if rc_payload_digest r \<noteq> digest then lfail IdempotencyConflict
      else lbind (journal_record_id env owner p ''terminal'') (\<lambda>i.
           lret \<lparr>bo_operation_id = rc_operation_id r, bo_operation_etag = rc_operation_etag r,
                 bo_journal_record_id = i, bo_idempotent_replay = True\<rparr>))"

definition fresh_journal :: "PreparedOperation \<Rightarrow> string \<Rightarrow> string \<Rightarrow> nat \<Rightarrow> nat \<Rightarrow> Journal" where
  "fresh_journal prepared nonce etag created updated =
     \<lparr>jo_version = SCHEMA_VERSION, jo_prepared = prepared, jo_lease_owner_nonce = nonce, jo_operation_etag = etag,
      jo_phase = Prepared, jo_revoke_leg = 0, jo_revoked_grant = None, jo_revoke_request_target = None,
      jo_revoke_scope_guarantee = None, jo_attempt_count = 0, jo_in_flight_until_ms = 0,
      jo_created_at_ms = created, jo_updated_at_ms = updated, jo_closed_code = None\<rparr>"

text \<open>The record an operation is prepared with, from the request, the epochs and the derived texts.\<close>

definition prepared_of ::
    "begin_request \<Rightarrow> nat \<Rightarrow> string \<Rightarrow> string \<Rightarrow> string \<Rightarrow> string \<Rightarrow> nat \<Rightarrow> nat \<Rightarrow> nat \<Rightarrow> string option \<Rightarrow> PreparedOperation" where
  "prepared_of q now operation_id request_hash key digest epoch fence key_version credential =
     \<lparr>po_version = SCHEMA_VERSION, po_provider = br_provider q, po_operation_id = operation_id, po_route = br_route q,
      po_request_id_hash = request_hash, po_idempotency_key = key, po_payload_digest = digest, po_mode = br_mode q,
      po_lifecycle_epoch = epoch, po_fence_epoch = fence, po_lifecycle_key_version = key_version,
      po_credential_etag = credential, po_prior_generation = br_generation q,
      po_prior_subject_digest = br_subject_digest q, po_revoke_spec_version = 1,
      po_initial_revoke_request_target = br_target q, po_initial_revoke_scope_guarantee = br_scope q,
      po_prepared_at_ms = now\<rparr>"

definition reserve :: "Authority \<Rightarrow> ActiveOperationRef \<Rightarrow> Authority" where
  "reserve a active =
     (let prepared = ao_prepared active; p = po_provider prepared
      in a\<lparr>au_lifecycle_epoch := po_lifecycle_epoch prepared, au_fence_epoch := po_fence_epoch prepared,
           au_current_credential_etags :=
             (case po_credential_etag prepared of
                None \<Rightarrow> au_current_credential_etags a
              | Some etag \<Rightarrow> bt_insert p etag (au_current_credential_etags a)),
           au_active_operations := bt_insert p active (au_active_operations a)\<rparr>)"

definition credential_etag_of ::
    "lifecycle_env \<Rightarrow> string \<Rightarrow> ProductProviderId \<Rightarrow> string option \<Rightarrow> nat \<Rightarrow> string option life" where
  "credential_etag_of env owner p generation epoch =
     (case generation of
        None \<Rightarrow> lret None
      | Some g \<Rightarrow> lbind (credential_etag_for_epoch env owner p g epoch) (\<lambda>etag. lret (Some etag)))"

definition begin_new ::
    "lifecycle_env \<Rightarrow> InstallationContext \<Rightarrow> string \<Rightarrow> string \<Rightarrow> begin_request \<Rightarrow> nat \<Rightarrow> BeginLifecycleOperation life" where
  "begin_new env ctx key digest q now =
     (let owner = ic_principal ctx; a = ic_authority ctx; p = br_provider q in
      lbind (lift_sum (next_epoch (au_lifecycle_epoch a))) (\<lambda>epoch.
      lbind (lift_sum (next_epoch (au_fence_epoch a))) (\<lambda>fence.
      lbind mint_operation_id (\<lambda>operation_id.
      lbind (derive_tag env ''isyncyou/account-lifecycle-operation-etag/v1''
               (operation_fields owner p operation_id @ [be_bytes 8 epoch, be_bytes 8 fence])) (\<lambda>etag.
      lbind (journal_record_id env owner p operation_id) (\<lambda>journal_id.
      lbind (credential_etag_of env owner p (br_generation q) epoch) (\<lambda>credential.
      lbind (derive_tag env ''isyncyou/account-lifecycle-request-id/v1'' [str_bytes (br_request_id q)]) (\<lambda>request_hash.
      let prepared = prepared_of q now operation_id request_hash key digest epoch fence (au_lifecycle_key_version a) credential;
          active = \<lparr>ao_prepared = prepared, ao_operation_etag = etag, ao_journal_record_id = journal_id\<rparr>
      in lbind (put_authority env owner (reserve a active)) (\<lambda>_.
         lbind random_b64url (\<lambda>nonce.
         let j = fresh_journal prepared nonce etag now now
         in lbind (put_journal env journal_id j) (\<lambda>_.
            lbind (emit_transition_audit env j) (\<lambda>_.
            lret \<lparr>bo_operation_id = operation_id, bo_operation_etag = etag, bo_journal_record_id = journal_id,
                  bo_idempotent_replay = False\<rparr>))))))))))))"

definition begin_operation :: "lifecycle_env \<Rightarrow> begin_request \<Rightarrow> nat \<Rightarrow> BeginLifecycleOperation life" where
  "begin_operation env q now =
     (if \<not> begin_request_ok q then lfail Invalid
      else
        lbind (initialize_repo env) (\<lambda>ctx.
        lbind (idempotency_tag env (ic_principal ctx) q) (\<lambda>key.
        lbind (payload_tag env q) (\<lambda>digest.
        let p = br_provider q; actives = au_active_operations (ic_authority ctx) in
        case map_of actives p of
          Some active \<Rightarrow> replay_active key digest active
        | None \<Rightarrow>
            if length ALL_PROVIDERS \<le> length actives then lfail CountLimit
            else
              lbind (receipt_index_id env (ic_principal ctx) p) (\<lambda>receipt_id.
              lbind (load_receipt_index env receipt_id) (\<lambda>ix.
              case ix of
                None \<Rightarrow> begin_new env ctx key digest q now
              | Some x \<Rightarrow>
                  (case List.find (\<lambda>r. rc_idempotency_key r = key) (ri_receipts x) of
                     Some r \<Rightarrow> replay_receipt env (ic_principal ctx) p digest r
                   | None \<Rightarrow>
                       if MAX_RECEIPTS \<le> length (ri_receipts x) then lfail ReceiptCapacityExhausted
                       else begin_new env ctx key digest q now)))))))"

definition begin_disconnect ::
    "lifecycle_env \<Rightarrow> ProductProviderId \<Rightarrow> string \<Rightarrow> string \<Rightarrow> string option \<Rightarrow> RevokeRequestTarget \<Rightarrow> RevokeScopeGuarantee
     \<Rightarrow> nat \<Rightarrow> BeginLifecycleOperation life" where
  "begin_disconnect env p request_id generation subject target scope now =
     begin_operation env
       \<lparr>br_provider = p, br_route = Logout, br_mode = Disconnect, br_request_id = request_id,
        br_generation = Some generation, br_subject_digest = subject, br_target = Some target, br_scope = Some scope\<rparr> now"

section \<open>Fenced writes\<close>

definition same_operation :: "Authority \<Rightarrow> Journal \<Rightarrow> ActiveOperationRef \<Rightarrow> bool" where
  "same_operation a j active \<longleftrightarrow>
     po_operation_id (ao_prepared active) = po_operation_id (jo_prepared j)
     \<and> ao_operation_etag active = jo_operation_etag j
     \<and> au_lifecycle_epoch a = po_lifecycle_epoch (jo_prepared j)
     \<and> au_fence_epoch a = po_fence_epoch (jo_prepared j)"

definition active_of :: "Authority \<Rightarrow> Journal \<Rightarrow> ActiveOperationRef option" where
  "active_of a j = map_of (au_active_operations a) (po_provider (jo_prepared j))"

definition write_journal_fenced :: "lifecycle_env \<Rightarrow> string \<Rightarrow> Journal \<Rightarrow> unit life" where
  "write_journal_fenced env i j =
     lbind (existing_or StaleFence) (\<lambda>c.
     lbind (lsome StaleFence (active_of (ic_authority c) j)) (\<lambda>active.
     if same_operation (ic_authority c) j active \<and> ao_journal_record_id active = i then put_journal env i j
     else lfail StaleFence))"

text \<open>The end every direct change of a journal has: the fenced write, then the audit.\<close>

definition commit_journal :: "lifecycle_env \<Rightarrow> string \<Rightarrow> Journal \<Rightarrow> Journal life" where
  "commit_journal env i j =
     lbind (write_journal_fenced env i j) (\<lambda>_. lbind (emit_transition_audit env j) (\<lambda>_. lret j))"

definition journal_or_invalid :: "string \<Rightarrow> Journal life" where
  "journal_or_invalid i = lbind (load_journal i) (lsome Invalid)"

definition candidate_or_invalid :: "string \<Rightarrow> Candidate life" where
  "candidate_or_invalid i = lbind (load_candidate i) (lsome Invalid)"

definition recover_active_journal :: "lifecycle_env \<Rightarrow> ProductProviderId \<Rightarrow> nat \<Rightarrow> Journal option life" where
  "recover_active_journal env p now =
     lbind (existing_or StaleFence) (\<lambda>c.
     case map_of (au_active_operations (ic_authority c)) p of
       None \<Rightarrow> lret None
     | Some active \<Rightarrow>
         lbind (load_journal (ao_journal_record_id active)) (\<lambda>found.
         case found of
           Some j \<Rightarrow> lret (Some j)
         | None \<Rightarrow>
             lbind (lneed (validate_prepared (ao_prepared active)) Invalid) (\<lambda>_.
             lbind random_b64url (\<lambda>nonce.
             let at = po_prepared_at_ms (ao_prepared active);
                 j = fresh_journal (ao_prepared active) nonce (ao_operation_etag active) at (max now at)
             in lbind (commit_journal env (ao_journal_record_id active) j) (\<lambda>j'. lret (Some j'))))))"

definition transition_journal ::
    "lifecycle_env \<Rightarrow> string \<Rightarrow> AccountLifecyclePhase \<Rightarrow> AccountLifecyclePhase \<Rightarrow> string option \<Rightarrow> nat \<Rightarrow> Journal life" where
  "transition_journal env i expected next_phase code now =
     lbind (journal_or_invalid i) (\<lambda>j.
     if jo_phase j = expected \<and> transition_allowed (po_mode (jo_prepared j)) expected next_phase
        \<and> fits valid_closed_code code
     then commit_journal env i
            (j\<lparr>jo_phase := next_phase, jo_updated_at_ms := max now (jo_updated_at_ms j), jo_in_flight_until_ms := 0,
               jo_closed_code := code\<rparr>)
     else lfail InvalidTransition)"

text \<open>One more attempt, at most eight.\<close>

definition next_attempt :: "Journal \<Rightarrow> nat life" where
  "next_attempt j = lsome CountLimit
     (case checked_succ U8_MAX (jo_attempt_count j) of
        None \<Rightarrow> None | Some n \<Rightarrow> if n \<le> MAX_ATTEMPTS then Some n else None)"

section \<open>Revoking\<close>

definition start_candidate_revoke ::
    "lifecycle_env \<Rightarrow> string \<Rightarrow> string \<Rightarrow> RevokeRequestTarget \<Rightarrow> RevokeScopeGuarantee \<Rightarrow> nat \<Rightarrow> Journal life" where
  "start_candidate_revoke env i candidate_id target scope now =
     lbind (journal_or_invalid i) (\<lambda>j.
     lbind (lneed (jo_phase j = OAuthCandidateCleanup) InvalidTransition) (\<lambda>_.
     lbind (load_candidate candidate_id) (\<lambda>c.
     lbind (lneed (c \<noteq> None) InvalidTransition) (\<lambda>_.
     lbind (lsome EpochExhausted (checked_succ U32_MAX (jo_revoke_leg j))) (\<lambda>leg.
     lbind (next_attempt j) (\<lambda>attempts.
     commit_journal env i
       (j\<lparr>jo_revoke_leg := leg, jo_revoked_grant := Some (OAuthCandidateGrant candidate_id),
          jo_revoke_request_target := Some target, jo_revoke_scope_guarantee := Some scope,
          jo_phase := RevokeInFlight, jo_attempt_count := attempts,
          jo_in_flight_until_ms := sat_add64 now (2 * 60 * 1000), jo_updated_at_ms := now, jo_closed_code := None\<rparr>)))))))"

text \<open>The first leg revokes the credential the operation was prepared with.\<close>

definition first_leg :: "Journal \<Rightarrow> Journal life" where
  "first_leg j =
     (if jo_revoke_leg j \<noteq> 0 then lret j
      else lbind (lsome Invalid (po_prior_generation (jo_prepared j))) (\<lambda>generation.
           lret (j\<lparr>jo_revoke_leg := 1, jo_revoked_grant := Some (ActiveCredential generation),
                   jo_revoke_request_target := po_initial_revoke_request_target (jo_prepared j),
                   jo_revoke_scope_guarantee := po_initial_revoke_scope_guarantee (jo_prepared j)\<rparr>)))"

definition start_active_revoke :: "lifecycle_env \<Rightarrow> string \<Rightarrow> nat \<Rightarrow> Journal life" where
  "start_active_revoke env i now =
     lbind (journal_or_invalid i) (\<lambda>j0.
     lbind (lneed (jo_phase j0 \<in> {Prepared, RevokeOutcomeUnknown}) InvalidTransition) (\<lambda>_.
     lbind (first_leg j0) (\<lambda>j.
     lbind (next_attempt j) (\<lambda>attempts.
     commit_journal env i
       (j\<lparr>jo_phase := RevokeInFlight, jo_attempt_count := attempts,
          jo_in_flight_until_ms := sat_add64 now (2 * 60 * 1000), jo_updated_at_ms := now, jo_closed_code := None\<rparr>)))))"

definition publish_revoke_outcome :: "lifecycle_env \<Rightarrow> string \<Rightarrow> bool \<Rightarrow> string \<Rightarrow> nat \<Rightarrow> Journal life" where
  "publish_revoke_outcome env i confirmed code now =
     lbind (journal_or_invalid i) (\<lambda>j.
     if jo_phase j = RevokeInFlight \<and> valid_closed_code code
     then commit_journal env i
            (j\<lparr>jo_phase := (if confirmed then RevokedPendingCleanup else RevokeOutcomeUnknown),
               jo_in_flight_until_ms := 0, jo_updated_at_ms := now, jo_closed_code := Some code\<rparr>)
     else lfail InvalidTransition)"

definition mark_candidate_revoke_outcome ::
    "lifecycle_env \<Rightarrow> string \<Rightarrow> string \<Rightarrow> bool \<Rightarrow> string \<Rightarrow> nat \<Rightarrow> Journal life" where
  "mark_candidate_revoke_outcome env i candidate_id confirmed code now =
     lbind (candidate_or_invalid candidate_id) (\<lambda>c.
     lbind (publish_revoke_outcome env i confirmed code now) (\<lambda>j.
     lbind (put_candidate env candidate_id
              (if confirmed then c\<lparr>ca_state := RevokedCleaned, ca_terminal_at_ms := Some now\<rparr>
               else c\<lparr>ca_state := RevokeUnknown, ca_terminal_at_ms := None\<rparr>)) (\<lambda>_.
     lret j)))"

text \<open>\<^verbatim>\<open>checkpoint_disconnected\<close>: the journal first, then the credential's etag is retired.\<close>

definition retire_etag :: "ProductProviderId \<Rightarrow> string \<Rightarrow> Authority \<Rightarrow> Authority life" where
  "retire_etag p etag a =
     (let retired = (case map_of (au_retired_credential_etags a) p of None \<Rightarrow> [] | Some es \<Rightarrow> es);
          a' = a\<lparr>au_current_credential_etags := bt_remove p (au_current_credential_etags a)\<rparr>
      in if etag \<in> set retired
         then lret (a'\<lparr>au_retired_credential_etags := bt_insert p retired (au_retired_credential_etags a)\<rparr>)
         else if MAX_RETIRED_ETAGS \<le> length retired then lfail ReceiptCapacityExhausted
         else lret (a'\<lparr>au_retired_credential_etags := bt_insert p (retired @ [etag]) (au_retired_credential_etags a)\<rparr>))"

definition checkpoint_disconnected :: "lifecycle_env \<Rightarrow> string \<Rightarrow> nat \<Rightarrow> Journal life" where
  "checkpoint_disconnected env i now =
     lbind (journal_or_invalid i) (\<lambda>j0.
     lbind (lneed (jo_phase j0 \<in> {RevokedPendingCleanup, Disconnected}) InvalidTransition) (\<lambda>_.
     lbind (if jo_phase j0 = RevokedPendingCleanup
            then commit_journal env i
                   (j0\<lparr>jo_phase := Disconnected, jo_in_flight_until_ms := 0,
                       jo_updated_at_ms := max now (jo_updated_at_ms j0), jo_closed_code := Some ''disconnected''\<rparr>)
            else lret j0) (\<lambda>j.
     lbind (existing_or StaleFence) (\<lambda>c.
     let a = ic_authority c; p = po_provider (jo_prepared j) in
     lbind (lsome StaleFence (active_of a j)) (\<lambda>active.
     lbind (lneed (same_operation a j active) StaleFence) (\<lambda>_.
     case map_of (au_current_credential_etags a) p of
       None \<Rightarrow> lret j
     | Some etag \<Rightarrow>
         lbind (retire_etag p etag a) (\<lambda>a'.
         lbind (put_authority env (ic_principal c) a') (\<lambda>_.
         lret j))))))))"

end
