(* ===== verification/Account_Exchange.thy ===== *)
theory Account_Exchange
  imports Account_Ops
begin

text \<open>
  The second half of the lifecycle operations (\<^verbatim>\<open>crates/app-host/src/account_lifecycle.rs\<close>): the login exchange,
  the candidate it yields, the terminal receipts, and the removal of what finished operations leave behind.
\<close>

section \<open>The login exchange\<close>

definition await_oauth_login :: "lifecycle_env \<Rightarrow> string \<Rightarrow> nat \<Rightarrow> Journal life" where
  "await_oauth_login env i now =
     lbind (journal_or_invalid i) (\<lambda>j.
     let mode = po_mode (jo_prepared j); phase = jo_phase j in
     if mode = Connect \<and> phase = Prepared then transition_journal env i Prepared AwaitingOAuthLogin None now
     else if mode \<in> {Reconnect, Switch} \<and> phase = RevokedPendingCleanup
     then lbind (checkpoint_disconnected env i now) (\<lambda>_. transition_journal env i Disconnected AwaitingOAuthLogin None now)
     else if mode \<in> {Reconnect, Switch} \<and> phase = Disconnected
     then transition_journal env i Disconnected AwaitingOAuthLogin None now
     else if phase = AwaitingOAuthLogin then lret j
     else lfail InvalidTransition)"

text \<open>The phase is written first, the attempt is counted after.\<close>

definition mark_exchange_in_flight :: "lifecycle_env \<Rightarrow> string \<Rightarrow> nat \<Rightarrow> Journal life" where
  "mark_exchange_in_flight env i now =
     lbind (transition_journal env i AwaitingOAuthLogin ExchangeInFlight None now) (\<lambda>j.
     lbind (next_attempt j) (\<lambda>attempts.
     let j' = j\<lparr>jo_attempt_count := attempts, jo_in_flight_until_ms := sat_add64 now (8 * 60 * 1000)\<rparr>
     in lbind (write_journal_fenced env i j') (\<lambda>_. lret j')))"

definition prepare_exchange :: "lifecycle_env \<Rightarrow> string \<Rightarrow> string \<Rightarrow> nat \<Rightarrow> Journal life" where
  "prepare_exchange env i attempt_id now =
     lbind (journal_or_invalid i) (\<lambda>j.
     lbind (lneed (jo_phase j = AwaitingOAuthLogin) InvalidTransition) (\<lambda>_.
     lbind (exchange_intent_id env (po_provider (jo_prepared j)) (po_operation_id (jo_prepared j))) (\<lambda>intent_id.
     lbind (put_exchange_intent env intent_id
              \<lparr>ei_version = SCHEMA_VERSION, ei_provider = po_provider (jo_prepared j),
               ei_operation_id = po_operation_id (jo_prepared j), ei_attempt_id = attempt_id,
               ei_created_at_ms = now, ei_expires_at_ms = sat_add64 now (8 * 60 * 1000)\<rparr>) (\<lambda>_.
     mark_exchange_in_flight env i now))))"

definition publish_candidate :: "lifecycle_env \<Rightarrow> string \<Rightarrow> Candidate \<Rightarrow> nat \<Rightarrow> Journal life" where
  "publish_candidate env i c now =
     lbind (journal_or_invalid i) (\<lambda>j.
     if jo_phase j = ExchangeInFlight \<and> po_operation_id (jo_prepared j) = ca_operation_id c
        \<and> po_provider (jo_prepared j) = ca_provider c \<and> ca_state c = GrantBearing
     then lbind (put_candidate env (ca_record_id c) c) (\<lambda>_.
          transition_journal env i ExchangeInFlight OAuthCandidateStored None now)
     else lfail InvalidTransition)"

definition begin_candidate_validation :: "lifecycle_env \<Rightarrow> string \<Rightarrow> nat \<Rightarrow> Journal life" where
  "begin_candidate_validation env i now = transition_journal env i OAuthCandidateStored CandidateValidation None now"

definition bind_candidate_generation :: "lifecycle_env \<Rightarrow> string \<Rightarrow> string \<Rightarrow> string \<Rightarrow> unit life" where
  "bind_candidate_generation env i candidate_id generation =
     lbind (lneed (is_uuid_v4 generation) Invalid) (\<lambda>_.
     lbind (journal_or_invalid i) (\<lambda>j.
     lbind (candidate_or_invalid candidate_id) (\<lambda>c.
     if jo_phase j = CandidateValidation \<and> ca_operation_id c = po_operation_id (jo_prepared j)
        \<and> ca_provider c = po_provider (jo_prepared j) \<and> ca_state c = GrantBearing
        \<and> ca_result_generation c \<in> {None, Some generation}
     then put_candidate env candidate_id (c\<lparr>ca_result_generation := Some generation\<rparr>)
     else lfail InvalidTransition)))"

definition require_candidate_cleanup :: "lifecycle_env \<Rightarrow> string \<Rightarrow> string \<Rightarrow> nat \<Rightarrow> Journal life" where
  "require_candidate_cleanup env i code now =
     transition_journal env i CandidateValidation OAuthCandidateCleanup (Some code) now"

section \<open>Receipts\<close>

definition empty_index :: "Journal \<Rightarrow> ReceiptIndex" where
  "empty_index j = \<lparr>ri_version = SCHEMA_VERSION, ri_provider = po_provider (jo_prepared j),
     ri_lifecycle_epoch = po_lifecycle_epoch (jo_prepared j), ri_receipts = []\<rparr>"

text \<open>The common end of both kinds of operation: the receipt is stored once, and a stored one wins if
  \<open>agrees\<close> holds between it and the new one.\<close>

definition record_receipt ::
    "lifecycle_env \<Rightarrow> string \<Rightarrow> Journal \<Rightarrow> Receipt \<Rightarrow> (Receipt \<Rightarrow> Receipt \<Rightarrow> bool) \<Rightarrow> nat \<Rightarrow> Receipt life" where
  "record_receipt env receipt_id j receipt agrees now =
     lbind (load_receipt_index env receipt_id) (\<lambda>found.
     case extend_generation_receipt_retention (case found of None \<Rightarrow> empty_index j | Some ix \<Rightarrow> ix)
            (po_prior_generation (jo_prepared j)) now of
       (ix, extended) \<Rightarrow>
         (case List.find (\<lambda>r. rc_operation_id r = rc_operation_id receipt) (ri_receipts ix) of
            Some existing \<Rightarrow>
              if \<not> agrees existing receipt then lfail StaleFence
              else lbind (if extended then put_receipt_index env receipt_id ix else lret ()) (\<lambda>_. lret existing)
          | None \<Rightarrow>
              if MAX_RECEIPTS \<le> length (ri_receipts ix) then lfail ReceiptCapacityExhausted
              else lbind (put_receipt_index env receipt_id
                           (ix\<lparr>ri_lifecycle_epoch := po_lifecycle_epoch (jo_prepared j),
                               ri_receipts := ri_receipts ix @ [receipt]\<rparr>)) (\<lambda>_. lret receipt)))"

definition same_request :: "Receipt \<Rightarrow> Receipt \<Rightarrow> bool" where
  "same_request old new \<longleftrightarrow> rc_operation_etag old = rc_operation_etag new
     \<and> rc_idempotency_key old = rc_idempotency_key new \<and> rc_payload_digest old = rc_payload_digest new"

definition same_result :: "Receipt \<Rightarrow> Receipt \<Rightarrow> bool" where
  "same_result old new \<longleftrightarrow> same_request old new \<and> rc_prior_generation old = rc_prior_generation new
     \<and> rc_result_generation old = rc_result_generation new \<and> rc_terminal_code old = rc_terminal_code new"

definition release :: "ProductProviderId \<Rightarrow> Authority \<Rightarrow> Authority" where
  "release p a = a\<lparr>au_active_operations := bt_remove p (au_active_operations a)\<rparr>"

text \<open>What a receipt allows to be removed: the journal, candidate and exchange intent of its operation, all in
  a final form that agrees with it.\<close>

definition terminal_matches :: "Receipt \<Rightarrow> Journal \<Rightarrow> bool" where
  "terminal_matches r j =
     (case jo_phase j of
        Disconnected \<Rightarrow> po_mode (jo_prepared j) = Disconnect \<and> rc_result_generation r = None
          \<and> rc_terminal_code r = ''disconnected'' \<and> jo_closed_code j = Some ''disconnected''
      | Completed \<Rightarrow> rc_result_generation r \<noteq> None \<and> rc_terminal_code r = ''connected''
          \<and> jo_closed_code j = Some ''connected''
      | FailedTerminal \<Rightarrow> rc_result_generation r = None \<and> jo_closed_code j = Some (rc_terminal_code r)
      | _ \<Rightarrow> False)"

definition journal_agrees :: "ProductProviderId \<Rightarrow> Receipt \<Rightarrow> Journal \<Rightarrow> bool" where
  "journal_agrees p r j \<longleftrightarrow>
     terminal_matches r j \<and> po_provider (jo_prepared j) = p
     \<and> po_operation_id (jo_prepared j) = rc_operation_id r \<and> jo_operation_etag j = rc_operation_etag r
     \<and> po_route (jo_prepared j) = rc_route r \<and> po_mode (jo_prepared j) = rc_mode r
     \<and> po_idempotency_key (jo_prepared j) = rc_idempotency_key r
     \<and> po_payload_digest (jo_prepared j) = rc_payload_digest r
     \<and> po_prior_generation (jo_prepared j) = rc_prior_generation r
     \<and> po_lifecycle_epoch (jo_prepared j) = rc_lifecycle_epoch r \<and> po_fence_epoch (jo_prepared j) = rc_fence_epoch r
     \<and> po_lifecycle_key_version (jo_prepared j) = rc_lifecycle_key_version r
     \<and> jo_revoke_leg j = rc_completed_revoke_legs r"

definition candidate_agrees :: "ProductProviderId \<Rightarrow> Receipt \<Rightarrow> Candidate \<Rightarrow> bool" where
  "candidate_agrees p r c \<longleftrightarrow> ca_provider c = p \<and> ca_operation_id c = rc_operation_id r
     \<and> (case ca_state c of
          Promoted \<Rightarrow> rc_terminal_code r = ''connected'' \<and> rc_result_generation r \<noteq> None
            \<and> ca_result_generation c = rc_result_generation r
        | RevokedCleaned \<Rightarrow> rc_mode r \<noteq> Disconnect \<and> rc_result_generation r = None \<and> rc_terminal_code r \<noteq> ''connected''
        | _ \<Rightarrow> False)"

definition when_some :: "'a option \<Rightarrow> unit life \<Rightarrow> unit life" where
  "when_some x p = (if x = None then lret () else p)"

text \<open>One receipt, and how many operations it cleaned up after.\<close>

definition clean_receipt :: "lifecycle_env \<Rightarrow> string \<Rightarrow> ProductProviderId \<Rightarrow> Receipt \<Rightarrow> nat life" where
  "clean_receipt env owner p r =
     lbind (journal_record_id env owner p (rc_operation_id r)) (\<lambda>journal_id.
     lbind (candidate_id_of env owner p (rc_operation_id r)) (\<lambda>candidate_id.
     lbind (load_journal journal_id) (\<lambda>j.
     lbind (load_candidate candidate_id) (\<lambda>c.
     lbind (load_exchange_intent env p (rc_operation_id r)) (\<lambda>x.
     lbind (lneed (fits (journal_agrees p r) j) StaleFence) (\<lambda>_.
     lbind (lneed (fits (candidate_agrees p r) c) StaleFence) (\<lambda>_.
     lbind (lneed (fits (\<lambda>v. ei_provider v = p \<and> ei_operation_id v = rc_operation_id r) x) StaleFence) (\<lambda>_.
     lbind (when_some c (delete_candidate candidate_id)) (\<lambda>_.
     lbind (when_some x (delete_exchange_intent env p (rc_operation_id r))) (\<lambda>_.
     lbind (when_some j (delete_journal journal_id)) (\<lambda>_.
     lbind (case j of None \<Rightarrow> lret () | Some v \<Rightarrow> emit_terminal_cleanup_audit env v) (\<lambda>_.
     lret (if j \<noteq> None \<or> c \<noteq> None \<or> x \<noteq> None then 1 else 0)))))))))))))"

fun clean_receipts ::
    "lifecycle_env \<Rightarrow> string \<Rightarrow> ProductProviderId \<Rightarrow> string option \<Rightarrow> Receipt list \<Rightarrow> nat \<Rightarrow> nat life" where
  "clean_receipts env owner p active_id [] cleaned = lret cleaned"
| "clean_receipts env owner p active_id (r # rs) cleaned =
     (if active_id = Some (rc_operation_id r) then clean_receipts env owner p active_id rs cleaned
      else lbind (clean_receipt env owner p r) (\<lambda>k. clean_receipts env owner p active_id rs (cleaned + k)))"

definition cleanup_terminal_operation_artifacts :: "lifecycle_env \<Rightarrow> ProductProviderId \<Rightarrow> nat life" where
  "cleanup_terminal_operation_artifacts env p =
     lbind load_existing (\<lambda>ctx.
     case ctx of
       None \<Rightarrow> lret 0
     | Some c \<Rightarrow>
         lbind (receipt_index_id env (ic_principal c) p) (\<lambda>receipt_id.
         lbind (load_receipt_index env receipt_id) (\<lambda>found.
         case found of
           None \<Rightarrow> lret 0
         | Some ix \<Rightarrow>
             if ri_provider ix \<noteq> p then lfail Invalid
             else clean_receipts env (ic_principal c) p
                    (map_option (\<lambda>active. po_operation_id (ao_prepared active))
                       (map_of (au_active_operations (ic_authority c)) p))
                    (ri_receipts ix) 0)))"

section \<open>The end of an operation\<close>

definition complete_disconnect :: "lifecycle_env \<Rightarrow> string \<Rightarrow> nat \<Rightarrow> Receipt life" where
  "complete_disconnect env i now =
     lbind (journal_or_invalid i) (\<lambda>j0.
     lbind (lneed (jo_phase j0 \<in> {RevokedPendingCleanup, Disconnected}) InvalidTransition) (\<lambda>_.
     lbind (lneed (po_mode (jo_prepared j0) = Disconnect) InvalidTransition) (\<lambda>_.
     lbind (existing_or StaleFence) (\<lambda>c0.
     if active_of (ic_authority c0) j0 = None
     then lbind (receipt_index_id env (ic_principal c0) (po_provider (jo_prepared j0))) (\<lambda>receipt_id.
          lbind (load_receipt_index env receipt_id) (\<lambda>found.
          lbind (lsome StaleFence (Option.bind found (\<lambda>ix.
                   List.find (\<lambda>r. rc_operation_id r = po_operation_id (jo_prepared j0)) (ri_receipts ix)))) (\<lambda>receipt.
          lbind (cleanup_terminal_operation_artifacts env (po_provider (jo_prepared j0))) (\<lambda>_.
          lret receipt))))
     else
       lbind (checkpoint_disconnected env i now) (\<lambda>j.
       lbind (existing_or StaleFence) (\<lambda>c.
       lbind (receipt_index_id env (ic_principal c) (po_provider (jo_prepared j))) (\<lambda>receipt_id.
       lbind (record_receipt env receipt_id j (disconnect_receipt j now) same_request now) (\<lambda>receipt.
       case active_of (ic_authority c) j of
         None \<Rightarrow> lbind (delete_journal i) (\<lambda>_. lret receipt)
       | Some active \<Rightarrow>
           if \<not> same_operation (ic_authority c) j active then lfail StaleFence
           else lbind (put_authority env (ic_principal c) (release (po_provider (jo_prepared j)) (ic_authority c))) (\<lambda>_.
                lbind (cleanup_terminal_operation_artifacts env (po_provider (jo_prepared j))) (\<lambda>_.
                lret receipt))))))))))"

definition oauth_receipt :: "Journal \<Rightarrow> string option \<Rightarrow> string \<Rightarrow> nat \<Rightarrow> Receipt" where
  "oauth_receipt j generation code now =
     (disconnect_receipt j now)\<lparr>rc_result_generation := generation, rc_terminal_code := code\<rparr>"

definition finish_oauth_operation :: "lifecycle_env \<Rightarrow> Journal \<Rightarrow> string option \<Rightarrow> string \<Rightarrow> nat \<Rightarrow> Receipt life" where
  "finish_oauth_operation env j generation code now =
     (let p = po_provider (jo_prepared j) in
      lbind (existing_or StaleFence) (\<lambda>c.
      let a = ic_authority c in
      lbind (lsome StaleFence (active_of a j)) (\<lambda>active.
      lbind (lneed (same_operation a j active) StaleFence) (\<lambda>_.
      lbind (credential_etag_of env (ic_principal c) p generation (po_lifecycle_epoch (jo_prepared j))) (\<lambda>etag.
      lbind (receipt_index_id env (ic_principal c) p) (\<lambda>receipt_id.
      lbind (record_receipt env receipt_id j (oauth_receipt j generation code now) same_result now) (\<lambda>receipt.
      let a' = (case etag of None \<Rightarrow> a
                  | Some e \<Rightarrow> a\<lparr>au_current_credential_etags := bt_insert p e (au_current_credential_etags a)\<rparr>)
      in lbind (put_authority env (ic_principal c) (release p a')) (\<lambda>_. lret receipt))))))))"

definition checkpoint_candidate_promoted ::
    "lifecycle_env \<Rightarrow> string \<Rightarrow> string \<Rightarrow> string \<Rightarrow> nat \<Rightarrow> (Receipt \<times> ProductProviderId) life" where
  "checkpoint_candidate_promoted env i candidate_id generation now =
     lbind (lneed (is_uuid_v4 generation) Invalid) (\<lambda>_.
     lbind (journal_or_invalid i) (\<lambda>j0.
     lbind (lneed (jo_phase j0 \<in> {CandidateValidation, Completed}) InvalidTransition) (\<lambda>_.
     lbind (candidate_or_invalid candidate_id) (\<lambda>c.
     lbind (lneed (ca_operation_id c = po_operation_id (jo_prepared j0) \<and> ca_provider c = po_provider (jo_prepared j0)
                   \<and> ca_result_generation c = Some generation
                   \<and> (ca_state c = GrantBearing \<or> jo_phase j0 = Completed \<and> ca_state c = Promoted))
              InvalidTransition) (\<lambda>_.
     lbind (if jo_phase j0 = CandidateValidation
            then commit_journal env i
                   (j0\<lparr>jo_phase := Completed, jo_updated_at_ms := max now (jo_updated_at_ms j0),
                       jo_closed_code := Some ''connected''\<rparr>)
            else lret j0) (\<lambda>j.
     lbind (if ca_state c = GrantBearing
            then put_candidate env candidate_id (c\<lparr>ca_state := Promoted, ca_terminal_at_ms := Some now\<rparr>)
            else lret ()) (\<lambda>_.
     lbind (finish_oauth_operation env j (Some generation) ''connected'' now) (\<lambda>receipt.
     lret (receipt, po_provider (jo_prepared j))))))))))"

definition promote_candidate :: "lifecycle_env \<Rightarrow> string \<Rightarrow> string \<Rightarrow> string \<Rightarrow> nat \<Rightarrow> Receipt life" where
  "promote_candidate env i candidate_id generation now =
     lbind (checkpoint_candidate_promoted env i candidate_id generation now) (\<lambda>(receipt, p).
     lbind (cleanup_terminal_operation_artifacts env p) (\<lambda>_. lret receipt))"

definition finish_candidate_cleanup :: "lifecycle_env \<Rightarrow> string \<Rightarrow> string \<Rightarrow> string \<Rightarrow> nat \<Rightarrow> Receipt life" where
  "finish_candidate_cleanup env i candidate_id code now =
     lbind (lneed (valid_closed_code code) Invalid) (\<lambda>_.
     lbind (checkpoint_disconnected env i now) (\<lambda>j0.
     lbind (candidate_or_invalid candidate_id) (\<lambda>c.
     lbind (lneed (ca_state c = RevokedCleaned) InvalidTransition) (\<lambda>_.
     lbind (commit_journal env i
              (j0\<lparr>jo_phase := FailedTerminal, jo_updated_at_ms := max now (jo_updated_at_ms j0),
                  jo_closed_code := Some code\<rparr>)) (\<lambda>j.
     lbind (finish_oauth_operation env j None code now) (\<lambda>receipt.
     lbind (cleanup_terminal_operation_artifacts env (po_provider (jo_prepared j))) (\<lambda>_.
     lret receipt)))))))"

section \<open>Forgetting old receipts\<close>

definition receipt_expired :: "string option \<Rightarrow> nat \<Rightarrow> Receipt \<Rightarrow> bool" where
  "receipt_expired protected now r \<longleftrightarrow>
     max (rc_retention_not_before_ms r) (receipt_retention_deadline (rc_completed_at_ms r)) \<le> now
     \<and> \<not> (\<exists>g. protected = Some g \<and> names_generation g r)"

text \<open>The etags of the credentials that the dropped receipts name; one that cannot be derived is skipped.\<close>

fun removed_etags :: "lifecycle_env \<Rightarrow> string \<Rightarrow> ProductProviderId \<Rightarrow> Receipt list \<Rightarrow> string list life" where
  "removed_etags env owner p [] = lret []"
| "removed_etags env owner p (r # rs) =
     (case rc_prior_generation r of
        None \<Rightarrow> removed_etags env owner p rs
      | Some g \<Rightarrow>
          lbind (lok (credential_tag env owner p g (rc_lifecycle_epoch r))) (\<lambda>etag.
          lbind (removed_etags env owner p rs) (\<lambda>es.
          lret (case etag of None \<Rightarrow> es | Some e \<Rightarrow> e # es))))"

definition forget_etags :: "ProductProviderId \<Rightarrow> string list \<Rightarrow> Authority \<Rightarrow> Authority" where
  "forget_etags p gone a =
     (case map_of (au_retired_credential_etags a) p of
        None \<Rightarrow> a
      | Some es \<Rightarrow>
          (let kept = filter (\<lambda>e. e \<notin> set gone) es
           in a\<lparr>au_retired_credential_etags :=
                  (if kept = [] then bt_remove p (au_retired_credential_etags a)
                   else bt_insert p kept (au_retired_credential_etags a))\<rparr>))"

definition compact_terminal_receipts ::
    "lifecycle_env \<Rightarrow> ProductProviderId \<Rightarrow> string option \<Rightarrow> nat \<Rightarrow> nat life" where
  "compact_terminal_receipts env p protected now =
     lbind (lneed (fits is_uuid_v4 protected) Invalid) (\<lambda>_.
     lbind load_existing (\<lambda>ctx.
     case ctx of
       None \<Rightarrow> lret 0
     | Some c \<Rightarrow>
         if map_of (au_active_operations (ic_authority c)) p \<noteq> None then lret 0
         else
           lbind (receipt_index_id env (ic_principal c) p) (\<lambda>receipt_id.
           lbind (load_receipt_index env receipt_id) (\<lambda>found.
           case found of
             None \<Rightarrow> lret 0
           | Some ix \<Rightarrow>
               (let dropped = filter (receipt_expired protected now) (ri_receipts ix) in
                lbind (removed_etags env (ic_principal c) p dropped) (\<lambda>gone.
                if dropped = [] then lret 0
                else
                  lbind (put_receipt_index env receipt_id
                           (ix\<lparr>ri_receipts := filter (\<lambda>r. \<not> receipt_expired protected now r) (ri_receipts ix)\<rparr>)) (\<lambda>_.
                  lbind (put_authority env (ic_principal c) (forget_etags p gone (ic_authority c))) (\<lambda>_.
                  lret (length dropped)))))))))"

end
