(* ===== verification/Account_Rules.thy ===== *)
theory Account_Rules
  imports Account_Exchange
begin

text \<open>
  Reasoning about lifecycle programs. \<open>lkeeps I p \<phi>\<close> says that \<open>p\<close> keeps the predicate \<open>I\<close> on the files,
  whatever the operating system does and also when it ends in an error, and that its result satisfies \<open>\<phi>\<close>,
  a fact that does not mention the files. The rules follow the structure of a program.
\<close>

named_theorems life_rules \<open>structural rules for lifecycle programs\<close>

definition lkeeps :: "(lifecycle_files \<Rightarrow> bool) \<Rightarrow> 'a life \<Rightarrow> ('a \<Rightarrow> bool) \<Rightarrow> bool" where
  "lkeeps I p \<phi> \<longleftrightarrow> (\<forall>w. I (lw_files w) \<longrightarrow>
     I (lw_files (snd (p w))) \<and> (\<forall>x. fst (p w) = Inr x \<longrightarrow> \<phi> x))"

lemma lkeepsI:
  "(\<And>w. I (lw_files w) \<Longrightarrow> I (lw_files (snd (p w))) \<and> (\<forall>x. fst (p w) = Inr x \<longrightarrow> \<phi> x)) \<Longrightarrow> lkeeps I p \<phi>"
  by (simp add: lkeeps_def)

lemma lkeepsD: "lkeeps I p \<phi> \<Longrightarrow> I (lw_files w) \<Longrightarrow> I (lw_files (snd (p w)))"
  by (simp add: lkeeps_def)

lemma lkeeps_weaken: "lkeeps I p \<phi> \<Longrightarrow> (\<And>x. \<phi> x \<Longrightarrow> \<psi> x) \<Longrightarrow> lkeeps I p \<psi>"
  by (simp add: lkeeps_def)

lemma lkeeps_any: "lkeeps I p \<phi> \<Longrightarrow> lkeeps I p (\<lambda>_. True)"
  by (simp add: lkeeps_def)

lemma lk_bind [life_rules]:
  assumes "lkeeps I p \<phi>" and "\<And>x. \<phi> x \<Longrightarrow> lkeeps I (f x) \<psi>"
  shows "lkeeps I (lbind p f) \<psi>"
proof (rule lkeepsI)
  fix w :: lifecycle_world assume "I (lw_files w)"
  with assms show "I (lw_files (snd (lbind p f w))) \<and> (\<forall>x. fst (lbind p f w) = Inr x \<longrightarrow> \<psi> x)"
    by (cases "p w"; cases "fst (p w)") (auto simp: lbind_def lkeeps_def dest!: spec [of _ w])
qed

lemma lk_ret [life_rules]: "\<psi> x \<Longrightarrow> lkeeps I (lret x) \<psi>"
  by (simp add: lkeeps_def lret_def)

lemma lk_fail [life_rules]: "lkeeps I (lfail e) \<psi>"
  by (simp add: lkeeps_def lfail_def)

lemma lk_need [life_rules]: "lkeeps I (lneed b e) (\<lambda>_. b)"
  by (simp add: lkeeps_def lneed_def lret_def lfail_def)

lemma lk_some [life_rules]: "lkeeps I (lsome e x) (\<lambda>v. x = Some v)"
  by (auto simp: lkeeps_def lsome_def lret_def lfail_def split: option.splits)

lemma lk_sum [life_rules]: "lkeeps I (lift_sum r) (\<lambda>v. r = Inr v)"
  by (simp add: lkeeps_def lift_sum_def)

lemma lk_ok: "lkeeps I p \<phi> \<Longrightarrow> lkeeps I (lok p) (\<lambda>_. True)"
  by (auto simp: lkeeps_def lok_def split: prod.splits sum.splits)

lemma files_next_call [simp]: "lw_files (snd (next_call w)) = lw_files w"
  by (simp add: next_call_def split: list.split)

lemma next_call_files: "next_call w = (c, w') \<Longrightarrow> lw_files w' = lw_files w"
  by (metis files_next_call snd_conv)

lemma lk_ask [life_rules]: "(\<And>f. I f \<Longrightarrow> \<phi> (g f)) \<Longrightarrow> lkeeps I (ask g) \<phi>"
  by (auto simp: lkeeps_def ask_def split: prod.splits dest!: next_call_files)

lemma lk_ask_any: "lkeeps I (ask g) (\<lambda>_. True)"
  by (rule lk_ask) simp

lemma lk_change [life_rules]: "(\<And>f. I f \<Longrightarrow> I (u f)) \<Longrightarrow> lkeeps I (change u) (\<lambda>_. True)"
  by (auto simp: lkeeps_def change_def split: prod.splits call_result.splits dest!: next_call_files)

lemma lk_lock [life_rules]: "lkeeps I try_acquire_lock (\<lambda>_. True)"
  by (auto simp: lkeeps_def try_acquire_lock_def split: prod.splits call_result.splits dest!: next_call_files)

lemma lk_random [life_rules]: "lkeeps I random_b64url (\<lambda>_. True)"
  by (auto simp: lkeeps_def random_b64url_def split: list.splits)

lemma lk_mint [life_rules]: "lkeeps I mint_operation_id (\<lambda>_. True)"
  by (simp add: mint_operation_id_def lk_random)

lemma lk_audit [life_rules]: "lkeeps I (emit_audit env j a b) (\<lambda>_. True)"
  by (simp add: lkeeps_def emit_audit_def)

lemma lk_transition_audit [life_rules]: "lkeeps I (emit_transition_audit env j) (\<lambda>_. True)"
  by (simp add: emit_transition_audit_def lk_audit)

lemma lk_terminal_audit [life_rules]: "lkeeps I (emit_terminal_cleanup_audit env j) (\<lambda>_. True)"
  by (simp add: emit_terminal_cleanup_audit_def lk_audit)

lemma lk_if [life_rules]:
  "(b \<Longrightarrow> lkeeps I p \<phi>) \<Longrightarrow> (\<not> b \<Longrightarrow> lkeeps I q \<phi>) \<Longrightarrow> lkeeps I (if b then p else q) \<phi>"
  by simp

lemma lk_case_option [life_rules]:
  "(x = None \<Longrightarrow> lkeeps I p \<phi>) \<Longrightarrow> (\<And>v. x = Some v \<Longrightarrow> lkeeps I (q v) \<phi>) \<Longrightarrow>
   lkeeps I (case x of None \<Rightarrow> p | Some v \<Rightarrow> q v) \<phi>"
  by (cases x) simp_all

lemma lk_case_prod [life_rules]:
  "(\<And>a b. x = (a, b) \<Longrightarrow> lkeeps I (q a b) \<phi>) \<Longrightarrow> lkeeps I (case x of (a, b) \<Rightarrow> q a b) \<phi>"
  by (cases x) simp

lemma lk_let [life_rules]: "(\<And>x. x = v \<Longrightarrow> lkeeps I (q x) \<phi>) \<Longrightarrow> lkeeps I (Let v q) \<phi>"
  by simp

text \<open>Deriving a tag: the result is the tag, of fields whose lengths fit in four bytes.\<close>

definition short_fields :: "bytes list \<Rightarrow> bool" where
  "short_fields parts \<longleftrightarrow> (\<forall>f \<in> set parts. length f \<le> U32_MAX)"

lemma lk_derive_tag [life_rules]:
  "lkeeps I (derive_tag env d parts) (\<lambda>t. t = le_tag env d (tag_message parts) \<and> short_fields parts)"
  unfolding derive_tag_def by (intro lk_if lk_fail lk_ask) (auto simp: short_fields_def not_less)

section \<open>The message of a tag determines its fields\<close>

lemma be_bytes_4_inject:
  assumes "be_bytes 4 m = be_bytes 4 n" "m \<le> U32_MAX" "n \<le> U32_MAX"
  shows "m = n"
  using assms by (simp add: be_bytes_inject U32_MAX_def)

lemma tag_message_Cons: "tag_message (p # ps) = be_bytes 4 (length p) @ p @ tag_message ps"
  by (simp add: tag_message_def)

lemma tag_message_inject:
  "short_fields ps \<Longrightarrow> short_fields qs \<Longrightarrow> tag_message ps = tag_message qs \<Longrightarrow> ps = qs"
proof (induction ps arbitrary: qs)
  case Nil
  then show ?case by (cases qs) (auto simp: tag_message_def dest: arg_cong [of _ _ length])
next
  case (Cons p ps)
  show ?case
  proof (cases qs)
    case Nil
    with Cons.prems show ?thesis by (auto simp: tag_message_def dest: arg_cong [of _ _ length])
  next
    case (Cons q qs')
    from Cons.prems(3) Cons have "be_bytes 4 (length p) @ p @ tag_message ps
        = be_bytes 4 (length q) @ q @ tag_message qs'" by (simp add: tag_message_Cons)
    then have l: "be_bytes 4 (length p) = be_bytes 4 (length q)" and r: "p @ tag_message ps = q @ tag_message qs'"
      by (auto dest: append_eq_append_conv [THEN iffD1, rotated])
    from l have "length p = length q"
      using be_bytes_4_inject Cons.prems(1,2) Cons by (simp add: short_fields_def)
    with r have "p = q" "tag_message ps = tag_message qs'" by simp_all
    with Cons.IH [of qs'] Cons.prems(1,2) Cons show ?thesis by (simp add: short_fields_def)
  qed
qed

end
