(* ===== verification/Account_Contract.thy ===== *)
theory Account_Contract
  imports Account_Rules
begin

text \<open>
  What any invariant of the lifecycle files owes to the operations, as a locale: the knowledge it gives about
  an authority and a journal that are read, and the writes that keep it. Within the locale every operation
  keeps the invariant, under any behaviour of the operating system, and so does every history of calls.
\<close>

section \<open>Histories\<close>

datatype lifecycle_call =
    Begin begin_request
  | Recover ProductProviderId
  | AwaitLogin string
  | PrepareExchange string string
  | ExchangeLost string string
  | PublishCandidate string Candidate
  | BeginValidation string
  | BindGeneration string string string
  | RequireCleanup string string
  | StartCandidateRevoke string string RevokeRequestTarget RevokeScopeGuarantee
  | StartActiveRevoke string
  | PublishRevokeOutcome string bool string
  | MarkCandidateRevoke string string bool string
  | CompleteDisconnect string
  | Promote string string string
  | FinishCleanup string string string
  | DropIntent ProductProviderId string
  | CleanArtifacts ProductProviderId
  | Compact ProductProviderId "string option"
  | BindCurrent ProductProviderId string

definition ignore :: "'a life \<Rightarrow> unit life" where
  "ignore p = lbind p (\<lambda>_. lret ())"

fun perform :: "lifecycle_env \<Rightarrow> lifecycle_call \<Rightarrow> nat \<Rightarrow> unit life" where
  "perform env (Begin q) now = ignore (begin_operation env q now)"
| "perform env (Recover p) now = ignore (recover_active_journal env p now)"
| "perform env (AwaitLogin i) now = ignore (await_oauth_login env i now)"
| "perform env (PrepareExchange i attempt) now = ignore (prepare_exchange env i attempt now)"
| "perform env (ExchangeLost i code) now =
     ignore (transition_journal env i ExchangeInFlight ExchangeOutcomeUnknown (Some code) now)"
| "perform env (PublishCandidate i c) now = ignore (publish_candidate env i c now)"
| "perform env (BeginValidation i) now = ignore (begin_candidate_validation env i now)"
| "perform env (BindGeneration i ci g) now = bind_candidate_generation env i ci g"
| "perform env (RequireCleanup i code) now = ignore (require_candidate_cleanup env i code now)"
| "perform env (StartCandidateRevoke i ci target scope) now =
     ignore (start_candidate_revoke env i ci target scope now)"
| "perform env (StartActiveRevoke i) now = ignore (start_active_revoke env i now)"
| "perform env (PublishRevokeOutcome i confirmed code) now = ignore (publish_revoke_outcome env i confirmed code now)"
| "perform env (MarkCandidateRevoke i ci confirmed code) now =
     ignore (mark_candidate_revoke_outcome env i ci confirmed code now)"
| "perform env (CompleteDisconnect i) now = ignore (complete_disconnect env i now)"
| "perform env (Promote i ci g) now = ignore (promote_candidate env i ci g now)"
| "perform env (FinishCleanup i ci code) now = ignore (finish_candidate_cleanup env i ci code now)"
| "perform env (DropIntent p opid) now = delete_exchange_intent env p opid"
| "perform env (CleanArtifacts p) now = ignore (cleanup_terminal_operation_artifacts env p)"
| "perform env (Compact p protected) now = ignore (compact_terminal_receipts env p protected now)"
| "perform env (BindCurrent p g) now = ignore (bind_current_credential_generation env p g)"

text \<open>A call that fails leaves the world as it is then; the next call comes all the same, with what the
  operating system will do from there on.\<close>

fun history :: "lifecycle_env \<Rightarrow> (lifecycle_call \<times> nat \<times> call_result list \<times> string list) list
    \<Rightarrow> lifecycle_world \<Rightarrow> lifecycle_world" where
  "history env [] w = w"
| "history env ((c, now, calls, rands) # cs) w =
     history env cs (snd (perform env c now (w\<lparr>lw_calls := calls, lw_random := rands\<rparr>)))"

lemma calls_keep:
  assumes "\<And>c now. lkeeps I (perform env c now) (\<lambda>_. True)" and "I (lw_files w)"
  shows "I (lw_files (history env cs w))"
  using assms(2)
proof (induction cs arbitrary: w)
  case (Cons c cs)
  obtain call now calls rands where [simp]: "c = (call, now, calls, rands)" by (metis prod_cases4)
  from Cons.prems have "I (lw_files (w\<lparr>lw_calls := calls, lw_random := rands\<rparr>))" by simp
  from lkeepsD [OF assms(1) this] Cons.IH show ?case by simp
qed simp

lemma lk_ignore: "lkeeps I p (\<lambda>_. True) \<Longrightarrow> lkeeps I (ignore p) (\<lambda>_. True)"
  unfolding ignore_def by (rule lk_bind) (simp_all add: lk_ret)

section \<open>The contract\<close>

definition journal_tag :: "lifecycle_env \<Rightarrow> string \<Rightarrow> ProductProviderId \<Rightarrow> string \<Rightarrow> string" where
  "journal_tag env owner p opid =
     le_tag env ''isyncyou/account-lifecycle-journal-id/v1'' (tag_message (operation_fields owner p opid))"

text \<open>No call leaves these phases: an exchange whose outcome is unknown, and a revocation that has used up its
  eight attempts.\<close>

definition dead :: "Journal \<Rightarrow> bool" where
  "dead j \<longleftrightarrow> jo_phase j = ExchangeOutcomeUnknown
     \<or> MAX_ATTEMPTS \<le> jo_attempt_count j \<and> jo_phase j \<in> {RevokeOutcomeUnknown, OAuthCandidateCleanup}"

locale lifecycle_contract =
  fixes env :: lifecycle_env and owner :: string
    and I :: "lifecycle_files \<Rightarrow> bool"
    and auth :: "Authority \<Rightarrow> bool"
    and stored :: "string \<Rightarrow> Journal \<Rightarrow> bool"
    and missing :: "string \<Rightarrow> bool"
    and writable :: "string \<Rightarrow> Journal \<Rightarrow> bool"
  assumes installed: "I f \<Longrightarrow> \<exists>inst. lw_installation f = Some inst \<and> in_principal inst = owner"
    and read_authority: "I f \<Longrightarrow> map_of (lw_authority f) owner = Some a \<Longrightarrow> auth a"
    and first_authority: "I f \<Longrightarrow> map_of (lw_authority f) owner = None \<Longrightarrow> auth fresh_authority"
    and write_authority: "I f \<Longrightarrow> auth a \<Longrightarrow> I (lw_authority_update (AList.update owner a) f)"
    and read_journal: "I f \<Longrightarrow> map_of (lw_journals f) i = Some v \<Longrightarrow> stored i v"
    and read_nothing: "I f \<Longrightarrow> map_of (lw_journals f) i = None \<Longrightarrow> missing i"
    and other_files: "I f \<Longrightarrow> I (lw_receipts_update ur f)" "I f \<Longrightarrow> I (lw_intents_update ui f)"
      "I f \<Longrightarrow> I (lw_candidates_update uc f)"
    and move: "stored i v \<Longrightarrow> \<not> dead v \<Longrightarrow> jo_prepared x = jo_prepared v \<Longrightarrow> writable i x"
    and again: "writable i v \<Longrightarrow> jo_prepared x = jo_prepared v \<Longrightarrow> writable i x"
    and recovered: "auth a \<Longrightarrow> map_of (au_active_operations a) p = Some b \<Longrightarrow> missing (ao_journal_record_id b) \<Longrightarrow>
      jo_prepared x = ao_prepared b \<Longrightarrow> writable (ao_journal_record_id b) x"
    and fenced: "auth a \<Longrightarrow> active_of a x = Some b \<Longrightarrow> same_operation a x b \<Longrightarrow> ao_journal_record_id b = i \<Longrightarrow>
      writable i x \<Longrightarrow> I f \<Longrightarrow> I (lw_journals_update (AList.update i x) f)"
    and same_actives: "auth a \<Longrightarrow> au_active_operations a' = au_active_operations a \<Longrightarrow>
      au_lifecycle_epoch a' = au_lifecycle_epoch a \<Longrightarrow> auth a'"
    and released: "auth a \<Longrightarrow> active_of a x = Some b \<Longrightarrow> same_operation a x b \<Longrightarrow> writable i x \<Longrightarrow>
      auth (release (po_provider (jo_prepared x)) a)"
    and reserved: "auth a \<Longrightarrow> map_of (au_active_operations a) (po_provider (ao_prepared b)) = None \<Longrightarrow>
      next_epoch (au_lifecycle_epoch a) = Inr (po_lifecycle_epoch (ao_prepared b)) \<Longrightarrow>
      short_fields (operation_fields owner (po_provider (ao_prepared b)) (po_operation_id (ao_prepared b))) \<Longrightarrow>
      ao_journal_record_id b = journal_tag env owner (po_provider (ao_prepared b)) (po_operation_id (ao_prepared b)) \<Longrightarrow>
      auth (reserve a b)"
    and opened: "auth a \<Longrightarrow> map_of (au_active_operations a) (po_provider (jo_prepared x)) = None \<Longrightarrow>
      short_fields (operation_fields owner (po_provider (jo_prepared x)) (po_operation_id (jo_prepared x))) \<Longrightarrow> I f \<Longrightarrow>
      I (lw_journals_update (AList.update (journal_tag env owner (po_provider (jo_prepared x)) (po_operation_id (jo_prepared x))) x) f)"
    and cleaned: "auth a \<Longrightarrow> \<forall>b. map_of (au_active_operations a) p = Some b \<longrightarrow> po_operation_id (ao_prepared b) \<noteq> opid \<Longrightarrow>
      short_fields (operation_fields owner p opid) \<Longrightarrow> I f \<Longrightarrow>
      I (lw_journals_update (AList.delete (journal_tag env owner p opid)) f)"
    and dropped: "auth a \<Longrightarrow> active_of a x = None \<Longrightarrow> writable i x \<Longrightarrow> I f \<Longrightarrow> I (lw_journals_update (AList.delete i) f)"
begin

text \<open>Loading.\<close>

lemma keep_ask_installation: "lkeeps I (ask lw_installation) (\<lambda>x. \<exists>i. x = Some i \<and> in_principal i = owner)"
  by (rule lk_ask) (rule installed)

lemma keep_ask_authority:
  "lkeeps I (ask (\<lambda>w. map_of (lw_authority w) owner)) (\<lambda>x. auth (case x of None \<Rightarrow> fresh_authority | Some a \<Rightarrow> a))"
  by (rule lk_ask) (auto split: option.split intro: read_authority first_authority)

lemma keep_load_existing:
  "lkeeps I load_existing (\<lambda>ctx. \<forall>c. ctx = Some c \<longrightarrow> ic_principal c = owner \<and> auth (ic_authority c))"
  unfolding load_existing_def
  apply (rule lk_bind [OF keep_ask_installation], elim exE conjE, simp)
  apply (intro lk_if lk_fail conjI impI, rule lk_bind [OF keep_ask_authority], intro lk_case_option lk_fail)
  apply (intro lk_if lk_fail lk_ret, simp)
  done

lemma keep_existing_or: "lkeeps I (existing_or e) (\<lambda>c. ic_principal c = owner \<and> auth (ic_authority c))"
  unfolding existing_or_def
  by (rule lk_bind [OF keep_load_existing]) (rule lkeeps_weaken [OF lk_some], simp)

lemma keep_load_journal: "lkeeps I (load_journal i) (\<lambda>x. case x of None \<Rightarrow> missing i | Some v \<Rightarrow> stored i v)"
proof -
  have "lkeeps I (ask (\<lambda>w. map_of (lw_journals w) i)) (\<lambda>x. case x of None \<Rightarrow> missing i | Some v \<Rightarrow> stored i v)"
    by (rule lk_ask) (auto split: option.split intro: read_journal read_nothing)
  then show ?thesis unfolding load_journal_def by (auto intro!: lk_if lk_fail lk_bind lk_ret)
qed

lemma keep_journal_or_invalid: "lkeeps I (journal_or_invalid i) (stored i)"
  unfolding journal_or_invalid_def
  by (rule lk_bind [OF keep_load_journal]) (rule lkeeps_weaken [OF lk_some], simp)

text \<open>Writing.\<close>

lemma keep_put_authority: "auth a \<Longrightarrow> lkeeps I (put_authority env owner a) (\<lambda>_. True)"
  unfolding put_authority_def put_record_def by (intro lk_if lk_fail lk_change write_authority)

lemma keep_put_journal:
  "(\<And>f. I f \<Longrightarrow> I (lw_journals_update (AList.update i v) f)) \<Longrightarrow> lkeeps I (put_journal env i v) (\<lambda>_. True)"
  unfolding put_journal_def put_record_def by (intro lk_if lk_fail lk_change)

lemma keep_delete_journal:
  "(\<And>f. I f \<Longrightarrow> I (lw_journals_update (AList.delete i) f)) \<Longrightarrow> lkeeps I (delete_journal i) (\<lambda>_. True)"
  unfolding delete_journal_def by (intro lk_if lk_fail lk_change)

lemma keep_put_candidate: "lkeeps I (put_candidate env i c) (\<lambda>_. True)"
  unfolding put_candidate_def put_record_def by (intro lk_if lk_fail lk_change other_files)

lemma keep_load_candidate: "lkeeps I (load_candidate i) (\<lambda>_. True)"
  unfolding load_candidate_def by (auto intro!: lk_if lk_fail lk_bind [OF lk_ask_any] lk_ret)

lemma keep_candidate_or_invalid: "lkeeps I (candidate_or_invalid i) (\<lambda>_. True)"
  unfolding candidate_or_invalid_def
  by (rule lk_bind [OF keep_load_candidate]) (rule lkeeps_any [OF lk_some])

lemma keep_delete_candidate: "lkeeps I (delete_candidate i) (\<lambda>_. True)"
  unfolding delete_candidate_def by (intro lk_if lk_fail lk_change other_files)

lemma keep_put_exchange_intent: "lkeeps I (put_exchange_intent env i x) (\<lambda>_. True)"
  unfolding put_exchange_intent_def put_record_def by (intro lk_if lk_fail lk_change other_files)

lemma keep_put_receipt_index: "lkeeps I (put_receipt_index env i ix) (\<lambda>_. True)"
  unfolding put_receipt_index_def put_record_def
  by (intro lk_if lk_fail lk_case_option lk_change other_files)

lemma keep_load_receipt_index: "lkeeps I (load_receipt_index env i) (\<lambda>_. True)"
  unfolding load_receipt_index_def
  by (rule lk_bind [OF lk_ask_any]) (auto intro!: lk_ret lk_fail split: option.split)

lemma keep_exchange_intent_id: "lkeeps I (exchange_intent_id env p opid) (\<lambda>_. True)"
  unfolding exchange_intent_id_def
  by (rule lk_bind [OF keep_existing_or]) (rule lkeeps_any [OF lk_derive_tag])

lemma keep_load_exchange_intent: "lkeeps I (load_exchange_intent env p opid) (\<lambda>_. True)"
  unfolding load_exchange_intent_def
  by (rule lk_bind [OF keep_exchange_intent_id], rule lk_bind [OF lk_ask_any]) (intro lk_if lk_ret lk_fail TrueI)

lemma keep_delete_exchange_intent: "lkeeps I (delete_exchange_intent env p opid) (\<lambda>_. True)"
  unfolding delete_exchange_intent_def
  by (rule lk_bind [OF keep_exchange_intent_id], rule lk_change) (rule other_files)

lemma keep_journal_record_id:
  "lkeeps I (journal_record_id env owner p opid)
     (\<lambda>t. t = journal_tag env owner p opid \<and> short_fields (operation_fields owner p opid))"
  unfolding journal_record_id_def journal_tag_def by (rule lk_derive_tag)

text \<open>The fence.\<close>

lemma keep_write_journal_fenced: "writable i x \<Longrightarrow> lkeeps I (write_journal_fenced env i x) (\<lambda>_. True)"
  unfolding write_journal_fenced_def
  apply (intro lk_bind [OF keep_existing_or] lk_bind [OF lk_some] lk_if lk_fail, elim conjE)
  apply (rule keep_put_journal, rule fenced; assumption)
  done

lemma keep_commit_journal: "writable i x \<Longrightarrow> lkeeps I (commit_journal env i x) (\<lambda>v. v = x)"
  unfolding commit_journal_def
  by (rule lk_bind, erule keep_write_journal_fenced, rule lk_bind [OF lk_transition_audit], rule lk_ret) simp

lemma keep_commit_alive:
  assumes "stored i v" "\<not> dead v" "jo_prepared x = jo_prepared v"
  shows "lkeeps I (commit_journal env i x) (writable i)"
  by (rule lkeeps_weaken [OF keep_commit_journal [OF move [OF assms]]]) (simp add: move [OF assms])

lemma keep_transition_journal:
  assumes "a \<noteq> ExchangeOutcomeUnknown" "a \<notin> {RevokeOutcomeUnknown, OAuthCandidateCleanup}"
  shows "lkeeps I (transition_journal env i a b code now) (writable i)"
  unfolding transition_journal_def
  apply (rule lk_bind [OF keep_journal_or_invalid], intro lk_if lk_fail)
  apply (rule keep_commit_alive, assumption, use assms in \<open>auto simp: dead_def\<close>)
  done

text \<open>Beginning.\<close>

lemma keep_any_class: "lkeeps I (any_class cs) (\<lambda>_. True)"
proof (induction cs)
  case (Cons c cs)
  then show ?case
    unfolding any_class.simps directory_contains_class_def
    by (intro lk_bind [OF lk_ask_any] lk_if lk_ret) simp_all
qed (simp add: lk_ret)

lemma keep_ensure_installation:
  assumes "\<exists>i. found = Some i \<and> in_principal i = owner"
  shows "lkeeps I (ensure_installation found) (\<lambda>i. in_principal i = owner)"
  using assms unfolding ensure_installation_def by (auto intro: lk_ret lk_fail)

lemma keep_initialize:
  "lkeeps I (initialize_repo env) (\<lambda>c. ic_principal c = owner \<and> auth (ic_authority c))"
  unfolding initialize_repo_def Let_def
  apply (rule lk_bind [OF lk_lock], rule lk_bind [OF keep_ask_installation], rule lk_bind [OF keep_ensure_installation], assumption)
  apply (simp only:, rule lk_bind [OF keep_ask_authority], intro lk_case_option)
   apply (rule lk_bind [where \<phi> = "\<lambda>_. True"], unfold directory_contains_lifecycle_residue_def)
    apply (intro lk_if lk_ret keep_any_class TrueI)
   apply (rule lk_bind [OF lk_need], rule lk_bind, rule keep_put_authority, simp, rule lk_ret, simp)
  apply (intro lk_if lk_fail lk_ret, simp)
  done

lemma keep_credential_etag_for_epoch: "lkeeps I (credential_etag_for_epoch env o' p g e) (\<lambda>_. True)"
  unfolding credential_etag_for_epoch_def credential_tag_def
  by (intro lk_if lk_fail lkeeps_any [OF lk_derive_tag])

lemma keep_credential_etag_of: "lkeeps I (credential_etag_of env o' p g e) (\<lambda>_. True)"
  unfolding credential_etag_of_def
  by (intro lk_case_option lk_ret lk_bind [OF keep_credential_etag_for_epoch] TrueI)

lemma keep_open:
  assumes "auth a" "map_of (au_active_operations a) (po_provider (jo_prepared x)) = None"
    and "i = journal_tag env owner (po_provider (jo_prepared x)) (po_operation_id (jo_prepared x))
         \<and> short_fields (operation_fields owner (po_provider (jo_prepared x)) (po_operation_id (jo_prepared x)))"
  shows "lkeeps I (put_journal env i x) (\<lambda>_. True)"
  using opened [OF assms(1,2)] assms(3) by (auto intro: keep_put_journal)

lemma keep_reserve:
  assumes "auth a" "map_of (au_active_operations a) (po_provider (ao_prepared b)) = None"
    and "next_epoch (au_lifecycle_epoch a) = Inr (po_lifecycle_epoch (ao_prepared b))"
    and "ao_journal_record_id b = journal_tag env owner (po_provider (ao_prepared b)) (po_operation_id (ao_prepared b))
         \<and> short_fields (operation_fields owner (po_provider (ao_prepared b)) (po_operation_id (ao_prepared b)))"
  shows "lkeeps I (put_authority env owner (reserve a b)) (\<lambda>_. True)"
  using assms by (intro keep_put_authority reserved) simp_all

lemma keep_begin_new:
  assumes c: "ic_principal c = owner" "auth (ic_authority c)"
    and free: "map_of (au_active_operations (ic_authority c)) (br_provider q) = None"
  shows "lkeeps I (begin_new env c k d q now) (\<lambda>_. True)"
  unfolding begin_new_def Let_def c(1)
  apply (rule lk_bind [OF lk_sum], rule lk_bind [OF lk_sum], rule lk_bind [OF lk_mint])
  apply (rule lk_bind [OF lkeeps_any [OF lk_derive_tag]], rule lk_bind [OF keep_journal_record_id])
  apply (rule lk_bind [OF keep_credential_etag_of], rule lk_bind [OF lkeeps_any [OF lk_derive_tag]])
  apply (rule lk_bind, rule keep_reserve [OF c(2)], simp_all only: prepared_of_def free select_convs ActiveOperationRef.simps PreparedOperation.simps)
  apply (rule lk_bind [OF lk_random], rule lk_bind, rule keep_open [OF c(2)], simp_all only: fresh_journal_def free PreparedOperation.simps Journal.simps)
  apply (rule lk_bind [OF lk_transition_audit], rule lk_ret, simp)
  done

lemma keep_replay_active: "lkeeps I (replay_active k d b) (\<lambda>_. True)"
  unfolding replay_active_def by (intro lk_if lk_fail lk_ret TrueI)

lemma keep_replay_receipt: "lkeeps I (replay_receipt env owner p d r) (\<lambda>_. True)"
  unfolding replay_receipt_def by (intro lk_if lk_fail lk_bind [OF keep_journal_record_id] lk_ret TrueI)

lemma keep_begin: "lkeeps I (begin_operation env q now) (\<lambda>_. True)"
  unfolding begin_operation_def idempotency_tag_def payload_tag_def receipt_index_id_def Let_def
  apply (intro lk_if lk_fail, rule lk_bind [OF keep_initialize])
  apply (rule lk_bind [OF lkeeps_any [OF lk_derive_tag]], rule lk_bind [OF lkeeps_any [OF lk_derive_tag]])
  apply (intro lk_case_option keep_replay_active lk_if lk_fail)
  apply (rule lk_bind [OF lkeeps_any [OF lk_derive_tag]], rule lk_bind [OF keep_load_receipt_index])
  apply (intro lk_case_option lk_if lk_fail)
    apply (rule keep_begin_new; simp)
   apply (rule keep_begin_new; simp)
  apply (simp only: keep_replay_receipt)
  done

lemma keep_recover: "lkeeps I (recover_active_journal env p now) (\<lambda>_. True)"
  unfolding recover_active_journal_def Let_def
  apply (rule lk_bind [OF keep_existing_or], intro lk_case_option lk_ret TrueI)
  apply (rule lk_bind [OF keep_load_journal], intro lk_case_option lk_ret TrueI)
  apply (rule lk_bind [OF lk_need], rule lk_bind [OF lk_random], rule lk_bind, rule keep_commit_journal)
   apply (rule recovered, erule conjunct2, assumption, simp, simp add: fresh_journal_def)
  apply (rule lk_ret, rule TrueI)
  done

text \<open>Moving the journal.\<close>

lemma keep_next_attempt: "lkeeps I (next_attempt x) (\<lambda>n. jo_attempt_count x < MAX_ATTEMPTS)"
  unfolding next_attempt_def
  by (rule lkeeps_weaken [OF lk_some]) (auto simp: checked_succ_def split: if_splits option.splits)

lemma keep_start_candidate_revoke: "lkeeps I (start_candidate_revoke env i ci t sc now) (\<lambda>_. True)"
  unfolding start_candidate_revoke_def
  apply (rule lk_bind [OF keep_journal_or_invalid], rule lk_bind [OF lk_need])
  apply (rule lk_bind [OF keep_load_candidate], rule lk_bind [OF lk_need], rule lk_bind [OF lk_some])
  apply (rule lk_bind [OF keep_next_attempt], rule lkeeps_any, rule keep_commit_alive, assumption)
   apply (auto simp: dead_def)
  done

lemma keep_first_leg:
  "lkeeps I (first_leg v) (\<lambda>x. jo_prepared x = jo_prepared v \<and> jo_attempt_count x = jo_attempt_count v)"
  unfolding first_leg_def
  by (intro lk_if lk_ret lk_bind [OF lk_some]) simp_all

lemma keep_start_active_revoke: "lkeeps I (start_active_revoke env i now) (\<lambda>_. True)"
  unfolding start_active_revoke_def
  apply (rule lk_bind [OF keep_journal_or_invalid], rule lk_bind [OF lk_need], rule lk_bind [OF keep_first_leg])
  apply (rule lk_bind [OF keep_next_attempt], rule lkeeps_any, rule keep_commit_alive, assumption)
   apply (auto simp: dead_def)
  done

lemma keep_publish_revoke_outcome: "lkeeps I (publish_revoke_outcome env i b code now) (\<lambda>_. True)"
  unfolding publish_revoke_outcome_def
  apply (rule lk_bind [OF keep_journal_or_invalid], intro lk_if lk_fail, rule lkeeps_any, rule keep_commit_alive, assumption)
   apply (auto simp: dead_def)
  done

lemma keep_mark_candidate_revoke_outcome:
  "lkeeps I (mark_candidate_revoke_outcome env i ci b code now) (\<lambda>_. True)"
  unfolding mark_candidate_revoke_outcome_def
  by (intro lk_bind [OF keep_candidate_or_invalid] lk_bind [OF keep_publish_revoke_outcome]
      lk_bind [OF keep_put_candidate] lk_ret TrueI)

lemma keep_retire: "lkeeps I (retire_etag p e a) (\<lambda>a'. au_active_operations a' = au_active_operations a
    \<and> au_lifecycle_epoch a' = au_lifecycle_epoch a)"
  unfolding retire_etag_def Let_def by (intro lk_if lk_fail lk_ret) simp_all

lemma keep_checkpoint_disconnected: "lkeeps I (checkpoint_disconnected env i now) (writable i)"
  unfolding checkpoint_disconnected_def Let_def
  apply (rule lk_bind [OF keep_journal_or_invalid], rule lk_bind [OF lk_need])
  apply (rule lk_bind [where \<phi> = "writable i"], intro lk_if lk_ret)
     apply (rule keep_commit_alive, assumption, simp add: dead_def, simp)
    apply (rule move, assumption, auto simp: dead_def) [1]
  apply (rule lk_bind [OF keep_existing_or], rule lk_bind [OF lk_some], rule lk_bind [OF lk_need], elim conjE)
  apply (intro lk_case_option lk_ret, assumption)
  apply (rule lk_bind [OF keep_retire], elim conjE, simp only:)
  apply (rule lk_bind, rule keep_put_authority, rule same_actives, assumption+)
  apply (rule lk_ret, assumption)
  done

lemma keep_await: "lkeeps I (await_oauth_login env i now) (\<lambda>_. True)"
  unfolding await_oauth_login_def Let_def
  by (intro lk_bind [OF keep_journal_or_invalid] lk_if lk_ret lk_fail TrueI lk_bind [OF keep_checkpoint_disconnected]
      lkeeps_any [OF keep_transition_journal]) simp_all

lemma keep_mark_exchange: "lkeeps I (mark_exchange_in_flight env i now) (\<lambda>_. True)"
  unfolding mark_exchange_in_flight_def Let_def
  apply (rule lk_bind [OF keep_transition_journal], simp_all)
  apply (rule lk_bind [OF keep_next_attempt], rule lk_bind, rule keep_write_journal_fenced, erule again, simp)
  apply (rule lk_ret, rule TrueI)
  done

lemma keep_prepare_exchange: "lkeeps I (prepare_exchange env i attempt now) (\<lambda>_. True)"
  unfolding prepare_exchange_def
  by (intro lk_bind [OF keep_journal_or_invalid] lk_bind [OF lk_need] lk_bind [OF keep_exchange_intent_id]
      lk_bind [OF keep_put_exchange_intent] keep_mark_exchange)

lemma keep_publish_candidate: "lkeeps I (publish_candidate env i c now) (\<lambda>_. True)"
  unfolding publish_candidate_def
  by (intro lk_bind [OF keep_journal_or_invalid] lk_if lk_fail lk_bind [OF keep_put_candidate]
      lkeeps_any [OF keep_transition_journal]) simp_all

lemma keep_bind_candidate: "lkeeps I (bind_candidate_generation env i ci g) (\<lambda>_. True)"
  unfolding bind_candidate_generation_def
  by (intro lk_bind [OF lk_need] lk_bind [OF keep_journal_or_invalid] lk_bind [OF keep_candidate_or_invalid]
      lk_if lk_fail keep_put_candidate)

text \<open>Ending operations.\<close>

lemma keep_record_receipt: "lkeeps I (record_receipt env rid x r ag now) (\<lambda>_. True)"
  unfolding record_receipt_def
  by (intro lk_bind [OF keep_load_receipt_index] lk_case_prod lk_case_option lk_if lk_fail lk_ret
      lk_bind [OF keep_put_receipt_index] lk_bind [where \<phi> = "\<lambda>_. True"] keep_put_receipt_index TrueI)

lemma keep_finish_oauth: "writable i x \<Longrightarrow> lkeeps I (finish_oauth_operation env x g code now) (\<lambda>_. True)"
  unfolding finish_oauth_operation_def Let_def receipt_index_id_def
  apply (rule lk_bind [OF keep_existing_or], rule lk_bind [OF lk_some], rule lk_bind [OF lk_need], elim conjE, simp only:)
  apply (rule lk_bind [OF keep_credential_etag_of], rule lk_bind [OF lkeeps_any [OF lk_derive_tag]])
  apply (rule lk_bind [OF keep_record_receipt], rule lk_bind, rule keep_put_authority)
   apply (rule same_actives [OF released], assumption, assumption, assumption, assumption)
    apply (simp_all add: release_def lk_ret split: option.split)
  done

lemma keep_when_some: "lkeeps I p (\<lambda>_. True) \<Longrightarrow> lkeeps I (when_some x p) (\<lambda>_. True)"
  unfolding when_some_def by (intro lk_if lk_ret TrueI)

lemma keep_clean_receipt:
  assumes "auth a" "\<forall>b. map_of (au_active_operations a) p = Some b \<longrightarrow> po_operation_id (ao_prepared b) \<noteq> rc_operation_id r"
  shows "lkeeps I (clean_receipt env owner p r) (\<lambda>_. True)"
  unfolding clean_receipt_def candidate_id_of_def
  apply (rule lk_bind [OF keep_journal_record_id], rule lk_bind [OF lkeeps_any [OF lk_derive_tag]])
  apply (rule lk_bind [OF keep_load_journal], rule lk_bind [OF keep_load_candidate], rule lk_bind [OF keep_load_exchange_intent])
  apply (rule lk_bind [OF lk_need])+
  apply (rule lk_bind [OF keep_when_some [OF keep_delete_candidate]])
  apply (rule lk_bind [OF keep_when_some [OF keep_delete_exchange_intent]])
  apply (rule lk_bind, rule keep_when_some, rule keep_delete_journal, elim conjE, simp only:, rule cleaned [OF assms], assumption+)
  apply (intro lk_bind [where \<phi> = "\<lambda>_. True"] lk_case_option lk_terminal_audit lk_ret TrueI)
  done

lemma keep_clean_receipts:
  assumes "auth a"
  shows "lkeeps I (clean_receipts env owner p
           (map_option (\<lambda>b. po_operation_id (ao_prepared b)) (map_of (au_active_operations a) p)) rs n) (\<lambda>_. True)"
proof (induction rs arbitrary: n)
  case (Cons r rs)
  have "lkeeps I (clean_receipt env owner p r) (\<lambda>_. True)"
    if "map_option (\<lambda>b. po_operation_id (ao_prepared b)) (map_of (au_active_operations a) p) \<noteq> Some (rc_operation_id r)"
    using that assms by (intro keep_clean_receipt) auto
  with Cons.IH show ?case unfolding clean_receipts.simps by (intro lk_if lk_bind) blast+
qed (simp add: lk_ret)

lemma keep_cleanup: "lkeeps I (cleanup_terminal_operation_artifacts env p) (\<lambda>_. True)"
  unfolding cleanup_terminal_operation_artifacts_def receipt_index_id_def
  apply (rule lk_bind [OF keep_load_existing], intro lk_case_option lk_ret TrueI)
  apply (rule lk_bind [OF lkeeps_any [OF lk_derive_tag]], rule lk_bind [OF keep_load_receipt_index])
  apply (intro lk_case_option lk_ret TrueI lk_if lk_fail)
  apply (drule spec, drule mp, assumption, elim conjE, simp only:)
  apply (erule keep_clean_receipts)
  done

lemma keep_complete_disconnect: "lkeeps I (complete_disconnect env i now) (\<lambda>_. True)"
  unfolding complete_disconnect_def receipt_index_id_def
  apply (rule lk_bind [OF keep_journal_or_invalid], rule lk_bind [OF lk_need], rule lk_bind [OF lk_need])
  apply (rule lk_bind [OF keep_existing_or], intro lk_if)
   apply (rule lk_bind [OF lkeeps_any [OF lk_derive_tag]], rule lk_bind [OF keep_load_receipt_index])
   apply (rule lk_bind [OF lk_some], rule lk_bind [OF keep_cleanup], rule lk_ret, rule TrueI)
  apply (rule lk_bind [OF keep_checkpoint_disconnected], rule lk_bind [OF keep_existing_or])
  apply (rule lk_bind [OF lkeeps_any [OF lk_derive_tag]], rule lk_bind [OF keep_record_receipt])
  apply (intro lk_case_option lk_if lk_fail)
   apply (rule lk_bind, rule keep_delete_journal, rule dropped, erule conjunct2, assumption+, rule lk_ret, rule TrueI)
  apply (elim conjE, simp only: not_not, rule lk_bind, rule keep_put_authority, rule released, assumption+)
  apply (rule lk_bind [OF keep_cleanup], rule lk_ret, rule TrueI)
  done

lemma keep_promote: "lkeeps I (promote_candidate env i ci g now) (\<lambda>_. True)"
proof -
  have checkpoint: "lkeeps I (checkpoint_candidate_promoted env i ci g now) (\<lambda>_. True)"
    unfolding checkpoint_candidate_promoted_def
    apply (rule lk_bind [OF lk_need], rule lk_bind [OF keep_journal_or_invalid], rule lk_bind [OF lk_need])
    apply (rule lk_bind [OF keep_candidate_or_invalid], rule lk_bind [OF lk_need])
    apply (rule lk_bind [where \<phi> = "writable i"], intro lk_if lk_ret)
       apply (rule keep_commit_alive, assumption, simp add: dead_def, simp)
      apply (rule move, assumption, auto simp: dead_def) [1]
    apply (rule lk_bind [where \<phi> = "\<lambda>_. True"], intro lk_if keep_put_candidate lk_ret TrueI)
    apply (rule lk_bind, rule keep_finish_oauth, assumption, rule lk_ret, rule TrueI)
    done
  show ?thesis
    unfolding promote_candidate_def
    by (rule lk_bind [OF checkpoint], intro lk_case_prod lk_bind [OF keep_cleanup] lk_ret TrueI)
qed

lemma keep_finish_cleanup: "lkeeps I (finish_candidate_cleanup env i ci code now) (\<lambda>_. True)"
  unfolding finish_candidate_cleanup_def
  apply (rule lk_bind [OF lk_need], rule lk_bind [OF keep_checkpoint_disconnected])
  apply (rule lk_bind [OF keep_candidate_or_invalid], rule lk_bind [OF lk_need])
  apply (rule lk_bind [where \<phi> = "writable i"], rule lkeeps_weaken [OF keep_commit_journal])
    apply (erule again, simp, simp, erule again, simp)
  apply (rule lk_bind, rule keep_finish_oauth, assumption, rule lk_bind [OF keep_cleanup], rule lk_ret, rule TrueI)
  done

lemma keep_removed_etags: "lkeeps I (removed_etags env o' p rs) (\<lambda>_. True)"
proof (induction rs)
  case (Cons r rs)
  have t: "lkeeps I (lok (credential_tag env o' p g e)) (\<lambda>_. True)" for g e
    unfolding credential_tag_def by (rule lk_ok [OF lk_derive_tag])
  show ?case
    unfolding removed_etags.simps
    by (intro lk_case_option Cons.IH lk_bind [OF t] lk_bind [OF Cons.IH] lk_ret TrueI)
qed (simp add: lk_ret)

lemma keep_compact: "lkeeps I (compact_terminal_receipts env p protected now) (\<lambda>_. True)"
proof -
  have f: "auth (forget_etags p gone a)" if "auth a" for gone a
    by (rule same_actives [OF that]) (simp_all add: forget_etags_def Let_def split: option.split)
  show ?thesis
    unfolding compact_terminal_receipts_def receipt_index_id_def Let_def
    apply (rule lk_bind [OF lk_need], rule lk_bind [OF keep_load_existing], intro lk_case_option lk_ret TrueI lk_if)
    apply (rule lk_bind [OF lkeeps_any [OF lk_derive_tag]], rule lk_bind [OF keep_load_receipt_index])
    apply (intro lk_case_option lk_ret TrueI lk_bind [OF keep_removed_etags] lk_if lk_bind [OF keep_put_receipt_index])
    apply (drule spec, drule mp, assumption, elim conjE, simp only:)
    apply (rule lk_bind, rule keep_put_authority, erule f, rule lk_ret, rule TrueI)
    done
qed

lemma keep_bind_current: "lkeeps I (bind_current_credential_generation env p g) (\<lambda>_. True)"
  unfolding bind_current_credential_generation_def Let_def
  apply (rule lk_bind [OF lk_need], rule lk_bind [OF keep_existing_or], rule lk_bind [OF lk_need])
  apply (intro lk_case_option lk_ret TrueI lk_bind [OF keep_credential_etag_for_epoch], elim conjE, simp only:)
  apply (rule lk_bind, rule keep_put_authority, erule same_actives, simp_all add: lk_ret)
  done

lemmas operations_keep = keep_begin keep_recover keep_await keep_prepare_exchange keep_publish_candidate keep_bind_candidate
  keep_start_candidate_revoke keep_start_active_revoke keep_publish_revoke_outcome keep_mark_candidate_revoke_outcome
  keep_complete_disconnect keep_promote keep_finish_cleanup keep_delete_exchange_intent keep_cleanup keep_compact
  keep_bind_current

lemma keep_perform: "lkeeps I (perform env c now) (\<lambda>_. True)"
  by (cases c)
    (auto intro!: lk_ignore operations_keep lkeeps_any [OF keep_transition_journal]
      simp: begin_candidate_validation_def require_candidate_cleanup_def)

lemma keep_history: "I (lw_files w) \<Longrightarrow> I (lw_files (history env cs w))"
  by (rule calls_keep [OF keep_perform])

end

end
