(* ===== verification/Account_Blocked.thy ===== *)
theory Account_Blocked
  imports Account_Contract
begin

text \<open>
  Two invariants of the account lifecycle as instances of the contract. \<open>sound\<close> is the order the repository
  means to keep: one active operation per provider, each under its derived journal id, with epochs that
  tell operations apart and never pass the authority's. \<open>blocked\<close> describes an operation that no call can move:
  another operation has passed its epoch, or its journal is in a phase without an exit.
\<close>

section \<open>Order\<close>

definition authority_sound :: "lifecycle_env \<Rightarrow> string \<Rightarrow> Authority \<Rightarrow> bool" where
  "authority_sound env owner a \<longleftrightarrow>
     bt_ok (au_active_operations a)
     \<and> (\<forall>p b. map_of (au_active_operations a) p = Some b \<longrightarrow>
          po_provider (ao_prepared b) = p
          \<and> short_fields (operation_fields owner p (po_operation_id (ao_prepared b)))
          \<and> ao_journal_record_id b = journal_tag env owner p (po_operation_id (ao_prepared b))
          \<and> po_lifecycle_epoch (ao_prepared b) \<le> au_lifecycle_epoch a)
     \<and> (\<forall>p q b c. map_of (au_active_operations a) p = Some b \<longrightarrow> map_of (au_active_operations a) q = Some c \<longrightarrow>
          p \<noteq> q \<longrightarrow> po_lifecycle_epoch (ao_prepared b) \<noteq> po_lifecycle_epoch (ao_prepared c))"

definition journal_sound :: "lifecycle_env \<Rightarrow> string \<Rightarrow> string \<Rightarrow> Journal \<Rightarrow> bool" where
  "journal_sound env owner i v \<longleftrightarrow>
     i = journal_tag env owner (po_provider (jo_prepared v)) (po_operation_id (jo_prepared v))
     \<and> short_fields (operation_fields owner (po_provider (jo_prepared v)) (po_operation_id (jo_prepared v)))"

definition sound :: "lifecycle_env \<Rightarrow> string \<Rightarrow> lifecycle_files \<Rightarrow> bool" where
  "sound env owner f \<longleftrightarrow>
     (\<exists>inst. lw_installation f = Some inst \<and> in_principal inst = owner)
     \<and> (\<forall>a. map_of (lw_authority f) owner = Some a \<longrightarrow> authority_sound env owner a)
     \<and> (\<forall>i v. map_of (lw_journals f) i = Some v \<longrightarrow> journal_sound env owner i v)"

lemma authority_soundD:
  assumes "authority_sound env owner a"
  shows "bt_ok (au_active_operations a)"
    and "map_of (au_active_operations a) p = Some b \<Longrightarrow> po_provider (ao_prepared b) = p
      \<and> short_fields (operation_fields owner p (po_operation_id (ao_prepared b)))
      \<and> ao_journal_record_id b = journal_tag env owner p (po_operation_id (ao_prepared b))
      \<and> po_lifecycle_epoch (ao_prepared b) \<le> au_lifecycle_epoch a"
    and "map_of (au_active_operations a) p = Some b \<Longrightarrow> map_of (au_active_operations a) q = Some c \<Longrightarrow> p \<noteq> q \<Longrightarrow>
      po_lifecycle_epoch (ao_prepared b) \<noteq> po_lifecycle_epoch (ao_prepared c)"
  using assms unfolding authority_sound_def by blast+

lemma actives_reserve:
  "bt_ok (au_active_operations a) \<Longrightarrow>
   map_of (au_active_operations (reserve a b)) = (map_of (au_active_operations a))(po_provider (ao_prepared b) \<mapsto> b)"
  "bt_ok (au_active_operations a) \<Longrightarrow> bt_ok (au_active_operations (reserve a b))"
  "au_lifecycle_epoch (reserve a b) = po_lifecycle_epoch (ao_prepared b)"
  by (simp_all add: reserve_def Let_def map_of_bt_insert)

lemma actives_release:
  "map_of (au_active_operations (release p a)) = (map_of (au_active_operations a))(p := None)"
  "bt_ok (au_active_operations a) \<Longrightarrow> bt_ok (au_active_operations (release p a))"
  "au_lifecycle_epoch (release p a) = au_lifecycle_epoch a"
  by (simp_all add: release_def map_of_bt_remove)

lemma authority_sound_reserve:
  assumes a: "authority_sound env owner a"
    and e: "next_epoch (au_lifecycle_epoch a) = Inr (po_lifecycle_epoch (ao_prepared b))"
    and s: "short_fields (operation_fields owner (po_provider (ao_prepared b)) (po_operation_id (ao_prepared b)))"
    and i: "ao_journal_record_id b = journal_tag env owner (po_provider (ao_prepared b)) (po_operation_id (ao_prepared b))"
  shows "authority_sound env owner (reserve a b)"
proof -
  note d = authority_soundD [OF a]
  note m = actives_reserve(1,2) [OF d(1), of b]
  from e have e': "po_lifecycle_epoch (ao_prepared b) = Suc (au_lifecycle_epoch a)" by (simp add: next_epoch_exact)
  show ?thesis
    unfolding authority_sound_def m(1) actives_reserve(3) e'
  proof (intro conjI allI impI)
    show "bt_ok (au_active_operations (reserve a b))" using m(2) d(1) by simp
  next
    fix p c assume c: "((map_of (au_active_operations a))(po_provider (ao_prepared b) \<mapsto> b)) p = Some c"
    show "po_provider (ao_prepared c) = p" "short_fields (operation_fields owner p (po_operation_id (ao_prepared c)))"
      "ao_journal_record_id c = journal_tag env owner p (po_operation_id (ao_prepared c))"
      "po_lifecycle_epoch (ao_prepared c) \<le> Suc (au_lifecycle_epoch a)"
      using c d(2) [of p c] s i e' by (simp_all split: if_splits)
  next
    fix p q c c'
    assume "((map_of (au_active_operations a))(po_provider (ao_prepared b) \<mapsto> b)) p = Some c"
      "((map_of (au_active_operations a))(po_provider (ao_prepared b) \<mapsto> b)) q = Some c'" "p \<noteq> q"
    then show "po_lifecycle_epoch (ao_prepared c) \<noteq> po_lifecycle_epoch (ao_prepared c')"
      using d(2) [of p c] d(2) [of q c'] d(3) [of p c q c'] e' by (auto split: if_splits)
  qed
qed

lemma authority_sound_release:
  assumes "authority_sound env owner a"
  shows "authority_sound env owner (release p a)"
  using assms authority_soundD(1) [OF assms]
  unfolding authority_sound_def actives_release by (auto simp: actives_release split: if_splits)

lemma authority_sound_fresh: "authority_sound env owner fresh_authority"
  by (simp add: authority_sound_def fresh_authority_def)

interpretation order: lifecycle_contract env owner "sound env owner" "authority_sound env owner"
  "journal_sound env owner" "\<lambda>_. True" "journal_sound env owner" for env owner
proof unfold_locales
  fix a p b and x :: Journal assume "authority_sound env owner a" "map_of (au_active_operations a) p = Some b" "jo_prepared x = ao_prepared b"
  then show "journal_sound env owner (ao_journal_record_id b) x"
    using authority_soundD(2) by (auto simp: journal_sound_def)
next
  fix a a' :: Authority
  assume a: "authority_sound env owner a"
    and eq: "au_active_operations a' = au_active_operations a" "au_lifecycle_epoch a' = au_lifecycle_epoch a"
  show "authority_sound env owner a'" using a unfolding authority_sound_def eq .
qed (auto simp: sound_def journal_sound_def update_conv delete_conv
    intro: authority_sound_fresh authority_sound_release authority_sound_reserve split: if_splits)

section \<open>Blocked operations\<close>

definition no_call_moves :: "Journal option \<Rightarrow> bool" where
  "no_call_moves j \<longleftrightarrow> (case j of None \<Rightarrow> False | Some v \<Rightarrow> dead v)"

text \<open>The journal, if there is one, is the operation's own; its id is the tag of the operation, and no other
  message has this tag.\<close>

definition own_journal :: "lifecycle_env \<Rightarrow> string \<Rightarrow> ActiveOperationRef \<Rightarrow> Journal option \<Rightarrow> bool" where
  "own_journal env owner b j \<longleftrightarrow>
     ao_journal_record_id b = journal_tag env owner (po_provider (ao_prepared b)) (po_operation_id (ao_prepared b))
     \<and> short_fields (operation_fields owner (po_provider (ao_prepared b)) (po_operation_id (ao_prepared b)))
     \<and> (\<forall>m. le_tag env ''isyncyou/account-lifecycle-journal-id/v1'' m = ao_journal_record_id b \<longrightarrow>
          m = tag_message (operation_fields owner (po_provider (ao_prepared b)) (po_operation_id (ao_prepared b))))
     \<and> (\<forall>v. j = Some v \<longrightarrow> jo_prepared v = ao_prepared b)"

definition belongs :: "ActiveOperationRef \<Rightarrow> Journal \<Rightarrow> bool" where
  "belongs b v \<longleftrightarrow> po_provider (jo_prepared v) = po_provider (ao_prepared b)
     \<and> po_operation_id (jo_prepared v) = po_operation_id (ao_prepared b)"

definition blocked_authority :: "lifecycle_env \<Rightarrow> string \<Rightarrow> ActiveOperationRef \<Rightarrow> Journal option \<Rightarrow> Authority \<Rightarrow> bool" where
  "blocked_authority env owner b j a \<longleftrightarrow>
     own_journal env owner b j
     \<and> bt_ok (au_active_operations a)
     \<and> map_of (au_active_operations a) (po_provider (ao_prepared b)) = Some b
     \<and> (\<forall>p c. map_of (au_active_operations a) p = Some c \<longrightarrow> po_provider (ao_prepared c) = p
          \<and> (p \<noteq> po_provider (ao_prepared b) \<longrightarrow> ao_journal_record_id c \<noteq> ao_journal_record_id b))
     \<and> (po_lifecycle_epoch (ao_prepared b) < au_lifecycle_epoch a \<or> no_call_moves j)"

definition blocked :: "lifecycle_env \<Rightarrow> string \<Rightarrow> ActiveOperationRef \<Rightarrow> Journal option \<Rightarrow> lifecycle_files \<Rightarrow> bool" where
  "blocked env owner b j f \<longleftrightarrow>
     own_journal env owner b j
     \<and> (\<exists>inst. lw_installation f = Some inst \<and> in_principal inst = owner)
     \<and> (\<exists>a. map_of (lw_authority f) owner = Some a \<and> blocked_authority env owner b j a)
     \<and> map_of (lw_journals f) (ao_journal_record_id b) = j
     \<and> (\<forall>i v. map_of (lw_journals f) i = Some v \<longrightarrow> i \<noteq> ao_journal_record_id b \<longrightarrow> \<not> belongs b v)"

definition read_under :: "lifecycle_env \<Rightarrow> string \<Rightarrow> ActiveOperationRef \<Rightarrow> Journal option \<Rightarrow> string \<Rightarrow> Journal \<Rightarrow> bool" where
  "read_under env owner b j i v \<longleftrightarrow> own_journal env owner b j
     \<and> (if i = ao_journal_record_id b then j = Some v else \<not> belongs b v)"

definition writable_under :: "lifecycle_env \<Rightarrow> string \<Rightarrow> ActiveOperationRef \<Rightarrow> Journal option \<Rightarrow> string \<Rightarrow> Journal \<Rightarrow> bool" where
  "writable_under env owner b j i x \<longleftrightarrow> own_journal env owner b j
     \<and> (if i = ao_journal_record_id b then jo_prepared x = ao_prepared b \<and> \<not> no_call_moves j else \<not> belongs b x)"

lemma own_journal_tag:
  assumes own: "own_journal env owner b j" and t: "journal_tag env owner p opid = ao_journal_record_id b"
    and s: "short_fields (operation_fields owner p opid)"
  shows "p = po_provider (ao_prepared b) \<and> opid = po_operation_id (ao_prepared b)"
proof -
  have "tag_message (operation_fields owner p opid)
      = tag_message (operation_fields owner (po_provider (ao_prepared b)) (po_operation_id (ao_prepared b)))"
    using own t unfolding own_journal_def journal_tag_def by blast
  moreover have "short_fields (operation_fields owner (po_provider (ao_prepared b)) (po_operation_id (ao_prepared b)))"
    using own unfolding own_journal_def by blast
  ultimately have "operation_fields owner p opid
      = operation_fields owner (po_provider (ao_prepared b)) (po_operation_id (ao_prepared b))"
    using s tag_message_inject by blast
  then show ?thesis by (simp add: operation_fields_def)
qed

lemma own_journal_prepared: "own_journal env owner b j \<Longrightarrow> j = Some v \<Longrightarrow> jo_prepared v = ao_prepared b"
  unfolding own_journal_def by blast

lemma own_journal_id: "own_journal env owner b j \<Longrightarrow>
    ao_journal_record_id b = journal_tag env owner (po_provider (ao_prepared b)) (po_operation_id (ao_prepared b))"
  unfolding own_journal_def by blast

lemma blocked_authorityI:
  assumes "own_journal env owner b j" "bt_ok (au_active_operations a)"
    and "map_of (au_active_operations a) (po_provider (ao_prepared b)) = Some b"
    and "\<And>p c. map_of (au_active_operations a) p = Some c \<Longrightarrow> po_provider (ao_prepared c) = p
          \<and> (p \<noteq> po_provider (ao_prepared b) \<longrightarrow> ao_journal_record_id c \<noteq> ao_journal_record_id b)"
    and "po_lifecycle_epoch (ao_prepared b) < au_lifecycle_epoch a \<or> no_call_moves j"
  shows "blocked_authority env owner b j a"
  using assms unfolding blocked_authority_def by blast

lemma blocked_authorityD:
  assumes "blocked_authority env owner b j a"
  shows "own_journal env owner b j" and "bt_ok (au_active_operations a)"
    and "map_of (au_active_operations a) (po_provider (ao_prepared b)) = Some b"
    and "map_of (au_active_operations a) p = Some c \<Longrightarrow> po_provider (ao_prepared c) = p
          \<and> (p \<noteq> po_provider (ao_prepared b) \<longrightarrow> ao_journal_record_id c \<noteq> ao_journal_record_id b)"
    and "po_lifecycle_epoch (ao_prepared b) < au_lifecycle_epoch a \<or> no_call_moves j"
  using assms unfolding blocked_authority_def by blast+

text \<open>The fence lets no write of the blocked operation pass.\<close>

lemma fence_excludes:
  assumes a: "blocked_authority env owner b j a" "active_of a x = Some c" "same_operation a x c"
    and w: "writable_under env owner b j i x"
  shows "i \<noteq> ao_journal_record_id b" and "po_provider (jo_prepared x) \<noteq> po_provider (ao_prepared b)"
proof -
  show i: "i \<noteq> ao_journal_record_id b"
    using a(3) w blocked_authorityD(5) [OF a(1)] by (auto simp: same_operation_def writable_under_def)
  with w have "\<not> belongs b x" by (simp add: writable_under_def)
  then show "po_provider (jo_prepared x) \<noteq> po_provider (ao_prepared b)"
    using a(2,3) blocked_authorityD(3) [OF a(1)] by (auto simp: same_operation_def active_of_def belongs_def)
qed

lemma blocked_authority_release:
  assumes a: "blocked_authority env owner b j a" and p: "p \<noteq> po_provider (ao_prepared b)"
  shows "blocked_authority env owner b j (release p a)"
proof (rule blocked_authorityI)
  note d = blocked_authorityD [OF a]
  show "own_journal env owner b j" by (rule d(1))
  show "bt_ok (au_active_operations (release p a))" using d(2) by (rule actives_release(2))
  show "map_of (au_active_operations (release p a)) (po_provider (ao_prepared b)) = Some b"
    using d(3) p by (simp add: actives_release)
  show "po_lifecycle_epoch (ao_prepared b) < au_lifecycle_epoch (release p a) \<or> no_call_moves j"
    using d(5) by (simp only: actives_release)
  fix q c assume "map_of (au_active_operations (release p a)) q = Some c"
  then have "map_of (au_active_operations a) q = Some c" by (simp add: actives_release split: if_splits)
  from d(4) [OF this] show "po_provider (ao_prepared c) = q
      \<and> (q \<noteq> po_provider (ao_prepared b) \<longrightarrow> ao_journal_record_id c \<noteq> ao_journal_record_id b)" .
qed

lemma blocked_authority_reserve:
  assumes a: "blocked_authority env owner b j a"
    and free: "map_of (au_active_operations a) (po_provider (ao_prepared n)) = None"
    and e: "next_epoch (au_lifecycle_epoch a) = Inr (po_lifecycle_epoch (ao_prepared n))"
    and s: "short_fields (operation_fields owner (po_provider (ao_prepared n)) (po_operation_id (ao_prepared n)))"
    and i: "ao_journal_record_id n = journal_tag env owner (po_provider (ao_prepared n)) (po_operation_id (ao_prepared n))"
  shows "blocked_authority env owner b j (reserve a n)"
proof (rule blocked_authorityI)
  note d = blocked_authorityD [OF a]
  note m = actives_reserve(1,2) [OF d(2), of n]
  from free d(3) have p: "po_provider (ao_prepared n) \<noteq> po_provider (ao_prepared b)" by auto
  have n: "ao_journal_record_id n \<noteq> ao_journal_record_id b"
    using own_journal_tag [OF d(1) _ s] i p by metis
  show "own_journal env owner b j" by (rule d(1))
  show "bt_ok (au_active_operations (reserve a n))" by (rule m(2))
  show "map_of (au_active_operations (reserve a n)) (po_provider (ao_prepared b)) = Some b"
    unfolding m(1) using d(3) p by simp
  show "po_lifecycle_epoch (ao_prepared b) < au_lifecycle_epoch (reserve a n) \<or> no_call_moves j"
    using d(5) e by (auto simp only: actives_reserve(3) next_epoch_exact)
  fix q c assume "map_of (au_active_operations (reserve a n)) q = Some c"
  then show "po_provider (ao_prepared c) = q
      \<and> (q \<noteq> po_provider (ao_prepared b) \<longrightarrow> ao_journal_record_id c \<noteq> ao_journal_record_id b)"
    unfolding m(1) using d(4) [of q c] n by (auto split: if_splits)
qed

lemma blocked_other_journal:
  assumes "blocked env owner b j f" "i \<noteq> ao_journal_record_id b"
  shows "\<not> belongs b x \<Longrightarrow> blocked env owner b j (lw_journals_update (AList.update i x) f)"
    and "blocked env owner b j (lw_journals_update (AList.delete i) f)"
  using assms unfolding blocked_def by (auto simp: update_conv delete_conv split: if_splits)

lemma blocked_write_authority:
  assumes "blocked env owner b j f" "blocked_authority env owner b j a"
  shows "blocked env owner b j (lw_authority_update (AList.update owner a) f)"
  using assms unfolding blocked_def by (auto simp: update_conv)

interpretation stuck: lifecycle_contract env owner "blocked env owner b j" "blocked_authority env owner b j"
  "read_under env owner b j" "\<lambda>i. own_journal env owner b j \<and> (i = ao_journal_record_id b \<longrightarrow> \<not> no_call_moves j)"
  "writable_under env owner b j" for env owner b j
proof unfold_locales
  fix i v and x :: Journal
  assume r: "read_under env owner b j i v" "\<not> dead v" "jo_prepared x = jo_prepared v"
  show "writable_under env owner b j i x"
  proof (cases "i = ao_journal_record_id b")
    case True
    from r(1) have c: "own_journal env owner b j \<and> j = Some v" unfolding read_under_def if_P [OF True] .
    from own_journal_prepared [OF c [THEN conjunct1] c [THEN conjunct2]] have "jo_prepared v = ao_prepared b" .
    with True r(2,3) c [THEN conjunct1] show ?thesis
      unfolding writable_under_def no_call_moves_def c [THEN conjunct2] by simp
  next
    case False
    with r show ?thesis by (simp add: read_under_def writable_under_def belongs_def)
  qed
next
  fix i v and x :: Journal
  assume "writable_under env owner b j i v" "jo_prepared x = jo_prepared v"
  then show "writable_under env owner b j i x" by (simp add: writable_under_def belongs_def split: if_splits)
next
  fix a p c and x :: Journal
  assume a: "blocked_authority env owner b j a" and c: "map_of (au_active_operations a) p = Some c"
    and n: "own_journal env owner b j \<and> (ao_journal_record_id c = ao_journal_record_id b \<longrightarrow> \<not> no_call_moves j)"
    and x: "jo_prepared x = ao_prepared c"
  show "writable_under env owner b j (ao_journal_record_id c) x"
  proof (cases "p = po_provider (ao_prepared b)")
    case True
    with c blocked_authorityD(3) [OF a] have "c = b" by simp
    with n x show ?thesis by (simp add: writable_under_def)
  next
    case False
    with blocked_authorityD(4) [OF a c] n x show ?thesis by (simp add: writable_under_def belongs_def)
  qed
next
  fix a c i f and x :: Journal
  assume "blocked_authority env owner b j a" "active_of a x = Some c" "same_operation a x c"
    "writable_under env owner b j i x" "blocked env owner b j f"
  then show "blocked env owner b j (lw_journals_update (AList.update i x) f)"
    using fence_excludes(1) blocked_other_journal(1) by (metis writable_under_def)
next
  fix a a' :: Authority
  assume a: "blocked_authority env owner b j a"
    and eq: "au_active_operations a' = au_active_operations a" "au_lifecycle_epoch a' = au_lifecycle_epoch a"
  show "blocked_authority env owner b j a'" using a unfolding blocked_authority_def eq .
next
  fix a c i and x :: Journal
  assume "blocked_authority env owner b j a" "active_of a x = Some c" "same_operation a x c"
    "writable_under env owner b j i x"
  then show "blocked_authority env owner b j (release (po_provider (jo_prepared x)) a)"
    by (intro blocked_authority_release) (auto dest: fence_excludes(2))
next
  fix a f and x :: Journal
  assume a: "blocked_authority env owner b j a" and f: "blocked env owner b j f"
    and free: "map_of (au_active_operations a) (po_provider (jo_prepared x)) = None"
    and s: "short_fields (operation_fields owner (po_provider (jo_prepared x)) (po_operation_id (jo_prepared x)))"
  from free blocked_authorityD(3) [OF a] have p: "po_provider (jo_prepared x) \<noteq> po_provider (ao_prepared b)" by auto
  then have "\<not> belongs b x" by (simp add: belongs_def)
  moreover have "journal_tag env owner (po_provider (jo_prepared x)) (po_operation_id (jo_prepared x)) \<noteq> ao_journal_record_id b"
    using own_journal_tag [OF blocked_authorityD(1) [OF a] _ s] p by metis
  ultimately show "blocked env owner b j (lw_journals_update (AList.update
      (journal_tag env owner (po_provider (jo_prepared x)) (po_operation_id (jo_prepared x))) x) f)"
    using f by (intro blocked_other_journal(1))
next
  fix a p opid f
  assume a: "blocked_authority env owner b j a" and f: "blocked env owner b j f"
    and o: "\<forall>c. map_of (au_active_operations a) p = Some c \<longrightarrow> po_operation_id (ao_prepared c) \<noteq> opid"
    and s: "short_fields (operation_fields owner p opid)"
  have "journal_tag env owner p opid \<noteq> ao_journal_record_id b"
    using own_journal_tag [OF blocked_authorityD(1) [OF a] _ s] blocked_authorityD(3) [OF a] o by metis
  then show "blocked env owner b j (lw_journals_update (AList.delete (journal_tag env owner p opid)) f)"
    using f by (intro blocked_other_journal(2))
next
  fix a i f and x :: Journal
  assume a: "blocked_authority env owner b j a" "active_of a x = None" and w: "writable_under env owner b j i x"
    and f: "blocked env owner b j f"
  from a blocked_authorityD(3) [OF a(1)] have "po_provider (jo_prepared x) \<noteq> po_provider (ao_prepared b)"
    by (auto simp: active_of_def)
  with w have "i \<noteq> ao_journal_record_id b" by (auto simp: writable_under_def)
  then show "blocked env owner b j (lw_journals_update (AList.delete i) f)"
    using f by (intro blocked_other_journal(2))
next
  fix f i assume f: "blocked env owner b j f" and none: "map_of (lw_journals f) i = None"
  from f have "own_journal env owner b j" and j: "map_of (lw_journals f) (ao_journal_record_id b) = j"
    unfolding blocked_def by blast+
  moreover have "\<not> no_call_moves j" if "i = ao_journal_record_id b"
    using none that by (simp flip: j add: no_call_moves_def)
  ultimately show "own_journal env owner b j \<and> (i = ao_journal_record_id b \<longrightarrow> \<not> no_call_moves j)" by blast
next
  fix f i v assume f: "blocked env owner b j f" and v: "map_of (lw_journals f) i = Some v"
  from f have "own_journal env owner b j" and j: "map_of (lw_journals f) (ao_journal_record_id b) = j"
    and others: "i \<noteq> ao_journal_record_id b \<Longrightarrow> \<not> belongs b v"
    unfolding blocked_def using v by blast+
  moreover have "j = Some v" if "i = ao_journal_record_id b" using v that by (simp flip: j)
  ultimately show "read_under env owner b j i v" unfolding read_under_def by simp
next
  fix f a assume "blocked env owner b j f" "map_of (lw_authority f) owner = None"
  then show "blocked_authority env owner b j fresh_authority" by (auto simp: blocked_def)
next
  fix f a assume "blocked env owner b j f" "map_of (lw_authority f) owner = Some a"
  then show "blocked_authority env owner b j a" by (auto simp: blocked_def)
qed (simp_all add: blocked_authority_reserve blocked_write_authority, simp_all add: blocked_def)

section \<open>What the instances say\<close>

definition installed_world :: "Installation \<Rightarrow> lifecycle_world" where
  "installed_world inst =
     \<lparr>lw_files = \<lparr>lw_installation = Some inst, lw_authority = [], lw_journals = [], lw_receipts = [], lw_intents = [],
                 lw_candidates = []\<rparr>,
      lw_calls = [], lw_random = [], lw_audit = []\<rparr>"

text \<open>The operation is still the active one, its journal is the same, and the provider accepts no other request:
  a beginning that succeeds is the replay of this operation.\<close>

definition still_active :: "lifecycle_env \<Rightarrow> string \<Rightarrow> ActiveOperationRef \<Rightarrow> Journal option \<Rightarrow> lifecycle_world \<Rightarrow> bool" where
  "still_active env owner b j w \<longleftrightarrow>
     (\<exists>a. map_of (lw_authority (lw_files w)) owner = Some a
          \<and> map_of (au_active_operations a) (po_provider (ao_prepared b)) = Some b)
     \<and> map_of (lw_journals (lw_files w)) (ao_journal_record_id b) = j
     \<and> (\<forall>q now x. br_provider q = po_provider (ao_prepared b) \<longrightarrow> fst (begin_operation env q now w) = Inr x \<longrightarrow>
          bo_idempotent_replay x \<and> bo_operation_id x = po_operation_id (ao_prepared b))"

lemma stuck_begin:
  assumes "br_provider q = po_provider (ao_prepared b)"
  shows "lkeeps (blocked env owner b j) (begin_operation env q now)
           (\<lambda>x. bo_idempotent_replay x \<and> bo_operation_id x = po_operation_id (ao_prepared b))"
proof -
  have replay: "lkeeps I (replay_active k d b) (\<lambda>x. bo_idempotent_replay x \<and> bo_operation_id x = po_operation_id (ao_prepared b))"
    for I k d
    unfolding replay_active_def by (intro lk_if lk_fail lk_ret) simp
  have active: "map_of (au_active_operations a) (br_provider q) = Some b" if "blocked_authority env owner b j a" for a
    using blocked_authorityD(3) [OF that] assms by simp
  show ?thesis
    unfolding begin_operation_def idempotency_tag_def payload_tag_def Let_def
    apply (intro lk_if lk_fail, rule lk_bind [OF stuck.keep_initialize])
    apply (rule lk_bind [OF lkeeps_any [OF lk_derive_tag]], rule lk_bind [OF lkeeps_any [OF lk_derive_tag]])
    apply (elim conjE, simp only: active option.case, rule replay)
    done
qed

lemma blocked_never_ends:
  assumes "blocked env owner b j (lw_files w)"
  shows "still_active env owner b j (history env cs w)"
proof -
  let ?w = "history env cs w"
  from assms have f: "blocked env owner b j (lw_files ?w)" by (rule stuck.keep_history)
  moreover have "bo_idempotent_replay x \<and> bo_operation_id x = po_operation_id (ao_prepared b)"
    if "br_provider q = po_provider (ao_prepared b)" "fst (begin_operation env q now ?w) = Inr x" for q now x
    using stuck_begin [OF that(1), of env owner j now] f that(2) by (auto simp: lkeeps_def)
  ultimately show ?thesis
    unfolding still_active_def blocked_def by (auto dest: blocked_authorityD(3))
qed

text \<open>In an ordered store, an operation is blocked once its epoch has passed or its journal has no exit.\<close>

lemma sound_blocked:
  assumes f: "sound env owner f" and a: "map_of (lw_authority f) owner = Some a"
    and b: "map_of (au_active_operations a) p = Some b"
    and own: "own_journal env owner b (map_of (lw_journals f) (ao_journal_record_id b))"
    and late: "po_lifecycle_epoch (ao_prepared b) < au_lifecycle_epoch a
      \<or> no_call_moves (map_of (lw_journals f) (ao_journal_record_id b))"
  shows "blocked env owner b (map_of (lw_journals f) (ao_journal_record_id b)) f"
proof -
  from f a have s: "authority_sound env owner a" by (simp add: sound_def)
  note d = authority_soundD [OF s]
  from d(2) [OF b] have p: "po_provider (ao_prepared b) = p" by blast
  have other: "ao_journal_record_id c \<noteq> ao_journal_record_id b" if "map_of (au_active_operations a) q = Some c" "q \<noteq> p" for q c
    using own_journal_tag [OF own, of q "po_operation_id (ao_prepared c)"] d(2) [OF that(1)] that(2) p by auto
  have "blocked_authority env owner b (map_of (lw_journals f) (ao_journal_record_id b)) a"
    by (rule blocked_authorityI [OF own d(1) _ _ late]) (use b p d(2) other in auto)
  moreover have "\<not> belongs b v" if "map_of (lw_journals f) i = Some v" "i \<noteq> ao_journal_record_id b" for i v
  proof
    assume "belongs b v"
    moreover from f that(1) have "journal_sound env owner i v" unfolding sound_def by blast
    ultimately have "i = ao_journal_record_id b"
      using own_journal_id [OF own] unfolding journal_sound_def belongs_def by simp
    with that(2) show False by simp
  qed
  ultimately show ?thesis using own a f unfolding blocked_def sound_def by blast
qed

section \<open>A concrete installation\<close>

text \<open>Two connect operations, as the repository leaves them: the one of Claude has epoch 1 and waits for the
  outcome of its exchange, the one of Codex has epoch 2.\<close>

definition demo_owner :: string where "demo_owner = replicate 22 (CHR ''p'')"

definition demo_prepared :: "ProductProviderId \<Rightarrow> string \<Rightarrow> nat \<Rightarrow> PreparedOperation" where
  "demo_prepared p opid epoch = prepared_of
     \<lparr>br_provider = p, br_route = OAuthStart, br_mode = Connect, br_request_id = [], br_generation = None,
      br_subject_digest = None, br_target = None, br_scope = None\<rparr>
     0 opid (replicate 43 (CHR ''h'')) (replicate 43 (CHR ''k'')) (replicate 43 (CHR ''d'')) epoch epoch 1 None"

definition claude_id :: string where "claude_id = replicate 32 (CHR ''x'')"
definition codex_id :: string where "codex_id = replicate 32 (CHR ''y'')"

definition two_env :: lifecycle_env where
  "two_env =
     \<lparr>le_tag = (\<lambda>_ m. replicate 43
        (if m = tag_message (operation_fields demo_owner Claude claude_id) then CHR ''A''
         else if m = tag_message (operation_fields demo_owner Codex codex_id) then CHR ''C'' else CHR ''T'')),
      le_hash = id, le_authority_len = (\<lambda>_. 0), le_journal_len = (\<lambda>_. 0), le_candidate_len = (\<lambda>_. 0),
      le_intent_len = (\<lambda>_. 0), le_index_len = (\<lambda>_. 0), le_receipt_len = (\<lambda>_. 0), le_audited = False\<rparr>"

definition claude_op :: ActiveOperationRef where
  "claude_op = \<lparr>ao_prepared = demo_prepared Claude claude_id 1, ao_operation_etag = replicate 43 (CHR ''e''),
     ao_journal_record_id = replicate 43 (CHR ''A'')\<rparr>"

definition codex_op :: ActiveOperationRef where
  "codex_op = \<lparr>ao_prepared = demo_prepared Codex codex_id 2, ao_operation_etag = replicate 43 (CHR ''e''),
     ao_journal_record_id = replicate 43 (CHR ''C'')\<rparr>"

definition claude_journal :: Journal where
  "claude_journal = (fresh_journal (ao_prepared claude_op) (replicate 22 (CHR ''n'')) (ao_operation_etag claude_op) 0 0)
     \<lparr>jo_phase := ExchangeOutcomeUnknown, jo_attempt_count := 1, jo_closed_code := Some ''exchange_outcome_unknown''\<rparr>"

definition codex_journal :: Journal where
  "codex_journal = (fresh_journal (ao_prepared codex_op) (replicate 22 (CHR ''n'')) (ao_operation_etag codex_op) 0 0)
     \<lparr>jo_phase := AwaitingOAuthLogin\<rparr>"

definition demo_authority :: Authority where
  "demo_authority = fresh_authority\<lparr>au_lifecycle_epoch := 2, au_fence_epoch := 2,
     au_active_operations := [(Claude, claude_op), (Codex, codex_op)]\<rparr>"

definition two_world :: lifecycle_world where
  "two_world =
     \<lparr>lw_files = \<lparr>lw_installation = Some \<lparr>in_version = 1, in_initialized = True, in_principal = demo_owner\<rparr>,
        lw_authority = [(demo_owner, demo_authority)],
        lw_journals = [(ao_journal_record_id claude_op, claude_journal), (ao_journal_record_id codex_op, codex_journal)],
        lw_receipts = [], lw_intents = [], lw_candidates = []\<rparr>,
      lw_calls = [], lw_random = [], lw_audit = []\<rparr>"

lemma demo_short: "short_fields (operation_fields demo_owner Claude claude_id)"
  "short_fields (operation_fields demo_owner Codex codex_id)"
  by (simp_all add: short_fields_def operation_fields_def demo_owner_def claude_id_def codex_id_def U32_MAX_def)

lemma demo_messages: "tag_message (operation_fields demo_owner Claude claude_id)
    \<noteq> tag_message (operation_fields demo_owner Codex codex_id)"
  using tag_message_inject [OF demo_short] by (auto simp: operation_fields_def claude_id_def codex_id_def)

lemma demo_operations [simp]:
  "po_provider (ao_prepared claude_op) = Claude" "po_provider (ao_prepared codex_op) = Codex"
  "po_operation_id (ao_prepared claude_op) = claude_id" "po_operation_id (ao_prepared codex_op) = codex_id"
  "po_lifecycle_epoch (ao_prepared claude_op) = 1" "po_lifecycle_epoch (ao_prepared codex_op) = 2"
  "jo_prepared claude_journal = ao_prepared claude_op" "jo_prepared codex_journal = ao_prepared codex_op"
  "ao_journal_record_id claude_op \<noteq> ao_journal_record_id codex_op"
  by (simp_all add: claude_op_def codex_op_def demo_prepared_def prepared_of_def claude_journal_def codex_journal_def
      fresh_journal_def)

lemma demo_tags [simp]:
  "journal_tag two_env demo_owner Claude claude_id = ao_journal_record_id claude_op"
  "journal_tag two_env demo_owner Codex codex_id = ao_journal_record_id codex_op"
  using demo_messages by (auto simp: journal_tag_def two_env_def claude_op_def codex_op_def)

lemma demo_own: "own_journal two_env demo_owner claude_op (Some claude_journal)"
  "own_journal two_env demo_owner codex_op (Some codex_journal)"
  using demo_short demo_messages
  by (auto simp: own_journal_def) (auto simp: two_env_def claude_op_def codex_op_def split: if_splits)

lemma demo_authority_sound: "authority_sound two_env demo_owner demo_authority"
  using demo_short
  by (auto simp: authority_sound_def demo_authority_def fresh_authority_def bt_ok_def less_ProductProviderId_def split: if_splits)

lemma demo_sound: "sound two_env demo_owner (lw_files two_world)"
  using demo_short demo_authority_sound
  by (auto simp: sound_def two_world_def journal_sound_def split: if_splits)

lemma demo_files [simp]:
  "map_of (lw_authority (lw_files two_world)) demo_owner = Some demo_authority"
  "map_of (au_active_operations demo_authority) Claude = Some claude_op"
  "map_of (au_active_operations demo_authority) Codex = Some codex_op"
  "map_of (lw_journals (lw_files two_world)) (ao_journal_record_id claude_op) = Some claude_journal"
  "map_of (lw_journals (lw_files two_world)) (ao_journal_record_id codex_op) = Some codex_journal"
  using demo_operations(9) demo_operations(9) [symmetric] by (simp_all add: two_world_def demo_authority_def)

section \<open>The properties\<close>

text \<open>C15: Whatever calls the host makes and however the disk fails, the files stay in order: every active
  operation is filed under its provider and its derived journal id, no epoch passes the authority's, no two
  active operations have the same epoch, and every journal lies under the id of its own operation.\<close>

theorem operations_stay_ordered:
  "sound env (in_principal inst) (lw_files (history env cs (installed_world inst)))"
  by (rule order.keep_history) (simp add: installed_world_def sound_def)

text \<open>C16: When both providers have an unfinished operation, one of the two can never be finished: it is still
  active, with an unchanged journal, after any calls whatsoever, and its provider accepts no other request.
  The epochs that the fence compares belong to the installation, so beginning the second operation makes
  every later write of the first one stale.\<close>

theorem two_operations_strand_one:
  assumes "sound env owner (lw_files w)" and a: "map_of (lw_authority (lw_files w)) owner = Some a"
    and b: "map_of (au_active_operations a) Claude = Some b" and c: "map_of (au_active_operations a) Codex = Some c"
    and "own_journal env owner b (map_of (lw_journals (lw_files w)) (ao_journal_record_id b))"
    and "own_journal env owner c (map_of (lw_journals (lw_files w)) (ao_journal_record_id c))"
  shows "\<exists>x \<in> {b, c}. \<forall>cs. still_active env owner x (map_of (lw_journals (lw_files w)) (ao_journal_record_id x)) (history env cs w)"
proof -
  from assms(1) a have s: "authority_sound env owner a" by (simp add: sound_def)
  note d = authority_soundD [OF s]
  have "po_lifecycle_epoch (ao_prepared b) < au_lifecycle_epoch a \<or> po_lifecycle_epoch (ao_prepared c) < au_lifecycle_epoch a"
    using d(2) [OF b] d(2) [OF c] d(3) [OF b c] by auto
  then have "\<exists>x \<in> {b, c}. blocked env owner x (map_of (lw_journals (lw_files w)) (ao_journal_record_id x)) (lw_files w)"
    using sound_blocked [OF assms(1) a b assms(5)] sound_blocked [OF assms(1) a c assms(6)] by blast
  then show ?thesis using blocked_never_ends by blast
qed

text \<open>C17: An operation whose login exchange has an unknown outcome, or whose revocation has used up its eight
  attempts, can never be finished: no call moves its journal, so the provider stays blocked and every new
  request for it is refused.\<close>

theorem exhausted_operation_never_ends:
  assumes "sound env owner (lw_files w)" and "map_of (lw_authority (lw_files w)) owner = Some a"
    and "map_of (au_active_operations a) p = Some b"
    and j: "map_of (lw_journals (lw_files w)) (ao_journal_record_id b) = Some v" and own: "own_journal env owner b (Some v)"
    and "dead v"
  shows "still_active env owner b (Some v) (history env cs w)"
proof -
  from sound_blocked [OF assms(1-3)] j own assms(6)
  have "blocked env owner b (Some v) (lw_files w)" by (simp add: no_call_moves_def)
  then show ?thesis by (rule blocked_never_ends)
qed

theorem two_operations_strand_one_witness:
  "\<exists>x \<in> {claude_op, codex_op}. \<forall>cs. still_active two_env demo_owner x
     (map_of (lw_journals (lw_files two_world)) (ao_journal_record_id x)) (history two_env cs two_world)"
  by (rule two_operations_strand_one [OF demo_sound demo_files(1-3)]) (simp_all only: demo_files demo_own)

theorem exhausted_operation_never_ends_witness:
  "still_active two_env demo_owner claude_op (Some claude_journal)
     (history two_env [(PrepareExchange (ao_journal_record_id claude_op) (replicate 32 (CHR ''0'')), 1, [], []),
        (ExchangeLost (ao_journal_record_id claude_op) ''x'', 2, [Works, FailsLate], [])] two_world)"
  by (rule exhausted_operation_never_ends [OF demo_sound demo_files(1,2,4) demo_own(1)])
    (simp add: dead_def claude_journal_def)

end
