(* ===== verification/Account_Receipts.thy ===== *)
theory Account_Receipts
  imports Account_Blocked
begin

text \<open>
  How long the account lifecycle remembers: the compaction of receipts forgets none before its time, and none
  that names the credential in use.
\<close>

section \<open>Compaction\<close>

text \<open>A receipt is kept if it is among those of the index under its id.\<close>

definition remembered :: "string \<Rightarrow> Receipt \<Rightarrow> lifecycle_files \<Rightarrow> bool" where
  "remembered i r f \<longleftrightarrow> (\<exists>ix. map_of (lw_receipts f) i = Some ix \<and> r \<in> set (ri_receipts ix))"

lemma remembered_other_files:
  "remembered i r f \<Longrightarrow> remembered i r (lw_authority_update u f)"
  by (simp add: remembered_def)

lemma remembered_load: "lkeeps (remembered i r) (load_receipt_index env k)
    (\<lambda>x. k = i \<longrightarrow> (\<forall>ix. x = Some ix \<longrightarrow> r \<in> set (ri_receipts ix)))"
  unfolding load_receipt_index_def
  apply (rule lk_bind [where \<phi> = "\<lambda>x. k = i \<longrightarrow> (\<forall>ix. x = Some ix \<longrightarrow> r \<in> set (ri_receipts ix))"])
   apply (rule lk_ask, auto simp: remembered_def) [1]
  apply (intro lk_case_option lk_ret lk_fail, simp, simp)
  done

lemma remembered_put:
  "(k = i \<Longrightarrow> r \<in> set (ri_receipts ix)) \<Longrightarrow> lkeeps (remembered i r) (put_receipt_index env k ix) (\<lambda>_. True)"
  unfolding put_receipt_index_def put_record_def
  by (intro lk_if lk_fail lk_case_option lk_change) (auto simp: remembered_def update_conv)

lemma remembered_put_authority: "lkeeps (remembered i r) (put_authority env o' a) (\<lambda>_. True)"
  unfolding put_authority_def put_record_def by (intro lk_if lk_fail lk_change remembered_other_files)

lemma remembered_load_existing: "lkeeps (remembered i r) load_existing (\<lambda>_. True)"
  unfolding load_existing_def directory_contains_class_def
  by (rule lk_bind [OF lk_ask_any], intro lk_case_option lk_bind [OF lk_ask_any] lk_if lk_fail lk_ret TrueI)

lemma remembered_removed_etags: "lkeeps (remembered i r) (removed_etags env o' p rs) (\<lambda>_. True)"
proof (induction rs)
  case (Cons x xs)
  have t: "lkeeps (remembered i r) (lok (credential_tag env o' p g e)) (\<lambda>_. True)" for g e
    unfolding credential_tag_def by (rule lk_ok [OF lk_derive_tag])
  show ?case
    unfolding removed_etags.simps
    by (intro lk_case_option Cons.IH lk_bind [OF t] lk_bind [OF Cons.IH] lk_ret TrueI)
qed (simp add: lk_ret)

text \<open>C18: Compacting the receipts of a provider, under any failures of the disk, forgets no receipt whose thirty
  days (or longer retention) have not passed, and none that names the generation of the credential in use.\<close>

theorem receipts_are_retained:
  assumes "remembered i r (lw_files w)"
    and "now < rc_retention_not_before_ms r \<or> now < receipt_retention_deadline (rc_completed_at_ms r)
      \<or> (\<exists>g. protected = Some g \<and> names_generation g r)"
  shows "remembered i r (lw_files (snd (compact_terminal_receipts env p protected now w)))"
proof -
  from assms(2) have kept: "\<not> receipt_expired protected now r" by (auto simp: receipt_expired_def)
  have "lkeeps (remembered i r) (compact_terminal_receipts env p protected now) (\<lambda>_. True)"
    unfolding compact_terminal_receipts_def receipt_index_id_def Let_def
    apply (rule lk_bind [OF lk_need], rule lk_bind [OF remembered_load_existing], intro lk_case_option lk_ret TrueI lk_if)
    apply (rule lk_bind [OF lkeeps_any [OF lk_derive_tag]], rule lk_bind [OF remembered_load])
    apply (intro lk_case_option lk_ret TrueI lk_bind [OF remembered_removed_etags] lk_if)
    apply (rule lk_bind, rule remembered_put, simp add: kept)
    apply (rule lk_bind [OF remembered_put_authority], rule lk_ret, rule TrueI)
    done
  from lkeepsD [OF this assms(1)] show ?thesis .
qed

definition demo_receipt :: Receipt where
  "demo_receipt = disconnect_receipt codex_journal 5"

definition demo_index_world :: lifecycle_world where
  "demo_index_world = two_world\<lparr>lw_files := (lw_files two_world)\<lparr>lw_receipts :=
     [(replicate 43 (CHR ''T''), \<lparr>ri_version = 1, ri_provider = Codex, ri_lifecycle_epoch = 2, ri_receipts = [demo_receipt]\<rparr>)]\<rparr>\<rparr>"

theorem receipts_are_retained_witness:
  "remembered (replicate 43 (CHR ''T'')) demo_receipt
     (lw_files (snd (compact_terminal_receipts two_env Codex None 100 demo_index_world)))"
  by (rule receipts_are_retained)
    (simp_all add: remembered_def demo_index_world_def demo_receipt_def disconnect_receipt_def
      receipt_retention_deadline_def sat_add64_def U64_MAX_def TERMINAL_RECEIPT_RETENTION_MS_def)

end
