(* ===== verification/Account_Leases.thy ===== *)
theory Account_Leases
  imports Account_Types
begin

text \<open>
  The leases under which the host works on a provider (\<^verbatim>\<open>ProviderLeaseRegistry\<close> and \<^verbatim>\<open>ProviderOperationLease\<close> of
  \<^verbatim>\<open>crates/app-host/src/account_lifecycle.rs\<close>, over the advisory file locks of \<^verbatim>\<open>crates/agent/src/runtime_lock.rs\<close>).
  A lease holds the lock file of its provider, shared or exclusive, as long as it lives; locks are seen by
  every process, the counts of a registry only by its own. What the operating system answers to the request
  for the lock is an argument of the acquisition; that it grants no lock against a conflicting one, the
  documented behaviour of advisory locks, is a premise of the step relation.
\<close>

section \<open>Acquiring and dropping\<close>

datatype ProviderOperationKind = Turn | Refresh | Lifecycle | OAuthActivation | Maintenance

record ProviderLeaseCounts =
  plc_shared :: nat
  plc_exclusive :: nat

record ProviderOperationLease =
  pl_process :: nat
  pl_provider :: ProductProviderId
  pl_operation_id :: string
  pl_kind :: ProviderOperationKind
  pl_exclusive :: bool

record lease_world =
  held :: "ProviderOperationLease list"
  registries :: "nat \<Rightarrow> (ProductProviderId, ProviderLeaseCounts) btree"

definition USIZE_MAX :: nat where "USIZE_MAX = 2 ^ 64 - 1"

definition no_counts :: ProviderLeaseCounts where
  "no_counts = \<lparr>plc_shared = 0, plc_exclusive = 0\<rparr>"

definition counts :: "lease_world \<Rightarrow> nat \<Rightarrow> ProductProviderId \<Rightarrow> ProviderLeaseCounts" where
  "counts w proc p = (case map_of (registries w proc) p of None \<Rightarrow> no_counts | Some c \<Rightarrow> c)"

text \<open>\<^verbatim>\<open>try_lock_file\<close>: \<open>Inl\<close> is an error, \<open>Inr False\<close> means that someone else holds the lock.\<close>

datatype lock_answer = LockGranted | LockWouldBlock | LockFailed

definition try_lock_file :: "lock_answer \<Rightarrow> unit + bool" where
  "try_lock_file answer =
     (case answer of LockGranted \<Rightarrow> Inr True | LockWouldBlock \<Rightarrow> Inr False | LockFailed \<Rightarrow> Inl ())"

text \<open>The lock file is opened and checked first: a regular file of the user's own.\<close>

definition try_acquire_file :: "bool \<Rightarrow> lock_answer \<Rightarrow> unit + bool" where
  "try_acquire_file opened answer = (if opened then try_lock_file answer else Inl ())"

definition one_more :: "bool \<Rightarrow> ProviderLeaseCounts \<Rightarrow> ProviderLeaseCounts option" where
  "one_more exclusive c =
     (if exclusive then map_option (\<lambda>n. c\<lparr>plc_exclusive := n\<rparr>) (checked_succ USIZE_MAX (plc_exclusive c))
      else map_option (\<lambda>n. c\<lparr>plc_shared := n\<rparr>) (checked_succ USIZE_MAX (plc_shared c)))"

definition acquire ::
    "bool \<Rightarrow> nat \<Rightarrow> bool \<Rightarrow> lock_answer \<Rightarrow> ProductProviderId \<Rightarrow> string \<Rightarrow> ProviderOperationKind \<Rightarrow> lease_world
     \<Rightarrow> (LifecycleRecordError + ProviderOperationLease) \<times> lease_world" where
  "acquire exclusive proc opened answer p operation_id kind w =
     (if \<not> validate_operation_id operation_id then (Inl Invalid, w)
      else case try_acquire_file opened answer of
        Inl _ \<Rightarrow> (Inl StoreFailed, w)
      | Inr False \<Rightarrow> (Inl Busy, w)
      | Inr True \<Rightarrow>
          (case one_more exclusive (counts w proc p) of
             None \<Rightarrow> (Inl CountLimit, w)
           | Some c \<Rightarrow>
               (let l = \<lparr>pl_process = proc, pl_provider = p, pl_operation_id = operation_id, pl_kind = kind,
                         pl_exclusive = exclusive\<rparr>
                in (Inr l, w\<lparr>held := l # held w,
                             registries := (registries w)(proc := bt_insert p c (registries w proc))\<rparr>))))"

definition acquire_shared where "acquire_shared = acquire False"
definition acquire_exclusive where "acquire_exclusive = acquire True"

text \<open>\<^verbatim>\<open>Drop\<close>: the counts go down, an entry without leases goes away, and the file is closed.\<close>

definition one_less :: "bool \<Rightarrow> ProviderLeaseCounts \<Rightarrow> ProviderLeaseCounts" where
  "one_less exclusive c =
     (if exclusive then c\<lparr>plc_exclusive := plc_exclusive c - 1\<rparr> else c\<lparr>plc_shared := plc_shared c - 1\<rparr>)"

definition drop_lease :: "ProviderOperationLease \<Rightarrow> lease_world \<Rightarrow> lease_world" where
  "drop_lease l w =
     (let proc = pl_process l; p = pl_provider l; registry = registries w proc in
      w\<lparr>held := remove1 l (held w),
        registries := (case map_of registry p of
            None \<Rightarrow> registries w
          | Some c \<Rightarrow>
              (let c' = one_less (pl_exclusive l) c
               in (registries w)(proc := (if c' = no_counts then bt_remove p registry else bt_insert p c' registry))))\<rparr>)"

section \<open>Exclusion\<close>

definition compatible :: "bool \<Rightarrow> ProductProviderId \<Rightarrow> lease_world \<Rightarrow> bool" where
  "compatible exclusive p w \<longleftrightarrow> (\<forall>l \<in> set (held w). pl_provider l = p \<longrightarrow> \<not> exclusive \<and> \<not> pl_exclusive l)"

inductive lease_step :: "lease_world \<Rightarrow> lease_world \<Rightarrow> bool" where
  acquired: "(answer = LockGranted \<Longrightarrow> compatible exclusive p w) \<Longrightarrow>
    acquire exclusive proc opened answer p operation_id kind w = (r, w') \<Longrightarrow> lease_step w w'"
| dropped: "l \<in> set (held w) \<Longrightarrow> lease_step w (drop_lease l w)"

inductive lease_reachable :: "lease_world \<Rightarrow> bool" where
  initial: "lease_reachable \<lparr>held = [], registries = (\<lambda>_. [])\<rparr>"
| step: "lease_reachable w \<Longrightarrow> lease_step w w' \<Longrightarrow> lease_reachable w'"

definition number :: "nat \<Rightarrow> ProductProviderId \<Rightarrow> bool \<Rightarrow> ProviderOperationLease list \<Rightarrow> nat" where
  "number proc p exclusive ls =
     length (filter (\<lambda>l. pl_process l = proc \<and> pl_provider l = p \<and> pl_exclusive l = exclusive) ls)"

definition alone :: "ProviderOperationLease list \<Rightarrow> bool" where
  "alone ls \<longleftrightarrow> (\<forall>p. (\<exists>l \<in> set ls. pl_provider l = p \<and> pl_exclusive l) \<longrightarrow> length (filter (\<lambda>l. pl_provider l = p) ls) = 1)"

definition counted :: "lease_world \<Rightarrow> bool" where
  "counted w \<longleftrightarrow> (\<forall>proc. bt_ok (registries w proc))
     \<and> (\<forall>proc p. plc_shared (counts w proc p) = number proc p False (held w)
          \<and> plc_exclusive (counts w proc p) = number proc p True (held w))"

lemma number_Cons: "number proc p x (l # ls) =
    (if pl_process l = proc \<and> pl_provider l = p \<and> pl_exclusive l = x then Suc (number proc p x ls) else number proc p x ls)"
  by (simp add: number_def)

lemma length_filter_remove1: "length (filter P (remove1 l ls)) = length (filter P ls) - (if P l \<and> l \<in> set ls then 1 else 0)"
  by (simp add: filter_remove1 length_remove1)

lemma number_remove1: "l \<in> set ls \<Longrightarrow> number proc p x (remove1 l ls) =
    (if pl_process l = proc \<and> pl_provider l = p \<and> pl_exclusive l = x then number proc p x ls - 1 else number proc p x ls)"
  by (simp add: number_def length_filter_remove1)

lemma alone_remove1: "alone ls \<Longrightarrow> alone (remove1 l ls)"
proof -
  assume a: "alone ls"
  have "length (filter (\<lambda>k. pl_provider k = p) (remove1 l ls)) = 1"
    if "k \<in> set (remove1 l ls)" "pl_provider k = p" "pl_exclusive k" for p k
  proof -
    have k: "k \<in> set ls" using that(1) set_remove1_subset by fast
    with a that have one: "length (filter (\<lambda>k. pl_provider k = p) ls) = 1" by (auto simp: alone_def)
    have "k \<in> set (filter (\<lambda>k. pl_provider k = p) (remove1 l ls))" using that by simp
    then have "0 < length (filter (\<lambda>k. pl_provider k = p) (remove1 l ls))" by (metis length_pos_if_in_set)
    with one show ?thesis by (simp add: length_filter_remove1 split: if_splits)
  qed
  then show ?thesis unfolding alone_def by blast
qed

lemma alone_Cons:
  assumes a: "alone (held w)" and t: "compatible (pl_exclusive l) (pl_provider l) w"
  shows "alone (l # held w)"
proof -
  have none: "filter (\<lambda>k. pl_provider k = pl_provider l) (held w) = []" if "pl_exclusive l"
    using t that by (auto simp: compatible_def filter_empty_conv)
  have other: "pl_provider k \<noteq> pl_provider l" if "k \<in> set (held w)" "pl_exclusive k" for k
    using t that by (auto simp: compatible_def)
  have "length (filter (\<lambda>k. pl_provider k = p) (l # held w)) = 1"
    if k: "k \<in> set (l # held w)" "pl_provider k = p" "pl_exclusive k" for p k
  proof (cases "k = l")
    case True
    with k none show ?thesis by simp
  next
    case False
    with k have h: "k \<in> set (held w)" by simp
    then have "length (filter (\<lambda>k. pl_provider k = p) (held w)) = 1" using a k by (auto simp: alone_def)
    with other [OF h k(3)] k(2) show ?thesis by simp
  qed
  then show ?thesis unfolding alone_def by blast
qed

lemma counts_update:
  assumes "bt_ok (registries w proc)"
  shows "counts (w\<lparr>held := ls, registries := (registries w)(proc := bt_insert p c (registries w proc))\<rparr>) proc' p'
    = (if proc' = proc \<and> p' = p then c else counts w proc' p')"
  using assms by (simp add: counts_def map_of_bt_insert)

lemma counts_remove:
  "counts (w\<lparr>held := ls, registries := (registries w)(proc := bt_remove p (registries w proc))\<rparr>) proc' p'
    = (if proc' = proc \<and> p' = p then no_counts else counts w proc' p')"
  by (simp add: counts_def map_of_bt_remove)

lemma counted_acquired:
  assumes "counted w" "one_more x (counts w proc p) = Some c"
  shows "counted (w\<lparr>held := \<lparr>pl_process = proc, pl_provider = p, pl_operation_id = i, pl_kind = k, pl_exclusive = x\<rparr> # held w,
    registries := (registries w)(proc := bt_insert p c (registries w proc))\<rparr>)"
proof -
  have ok: "bt_ok (registries w proc)" using assms(1) by (simp add: counted_def)
  show ?thesis using assms
    by (auto simp: counted_def counts_update [OF ok] number_Cons one_more_def checked_succ_def bt_ok_insert split: if_splits)
qed

lemma counted_counts:
  assumes "counted w"
  shows "number proc p False (held w) = plc_shared (counts w proc p)"
    and "number proc p True (held w) = plc_exclusive (counts w proc p)"
  using assms by (simp_all add: counted_def)

lemma counted_dropped:
  assumes w: "counted w" and l: "l \<in> set (held w)"
  shows "counted (drop_lease l w)"
proof -
  define proc p x where d: "proc = pl_process l" "p = pl_provider l" "x = pl_exclusive l"
  have "0 < number proc p x (held w)"
    using l by (auto simp: number_def d filter_empty_conv)
  then have "counts w proc p \<noteq> no_counts"
    using counted_counts [OF w, of proc p] by (cases x) (auto simp: no_counts_def)
  then obtain c where c: "map_of (registries w proc) p = Some c" "counts w proc p = c"
    by (auto simp: counts_def split: option.splits)
  have ok: "bt_ok (registries w q)" for q using w by (simp add: counted_def)
  have c': "counts (drop_lease l w) q r = (if q = proc \<and> r = p then one_less x c else counts w q r)" for q r
    using c(1) by (simp add: drop_lease_def Let_def d [symmetric] counts_remove counts_update [OF ok])
  have ok': "bt_ok (registries (drop_lease l w) q)" for q
    using c(1) ok by (simp add: drop_lease_def Let_def d [symmetric])
  have h: "held (drop_lease l w) = remove1 l (held w)"
    by (simp add: drop_lease_def Let_def)
  show ?thesis
    unfolding counted_def h c'
    using ok' l d c(2) [symmetric] by (auto simp: number_remove1 counted_counts [OF w] one_less_def)
qed

lemma leases_hold: "lease_reachable w \<Longrightarrow> alone (held w) \<and> counted w"
proof (induction rule: lease_reachable.induct)
  case initial
  show ?case by (simp add: alone_def counted_def counts_def no_counts_def number_def)
next
  case (step w w')
  from step.hyps(2) show ?case
  proof cases
    case (acquired answer exclusive p proc opened operation_id kind r)
    with step.IH show ?thesis
      by (auto simp: acquire_def try_acquire_file_def try_lock_file_def Let_def alone_Cons counted_acquired
          split: if_splits option.splits lock_answer.splits)
  next
    case (dropped l)
    with step.IH show ?thesis
      by (simp add: counted_dropped alone_remove1) (simp add: drop_lease_def Let_def alone_remove1)
  qed
qed

section \<open>The property\<close>


definition one_turn :: ProviderOperationLease where
  "one_turn = \<lparr>pl_process = 7, pl_provider = Codex, pl_operation_id = replicate 32 (CHR ''y''), pl_kind = Lifecycle,
     pl_exclusive = True\<rparr>"

definition one_lease :: lease_world where
  "one_lease = snd (acquire_exclusive 7 True LockGranted Codex (replicate 32 (CHR ''y'')) Lifecycle \<lparr>held = [], registries = (\<lambda>_. [])\<rparr>)"

lemma one_lease_reachable: "lease_reachable one_lease"
  unfolding one_lease_def acquire_exclusive_def
  by (rule lease_reachable.step [OF lease_reachable.initial lease_step.acquired [OF _ surjective_pairing]]) (simp add: compatible_def)

lemma one_lease_held: "held one_lease = [one_turn]"
  by (simp add: one_lease_def acquire_exclusive_def acquire_def validate_operation_id_def validate_b64url_def OPERATION_ID_LEN_def
      ascii_lower_def try_acquire_file_def try_lock_file_def counts_def no_counts_def
      one_more_def checked_succ_def USIZE_MAX_def Let_def one_turn_def)


end
