(* ===== verification/Restore_Ledger.thy ===== *)
theory Restore_Ledger
  imports Prelude
begin

text \<open>
  The cloud-restore operation ledger of \<^verbatim>\<open>crates/store/src/lib.rs\<close>: the tables
  \<^verbatim>\<open>restore_operations\<close> and \<^verbatim>\<open>restore_steps\<close>, the state machine \<^verbatim>\<open>RestoreState\<close> and the
  \<^verbatim>\<open>Store\<close> methods that read and write them. A \<^verbatim>\<open>Store\<close> method is a function on the two tables;
  a transaction that returns an error leaves them as they were. Unix times and counters
  (\<^verbatim>\<open>i64\<close>) are \<open>int\<close>. The invariant \<open>ledger_ok\<close> ties the operation rows to the audit trail.
\<close>

section \<open>Errors of the store\<close>

text \<open>The SQLite errors the ledger can meet: no row for \<^verbatim>\<open>query_row\<close>, a violated key, a column that
  does not decode.\<close>

datatype sqlite_error = QueryReturnedNoRows | ConstraintViolation | InvalidColumnType nat string

datatype StoreError =
    Sqlite sqlite_error
  | Io string
  | AlreadyRunning string
  | InvalidStoreSecret string
  | MissingStoreKey
  | AlreadyEncrypted string
  | IllegalTransition string
  | IllegalMobileJobTransition string
  | InvalidMobileJob string
  | InvalidProgressiveSearch string

section \<open>States\<close>

datatype RestoreState =
  Pending | PreflightChecked | Committing | Committed | FailedAfterGraphCommit | Cancelled

fun restore_as_str :: "RestoreState \<Rightarrow> string" where
  "restore_as_str Pending = ''pending''"
| "restore_as_str PreflightChecked = ''preflight_checked''"
| "restore_as_str Committing = ''committing''"
| "restore_as_str Committed = ''committed''"
| "restore_as_str FailedAfterGraphCommit = ''failed_after_graph_commit''"
| "restore_as_str Cancelled = ''cancelled''"

definition restore_parse :: "string \<Rightarrow> RestoreState option" where
  "restore_parse s =
     (if s = ''pending'' then Some Pending
      else if s = ''preflight_checked'' then Some PreflightChecked
      else if s = ''committing'' then Some Committing
      else if s = ''committed'' then Some Committed
      else if s = ''failed_after_graph_commit'' then Some FailedAfterGraphCommit
      else if s = ''cancelled'' then Some Cancelled
      else None)"

definition restore_is_terminal :: "RestoreState \<Rightarrow> bool" where
  "restore_is_terminal s \<longleftrightarrow> s = Committed \<or> s = Cancelled"

fun restore_can_transition_to :: "RestoreState \<Rightarrow> RestoreState \<Rightarrow> bool" where
  "restore_can_transition_to Pending PreflightChecked = True"
| "restore_can_transition_to Pending Cancelled = True"
| "restore_can_transition_to PreflightChecked Committing = True"
| "restore_can_transition_to PreflightChecked Cancelled = True"
| "restore_can_transition_to Committing Committed = True"
| "restore_can_transition_to Committing FailedAfterGraphCommit = True"
| "restore_can_transition_to FailedAfterGraphCommit Committed = True"
| "restore_can_transition_to FailedAfterGraphCommit Committing = True"
| "restore_can_transition_to _ _ = False"

section \<open>Rows\<close>

text \<open>One row of \<^verbatim>\<open>restore_operations\<close>. The database holds the state as text; \<^verbatim>\<open>map_restore_op\<close>
  decodes it. Both forms share the record, over the type of the state column.\<close>

record 'st restore_op =
  ro_op_id :: string
  ro_account_id :: string
  ro_service :: string
  ro_source_item_id :: string
  ro_idempotency_key :: string
  ro_state :: 'st
  ro_new_cloud_id :: "string option"
  ro_marker :: "string option"
  ro_attempts :: int
  ro_lease_owner :: "string option"
  ro_lease_expires_at :: "int option"
  ro_created_at :: int
  ro_updated_at :: int
  ro_last_error :: "string option"

type_synonym restore_row = "string restore_op"
type_synonym RestoreOperation = "RestoreState restore_op"

record restore_step =
  rs_op_id :: string
  rs_seq :: nat
  rs_from_state :: "string option"
  rs_to_state :: string
  rs_at :: int
  rs_detail :: "string option"

record restore_db =
  restore_operations :: "restore_row list"
  restore_steps :: "restore_step list"

definition map_restore_op :: "restore_row \<Rightarrow> StoreError + RestoreOperation" where
  "map_restore_op r =
     (case restore_parse (ro_state r) of
        None \<Rightarrow> Inl (Sqlite (InvalidColumnType 5 ''state''))
      | Some st \<Rightarrow> Inr \<lparr>ro_op_id = ro_op_id r, ro_account_id = ro_account_id r,
          ro_service = ro_service r, ro_source_item_id = ro_source_item_id r,
          ro_idempotency_key = ro_idempotency_key r, ro_state = st,
          ro_new_cloud_id = ro_new_cloud_id r, ro_marker = ro_marker r,
          ro_attempts = ro_attempts r, ro_lease_owner = ro_lease_owner r,
          ro_lease_expires_at = ro_lease_expires_at r, ro_created_at = ro_created_at r,
          ro_updated_at = ro_updated_at r, ro_last_error = ro_last_error r\<rparr>)"

abbreviation op_row :: "string \<Rightarrow> restore_db \<Rightarrow> restore_row option" where
  "op_row op_id db \<equiv> row_by ro_op_id op_id (restore_operations db)"

section \<open>Operations\<close>

definition create_restore_operation ::
  "string \<Rightarrow> string \<Rightarrow> string \<Rightarrow> string \<Rightarrow> string \<Rightarrow> int \<Rightarrow> restore_db \<Rightarrow> (StoreError + unit) \<times> restore_db" where
  "create_restore_operation op_id account service source_item_id idempotency_key now db =
     (if op_row op_id db \<noteq> None
         \<or> row_by (\<lambda>r. (ro_account_id r, ro_idempotency_key r)) (account, idempotency_key)
              (restore_operations db) \<noteq> None
         \<or> row_by (\<lambda>s. (rs_op_id s, rs_seq s)) (op_id, 1) (restore_steps db) \<noteq> None
      then (Inl (Sqlite ConstraintViolation), db)
      else (Inr (), db\<lparr>
        restore_operations := restore_operations db @
          [\<lparr>ro_op_id = op_id, ro_account_id = account, ro_service = service,
            ro_source_item_id = source_item_id, ro_idempotency_key = idempotency_key,
            ro_state = ''pending'', ro_new_cloud_id = None, ro_marker = None, ro_attempts = 0,
            ro_lease_owner = None, ro_lease_expires_at = None,
            ro_created_at = now, ro_updated_at = now, ro_last_error = None\<rparr>],
        restore_steps := restore_steps db @
          [\<lparr>rs_op_id = op_id, rs_seq = 1, rs_from_state = None, rs_to_state = ''pending'',
            rs_at = now, rs_detail = Some ''created''\<rparr>]\<rparr>))"

definition get_restore_operation :: "string \<Rightarrow> restore_db \<Rightarrow> StoreError + RestoreOperation option" where
  "get_restore_operation op_id db =
     (case op_row op_id db of
        None \<Rightarrow> Inr None
      | Some r \<Rightarrow> (case map_restore_op r of Inl e \<Rightarrow> Inl e | Inr op \<Rightarrow> Inr (Some op)))"

text \<open>\<^verbatim>\<open>SELECT COALESCE(MAX(seq),0)+1 FROM restore_steps WHERE op_id=?1\<close>.\<close>

definition next_seq :: "string \<Rightarrow> restore_step list \<Rightarrow> nat" where
  "next_seq op_id steps = foldr (\<lambda>s m. max (rs_seq s) m) (filter (\<lambda>s. rs_op_id s = op_id) steps) 0 + 1"

definition transition_restore ::
  "string \<Rightarrow> RestoreState \<Rightarrow> int \<Rightarrow> string option \<Rightarrow> string option \<Rightarrow> string option \<Rightarrow> restore_db
     \<Rightarrow> (StoreError + unit) \<times> restore_db" where
  "transition_restore op_id to now detail new_cloud_id marker db =
     (case op_row op_id db of
        None \<Rightarrow> (Inl (Sqlite QueryReturnedNoRows), db)
      | Some cur \<Rightarrow>
          (case restore_parse (ro_state cur) of
             None \<Rightarrow> (Inl (IllegalTransition
                        (''unknown stored state '' @ [CHR 0x27] @ ro_state cur @ [CHR 0x27]
                         @ '' for '' @ op_id)), db)
           | Some from \<Rightarrow>
               if \<not> restore_can_transition_to from to
               then (Inl (IllegalTransition
                      (restore_as_str from @ '' -> '' @ restore_as_str to @ '' ('' @ op_id @ '')'')), db)
               else
                 let bump = (if to = Committing then 1 else 0);
                     ops = sql_update (\<lambda>r. ro_op_id r = op_id)
                             (\<lambda>r. r\<lparr>ro_state := restore_as_str to, ro_updated_at := now,
                                    ro_attempts := ro_attempts r + bump,
                                    ro_new_cloud_id := coalesce new_cloud_id (ro_new_cloud_id r),
                                    ro_marker := coalesce marker (ro_marker r)\<rparr>)
                             (restore_operations db);
                     seq = next_seq op_id (restore_steps db)
                 in (Inr (), db\<lparr>restore_operations := ops,
                       restore_steps := restore_steps db @
                         [\<lparr>rs_op_id = op_id, rs_seq = seq, rs_from_state = Some (restore_as_str from),
                           rs_to_state = restore_as_str to, rs_at = now, rs_detail = detail\<rparr>]\<rparr>)))"

definition set_restore_error :: "string \<Rightarrow> string \<Rightarrow> int \<Rightarrow> restore_db \<Rightarrow> restore_db" where
  "set_restore_error op_id error now db = db\<lparr>restore_operations :=
     sql_update (\<lambda>r. ro_op_id r = op_id) (\<lambda>r. r\<lparr>ro_last_error := Some error, ro_updated_at := now\<rparr>)
       (restore_operations db)\<rparr>"

text \<open>\<^verbatim>\<open>lease_owner IS NULL OR lease_expires_at IS NULL OR lease_expires_at <= now\<close>.\<close>

definition lease_free :: "string option \<Rightarrow> int option \<Rightarrow> int \<Rightarrow> bool" where
  "lease_free owner expires now =
     (owner = None \<or> (case expires of None \<Rightarrow> True | Some t \<Rightarrow> t \<le> now))"

definition acquire_restore_lease ::
  "string \<Rightarrow> string \<Rightarrow> int \<Rightarrow> int \<Rightarrow> restore_db \<Rightarrow> bool \<times> restore_db" where
  "acquire_restore_lease op_id owner now ttl_secs db =
     (let p = (\<lambda>r. ro_op_id r = op_id \<and> lease_free (ro_lease_owner r) (ro_lease_expires_at r) now)
      in (sql_count p (restore_operations db) = 1,
          db\<lparr>restore_operations := sql_update p
               (\<lambda>r. r\<lparr>ro_lease_owner := Some owner, ro_lease_expires_at := Some (now + ttl_secs)\<rparr>)
               (restore_operations db)\<rparr>))"

definition release_restore_lease :: "string \<Rightarrow> restore_db \<Rightarrow> restore_db" where
  "release_restore_lease op_id db = db\<lparr>restore_operations :=
     sql_update (\<lambda>r. ro_op_id r = op_id)
       (\<lambda>r. r\<lparr>ro_lease_owner := None, ro_lease_expires_at := None\<rparr>) (restore_operations db)\<rparr>"

text \<open>\<^verbatim>\<open>collect::<Result<Vec<_>>>\<close>: the first row that does not decode is the error.\<close>

fun collect_ops :: "restore_row list \<Rightarrow> StoreError + RestoreOperation list" where
  "collect_ops [] = Inr []"
| "collect_ops (r # rs) =
     (case map_restore_op r of
        Inl e \<Rightarrow> Inl e
      | Inr op \<Rightarrow> (case collect_ops rs of Inl e \<Rightarrow> Inl e | Inr ops \<Rightarrow> Inr (op # ops)))"

definition recoverable_restore_operations :: "string \<Rightarrow> restore_db \<Rightarrow> StoreError + RestoreOperation list" where
  "recoverable_restore_operations account db =
     collect_ops (sort_key (\<lambda>r. (ro_created_at r, ro_op_id r))
       (filter (\<lambda>r. ro_account_id r = account \<and> ro_state r \<notin> {''committed'', ''cancelled''})
          (restore_operations db)))"

definition restore_history :: "string \<Rightarrow> restore_db \<Rightarrow> (string option \<times> string) list" where
  "restore_history op_id db =
     map (\<lambda>s. (rs_from_state s, rs_to_state s))
       (sort_key rs_seq (filter (\<lambda>s. rs_op_id s = op_id) (restore_steps db)))"

definition empty_ledger :: restore_db where
  "empty_ledger = \<lparr>restore_operations = [], restore_steps = []\<rparr>"

section \<open>The invariant of the ledger\<close>

abbreviation steps_of :: "string \<Rightarrow> restore_db \<Rightarrow> restore_step list" where
  "steps_of op_id db \<equiv> filter (\<lambda>s. rs_op_id s = op_id) (restore_steps db)"

text \<open>The audit trail of an operation: numbered from one, starting at \<^verbatim>\<open>pending\<close>, each step from where
  the previous one arrived, every step legal, and the last step the state of the row; the attempts
  counter is the number of entries into \<^verbatim>\<open>committing\<close>.\<close>

definition trail_ok :: "restore_row \<Rightarrow> restore_step list \<Rightarrow> bool" where
  "trail_ok r steps \<longleftrightarrow>
     (\<exists>path. path \<noteq> [] \<and> hd path = Pending \<and> legal_path restore_can_transition_to path
        \<and> ro_state r = restore_as_str (last path)
        \<and> map rs_seq steps = [1..<Suc (length path)]
        \<and> map rs_to_state steps = map restore_as_str path
        \<and> map rs_from_state steps = None # map (Some \<circ> restore_as_str) (butlast path)
        \<and> ro_attempts r = int (count_list path Committing))"

definition ledger_ok :: "restore_db \<Rightarrow> bool" where
  "ledger_ok db \<longleftrightarrow>
     unique_rows ro_op_id (restore_operations db)
     \<and> unique_rows (\<lambda>r. (ro_account_id r, ro_idempotency_key r)) (restore_operations db)
     \<and> (\<forall>r \<in> set (restore_operations db). trail_ok r (steps_of (ro_op_id r) db))
     \<and> (\<forall>s \<in> set (restore_steps db). rs_op_id s \<in> ro_op_id ` set (restore_operations db))"


section \<open>Sequences of calls\<close>

text \<open>Calls that write the ledger, in any order and from any number of clients: SQLite serialises the
  transactions, so an interleaving is a sequence of calls.\<close>

datatype ledger_call =
    CallCreate string string string string string int
  | CallTransition string RestoreState int "string option" "string option" "string option"
  | CallError string string int
  | CallAcquire string string int int
  | CallRelease string

fun ledger_exec :: "ledger_call \<Rightarrow> restore_db \<Rightarrow> restore_db" where
  "ledger_exec (CallCreate op_id account service src key now) db =
     snd (create_restore_operation op_id account service src key now db)"
| "ledger_exec (CallTransition op_id to now detail cid m) db =
     snd (transition_restore op_id to now detail cid m db)"
| "ledger_exec (CallError op_id err now) db = set_restore_error op_id err now db"
| "ledger_exec (CallAcquire op_id owner now ttl) db = snd (acquire_restore_lease op_id owner now ttl db)"
| "ledger_exec (CallRelease op_id) db = release_restore_lease op_id db"

abbreviation ledger_run :: "ledger_call list \<Rightarrow> restore_db \<Rightarrow> restore_db" where
  "ledger_run calls db \<equiv> fold ledger_exec calls db"

text \<open>A ledger with one restore driven to \<^verbatim>\<open>committed\<close>, and the calls that build it.\<close>

definition demo_calls :: "ledger_call list" where
  "demo_calls = [CallCreate ''op'' ''a'' ''mail'' ''s'' ''k'' 1,
     CallTransition ''op'' PreflightChecked 2 None None (Some ''m''),
     CallTransition ''op'' Committing 3 None None None,
     CallTransition ''op'' Committed 4 None (Some ''c'') None]"

section \<open>Contracts\<close>

interpretation restore_wire: wire_enum restore_as_str restore_parse
proof unfold_locales
  show "restore_parse (restore_as_str s) = Some s" for s
    by (cases s) (simp_all add: restore_parse_def)
  show "restore_parse t = Some s \<Longrightarrow> t = restore_as_str s" for t s
    by (auto simp: restore_parse_def split: if_splits)
qed

lemmas restore_parse_as_str [simp, wire_simps] = restore_wire.parse_as_str
lemmas restore_as_str_eq [simp, wire_simps] = restore_wire.as_str_inject

interpretation restore_machine: transition_system restore_can_transition_to restore_is_terminal
proof unfold_locales
  show "restore_is_terminal s \<Longrightarrow> \<not> restore_can_transition_to s t" for s t
    by (cases t) (auto simp: restore_is_terminal_def)
qed

interpretation ops_by_id: keyed_rows ro_op_id .

interpretation ops_by_content: keyed_rows "\<lambda>r. (ro_account_id r, ro_idempotency_key r)" .

section \<open>Lemmas on the audit trail\<close>

lemma next_seq_of_trail:
  assumes "map rs_seq (filter (\<lambda>s. rs_op_id s = op_id) steps) = [1..<Suc n]"
  shows "next_seq op_id steps = Suc n"
proof -
  have "foldr (\<lambda>s m. max (rs_seq s) m) xs 0 = foldr max (map rs_seq xs) 0" for xs :: "restore_step list"
    by (induction xs) auto
  with assms show ?thesis by (simp add: next_seq_def foldr_max_upt del: upt_Suc)
qed

lemma trail_ok_cong:
  "ro_state r = ro_state r' \<Longrightarrow> ro_attempts r = ro_attempts r' \<Longrightarrow> trail_ok r s = trail_ok r' s"
  by (simp add: trail_ok_def)

lemma trail_ok_state:
  assumes "trail_ok r s"
  obtains st where "ro_state r = restore_as_str st"
  using assms by (auto simp: trail_ok_def)

lemma trail_ok_created:
  "ro_state r = restore_as_str Pending \<Longrightarrow> ro_attempts r = 0 \<Longrightarrow> rs_seq s = 1
   \<Longrightarrow> rs_from_state s = None \<Longrightarrow> rs_to_state s = restore_as_str Pending \<Longrightarrow> trail_ok r [s]"
  unfolding trail_ok_def by (intro exI [of _ "[Pending]"]) simp

lemma trail_ok_extend:
  assumes trail: "trail_ok r s" and cur: "ro_state r = restore_as_str st"
    and legal: "restore_can_transition_to st to"
    and r': "ro_state r' = restore_as_str to"
      "ro_attempts r' = ro_attempts r + (if to = Committing then 1 else 0)"
    and t: "rs_seq t = Suc (length s)" "rs_from_state t = Some (restore_as_str st)"
      "rs_to_state t = restore_as_str to"
  shows "trail_ok r' (s @ [t])"
proof -
  from trail obtain path where path: "path \<noteq> []" "hd path = Pending"
      "legal_path restore_can_transition_to path" "ro_state r = restore_as_str (last path)"
      "map rs_seq s = [1..<Suc (length path)]" "map rs_to_state s = map restore_as_str path"
      "map rs_from_state s = None # map (Some \<circ> restore_as_str) (butlast path)"
      "ro_attempts r = int (count_list path Committing)"
    by (auto simp: trail_ok_def)
  from path(6) have len: "length s = length path" by (rule map_eq_imp_length_eq)
  from path(4) cur have st: "last path = st" by simp
  have "map (Some \<circ> restore_as_str) path
      = map (Some \<circ> restore_as_str) (butlast path) @ [Some (restore_as_str st)]"
    using path(1) st append_butlast_last_id [of path]
    by (metis (no_types, lifting) comp_apply list.map(1) list.map(2) map_append)
  then have "map rs_from_state (s @ [t]) = None # map (Some \<circ> restore_as_str) (butlast (path @ [to]))"
    using path(7) t(2) by simp
  moreover have "legal_path restore_can_transition_to (path @ [to])"
    using path(1,3) st legal by (simp add: legal_path_snoc)
  ultimately show ?thesis
    unfolding trail_ok_def using path r' t len by (intro exI [of _ "path @ [to]"]) auto
qed

section \<open>The operations keep the invariant\<close>

lemma ledger_okD:
  assumes "ledger_ok db"
  shows "unique_rows ro_op_id (restore_operations db)"
    and "unique_rows (\<lambda>r. (ro_account_id r, ro_idempotency_key r)) (restore_operations db)"
    and "r \<in> set (restore_operations db) \<Longrightarrow> trail_ok r (steps_of (ro_op_id r) db)"
    and "s \<in> set (restore_steps db) \<Longrightarrow> rs_op_id s \<in> ro_op_id ` set (restore_operations db)"
  using assms by (auto simp: ledger_ok_def)

lemma ledger_ok_row_state:
  assumes "ledger_ok db" and "op_row op_id db = Some r"
  obtains st where "ro_state r = restore_as_str st" "trail_ok r (steps_of op_id db)"
proof -
  have r: "r \<in> set (restore_operations db)" "ro_op_id r = op_id"
    using row_by_SomeD [OF assms(2)] by simp_all
  then have trail: "trail_ok r (steps_of op_id db)"
    using ledger_okD(3) [OF assms(1)] by blast
  from trail_ok_state [OF this] trail show ?thesis using that by metis
qed

lemma empty_ledger_ok: "ledger_ok empty_ledger"
  by (simp add: ledger_ok_def empty_ledger_def unique_rows_def)

lemma create_keeps_ledger_ok:
  assumes "ledger_ok db"
  shows "ledger_ok (snd (create_restore_operation op_id account service src key now db))"
proof (cases "fst (create_restore_operation op_id account service src key now db)")
  case (Inl e)
  then show ?thesis using assms by (auto simp: create_restore_operation_def split: if_splits)
next
  case (Inr u)
  then have new: "op_row op_id db = None"
      "row_by (\<lambda>r. (ro_account_id r, ro_idempotency_key r)) (account, key) (restore_operations db) = None"
    by (auto simp: create_restore_operation_def split: if_splits)
  then have fresh: "op_id \<notin> ro_op_id ` set (restore_operations db)" by (simp add: row_by_None_iff)
  then have none: "steps_of op_id db = []"
    using ledger_okD(4) [OF assms] by (auto simp: filter_empty_conv)
  have old: "r \<in> set (restore_operations db) \<Longrightarrow> ro_op_id r \<noteq> op_id" for r
    using fresh by auto
  show ?thesis
    using Inr assms new none old
    by (auto simp: create_restore_operation_def ledger_ok_def split: if_splits
        intro!: ops_by_id.unique_insert ops_by_content.unique_insert trail_ok_created)
qed

text \<open>Updates that leave the identity columns, the state and the attempts alone.\<close>

lemma update_keeps_ledger_ok:
  assumes "ledger_ok db"
    and "\<And>r. ro_op_id (f r) = ro_op_id r" "\<And>r. ro_account_id (f r) = ro_account_id r"
      "\<And>r. ro_idempotency_key (f r) = ro_idempotency_key r"
      "\<And>r. ro_state (f r) = ro_state r" "\<And>r. ro_attempts (f r) = ro_attempts r"
  shows "ledger_ok (db\<lparr>restore_operations := sql_update p f (restore_operations db)\<rparr>)"
proof -
  let ?ops = "restore_operations db"
  have "trail_ok (f r) s = trail_ok r s" for r s
    using assms(5,6) by (intro trail_ok_cong)
  then have "\<forall>r \<in> set (sql_update p f ?ops). trail_ok r (steps_of (ro_op_id r) db)"
    using ledger_okD(3) [OF assms(1)] assms(2) by (auto simp: set_sql_update)
  moreover have "ro_op_id ` set (sql_update p f ?ops) = ro_op_id ` set ?ops"
    by (rule image_sql_update) (rule assms(2))
  ultimately show ?thesis
    using ledger_okD(1,2,4) [OF assms(1)] assms(2-4)
    by (simp add: ledger_ok_def ops_by_id.unique_update ops_by_content.unique_update)
qed

lemma set_restore_error_keeps_ledger_ok:
  "ledger_ok db \<Longrightarrow> ledger_ok (set_restore_error op_id err now db)"
  unfolding set_restore_error_def by (rule update_keeps_ledger_ok) simp_all

lemma acquire_keeps_ledger_ok:
  "ledger_ok db \<Longrightarrow> ledger_ok (snd (acquire_restore_lease op_id owner now ttl db))"
  unfolding acquire_restore_lease_def Let_def snd_conv by (rule update_keeps_ledger_ok) simp_all

lemma release_keeps_ledger_ok:
  "ledger_ok db \<Longrightarrow> ledger_ok (release_restore_lease op_id db)"
  unfolding release_restore_lease_def by (rule update_keeps_ledger_ok) simp_all

text \<open>The row \<^verbatim>\<open>transition_restore\<close> writes, and its behaviour on every branch.\<close>

abbreviation moved_row ::
  "RestoreState \<Rightarrow> int \<Rightarrow> string option \<Rightarrow> string option \<Rightarrow> restore_row \<Rightarrow> restore_row" where
  "moved_row to now new_cloud_id marker r \<equiv>
     r\<lparr>ro_state := restore_as_str to, ro_updated_at := now,
       ro_attempts := ro_attempts r + (if to = Committing then 1 else 0),
       ro_new_cloud_id := coalesce new_cloud_id (ro_new_cloud_id r),
       ro_marker := coalesce marker (ro_marker r)\<rparr>"

lemma transition_restore_ok:
  assumes "op_row op_id db = Some r" and "ro_state r = restore_as_str st"
    and "restore_can_transition_to st to"
  shows "transition_restore op_id to now detail cid m db =
    (Inr (), db\<lparr>restore_operations := sql_update (\<lambda>r. ro_op_id r = op_id)
                   (moved_row to now cid m) (restore_operations db),
             restore_steps := restore_steps db @
               [\<lparr>rs_op_id = op_id, rs_seq = next_seq op_id (restore_steps db),
                 rs_from_state = Some (restore_as_str st), rs_to_state = restore_as_str to,
                 rs_at = now, rs_detail = detail\<rparr>]\<rparr>)"
  using assms by (simp add: transition_restore_def Let_def)

lemma transition_restore_error_unchanged:
  "fst (transition_restore op_id to now detail cid m db) = Inl e
   \<Longrightarrow> snd (transition_restore op_id to now detail cid m db) = db"
  by (auto simp: transition_restore_def Let_def split: option.splits if_splits)

lemma transition_restore_okD:
  assumes "fst (transition_restore op_id to now detail cid m db) = Inr u"
  obtains r st where "op_row op_id db = Some r" "ro_state r = restore_as_str st"
    "restore_can_transition_to st to"
  using assms restore_wire.parse_sound
  by (auto simp: transition_restore_def Let_def split: option.splits if_splits)

lemma op_row_transition:
  assumes "fst (transition_restore op_id to now detail cid m db) = Inr u"
  shows "op_row i (snd (transition_restore op_id to now detail cid m db)) =
    map_option (\<lambda>r. if ro_op_id r = op_id then moved_row to now cid m r else r) (op_row i db)"
proof -
  from assms obtain r st where "op_row op_id db = Some r" "ro_state r = restore_as_str st"
    "restore_can_transition_to st to" by (rule transition_restore_okD)
  then show ?thesis by (simp add: transition_restore_ok row_by_sql_update)
qed

lemma transition_keeps_ledger_ok:
  assumes ok: "ledger_ok db"
  shows "ledger_ok (snd (transition_restore op_id to now detail cid m db))"
proof (cases "fst (transition_restore op_id to now detail cid m db)")
  case (Inl e)
  then show ?thesis using ok by (simp add: transition_restore_error_unchanged)
next
  case (Inr u)
  then obtain r st where r: "op_row op_id db = Some r" "ro_state r = restore_as_str st"
    "restore_can_transition_to st to" by (rule transition_restore_okD)
  define t where "t = \<lparr>rs_op_id = op_id, rs_seq = next_seq op_id (restore_steps db),
                 rs_from_state = Some (restore_as_str st), rs_to_state = restore_as_str to,
                 rs_at = now, rs_detail = detail\<rparr>"
  let ?ops = "sql_update (\<lambda>r. ro_op_id r = op_id) (moved_row to now cid m) (restore_operations db)"
  have trail: "trail_ok r (steps_of op_id db)"
    using ledger_ok_row_state [OF ok r(1)] by metis
  then have seq: "rs_seq t = Suc (length (steps_of op_id db))"
    by (auto simp: t_def trail_ok_def intro!: next_seq_of_trail dest!: map_eq_imp_length_eq)
  have same: "q = r" if "q \<in> set (restore_operations db)" "ro_op_id q = op_id" for q
    using ops_by_id.member_row_by [OF ledger_okD(1) [OF ok] that(1)] that(2) r(1) by simp
  have "trail_ok q (steps_of (ro_op_id q) db @ (if ro_op_id q = op_id then [t] else []))"
    if "q \<in> set ?ops" for q
  proof -
    from that obtain p where p: "p \<in> set (restore_operations db)"
      "q = (if ro_op_id p = op_id then moved_row to now cid m p else p)"
      by (auto simp: set_sql_update)
    show ?thesis
    proof (cases "ro_op_id p = op_id")
      case True
      with p same have "q = moved_row to now cid m r" by simp
      with trail_ok_extend [OF trail r(2,3), of q t] seq show ?thesis
        using row_by_SomeD [OF r(1)] by (simp add: t_def)
    next
      case False
      with p ledger_okD(3) [OF ok p(1)] show ?thesis by simp
    qed
  qed
  moreover have "ro_op_id ` set ?ops = ro_op_id ` set (restore_operations db)"
    by (rule image_sql_update) simp
  moreover have "op_id \<in> ro_op_id ` set (restore_operations db)"
    using row_by_SomeD [OF r(1)] by auto
  moreover have "snd (transition_restore op_id to now detail cid m db)
      = db\<lparr>restore_operations := ?ops, restore_steps := restore_steps db @ [t]\<rparr>"
    using transition_restore_ok [OF r] by (simp add: t_def)
  moreover have "steps_of i (db\<lparr>restore_operations := ?ops, restore_steps := restore_steps db @ [t]\<rparr>)
      = steps_of i db @ (if i = op_id then [t] else [])" for i
    by (simp add: t_def)
  moreover have "rs_op_id t = op_id" by (simp add: t_def)
  ultimately show ?thesis
    using ledger_okD(1,2,4) [OF ok]
    by (simp add: ledger_ok_def ops_by_id.unique_update ops_by_content.unique_update
        del: filter_append)
qed

lemmas ledger_ok_preserved =
  create_keeps_ledger_ok transition_keeps_ledger_ok set_restore_error_keeps_ledger_ok
  acquire_keeps_ledger_ok release_keeps_ledger_ok

lemma exec_keeps_ledger_ok: "ledger_ok db \<Longrightarrow> ledger_ok (ledger_exec c db)"
  by (cases c) (simp_all add: ledger_ok_preserved)

lemma run_keeps_ledger_ok: "ledger_ok db \<Longrightarrow> ledger_ok (ledger_run calls db)"
  by (induction calls arbitrary: db) (simp_all add: exec_keeps_ledger_ok)

section \<open>Reading the ledger\<close>

lemma get_restore_operation_Some_iff:
  "get_restore_operation op_id db = Inr (Some op) \<longleftrightarrow>
     (\<exists>r. op_row op_id db = Some r \<and> map_restore_op r = Inr op)"
  by (auto simp: get_restore_operation_def split: option.splits sum.splits)

lemma map_restore_op_ok:
  "ro_state r = restore_as_str st \<Longrightarrow> \<exists>op. map_restore_op r = Inr op \<and> ro_state op = st"
  by (simp add: map_restore_op_def)

lemma map_restore_op_fields:
  assumes "map_restore_op r = Inr op"
  shows "ro_state r = restore_as_str (ro_state op)" "ro_op_id op = ro_op_id r"
    "ro_account_id op = ro_account_id r" "ro_created_at op = ro_created_at r"
    "ro_new_cloud_id op = ro_new_cloud_id r" "ro_marker op = ro_marker r"
    "ro_attempts op = ro_attempts r"
  using assms restore_wire.parse_sound
  by (auto simp: map_restore_op_def split: option.splits)

lemma ledger_ok_decodes:
  assumes "ledger_ok db" and "r \<in> set (restore_operations db)"
  obtains op where "map_restore_op r = Inr op"
  using trail_ok_state [OF ledger_okD(3) [OF assms]] map_restore_op_ok by metis

lemma collect_ops_all:
  assumes "\<And>r. r \<in> set rs \<Longrightarrow> \<exists>op. map_restore_op r = Inr op"
  shows "\<exists>ops. collect_ops rs = Inr ops \<and> list_all2 (\<lambda>r op. map_restore_op r = Inr op) rs ops"
  using assms
proof (induction rs)
  case (Cons r rs)
  then obtain op ops where "map_restore_op r = Inr op" "collect_ops rs = Inr ops"
    "list_all2 (\<lambda>r op. map_restore_op r = Inr op) rs ops" by (metis list.set_intros)
  then show ?case by simp
qed simp

lemma restore_history_eq:
  assumes "map rs_seq (steps_of op_id db) = [1..<Suc n]"
  shows "restore_history op_id db = zip (map rs_from_state (steps_of op_id db))
           (map rs_to_state (steps_of op_id db))"
proof -
  have "sorted (map rs_seq (steps_of op_id db))" using assms by (simp del: upt_Suc)
  then have "sort_key rs_seq (steps_of op_id db) = steps_of op_id db"
    by (rule sort_key_id_if_sorted)
  then show ?thesis by (simp add: restore_history_def zip_map_map zip_same_conv_map)
qed

lemma recoverable_ok:
  assumes ok: "ledger_ok db"
  shows "\<exists>ops. recoverable_restore_operations account db = Inr ops
     \<and> distinct (map ro_op_id ops) \<and> sorted (map (\<lambda>op. (ro_created_at op, ro_op_id op)) ops)
     \<and> set ops = {op. ro_account_id op = account \<and> \<not> restore_is_terminal (ro_state op)
          \<and> get_restore_operation (ro_op_id op) db = Inr (Some op)}"
proof -
  define rs where "rs = sort_key (\<lambda>r. (ro_created_at r, ro_op_id r))
       (filter (\<lambda>r. ro_account_id r = account \<and> ro_state r \<notin> {''committed'', ''cancelled''})
          (restore_operations db))"
  have rs: "r \<in> set rs \<longleftrightarrow> r \<in> set (restore_operations db) \<and> ro_account_id r = account
      \<and> ro_state r \<notin> {''committed'', ''cancelled''}" for r
    by (auto simp: rs_def)
  obtain ops where ops: "collect_ops rs = Inr ops"
    and rel: "list_all2 (\<lambda>r op. map_restore_op r = Inr op) rs ops"
    using collect_ops_all [of rs] rs ledger_ok_decodes [OF ok] by metis
  have same: "map ro_op_id ops = map ro_op_id rs"
    "map (\<lambda>op. (ro_created_at op, ro_op_id op)) ops = map (\<lambda>r. (ro_created_at r, ro_op_id r)) rs"
    using rel by (induction rule: list_all2_induct) (auto simp: map_restore_op_fields)
  have "distinct (map ro_op_id rs)"
    using ledger_okD(1) [OF ok] unfolding rs_def unique_rows_def
    by (auto simp: distinct_map intro: inj_on_subset)
  moreover have "sorted (map (\<lambda>r. (ro_created_at r, ro_op_id r)) rs)"
    by (simp add: rs_def)
  moreover have "op \<in> set ops \<longleftrightarrow> (\<exists>r \<in> set rs. map_restore_op r = Inr op)" for op
    using rel by (induction rule: list_all2_induct) auto
  moreover have "(\<exists>r \<in> set rs. map_restore_op r = Inr op) \<longleftrightarrow>
      ro_account_id op = account \<and> \<not> restore_is_terminal (ro_state op)
        \<and> get_restore_operation (ro_op_id op) db = Inr (Some op)" for op
  proof -
    have "ro_state r \<in> {''committed'', ''cancelled''} \<longleftrightarrow> restore_is_terminal (ro_state op)"
      if "map_restore_op r = Inr op" for r
      using map_restore_op_fields(1) [OF that]
      by (cases "ro_state op") (simp_all add: restore_is_terminal_def)
    note tm = this
    show ?thesis (is "?L \<longleftrightarrow> ?R")
    proof
      assume ?L
      then obtain r where r: "r \<in> set rs" "map_restore_op r = Inr op" by blast
      then have "op_row (ro_op_id op) db = Some r"
        using ops_by_id.member_row_by [OF ledger_okD(1) [OF ok], of r] rs [of r]
        by (simp add: map_restore_op_fields(2) [OF r(2)])
      with r show ?R
        using rs [of r] tm [OF r(2)] map_restore_op_fields(3) [OF r(2)]
        by (auto simp: get_restore_operation_Some_iff)
    next
      assume ?R
      then obtain r where r: "op_row (ro_op_id op) db = Some r" "map_restore_op r = Inr op"
        by (auto simp: get_restore_operation_Some_iff)
      with \<open>?R\<close> show ?L
        using rs [of r] tm [OF r(2)] map_restore_op_fields(3) [OF r(2)] row_by_SomeD [OF r(1)]
        by auto
    qed
  qed
  ultimately show ?thesis
    using ops same unfolding recoverable_restore_operations_def rs_def [symmetric]
    by (intro exI [of _ ops]) auto
qed

text \<open>No call removes an operation, so its content key stays taken.\<close>

abbreviation content_keys :: "restore_db \<Rightarrow> (string \<times> string) set" where
  "content_keys db \<equiv> (\<lambda>r. (ro_account_id r, ro_idempotency_key r)) ` set (restore_operations db)"

lemma content_keys_exec: "content_keys db \<subseteq> content_keys (ledger_exec c db)"
  by (cases c) (auto simp: create_restore_operation_def transition_restore_def set_restore_error_def
      acquire_restore_lease_def release_restore_lease_def Let_def image_sql_update
      split: option.splits)

lemma content_keys_run: "content_keys db \<subseteq> content_keys (ledger_run calls db)"
proof (induction calls arbitrary: db)
  case (Cons c calls)
  show ?case using content_keys_exec [of db c] Cons.IH [of "ledger_exec c db"]
    unfolding fold_simps by (rule subset_trans)
qed simp

section \<open>Leases\<close>

lemma lease_held_stays:
  assumes "op_row op_id db = Some r" "ro_lease_owner r = Some a" "ro_lease_expires_at r = Some t"
    and "c \<noteq> CallRelease op_id" and "\<And>b now ttl. c = CallAcquire op_id b now ttl \<Longrightarrow> now < t"
  shows "\<exists>r'. op_row op_id (ledger_exec c db) = Some r'
           \<and> ro_lease_owner r' = Some a \<and> ro_lease_expires_at r' = Some t"
proof (cases c)
  case (CallCreate i account service src key now)
  then show ?thesis using assms by (simp add: create_restore_operation_def row_by_append)
next
  case (CallTransition i to now detail cid m)
  show ?thesis
  proof (cases "fst (transition_restore i to now detail cid m db)")
    case (Inl e)
    then show ?thesis using assms CallTransition by (simp add: transition_restore_error_unchanged)
  next
    case (Inr u)
    then show ?thesis using assms CallTransition by (simp add: op_row_transition)
  qed
next
  case (CallError i err now)
  then show ?thesis using assms by (simp add: set_restore_error_def row_by_sql_update)
next
  case (CallAcquire i b now ttl)
  then show ?thesis using assms row_by_SomeD [OF assms(1)]
    by (auto simp: acquire_restore_lease_def row_by_sql_update lease_free_def Let_def)
next
  case (CallRelease i)
  then show ?thesis using assms row_by_SomeD [OF assms(1)]
    by (auto simp: release_restore_lease_def row_by_sql_update)
qed

lemma lease_held_run:
  assumes "op_row op_id db = Some r" "ro_lease_owner r = Some a" "ro_lease_expires_at r = Some t"
    and "CallRelease op_id \<notin> set calls"
    and "\<And>b now ttl. CallAcquire op_id b now ttl \<in> set calls \<Longrightarrow> now < t"
  shows "\<exists>r'. op_row op_id (ledger_run calls db) = Some r'
           \<and> ro_lease_owner r' = Some a \<and> ro_lease_expires_at r' = Some t"
  using assms
proof (induction calls arbitrary: db r)
  case (Cons c calls)
  have "c \<noteq> CallRelease op_id" using Cons.prems(4) by auto
  moreover have "now < t" if "c = CallAcquire op_id b now ttl" for b now ttl
    using Cons.prems(5) [of b now ttl] that by simp
  ultimately obtain r' where
    "op_row op_id (ledger_exec c db) = Some r'" "ro_lease_owner r' = Some a"
    "ro_lease_expires_at r' = Some t" using lease_held_stays [OF Cons.prems(1-3)] by blast
  from Cons.IH [OF this] Cons.prems show ?case by auto
qed simp

lemma acquire_True_row:
  assumes "ledger_ok db" and "fst (acquire_restore_lease op_id a now ttl db)"
  obtains r where "op_row op_id (snd (acquire_restore_lease op_id a now ttl db)) = Some r"
    "ro_lease_owner r = Some a" "ro_lease_expires_at r = Some (now + ttl)"
proof -
  from assms(2) have "sql_count (\<lambda>r. ro_op_id r = op_id
      \<and> lease_free (ro_lease_owner r) (ro_lease_expires_at r) now) (restore_operations db) = 1"
    by (simp add: acquire_restore_lease_def Let_def)
  then obtain r where r: "op_row op_id db = Some r"
    "lease_free (ro_lease_owner r) (ro_lease_expires_at r) now"
    using ops_by_id.count_eq_1_iff [OF ledger_okD(1) [OF assms(1)], of op_id
        "\<lambda>r. lease_free (ro_lease_owner r) (ro_lease_expires_at r) now"] by auto
  with row_by_SomeD [OF r(1)] show ?thesis
    by (intro that) (auto simp: acquire_restore_lease_def Let_def row_by_sql_update)
qed

lemma acquire_refused:
  assumes ok: "ledger_ok db" and r: "op_row op_id db = Some r" "ro_lease_owner r = Some a"
    "ro_lease_expires_at r = Some t" "now < t"
  shows "acquire_restore_lease op_id b now ttl db = (False, db)"
proof -
  have no: "\<not> (ro_op_id q = op_id \<and> lease_free (ro_lease_owner q) (ro_lease_expires_at q) now)"
    if "q \<in> set (restore_operations db)" for q
    using ops_by_id.member_row_by [OF ledger_okD(1) [OF ok] that] r by (auto simp: lease_free_def)
  then have "sql_update (\<lambda>q. ro_op_id q = op_id \<and> lease_free (ro_lease_owner q) (ro_lease_expires_at q) now)
     f (restore_operations db) = restore_operations db" for f
    by (intro sql_update_id)
  moreover from no have "filter (\<lambda>q. ro_op_id q = op_id
      \<and> lease_free (ro_lease_owner q) (ro_lease_expires_at q) now) (restore_operations db) = []"
    by (simp add: filter_empty_conv)
  ultimately show ?thesis by (simp add: acquire_restore_lease_def Let_def sql_count_def)
qed

section \<open>Properties\<close>

text \<open>C2: Whatever sequence of calls the clients of the ledger make, the ledger is sound: operation ids
  and content keys stay unique, every row has an audit trail of legal transitions from
  \<^verbatim>\<open>pending\<close> to its present state, numbered without gaps, and no step is an orphan.\<close>

theorem ledger_always_sound: "ledger_ok (ledger_run calls empty_ledger)"
  by (rule run_keeps_ledger_ok) (rule empty_ledger_ok)

text \<open>The history \<^verbatim>\<open>restore_history\<close> returns for an operation, after any sequence of calls, is the
  list of steps of one legal path of the state machine which starts at \<^verbatim>\<open>pending\<close> and ends at the
  state \<^verbatim>\<open>get_restore_operation\<close> reports; only its last state can be terminal, and the attempts
  counter is the number of times it entered \<^verbatim>\<open>committing\<close>.\<close>

theorem history_is_legal_path:
  assumes "get_restore_operation op_id (ledger_run calls empty_ledger) = Inr (Some op)"
  shows "\<exists>path. path \<noteq> [] \<and> hd path = Pending \<and> last path = ro_state op
    \<and> legal_path restore_can_transition_to path
    \<and> (\<forall>i < length path - 1. \<not> restore_is_terminal (path ! i))
    \<and> restore_history op_id (ledger_run calls empty_ledger)
        = zip (None # map (Some \<circ> restore_as_str) (butlast path)) (map restore_as_str path)
    \<and> ro_attempts op = int (count_list path Committing)"
proof -
  define db where "db = ledger_run calls empty_ledger"
  have ok: "ledger_ok db" unfolding db_def by (rule run_keeps_ledger_ok) (rule empty_ledger_ok)
  from assms obtain r where r: "op_row op_id db = Some r" and op: "map_restore_op r = Inr op"
    unfolding get_restore_operation_Some_iff db_def by blast
  have "trail_ok r (steps_of op_id db)" using ledger_ok_row_state [OF ok r] by metis
  then obtain path where path: "path \<noteq> []" "hd path = Pending"
      "legal_path restore_can_transition_to path" "ro_state r = restore_as_str (last path)"
      "map rs_seq (steps_of op_id db) = [1..<Suc (length path)]"
      "map rs_to_state (steps_of op_id db) = map restore_as_str path"
      "map rs_from_state (steps_of op_id db) = None # map (Some \<circ> restore_as_str) (butlast path)"
      "ro_attempts r = int (count_list path Committing)"
    by (auto simp: trail_ok_def)
  have "\<not> restore_is_terminal (path ! i)" if "i < length path - 1" for i
    using restore_machine.terminal_only_last [OF path(3), of i] that by linarith
  moreover have "last path = ro_state op"
    using map_restore_op_fields(1) [OF op] path(4) by simp
  ultimately show ?thesis
    using path restore_history_eq [OF path(5)] map_restore_op_fields(7) [OF op]
    unfolding db_def by (intro exI [of _ path]) simp
qed

theorem history_is_legal_path_witness:
  "restore_history ''op'' (ledger_run demo_calls empty_ledger) =
     [(None, ''pending''), (Some ''pending'', ''preflight_checked''),
      (Some ''preflight_checked'', ''committing''), (Some ''committing'', ''committed'')]
   \<and> (\<exists>path. last path = Committed \<and> legal_path restore_can_transition_to path)"
proof -
  have "case get_restore_operation ''op'' (ledger_run demo_calls empty_ledger) of
      Inr (Some op) \<Rightarrow> ro_state op = Committed | _ \<Rightarrow> False"
    by code_simp
  then obtain op where ex: "get_restore_operation ''op'' (ledger_run demo_calls empty_ledger) = Inr (Some op)"
    "ro_state op = Committed"
    by (auto split: sum.splits option.splits)
  have "restore_history ''op'' (ledger_run demo_calls empty_ledger) =
     [(None, ''pending''), (Some ''pending'', ''preflight_checked''),
      (Some ''preflight_checked'', ''committing''), (Some ''committing'', ''committed'')]"
    by code_simp
  with ex history_is_legal_path [of "''op''" demo_calls] show ?thesis by metis
qed

text \<open>The recovery worklist \<^verbatim>\<open>recoverable_restore_operations\<close> is complete and exact: after any
  sequence of calls it decodes, holds precisely the operations of the account which
  \<^verbatim>\<open>get_restore_operation\<close> reports in a state that is not terminal, each once, oldest first.\<close>

theorem recoverable_exact:
  "\<exists>ops. recoverable_restore_operations account (ledger_run calls empty_ledger) = Inr ops
     \<and> distinct (map ro_op_id ops) \<and> sorted (map (\<lambda>op. (ro_created_at op, ro_op_id op)) ops)
     \<and> set ops = {op. ro_account_id op = account \<and> \<not> restore_is_terminal (ro_state op)
          \<and> get_restore_operation (ro_op_id op) (ledger_run calls empty_ledger) = Inr (Some op)}"
proof -
  define db where "db = ledger_run calls empty_ledger"
  have ok: "ledger_ok db" unfolding db_def by (rule run_keeps_ledger_ok) (rule empty_ledger_ok)
  show ?thesis using recoverable_ok [OF ok] unfolding db_def by blast
qed

text \<open>The content key is an idempotency key: once an operation for \<open>(account, key)\<close> exists, every
  later attempt to create one for the same pair is refused by the database and changes nothing,
  whatever happened in between.\<close>

theorem duplicate_content_refused:
  assumes "fst (create_restore_operation op_id account service src key now db) = Inr ()"
  shows "create_restore_operation op_id' account service' src' key now'
      (ledger_run calls (snd (create_restore_operation op_id account service src key now db)))
    = (Inl (Sqlite ConstraintViolation),
       ledger_run calls (snd (create_restore_operation op_id account service src key now db)))"
proof -
  have "(account, key) \<in> content_keys (snd (create_restore_operation op_id account service src key now db))"
    using assms by (auto simp: create_restore_operation_def split: if_splits)
  then have "(account, key) \<in> content_keys
      (ledger_run calls (snd (create_restore_operation op_id account service src key now db)))"
    using content_keys_run by blast
  then have "row_by (\<lambda>r. (ro_account_id r, ro_idempotency_key r)) (account, key) (restore_operations
      (ledger_run calls (snd (create_restore_operation op_id account service src key now db)))) \<noteq> None"
    unfolding row_by_None_iff by blast
  then show ?thesis unfolding create_restore_operation_def [of op_id' account] by simp
qed

theorem duplicate_content_refused_witness:
  "fst (create_restore_operation ''x'' ''a'' ''mail'' ''s'' ''k'' 9
     (ledger_run demo_calls empty_ledger)) = Inl (Sqlite ConstraintViolation)"
proof -
  have "fst (create_restore_operation ''op'' ''a'' ''mail'' ''s'' ''k'' 1 empty_ledger) = Inr ()"
    by code_simp
  from duplicate_content_refused [OF this, of "''x''" "''mail''" "''s''" 9 "tl demo_calls"]
  show ?thesis by (simp add: demo_calls_def)
qed

text \<open>C11: A lease excludes: after \<^verbatim>\<open>acquire_restore_lease\<close> granted \<open>a\<close> the lease for \<open>ttl\<close> seconds, every
  attempt before it expires is refused without effect, whatever other calls came in between, as long
  as the operation was not released.\<close>

theorem lease_excludes:
  assumes "fst (acquire_restore_lease op_id a now ttl (ledger_run calls empty_ledger))"
    and "CallRelease op_id \<notin> set later"
    and "\<And>b t ttl'. CallAcquire op_id b t ttl' \<in> set later \<Longrightarrow> t < now + ttl"
    and "t < now + ttl"
  defines "db \<equiv> ledger_run later (snd (acquire_restore_lease op_id a now ttl (ledger_run calls empty_ledger)))"
  shows "acquire_restore_lease op_id b t ttl' db = (False, db)"
proof -
  have ok: "ledger_ok (ledger_run calls empty_ledger)"
    by (rule run_keeps_ledger_ok) (rule empty_ledger_ok)
  from acquire_True_row [OF this assms(1)] obtain r where
    "op_row op_id (snd (acquire_restore_lease op_id a now ttl (ledger_run calls empty_ledger))) = Some r"
    "ro_lease_owner r = Some a" "ro_lease_expires_at r = Some (now + ttl)" by blast
  from lease_held_run [OF this assms(2)] assms(3) obtain r' where "op_row op_id db = Some r'"
    "ro_lease_owner r' = Some a" "ro_lease_expires_at r' = Some (now + ttl)"
    unfolding db_def by blast
  moreover have "ledger_ok db"
    unfolding db_def by (intro run_keeps_ledger_ok acquire_keeps_ledger_ok ok)
  ultimately show ?thesis using assms(4) by (intro acquire_refused)
qed

theorem lease_excludes_witness:
  "fst (acquire_restore_lease ''op'' ''w1'' 10 60 (ledger_run demo_calls empty_ledger))
   \<and> \<not> fst (acquire_restore_lease ''op'' ''w2'' 69 60
        (snd (acquire_restore_lease ''op'' ''w1'' 10 60 (ledger_run demo_calls empty_ledger))))
   \<and> fst (acquire_restore_lease ''op'' ''w2'' 70 60
        (snd (acquire_restore_lease ''op'' ''w1'' 10 60 (ledger_run demo_calls empty_ledger))))"
proof -
  have 1: "fst (acquire_restore_lease ''op'' ''w1'' 10 60 (ledger_run demo_calls empty_ledger))"
    by code_simp
  have 2: "fst (acquire_restore_lease ''op'' ''w2'' 70 60
        (snd (acquire_restore_lease ''op'' ''w1'' 10 60 (ledger_run demo_calls empty_ledger))))"
    by code_simp
  from 1 2 lease_excludes [OF 1, of "[]" 69 "''w2''" 60] show ?thesis by simp
qed

end
