(* ===== verification/Item_Store.thy ===== *)
theory Item_Store
  imports Prelude
begin

text \<open>
  The item index of \<^verbatim>\<open>crates/store/src/lib.rs\<close>: the tables \<^verbatim>\<open>items\<close>, \<^verbatim>\<open>delta_state\<close>,
  \<^verbatim>\<open>upload_sessions\<close> and \<^verbatim>\<open>runs\<close> and the \<^verbatim>\<open>Store\<close> methods on them. A table is the list of its rows in
  rowid order; \<^verbatim>\<open>ORDER BY\<close> is a stable sort, so rows that tie keep that order. The full-text
  tables (FTS5) and the encrypted-at-rest profile (SQLCipher) are not modelled.
\<close>

section \<open>Rows\<close>

record Item =
  it_account_id :: string
  it_service :: string
  it_remote_id :: string
  it_parent_remote_id :: "string option"
  it_name :: string
  it_local_path :: "string option"
  it_item_type :: string
  it_etag :: "string option"
  it_ctag :: "string option"
  it_quickxorhash :: "string option"
  it_size :: "int option"
  it_remote_mtime :: "string option"
  it_sync_state :: string
  it_deleted_at :: "string option"
  it_change_key :: "string option"
  it_internet_message_id :: "string option"
  it_ical_uid :: "string option"
  it_series_master_id :: "string option"
  it_body_sha256 :: "string option"
  it_verified_at :: "string option"
  it_verify_status :: "string option"
  it_body_etag :: "string option"
  it_sender :: "string option"
  it_preview_json :: "string option"
  it_content_state :: "string option"
  it_body_location :: "string option"
  it_body_state :: "string option"
  it_plaintext_size :: "int option"
  it_plaintext_hash :: "string option"
  it_encrypted_blob_version :: "int option"
  it_materialized_at :: "string option"
  it_last_download_error :: "string option"
  it_conflict_state :: "string option"

text \<open>The columns of the table that the \<^verbatim>\<open>Item\<close> struct does not carry.\<close>

record item_row = Item +
  ir_synced_size :: "int option"
  ir_synced_mtime_unix :: "int option"
  ir_synced_hash :: "string option"

record delta_row =
  ds_account_id :: string
  ds_service :: string
  ds_scope :: string
  ds_cursor :: string
  ds_generation :: int

record upload_session =
  us_account_id :: string
  us_service :: string
  us_dest_path :: string
  us_upload_url :: string
  us_total :: int
  us_next_offset :: int

record Run =
  run_id :: int
  run_account_id :: string
  run_kind :: string
  run_started_at :: string
  run_finished_at :: string
  run_status :: string
  run_summary :: string

record item_db =
  db_items :: "item_row list"
  db_delta :: "delta_row list"
  db_uploads :: "upload_session list"
  db_runs :: "Run list"

type_synonym item_key = "string \<times> string \<times> string"

abbreviation key_of :: "'a Item_scheme \<Rightarrow> item_key" where
  "key_of r \<equiv> (it_account_id r, it_service r, it_remote_id r)"

abbreviation delta_key :: "delta_row \<Rightarrow> string \<times> string \<times> string" where
  "delta_key r \<equiv> (ds_account_id r, ds_service r, ds_scope r)"

abbreviation upload_key :: "upload_session \<Rightarrow> string \<times> string \<times> string" where
  "upload_key r \<equiv> (us_account_id r, us_service r, us_dest_path r)"

definition Item_new :: "string \<Rightarrow> string \<Rightarrow> string \<Rightarrow> string \<Rightarrow> string \<Rightarrow> Item" where
  "Item_new account_id service remote_id name item_type =
     \<lparr>it_account_id = account_id, it_service = service, it_remote_id = remote_id,
      it_parent_remote_id = None, it_name = name, it_local_path = None, it_item_type = item_type,
      it_etag = None, it_ctag = None, it_quickxorhash = None, it_size = None,
      it_remote_mtime = None, it_sync_state = ''clean'', it_deleted_at = None,
      it_change_key = None, it_internet_message_id = None, it_ical_uid = None,
      it_series_master_id = None, it_body_sha256 = None, it_verified_at = None,
      it_verify_status = None, it_body_etag = None, it_sender = None, it_preview_json = None,
      it_content_state = None, it_body_location = None, it_body_state = None,
      it_plaintext_size = None, it_plaintext_hash = None, it_encrypted_blob_version = None,
      it_materialized_at = None, it_last_download_error = None, it_conflict_state = None\<rparr>"

definition row_to_item :: "item_row \<Rightarrow> Item" where
  "row_to_item r = Item.truncate r"

section \<open>Writing items\<close>

text \<open>The columns \<^verbatim>\<open>INSERT\<close> names come from the argument; the others are \<^verbatim>\<open>NULL\<close> in a new row and stay
  as they are in an old one.\<close>

definition inserted_row :: "Item \<Rightarrow> item_row" where
  "inserted_row it = Item.extend (it\<lparr>it_body_sha256 := None, it_verified_at := None,
     it_verify_status := None, it_body_etag := None, it_preview_json := None,
     it_content_state := None, it_body_location := None, it_body_state := None,
     it_plaintext_size := None, it_plaintext_hash := None, it_encrypted_blob_version := None,
     it_materialized_at := None, it_last_download_error := None, it_conflict_state := None\<rparr>)
     \<lparr>ir_synced_size = None, ir_synced_mtime_unix = None, ir_synced_hash = None\<rparr>"

definition merged_row :: "Item \<Rightarrow> item_row \<Rightarrow> item_row" where
  "merged_row it r = r\<lparr>it_parent_remote_id := it_parent_remote_id it, it_name := it_name it,
     it_local_path := it_local_path it, it_item_type := it_item_type it, it_etag := it_etag it,
     it_ctag := it_ctag it, it_quickxorhash := it_quickxorhash it, it_size := it_size it,
     it_remote_mtime := it_remote_mtime it, it_sync_state := it_sync_state it,
     it_deleted_at := it_deleted_at it, it_change_key := it_change_key it,
     it_internet_message_id := it_internet_message_id it, it_ical_uid := it_ical_uid it,
     it_series_master_id := it_series_master_id it,
     it_sender := coalesce (it_sender it) (it_sender r)\<rparr>"

definition upsert_item :: "Item \<Rightarrow> item_db \<Rightarrow> item_db" where
  "upsert_item it db = db\<lparr>db_items :=
     sql_upsert key_of (key_of it) (inserted_row it) (merged_row it) (db_items db)\<rparr>"

text \<open>\<^verbatim>\<open>UPDATE items SET ... WHERE account_id=?1 AND service=?2 AND remote_id=?3\<close>, with the number of
  rows it touched.\<close>

definition update_item :: "item_key \<Rightarrow> (item_row \<Rightarrow> item_row) \<Rightarrow> item_db \<Rightarrow> nat \<times> item_db" where
  "update_item k f db =
     (sql_count (\<lambda>r. key_of r = k) (db_items db),
      db\<lparr>db_items := sql_update (\<lambda>r. key_of r = k) f (db_items db)\<rparr>)"

definition set_sender :: "string \<Rightarrow> string \<Rightarrow> string \<Rightarrow> string \<Rightarrow> item_db \<Rightarrow> item_db" where
  "set_sender account service remote_id sender db =
     snd (update_item (account, service, remote_id) (\<lambda>r. r\<lparr>it_sender := Some sender\<rparr>) db)"

definition set_preview_json :: "string \<Rightarrow> string \<Rightarrow> string \<Rightarrow> string \<Rightarrow> item_db \<Rightarrow> item_db" where
  "set_preview_json account service remote_id preview db =
     snd (update_item (account, service, remote_id) (\<lambda>r. r\<lparr>it_preview_json := Some preview\<rparr>) db)"

definition set_content_state ::
  "string \<Rightarrow> string \<Rightarrow> string \<Rightarrow> string option \<Rightarrow> string option \<Rightarrow> string option \<Rightarrow> string option
     \<Rightarrow> item_db \<Rightarrow> item_db" where
  "set_content_state account service remote_id content location body at db =
     snd (update_item (account, service, remote_id)
       (\<lambda>r. r\<lparr>it_content_state := content, it_body_location := location, it_body_state := body,
              it_materialized_at := at\<rparr>) db)"

definition set_conflict_state ::
  "string \<Rightarrow> string \<Rightarrow> string \<Rightarrow> string option \<Rightarrow> item_db \<Rightarrow> item_db" where
  "set_conflict_state account service remote_id conflict db =
     snd (update_item (account, service, remote_id) (\<lambda>r. r\<lparr>it_conflict_state := conflict\<rparr>) db)"

definition mark_deleted :: "string \<Rightarrow> string \<Rightarrow> string \<Rightarrow> string \<Rightarrow> item_db \<Rightarrow> bool \<times> item_db" where
  "mark_deleted account service remote_id at db =
     (case update_item (account, service, remote_id)
        (\<lambda>r. r\<lparr>it_deleted_at := Some at, it_sync_state := ''deleted''\<rparr>) db of (n, db') \<Rightarrow> (n > 0, db'))"

text \<open>\<^verbatim>\<open>set_local_path\<close> records the version the body belongs to and drops the cached preview when the body
  it was computed from is another version. The right-hand sides read the old row.\<close>

definition set_local_path ::
  "string \<Rightarrow> string \<Rightarrow> string \<Rightarrow> string option \<Rightarrow> item_db \<Rightarrow> bool \<times> item_db" where
  "set_local_path account service remote_id path db =
     (case update_item (account, service, remote_id)
        (\<lambda>r. r\<lparr>it_preview_json := (if it_etag r \<noteq> it_body_etag r then None else it_preview_json r),
               it_local_path := path,
               it_body_etag := (if path \<noteq> None then it_etag r else None)\<rparr>) db of
        (n, db') \<Rightarrow> (n > 0, db'))"

definition set_verify ::
  "string \<Rightarrow> string \<Rightarrow> string \<Rightarrow> string option \<Rightarrow> string \<Rightarrow> string \<Rightarrow> item_db \<Rightarrow> bool \<times> item_db" where
  "set_verify account service remote_id sha status at db =
     (case update_item (account, service, remote_id)
        (\<lambda>r. r\<lparr>it_body_sha256 := sha, it_verify_status := Some status, it_verified_at := Some at\<rparr>) db of
        (n, db') \<Rightarrow> (n > 0, db'))"

definition set_sync_state :: "string \<Rightarrow> string \<Rightarrow> string \<Rightarrow> string \<Rightarrow> item_db \<Rightarrow> bool \<times> item_db" where
  "set_sync_state account service remote_id state db =
     (case update_item (account, service, remote_id) (\<lambda>r. r\<lparr>it_sync_state := state\<rparr>) db of
        (n, db') \<Rightarrow> (n > 0, db'))"

definition set_synced_state ::
  "string \<Rightarrow> string \<Rightarrow> string \<Rightarrow> int \<Rightarrow> int \<Rightarrow> string option \<Rightarrow> item_db \<Rightarrow> bool \<times> item_db" where
  "set_synced_state account service remote_id sz mtime hash db =
     (case update_item (account, service, remote_id)
        (\<lambda>r. r\<lparr>ir_synced_size := Some sz, ir_synced_mtime_unix := Some mtime,
               ir_synced_hash := hash\<rparr>) db of
        (n, db') \<Rightarrow> (n > 0, db'))"

section \<open>Reading items\<close>

definition get_item :: "string \<Rightarrow> string \<Rightarrow> string \<Rightarrow> item_db \<Rightarrow> Item option" where
  "get_item account service remote_id db =
     map_option row_to_item (row_by key_of (account, service, remote_id) (db_items db))"

abbreviation rows_of :: "string \<Rightarrow> string \<Rightarrow> item_db \<Rightarrow> item_row list" where
  "rows_of account service db \<equiv>
     filter (\<lambda>r. it_account_id r = account \<and> it_service r = service) (db_items db)"

abbreviation live_rows :: "string \<Rightarrow> string \<Rightarrow> item_db \<Rightarrow> item_row list" where
  "live_rows account service db \<equiv>
     filter (\<lambda>r. it_account_id r = account \<and> it_service r = service \<and> it_deleted_at r = None) (db_items db)"

text \<open>\<^verbatim>\<open>parent_remote_id IS ?3\<close> also holds of two \<^verbatim>\<open>NULL\<close>s.\<close>

definition children :: "string \<Rightarrow> string \<Rightarrow> string option \<Rightarrow> item_db \<Rightarrow> Item list" where
  "children account service parent db =
     map row_to_item (sort_key it_name
       (filter (\<lambda>r. it_parent_remote_id r = parent) (live_rows account service db)))"

definition roots :: "string \<Rightarrow> string \<Rightarrow> item_db \<Rightarrow> Item list" where
  "roots account service db =
     map row_to_item (sort_key it_name
       (filter (\<lambda>r. case it_parent_remote_id r of
            None \<Rightarrow> True
          | Some parent \<Rightarrow> parent \<notin> it_remote_id ` set (live_rows account service db))
          (live_rows account service db)))"

definition conflicts :: "string \<Rightarrow> item_db \<Rightarrow> Item list" where
  "conflicts account db =
     map row_to_item (sort_key it_name
       (filter (\<lambda>r. it_conflict_state r \<noteq> None) (live_rows account ''onedrive'' db)))"

definition items_by_service :: "string \<Rightarrow> string \<Rightarrow> item_db \<Rightarrow> Item list" where
  "items_by_service account service db =
     map row_to_item (sort_key (\<lambda>r. (it_item_type r, it_name r)) (live_rows account service db))"

text \<open>The pages of the web interface also show items deleted in the cloud whose body is archived.\<close>

abbreviation listed_rows :: "string \<Rightarrow> string \<Rightarrow> item_db \<Rightarrow> item_row list" where
  "listed_rows account service db \<equiv>
     filter (\<lambda>r. it_account_id r = account \<and> it_service r = service
        \<and> (it_deleted_at r = None \<or> it_local_path r \<noteq> None)) (db_items db)"

definition items_by_service_page :: "string \<Rightarrow> string \<Rightarrow> u32 \<Rightarrow> u32 \<Rightarrow> item_db \<Rightarrow> Item list" where
  "items_by_service_page account service limit offset db =
     take (unat limit) (drop (unat offset)
       (map row_to_item (sort_key (\<lambda>r. (it_item_type r, it_name r)) (listed_rows account service db))))"

definition count_by_service :: "string \<Rightarrow> string \<Rightarrow> item_db \<Rightarrow> nat" where
  "count_by_service account service db = length (listed_rows account service db)"

definition items_by_type :: "string \<Rightarrow> string \<Rightarrow> string \<Rightarrow> item_db \<Rightarrow> Item list" where
  "items_by_type account service item_type db =
     map row_to_item (sort_key it_remote_id
       (filter (\<lambda>r. it_item_type r = item_type) (live_rows account service db)))"

definition items_with_body :: "string \<Rightarrow> item_db \<Rightarrow> Item list" where
  "items_with_body account db =
     map row_to_item (sort_key (\<lambda>r. (it_service r, it_remote_id r))
       (filter (\<lambda>r. it_account_id r = account \<and> it_deleted_at r = None \<and> it_local_path r \<noteq> None
          \<and> it_item_type r \<noteq> ''folder'') (db_items db)))"

definition verify_counts :: "string \<Rightarrow> item_db \<Rightarrow> nat \<times> nat" where
  "verify_counts account db =
     (sql_count (\<lambda>r. it_account_id r = account \<and> it_deleted_at r = None \<and> it_verify_status r \<noteq> None)
        (db_items db),
      sql_count (\<lambda>r. it_account_id r = account \<and> it_deleted_at r = None
        \<and> it_verify_status r = Some ''verified'') (db_items db))"

definition all_items_by_service :: "string \<Rightarrow> string \<Rightarrow> item_db \<Rightarrow> Item list" where
  "all_items_by_service account service db =
     map row_to_item (sort_key (\<lambda>r. (it_item_type r, it_name r)) (rows_of account service db))"

definition get_synced_state ::
  "string \<Rightarrow> string \<Rightarrow> string \<Rightarrow> item_db \<Rightarrow> (int \<times> int \<times> string option) option" where
  "get_synced_state account service remote_id db =
     (case row_by key_of (account, service, remote_id) (db_items db) of
        Some r \<Rightarrow> (case (ir_synced_size r, ir_synced_mtime_unix r) of
                     (Some sz, Some mtime) \<Rightarrow> Some (sz, mtime, ir_synced_hash r)
                   | _ \<Rightarrow> None)
      | None \<Rightarrow> None)"

definition sync_state_for_local_path :: "string \<Rightarrow> item_db \<Rightarrow> string option" where
  "sync_state_for_local_path path db =
     map_option it_sync_state
       (List.find (\<lambda>r. it_local_path r = Some path \<and> it_deleted_at r = None) (db_items db))"

definition live_remote_ids :: "string \<Rightarrow> string \<Rightarrow> item_db \<Rightarrow> string list" where
  "live_remote_ids account service db = map it_remote_id (live_rows account service db)"

section \<open>Delta cursors, upload sessions and runs\<close>

definition set_delta_cursor :: "string \<Rightarrow> string \<Rightarrow> string \<Rightarrow> string \<Rightarrow> item_db \<Rightarrow> item_db" where
  "set_delta_cursor account service scope cursor db = db\<lparr>db_delta :=
     sql_upsert delta_key (account, service, scope)
       \<lparr>ds_account_id = account, ds_service = service, ds_scope = scope,
        ds_cursor = cursor, ds_generation = 1\<rparr>
       (\<lambda>r. r\<lparr>ds_cursor := cursor, ds_generation := ds_generation r + 1\<rparr>) (db_delta db)\<rparr>"

definition get_delta_cursor :: "string \<Rightarrow> string \<Rightarrow> string \<Rightarrow> item_db \<Rightarrow> string option" where
  "get_delta_cursor account service scope db =
     map_option ds_cursor (row_by delta_key (account, service, scope) (db_delta db))"

definition delta_generation :: "string \<Rightarrow> string \<Rightarrow> string \<Rightarrow> item_db \<Rightarrow> int option" where
  "delta_generation account service scope db =
     map_option ds_generation (row_by delta_key (account, service, scope) (db_delta db))"

definition clear_delta_cursor :: "string \<Rightarrow> string \<Rightarrow> string \<Rightarrow> item_db \<Rightarrow> bool \<times> item_db" where
  "clear_delta_cursor account service scope db =
     (sql_count (\<lambda>r. delta_key r = (account, service, scope)) (db_delta db) > 0,
      db\<lparr>db_delta := sql_delete (\<lambda>r. delta_key r = (account, service, scope)) (db_delta db)\<rparr>)"

definition save_upload_session ::
  "string \<Rightarrow> string \<Rightarrow> string \<Rightarrow> string \<Rightarrow> int \<Rightarrow> int \<Rightarrow> item_db \<Rightarrow> item_db" where
  "save_upload_session account service dest_path url tot nxt db = db\<lparr>db_uploads :=
     sql_upsert upload_key (account, service, dest_path)
       \<lparr>us_account_id = account, us_service = service, us_dest_path = dest_path,
        us_upload_url = url, us_total = tot, us_next_offset = nxt\<rparr>
       (\<lambda>r. r\<lparr>us_upload_url := url, us_total := tot, us_next_offset := nxt\<rparr>) (db_uploads db)\<rparr>"

text \<open>\<^verbatim>\<open>as u64\<close> wraps a negative total.\<close>

definition get_upload_session :: "string \<Rightarrow> string \<Rightarrow> string \<Rightarrow> item_db \<Rightarrow> (string \<times> u64) option" where
  "get_upload_session account service dest_path db =
     map_option (\<lambda>r. (us_upload_url r, of_int (us_total r)))
       (row_by upload_key (account, service, dest_path) (db_uploads db))"

definition clear_upload_session :: "string \<Rightarrow> string \<Rightarrow> string \<Rightarrow> item_db \<Rightarrow> item_db" where
  "clear_upload_session account service dest_path db =
     db\<lparr>db_uploads := sql_delete (\<lambda>r. upload_key r = (account, service, dest_path)) (db_uploads db)\<rparr>"

text \<open>\<^verbatim>\<open>AUTOINCREMENT\<close>: one more than the largest id ever used; rows are never deleted from \<^verbatim>\<open>runs\<close>.\<close>

definition next_run_id :: "Run list \<Rightarrow> int" where
  "next_run_id rs = foldr (\<lambda>r m. max (run_id r) m) rs 0 + 1"

definition add_run ::
  "string \<Rightarrow> string \<Rightarrow> string \<Rightarrow> string \<Rightarrow> string \<Rightarrow> string \<Rightarrow> item_db \<Rightarrow> int \<times> item_db" where
  "add_run account kind started finished status summary db =
     (let i = next_run_id (db_runs db)
      in (i, db\<lparr>db_runs := db_runs db @ [\<lparr>run_id = i, run_account_id = account, run_kind = kind,
              run_started_at = started, run_finished_at = finished, run_status = status,
              run_summary = summary\<rparr>]\<rparr>))"

definition recent_runs :: "string \<Rightarrow> u32 \<Rightarrow> item_db \<Rightarrow> Run list" where
  "recent_runs account limit db =
     take (unat limit) (rev (sort_key run_id (filter (\<lambda>r. run_account_id r = account) (db_runs db))))"

definition empty_items :: item_db where
  "empty_items = \<lparr>db_items = [], db_delta = [], db_uploads = [], db_runs = []\<rparr>"

section \<open>The invariant of the index\<close>

definition runs_numbered :: "Run list \<Rightarrow> bool" where
  "runs_numbered rs \<longleftrightarrow> map run_id rs = map int [1..<Suc (length rs)]"

definition items_ok :: "item_db \<Rightarrow> bool" where
  "items_ok db \<longleftrightarrow> unique_rows key_of (db_items db) \<and> unique_rows delta_key (db_delta db)
     \<and> unique_rows upload_key (db_uploads db) \<and> runs_numbered (db_runs db)"

text \<open>Calls that write the index.\<close>

datatype item_call =
    CallUpsert Item
  | CallSender string string string string
  | CallPreview string string string string
  | CallContent string string string "string option" "string option" "string option" "string option"
  | CallConflict string string string "string option"
  | CallDelete string string string string
  | CallPath string string string "string option"
  | CallVerify string string string "string option" string string
  | CallSync string string string string
  | CallSynced string string string int int "string option"
  | CallCursor string string string string
  | CallClearCursor string string string
  | CallUpload string string string string int int
  | CallClearUpload string string string
  | CallRun string string string string string string

fun item_exec :: "item_call \<Rightarrow> item_db \<Rightarrow> item_db" where
  "item_exec (CallUpsert it) = upsert_item it"
| "item_exec (CallSender a s i x) = set_sender a s i x"
| "item_exec (CallPreview a s i x) = set_preview_json a s i x"
| "item_exec (CallContent a s i c l b t) = set_content_state a s i c l b t"
| "item_exec (CallConflict a s i x) = set_conflict_state a s i x"
| "item_exec (CallDelete a s i x) = snd \<circ> mark_deleted a s i x"
| "item_exec (CallPath a s i x) = snd \<circ> set_local_path a s i x"
| "item_exec (CallVerify a s i h st t) = snd \<circ> set_verify a s i h st t"
| "item_exec (CallSync a s i x) = snd \<circ> set_sync_state a s i x"
| "item_exec (CallSynced a s i sz m h) = snd \<circ> set_synced_state a s i sz m h"
| "item_exec (CallCursor a s sc c) = set_delta_cursor a s sc c"
| "item_exec (CallClearCursor a s sc) = snd \<circ> clear_delta_cursor a s sc"
| "item_exec (CallUpload a s d u t n) = save_upload_session a s d u t n"
| "item_exec (CallClearUpload a s d) = clear_upload_session a s d"
| "item_exec (CallRun a k b e st sm) = snd \<circ> add_run a k b e st sm"

abbreviation item_run :: "item_call list \<Rightarrow> item_db \<Rightarrow> item_db" where
  "item_run calls db \<equiv> fold item_exec calls db"

text \<open>The columns the delta ingest writes, and those that belong to the archive.\<close>

definition ingest_columns :: "'a Item_scheme \<Rightarrow> _" where
  "ingest_columns r = (key_of r, it_parent_remote_id r, it_name r, it_local_path r, it_item_type r,
     it_etag r, it_ctag r, it_quickxorhash r, it_size r, it_remote_mtime r, it_sync_state r,
     it_deleted_at r, it_change_key r, it_internet_message_id r, it_ical_uid r, it_series_master_id r)"

definition archive_columns :: "'a Item_scheme \<Rightarrow> _" where
  "archive_columns r = (it_body_sha256 r, it_verified_at r, it_verify_status r, it_body_etag r,
     it_preview_json r, it_content_state r, it_body_location r, it_body_state r,
     it_plaintext_size r, it_plaintext_hash r, it_encrypted_blob_version r, it_materialized_at r,
     it_last_download_error r, it_conflict_state r)"

text \<open>The archived body is of another version than the item (the comment on \<^verbatim>\<open>body_etag\<close>).\<close>

definition is_stale :: "Item \<Rightarrow> bool" where
  "is_stale it \<longleftrightarrow> it_local_path it \<noteq> None \<and> it_etag it \<noteq> it_body_etag it"

interpretation items_table: keyed_rows "key_of :: item_row \<Rightarrow> item_key" .

interpretation delta_table: keyed_rows delta_key .

interpretation upload_table: keyed_rows upload_key .

section \<open>The calls keep the invariant\<close>

lemma key_of_inserted [simp]: "key_of (inserted_row it) = key_of it"
  by (simp add: inserted_row_def Item.defs)

lemma key_of_merged [simp]: "key_of (merged_row it r) = key_of r"
  by (simp add: merged_row_def)

lemma update_item_keeps_ok:
  assumes "items_ok db" and "\<And>r. key_of (f r) = key_of r"
  shows "items_ok (snd (update_item k f db))"
  using assms by (simp add: items_ok_def update_item_def items_table.unique_update)

lemma next_run_id_numbered:
  assumes "runs_numbered rs"
  shows "next_run_id rs = int (length rs) + 1"
proof -
  have "foldr (\<lambda>r m. max (run_id r) m) xs 0 = foldr max (map run_id xs) 0" for xs :: "Run list"
    by (induction xs) auto
  moreover have "foldr max (map int [Suc 0..<Suc n]) 0 = int n" for n
  proof -
    have "foldr max (map int xs) (int a) = int (foldr max xs a)" for xs a
      by (induction xs) auto
    from this [of "[Suc 0..<Suc n]" 0] show ?thesis by (simp add: foldr_max_upt del: upt_Suc)
  qed
  ultimately show ?thesis using assms by (simp add: runs_numbered_def next_run_id_def del: upt_Suc)
qed

lemma add_run_keeps_numbered:
  "runs_numbered rs \<Longrightarrow> run_id r = next_run_id rs \<Longrightarrow> runs_numbered (rs @ [r])"
  by (simp add: next_run_id_numbered) (simp add: runs_numbered_def)

lemma upsert_item_keeps_ok: "items_ok db \<Longrightarrow> items_ok (upsert_item it db)"
  unfolding items_ok_def upsert_item_def
  by (simp add: items_table.unique_upsert)

lemmas item_update_defs =
  set_sender_def set_preview_json_def set_content_state_def set_conflict_state_def mark_deleted_def
  set_local_path_def set_verify_def set_sync_state_def set_synced_state_def

lemma item_exec_keeps_ok:
  assumes "items_ok db"
  shows "items_ok (item_exec c db)"
proof (cases c)
  case (CallUpsert it)
  then show ?thesis using assms by (simp add: upsert_item_keeps_ok)
next
  case (CallRun a k b e st sm)
  then show ?thesis
    using assms by (simp add: add_run_def Let_def items_ok_def add_run_keeps_numbered)
next
  case (CallCursor a s sc cu)
  then show ?thesis using assms
    by (simp add: set_delta_cursor_def items_ok_def delta_table.unique_upsert)
next
  case (CallClearCursor a s sc)
  then show ?thesis using assms
    by (simp add: clear_delta_cursor_def items_ok_def delta_table.unique_delete)
next
  case (CallUpload a s d u t n)
  then show ?thesis using assms
    by (simp add: save_upload_session_def items_ok_def upload_table.unique_upsert)
next
  case (CallClearUpload a s d)
  then show ?thesis using assms
    by (simp add: clear_upload_session_def items_ok_def upload_table.unique_delete)
qed (simp_all add: item_update_defs case_prod_beta update_item_keeps_ok assms)

lemma empty_items_ok: "items_ok empty_items"
  by (simp add: items_ok_def empty_items_def unique_rows_def runs_numbered_def)

lemma item_run_keeps_ok: "items_ok db \<Longrightarrow> items_ok (item_run calls db)"
  by (induction calls arbitrary: db) (simp_all add: item_exec_keeps_ok)

section \<open>Lemmas on reading\<close>

lemma row_to_item_selectors [simp]:
  "it_account_id (row_to_item r) = it_account_id r" "it_service (row_to_item r) = it_service r"
  "it_remote_id (row_to_item r) = it_remote_id r" "it_etag (row_to_item r) = it_etag r"
  "it_parent_remote_id (row_to_item r) = it_parent_remote_id r" "it_name (row_to_item r) = it_name r"
  "it_local_path (row_to_item r) = it_local_path r" "it_body_etag (row_to_item r) = it_body_etag r"
  "it_preview_json (row_to_item r) = it_preview_json r" "it_sender (row_to_item r) = it_sender r"
  "it_deleted_at (row_to_item r) = it_deleted_at r"
  "ingest_columns (row_to_item r) = ingest_columns r"
  "archive_columns (row_to_item r) = archive_columns r"
  by (simp_all add: row_to_item_def Item.defs ingest_columns_def archive_columns_def)

lemma inserted_row_columns:
  "ingest_columns (inserted_row it) = ingest_columns it" "it_sender (inserted_row it) = it_sender it"
  "archive_columns (inserted_row it) =
     (None, None, None, None, None, None, None, None, None, None, None, None, None, None)"
  by (simp_all add: inserted_row_def Item.defs ingest_columns_def archive_columns_def)

lemma merged_row_columns:
  "key_of r = key_of it \<Longrightarrow> ingest_columns (merged_row it r) = ingest_columns it"
  "it_sender (merged_row it r) = coalesce (it_sender it) (it_sender r)"
  "archive_columns (merged_row it r) = archive_columns r"
  by (simp_all add: merged_row_def ingest_columns_def archive_columns_def)

lemma row_by_upsert_item:
  "row_by key_of k (db_items (upsert_item it db)) =
     (if k = key_of it
      then Some (case row_by key_of k (db_items db) of None \<Rightarrow> inserted_row it | Some r \<Rightarrow> merged_row it r)
      else row_by key_of k (db_items db))"
  by (simp add: upsert_item_def items_table.row_by_upsert)

lemma row_by_update_item:
  assumes "\<And>r. key_of (f r) = key_of r"
  shows "row_by key_of k (db_items (snd (update_item k' f db))) =
     map_option (\<lambda>r. if key_of r = k' then f r else r) (row_by key_of k (db_items db))"
  using assms by (simp add: update_item_def row_by_sql_update)

lemma update_item_count:
  assumes "items_ok db"
  shows "fst (update_item k f db) = (if row_by key_of k (db_items db) = None then 0 else 1)"
proof -
  have "sql_count (\<lambda>r. key_of r = k \<and> True) (db_items db) \<le> 1"
    and "sql_count (\<lambda>r. key_of r = k \<and> True) (db_items db) = 1
           \<longleftrightarrow> (\<exists>r. row_by key_of k (db_items db) = Some r \<and> True)"
    using assms items_table.count_le_1 [of "db_items db" k "\<lambda>_. True"]
      items_table.count_eq_1_iff [of "db_items db" k "\<lambda>_. True"]
    by (simp_all add: items_ok_def)
  then show ?thesis by (auto simp: update_item_def)
qed

text \<open>Consecutive pages tile a list.\<close>

lemma concat_pages:
  assumes "0 < n" and "length xs \<le> m * n"
  shows "concat (map (\<lambda>i. take n (drop (i * n) xs)) [0..<m]) = xs"
  using assms(2)
proof (induction m arbitrary: xs)
  case (Suc m)
  have "map (\<lambda>i. take n (drop (i * n) xs)) [0..<Suc m]
      = take n xs # map (\<lambda>i. take n (drop (i * n) (drop n xs))) [0..<m]"
    by (simp add: upt_conv_Cons map_Suc_upt [symmetric] add.commute del: upt_Suc)
  moreover have "concat (map (\<lambda>i. take n (drop (i * n) (drop n xs))) [0..<m]) = drop n xs"
    using Suc.prems by (intro Suc.IH) auto
  ultimately show ?case by simp
qed simp

section \<open>Properties\<close>


text \<open>\<^verbatim>\<open>upsert_item\<close> writes exactly one item: every other item is read back unchanged; the item itself
  is read back with the ingested columns of the argument, with the columns of the archive (integrity
  baseline, body version, preview, content and conflict state) as they were, and it never forgets a
  known sender.\<close>

theorem upsert_item_contract:
  "if (a, s, i) = key_of it
   then \<exists>new. get_item a s i (upsert_item it db) = Some new
     \<and> ingest_columns new = ingest_columns it
     \<and> (case get_item a s i db of
          None \<Rightarrow> it_sender new = it_sender it
            \<and> archive_columns new = archive_columns (Item_new a s i (it_name it) (it_item_type it))
        | Some old \<Rightarrow> it_sender new = coalesce (it_sender it) (it_sender old)
            \<and> archive_columns new = archive_columns old)
   else get_item a s i (upsert_item it db) = get_item a s i db"
proof (cases "(a, s, i) = key_of it")
  case True
  then show ?thesis
  proof (cases "row_by key_of (a, s, i) (db_items db)")
    case None
    with True show ?thesis
      by (simp add: get_item_def row_by_upsert_item inserted_row_columns)
        (simp add: archive_columns_def Item_new_def)
  next
    case (Some r)
    then have "key_of r = key_of it" using True by (auto dest: row_by_SomeD)
    with Some True show ?thesis
      by (simp add: get_item_def row_by_upsert_item merged_row_columns)
  qed
next
  case False
  then show ?thesis by (simp add: get_item_def row_by_upsert_item del: prod.inject)
qed

text \<open>Staleness is detected: after a body was archived with \<^verbatim>\<open>set_local_path\<close>, a later ingest of the
  item that keeps a path leaves it stale exactly when the ingested etag differs from the etag at
  archiving time; right after archiving it is not stale, and a cached preview survives archiving
  only when it was computed for that version.\<close>

theorem stale_iff_etag_changed:
  fixes p :: string and db :: item_db
  assumes "get_item a s i db = Some old" and "key_of it = (a, s, i)" and "it_local_path it = Some q"
  defines "db1 \<equiv> snd (set_local_path a s i (Some p) db)"
  shows "\<exists>cur new. get_item a s i db1 = Some cur \<and> it_local_path cur = Some p \<and> \<not> is_stale cur
      \<and> (it_preview_json cur \<noteq> None \<longrightarrow> it_body_etag old = it_etag old)
      \<and> get_item a s i (upsert_item it db1) = Some new
      \<and> (is_stale new \<longleftrightarrow> it_etag it \<noteq> it_etag old)"
proof -
  from assms(1) obtain r where r: "row_by key_of (a, s, i) (db_items db) = Some r"
    "old = row_to_item r" by (auto simp: get_item_def)
  define r' where "r' = r\<lparr>it_preview_json := (if it_etag r \<noteq> it_body_etag r then None else it_preview_json r),
      it_local_path := Some p, it_body_etag := it_etag r\<rparr>"
  have key: "key_of r = (a, s, i)" using row_by_SomeD [OF r(1)] by simp
  have row: "row_by key_of (a, s, i) (db_items db1) = Some r'"
    using r(1) key by (simp add: db1_def set_local_path_def case_prod_beta row_by_update_item r'_def)
  have "get_item a s i db1 = Some (row_to_item r')"
    and "get_item a s i (upsert_item it db1) = Some (row_to_item (merged_row it r'))"
    using row assms(2) by (simp_all add: get_item_def row_by_upsert_item)
  then show ?thesis
    using r(2) assms(3) by (auto simp: is_stale_def r'_def merged_row_def)
qed

text \<open>A mail item, ingested, archived, and changed in the cloud.\<close>

definition demo_item :: "string option \<Rightarrow> Item" where
  "demo_item etag = (Item_new ''a'' ''mail'' ''m1'' ''Hello'' ''message'')\<lparr>it_etag := etag,
     it_local_path := Some ''mail/m1.eml''\<rparr>"

theorem stale_iff_etag_changed_witness:
  "\<exists>new. get_item ''a'' ''mail'' ''m1''
      (upsert_item (demo_item (Some ''v2''))
        (snd (set_local_path ''a'' ''mail'' ''m1'' (Some ''mail/m1.eml'')
          (upsert_item (demo_item (Some ''v1'')) empty_items)))) = Some new \<and> is_stale new"
proof -
  have "get_item ''a'' ''mail'' ''m1'' (upsert_item (demo_item (Some ''v1'')) empty_items)
      = Some (demo_item (Some ''v1''))"
    by (simp add: get_item_def row_by_upsert_item)
      (simp add: demo_item_def Item_new_def empty_items_def inserted_row_def row_to_item_def Item.defs)
  from stale_iff_etag_changed [OF this, of "demo_item (Some ''v2'')" "''mail/m1.eml''" "''mail/m1.eml''"]
  show ?thesis by (auto simp: demo_item_def Item_new_def)
qed

text \<open>Paging is exact: for a page size above zero, enough consecutive pages of
  \<^verbatim>\<open>items_by_service_page\<close> concatenate to the whole listing, in order, without loss or repetition, and
  its length is \<^verbatim>\<open>count_by_service\<close>.\<close>

theorem pages_tile_listing:
  assumes "0 < limit" and "count_by_service account service db \<le> m * unat limit"
    and "m * unat limit < 2 ^ 32"
  shows "concat (map (\<lambda>i. items_by_service_page account service limit (of_nat (i * unat limit)) db) [0..<m])
      = map row_to_item (sort_key (\<lambda>r. (it_item_type r, it_name r)) (listed_rows account service db))"
    (is "concat (map ?page _) = ?all")
proof -
  have pos: "0 < unat limit" using assms(1) by (simp add: unat_gt_0 word_neq_0_conv)
  have "unat (of_nat (i * unat limit) :: u32) = i * unat limit" if "i < m" for i
  proof -
    have "i * unat limit < m * unat limit" using that pos by simp
    then have "i * unat limit < 2 ^ LENGTH(32)" by (rule less_trans) (use assms(3) in simp)
    then show ?thesis by (rule of_nat_inverse [OF refl])
  qed
  then have "map ?page [0..<m] = map (\<lambda>i. take (unat limit) (drop (i * unat limit) ?all)) [0..<m]"
    by (simp add: items_by_service_page_def)
  moreover have "length ?all \<le> m * unat limit"
    using assms(2) by (simp add: count_by_service_def)
  ultimately show ?thesis by (simp only: concat_pages [OF pos])
qed

theorem pages_tile_listing_witness:
  "concat (map (\<lambda>i. items_by_service_page ''a'' ''mail'' 1 (of_nat (i * unat (1 :: u32)))
       (upsert_item (demo_item None) empty_items)) [0..<2])
   = map row_to_item (sort_key (\<lambda>r. (it_item_type r, it_name r))
       (listed_rows ''a'' ''mail'' (upsert_item (demo_item None) empty_items)))
   \<and> count_by_service ''a'' ''mail'' (upsert_item (demo_item None) empty_items) = 1"
proof -
  have "count_by_service ''a'' ''mail'' (upsert_item (demo_item None) empty_items) = 1"
    by code_simp
  with pages_tile_listing [of 1 "''a''" "''mail''" "upsert_item (demo_item None) empty_items" 2]
  show ?thesis by simp
qed

text \<open>The folder tree loses nothing: the live items of a service are exactly the roots together with
  the children of live items; no root is the child of a live item.\<close>

theorem roots_and_children_cover:
  "set (items_by_service account service db) =
     set (roots account service db)
       \<union> (\<Union>p \<in> set (items_by_service account service db).
            set (children account service (Some (it_remote_id p)) db))
   \<and> set (roots account service db)
       \<inter> (\<Union>p \<in> set (items_by_service account service db).
            set (children account service (Some (it_remote_id p)) db)) = {}"
proof -
  define live where "live = live_rows account service db"
  have items: "set (items_by_service account service db) = row_to_item ` set live"
    by (simp add: items_by_service_def live_def)
  have kids: "(\<Union>p \<in> set (items_by_service account service db).
      set (children account service (Some (it_remote_id p)) db))
    = row_to_item ` {r \<in> set live. \<exists>p \<in> set live. it_parent_remote_id r = Some (it_remote_id p)}"
    unfolding items children_def live_def [symmetric] by auto
  have "(case it_parent_remote_id r of None \<Rightarrow> True | Some q \<Rightarrow> q \<notin> it_remote_id ` set live)
      \<longleftrightarrow> \<not> (\<exists>p \<in> set live. it_parent_remote_id r = Some (it_remote_id p))" for r :: item_row
    by (auto split: option.split)
  then have roots: "set (roots account service db)
    = row_to_item ` {r \<in> set live. \<not> (\<exists>p \<in> set live. it_parent_remote_id r = Some (it_remote_id p))}"
    unfolding roots_def live_def [symmetric] by simp
  have "row_to_item r \<noteq> row_to_item r'"
    if "it_parent_remote_id r \<noteq> it_parent_remote_id r'" for r r'
    using that row_to_item_selectors(5) by metis
  then have "row_to_item ` {r \<in> set live. \<not> (\<exists>p \<in> set live. it_parent_remote_id r = Some (it_remote_id p))}
      \<inter> row_to_item ` {r \<in> set live. \<exists>p \<in> set live. it_parent_remote_id r = Some (it_remote_id p)} = {}"
    by (fastforce simp del: row_to_item_selectors)
  then show ?thesis unfolding kids unfolding items roots by blast
qed

text \<open>Delta cursors: after \<^verbatim>\<open>set_delta_cursor\<close> the scope reads back the cursor with its generation
  one higher (one for a new scope), after \<^verbatim>\<open>clear_delta_cursor\<close> it reads back nothing and the call
  says whether there was one; every other scope keeps its cursor and generation in both cases.\<close>

theorem delta_cursor_contract:
  "get_delta_cursor a s sc (set_delta_cursor a s sc c db) = Some c
   \<and> delta_generation a s sc (set_delta_cursor a s sc c db)
       = Some (case delta_generation a s sc db of None \<Rightarrow> 1 | Some g \<Rightarrow> g + 1)
   \<and> get_delta_cursor a s sc (snd (clear_delta_cursor a s sc db)) = None
   \<and> fst (clear_delta_cursor a s sc db) = (get_delta_cursor a s sc db \<noteq> None)
   \<and> ((a', s', sc') = (a, s, sc)
      \<or> get_delta_cursor a' s' sc' (set_delta_cursor a s sc c db) = get_delta_cursor a' s' sc' db
        \<and> delta_generation a' s' sc' (set_delta_cursor a s sc c db) = delta_generation a' s' sc' db
        \<and> get_delta_cursor a' s' sc' (snd (clear_delta_cursor a s sc db)) = get_delta_cursor a' s' sc' db)"
proof -
  have set: "row_by delta_key k (db_delta (set_delta_cursor a s sc c db)) =
    (if k = (a, s, sc)
     then Some (case row_by delta_key (a, s, sc) (db_delta db) of
        None \<Rightarrow> \<lparr>ds_account_id = a, ds_service = s, ds_scope = sc, ds_cursor = c, ds_generation = 1\<rparr>
      | Some r \<Rightarrow> r\<lparr>ds_cursor := c, ds_generation := ds_generation r + 1\<rparr>)
     else row_by delta_key k (db_delta db))" for k
    by (simp add: set_delta_cursor_def delta_table.row_by_upsert)
  have clear: "row_by delta_key k (db_delta (snd (clear_delta_cursor a s sc db))) =
    (if k = (a, s, sc) then None else row_by delta_key k (db_delta db))" for k
    by (simp add: clear_delta_cursor_def delta_table.row_by_delete del: prod.inject)
  have "fst (clear_delta_cursor a s sc db) \<longleftrightarrow> (a, s, sc) \<in> delta_key ` set (db_delta db)"
    by (auto simp: clear_delta_cursor_def sql_count_def filter_empty_conv)
  then have "fst (clear_delta_cursor a s sc db) = (get_delta_cursor a s sc db \<noteq> None)"
    using row_by_None_iff [of delta_key "(a, s, sc)" "db_delta db"] by (simp add: get_delta_cursor_def)
  then show ?thesis
    by (auto simp: get_delta_cursor_def delta_generation_def set clear split: option.split)
qed

end
