(* ===== verification/Restore_Key.thy ===== *)
theory Restore_Key
  imports Prelude
begin

text \<open>
  Idempotency keys (\<^verbatim>\<open>idempotency_key\<close> of \<^verbatim>\<open>engine/src/restore_key.rs\<close>), shared by the restore ledger and
  the ledger of cloud writes, and the operation ids built from them.
\<close>

text \<open>The text the HMAC reads; \<open>hmac\<close> is HMAC-SHA256 of the \<^verbatim>\<open>hmac\<close> crate.\<close>

definition key_input :: "string \<Rightarrow> string \<Rightarrow> string \<Rightarrow> bytes \<Rightarrow> bytes" where
  "key_input account service source_id payload =
     str_bytes account @ [0] @ str_bytes service @ [0] @ str_bytes source_id @ [0] @ payload"

definition idempotency_key ::
  "(bytes \<Rightarrow> bytes \<Rightarrow> bytes) \<Rightarrow> bytes \<Rightarrow> string \<Rightarrow> string \<Rightarrow> string \<Rightarrow> bytes \<Rightarrow> string" where
  "idempotency_key hmac secret account service source_id payload =
     concat (map hex_byte (hmac secret (key_input account service source_id payload)))"

text \<open>\<^verbatim>\<open>format!("{account}:{key}")\<close>.\<close>

definition restore_op_id :: "string \<Rightarrow> string \<Rightarrow> string" where
  "restore_op_id account key = account @ '':'' @ key"

end
