(* ===== verification/Restore_Engine.thy ===== *)
theory Restore_Engine
  imports Restore_Ledger Item_Store Restore_Key
begin

text \<open>
  Crash-safe cloud restore of \<^verbatim>\<open>crates/engine/src\<close>: \<^verbatim>\<open>restore_recovery.rs\<close> (the drivers
  \<^verbatim>\<open>run_restore_op\<close> and \<^verbatim>\<open>recover_restore_op\<close>), the idempotent flows \<^verbatim>\<open>finish_*_restore\<close> and the
  boot-recovery loops of \<^verbatim>\<open>mail_restore.rs\<close>, \<^verbatim>\<open>restore_calendar.rs\<close>, \<^verbatim>\<open>restore_contacts.rs\<close>,
  \<^verbatim>\<open>restore_todo.rs\<close> and \<^verbatim>\<open>restore_onenote.rs\<close>, and the markers of \<^verbatim>\<open>restore_key.rs\<close>.

  A program runs on a world (the ledger and the cloud) with a budget of effects: every committed
  database transaction and every call to the cloud uses one unit, and at zero the process dies
  where it stands. Running with every budget is running with a crash at every point between two
  effects. A call whose response is lost is a cloud that changes and answers with an error.
  The cloud is a parameter; \<open>restore_sink\<close> states what the code relies on.
\<close>

section \<open>Errors\<close>

datatype RestoreFailureKind = Network | Timeout | Http nat | Authentication | Invalid | Internal

text \<open>The message of an error is text, or the \<^verbatim>\<open>Display\<close> of a store error.\<close>

datatype error_message = Text string | FromStore StoreError

datatype RestoreError = RestoreError (re_kind: RestoreFailureKind) (re_message: error_message)

definition re_invalid :: "string \<Rightarrow> RestoreError" where
  "re_invalid message = RestoreError Invalid (Text message)"

definition re_internal :: "string \<Rightarrow> RestoreError" where
  "re_internal message = RestoreError Internal (Text message)"

definition store_internal :: "StoreError \<Rightarrow> RestoreError" where
  "store_internal e = RestoreError Internal (FromStore e)"

datatype RestoreOutcome = Created | Reconciled | AlreadyDone

section \<open>Programs that may crash\<close>

datatype 'a outcome = Done "RestoreError + 'a" | Crashed

record 'c world =
  w_db :: restore_db
  w_cloud :: 'c

type_synonym ('a, 'c) prog = "nat \<Rightarrow> 'c world \<Rightarrow> 'a outcome \<times> nat \<times> 'c world"

type_synonym 'c sink_create = "string \<Rightarrow> bytes \<Rightarrow> 'c \<Rightarrow> (RestoreError + string) \<times> 'c"
type_synonym 'c sink_find = "string \<Rightarrow> 'c \<Rightarrow> (RestoreError + string option) \<times> 'c"

definition ret :: "'a \<Rightarrow> ('a, 'c) prog" where
  "ret x n w = (Done (Inr x), n, w)"

definition throw :: "RestoreError \<Rightarrow> ('a, 'c) prog" where
  "throw e n w = (Done (Inl e), n, w)"

text \<open>Sequencing with \<^verbatim>\<open>?\<close>: an error or a crash ends the program.\<close>

definition bindR :: "('a, 'c) prog \<Rightarrow> ('a \<Rightarrow> ('b, 'c) prog) \<Rightarrow> ('b, 'c) prog" where
  "bindR p f n w = (case p n w of
      (Done (Inr x), n', w') \<Rightarrow> f x n' w'
    | (Done (Inl e), n', w') \<Rightarrow> (Done (Inl e), n', w')
    | (Crashed, n', w') \<Rightarrow> (Crashed, n', w'))"

text \<open>A ledger read, a ledger transaction, and a call to the cloud.\<close>

definition db_get :: "(restore_db \<Rightarrow> StoreError + 'a) \<Rightarrow> ('a, 'c) prog" where
  "db_get f n w = (Done (map_sum store_internal id (f (w_db w))), n, w)"

definition db_write :: "(restore_db \<Rightarrow> (StoreError + 'a) \<times> restore_db) \<Rightarrow> ('a, 'c) prog" where
  "db_write f n w = (case n of
      0 \<Rightarrow> (Crashed, 0, w)
    | Suc n' \<Rightarrow> (case f (w_db w) of (r, db) \<Rightarrow> (Done (map_sum store_internal id r), n', w\<lparr>w_db := db\<rparr>)))"

definition cloud_call :: "('c \<Rightarrow> (RestoreError + 'a) \<times> 'c) \<Rightarrow> ('a, 'c) prog" where
  "cloud_call f n w = (case n of
      0 \<Rightarrow> (Crashed, 0, w)
    | Suc n' \<Rightarrow> (case f (w_cloud w) of (r, c) \<Rightarrow> (Done r, n', w\<lparr>w_cloud := c\<rparr>)))"

section \<open>Driving one operation\<close>

definition tr :: "string \<Rightarrow> RestoreState \<Rightarrow> int \<Rightarrow> string \<Rightarrow> (unit, 'c) prog" where
  "tr op_id to now detail = db_write (transition_restore op_id to now (Some detail) None None)"

definition tr_marker ::
  "string \<Rightarrow> RestoreState \<Rightarrow> int \<Rightarrow> string \<Rightarrow> string option \<Rightarrow> (unit, 'c) prog" where
  "tr_marker op_id to now detail marker =
     db_write (transition_restore op_id to now (Some detail) None marker)"

definition commit :: "string \<Rightarrow> int \<Rightarrow> string \<Rightarrow> string \<Rightarrow> (unit, 'c) prog" where
  "commit op_id now detail new_id =
     db_write (transition_restore op_id Committed now (Some detail) (Some new_id) None)"

definition run_restore_op ::
  "'c sink_create \<Rightarrow> string \<Rightarrow> string \<Rightarrow> bytes \<Rightarrow> int \<Rightarrow> (string \<times> RestoreOutcome, 'c) prog" where
  "run_restore_op create op_id marker payload now =
     bindR (tr_marker op_id PreflightChecked now ''preflight'' (Some marker)) (\<lambda>_.
     bindR (tr op_id Committing now ''committing'') (\<lambda>_.
     bindR (cloud_call (create marker payload)) (\<lambda>new_id.
     bindR (commit op_id now ''created'' new_id) (\<lambda>_.
     ret (new_id, Created)))))"

text \<open>The moves of \<^verbatim>\<open>recover_restore_op\<close> into \<^verbatim>\<open>committing\<close>; terminal states do not get here.\<close>

definition recover_moves :: "string \<Rightarrow> RestoreState \<Rightarrow> string option \<Rightarrow> int \<Rightarrow> (unit, 'c) prog" where
  "recover_moves op_id st existing now =
     (case st of
        Pending \<Rightarrow> bindR (tr op_id PreflightChecked now ''recover'') (\<lambda>_.
                   tr op_id Committing now ''recover'')
      | PreflightChecked \<Rightarrow> tr op_id Committing now ''recover''
      | Committing \<Rightarrow> ret ()
      | FailedAfterGraphCommit \<Rightarrow>
          if existing = None then tr op_id Committing now ''resume'' else ret ()
      | Committed \<Rightarrow> ret ()
      | Cancelled \<Rightarrow> ret ())"

definition no_operation :: "string \<Rightarrow> string" where
  "no_operation op_id = ''no restore operation '' @ [CHR 0x27] @ op_id @ [CHR 0x27]"

definition no_marker :: "string \<Rightarrow> string" where
  "no_marker op_id =
     ''operation '' @ [CHR 0x27] @ op_id @ [CHR 0x27] @ '' has no marker to reconcile by''"

definition recover_restore_op ::
  "'c sink_create \<Rightarrow> 'c sink_find \<Rightarrow> string \<Rightarrow> bytes \<Rightarrow> int \<Rightarrow> (RestoreOutcome, 'c) prog" where
  "recover_restore_op create probe op_id payload now =
     bindR (db_get (get_restore_operation op_id)) (\<lambda>found.
     case found of
       None \<Rightarrow> throw (re_internal (no_operation op_id))
     | Some op \<Rightarrow>
         if restore_is_terminal (ro_state op) then ret AlreadyDone
         else (case ro_marker op of
             None \<Rightarrow> throw (re_internal (no_marker op_id))
           | Some marker \<Rightarrow>
               bindR (cloud_call (probe marker)) (\<lambda>existing.
               bindR (recover_moves op_id (ro_state op) existing now) (\<lambda>_.
               case existing of
                 Some new_id \<Rightarrow>
                   bindR (commit op_id now ''reconciled: found by marker'' new_id) (\<lambda>_. ret Reconciled)
               | None \<Rightarrow>
                   bindR (cloud_call (create marker payload)) (\<lambda>new_id.
                   bindR (commit op_id now ''created on recovery'' new_id) (\<lambda>_. ret Created))))))"

section \<open>The idempotent flow of the five services\<close>

text \<open>The services have the same flow with their own name in the ledger row.\<close>

definition finish_restore ::
  "string \<Rightarrow> 'c sink_create \<Rightarrow> 'c sink_find \<Rightarrow> string \<Rightarrow> string \<Rightarrow> string \<Rightarrow> string \<Rightarrow> string \<Rightarrow> bytes \<Rightarrow> int
     \<Rightarrow> (string, 'c) prog" where
  "finish_restore service create probe op_id account source_id key marker payload now =
     bindR (db_get (get_restore_operation op_id)) (\<lambda>found.
     case found of
       Some op \<Rightarrow>
         if ro_state op = Committed
         then (case ro_new_cloud_id op of
                 None \<Rightarrow> throw (re_internal ''committed operation has no cloud id'')
               | Some new_id \<Rightarrow> ret new_id)
         else
           bindR (recover_restore_op create probe op_id payload now) (\<lambda>_.
           bindR (db_get (get_restore_operation op_id)) (\<lambda>after.
           case Option.bind after ro_new_cloud_id of
             None \<Rightarrow> throw (re_internal ''recovery did not record a cloud id'')
           | Some new_id \<Rightarrow> ret new_id))
     | None \<Rightarrow>
         bindR (db_write (create_restore_operation op_id account service source_id key now)) (\<lambda>_.
         bindR (run_restore_op create op_id marker payload now) (\<lambda>r. ret (fst r))))"

definition finish_mail_restore ::
  "'c sink_create \<Rightarrow> 'c sink_find \<Rightarrow> string \<Rightarrow> string \<Rightarrow> string \<Rightarrow> string \<Rightarrow> string \<Rightarrow> bytes \<Rightarrow> int
     \<Rightarrow> (string, 'c) prog" where
  "finish_mail_restore = finish_restore ''mail''"

definition finish_calendar_restore ::
  "'c sink_create \<Rightarrow> 'c sink_find \<Rightarrow> string \<Rightarrow> string \<Rightarrow> string \<Rightarrow> string \<Rightarrow> string \<Rightarrow> bytes \<Rightarrow> int
     \<Rightarrow> (string, 'c) prog" where
  "finish_calendar_restore = finish_restore ''calendar''"

definition finish_contacts_restore ::
  "'c sink_create \<Rightarrow> 'c sink_find \<Rightarrow> string \<Rightarrow> string \<Rightarrow> string \<Rightarrow> string \<Rightarrow> string \<Rightarrow> bytes \<Rightarrow> int
     \<Rightarrow> (string, 'c) prog" where
  "finish_contacts_restore = finish_restore ''contacts''"

definition finish_todo_restore ::
  "'c sink_create \<Rightarrow> 'c sink_find \<Rightarrow> string \<Rightarrow> string \<Rightarrow> string \<Rightarrow> string \<Rightarrow> string \<Rightarrow> bytes \<Rightarrow> int
     \<Rightarrow> (string, 'c) prog" where
  "finish_todo_restore = finish_restore ''todo''"

definition finish_onenote_restore ::
  "'c sink_create \<Rightarrow> 'c sink_find \<Rightarrow> string \<Rightarrow> string \<Rightarrow> string \<Rightarrow> string \<Rightarrow> string \<Rightarrow> bytes \<Rightarrow> int
     \<Rightarrow> (string, 'c) prog" where
  "finish_onenote_restore = finish_restore ''onenote''"

section \<open>Boot recovery\<close>

type_synonym 'c sink = "'c sink_create \<times> 'c sink_find"

text \<open>The loop over the pending operations of one service. \<open>prep\<close> reads the archived body of an item
  and builds its sink; an operation that fails is counted and the loop goes on.\<close>

fun recover_loop ::
  "(string \<Rightarrow> string + 'c sink \<times> bytes) \<Rightarrow> int \<Rightarrow> RestoreOperation list \<Rightarrow> nat \<Rightarrow> nat
     \<Rightarrow> (nat \<times> nat, 'c) prog" where
  "recover_loop prep now [] ok failed n w = (Done (Inr (ok, failed)), n, w)"
| "recover_loop prep now (op # ops) ok failed n w =
     (case prep (ro_source_item_id op) of
        Inl e \<Rightarrow> recover_loop prep now ops ok (Suc failed) n w
      | Inr ((create, probe), payload) \<Rightarrow>
          (case recover_restore_op create probe (ro_op_id op) payload now n w of
             (Done (Inr x), n', w') \<Rightarrow> recover_loop prep now ops (Suc ok) failed n' w'
           | (Done (Inl e), n', w') \<Rightarrow> recover_loop prep now ops ok (Suc failed) n' w'
           | (Crashed, n', w') \<Rightarrow> (Crashed, n', w')))"

definition recover_pending_restores_with ::
  "string \<Rightarrow> (string \<Rightarrow> string + 'c sink \<times> bytes) \<Rightarrow> string \<Rightarrow> int \<Rightarrow> (nat \<times> nat, 'c) prog" where
  "recover_pending_restores_with service prep account now =
     bindR (db_get (recoverable_restore_operations account)) (\<lambda>ops.
     recover_loop prep now (filter (\<lambda>op. ro_service op = service) ops) 0 0)"

text \<open>Reading the archived body through the item index; \<open>fs\<close> is the file system under the archive root.\<close>

definition archived_bytes ::
  "(string \<Rightarrow> string + bytes) \<Rightarrow> item_db \<Rightarrow> string \<Rightarrow> string \<Rightarrow> string \<Rightarrow> string + Item \<times> bytes" where
  "archived_bytes fs items account service source_id =
     (case get_item account service source_id items of
        None \<Rightarrow> Inl (''no archived '' @ service @ '' item '' @ [CHR 0x27] @ source_id @ [CHR 0x27])
      | Some item \<Rightarrow>
          (case it_local_path item of
             None \<Rightarrow> Inl (''item '' @ [CHR 0x27] @ source_id @ [CHR 0x27] @ '' has no archived body'')
           | Some rel \<Rightarrow> (case fs rel of Inl e \<Rightarrow> Inl e | Inr payload \<Rightarrow> Inr (item, payload))))"

definition archived_mail_bytes ::
  "(string \<Rightarrow> string + bytes) \<Rightarrow> item_db \<Rightarrow> string \<Rightarrow> string \<Rightarrow> string + bytes" where
  "archived_mail_bytes fs items account source_id =
     map_sum id snd (archived_bytes fs items account ''mail'' source_id)"

definition archived_calendar_bytes ::
  "(string \<Rightarrow> string + bytes) \<Rightarrow> item_db \<Rightarrow> string \<Rightarrow> string \<Rightarrow> string + bytes" where
  "archived_calendar_bytes fs items account source_id =
     map_sum id snd (archived_bytes fs items account ''calendar'' source_id)"

definition archived_contact_bytes ::
  "(string \<Rightarrow> string + bytes) \<Rightarrow> item_db \<Rightarrow> string \<Rightarrow> string \<Rightarrow> string + bytes" where
  "archived_contact_bytes fs items account source_id =
     map_sum id snd (archived_bytes fs items account ''contacts'' source_id)"

definition recover_pending_mail_restores_with ::
  "(string \<Rightarrow> string + bytes) \<Rightarrow> item_db \<Rightarrow> 'c sink \<Rightarrow> string \<Rightarrow> int \<Rightarrow> (nat \<times> nat, 'c) prog" where
  "recover_pending_mail_restores_with fs items sink account now =
     recover_pending_restores_with ''mail''
       (\<lambda>src. map_sum id (Pair sink) (archived_mail_bytes fs items account src)) account now"

definition recover_pending_calendar_restores_with ::
  "(string \<Rightarrow> string + bytes) \<Rightarrow> item_db \<Rightarrow> 'c sink \<Rightarrow> string \<Rightarrow> int \<Rightarrow> (nat \<times> nat, 'c) prog" where
  "recover_pending_calendar_restores_with fs items sink account now =
     recover_pending_restores_with ''calendar''
       (\<lambda>src. map_sum id (Pair sink) (archived_calendar_bytes fs items account src)) account now"

definition recover_pending_contacts_restores_with ::
  "(string \<Rightarrow> string + bytes) \<Rightarrow> item_db \<Rightarrow> 'c sink \<Rightarrow> string \<Rightarrow> int \<Rightarrow> (nat \<times> nat, 'c) prog" where
  "recover_pending_contacts_restores_with fs items sink account now =
     recover_pending_restores_with ''contacts''
       (\<lambda>src. map_sum id (Pair sink) (archived_contact_bytes fs items account src)) account now"

text \<open>A task is restored into the list it came from: the sink is made for the item's parent list.\<close>

definition list_id_of :: "Item \<Rightarrow> string + string" where
  "list_id_of item =
     (case it_parent_remote_id item of
        None \<Rightarrow> Inl (''todo item '' @ [CHR 0x27] @ it_remote_id item @ [CHR 0x27] @ '' has no parent list id'')
      | Some list \<Rightarrow> Inr list)"

definition archived_todo ::
  "(string \<Rightarrow> string + bytes) \<Rightarrow> item_db \<Rightarrow> string \<Rightarrow> string \<Rightarrow> string + string \<times> bytes" where
  "archived_todo fs items account source_id =
     (case get_item account ''todo'' source_id items of
        None \<Rightarrow> Inl (''no archived todo item '' @ [CHR 0x27] @ source_id @ [CHR 0x27])
      | Some item \<Rightarrow>
          (case list_id_of item of
             Inl e \<Rightarrow> Inl e
           | Inr list \<Rightarrow>
               (case it_local_path item of
                  None \<Rightarrow> Inl (''item '' @ [CHR 0x27] @ source_id @ [CHR 0x27] @ '' has no archived body'')
                | Some rel \<Rightarrow> (case fs rel of Inl e \<Rightarrow> Inl e | Inr payload \<Rightarrow> Inr (list, payload)))))"

definition recover_pending_todo_restores_with ::
  "(string \<Rightarrow> string + bytes) \<Rightarrow> item_db \<Rightarrow> (string \<Rightarrow> 'c sink) \<Rightarrow> string \<Rightarrow> int \<Rightarrow> (nat \<times> nat, 'c) prog" where
  "recover_pending_todo_restores_with fs items sink_for account now =
     recover_pending_restores_with ''todo''
       (\<lambda>src. map_sum id (\<lambda>(list, payload). (sink_for list, payload)) (archived_todo fs items account src))
       account now"

definition pending_restore_count :: "string \<Rightarrow> string \<Rightarrow> restore_db \<Rightarrow> StoreError + nat" where
  "pending_restore_count service account db =
     map_sum id (\<lambda>ops. length (filter (\<lambda>op. ro_service op = service) ops))
       (recoverable_restore_operations account db)"

section \<open>Keys and markers\<close>

definition mail_marker :: "string \<Rightarrow> string" where
  "mail_marker key = ''<isyncyou-'' @ key @ ''@restore.invalid>''"

definition calendar_marker :: "string \<Rightarrow> string" where
  "calendar_marker key = ''isyncyou-restore-'' @ key"

definition contact_marker :: "string \<Rightarrow> string" where
  "contact_marker key = ''isyncyou-restore-'' @ key"

definition todo_marker :: "string \<Rightarrow> string" where
  "todo_marker key = ''isyncyou-restore-'' @ key"

definition onenote_marker :: "string \<Rightarrow> string" where
  "onenote_marker key = ''isyncyou-restore-'' @ key"

section \<open>Concrete clouds\<close>

text \<open>The calendar sink has no probe: it always answers that it found nothing.\<close>

definition calendar_probe :: "'c sink_find" where
  "calendar_probe marker c = (Inr None, c)"

text \<open>The clouds of the unit tests: items with their marker and id. \<open>fk_faults\<close> says of the next creates
  whether the connection drops after the item was stored or before the request arrives; in
  \<open>dedup_create\<close> the server answers a known marker with the item it has.\<close>

datatype fault = LostResponse | NeverArrived

record fake_cloud =
  fk_items :: "(string \<times> string) list"
  fk_seq :: nat
  fk_faults :: "fault option list"

definition fake_id :: "nat \<Rightarrow> string" where
  "fake_id n = ''cloud-'' @ show_nat n"

definition fake_store :: "string \<Rightarrow> fake_cloud \<Rightarrow> fake_cloud" where
  "fake_store marker c = c\<lparr>fk_items := fk_items c @ [(marker, fake_id (Suc (fk_seq c)))],
     fk_seq := Suc (fk_seq c)\<rparr>"

definition fake_create :: "fake_cloud sink_create" where
  "fake_create marker payload c =
     (case fk_faults c of
        Some NeverArrived # fs \<Rightarrow>
          (Inl (re_internal ''network failed before reaching Graph''), c\<lparr>fk_faults := fs\<rparr>)
      | Some LostResponse # fs \<Rightarrow>
          (Inl (re_internal ''network dropped after create''), fake_store marker (c\<lparr>fk_faults := fs\<rparr>))
      | _ \<Rightarrow> (Inr (fake_id (Suc (fk_seq c))), fake_store marker (c\<lparr>fk_faults := tl (fk_faults c)\<rparr>)))"

definition fake_probe :: "fake_cloud sink_find" where
  "fake_probe marker c = (Inr (map_option snd (List.find (\<lambda>x. fst x = marker) (fk_items c))), c)"

definition fake_count :: "string \<Rightarrow> fake_cloud \<Rightarrow> nat" where
  "fake_count marker c = length (filter (\<lambda>x. fst x = marker) (fk_items c))"

definition dedup_create :: "fake_cloud sink_create" where
  "dedup_create marker payload c =
     (case (fk_faults c, List.find (\<lambda>x. fst x = marker) (fk_items c)) of
        (Some NeverArrived # fs, _) \<Rightarrow>
          (Inl (re_internal ''network failed before reaching Graph''), c\<lparr>fk_faults := fs\<rparr>)
      | (Some LostResponse # fs, Some x) \<Rightarrow>
          (Inl (re_internal ''network dropped after create''), c\<lparr>fk_faults := fs\<rparr>)
      | (Some LostResponse # fs, None) \<Rightarrow>
          (Inl (re_internal ''network dropped after create''), fake_store marker (c\<lparr>fk_faults := fs\<rparr>))
      | (_, Some x) \<Rightarrow> (Inr (snd x), c\<lparr>fk_faults := tl (fk_faults c)\<rparr>)
      | (_, None) \<Rightarrow> (Inr (fake_id (Suc (fk_seq c))), fake_store marker (c\<lparr>fk_faults := tl (fk_faults c)\<rparr>)))"

text \<open>The cloud of \<^verbatim>\<open>restore_recovery.rs\<close>, which never fails.\<close>

definition plain_create :: "fake_cloud sink_create" where
  "plain_create marker payload c = (Inr (fake_id (Suc (fk_seq c))), fake_store marker c)"

definition no_cloud :: "fault option list \<Rightarrow> fake_cloud" where
  "no_cloud fs = \<lparr>fk_items = [], fk_seq = 0, fk_faults = fs\<rparr>"

section \<open>Attempts\<close>

text \<open>What happens to one account over time: restores of items (keyed by their content key, with the
  source id, the payload and the time) and boot recoveries, each with its budget of effects, in any
  order.\<close>

datatype attempt = Restore string string bytes int nat | Boot int nat

fun mail_attempt ::
  "'c sink \<Rightarrow> (string \<Rightarrow> string + bytes) \<Rightarrow> item_db \<Rightarrow> string \<Rightarrow> attempt \<Rightarrow> 'c world \<Rightarrow> 'c world" where
  "mail_attempt (create, probe) fs items account (Restore key src payload now n) w =
     snd (snd (finish_mail_restore create probe (restore_op_id account key) account src key
       (mail_marker key) payload now n w))"
| "mail_attempt sink fs items account (Boot now n) w =
     snd (snd (recover_pending_mail_restores_with fs items sink account now n w))"

fun calendar_attempt ::
  "'c sink \<Rightarrow> (string \<Rightarrow> string + bytes) \<Rightarrow> item_db \<Rightarrow> string \<Rightarrow> attempt \<Rightarrow> 'c world \<Rightarrow> 'c world" where
  "calendar_attempt (create, probe) fs items account (Restore key src payload now n) w =
     snd (snd (finish_calendar_restore create probe (restore_op_id account key) account src key
       (calendar_marker key) payload now n w))"
| "calendar_attempt sink fs items account (Boot now n) w =
     snd (snd (recover_pending_calendar_restores_with fs items sink account now n w))"

abbreviation fresh_world :: "'c \<Rightarrow> 'c world" where
  "fresh_world c \<equiv> \<lparr>w_db = empty_ledger, w_cloud = c\<rparr>"

section \<open>What the invariant says\<close>

text \<open>How many items with the marker of an operation the cloud may hold, by the state of its row.\<close>

fun state_ok :: "RestoreState \<Rightarrow> nat \<Rightarrow> bool" where
  "state_ok Pending n = (n = 0)"
| "state_ok PreflightChecked n = (n = 0)"
| "state_ok Cancelled n = (n = 0)"
| "state_ok Committing n = (n \<le> 1)"
| "state_ok FailedAfterGraphCommit n = (n \<le> 1)"
| "state_ok Committed n = (n = 1)"

definition row_ok :: "string \<Rightarrow> nat \<Rightarrow> restore_row \<Rightarrow> bool" where
  "row_ok marker n r \<longleftrightarrow> (\<exists>st. ro_state r = restore_as_str st \<and> state_ok st n
     \<and> (st \<in> {PreflightChecked, Committing, FailedAfterGraphCommit} \<longrightarrow> ro_marker r = Some marker)
     \<and> (st = Pending \<longrightarrow> ro_marker r = None)
     \<and> (ro_new_cloud_id r \<noteq> None \<longleftrightarrow> st = Committed))"

definition key_ok ::
  "string \<Rightarrow> (string \<Rightarrow> string) \<Rightarrow> (string \<Rightarrow> 'c \<Rightarrow> nat) \<Rightarrow> restore_db \<Rightarrow> 'c \<Rightarrow> string \<Rightarrow> bool" where
  "key_ok account mk cnt db c k = (case op_row (restore_op_id account k) db of
      None \<Rightarrow> cnt (mk k) c = 0
    | Some r \<Rightarrow> row_ok (mk k) (cnt (mk k) c) r)"

definition restore_inv ::
  "string \<Rightarrow> string \<Rightarrow> (string \<Rightarrow> string) \<Rightarrow> string set \<Rightarrow> (string \<Rightarrow> 'c \<Rightarrow> nat) \<Rightarrow> 'c world \<Rightarrow> bool" where
  "restore_inv account service mk keys cnt w \<longleftrightarrow>
     ledger_ok (w_db w)
     \<and> (\<forall>k \<in> keys. key_ok account mk cnt (w_db w) (w_cloud w) k)
     \<and> (\<forall>r \<in> set (restore_operations (w_db w)). ro_account_id r = account
          \<longrightarrow> ro_op_id r = restore_op_id account (ro_idempotency_key r)
            \<and> (ro_service r = service \<longrightarrow> ro_idempotency_key r \<in> keys))"

text \<open>A program from \<open>P\<close> to \<open>Q\<close> that keeps \<open>I\<close> wherever it stops, by a crash or by an error too.\<close>

definition triple ::
  "('c world \<Rightarrow> bool) \<Rightarrow> ('c world \<Rightarrow> bool) \<Rightarrow> ('a, 'c) prog \<Rightarrow> ('a \<Rightarrow> 'c world \<Rightarrow> bool) \<Rightarrow> bool" where
  "triple I P p Q \<longleftrightarrow> (\<forall>n w. P w \<longrightarrow> (case p n w of
      (Done (Inr x), n', w') \<Rightarrow> I w' \<and> Q x w'
    | (Done (Inl e), n', w') \<Rightarrow> I w'
    | (Crashed, n', w') \<Rightarrow> I w'))"

text \<open>States are compared as states, not as their text.\<close>

declare restore_as_str.simps [simp del]

lemma map_restore_op_service:
  "map_restore_op r = Inr op \<Longrightarrow> ro_service op = ro_service r \<and> ro_source_item_id op = ro_source_item_id r"
  by (auto simp: map_restore_op_def split: option.splits)

section \<open>Rules\<close>

lemma triple_ret: "(\<And>w. P w \<Longrightarrow> I w \<and> Q x w) \<Longrightarrow> triple I P (ret x) Q"
  by (simp add: triple_def ret_def)

lemma triple_throw: "(\<And>w. P w \<Longrightarrow> I w) \<Longrightarrow> triple I P (throw e) Q"
  by (simp add: triple_def throw_def)

lemma triple_bind:
  assumes "triple I P p Q" and "\<And>x. triple I (Q x) (f x) R"
  shows "triple I P (bindR p f) R"
  unfolding triple_def
proof (intro allI impI)
  fix n w
  assume "P w"
  obtain r n' w' where p: "p n w = (r, n', w')" by (cases "p n w") auto
  from \<open>P w\<close> assms(1) have run: "case p n w of (Done (Inr x), n', w') \<Rightarrow> I w' \<and> Q x w'
      | (Done (Inl e), n', w') \<Rightarrow> I w' | (Crashed, n', w') \<Rightarrow> I w'" by (simp add: triple_def)
  show "case bindR p f n w of (Done (Inr x), n', w') \<Rightarrow> I w' \<and> R x w'
      | (Done (Inl e), n', w') \<Rightarrow> I w' | (Crashed, n', w') \<Rightarrow> I w'"
  proof (cases r)
    case Crashed
    with run p show ?thesis by (simp add: bindR_def)
  next
    case (Done res)
    show ?thesis
    proof (cases res)
      case (Inl e)
      with Done run p show ?thesis by (simp add: bindR_def)
    next
      case (Inr x)
      with Done run p have "Q x w'" by simp
      with assms(2) have "case f x n' w' of (Done (Inr x), n', w') \<Rightarrow> I w' \<and> R x w'
          | (Done (Inl e), n', w') \<Rightarrow> I w' | (Crashed, n', w') \<Rightarrow> I w'" by (simp add: triple_def)
      with Done Inr p show ?thesis by (simp add: bindR_def)
    qed
  qed
qed

lemma triple_pre: "triple I P p Q \<Longrightarrow> (\<And>w. P' w \<Longrightarrow> P w) \<Longrightarrow> triple I P' p Q"
  by (auto simp: triple_def)

lemma triple_run:
  assumes "triple I P q Q" and "P w"
  shows "I (snd (snd (q n w)))" and "fst (q n w) = Done (Inr x) \<Longrightarrow> Q x (snd (snd (q n w)))"
proof -
  from assms have "case q n w of (Done (Inr x), n', w') \<Rightarrow> I w' \<and> Q x w'
      | (Done (Inl e), n', w') \<Rightarrow> I w' | (Crashed, n', w') \<Rightarrow> I w'" by (simp add: triple_def)
  then show "I (snd (snd (q n w)))" and "fst (q n w) = Done (Inr x) \<Longrightarrow> Q x (snd (snd (q n w)))"
    by (cases "q n w"; auto split: outcome.splits sum.splits)+
qed

lemma triple_ex:
  assumes "\<And>x. x \<in> A \<Longrightarrow> triple I (P x) p Q"
  shows "triple I (\<lambda>w. \<exists>x \<in> A. P x w) p Q"
  unfolding triple_def
proof (intro allI impI)
  fix n w
  assume "\<exists>x \<in> A. P x w"
  then obtain x where "x \<in> A" "P x w" by blast
  with assms show "case p n w of (Done (Inr x), n', w') \<Rightarrow> I w' \<and> Q x w'
      | (Done (Inl e), n', w') \<Rightarrow> I w' | (Crashed, n', w') \<Rightarrow> I w'" by (simp add: triple_def)
qed

lemma triple_post:
  assumes "triple I P p Q" and "\<And>x w. I w \<Longrightarrow> Q x w \<Longrightarrow> Q' x w"
  shows "triple I P p Q'"
  unfolding triple_def
proof (intro allI impI)
  fix n w
  assume "P w"
  with assms(1) have "case p n w of (Done (Inr x), n', w') \<Rightarrow> I w' \<and> Q x w'
      | (Done (Inl e), n', w') \<Rightarrow> I w' | (Crashed, n', w') \<Rightarrow> I w'" by (simp add: triple_def)
  then show "case p n w of (Done (Inr x), n', w') \<Rightarrow> I w' \<and> Q' x w'
      | (Done (Inl e), n', w') \<Rightarrow> I w' | (Crashed, n', w') \<Rightarrow> I w'"
    using assms(2) by (auto split: prod.splits outcome.splits sum.splits)
qed

lemma triple_db_get:
  assumes "\<And>w x. P w \<Longrightarrow> f (w_db w) = Inr x \<Longrightarrow> Q x w" and "\<And>w. P w \<Longrightarrow> I w"
  shows "triple I P (db_get f) Q"
  unfolding triple_def
proof (intro allI impI)
  fix n w
  assume "P w"
  then show "case db_get f n w of (Done (Inr x), n', w') \<Rightarrow> I w' \<and> Q x w'
      | (Done (Inl e), n', w') \<Rightarrow> I w' | (Crashed, n', w') \<Rightarrow> I w'"
    using assms by (cases "f (w_db w)") (auto simp: db_get_def)
qed

lemma triple_db_write:
  assumes "\<And>w. P w \<Longrightarrow> I w"
    and "\<And>w e. P w \<Longrightarrow> fst (f (w_db w)) = Inl e \<Longrightarrow> I (w\<lparr>w_db := snd (f (w_db w))\<rparr>)"
    and "\<And>w x. P w \<Longrightarrow> fst (f (w_db w)) = Inr x \<Longrightarrow>
      I (w\<lparr>w_db := snd (f (w_db w))\<rparr>) \<and> Q x (w\<lparr>w_db := snd (f (w_db w))\<rparr>)"
  shows "triple I P (db_write f) Q"
  unfolding triple_def
proof (intro allI impI)
  fix n w
  assume "P w"
  then show "case db_write f n w of (Done (Inr x), n', w') \<Rightarrow> I w' \<and> Q x w'
      | (Done (Inl e), n', w') \<Rightarrow> I w' | (Crashed, n', w') \<Rightarrow> I w'"
    using assms [of w] by (cases n; cases "f (w_db w)"; cases "fst (f (w_db w))") (auto simp: db_write_def)
qed

lemma triple_cloud_call:
  assumes "\<And>w. P w \<Longrightarrow> I w"
    and "\<And>w e. P w \<Longrightarrow> fst (f (w_cloud w)) = Inl e \<Longrightarrow> I (w\<lparr>w_cloud := snd (f (w_cloud w))\<rparr>)"
    and "\<And>w x. P w \<Longrightarrow> fst (f (w_cloud w)) = Inr x \<Longrightarrow>
      I (w\<lparr>w_cloud := snd (f (w_cloud w))\<rparr>) \<and> Q x (w\<lparr>w_cloud := snd (f (w_cloud w))\<rparr>)"
  shows "triple I P (cloud_call f) Q"
  unfolding triple_def
proof (intro allI impI)
  fix n w
  assume "P w"
  then show "case cloud_call f n w of (Done (Inr x), n', w') \<Rightarrow> I w' \<and> Q x w'
      | (Done (Inl e), n', w') \<Rightarrow> I w' | (Crashed, n', w') \<Rightarrow> I w'"
    using assms [of w]
    by (cases n; cases "f (w_cloud w)"; cases "fst (f (w_cloud w))") (auto simp: cloud_call_def)
qed

section \<open>The cloud the engine relies on\<close>

text \<open>\<open>cnt m c\<close> is the number of items with marker \<open>m\<close>. A create adds at most one, also when it answers
  with an error; a probe changes nothing and what it finds is there.\<close>

locale cloud_sink =
  fixes create :: "'c sink_create" and probe :: "'c sink_find" and cnt :: "string \<Rightarrow> 'c \<Rightarrow> nat"
  assumes probe_cnt: "cnt m' (snd (probe m c)) = cnt m' c"
    and probe_hit: "fst (probe m c) = Inr (Some i) \<Longrightarrow> 1 \<le> cnt m c"
    and create_other: "m' \<noteq> m \<Longrightarrow> cnt m' (snd (create m p c)) = cnt m' c"
    and create_le: "cnt m (snd (create m p c)) \<le> Suc (cnt m c)"
    and create_ok: "fst (create m p c) = Inr i \<Longrightarrow> 1 \<le> cnt m (snd (create m p c))"

text \<open>What recovery needs: creating after a probe that found nothing leaves at most one item.\<close>

locale restore_sink = cloud_sink +
  assumes create_after_miss: "fst (probe m c) = Inr None \<Longrightarrow> cnt m c \<le> 1
      \<Longrightarrow> cnt m (snd (create m p (snd (probe m c)))) \<le> 1"

text \<open>Two kinds of service give it: a probe by marker that misses nothing (mail, contacts, tasks,
  notes), or a create which the server de-duplicates by marker (calendar).\<close>

locale probing_sink = cloud_sink +
  assumes probe_miss: "fst (probe m c) = Inr None \<Longrightarrow> cnt m c = 0"

sublocale probing_sink \<subseteq> restore_sink
  using create_le probe_miss probe_cnt by unfold_locales (metis One_nat_def)

context probing_sink
begin

lemma probing_restores: "restore_sink create probe cnt"
  by unfold_locales

end

locale dedup_sink = cloud_sink +
  assumes create_dedup: "1 \<le> cnt m c \<Longrightarrow> cnt m (snd (create m p c)) = cnt m c"

sublocale dedup_sink \<subseteq> restore_sink
proof unfold_locales
  fix m c p
  assume "cnt m c \<le> 1"
  then show "cnt m (snd (create m p (snd (probe m c)))) \<le> 1"
    using create_dedup [of m "snd (probe m c)" p] create_le [of m p "snd (probe m c)"] probe_cnt [of m m c]
    by (cases "cnt m c = 0") auto
qed

context dedup_sink
begin

lemma dedup_restores: "restore_sink create probe cnt"
  by unfold_locales

end

section \<open>One service\<close>

lemma restore_op_id_inject [simp]: "restore_op_id account k = restore_op_id account k' \<longleftrightarrow> k = k'"
  by (simp add: restore_op_id_def)

locale restore_service = restore_sink create probe cnt
  for create :: "'c sink_create" and probe :: "'c sink_find" and cnt :: "string \<Rightarrow> 'c \<Rightarrow> nat" +
  fixes account service :: string and mk :: "string \<Rightarrow> string" and keys :: "string set"
  assumes inj_mk: "inj mk"
begin

abbreviation oid :: "string \<Rightarrow> string" where
  "oid k \<equiv> restore_op_id account k"

abbreviation inv :: "'c world \<Rightarrow> bool" where
  "inv \<equiv> restore_inv account service mk keys cnt"

text \<open>The invariant, and the row of \<open>k\<close> in a state with a marker, and a fact on the cloud.\<close>

abbreviation at :: "string \<Rightarrow> RestoreState \<Rightarrow> string option \<Rightarrow> ('c \<Rightarrow> bool) \<Rightarrow> 'c world \<Rightarrow> bool" where
  "at k st m B w \<equiv> inv w \<and> B (w_cloud w) \<and> (\<exists>r. op_row (oid k) (w_db w) = Some r
     \<and> ro_state r = restore_as_str st \<and> ro_marker r = m)"

lemma mk_inject [simp]: "mk k = mk k' \<longleftrightarrow> k = k'"
  using inj_mk by (simp add: inj_eq)

lemma inv_key: "inv w \<Longrightarrow> j \<in> keys \<Longrightarrow> key_ok account mk cnt (w_db w) (w_cloud w) j"
  by (simp add: restore_inv_def)

lemma invI:
  assumes "ledger_ok (w_db w)" and "\<And>j. j \<in> keys \<Longrightarrow> key_ok account mk cnt (w_db w) (w_cloud w) j"
    and "\<And>r. r \<in> set (restore_operations (w_db w)) \<Longrightarrow> ro_account_id r = account
      \<Longrightarrow> ro_op_id r = oid (ro_idempotency_key r) \<and> (ro_service r = service \<longrightarrow> ro_idempotency_key r \<in> keys)"
  shows "inv w"
  using assms unfolding restore_inv_def by blast

lemma transition_keeps_inv:
  assumes k: "k \<in> keys" and inv: "inv w"
    and row: "op_row (oid k) (w_db w) = Some r" "ro_state r = restore_as_str st"
    and legal: "restore_can_transition_to st to"
    and state: "state_ok to (cnt (mk k) (w_cloud w))"
    and marker: "to \<in> {PreflightChecked, Committing, FailedAfterGraphCommit}
      \<Longrightarrow> coalesce m (ro_marker r) = Some (mk k)"
    and cid: "cid \<noteq> None \<longleftrightarrow> to = Committed"
  shows "inv (w\<lparr>w_db := snd (transition_restore (oid k) to now d cid m (w_db w))\<rparr>)"
proof -
  define db' where "db' = snd (transition_restore (oid k) to now d cid m (w_db w))"
  have ok: "ledger_ok (w_db w)" using inv by (simp add: restore_inv_def)
  have rows: "op_row i db' =
      map_option (\<lambda>r. if ro_op_id r = oid k then moved_row to now cid m r else r) (op_row i (w_db w))" for i
    unfolding db'_def using transition_restore_ok [OF row legal, of now d cid m]
    by (intro op_row_transition) simp
  have "restore_operations db' = sql_update (\<lambda>r. ro_op_id r = oid k) (moved_row to now cid m)
      (restore_operations (w_db w))"
    unfolding db'_def using transition_restore_ok [OF row legal, of now d cid m] by simp
  then have scope: "ro_op_id r' = oid (ro_idempotency_key r')
      \<and> (ro_service r' = service \<longrightarrow> ro_idempotency_key r' \<in> keys)"
    if "r' \<in> set (restore_operations db')" "ro_account_id r' = account" for r'
    using that inv by (auto simp: restore_inv_def set_sql_update split: if_splits)
  have row_k: "row_ok (mk k) (cnt (mk k) (w_cloud w)) r"
    using inv_key [OF inv k] row(1) by (simp add: key_ok_def)
  then have no_id: "ro_new_cloud_id r = None"
    using legal row(2) by (auto simp: row_ok_def)
  have new: "row_ok (mk k) (cnt (mk k) (w_cloud w)) (moved_row to now cid m r)"
    using state marker cid no_id legal unfolding row_ok_def by (intro exI [of _ to]) auto
  have "key_ok account mk cnt db' (w_cloud w) j" if "j \<in> keys" for j
  proof (cases "j = k")
    case True
    with new rows [of "oid k"] row row_by_SomeD [OF row(1)] show ?thesis by (simp add: key_ok_def)
  next
    case False
    then have "op_row (oid j) db' = op_row (oid j) (w_db w)"
      using rows [of "oid j"] by (cases "op_row (oid j) (w_db w)") (auto dest!: row_by_SomeD)
    with inv_key [OF inv that] show ?thesis by (simp add: key_ok_def)
  qed
  moreover have "ledger_ok db'" unfolding db'_def using ok by (rule transition_keeps_ledger_ok)
  ultimately show ?thesis using scope unfolding db'_def [symmetric] by (intro invI) simp_all
qed

lemma triple_transition:
  assumes "k \<in> keys" and "restore_can_transition_to st to"
    and "\<And>c. B c \<Longrightarrow> state_ok to (cnt (mk k) c)"
    and "to \<in> {PreflightChecked, Committing, FailedAfterGraphCommit} \<Longrightarrow> coalesce mm m = Some (mk k)"
    and "cid \<noteq> None \<longleftrightarrow> to = Committed"
  shows "triple inv (at k st m B) (db_write (transition_restore (oid k) to now d cid mm))
    (\<lambda>_ w. at k to (coalesce mm m) B w
       \<and> (\<forall>r. op_row (oid k) (w_db w) = Some r \<longrightarrow> cid = None \<or> ro_new_cloud_id r = cid))"
proof (rule triple_db_write)
  fix w
  assume at: "at k st m B w"
  then show "inv w" by simp
  from at obtain r where r: "op_row (oid k) (w_db w) = Some r" "ro_state r = restore_as_str st"
    "ro_marker r = m" by auto
  note ok = transition_restore_ok [OF r(1,2) assms(2), of now d cid mm]
  have inv': "inv (w\<lparr>w_db := snd (transition_restore (oid k) to now d cid mm (w_db w))\<rparr>)"
    using at r assms by (intro transition_keeps_inv [OF assms(1) _ r(1,2) assms(2)]) auto
  show "inv (w\<lparr>w_db := snd (transition_restore (oid k) to now d cid mm (w_db w))\<rparr>)"
    if "fst (transition_restore (oid k) to now d cid mm (w_db w)) = Inl e" for e
    using inv' .
  fix x
  assume x: "fst (transition_restore (oid k) to now d cid mm (w_db w)) = Inr x"
  have "op_row (oid k) (snd (transition_restore (oid k) to now d cid mm (w_db w)))
      = Some (moved_row to now cid mm r)"
    using op_row_transition [OF x, of "oid k"] r row_by_SomeD [OF r(1)] by simp
  then show "inv (w\<lparr>w_db := snd (transition_restore (oid k) to now d cid mm (w_db w))\<rparr>) \<and>
      at k to (coalesce mm m) B (w\<lparr>w_db := snd (transition_restore (oid k) to now d cid mm (w_db w))\<rparr>) \<and>
      (\<forall>r. op_row (oid k) (w_db (w\<lparr>w_db := snd (transition_restore (oid k) to now d cid mm (w_db w))\<rparr>)) = Some r
         \<longrightarrow> cid = None \<or> ro_new_cloud_id r = cid)"
    using at r inv' by (cases cid) auto
qed

text \<open>The cloud moves within what the state of the row allows.\<close>

lemma cloud_step_keeps_inv:
  assumes "k \<in> keys" and inv: "inv w" and row: "op_row (oid k) (w_db w) = Some r"
    and "row_ok (mk k) (cnt (mk k) c) r"
    and other: "\<And>m. m \<noteq> mk k \<Longrightarrow> cnt m c = cnt m (w_cloud w)"
  shows "inv (w\<lparr>w_cloud := c\<rparr>)"
proof -
  have "key_ok account mk cnt (w_db w) c j" if "j \<in> keys" for j
  proof (cases "j = k")
    case True
    with assms(4) row show ?thesis by (simp add: key_ok_def)
  next
    case False
    then have "cnt (mk j) c = cnt (mk j) (w_cloud w)" using other by simp
    with inv_key [OF inv that] show ?thesis by (simp add: key_ok_def split: option.splits)
  qed
  with inv show ?thesis by (intro invI) (auto simp: restore_inv_def)
qed

lemma inv_row_ok:
  "inv w \<Longrightarrow> k \<in> keys \<Longrightarrow> op_row (oid k) (w_db w) = Some r \<Longrightarrow> row_ok (mk k) (cnt (mk k) (w_cloud w)) r"
  using inv_key [of w k] by (simp add: key_ok_def)

lemma triple_create_operation:
  assumes "k \<in> keys"
  shows "triple inv (\<lambda>w. inv w \<and> op_row (oid k) (w_db w) = None)
    (db_write (create_restore_operation (oid k) account service src k now))
    (\<lambda>_. at k Pending None (\<lambda>c. cnt (mk k) c = 0))"
proof (rule triple_db_write)
  fix w
  assume w: "inv w \<and> op_row (oid k) (w_db w) = None"
  then show "inv w" by simp
  show "inv (w\<lparr>w_db := snd (create_restore_operation (oid k) account service src k now (w_db w))\<rparr>)"
    if "fst (create_restore_operation (oid k) account service src k now (w_db w)) = Inl e" for e
    using w that by (auto simp: create_restore_operation_def split: if_splits)
  fix x
  assume x: "fst (create_restore_operation (oid k) account service src k now (w_db w)) = Inr x"
  define db' where "db' = snd (create_restore_operation (oid k) account service src k now (w_db w))"
  obtain new where new: "restore_operations db' = restore_operations (w_db w) @ [new]"
    "ro_op_id new = oid k" "ro_state new = restore_as_str Pending" "ro_marker new = None"
    "ro_new_cloud_id new = None" "ro_idempotency_key new = k"
    using x by (auto simp: create_restore_operation_def db'_def restore_as_str.simps split: if_splits)
  have row: "op_row i db' = (if i = oid k then Some new else op_row i (w_db w))" for i
    using new w by (auto simp: row_by_append row_by_Cons split: option.split)
  have zero: "cnt (mk k) (w_cloud w) = 0"
    using w inv_key [of w k] assms by (simp add: key_ok_def)
  have "row_ok (mk k) 0 new"
    using new unfolding row_ok_def by (intro exI [of _ Pending]) simp
  then have "key_ok account mk cnt db' (w_cloud w) j" if "j \<in> keys" for j
    using w zero row [of "oid j"] inv_key [of w j] that by (cases "j = k") (auto simp: key_ok_def)
  moreover have "ledger_ok db'"
    using w unfolding db'_def by (intro create_keeps_ledger_ok) (simp add: restore_inv_def)
  moreover have "ro_op_id r = oid (ro_idempotency_key r)
      \<and> (ro_service r = service \<longrightarrow> ro_idempotency_key r \<in> keys)"
    if "r \<in> set (restore_operations db')" "ro_account_id r = account" for r
    using that w assms new by (auto simp: restore_inv_def)
  ultimately have "inv (w\<lparr>w_db := db'\<rparr>)" by (intro invI) simp_all
  then show "inv (w\<lparr>w_db := snd (create_restore_operation (oid k) account service src k now (w_db w))\<rparr>) \<and>
      at k Pending None (\<lambda>c. cnt (mk k) c = 0)
        (w\<lparr>w_db := snd (create_restore_operation (oid k) account service src k now (w_db w))\<rparr>)"
    using row [of "oid k"] new zero unfolding db'_def by simp
qed

lemma triple_post_call:
  assumes "k \<in> keys" and "\<And>c. B c \<Longrightarrow> cnt (mk k) (snd (create (mk k) p c)) \<le> 1"
  shows "triple inv (at k Committing (Some (mk k)) B) (cloud_call (create (mk k) p))
    (\<lambda>_. at k Committing (Some (mk k)) (\<lambda>c. cnt (mk k) c = 1))"
proof (rule triple_cloud_call)
  fix w
  assume at: "at k Committing (Some (mk k)) B w"
  then show "inv w" by simp
  from at obtain r where r: "op_row (oid k) (w_db w) = Some r" "ro_state r = restore_as_str Committing"
    "ro_marker r = Some (mk k)" by auto
  let ?c = "snd (create (mk k) p (w_cloud w))"
  have le: "cnt (mk k) ?c \<le> 1" using at assms(2) by simp
  have "row_ok (mk k) (cnt (mk k) ?c) r"
    using inv_row_ok [OF _ assms(1) r(1)] at r le by (auto simp: row_ok_def)
  then have inv': "inv (w\<lparr>w_cloud := ?c\<rparr>)"
    using at by (intro cloud_step_keeps_inv [OF assms(1) _ r(1)]) (auto simp: create_other)
  then show "inv (w\<lparr>w_cloud := ?c\<rparr>)" .
  show "inv (w\<lparr>w_cloud := ?c\<rparr>) \<and> at k Committing (Some (mk k)) (\<lambda>c. cnt (mk k) c = 1) (w\<lparr>w_cloud := ?c\<rparr>)"
    if "fst (create (mk k) p (w_cloud w)) = Inr x" for x
    using inv' le r create_ok [OF that] by simp
qed

text \<open>After the probe: what was found is the one item, and after a miss a create is safe.\<close>

definition probed :: "string \<Rightarrow> bytes \<Rightarrow> string option \<Rightarrow> 'c \<Rightarrow> bool" where
  "probed k p existing c \<longleftrightarrow> (case existing of
      Some i \<Rightarrow> cnt (mk k) c = 1
    | None \<Rightarrow> cnt (mk k) (snd (create (mk k) p c)) \<le> 1)"

lemma triple_probe:
  assumes "k \<in> keys" and st: "st \<in> {PreflightChecked, Committing, FailedAfterGraphCommit}"
  shows "triple inv (at k st (Some (mk k)) (\<lambda>_. True)) (cloud_call (probe (mk k)))
    (\<lambda>e. at k st (Some (mk k)) (\<lambda>c. probed k p e c \<and> state_ok st (cnt (mk k) c)))"
proof (rule triple_cloud_call)
  fix w
  assume at: "at k st (Some (mk k)) (\<lambda>_. True) w"
  then show "inv w" by simp
  from at obtain r where r: "op_row (oid k) (w_db w) = Some r" "ro_state r = restore_as_str st"
    "ro_marker r = Some (mk k)" by auto
  let ?c = "snd (probe (mk k) (w_cloud w))"
  have rok: "row_ok (mk k) (cnt (mk k) (w_cloud w)) r"
    using inv_row_ok [OF _ assms(1) r(1)] at by simp
  then have sok: "state_ok st (cnt (mk k) (w_cloud w))" using r(2) by (auto simp: row_ok_def)
  then have le: "cnt (mk k) (w_cloud w) \<le> 1" using st by auto
  have inv': "inv (w\<lparr>w_cloud := ?c\<rparr>)"
    using at rok by (intro cloud_step_keeps_inv [OF assms(1) _ r(1)]) (auto simp: probe_cnt)
  then show "inv (w\<lparr>w_cloud := ?c\<rparr>)" .
  fix x
  assume x: "fst (probe (mk k) (w_cloud w)) = Inr x"
  then have "probed k p x ?c"
    using le probe_hit [of "mk k" "w_cloud w"] create_after_miss [of "mk k" "w_cloud w" p]
    by (auto simp: probed_def probe_cnt split: option.split)
  with inv' r sok show "inv (w\<lparr>w_cloud := ?c\<rparr>)
      \<and> at k st (Some (mk k)) (\<lambda>c. probed k p x c \<and> state_ok st (cnt (mk k) c)) (w\<lparr>w_cloud := ?c\<rparr>)"
    by (simp add: probe_cnt)
qed

text \<open>The programs, from the triples of their effects.\<close>

definition committed :: "string \<Rightarrow> string \<Rightarrow> 'c world \<Rightarrow> bool" where
  "committed k i w \<longleftrightarrow> inv w \<and> (\<exists>r. op_row (oid k) (w_db w) = Some r
     \<and> ro_state r = restore_as_str Committed \<and> ro_new_cloud_id r = Some i)"

lemma triple_commit:
  assumes "k \<in> keys" and "st \<in> {Committing, FailedAfterGraphCommit}"
  shows "triple inv (at k st (Some (mk k)) (\<lambda>c. cnt (mk k) c = 1)) (commit (oid k) now d i)
    (\<lambda>_. committed k i)"
  unfolding commit_def committed_def
  by (rule triple_post [OF triple_transition [where B = "\<lambda>c. cnt (mk k) c = 1"]]) (use assms in auto)

lemma triple_tr:
  assumes "k \<in> keys" and "restore_can_transition_to st to" and "to \<in> {PreflightChecked, Committing}"
    and "\<And>c. B c \<Longrightarrow> state_ok to (cnt (mk k) c)"
  shows "triple inv (at k st (Some (mk k)) B) (tr (oid k) to now d) (\<lambda>_. at k to (Some (mk k)) B)"
  unfolding tr_def
  by (rule triple_post [OF triple_transition [where B = B and m = "Some (mk k)"]]) (use assms in auto)

lemma triple_preflight:
  assumes "k \<in> keys"
  shows "triple inv (at k Pending None (\<lambda>c. cnt (mk k) c = 0))
      (tr_marker (oid k) PreflightChecked now d (Some (mk k)))
      (\<lambda>_. at k PreflightChecked (Some (mk k)) (\<lambda>c. cnt (mk k) c = 0))"
  unfolding tr_marker_def
  by (rule triple_post [OF triple_transition [where B = "\<lambda>c. cnt (mk k) c = 0" and m = None]]) (use assms in auto)

lemma triple_committing:
  assumes "k \<in> keys"
  shows "triple inv (at k PreflightChecked (Some (mk k)) (\<lambda>c. cnt (mk k) c = 0))
      (tr (oid k) Committing now d) (\<lambda>_. at k Committing (Some (mk k)) (\<lambda>c. cnt (mk k) c = 0))"
  using assms by (intro triple_tr) simp_all

lemma triple_first_post:
  assumes "k \<in> keys"
  shows "triple inv (at k Committing (Some (mk k)) (\<lambda>c. cnt (mk k) c = 0)) (cloud_call (create (mk k) p))
      (\<lambda>_. at k Committing (Some (mk k)) (\<lambda>c. cnt (mk k) c = 1))"
  using assms by (intro triple_post_call) (use create_le [of "mk k" p] in \<open>auto intro: order_trans\<close>)

lemma triple_run_restore_op:
  assumes k: "k \<in> keys"
  shows "triple inv (at k Pending None (\<lambda>c. cnt (mk k) c = 0)) (run_restore_op create (oid k) (mk k) p now)
    (\<lambda>x. committed k (fst x))"
  unfolding run_restore_op_def
  by (rule triple_bind [OF triple_preflight [OF k]], rule triple_bind [OF triple_committing [OF k]],
      rule triple_bind [OF triple_first_post [OF k]], rule triple_bind [OF triple_commit [OF k]], simp,
      rule triple_ret) (simp add: committed_def)

text \<open>The row is where the rest of recovery can go on: in \<^verbatim>\<open>committing\<close>, or with a found item also in
  \<^verbatim>\<open>failed_after_graph_commit\<close>.\<close>

definition ready :: "string \<Rightarrow> bytes \<Rightarrow> string option \<Rightarrow> 'c world \<Rightarrow> bool" where
  "ready k p e w \<longleftrightarrow> (\<exists>st \<in> {Committing, FailedAfterGraphCommit}. (e = None \<longrightarrow> st = Committing)
     \<and> at k st (Some (mk k)) (probed k p e) w)"

lemma triple_recover_moves:
  assumes k: "k \<in> keys" and st: "st \<in> {PreflightChecked, Committing, FailedAfterGraphCommit}"
  shows "triple inv (at k st (Some (mk k)) (\<lambda>c. probed k p e c \<and> state_ok st (cnt (mk k) c)))
    (recover_moves (oid k) st e now) (\<lambda>_. ready k p e)"
proof (cases "st = Committing \<or> (st = FailedAfterGraphCommit \<and> e \<noteq> None)")
  case True
  then have eq: "recover_moves (oid k) st e now = (ret () :: (unit, 'c) prog)" by (auto simp: recover_moves_def)
  show ?thesis unfolding eq by (rule triple_ret) (use True in \<open>auto simp: ready_def\<close>)
next
  case False
  with st obtain d where d: "recover_moves (oid k) st e now = (tr (oid k) Committing now d :: (unit, 'c) prog)"
    and "restore_can_transition_to st Committing"
    by (auto simp: recover_moves_def)
  moreover have "state_ok st n \<Longrightarrow> state_ok Committing n" for n using st by auto
  ultimately have "triple inv (at k st (Some (mk k)) (\<lambda>c. probed k p e c \<and> state_ok st (cnt (mk k) c)))
      (tr (oid k) Committing now d)
      (\<lambda>_. at k Committing (Some (mk k)) (\<lambda>c. probed k p e c \<and> state_ok st (cnt (mk k) c)))"
    using k by (intro triple_tr) auto
  then show ?thesis unfolding d by (rule triple_post) (auto simp: ready_def)
qed

lemma triple_reconcile:
  assumes "k \<in> keys"
  shows "triple inv (ready k p (Some i)) (commit (oid k) now d i) (\<lambda>_. committed k i)"
proof -
  have "triple inv (at k st (Some (mk k)) (\<lambda>c. cnt (mk k) c = 1)) (commit (oid k) now d i)
      (\<lambda>_. committed k i)" if "st \<in> {Committing, FailedAfterGraphCommit}" for st
    using assms that by (intro triple_commit)
  then have "triple inv (\<lambda>w. \<exists>st \<in> {Committing, FailedAfterGraphCommit}.
      at k st (Some (mk k)) (\<lambda>c. cnt (mk k) c = 1) w) (commit (oid k) now d i) (\<lambda>_. committed k i)"
    by (rule triple_ex)
  then show ?thesis by (rule triple_pre) (auto simp: ready_def probed_def)
qed

lemma triple_safe_post:
  assumes "k \<in> keys"
  shows "triple inv (ready k p None) (cloud_call (create (mk k) p))
      (\<lambda>_. at k Committing (Some (mk k)) (\<lambda>c. cnt (mk k) c = 1))"
  by (rule triple_pre [OF triple_post_call [OF assms, of "probed k p None"]])
    (auto simp: ready_def probed_def)

lemma triple_recreate:
  assumes "k \<in> keys"
  shows "triple inv (ready k p None)
    (bindR (cloud_call (create (mk k) p)) (\<lambda>i. bindR (commit (oid k) now d i) (\<lambda>_. ret Created)))
    (\<lambda>_ w. \<exists>i. committed k i w)"
  by (rule triple_bind [OF triple_safe_post [OF assms]],
      intro triple_bind [OF triple_commit [OF assms]] triple_ret) (auto simp: committed_def)

text \<open>\<^verbatim>\<open>recover_restore_op\<close> ends in a terminal state; \<^verbatim>\<open>finish_*_restore\<close> returns only the id of a
  committed operation.\<close>

definition settled :: "string \<Rightarrow> 'c world \<Rightarrow> bool" where
  "settled k w \<longleftrightarrow> inv w \<and> (\<exists>r st. op_row (oid k) (w_db w) = Some r \<and> ro_state r = restore_as_str st
     \<and> restore_is_terminal st)"

abbreviation found_op :: "string \<Rightarrow> RestoreOperation \<Rightarrow> 'c world \<Rightarrow> bool" where
  "found_op k op w \<equiv> inv w \<and> (\<exists>r. op_row (oid k) (w_db w) = Some r \<and> map_restore_op r = Inr op)"

lemma triple_get:
  "triple inv inv (db_get (get_restore_operation (oid k)))
    (\<lambda>found w. case found of None \<Rightarrow> inv w \<and> op_row (oid k) (w_db w) = None | Some op \<Rightarrow> found_op k op w)"
proof (rule triple_db_get)
  fix w found
  assume "inv w" "get_restore_operation (oid k) (w_db w) = Inr found"
  then show "case found of None \<Rightarrow> inv w \<and> op_row (oid k) (w_db w) = None | Some op \<Rightarrow> found_op k op w"
    by (auto simp: get_restore_operation_def split: option.splits sum.splits)
qed

lemma found_op_marker:
  assumes "found_op k op w" and "k \<in> keys" and "ro_marker op = Some m" and "\<not> restore_is_terminal (ro_state op)"
  shows "m = mk k \<and> ro_state op \<in> {PreflightChecked, Committing, FailedAfterGraphCommit}
    \<and> at k (ro_state op) (Some (mk k)) (\<lambda>_. True) w"
proof -
  from assms(1) obtain r where r: "op_row (oid k) (w_db w) = Some r" "map_restore_op r = Inr op" by blast
  have rok: "row_ok (mk k) (cnt (mk k) (w_cloud w)) r" using assms(1,2) r(1) by (auto intro: inv_row_ok)
  have st: "ro_state op \<in> {PreflightChecked, Committing, FailedAfterGraphCommit}"
    using assms(3,4) rok map_restore_op_fields(1,6) [OF r(2)]
    by (cases "ro_state op") (auto simp: restore_is_terminal_def row_ok_def)
  with r rok map_restore_op_fields(1,6) [OF r(2)] assms(1,3) show ?thesis by (auto simp: row_ok_def)
qed

lemma committed_settled: "committed k i w \<Longrightarrow> settled k w"
  by (auto simp: committed_def settled_def restore_is_terminal_def)

lemma triple_probe_found:
  assumes k: "k \<in> keys" and nt: "\<not> restore_is_terminal (ro_state op)" and m: "ro_marker op = Some m"
  shows "triple inv (found_op k op) (cloud_call (probe m))
      (\<lambda>e. at k (ro_state op) (Some (mk k)) (\<lambda>c. probed k p e c \<and> state_ok (ro_state op) (cnt (mk k) c)))"
proof (cases "m = mk k \<and> ro_state op \<in> {PreflightChecked, Committing, FailedAfterGraphCommit}")
  case True
  then have "triple inv (at k (ro_state op) (Some (mk k)) (\<lambda>_. True)) (cloud_call (probe m))
      (\<lambda>e. at k (ro_state op) (Some (mk k)) (\<lambda>c. probed k p e c \<and> state_ok (ro_state op) (cnt (mk k) c)))"
    using triple_probe [OF k, of "ro_state op" p] by blast
  then show ?thesis
    by (rule triple_pre) (rule found_op_marker [OF _ k m nt, THEN conjunct2, THEN conjunct2])
next
  case False
  then have "\<not> found_op k op w" for w
    using found_op_marker [OF _ k m nt] by blast
  then show ?thesis unfolding triple_def by blast
qed

lemma triple_recover_body:
  assumes k: "k \<in> keys" and "\<not> restore_is_terminal (ro_state op)" and "ro_marker op = Some m"
  shows "triple inv (found_op k op)
    (bindR (cloud_call (probe m)) (\<lambda>existing.
     bindR (recover_moves (oid k) (ro_state op) existing now) (\<lambda>_.
       case existing of
         Some new_id \<Rightarrow> bindR (commit (oid k) now d new_id) (\<lambda>_. ret Reconciled)
       | None \<Rightarrow> bindR (cloud_call (create m p)) (\<lambda>new_id. bindR (commit (oid k) now d' new_id) (\<lambda>_. ret Created)))))
    (\<lambda>_ w. \<exists>i. committed k i w)"
proof (cases "m = mk k \<and> ro_state op \<in> {PreflightChecked, Committing, FailedAfterGraphCommit}")
  case True
  have 2: "triple inv (ready k p e)
      (case e of
         Some new_id \<Rightarrow> bindR (commit (oid k) now d new_id) (\<lambda>_. ret Reconciled)
       | None \<Rightarrow> bindR (cloud_call (create m p)) (\<lambda>new_id. bindR (commit (oid k) now d' new_id) (\<lambda>_. ret Created)))
      (\<lambda>_ w. \<exists>i. committed k i w)" for e
  proof (cases e)
    case None
    have "triple inv (ready k p None)
      (bindR (cloud_call (create (mk k) p)) (\<lambda>i. bindR (commit (oid k) now d' i) (\<lambda>_. ret Created))) (\<lambda>_ w. \<exists>i. committed k i w)"
      by (rule triple_recreate [OF k])
    with True None show ?thesis by simp
  next
    case (Some i)
    have "triple inv (committed k i) (ret Reconciled) (\<lambda>_ w. \<exists>i. committed k i w)"
      by (rule triple_ret) (auto simp: committed_def)
    with Some show ?thesis by (simp add: triple_bind [OF triple_reconcile [OF k]])
  qed
  show ?thesis
    using True by (intro triple_bind [OF triple_probe_found [OF k assms(2,3), where p = p]] triple_bind [OF triple_recover_moves [OF k]] 2) auto
next
  case False
  then have "\<not> found_op k op w" for w
    using found_op_marker [OF _ k assms(3,2)] by blast
  then show ?thesis unfolding triple_def by blast
qed

lemma triple_recover_body_settled:
  assumes "k \<in> keys" and "\<not> restore_is_terminal (ro_state op)" and "ro_marker op = Some m"
  shows "triple inv (found_op k op)
    (bindR (cloud_call (probe m)) (\<lambda>existing.
     bindR (recover_moves (oid k) (ro_state op) existing now) (\<lambda>_.
       case existing of
         Some new_id \<Rightarrow> bindR (commit (oid k) now d new_id) (\<lambda>_. ret Reconciled)
       | None \<Rightarrow> bindR (cloud_call (create m p)) (\<lambda>new_id. bindR (commit (oid k) now d' new_id) (\<lambda>_. ret Created)))))
    (\<lambda>_. settled k)"
  by (rule triple_post [OF triple_recover_body [OF assms]]) (auto dest: committed_settled)

lemma triple_recover:
  assumes "k \<in> keys"
  shows "triple inv inv (recover_restore_op create probe (oid k) p now) (\<lambda>_. settled k)"
  unfolding recover_restore_op_def
proof (rule triple_bind [OF triple_get], goal_cases)
  case (1 found)
  show ?case
  proof (cases found)
    case None
    then show ?thesis by (auto intro!: triple_throw)
  next
    case (Some op)
    show ?thesis
    proof (cases "restore_is_terminal (ro_state op)")
      case True
      then have "settled k w" if "found_op k op w" for w
        using that map_restore_op_fields(1) unfolding settled_def by blast
      with True Some show ?thesis by (auto intro!: triple_ret)
    next
      case False
      then show ?thesis
        using Some triple_recover_body_settled [OF assms False]
        by (cases "ro_marker op") (auto intro!: triple_throw)
    qed
  qed
qed

lemma found_committed:
  assumes "found_op k op w" and "ro_state op = Committed" and "ro_new_cloud_id op = Some i"
  shows "committed k i w"
  using assms map_restore_op_fields(1,5) unfolding committed_def by metis

lemma settled_committed:
  assumes "settled k w" and "k \<in> keys" and "found_op k op w" and "ro_new_cloud_id op = Some i"
  shows "committed k i w"
proof -
  from assms(3) obtain r where r: "op_row (oid k) (w_db w) = Some r" "map_restore_op r = Inr op" by blast
  then have "ro_new_cloud_id r = Some i" using assms(4) map_restore_op_fields(5) by metis
  moreover have "row_ok (mk k) (cnt (mk k) (w_cloud w)) r" using assms(2,3) r(1) by (auto intro: inv_row_ok)
  ultimately show ?thesis using r(1) assms(3) by (auto simp: row_ok_def committed_def)
qed

lemma triple_get_settled:
  "triple inv (settled k) (db_get (get_restore_operation (oid k)))
    (\<lambda>found w. settled k w \<and> (\<forall>op. found = Some op \<longrightarrow> found_op k op w))"
  by (rule triple_db_get) (auto simp: settled_def get_restore_operation_def split: option.splits sum.splits)

lemma triple_finish:
  assumes k: "k \<in> keys"
  shows "triple inv inv (finish_restore service create probe (oid k) account src k (mk k) p now)
    (\<lambda>i. committed k i)"
  unfolding finish_restore_def
proof (rule triple_bind [OF triple_get], goal_cases)
  case (1 found)
  show ?case
  proof (cases found)
    case None
    have "triple inv (\<lambda>w. inv w \<and> op_row (oid k) (w_db w) = None)
      (bindR (db_write (create_restore_operation (oid k) account service src k now)) (\<lambda>_.
       bindR (run_restore_op create (oid k) (mk k) p now) (\<lambda>r. ret (fst r)))) (\<lambda>i. committed k i)"
      by (rule triple_bind [OF triple_create_operation [OF k]], rule triple_bind [OF triple_run_restore_op [OF k]],
          rule triple_ret) (simp add: committed_def)
    with None show ?thesis by simp
  next
    case (Some op)
    show ?thesis
    proof (cases "ro_state op = Committed")
      case True
      with Some found_committed show ?thesis
        by (cases "ro_new_cloud_id op") (auto intro!: triple_ret triple_throw)
    next
      case False
      have "triple inv (found_op k op)
        (bindR (recover_restore_op create probe (oid k) p now) (\<lambda>_.
         bindR (db_get (get_restore_operation (oid k))) (\<lambda>after.
           case Option.bind after ro_new_cloud_id of
             None \<Rightarrow> throw (re_internal ''recovery did not record a cloud id'')
           | Some new_id \<Rightarrow> ret new_id))) (\<lambda>i. committed k i)"
      proof (rule triple_bind [OF triple_pre [OF triple_recover [OF k]]], simp,
          rule triple_bind [OF triple_get_settled], goal_cases)
        case (1 _ after)
        show ?case
        proof (cases "Option.bind after ro_new_cloud_id")
          case None
          then show ?thesis by (auto simp: settled_def intro!: triple_throw)
        next
          case (Some i)
          then obtain op' where "after = Some op'" "ro_new_cloud_id op' = Some i"
            by (auto simp: Option.bind_eq_Some_conv)
          then show ?thesis using settled_committed [OF _ k]
            by (auto simp: settled_def intro!: triple_ret)
        qed
      qed
      with Some False show ?thesis by simp
    qed
  qed
qed

lemma recover_loop_keeps_inv:
  assumes "inv w" and "\<And>op. op \<in> set ops \<Longrightarrow> ro_op_id op \<in> restore_op_id account ` keys"
    and "\<And>src s. prep src = Inr s \<Longrightarrow> fst s = (create, probe)"
  shows "inv (snd (snd (recover_loop prep now ops ok failed n w)))"
  using assms(1,2)
proof (induction ops arbitrary: ok failed n w)
  case (Cons op ops)
  show ?case
  proof (cases "prep (ro_source_item_id op)")
    case (Inl e)
    with Cons show ?thesis by simp
  next
    case (Inr s)
    then obtain p where p: "prep (ro_source_item_id op) = Inr ((create, probe), p)"
      using assms(3) by (cases s) fastforce
    from Cons.prems(2) obtain k where k: "k \<in> keys" "ro_op_id op = restore_op_id account k" by fastforce
    have "inv (snd (snd (recover_restore_op create probe (ro_op_id op) p now n w)))"
      unfolding k(2) using triple_recover [OF k(1)] Cons.prems(1) by (rule triple_run)
    with p Cons show ?thesis
      by (cases "recover_restore_op create probe (ro_op_id op) p now n w")
        (auto split: outcome.split sum.split)
  qed
qed simp

lemma recover_pending_keeps_inv:
  assumes "inv w" and "\<And>src s. prep src = Inr s \<Longrightarrow> fst s = (create, probe)"
  shows "inv (snd (snd (recover_pending_restores_with service prep account now n w)))"
proof (cases "recoverable_restore_operations account (w_db w)")
  case (Inl e)
  with assms(1) show ?thesis by (simp add: recover_pending_restores_with_def bindR_def db_get_def)
next
  case (Inr ops)
  have ok: "ledger_ok (w_db w)" using assms(1) by (simp add: restore_inv_def)
  have "ro_op_id op \<in> restore_op_id account ` keys" if "op \<in> set ops" "ro_service op = service" for op
  proof -
    have "ro_account_id op = account" "get_restore_operation (ro_op_id op) (w_db w) = Inr (Some op)"
      using recoverable_ok [OF ok, of account] Inr that(1) by auto
    then obtain r where "op_row (ro_op_id op) (w_db w) = Some r" "map_restore_op r = Inr op"
      by (auto simp: get_restore_operation_Some_iff)
    with that(2) \<open>ro_account_id op = account\<close> assms(1) show ?thesis
      using map_restore_op_fields [of r op] map_restore_op_service [of r op] row_by_SomeD
      by (fastforce simp: restore_inv_def)
  qed
  then have "inv (snd (snd (recover_loop prep now (filter (\<lambda>op. ro_service op = service) ops) 0 0 n w)))"
    using assms by (intro recover_loop_keeps_inv) auto
  with Inr show ?thesis by (simp add: recover_pending_restores_with_def bindR_def db_get_def)
qed

lemma inv_fresh: "(\<And>m. cnt m c = 0) \<Longrightarrow> inv (fresh_world c)"
  by (simp add: restore_inv_def empty_ledger_ok key_ok_def) (simp add: empty_ledger_def)

lemma inv_le_1:
  assumes "inv w" and "k \<in> keys"
  shows "cnt (mk k) (w_cloud w) \<le> 1"
proof (cases "op_row (oid k) (w_db w)")
  case None
  with inv_key [OF assms] show ?thesis by (simp add: key_ok_def)
next
  case (Some r)
  from inv_row_ok [OF assms Some] obtain st where "state_ok st (cnt (mk k) (w_cloud w))"
    by (auto simp: row_ok_def)
  then show ?thesis by (cases st) auto
qed

lemma committed_eq_1: "committed k i w \<Longrightarrow> k \<in> keys \<Longrightarrow> cnt (mk k) (w_cloud w) = 1"
  using inv_row_ok by (fastforce simp: committed_def row_ok_def)

end

section \<open>Progress\<close>

text \<open>With \<open>m\<close> effects to spend, the program answers, and answers with success.\<close>

definition answers :: "('c world \<Rightarrow> bool) \<Rightarrow> ('a, 'c) prog \<Rightarrow> nat \<Rightarrow> bool" where
  "answers P p m \<longleftrightarrow> (\<forall>n w. P w \<and> m \<le> n \<longrightarrow> (\<exists>x n' w'. p n w = (Done (Inr x), n', w') \<and> n \<le> n' + m))"

lemma answers_ret: "answers P (ret x) 0"
  by (simp add: answers_def ret_def)

lemma answers_bind:
  assumes "triple I P p Q" and "answers P p m" and "\<And>x. answers (Q x) (f x) m'"
  shows "answers P (bindR p f) (m + m')"
  unfolding answers_def
proof (intro allI impI)
  fix n w
  assume w: "P w \<and> m + m' \<le> n"
  with assms(2) obtain x n1 w1 where 1: "p n w = (Done (Inr x), n1, w1)" "n \<le> n1 + m"
    unfolding answers_def by (meson add_leD1)
  with triple_run(2) [OF assms(1)] w have "Q x w1" by (metis fst_conv snd_conv)
  with assms(3) w 1 obtain y n2 w2 where "f x n1 w1 = (Done (Inr y), n2, w2)" "n1 \<le> n2 + m'"
    unfolding answers_def by (metis add.commute add_le_cancel_left le_trans)
  with 1 show "\<exists>y n2 w2. bindR p f n w = (Done (Inr y), n2, w2) \<and> n \<le> n2 + (m + m')"
    by (auto simp: bindR_def)
qed

lemma answers_weaken: "answers P p m \<Longrightarrow> (\<And>w. P' w \<Longrightarrow> P w) \<Longrightarrow> m \<le> m' \<Longrightarrow> answers P' p m'"
  unfolding answers_def by (meson le_trans add_left_mono)

lemma answers_ex: "(\<And>i. answers (P i) p m) \<Longrightarrow> answers (\<lambda>w. \<exists>i. P i w) p m"
  unfolding answers_def by meson

lemma answersD:
  "answers P p m \<Longrightarrow> P w \<Longrightarrow> m \<le> n \<Longrightarrow> \<exists>x n' w'. p n w = (Done (Inr x), n', w')"
  unfolding answers_def by meson

lemma answers_cloud_call:
  assumes "\<And>c. \<exists>x. fst (f c) = Inr x"
  shows "answers P (cloud_call f) 1"
  unfolding answers_def
proof (intro allI impI)
  fix n :: nat and w
  assume "P w \<and> 1 \<le> n"
  then obtain n' where "n = Suc n'" by (cases n) auto
  moreover obtain x where "fst (f (w_cloud w)) = Inr x" using assms by blast
  ultimately show "\<exists>x n' w'. cloud_call f n w = (Done (Inr x), n', w') \<and> n \<le> n' + 1"
    by (cases "f (w_cloud w)") (simp add: cloud_call_def)
qed

lemma answers_db_write:
  assumes "\<And>w. P w \<Longrightarrow> \<exists>x. fst (f (w_db w)) = Inr x"
  shows "answers P (db_write f) 1"
  unfolding answers_def
proof (intro allI impI)
  fix n :: nat and w
  assume "P w \<and> 1 \<le> n"
  then obtain n' where "n = Suc n'" by (cases n) auto
  moreover obtain x where "fst (f (w_db w)) = Inr x" using assms \<open>P w \<and> 1 \<le> n\<close> by blast
  ultimately show "\<exists>x n' w'. db_write f n w = (Done (Inr x), n', w') \<and> n \<le> n' + 1"
    by (cases "f (w_db w)") (simp add: db_write_def)
qed

lemma answers_db_get:
  assumes "\<And>w. P w \<Longrightarrow> \<exists>x. f (w_db w) = Inr x"
  shows "answers P (db_get f) 0"
  unfolding answers_def
proof (intro allI impI)
  fix n :: nat and w
  assume "P w \<and> 0 \<le> n"
  with assms obtain x where "f (w_db w) = Inr x" by blast
  then show "\<exists>x n' w'. db_get f n w = (Done (Inr x), n', w') \<and> n \<le> n' + 0"
    by (simp add: db_get_def)
qed

locale responsive_service = restore_service +
  assumes create_answers: "\<exists>i. fst (create m p c) = Inr i"
    and probe_answers: "\<exists>e. fst (probe m c) = Inr e"
begin

lemma answers_transition:
  assumes "restore_can_transition_to st to"
  shows "answers (at k st m B) (db_write (transition_restore (oid k) to now d cid mm)) 1"
proof (rule answers_db_write)
  fix w
  assume "at k st m B w"
  then obtain r where "op_row (oid k) (w_db w) = Some r" "ro_state r = restore_as_str st" by auto
  from transition_restore_ok [OF this assms]
  show "\<exists>x. fst (transition_restore (oid k) to now d cid mm (w_db w)) = Inr x" by simp
qed

lemma answers_moves:
  "restore_can_transition_to st to \<Longrightarrow> answers (at k st m B) (tr (oid k) to now d) 1"
  "restore_can_transition_to st to \<Longrightarrow> answers (at k st m B) (tr_marker (oid k) to now d mm) 1"
  "restore_can_transition_to st Committed \<Longrightarrow> answers (at k st m B) (commit (oid k) now d i) 1"
  unfolding tr_def tr_marker_def commit_def by (rule answers_transition, assumption)+

lemma answers_calls: "answers P (cloud_call (create m p)) 1" "answers P (cloud_call (probe m)) 1"
  by (rule answers_cloud_call create_answers probe_answers)+

lemma answers_run_restore_op:
  assumes k: "k \<in> keys"
  shows "answers (at k Pending None (\<lambda>c. cnt (mk k) c = 0)) (run_restore_op create (oid k) (mk k) p now) 4"
proof -
  have "answers (at k Pending None (\<lambda>c. cnt (mk k) c = 0)) (run_restore_op create (oid k) (mk k) p now)
      (1 + (1 + (1 + (1 + 0))))"
    unfolding run_restore_op_def
    by (rule answers_bind [OF triple_preflight [OF k] answers_moves(2)], simp,
        rule answers_bind [OF triple_committing [OF k] answers_moves(1)], simp,
        rule answers_bind [OF triple_first_post [OF k] answers_calls(1)],
        rule answers_bind [OF triple_commit [OF k] answers_moves(3)], simp, simp, rule answers_ret)
  then show ?thesis by (simp add: numeral_eq_Suc)
qed

lemma answers_recover_moves:
  assumes st: "st \<in> {PreflightChecked, Committing, FailedAfterGraphCommit}"
  shows "answers (at k st (Some (mk k)) B) (recover_moves (oid k) st e now) 1"
proof -
  have "answers (at k st (Some (mk k)) B) (ret ()) 1" by (rule answers_weaken [OF answers_ret]) simp_all
  then show ?thesis using st answers_moves(1) [of st Committing]
    by (auto simp: recover_moves_def)
qed

lemma answers_recover_body:
  assumes k: "k \<in> keys" and nt: "\<not> restore_is_terminal (ro_state op)" and m: "ro_marker op = Some m"
  shows "answers (found_op k op)
    (bindR (cloud_call (probe m)) (\<lambda>existing.
     bindR (recover_moves (oid k) (ro_state op) existing now) (\<lambda>_.
       case existing of
         Some new_id \<Rightarrow> bindR (commit (oid k) now d new_id) (\<lambda>_. ret Reconciled)
       | None \<Rightarrow> bindR (cloud_call (create m p)) (\<lambda>new_id. bindR (commit (oid k) now d' new_id) (\<lambda>_. ret Created)))))
    4"
proof (cases "m = mk k \<and> ro_state op \<in> {PreflightChecked, Committing, FailedAfterGraphCommit}")
  case True
  have rest: "answers (ready k p e)
      (case e of
         Some new_id \<Rightarrow> bindR (commit (oid k) now d new_id) (\<lambda>_. ret Reconciled)
       | None \<Rightarrow> bindR (cloud_call (create m p)) (\<lambda>new_id. bindR (commit (oid k) now d' new_id) (\<lambda>_. ret Created)))
      2" for e
  proof (cases e)
    case None
    have "answers (ready k p None)
      (bindR (cloud_call (create (mk k) p)) (\<lambda>i. bindR (commit (oid k) now d' i) (\<lambda>_. ret Created)))
      (1 + (1 + 0))"
      by (rule answers_bind [OF triple_safe_post [OF k] answers_calls(1)],
          rule answers_bind [OF triple_commit [OF k] answers_moves(3)], simp, simp, rule answers_ret)
    with True None show ?thesis by (simp add: numeral_eq_Suc)
  next
    case (Some i)
    have "answers (ready k p (Some i)) (commit (oid k) now d i) 1"
      unfolding commit_def
    proof (rule answers_db_write)
      fix w
      assume "ready k p (Some i) w"
      then obtain st r where "op_row (oid k) (w_db w) = Some r" "ro_state r = restore_as_str st"
        "restore_can_transition_to st Committed" by (auto simp: ready_def)
      from transition_restore_ok [OF this]
      show "\<exists>x. fst (transition_restore (oid k) Committed now (Some d) (Some i) None (w_db w)) = Inr x" by simp
    qed
    then have "answers (ready k p (Some i)) (bindR (commit (oid k) now d i) (\<lambda>_. ret Reconciled)) (1 + 0)"
      by (rule answers_bind [OF triple_reconcile [OF k]]) (rule answers_ret)
    with Some show ?thesis by (auto intro: answers_weaken)
  qed
  have "answers (found_op k op) (bindR (cloud_call (probe m)) (\<lambda>existing.
     bindR (recover_moves (oid k) (ro_state op) existing now) (\<lambda>_.
       case existing of
         Some new_id \<Rightarrow> bindR (commit (oid k) now d new_id) (\<lambda>_. ret Reconciled)
       | None \<Rightarrow> bindR (cloud_call (create m p)) (\<lambda>new_id. bindR (commit (oid k) now d' new_id) (\<lambda>_. ret Created)))))
     (1 + (1 + 2))"
    using True
    by (intro answers_bind [OF triple_probe_found [OF k nt m, where p = p] answers_calls(2)]
        answers_bind [OF triple_recover_moves [OF k] answers_recover_moves] rest) auto
  then show ?thesis by (simp add: numeral_eq_Suc)
next
  case False
  then have "\<not> found_op k op w" for w
    using found_op_marker [OF _ k m nt] by blast
  then show ?thesis unfolding answers_def by blast
qed

text \<open>Reading a row that is known.\<close>

lemma get_found:
  "triple inv (found_op k op) (db_get (get_restore_operation (oid k))) (\<lambda>f w. f = Some op \<and> found_op k op w)"
  "answers (found_op k op) (db_get (get_restore_operation (oid k))) 0"
  by (rule triple_db_get answers_db_get; auto simp: get_restore_operation_def)+

lemma get_committed:
  "triple inv (committed k i) (db_get (get_restore_operation (oid k)))
     (\<lambda>f w. Option.bind f ro_new_cloud_id = Some i \<and> committed k i w)"
  "answers (committed k i) (db_get (get_restore_operation (oid k))) 0"
proof -
  have "\<exists>op. get_restore_operation (oid k) (w_db w) = Inr (Some op) \<and> ro_new_cloud_id op = Some i"
    if "committed k i w" for w
  proof -
    from that obtain r where r: "op_row (oid k) (w_db w) = Some r" "ro_state r = restore_as_str Committed"
      "ro_new_cloud_id r = Some i" by (auto simp: committed_def)
    from map_restore_op_ok [OF r(2)] obtain op where op: "map_restore_op r = Inr op" by blast
    with r map_restore_op_fields(5) [OF op] show ?thesis by (simp add: get_restore_operation_def)
  qed
  note get = this
  show "triple inv (committed k i) (db_get (get_restore_operation (oid k)))
     (\<lambda>f w. Option.bind f ro_new_cloud_id = Some i \<and> committed k i w)"
    by (rule triple_db_get) (use get in \<open>fastforce simp: committed_def\<close>)+
  show "answers (committed k i) (db_get (get_restore_operation (oid k))) 0"
    by (rule answers_db_get) (use get in blast)
qed

lemma recover_found:
  assumes k: "k \<in> keys" and nt: "\<not> restore_is_terminal (ro_state op)" and m: "ro_marker op = Some m"
  shows "triple inv (found_op k op) (recover_restore_op create probe (oid k) p now) (\<lambda>_ w. \<exists>i. committed k i w)"
    and "answers (found_op k op) (recover_restore_op create probe (oid k) p now) 4"
proof -
  let ?rest = "\<lambda>found. case found of
       None \<Rightarrow> throw (re_internal (no_operation (oid k)))
     | Some op \<Rightarrow>
         if restore_is_terminal (ro_state op) then ret AlreadyDone
         else (case ro_marker op of
             None \<Rightarrow> throw (re_internal (no_marker (oid k)))
           | Some marker \<Rightarrow>
               bindR (cloud_call (probe marker)) (\<lambda>existing.
               bindR (recover_moves (oid k) (ro_state op) existing now) (\<lambda>_.
               case existing of
                 Some new_id \<Rightarrow>
                   bindR (commit (oid k) now ''reconciled: found by marker'' new_id) (\<lambda>_. ret Reconciled)
               | None \<Rightarrow>
                   bindR (cloud_call (create marker p)) (\<lambda>new_id.
                   bindR (commit (oid k) now ''created on recovery'' new_id) (\<lambda>_. ret Created)))))"
  have "triple inv (\<lambda>w. f = Some op \<and> found_op k op w) (?rest f) (\<lambda>_ w. \<exists>i. committed k i w)" for f
  proof (cases "f = Some op")
    case True
    with nt m triple_recover_body [OF k nt m] show ?thesis by simp
  qed (simp add: triple_def)
  then show "triple inv (found_op k op) (recover_restore_op create probe (oid k) p now) (\<lambda>_ w. \<exists>i. committed k i w)"
    unfolding recover_restore_op_def by (rule triple_bind [OF get_found(1)])
  have "answers (\<lambda>w. f = Some op \<and> found_op k op w) (?rest f) 4" for f
  proof (cases "f = Some op")
    case True
    with nt m answers_recover_body [OF k nt m] show ?thesis by simp
  qed (simp add: answers_def)
  then have "answers (found_op k op) (recover_restore_op create probe (oid k) p now) (0 + 4)"
    unfolding recover_restore_op_def by (rule answers_bind [OF get_found])
  then show "answers (found_op k op) (recover_restore_op create probe (oid k) p now) 4" by simp
qed

lemma answers_after_recovery:
  "answers (\<lambda>w. \<exists>i. committed k i w) (bindR (db_get (get_restore_operation (oid k))) (\<lambda>after.
     case Option.bind after ro_new_cloud_id of
       None \<Rightarrow> throw (re_internal ''recovery did not record a cloud id'')
     | Some new_id \<Rightarrow> ret new_id)) 0"
proof -
  have "answers (committed k i) (bindR (db_get (get_restore_operation (oid k))) (\<lambda>after.
     case Option.bind after ro_new_cloud_id of
       None \<Rightarrow> throw (re_internal ''recovery did not record a cloud id'')
     | Some new_id \<Rightarrow> ret new_id)) (0 + 0)" for i
    by (rule answers_bind [OF get_committed]) (auto simp: answers_def ret_def)
  then show ?thesis by (intro answers_ex) simp
qed

lemma answers_create_operation:
  "answers (\<lambda>w. inv w \<and> op_row (oid k) (w_db w) = None)
    (db_write (create_restore_operation (oid k) account service src k now)) 1"
proof (rule answers_db_write)
  fix w
  assume w: "inv w \<and> op_row (oid k) (w_db w) = None"
  then have ok: "ledger_ok (w_db w)" by (simp add: restore_inv_def)
  have ids: "oid k \<notin> ro_op_id ` set (restore_operations (w_db w))"
    using w by (simp add: row_by_None_iff)
  have "(account, k) \<notin> content_keys (w_db w)"
    using w ids by (force simp: restore_inv_def)
  moreover have "(oid k, 1) \<notin> (\<lambda>s. (rs_op_id s, rs_seq s)) ` set (restore_steps (w_db w))"
    using ledger_okD(4) [OF ok] ids by auto
  ultimately show "\<exists>x. fst (create_restore_operation (oid k) account service src k now (w_db w)) = Inr x"
    using w by (simp add: create_restore_operation_def row_by_None_iff del: One_nat_def)
qed

lemma finish_fresh:
  assumes k: "k \<in> keys" and "inv w" and "op_row (oid k) (w_db w) = None" and "5 \<le> n"
  shows "\<exists>i n' w'. finish_restore service create probe (oid k) account src k (mk k) p now n w
    = (Done (Inr i), n', w')"
proof -
  have "answers (\<lambda>w. inv w \<and> op_row (oid k) (w_db w) = None)
    (bindR (db_write (create_restore_operation (oid k) account service src k now)) (\<lambda>_.
     bindR (run_restore_op create (oid k) (mk k) p now) (\<lambda>r. ret (fst r)))) (1 + (4 + 0))"
    by (rule answers_bind [OF triple_create_operation [OF k] answers_create_operation],
        rule answers_bind [OF triple_run_restore_op [OF k] answers_run_restore_op [OF k]], rule answers_ret)
  from answersD [OF this, of w n] assms show ?thesis
    by (simp add: finish_restore_def bindR_def [of "db_get _"] db_get_def get_restore_operation_def)
qed

lemma finish_found:
  assumes k: "k \<in> keys" and "inv w" and row: "op_row (oid k) (w_db w) = Some r" and n: "4 \<le> n"
    and live: "ro_state r \<notin> restore_as_str ` {Pending, Cancelled}"
  shows "\<exists>i n' w'. finish_restore service create probe (oid k) account src k (mk k) p now n w
    = (Done (Inr i), n', w')"
proof -
  have rok: "row_ok (mk k) (cnt (mk k) (w_cloud w)) r" using inv_row_ok [OF assms(2) k row] .
  then obtain st where st: "ro_state r = restore_as_str st" by (auto simp: row_ok_def)
  from map_restore_op_ok [OF st] obtain op where op: "map_restore_op r = Inr op" "ro_state op = st" by blast
  note fields = map_restore_op_fields [OF op(1)]
  have get: "get_restore_operation (oid k) (w_db w) = Inr (Some op)"
    using row op(1) by (simp add: get_restore_operation_def)
  show ?thesis
  proof (cases "st = Committed")
    case True
    with rok st obtain i where "ro_new_cloud_id op = Some i"
      using fields(5) by (auto simp: row_ok_def)
    with True op get show ?thesis by (simp add: finish_restore_def bindR_def db_get_def ret_def)
  next
    case False
    then have "st \<in> {PreflightChecked, Committing, FailedAfterGraphCommit}"
      using live st by (cases st) auto
    then have nt: "\<not> restore_is_terminal (ro_state op)" and m: "ro_marker op = Some (mk k)"
      using rok st op(2) fields(6) by (auto simp: restore_is_terminal_def row_ok_def)
    have "answers (found_op k op) (bindR (recover_restore_op create probe (oid k) p now) (\<lambda>_.
       bindR (db_get (get_restore_operation (oid k))) (\<lambda>after.
         case Option.bind after ro_new_cloud_id of
           None \<Rightarrow> throw (re_internal ''recovery did not record a cloud id'')
         | Some new_id \<Rightarrow> ret new_id))) (4 + 0)"
      by (rule answers_bind [OF recover_found [OF k nt m] answers_after_recovery])
    from answersD [OF this, of w n] row op assms(2) n False get show ?thesis
      by (simp add: finish_restore_def bindR_def [of "db_get (get_restore_operation (oid k))" _ n w] db_get_def)
  qed
qed

text \<open>A restore that has not been cancelled and is not stuck before its preflight completes.\<close>

lemma finish_completes:
  assumes k: "k \<in> keys" and inv: "inv w" and n: "5 \<le> n"
    and row: "\<And>r. op_row (oid k) (w_db w) = Some r \<Longrightarrow> ro_state r \<notin> restore_as_str ` {Pending, Cancelled}"
  shows "\<exists>i n' w'. finish_restore service create probe (oid k) account src k (mk k) p now n w
    = (Done (Inr i), n', w') \<and> committed k i w'"
proof -
  let ?p = "finish_restore service create probe (oid k) account src k (mk k) p now"
  obtain i n' w' where run: "?p n w = (Done (Inr i), n', w')"
    using finish_fresh [OF k inv, of n src p now] finish_found [OF k inv, of _ n src p now] n row
    by (cases "op_row (oid k) (w_db w)") fastforce+
  with triple_run(2) [OF triple_finish [OF k] inv, of src p now n i] show ?thesis by auto
qed

end

section \<open>The contracts hold of the concrete clouds\<close>

lemma fake_count_simps [simp]:
  "fake_count m (c\<lparr>fk_faults := fs\<rparr>) = fake_count m c"
  "fake_count m (fake_store m' c) = (if m = m' then Suc (fake_count m c) else fake_count m c)"
  "fake_count m (no_cloud fs) = 0"
  by (simp_all add: fake_count_def fake_store_def no_cloud_def)

lemma find_None_count: "List.find (\<lambda>x. fst x = m) (fk_items c) = None \<longleftrightarrow> fake_count m c = 0"
  by (auto simp: find_None_iff fake_count_def filter_empty_conv)

lemma find_Some_count: "List.find (\<lambda>x. fst x = m) (fk_items c) = Some x \<Longrightarrow> 0 < fake_count m c"
  using find_None_count [of m c] by auto

interpretation fake_mail: probing_sink fake_create fake_probe fake_count
proof unfold_locales
  show "fst (fake_probe m c) = Inr (Some i) \<Longrightarrow> 1 \<le> fake_count m c" for m c i
    using find_Some_count [of m c] by (fastforce simp: fake_probe_def)
  show "fst (fake_probe m c) = Inr None \<Longrightarrow> fake_count m c = 0" for m c
    by (simp add: fake_probe_def find_None_count)
qed (auto simp: fake_probe_def fake_create_def split: list.split option.split fault.split)

lemma fake_mail_contract: "probing_sink fake_create fake_probe fake_count"
  by unfold_locales

interpretation plain_mail: probing_sink plain_create fake_probe fake_count
proof unfold_locales
  show "fst (fake_probe m c) = Inr (Some i) \<Longrightarrow> 1 \<le> fake_count m c" for m c i
    using find_Some_count [of m c] by (fastforce simp: fake_probe_def)
  show "fst (fake_probe m c) = Inr None \<Longrightarrow> fake_count m c = 0" for m c
    by (simp add: fake_probe_def find_None_count)
qed (auto simp: fake_probe_def plain_create_def)

interpretation fake_calendar: dedup_sink dedup_create calendar_probe fake_count
proof unfold_locales
  show "fst (dedup_create m p c) = Inr i \<Longrightarrow> 1 \<le> fake_count m (snd (dedup_create m p c))" for m p c i
    using find_Some_count [of m c]
    by (auto simp: dedup_create_def Suc_le_eq split: list.splits option.splits fault.splits)
  show "1 \<le> fake_count m c \<Longrightarrow> fake_count m (snd (dedup_create m p c)) = fake_count m c" for m c p
    using find_None_count [of m c]
    by (auto simp: dedup_create_def split: list.split option.split fault.split)
qed (auto simp: calendar_probe_def dedup_create_def split: list.split option.split fault.split)

lemma plain_mail_contract: "probing_sink plain_create fake_probe fake_count"
  by unfold_locales

lemma fake_calendar_contract: "dedup_sink dedup_create calendar_probe fake_count"
  by unfold_locales

lemma inj_mail_marker: "inj mail_marker"
  by (simp add: inj_def mail_marker_def)

lemma inj_calendar_marker: "inj calendar_marker"
  by (simp add: inj_def calendar_marker_def)

interpretation plain_service: responsive_service plain_create fake_probe fake_count
  account "''mail''" mail_marker UNIV for account
  by unfold_locales (simp_all add: inj_mail_marker plain_create_def fake_probe_def)

interpretation calendar_service: restore_service dedup_create calendar_probe fake_count
  account "''calendar''" calendar_marker UNIV for account
  by unfold_locales (rule inj_calendar_marker)

section \<open>Attempts keep the invariant\<close>

lemma mail_service:
  "probing_sink create probe cnt \<Longrightarrow> restore_service create probe cnt mail_marker"
  by (simp add: restore_service_def restore_service_axioms_def inj_mail_marker probing_sink.probing_restores)

lemma calendar_marker_service:
  "dedup_sink create probe cnt \<Longrightarrow> restore_service create probe cnt calendar_marker"
  by (simp add: restore_service_def restore_service_axioms_def inj_calendar_marker dedup_sink.dedup_restores)

abbreviation mail_inv :: "string \<Rightarrow> (string \<Rightarrow> 'c \<Rightarrow> nat) \<Rightarrow> 'c world \<Rightarrow> bool" where
  "mail_inv account cnt \<equiv> restore_inv account ''mail'' mail_marker UNIV cnt"

abbreviation calendar_inv :: "string \<Rightarrow> (string \<Rightarrow> 'c \<Rightarrow> nat) \<Rightarrow> 'c world \<Rightarrow> bool" where
  "calendar_inv account cnt \<equiv> restore_inv account ''calendar'' calendar_marker UNIV cnt"

lemma mail_attempt_keeps_inv:
  assumes "probing_sink create probe cnt" and "mail_inv account cnt w"
  shows "mail_inv account cnt (mail_attempt (create, probe) fs items account a w)"
proof (cases a)
  case (Restore k src p now n)
  then show ?thesis
    using triple_run(1) [OF restore_service.triple_finish [OF mail_service [OF assms(1)], of k UNIV] assms(2)]
    by (simp add: finish_mail_restore_def)
next
  case (Boot now n)
  show ?thesis
    unfolding Boot mail_attempt.simps recover_pending_mail_restores_with_def
    by (rule restore_service.recover_pending_keeps_inv [OF mail_service [OF assms(1)] assms(2)])
      (auto simp: map_sum_def split: sum.splits)
qed

lemma calendar_attempt_keeps_inv:
  assumes "dedup_sink create probe cnt" and "calendar_inv account cnt w"
  shows "calendar_inv account cnt (calendar_attempt (create, probe) fs items account a w)"
proof (cases a)
  case (Restore k src p now n)
  then show ?thesis
    using triple_run(1) [OF restore_service.triple_finish [OF calendar_marker_service [OF assms(1)], of k UNIV] assms(2)]
    by (simp add: finish_calendar_restore_def)
next
  case (Boot now n)
  show ?thesis
    unfolding Boot calendar_attempt.simps recover_pending_calendar_restores_with_def
    by (rule restore_service.recover_pending_keeps_inv [OF calendar_marker_service [OF assms(1)] assms(2)])
      (auto simp: map_sum_def split: sum.splits)
qed

lemma fold_keeps: "(\<And>a w. I w \<Longrightarrow> I (f a w)) \<Longrightarrow> I w \<Longrightarrow> I (fold f as w)"
  by (induction as arbitrary: w) auto

lemma mail_attempts_inv:
  assumes "probing_sink create probe cnt" and "\<And>m. cnt m c = 0"
  shows "mail_inv account cnt (fold (mail_attempt (create, probe) fs items account) as (fresh_world c))"
  using mail_attempt_keeps_inv [OF assms(1)] restore_service.inv_fresh [OF mail_service [OF assms(1)] assms(2)]
  by (rule fold_keeps)

lemma calendar_attempts_inv:
  assumes "dedup_sink create probe cnt" and "\<And>m. cnt m c = 0"
  shows "calendar_inv account cnt (fold (calendar_attempt (create, probe) fs items account) as (fresh_world c))"
  using calendar_attempt_keeps_inv [OF assms(1)]
    restore_service.inv_fresh [OF calendar_marker_service [OF assms(1)] assms(2)]
  by (rule fold_keeps)

section \<open>Properties\<close>

text \<open>C1: Crash safety of mail restore. Whatever restores and boot recoveries run on an account, each
  dying at any point or meeting any network error, the mailbox never holds two messages for the same
  content key, provided a probe by Message-ID that finds nothing means that nothing is there.\<close>

theorem mail_restore_never_duplicates:
  assumes "probing_sink create probe cnt" and "\<forall>m. cnt m c = 0"
  shows "cnt (mail_marker key)
    (w_cloud (fold (mail_attempt (create, probe) fs items account) as (fresh_world c))) \<le> 1"
  using mail_attempts_inv [OF assms(1), of c] assms(2)
    restore_service.inv_le_1 [OF mail_service [OF assms(1)], of account "''mail''" UNIV _ key] by blast

text \<open>A restore whose response is lost, a second try that dies after its probe, and a boot recovery.\<close>

abbreviation demo_attempts :: "attempt list" where
  "demo_attempts \<equiv> [Restore ''k'' ''s'' [1, 2] 1 9, Restore ''k'' ''s'' [1, 2] 2 1,
     Restore ''k'' ''s'' [1, 2] 3 9]"

theorem mail_restore_never_duplicates_witness:
  "fake_count (mail_marker ''k'')
    (w_cloud (fold (mail_attempt (fake_create, fake_probe) (\<lambda>_. Inl []) empty_items ''a'')
       demo_attempts (fresh_world (no_cloud [Some LostResponse])))) \<le> 1"
  by (rule mail_restore_never_duplicates [OF fake_mail_contract]) simp



text \<open>C9: A mail restore that returns an id has put exactly one message in the mailbox, and is idempotent
  from then on: every later restore of the same content key returns that id at once and changes
  neither the ledger nor the mailbox.\<close>

theorem mail_restore_success_is_final:
  assumes sink: "probing_sink create probe cnt" and "\<forall>m. cnt m c = 0"
    and run: "finish_mail_restore create probe (restore_op_id account key) account src key
      (mail_marker key) p now n (fold (mail_attempt (create, probe) fs items account) as (fresh_world c))
      = (Done (Inr i), n', w')"
  shows "cnt (mail_marker key) (w_cloud w') = 1
    \<and> finish_mail_restore create probe (restore_op_id account key) account src' key
        (mail_marker key) p' now' n'' w' = (Done (Inr i), n'', w')"
proof -
  note service = mail_service [OF sink]
  define w where "w = fold (mail_attempt (create, probe) fs items account) as (fresh_world c)"
  have "mail_inv account cnt w" unfolding w_def using sink assms(2) by (intro mail_attempts_inv) auto
  from triple_run(2) [OF restore_service.triple_finish [OF service, of key UNIV] this]
  have comm: "restore_service.committed cnt account ''mail'' mail_marker UNIV key i w'"
    using run unfolding w_def finish_mail_restore_def by (metis UNIV_I fst_conv snd_conv)
  obtain r where r: "op_row (restore_op_id account key) (w_db w') = Some r"
    "ro_state r = restore_as_str Committed" "ro_new_cloud_id r = Some i"
    using comm restore_service.committed_def [OF service] by metis
  from map_restore_op_ok [OF r(2)] obtain op where op: "map_restore_op r = Inr op" "ro_state op = Committed"
    by blast
  with r map_restore_op_fields(5) [OF op(1)] have "finish_mail_restore create probe
      (restore_op_id account key) account src' key (mail_marker key) p' now' n'' w' = (Done (Inr i), n'', w')"
    by (simp add: finish_mail_restore_def finish_restore_def bindR_def db_get_def
        get_restore_operation_def ret_def)
  with restore_service.committed_eq_1 [OF service comm] show ?thesis by simp
qed

theorem mail_restore_success_is_final_witness:
  "\<exists>i n' w'. finish_mail_restore fake_create fake_probe (restore_op_id ''a'' ''k'') ''a'' ''s'' ''k''
      (mail_marker ''k'') [1, 2] 7 9
      (fold (mail_attempt (fake_create, fake_probe) (\<lambda>_. Inl []) empty_items ''a'')
        [Restore ''k'' ''s'' [1, 2] 1 9] (fresh_world (no_cloud [Some LostResponse])))
      = (Done (Inr i), n', w') \<and> fake_count (mail_marker ''k'') (w_cloud w') = 1"
proof -
  let ?w = "fold (mail_attempt (fake_create, fake_probe) (\<lambda>_. Inl []) empty_items ''a'')
        [Restore ''k'' ''s'' [1, 2] 1 9] (fresh_world (no_cloud [Some LostResponse]))"
  have "case finish_mail_restore fake_create fake_probe (restore_op_id ''a'' ''k'') ''a'' ''s'' ''k''
      (mail_marker ''k'') [1, 2] 7 9 ?w of (Done (Inr i), _) \<Rightarrow> True | _ \<Rightarrow> False"
    by code_simp
  then obtain i n' w' where run: "finish_mail_restore fake_create fake_probe (restore_op_id ''a'' ''k'')
      ''a'' ''s'' ''k'' (mail_marker ''k'') [1, 2] 7 9 ?w = (Done (Inr i), n', w')"
    by (auto split: prod.splits outcome.splits sum.splits)
  moreover have "\<forall>m. fake_count m (no_cloud [Some LostResponse]) = 0" by simp
  ultimately show ?thesis
    using mail_restore_success_is_final [OF fake_mail_contract _ run] by blast
qed

text \<open>C8: Restores complete. After any sequence of restores and recoveries, each dying at any point, a
  restore on a cloud that answers and with five effects to spend returns an id, with exactly one
  message in the mailbox, unless its row is cancelled or is still \<^verbatim>\<open>pending\<close>.\<close>

theorem mail_restore_completes:
  assumes sink: "probing_sink create probe cnt" and "\<forall>m. cnt m c = 0"
    and "\<forall>m p c. \<exists>i. fst (create m p c) = Inr i" and "\<forall>m c. \<exists>e. fst (probe m c) = Inr e"
    and "5 \<le> n"
    and live: "\<forall>op. get_restore_operation (restore_op_id account key)
        (w_db (fold (mail_attempt (create, probe) fs items account) as (fresh_world c))) = Inr (Some op)
      \<longrightarrow> ro_state op \<notin> {Pending, Cancelled}"
  shows "\<exists>i n' w'. finish_mail_restore create probe (restore_op_id account key) account src key
      (mail_marker key) p now n (fold (mail_attempt (create, probe) fs items account) as (fresh_world c))
      = (Done (Inr i), n', w') \<and> cnt (mail_marker key) (w_cloud w') = 1"
proof -
  have service: "responsive_service create probe cnt mail_marker"
    using mail_service [OF sink] assms(3,4)
    by (simp add: responsive_service_def responsive_service_axioms_def)
  define w where "w = fold (mail_attempt (create, probe) fs items account) as (fresh_world c)"
  have inv: "mail_inv account cnt w" unfolding w_def using sink assms(2) by (intro mail_attempts_inv) auto
  have "ro_state r \<notin> restore_as_str ` {Pending, Cancelled}"
    if r: "op_row (restore_op_id account key) (w_db w) = Some r" for r
  proof
    assume "ro_state r \<in> restore_as_str ` {Pending, Cancelled}"
    then obtain st where "ro_state r = restore_as_str st" "st \<in> {Pending, Cancelled}" by blast
    with map_restore_op_ok obtain op where "map_restore_op r = Inr op" "ro_state op \<in> {Pending, Cancelled}"
      by metis
    with r live show False unfolding w_def [symmetric] by (auto simp: get_restore_operation_Some_iff)
  qed
  from responsive_service.finish_completes [OF service _ inv \<open>5 \<le> n\<close> this] obtain i n' w' where
    "finish_mail_restore create probe (restore_op_id account key) account src key (mail_marker key) p now n w
      = (Done (Inr i), n', w')"
    "restore_service.committed cnt account ''mail'' mail_marker UNIV key i w'"
    unfolding finish_mail_restore_def by blast
  with restore_service.committed_eq_1 [OF mail_service [OF sink]] show ?thesis
    unfolding w_def [symmetric] by blast
qed

theorem mail_restore_completes_witness:
  "\<exists>i n' w'. finish_mail_restore plain_create fake_probe (restore_op_id ''a'' ''k'') ''a'' ''s'' ''k''
      (mail_marker ''k'') [1, 2] 7 5
      (fold (mail_attempt (plain_create, fake_probe) (\<lambda>_. Inl []) empty_items ''a'')
        [Restore ''k'' ''s'' [1, 2] 1 4] (fresh_world (no_cloud [])))
      = (Done (Inr i), n', w') \<and> fake_count (mail_marker ''k'') (w_cloud w') = 1"
proof (rule mail_restore_completes [OF plain_mail_contract])
  have "case get_restore_operation (restore_op_id ''a'' ''k'')
      (w_db (fold (mail_attempt (plain_create, fake_probe) (\<lambda>_. Inl []) empty_items ''a'')
        [Restore ''k'' ''s'' [1, 2] 1 4] (fresh_world (no_cloud [])))) of
      Inr (Some op) \<Rightarrow> ro_state op = Committing | _ \<Rightarrow> False"
    by code_simp
  then show "\<forall>op. get_restore_operation (restore_op_id ''a'' ''k'')
      (w_db (fold (mail_attempt (plain_create, fake_probe) (\<lambda>_. Inl []) empty_items ''a'')
        [Restore ''k'' ''s'' [1, 2] 1 4] (fresh_world (no_cloud [])))) = Inr (Some op)
      \<longrightarrow> ro_state op \<notin> {Pending, Cancelled}"
    by (auto split: sum.splits option.splits simp del: fold_simps)
qed (simp_all add: plain_create_def fake_probe_def)

text \<open>A crash right after the intent was recorded is not recovered. If the process dies between
  \<^verbatim>\<open>create_restore_operation\<close> and the preflight transition, the row stays \<^verbatim>\<open>pending\<close> without a marker:
  every later restore of that content fails with the error that there is no marker to reconcile by,
  and changes nothing, on every cloud and with every budget.\<close>

theorem crash_before_preflight_is_stuck:
  "\<exists>w1. finish_mail_restore create probe (restore_op_id account key) account src key
        (mail_marker key) p now 1 (fresh_world c) = (Crashed, 0, w1)
    \<and> (\<forall>src' p' now' n. finish_mail_restore create' probe' (restore_op_id account key) account src' key
          (mail_marker key) p' now' n w1
        = (Done (Inl (re_internal (no_marker (restore_op_id account key)))), n, w1))
    \<and> (\<forall>p' now' n. recover_restore_op create' probe' (restore_op_id account key) p' now' n w1
        = (Done (Inl (re_internal (no_marker (restore_op_id account key)))), n, w1))"
proof -
  define db where "db = snd (create_restore_operation (restore_op_id account key) account ''mail'' src key now
      empty_ledger)"
  have 1: "finish_mail_restore create probe (restore_op_id account key) account src key
      (mail_marker key) p now 1 (fresh_world c) = (Crashed, 0, \<lparr>w_db = db, w_cloud = c\<rparr>)"
    by (simp add: db_def finish_mail_restore_def finish_restore_def bindR_def db_get_def db_write_def
        get_restore_operation_def create_restore_operation_def empty_ledger_def run_restore_op_def tr_marker_def)
  obtain op where op: "get_restore_operation (restore_op_id account key) db = Inr (Some op)"
    "ro_state op = Pending" "ro_marker op = None"
    by (simp add: db_def create_restore_operation_def empty_ledger_def get_restore_operation_def
        row_by_Cons map_restore_op_def restore_parse_def)
  then have 2: "recover_restore_op create' probe' (restore_op_id account key) p' now' n \<lparr>w_db = db, w_cloud = c\<rparr>
    = (Done (Inl (re_internal (no_marker (restore_op_id account key)))), n, \<lparr>w_db = db, w_cloud = c\<rparr>)"
    for p' now' n
    by (simp add: recover_restore_op_def bindR_def db_get_def throw_def restore_is_terminal_def)
  with op have "finish_mail_restore create' probe' (restore_op_id account key) account src' key
      (mail_marker key) p' now' n \<lparr>w_db = db, w_cloud = c\<rparr>
    = (Done (Inl (re_internal (no_marker (restore_op_id account key)))), n, \<lparr>w_db = db, w_cloud = c\<rparr>)"
    for src' p' now' n
    by (simp add: finish_mail_restore_def finish_restore_def bindR_def db_get_def)
  with 1 2 show ?thesis by blast
qed

end
