(* ===== verification/Mobile_Jobs.thy ===== *)
theory Mobile_Jobs
  imports Restore_Ledger
begin

text \<open>
  The durable mobile job queue of \<^verbatim>\<open>crates/store/src/lib.rs\<close>: the table \<^verbatim>\<open>mobile_jobs\<close> with its
  states, leases and idempotency keys, and the \<^verbatim>\<open>Store\<close> methods that drive it. A method returns its
  result and the table; an error leaves the table as it was. Text is its UTF-8 bytes.
\<close>

section \<open>Kinds and states\<close>

datatype MobileJobKind = Backup | RestoreCloud

fun kind_as_str :: "MobileJobKind \<Rightarrow> string" where
  "kind_as_str Backup = ''backup''"
| "kind_as_str RestoreCloud = ''restore-cloud''"

definition kind_parse :: "string \<Rightarrow> MobileJobKind option" where
  "kind_parse s =
     (if s = ''backup'' then Some Backup
      else if s = ''restore-cloud'' then Some RestoreCloud
      else None)"

datatype MobileJobState = Queued | Running | Succeeded | Failed | Cancelled

fun job_as_str :: "MobileJobState \<Rightarrow> string" where
  "job_as_str Queued = ''queued''"
| "job_as_str Running = ''running''"
| "job_as_str Succeeded = ''succeeded''"
| "job_as_str Failed = ''failed''"
| "job_as_str Cancelled = ''cancelled''"

definition job_parse :: "string \<Rightarrow> MobileJobState option" where
  "job_parse s =
     (if s = ''queued'' then Some Queued
      else if s = ''running'' then Some Running
      else if s = ''succeeded'' then Some Succeeded
      else if s = ''failed'' then Some Failed
      else if s = ''cancelled'' then Some Cancelled
      else None)"

definition job_is_terminal :: "MobileJobState \<Rightarrow> bool" where
  "job_is_terminal s \<longleftrightarrow> s = Succeeded \<or> s = Failed \<or> s = Cancelled"

fun job_can_transition_to :: "MobileJobState \<Rightarrow> MobileJobState \<Rightarrow> bool" where
  "job_can_transition_to Queued Running = True"
| "job_can_transition_to Queued Cancelled = True"
| "job_can_transition_to Running Succeeded = True"
| "job_can_transition_to Running Failed = True"
| "job_can_transition_to Running Cancelled = True"
| "job_can_transition_to _ _ = False"

section \<open>Rows\<close>

record ('k, 's) mobile_job =
  mj_job_id :: string
  mj_account_id :: string
  mj_kind :: 'k
  mj_service :: "string option"
  mj_target_id :: "string option"
  mj_idempotency_key :: string
  mj_state :: 's
  mj_intent_json :: string
  mj_progress_json :: "string option"
  mj_result_json :: "string option"
  mj_attempts :: int
  mj_lease_owner :: "string option"
  mj_lease_expires_at :: "int option"
  mj_created_at :: int
  mj_updated_at :: int
  mj_finished_at :: "int option"
  mj_last_error :: "string option"

type_synonym job_row = "(string, string) mobile_job"
type_synonym MobileJob = "(MobileJobKind, MobileJobState) mobile_job"
type_synonym job_db = "job_row list"

definition map_mobile_job :: "job_row \<Rightarrow> StoreError + MobileJob" where
  "map_mobile_job r =
     (case kind_parse (mj_kind r) of
        None \<Rightarrow> Inl (Sqlite (InvalidColumnType 2 ''kind''))
      | Some kind \<Rightarrow>
          (case job_parse (mj_state r) of
             None \<Rightarrow> Inl (Sqlite (InvalidColumnType 6 ''state''))
           | Some st \<Rightarrow> Inr \<lparr>mj_job_id = mj_job_id r, mj_account_id = mj_account_id r,
               mj_kind = kind, mj_service = mj_service r, mj_target_id = mj_target_id r,
               mj_idempotency_key = mj_idempotency_key r, mj_state = st,
               mj_intent_json = mj_intent_json r, mj_progress_json = mj_progress_json r,
               mj_result_json = mj_result_json r, mj_attempts = mj_attempts r,
               mj_lease_owner = mj_lease_owner r, mj_lease_expires_at = mj_lease_expires_at r,
               mj_created_at = mj_created_at r, mj_updated_at = mj_updated_at r,
               mj_finished_at = mj_finished_at r, mj_last_error = mj_last_error r\<rparr>))"

fun collect_jobs :: "job_row list \<Rightarrow> StoreError + MobileJob list" where
  "collect_jobs [] = Inr []"
| "collect_jobs (r # rs) =
     (case map_mobile_job r of
        Inl e \<Rightarrow> Inl e
      | Inr job \<Rightarrow> (case collect_jobs rs of Inl e \<Rightarrow> Inl e | Inr jobs \<Rightarrow> Inr (job # jobs)))"

section \<open>Validation and redaction\<close>

definition ascii_lower :: "char \<Rightarrow> char" where
  "ascii_lower c = (if 65 \<le> (of_char c :: nat) \<and> (of_char c :: nat) \<le> 90
     then char_of ((of_char c :: nat) + 32) else c)"

fun contains_text :: "string \<Rightarrow> string \<Rightarrow> bool" where
  "contains_text needle [] = (needle = [])"
| "contains_text needle (c # s) =
     (take (length needle) (c # s) = needle \<or> contains_text needle s)"

definition secret_needles :: "string list" where
  "secret_needles = [''authorization:'', ''bearer '', ''access_token'', ''refresh_token'',
     ''client_secret'', ''x-session-token'', ''cap-token'', ''cap_token'', ''code='']"

definition mobile_job_contains_secret_shape :: "string \<Rightarrow> bool" where
  "mobile_job_contains_secret_shape s =
     list_ex (\<lambda>needle. contains_text needle (map ascii_lower s)) secret_needles"

definition validate_mobile_job_part :: "string \<Rightarrow> string \<Rightarrow> StoreError + unit" where
  "validate_mobile_job_part label v =
     (if v = [] then Inl (InvalidMobileJob (label @ '' must not be empty'')) else Inr ())"

definition validate_mobile_job_intent :: "string \<Rightarrow> StoreError + unit" where
  "validate_mobile_job_intent intent =
     (case validate_mobile_job_part ''intent_json'' intent of
        Inl e \<Rightarrow> Inl e
      | Inr u \<Rightarrow> if mobile_job_contains_secret_shape intent
                 then Inl (InvalidMobileJob ''intent contains secret-shaped material'')
                 else Inr ())"

definition validate_mobile_job_json :: "string \<Rightarrow> string option \<Rightarrow> StoreError + unit" where
  "validate_mobile_job_json label v =
     (case v of
        None \<Rightarrow> Inr ()
      | Some t \<Rightarrow> if mobile_job_contains_secret_shape t
                  then Inl (InvalidMobileJob (label @ '' contains secret-shaped material''))
                  else Inr ())"

definition redact_mobile_job_error :: "string option \<Rightarrow> string option" where
  "redact_mobile_job_error err =
     map_option (\<lambda>e. if mobile_job_contains_secret_shape e then ''[redacted]'' else take_chars 512 e) err"

text \<open>Validations in sequence: the first error wins.\<close>

fun check_all :: "(StoreError + unit) list \<Rightarrow> StoreError + unit" where
  "check_all [] = Inr ()"
| "check_all (v # vs) = (case v of Inl e \<Rightarrow> Inl e | Inr u \<Rightarrow> check_all vs)"

section \<open>Reading\<close>

definition job_open :: "string \<Rightarrow> bool" where
  "job_open st \<longleftrightarrow> st = ''queued'' \<or> st = ''running''"

definition get_mobile_job :: "string \<Rightarrow> job_db \<Rightarrow> StoreError + MobileJob option" where
  "get_mobile_job job_id db =
     (case row_by mj_job_id job_id db of
        None \<Rightarrow> Inr None
      | Some r \<Rightarrow> map_sum id Some (map_mobile_job r))"

definition find_open_mobile_job :: "string \<Rightarrow> string \<Rightarrow> job_db \<Rightarrow> StoreError + MobileJob option" where
  "find_open_mobile_job account key db =
     (case sort_key mj_created_at (filter (\<lambda>r. mj_account_id r = account \<and> mj_idempotency_key r = key
              \<and> job_open (mj_state r)) db) of
        [] \<Rightarrow> Inr None
      | r # _ \<Rightarrow> map_sum id Some (map_mobile_job r))"

definition list_mobile_jobs :: "string \<Rightarrow> u32 \<Rightarrow> job_db \<Rightarrow> StoreError + MobileJob list" where
  "list_mobile_jobs account limit db =
     collect_jobs (take (unat limit)
       (rev (sort_key (\<lambda>r. (mj_created_at r, mj_job_id r)) (filter (\<lambda>r. mj_account_id r = account) db))))"

text \<open>Queued, or running with a lease that is absent or has expired.\<close>

definition job_available :: "int \<Rightarrow> job_row \<Rightarrow> bool" where
  "job_available now r \<longleftrightarrow> mj_state r = ''queued''
     \<or> (mj_state r = ''running'' \<and> lease_free (mj_lease_owner r) (mj_lease_expires_at r) now)"

definition recoverable_mobile_jobs :: "string \<Rightarrow> int \<Rightarrow> job_db \<Rightarrow> StoreError + MobileJob list" where
  "recoverable_mobile_jobs account now db =
     collect_jobs (sort_key (\<lambda>r. (mj_created_at r, mj_job_id r))
       (filter (\<lambda>r. mj_account_id r = account \<and> job_available now r) db))"

section \<open>Writing\<close>

definition create_checks ::
  "string \<Rightarrow> string \<Rightarrow> string option \<Rightarrow> string option \<Rightarrow> string \<Rightarrow> string \<Rightarrow> StoreError + unit" where
  "create_checks job_id account service target key intent =
     check_all ([validate_mobile_job_part ''job_id'' job_id,
             validate_mobile_job_part ''account'' account,
             validate_mobile_job_part ''idempotency_key'' key]
           @ (case service of None \<Rightarrow> [] | Some s \<Rightarrow> [validate_mobile_job_part ''service'' s])
           @ (case target of None \<Rightarrow> [] | Some t \<Rightarrow> [validate_mobile_job_part ''target_id'' t])
           @ [validate_mobile_job_intent intent])"

definition create_mobile_job ::
  "string \<Rightarrow> string \<Rightarrow> MobileJobKind \<Rightarrow> string option \<Rightarrow> string option \<Rightarrow> string \<Rightarrow> string \<Rightarrow> int
     \<Rightarrow> job_db \<Rightarrow> (StoreError + MobileJob) \<times> job_db" where
  "create_mobile_job job_id account kind service target key intent now db =
     (case create_checks job_id account service target key intent of
        Inl e \<Rightarrow> (Inl e, db)
      | Inr u \<Rightarrow>
          if row_by mj_job_id job_id db = None
             \<and> \<not> list_ex (\<lambda>r. mj_account_id r = account \<and> mj_idempotency_key r = key \<and> job_open (mj_state r)) db
          then
            let db' = db @ [\<lparr>mj_job_id = job_id, mj_account_id = account, mj_kind = kind_as_str kind,
                  mj_service = service, mj_target_id = target, mj_idempotency_key = key,
                  mj_state = ''queued'', mj_intent_json = intent, mj_progress_json = None,
                  mj_result_json = None, mj_attempts = 0, mj_lease_owner = None,
                  mj_lease_expires_at = None, mj_created_at = now, mj_updated_at = now,
                  mj_finished_at = None, mj_last_error = None\<rparr>]
            in (case get_mobile_job job_id db' of
                  Inl e \<Rightarrow> Inl e
                | Inr None \<Rightarrow> Inl (InvalidMobileJob (''inserted job '' @ job_id @ '' disappeared''))
                | Inr (Some job) \<Rightarrow> Inr job, db')
          else
            (case find_open_mobile_job account key db of
               Inl e \<Rightarrow> Inl e
             | Inr None \<Rightarrow> Inl (InvalidMobileJob (''job id '' @ job_id @ '' or idempotency key '' @ key
                              @ '' already exists''))
             | Inr (Some job) \<Rightarrow> Inr job, db))"

text \<open>The row \<^verbatim>\<open>transition_mobile_job\<close> writes.\<close>

definition moved_job ::
  "MobileJobState \<Rightarrow> int \<Rightarrow> string option \<Rightarrow> string option \<Rightarrow> string option \<Rightarrow> job_row \<Rightarrow> job_row" where
  "moved_job to now progress result err r =
     r\<lparr>mj_state := job_as_str to, mj_updated_at := now,
       mj_attempts := mj_attempts r + (if to = Running then 1 else 0),
       mj_progress_json := coalesce progress (mj_progress_json r),
       mj_result_json := coalesce result (mj_result_json r),
       mj_last_error := err,
       mj_finished_at := coalesce (if job_is_terminal to then Some now else None) (mj_finished_at r),
       mj_lease_owner := (if job_is_terminal to then None else mj_lease_owner r),
       mj_lease_expires_at := (if job_is_terminal to then None else mj_lease_expires_at r)\<rparr>"

definition transition_mobile_job ::
  "string \<Rightarrow> MobileJobState \<Rightarrow> int \<Rightarrow> string option \<Rightarrow> string option \<Rightarrow> string option
     \<Rightarrow> job_db \<Rightarrow> (StoreError + unit) \<times> job_db" where
  "transition_mobile_job job_id to now progress result err db =
     (case check_all [validate_mobile_job_json ''progress_json'' progress,
                      validate_mobile_job_json ''result_json'' result] of
        Inl e \<Rightarrow> (Inl e, db)
      | Inr u \<Rightarrow>
          (case row_by mj_job_id job_id db of
             None \<Rightarrow> (Inl (Sqlite QueryReturnedNoRows), db)
           | Some cur \<Rightarrow>
               (case job_parse (mj_state cur) of
                  None \<Rightarrow> (Inl (IllegalMobileJobTransition (''unknown stored state '' @ [CHR 0x27]
                            @ mj_state cur @ [CHR 0x27] @ '' for '' @ job_id)), db)
                | Some from \<Rightarrow>
                    if \<not> job_can_transition_to from to
                    then (Inl (IllegalMobileJobTransition (job_as_str from @ '' -> '' @ job_as_str to
                             @ '' ('' @ job_id @ '')'')), db)
                    else (Inr (), sql_update (\<lambda>r. mj_job_id r = job_id)
                       (moved_job to now progress result (redact_mobile_job_error err)) db))))"

text \<open>An \<^verbatim>\<open>UPDATE\<close> whose result is whether exactly one row matched.\<close>

definition update_one :: "(job_row \<Rightarrow> bool) \<Rightarrow> (job_row \<Rightarrow> job_row) \<Rightarrow> job_db \<Rightarrow> (StoreError + bool) \<times> job_db" where
  "update_one p f db = (Inr (sql_count p db = 1), sql_update p f db)"

definition acquire_mobile_job_lease ::
  "string \<Rightarrow> string \<Rightarrow> int \<Rightarrow> int \<Rightarrow> job_db \<Rightarrow> (StoreError + bool) \<times> job_db" where
  "acquire_mobile_job_lease job_id owner now ttl_secs db =
     (case validate_mobile_job_part ''owner'' owner of
        Inl e \<Rightarrow> (Inl e, db)
      | Inr u \<Rightarrow>
          if ttl_secs \<le> 0 then (Inl (InvalidMobileJob ''lease ttl must be positive''), db)
          else update_one (\<lambda>r. mj_job_id r = job_id \<and> job_available now r)
            (\<lambda>r. r\<lparr>mj_state := ''running'', mj_lease_owner := Some owner,
                   mj_lease_expires_at := Some (now + ttl_secs), mj_updated_at := now,
                   mj_attempts := mj_attempts r + 1\<rparr>) db)"

text \<open>\<^verbatim>\<open>job_id=?1 AND lease_owner=?2 AND state='running'\<close>.\<close>

definition owned_running :: "string \<Rightarrow> string \<Rightarrow> job_row \<Rightarrow> bool" where
  "owned_running job_id owner r \<longleftrightarrow>
     mj_job_id r = job_id \<and> mj_lease_owner r = Some owner \<and> mj_state r = ''running''"

definition release_mobile_job_lease :: "string \<Rightarrow> string \<Rightarrow> job_db \<Rightarrow> (StoreError + bool) \<times> job_db" where
  "release_mobile_job_lease job_id owner db =
     update_one (owned_running job_id owner)
       (\<lambda>r. r\<lparr>mj_lease_owner := None, mj_lease_expires_at := None\<rparr>) db"

definition finish_mobile_job_if_running ::
  "string \<Rightarrow> string \<Rightarrow> int \<Rightarrow> string option \<Rightarrow> job_db \<Rightarrow> (StoreError + bool) \<times> job_db" where
  "finish_mobile_job_if_running job_id owner now result db =
     (case validate_mobile_job_json ''result_json'' result of
        Inl e \<Rightarrow> (Inl e, db)
      | Inr u \<Rightarrow> update_one (owned_running job_id owner)
          (\<lambda>r. r\<lparr>mj_state := ''succeeded'', mj_result_json := coalesce result (mj_result_json r),
                 mj_updated_at := now, mj_finished_at := Some now,
                 mj_lease_owner := None, mj_lease_expires_at := None\<rparr>) db)"

definition fail_mobile_job_if_running ::
  "string \<Rightarrow> string \<Rightarrow> int \<Rightarrow> string \<Rightarrow> job_db \<Rightarrow> (StoreError + bool) \<times> job_db" where
  "fail_mobile_job_if_running job_id owner now err db =
     update_one (owned_running job_id owner)
       (\<lambda>r. r\<lparr>mj_state := ''failed'', mj_last_error := redact_mobile_job_error (Some err),
              mj_updated_at := now, mj_finished_at := Some now,
              mj_lease_owner := None, mj_lease_expires_at := None\<rparr>) db"

definition update_mobile_job_progress_if_running ::
  "string \<Rightarrow> string \<Rightarrow> string \<Rightarrow> int \<Rightarrow> job_db \<Rightarrow> (StoreError + bool) \<times> job_db" where
  "update_mobile_job_progress_if_running job_id owner progress now db =
     (case validate_mobile_job_json ''progress_json'' (Some progress) of
        Inl e \<Rightarrow> (Inl e, db)
      | Inr u \<Rightarrow> update_one (owned_running job_id owner)
          (\<lambda>r. r\<lparr>mj_progress_json := Some progress, mj_updated_at := now\<rparr>) db)"

definition requeue_mobile_job_if_running ::
  "string \<Rightarrow> string \<Rightarrow> string \<Rightarrow> string \<Rightarrow> int \<Rightarrow> job_db \<Rightarrow> (StoreError + bool) \<times> job_db" where
  "requeue_mobile_job_if_running job_id owner safe_error progress now db =
     (case validate_mobile_job_json ''progress_json'' (Some progress) of
        Inl e \<Rightarrow> (Inl e, db)
      | Inr u \<Rightarrow> update_one (owned_running job_id owner)
          (\<lambda>r. r\<lparr>mj_state := ''queued'', mj_progress_json := Some progress,
                 mj_last_error := redact_mobile_job_error (Some safe_error),
                 mj_updated_at := now, mj_finished_at := None,
                 mj_lease_owner := None, mj_lease_expires_at := None\<rparr>) db)"

definition reclaim_mobile_jobs_from_foreign_process ::
  "string \<Rightarrow> int \<Rightarrow> job_db \<Rightarrow> (StoreError + nat) \<times> job_db" where
  "reclaim_mobile_jobs_from_foreign_process current_owner now db =
     (case validate_mobile_job_part ''owner'' current_owner of
        Inl e \<Rightarrow> (Inl e, db)
      | Inr u \<Rightarrow>
          let p = (\<lambda>r. mj_state r = ''running'' \<and> mj_lease_owner r \<noteq> None
                      \<and> mj_lease_owner r \<noteq> Some current_owner)
          in (Inr (sql_count p db),
              sql_update p (\<lambda>r. r\<lparr>mj_state := ''queued'', mj_lease_owner := None,
                mj_lease_expires_at := None, mj_updated_at := now,
                mj_last_error := Some ''process_handoff''\<rparr>) db))"

section \<open>Idempotency keys\<close>

definition canonical_len_fields :: "string list \<Rightarrow> string" where
  "canonical_len_fields fs = concat (map (\<lambda>f. show_nat (length f) @ '':'' @ f @ '';'') fs)"

text \<open>\<open>sha256\<close> is the digest of the \<^verbatim>\<open>sha2\<close> crate, on bytes.\<close>

definition sha256_hex :: "(string \<Rightarrow> bytes) \<Rightarrow> string \<Rightarrow> string" where
  "sha256_hex sha256 s = concat (map hex_byte (sha256 s))"

text \<open>\<^verbatim>\<open>sort\<close> followed by \<^verbatim>\<open>dedup\<close>, which drops repeated neighbours.\<close>

definition service_scope :: "string list \<Rightarrow> string" where
  "service_scope services =
     (let services' = remdups_adj (sort services)
      in if services' = [] then ''all'' else canonical_len_fields services')"

definition mobile_backup_idempotency_key ::
  "(string \<Rightarrow> bytes) \<Rightarrow> string \<Rightarrow> string list \<Rightarrow> StoreError + string" where
  "mobile_backup_idempotency_key sha256 account services =
     (case check_all (validate_mobile_job_part ''account'' account
             # map (validate_mobile_job_part ''service'') (remdups_adj (sort services))) of
        Inl e \<Rightarrow> Inl e
      | Inr u \<Rightarrow> Inr (''backup:'' @ account @ '':'' @ sha256_hex sha256 (service_scope services)))"

definition mobile_restore_cloud_idempotency_key ::
  "(string \<Rightarrow> bytes) \<Rightarrow> string \<Rightarrow> string \<Rightarrow> string \<Rightarrow> StoreError + string" where
  "mobile_restore_cloud_idempotency_key sha256 account service source_id =
     (case check_all [validate_mobile_job_part ''account'' account,
             validate_mobile_job_part ''service'' service,
             validate_mobile_job_part ''source_id'' source_id] of
        Inl e \<Rightarrow> Inl e
      | Inr u \<Rightarrow> Inr (''restore-cloud:'' @
          sha256_hex sha256 (canonical_len_fields [account, service, source_id])))"

section \<open>Sequences of calls\<close>

datatype job_call =
    JobCreate string string MobileJobKind "string option" "string option" string string int
  | JobTransition string MobileJobState int "string option" "string option" "string option"
  | JobAcquire string string int int
  | JobRelease string string
  | JobFinish string string int "string option"
  | JobFail string string int string
  | JobProgress string string string int
  | JobRequeue string string string string int
  | JobReclaim string int

fun job_exec :: "job_call \<Rightarrow> job_db \<Rightarrow> job_db" where
  "job_exec (JobCreate i a k s t key intent now) db = snd (create_mobile_job i a k s t key intent now db)"
| "job_exec (JobTransition i to now pr re err) db = snd (transition_mobile_job i to now pr re err db)"
| "job_exec (JobAcquire i ow now ttl) db = snd (acquire_mobile_job_lease i ow now ttl db)"
| "job_exec (JobRelease i ow) db = snd (release_mobile_job_lease i ow db)"
| "job_exec (JobFinish i ow now re) db = snd (finish_mobile_job_if_running i ow now re db)"
| "job_exec (JobFail i ow now err) db = snd (fail_mobile_job_if_running i ow now err db)"
| "job_exec (JobProgress i ow pr now) db = snd (update_mobile_job_progress_if_running i ow pr now db)"
| "job_exec (JobRequeue i ow err pr now) db = snd (requeue_mobile_job_if_running i ow err pr now db)"
| "job_exec (JobReclaim ow now) db = snd (reclaim_mobile_jobs_from_foreign_process ow now db)"

abbreviation job_run :: "job_call list \<Rightarrow> job_db \<Rightarrow> job_db" where
  "job_run calls db \<equiv> fold job_exec calls db"

section \<open>The invariant of the queue\<close>

definition secret_free :: "string option \<Rightarrow> bool" where
  "secret_free t \<longleftrightarrow> (case t of None \<Rightarrow> True | Some s \<Rightarrow> \<not> mobile_job_contains_secret_shape s)"

definition job_ok :: "job_row \<Rightarrow> bool" where
  "job_ok r \<longleftrightarrow> (\<exists>st kind. mj_state r = job_as_str st \<and> mj_kind r = kind_as_str kind
     \<and> (mj_finished_at r \<noteq> None \<longleftrightarrow> job_is_terminal st)
     \<and> (st \<noteq> Running \<longrightarrow> mj_lease_owner r = None)
     \<and> (mj_lease_owner r = None \<longleftrightarrow> mj_lease_expires_at r = None)
     \<and> 0 \<le> mj_attempts r
     \<and> secret_free (Some (mj_intent_json r)) \<and> secret_free (mj_progress_json r)
     \<and> secret_free (mj_result_json r) \<and> secret_free (mj_last_error r))"

definition jobs_ok :: "job_db \<Rightarrow> bool" where
  "jobs_ok db \<longleftrightarrow> unique_rows mj_job_id db \<and> (\<forall>r \<in> set db. job_ok r)
     \<and> (\<forall>r \<in> set db. \<forall>r' \<in> set db. job_open (mj_state r) \<and> job_open (mj_state r')
          \<and> mj_account_id r = mj_account_id r' \<and> mj_idempotency_key r = mj_idempotency_key r'
          \<longrightarrow> mj_job_id r = mj_job_id r')"

section \<open>Contracts\<close>

interpretation kind_wire: wire_enum kind_as_str kind_parse
proof unfold_locales
  show "kind_parse (kind_as_str s) = Some s" for s
    by (cases s) (simp_all add: kind_parse_def)
  show "kind_parse t = Some s \<Longrightarrow> t = kind_as_str s" for t s
    by (auto simp: kind_parse_def split: if_splits)
qed

interpretation job_wire: wire_enum job_as_str job_parse
proof unfold_locales
  show "job_parse (job_as_str s) = Some s" for s
    by (cases s) (simp_all add: job_parse_def)
  show "job_parse t = Some s \<Longrightarrow> t = job_as_str s" for t s
    by (auto simp: job_parse_def split: if_splits)
qed

lemmas job_parse_simps [simp, wire_simps] =
  kind_wire.parse_as_str kind_wire.as_str_inject job_wire.parse_as_str job_wire.as_str_inject

interpretation job_machine: transition_system job_can_transition_to job_is_terminal
proof unfold_locales
  show "job_is_terminal s \<Longrightarrow> \<not> job_can_transition_to s t" for s t
    by (cases t) (auto simp: job_is_terminal_def)
qed

interpretation jobs_by_id: keyed_rows mj_job_id .

section \<open>Lemmas on secrets\<close>

lemma contains_text_iff: "contains_text needle s \<longleftrightarrow> (\<exists>a b. s = a @ needle @ b)"
proof (induction s)
  case (Cons c s)
  have "take (length needle) (c # s) = needle \<longleftrightarrow> (\<exists>b. c # s = needle @ b)"
    by (metis append_eq_conv_conj append_take_drop_id)
  moreover have "(\<exists>a b. c # s = a @ needle @ b)
      \<longleftrightarrow> (\<exists>b. c # s = needle @ b) \<or> (\<exists>a b. s = a @ needle @ b)"
    by (metis append_Cons append_Nil list.exhaust list.inject)
  ultimately show ?case using Cons.IH by simp
qed simp

lemma take_chars_prefix: "\<exists>t. s = take_chars n s @ t"
  by (induction n s rule: take_chars.induct) (auto split: nat.split)

lemma secret_shape_prefix:
  assumes "\<not> mobile_job_contains_secret_shape s"
  shows "\<not> mobile_job_contains_secret_shape (take_chars n s)"
proof
  assume "mobile_job_contains_secret_shape (take_chars n s)"
  then obtain needle where n: "needle \<in> set secret_needles"
    "contains_text needle (map ascii_lower (take_chars n s))"
    by (auto simp: mobile_job_contains_secret_shape_def list_ex_iff)
  obtain t where t: "s = take_chars n s @ t" using take_chars_prefix by blast
  from n(2) obtain a b where "map ascii_lower (take_chars n s) = a @ needle @ b"
    by (auto simp: contains_text_iff)
  then have "map ascii_lower s = a @ needle @ (b @ map ascii_lower t)"
    by (subst t) simp
  then have "contains_text needle (map ascii_lower s)" by (auto simp: contains_text_iff)
  with n(1) assms show False by (auto simp: mobile_job_contains_secret_shape_def list_ex_iff)
qed

lemma redacted_clean: "\<not> mobile_job_contains_secret_shape ''[redacted]''"
  by code_simp

lemma handoff_clean: "\<not> mobile_job_contains_secret_shape ''process_handoff''"
  by code_simp

lemma secret_free_simps [simp]:
  "secret_free None" "secret_free (redact_mobile_job_error e)" "secret_free (Some ''process_handoff'')"
  by (auto simp: secret_free_def redact_mobile_job_error_def redacted_clean handoff_clean secret_shape_prefix
      split: option.split)

lemma secret_free_coalesce: "secret_free x \<Longrightarrow> secret_free y \<Longrightarrow> secret_free (coalesce x y)"
  by (cases x) simp_all

lemma validate_json_ok: "validate_mobile_job_json l v = Inr u \<Longrightarrow> secret_free v"
  by (auto simp: validate_mobile_job_json_def secret_free_def split: option.splits if_splits)

lemma validate_intent_ok: "validate_mobile_job_intent i = Inr u \<Longrightarrow> secret_free (Some i)"
  by (auto simp: validate_mobile_job_intent_def secret_free_def split: sum.splits if_splits)

lemma check_all_ok: "check_all vs = Inr u \<longleftrightarrow> (\<forall>v \<in> set vs. v = Inr ())"
  by (induction vs) (auto split: sum.splits)

section \<open>The calls keep the invariant\<close>

text \<open>Text forms in the conditions of the statements.\<close>

lemma job_text [simp]:
  "job_as_str st = ''queued'' \<longleftrightarrow> st = Queued" "job_as_str st = ''running'' \<longleftrightarrow> st = Running"
  "job_as_str st = ''succeeded'' \<longleftrightarrow> st = Succeeded" "job_as_str st = ''failed'' \<longleftrightarrow> st = Failed"
  "job_as_str st = ''cancelled'' \<longleftrightarrow> st = Cancelled"
  by (cases st; simp)+

lemma job_open_as_str [simp]: "job_open (job_as_str st) \<longleftrightarrow> \<not> job_is_terminal st"
  by (cases st) (simp_all add: job_open_def job_is_terminal_def)

lemma job_okI:
  assumes "mj_state r = job_as_str st" "mj_kind r = kind_as_str kind"
    "mj_finished_at r \<noteq> None \<longleftrightarrow> job_is_terminal st" "st \<noteq> Running \<Longrightarrow> mj_lease_owner r = None"
    "mj_lease_owner r = None \<longleftrightarrow> mj_lease_expires_at r = None" "0 \<le> mj_attempts r"
    "secret_free (Some (mj_intent_json r))" "secret_free (mj_progress_json r)"
    "secret_free (mj_result_json r)" "secret_free (mj_last_error r)"
  shows "job_ok r"
  unfolding job_ok_def using assms by (intro exI [of _ st] exI [of _ kind]) simp

lemma job_okE:
  assumes "job_ok r"
  obtains st kind where "mj_state r = job_as_str st" "mj_kind r = kind_as_str kind"
    "mj_finished_at r \<noteq> None \<longleftrightarrow> job_is_terminal st" "st \<noteq> Running \<Longrightarrow> mj_lease_owner r = None"
    "mj_lease_owner r = None \<longleftrightarrow> mj_lease_expires_at r = None" "0 \<le> mj_attempts r"
    "secret_free (Some (mj_intent_json r))" "secret_free (mj_progress_json r)"
    "secret_free (mj_result_json r)" "secret_free (mj_last_error r)"
proof -
  from assms obtain st kind where "mj_state r = job_as_str st \<and> mj_kind r = kind_as_str kind
     \<and> (mj_finished_at r \<noteq> None \<longleftrightarrow> job_is_terminal st)
     \<and> (st \<noteq> Running \<longrightarrow> mj_lease_owner r = None)
     \<and> (mj_lease_owner r = None \<longleftrightarrow> mj_lease_expires_at r = None)
     \<and> 0 \<le> mj_attempts r
     \<and> secret_free (Some (mj_intent_json r)) \<and> secret_free (mj_progress_json r)
     \<and> secret_free (mj_result_json r) \<and> secret_free (mj_last_error r)"
    unfolding job_ok_def by (elim exE) (rule that)
  then show ?thesis by (intro that) blast+
qed

lemma jobs_okD:
  assumes "jobs_ok db"
  shows "unique_rows mj_job_id db" "r \<in> set db \<Longrightarrow> job_ok r"
    "r \<in> set db \<Longrightarrow> r' \<in> set db \<Longrightarrow> job_open (mj_state r) \<Longrightarrow> job_open (mj_state r')
      \<Longrightarrow> mj_account_id r = mj_account_id r' \<Longrightarrow> mj_idempotency_key r = mj_idempotency_key r'
      \<Longrightarrow> mj_job_id r = mj_job_id r'"
  using assms unfolding jobs_ok_def by blast+

lemma update_keeps_jobs_ok:
  assumes ok: "jobs_ok db"
    and ids: "\<And>r. mj_job_id (f r) = mj_job_id r" "\<And>r. mj_account_id (f r) = mj_account_id r"
      "\<And>r. mj_idempotency_key (f r) = mj_idempotency_key r"
    and row: "\<And>r. r \<in> set db \<Longrightarrow> p r \<Longrightarrow> job_ok r \<Longrightarrow> job_ok (f r)"
    and op: "\<And>r. r \<in> set db \<Longrightarrow> p r \<Longrightarrow> job_open (mj_state r)"
  shows "jobs_ok (sql_update p f db)"
  unfolding jobs_ok_def
proof (intro conjI ballI impI)
  show "unique_rows mj_job_id (sql_update p f db)"
    using ok ids(1) by (auto simp: jobs_ok_def intro: jobs_by_id.unique_update)
  show "job_ok r" if "r \<in> set (sql_update p f db)" for r
    using that ok row by (auto simp: jobs_ok_def set_sql_update)
  fix r r'
  assume r: "r \<in> set (sql_update p f db)" "r' \<in> set (sql_update p f db)"
    and same: "job_open (mj_state r) \<and> job_open (mj_state r') \<and> mj_account_id r = mj_account_id r'
      \<and> mj_idempotency_key r = mj_idempotency_key r'"
  from r obtain q q' where q: "q \<in> set db" "q' \<in> set db"
    "r = (if p q then f q else q)" "r' = (if p q' then f q' else q')"
    by (auto simp: set_sql_update)
  moreover have "job_open (mj_state q)" "job_open (mj_state q')"
    using same q op by (auto split: if_splits)
  moreover have "mj_account_id q = mj_account_id q'" "mj_idempotency_key q = mj_idempotency_key q'"
    using same q(3,4) ids by (auto split: if_splits)
  ultimately have "mj_job_id q = mj_job_id q'" using jobs_okD(3) [OF ok, of q q'] by blast
  with q(3,4) ids(1) show "mj_job_id r = mj_job_id r'" by simp
qed

lemma create_keeps_jobs_ok:
  assumes "jobs_ok db"
  shows "jobs_ok (snd (create_mobile_job i a k s t key intent now db))"
proof (cases "snd (create_mobile_job i a k s t key intent now db) = db")
  case False
  define new where "new = \<lparr>mj_job_id = i, mj_account_id = a, mj_kind = kind_as_str k,
      mj_service = s, mj_target_id = t, mj_idempotency_key = key, mj_state = ''queued'',
      mj_intent_json = intent, mj_progress_json = None, mj_result_json = None, mj_attempts = 0,
      mj_lease_owner = None, mj_lease_expires_at = None, mj_created_at = now, mj_updated_at = now,
      mj_finished_at = None, mj_last_error = None\<rparr>"
  from False have db': "snd (create_mobile_job i a k s t key intent now db) = db @ [new]"
    and fresh: "row_by mj_job_id i db = None"
      "\<not> list_ex (\<lambda>r. mj_account_id r = a \<and> mj_idempotency_key r = key \<and> job_open (mj_state r)) db"
    and checks: "create_checks i a s t key intent = Inr ()"
    by (auto simp: create_mobile_job_def new_def Let_def split: sum.splits if_splits)
  from checks have intent: "validate_mobile_job_intent intent = Inr ()"
    unfolding create_checks_def check_all_ok by simp
  have "job_ok new"
    by (rule job_okI [of _ Queued k])
      (simp_all add: new_def job_is_terminal_def validate_intent_ok [OF intent])
  moreover have "unique_rows mj_job_id (db @ [new])"
    using assms fresh(1) by (intro jobs_by_id.unique_insert) (simp_all add: jobs_ok_def new_def)
  moreover have "mj_job_id r = mj_job_id r'"
    if r: "r \<in> set (db @ [new])" "r' \<in> set (db @ [new])" and "job_open (mj_state r)" "job_open (mj_state r')"
      and same: "mj_account_id r = mj_account_id r'" "mj_idempotency_key r = mj_idempotency_key r'" for r r'
  proof -
    have other: "\<not> (mj_account_id q = a \<and> mj_idempotency_key q = key)"
      if "q \<in> set db" "job_open (mj_state q)" for q
      using fresh(2) that by (auto simp: list_ex_iff)
    have new: "mj_account_id new = a" "mj_idempotency_key new = key" by (simp_all add: new_def)
    consider "r = new" "r' = new" | "r \<in> set db" "r' = new" | "r = new" "r' \<in> set db"
      | "r \<in> set db" "r' \<in> set db" using r by auto
    then show ?thesis
    proof cases
      case 4
      then show ?thesis using jobs_okD(3) [OF assms, of r r'] that by blast
    qed (use other new same that in auto)
  qed
  moreover have "job_ok r" if "r \<in> set (db @ [new])" for r
    using that jobs_okD(2) [OF assms, of r] \<open>job_ok new\<close> by auto
  ultimately show ?thesis
    unfolding db' jobs_ok_def by blast
qed (simp add: assms)

lemma moved_job_ids [simp]:
  "mj_job_id (moved_job to now pr re err r) = mj_job_id r"
  "mj_account_id (moved_job to now pr re err r) = mj_account_id r"
  "mj_idempotency_key (moved_job to now pr re err r) = mj_idempotency_key r"
  by (simp_all add: moved_job_def)

lemma moved_job_ok:
  assumes "job_ok r" and "mj_state r = job_as_str st" and "job_can_transition_to st to"
    and "secret_free pr" and "secret_free re" and "secret_free err"
  shows "job_ok (moved_job to now pr re err r)"
  using assms(1)
proof (rule job_okE)
  fix st' kind
  assume *: "mj_state r = job_as_str st'" "mj_kind r = kind_as_str kind"
    "mj_finished_at r \<noteq> None \<longleftrightarrow> job_is_terminal st'" "st' \<noteq> Running \<Longrightarrow> mj_lease_owner r = None"
    "mj_lease_owner r = None \<longleftrightarrow> mj_lease_expires_at r = None" "0 \<le> mj_attempts r"
    "secret_free (Some (mj_intent_json r))" "secret_free (mj_progress_json r)"
    "secret_free (mj_result_json r)" "secret_free (mj_last_error r)"
  have "st' = st" using *(1) assms(2) by simp
  moreover have "\<not> job_is_terminal st" using assms(3) job_machine.terminal_stuck by blast
  moreover have "to = Running \<or> job_is_terminal to"
    using assms(3) by (cases to; cases st) (simp_all add: job_is_terminal_def)
  ultimately show ?thesis
    using * assms(4-6)
    by (intro job_okI [of _ to kind]) (auto simp: moved_job_def secret_free_coalesce)
qed

lemma transition_jobE:
  assumes "fst (transition_mobile_job i to now pr re err db) = Inr u"
  obtains cur st where "row_by mj_job_id i db = Some cur" "mj_state cur = job_as_str st"
    "job_can_transition_to st to" "secret_free pr" "secret_free re"
    "snd (transition_mobile_job i to now pr re err db)
      = sql_update (\<lambda>r. mj_job_id r = i) (moved_job to now pr re (redact_mobile_job_error err)) db"
  using assms
  by (auto simp: transition_mobile_job_def check_all_ok job_wire.parse_iff
      split: sum.splits option.splits if_splits dest: validate_json_ok)

lemma transition_job_error:
  "fst (transition_mobile_job i to now pr re err db) = Inl e
   \<Longrightarrow> snd (transition_mobile_job i to now pr re err db) = db"
  by (auto simp: transition_mobile_job_def split: sum.splits option.splits if_splits)

lemma transition_keeps_jobs_ok:
  assumes "jobs_ok db"
  shows "jobs_ok (snd (transition_mobile_job i to now pr re err db))"
proof (cases "fst (transition_mobile_job i to now pr re err db)")
  case (Inl e)
  with assms show ?thesis by (simp add: transition_job_error)
next
  case (Inr u)
  then show ?thesis
  proof (rule transition_jobE)
    fix cur st
    assume cur: "row_by mj_job_id i db = Some cur" "mj_state cur = job_as_str st"
      "job_can_transition_to st to" "secret_free pr" "secret_free re"
    assume eq: "snd (transition_mobile_job i to now pr re err db)
      = sql_update (\<lambda>r. mj_job_id r = i) (moved_job to now pr re (redact_mobile_job_error err)) db"
    have only: "r = cur" if "r \<in> set db" "mj_job_id r = i" for r
      using jobs_by_id.member_row_by [of db r] that assms cur(1) by (simp add: jobs_ok_def)
    have live: "\<not> job_is_terminal st" using cur(3) job_machine.terminal_stuck by blast
    show ?thesis
      unfolding eq using cur live only
      by (intro update_keeps_jobs_ok [OF assms]) (auto intro: moved_job_ok)
  qed
qed

text \<open>The other writes touch open rows only and leave the identity alone.\<close>

lemma open_row_states:
  "owned_running i ow r \<Longrightarrow> job_open (mj_state r)" "job_available now r \<Longrightarrow> job_open (mj_state r)"
  by (auto simp: owned_running_def job_available_def job_open_def)

lemma owned_update_keeps_jobs_ok:
  assumes "jobs_ok db"
    and "\<And>r. mj_job_id (f r) = mj_job_id r" "\<And>r. mj_account_id (f r) = mj_account_id r"
      "\<And>r. mj_idempotency_key (f r) = mj_idempotency_key r"
    and "\<And>r. owned_running i ow r \<Longrightarrow> job_ok r \<Longrightarrow> job_ok (f r)"
  shows "jobs_ok (snd (update_one (owned_running i ow) f db))"
  unfolding update_one_def snd_conv
  using assms by (intro update_keeps_jobs_ok) (auto dest: open_row_states)

lemma release_keeps_jobs_ok: "jobs_ok db \<Longrightarrow> jobs_ok (snd (release_mobile_job_lease i ow db))"
  unfolding release_mobile_job_lease_def
  by (rule owned_update_keeps_jobs_ok) (auto simp: owned_running_def elim!: job_okE intro!: job_okI)

lemma finish_keeps_jobs_ok:
  assumes "jobs_ok db"
  shows "jobs_ok (snd (finish_mobile_job_if_running i ow now re db))"
proof (cases "validate_mobile_job_json ''result_json'' re")
  case (Inr u)
  then have "secret_free re" by (rule validate_json_ok)
  then show ?thesis
    unfolding finish_mobile_job_if_running_def Inr sum.case
    by (intro owned_update_keeps_jobs_ok [OF assms])
      (auto simp: job_is_terminal_def secret_free_coalesce elim!: job_okE intro!: job_okI [of _ Succeeded])
qed (simp add: finish_mobile_job_if_running_def assms)

lemma fail_keeps_jobs_ok:
  assumes "jobs_ok db"
  shows "jobs_ok (snd (fail_mobile_job_if_running i ow now err db))"
  unfolding fail_mobile_job_if_running_def
  by (intro owned_update_keeps_jobs_ok [OF assms])
    (auto simp: job_is_terminal_def elim!: job_okE intro!: job_okI [of _ Failed])

lemma progress_keeps_jobs_ok:
  assumes "jobs_ok db"
  shows "jobs_ok (snd (update_mobile_job_progress_if_running i ow pr now db))"
proof (cases "validate_mobile_job_json ''progress_json'' (Some pr)")
  case (Inr u)
  then have "secret_free (Some pr)" by (rule validate_json_ok)
  then show ?thesis
    unfolding update_mobile_job_progress_if_running_def Inr sum.case
    by (intro owned_update_keeps_jobs_ok [OF assms]) (auto elim!: job_okE intro!: job_okI)
qed (simp add: update_mobile_job_progress_if_running_def assms)

lemma requeue_keeps_jobs_ok:
  assumes "jobs_ok db"
  shows "jobs_ok (snd (requeue_mobile_job_if_running i ow err pr now db))"
proof (cases "validate_mobile_job_json ''progress_json'' (Some pr)")
  case (Inr u)
  then have "secret_free (Some pr)" by (rule validate_json_ok)
  then show ?thesis
    unfolding requeue_mobile_job_if_running_def Inr sum.case
    by (intro owned_update_keeps_jobs_ok [OF assms])
      (auto simp: job_is_terminal_def elim!: job_okE intro!: job_okI [of _ Queued])
qed (simp add: requeue_mobile_job_if_running_def assms)

lemma acquire_keeps_jobs_ok:
  assumes "jobs_ok db"
  shows "jobs_ok (snd (acquire_mobile_job_lease i ow now ttl db))"
proof (cases "snd (acquire_mobile_job_lease i ow now ttl db) = db")
  case False
  then have "snd (acquire_mobile_job_lease i ow now ttl db)
    = sql_update (\<lambda>r. mj_job_id r = i \<and> job_available now r)
        (\<lambda>r. r\<lparr>mj_state := ''running'', mj_lease_owner := Some ow,
                   mj_lease_expires_at := Some (now + ttl), mj_updated_at := now,
                   mj_attempts := mj_attempts r + 1\<rparr>) db"
    by (auto simp: acquire_mobile_job_lease_def update_one_def split: sum.splits if_splits)
  then show ?thesis
    by (simp only:) (intro update_keeps_jobs_ok [OF assms],
      auto simp: job_available_def job_is_terminal_def job_open_def elim!: job_okE intro!: job_okI [of _ Running])
qed (simp add: assms)

lemma reclaim_keeps_jobs_ok:
  assumes "jobs_ok db"
  shows "jobs_ok (snd (reclaim_mobile_jobs_from_foreign_process ow now db))"
proof (cases "validate_mobile_job_part ''owner'' ow")
  case (Inr u)
  then show ?thesis
    unfolding reclaim_mobile_jobs_from_foreign_process_def Inr sum.case Let_def snd_conv
    by (intro update_keeps_jobs_ok [OF assms])
      (auto simp: job_is_terminal_def job_open_def elim!: job_okE intro!: job_okI [of _ Queued])
qed (simp add: reclaim_mobile_jobs_from_foreign_process_def assms)

lemma job_exec_keeps_ok: "jobs_ok db \<Longrightarrow> jobs_ok (job_exec c db)"
  by (cases c) (simp_all add: create_keeps_jobs_ok transition_keeps_jobs_ok acquire_keeps_jobs_ok
      release_keeps_jobs_ok finish_keeps_jobs_ok fail_keeps_jobs_ok progress_keeps_jobs_ok
      requeue_keeps_jobs_ok reclaim_keeps_jobs_ok)

lemma job_run_keeps_ok: "jobs_ok db \<Longrightarrow> jobs_ok (job_run calls db)"
  by (induction calls arbitrary: db) (simp_all add: job_exec_keeps_ok)

lemma empty_jobs_ok: "jobs_ok []"
  by (simp add: jobs_ok_def unique_rows_def)

section \<open>Idempotency keys\<close>

lemma canonical_Cons: "canonical_len_fields (f # fs) = show_nat (length f) @ CHR '':'' # f @ CHR '';'' # canonical_len_fields fs"
  by (simp add: canonical_len_fields_def)

lemma canonical_len_fields_inject: "canonical_len_fields fs = canonical_len_fields gs \<longleftrightarrow> fs = gs"
proof (induction fs arbitrary: gs)
  case Nil
  then show ?case by (cases gs) (simp_all add: canonical_Cons, simp add: canonical_len_fields_def)
next
  case (Cons f fs)
  show ?case
  proof
    assume eq: "canonical_len_fields (f # fs) = canonical_len_fields gs"
    then obtain g gs' where gs: "gs = g # gs'" by (cases gs) (auto simp: canonical_Cons canonical_len_fields_def)
    have "CHR '':'' \<notin> set (show_nat n)" for n
      using show_nat_digits [of "CHR '':''" n] by auto
    with eq gs have "show_nat (length f) = show_nat (length g)"
      and rest: "f @ CHR '';'' # canonical_len_fields fs = g @ CHR '';'' # canonical_len_fields gs'"
      by (auto simp: canonical_Cons append_first_separator)
    then have "length f = length g" by simp
    with rest Cons.IH [of gs'] gs show "f # fs = gs" by simp
  qed simp
qed

lemma canonical_not_all: "fs \<noteq> [] \<Longrightarrow> canonical_len_fields fs \<noteq> ''all''"
proof (cases fs)
  case (Cons f fs')
  have "hd (show_nat (length f)) \<in> set (show_nat (length f))" by simp
  then have "(of_char (hd (show_nat (length f))) :: nat) \<in> {48..57}" by (rule show_nat_digits)
  then have "hd (canonical_len_fields fs) \<noteq> CHR ''a''" using Cons by (auto simp: canonical_Cons)
  then show ?thesis by auto
qed simp

text \<open>\<^verbatim>\<open>sort\<close> and \<^verbatim>\<open>dedup\<close> compute the sorted list of the set.\<close>

lemma sorted_remdups_adj_distinct: "sorted xs \<Longrightarrow> sorted (remdups_adj xs) \<and> distinct (remdups_adj (xs :: 'a :: linorder list))"
proof (induction xs rule: remdups_adj.induct)
  case (3 x y xs)
  then show ?case by (cases "x = y") (force simp: remdups_adj_set)+
qed simp_all

lemma dedup_sort: "remdups_adj (sort xs) = sorted_list_of_set (set (xs :: 'a :: linorder list))"
proof -
  have "sorted (remdups_adj (sort xs)) \<and> distinct (remdups_adj (sort xs))"
    by (rule sorted_remdups_adj_distinct) simp
  then show ?thesis by (intro sorted_distinct_set_unique) simp_all
qed

lemma service_scope_eq_iff: "service_scope xs = service_scope ys \<longleftrightarrow> set xs = set ys"
proof -
  have "sorted_list_of_set (set xs) = sorted_list_of_set (set ys) \<longleftrightarrow> set xs = set ys"
    using sorted_list_of_set_inject [of "set xs" "set ys"] by auto
  then show ?thesis
    using canonical_not_all
    by (auto simp: service_scope_def dedup_sort canonical_len_fields_inject dest: sym)
qed

section \<open>Terminal rows, owners and leases\<close>

lemma row_by_update_other:
  assumes "\<And>r. mj_job_id (f r) = mj_job_id r" and "row_by mj_job_id i db = Some r" and "\<not> p r"
  shows "row_by mj_job_id i (sql_update p f db) = Some r"
  using assms by (simp add: row_by_sql_update)

lemma terminal_not_open: "job_ok r \<Longrightarrow> mj_finished_at r \<noteq> None \<Longrightarrow> \<not> job_open (mj_state r)"
  by (erule job_okE) simp

lemma terminal_row_stays:
  assumes "row_by mj_job_id i db = Some r" and "\<not> job_open (mj_state r)"
  shows "row_by mj_job_id i (job_exec c db) = Some r"
proof (cases c)
  case (JobCreate j a k s t key intent now)
  then show ?thesis using assms
    by (auto simp: create_mobile_job_def Let_def row_by_append split: sum.split)
next
  case (JobTransition j to now pr re err)
  show ?thesis
  proof (cases "fst (transition_mobile_job j to now pr re err db)")
    case (Inl e)
    with JobTransition assms show ?thesis by (simp add: transition_job_error)
  next
    case (Inr u)
    then show ?thesis
    proof (rule transition_jobE)
      fix cur st
      assume cur: "row_by mj_job_id j db = Some cur" "mj_state cur = job_as_str st" "job_can_transition_to st to"
        and eq: "snd (transition_mobile_job j to now pr re err db)
          = sql_update (\<lambda>r. mj_job_id r = j) (moved_job to now pr re (redact_mobile_job_error err)) db"
      have "mj_job_id r \<noteq> j"
        using assms cur row_by_SomeD [OF assms(1)] job_machine.terminal_stuck by fastforce
      with JobTransition eq assms show ?thesis by (simp add: row_by_update_other)
    qed
  qed
qed (use assms in \<open>auto simp: owned_running_def job_available_def acquire_mobile_job_lease_def release_mobile_job_lease_def
    finish_mobile_job_if_running_def fail_mobile_job_if_running_def
    update_mobile_job_progress_if_running_def requeue_mobile_job_if_running_def
    reclaim_mobile_jobs_from_foreign_process_def update_one_def Let_def job_open_def
    split: sum.split intro!: row_by_update_other\<close>)

lemma terminal_row_stays_run:
  "row_by mj_job_id i db = Some r \<Longrightarrow> \<not> job_open (mj_state r)
   \<Longrightarrow> row_by mj_job_id i (job_run calls db) = Some r"
  by (induction calls arbitrary: db) (simp_all add: terminal_row_stays)

lemma update_one_none:
  assumes "jobs_ok db" and "row_by mj_job_id i db = Some r" and "\<not> p r"
    and "\<And>q. p q \<Longrightarrow> mj_job_id q = i"
  shows "update_one p f db = (Inr False, db)"
proof -
  have no: "\<not> p q" if "q \<in> set db" for q
    using jobs_by_id.member_row_by [OF jobs_okD(1) [OF assms(1)] that] assms(2-4) by fastforce
  then have "filter p db = []" by (simp add: filter_empty_conv)
  with no show ?thesis by (simp add: update_one_def sql_count_def sql_update_id)
qed

lemma job_acquire_True_row:
  assumes "jobs_ok db" and "fst (acquire_mobile_job_lease i a now ttl db) = Inr True"
  obtains r where "row_by mj_job_id i (snd (acquire_mobile_job_lease i a now ttl db)) = Some r"
    "mj_state r = ''running''" "mj_lease_owner r = Some a" "mj_lease_expires_at r = Some (now + ttl)"
proof -
  let ?f = "\<lambda>r :: job_row. r\<lparr>mj_state := ''running'', mj_lease_owner := Some a,
     mj_lease_expires_at := Some (now + ttl), mj_updated_at := now, mj_attempts := mj_attempts r + 1\<rparr>"
  have cnt: "sql_count (\<lambda>r. mj_job_id r = i \<and> job_available now r) db = 1"
    and eq: "snd (acquire_mobile_job_lease i a now ttl db)
      = sql_update (\<lambda>r. mj_job_id r = i \<and> job_available now r) ?f db"
    using assms(2) by (auto simp: acquire_mobile_job_lease_def update_one_def split: sum.splits if_splits)
  from cnt obtain r where r: "row_by mj_job_id i db = Some r" "job_available now r"
    using jobs_by_id.count_eq_1_iff [OF jobs_okD(1) [OF assms(1)], of i "job_available now"] by auto
  with row_by_SomeD [OF r(1)] show ?thesis
    by (intro that [of "?f r"]) (simp_all add: eq row_by_sql_update)
qed

section \<open>Properties\<close>


text \<open>A terminal job is final. Once a job has succeeded, failed or been cancelled, no sequence of calls
  by any worker changes any column of its row: a late result cannot revive a cancelled job.\<close>

theorem terminal_job_is_final:
  assumes "get_mobile_job i (job_run calls []) = Inr (Some job)" and "job_is_terminal (mj_state job)"
  shows "get_mobile_job i (job_run later (job_run calls [])) = Inr (Some job)"
proof -
  from assms(1) obtain r where r: "row_by mj_job_id i (job_run calls []) = Some r" "map_mobile_job r = Inr job"
    by (auto simp: get_mobile_job_def map_sum_def split: option.splits sum.splits)
  have "mj_state r = job_as_str (mj_state job)"
    using r(2) by (auto simp: map_mobile_job_def job_wire.parse_iff split: option.splits)
  then have "\<not> job_open (mj_state r)" using assms(2) by simp
  from terminal_row_stays_run [OF r(1) this] r(2) show ?thesis by (simp add: get_mobile_job_def)
qed

text \<open>A job that is created, leased and cancelled while its worker runs.\<close>

definition demo_jobs :: "job_call list" where
  "demo_jobs = [JobCreate ''j'' ''a'' Backup None None ''key'' ''intent'' 1, JobAcquire ''j'' ''w1'' 2 60,
     JobTransition ''j'' Cancelled 3 None None None]"

theorem terminal_job_is_final_witness:
  "\<exists>job. get_mobile_job ''j'' (job_run [JobFinish ''j'' ''w1'' 4 (Some ''done'')] (job_run demo_jobs []))
     = Inr (Some job) \<and> mj_state job = Cancelled"
proof -
  have "case get_mobile_job ''j'' (job_run demo_jobs []) of
      Inr (Some job) \<Rightarrow> mj_state job = Cancelled | _ \<Rightarrow> False"
    by code_simp
  then obtain job where "get_mobile_job ''j'' (job_run demo_jobs []) = Inr (Some job)" "mj_state job = Cancelled"
    by (auto split: sum.splits option.splits)
  then show ?thesis
    using terminal_job_is_final [of "''j''" demo_jobs job] job_is_terminal_def by blast
qed



text \<open>Idempotency keys identify requests. The key of a backup depends only on the account and the set of
  services, in whatever order and with whatever repetition they are given; if the digest does not
  collide on the two requests, two backups with the same key are for the same account and services.\<close>

theorem backup_key_identifies_request:
  assumes "\<forall>x. length (sha256 x) = 32"
    and "sha256 (service_scope services) = sha256 (service_scope services')
      \<longrightarrow> service_scope services = service_scope services'"
    and "mobile_backup_idempotency_key sha256 account services = Inr k"
    and "mobile_backup_idempotency_key sha256 account' services' = Inr k'"
  shows "k = k' \<longleftrightarrow> account = account' \<and> set services = set services'"
proof -
  have k: "k = ''backup:'' @ account @ '':'' @ sha256_hex sha256 (service_scope services)"
    "k' = ''backup:'' @ account' @ '':'' @ sha256_hex sha256 (service_scope services')"
    using assms(3,4) by (auto simp: mobile_backup_idempotency_key_def split: sum.splits)
  have "length (sha256_hex sha256 x) = length (sha256_hex sha256 y)" for x y
    using assms(1) by (simp add: sha256_hex_def length_hex_string)
  then have "k = k' \<longleftrightarrow> account = account'
      \<and> sha256_hex sha256 (service_scope services) = sha256_hex sha256 (service_scope services')"
    unfolding k by (auto simp: append_eq_append_conv)
  also have "\<dots> \<longleftrightarrow> account = account' \<and> service_scope services = service_scope services'"
    using assms(2) by (auto simp: sha256_hex_def hex_string_inject)
  also have "\<dots> \<longleftrightarrow> account = account' \<and> set services = set services'"
    by (simp add: service_scope_eq_iff)
  finally show ?thesis .
qed

text \<open>A stand-in for the digest, with its length.\<close>

definition toy_digest :: "string \<Rightarrow> bytes" where
  "toy_digest s = replicate 31 0 @ [of_nat (length s)]"

theorem backup_key_identifies_request_witness:
  "mobile_backup_idempotency_key toy_digest ''a'' [''mail'', ''calendar'']
     = mobile_backup_idempotency_key toy_digest ''a'' [''calendar'', ''mail'', ''mail'']"
proof -
  have "service_scope [''mail'', ''calendar''] = service_scope [''calendar'', ''mail'', ''mail'']"
    by code_simp
  moreover obtain k k' where "mobile_backup_idempotency_key toy_digest ''a'' [''mail'', ''calendar''] = Inr k"
    "mobile_backup_idempotency_key toy_digest ''a'' [''calendar'', ''mail'', ''mail''] = Inr k'"
    by (simp add: mobile_backup_idempotency_key_def check_all_ok validate_mobile_job_part_def)
  ultimately show ?thesis
    using backup_key_identifies_request [of toy_digest "[''mail'', ''calendar'']" "[''calendar'', ''mail'', ''mail'']"
        "''a''" k "''a''" k'] by (auto simp: toy_digest_def)
qed

text \<open>The length-prefixed encoding under the keys is injective, so a restore request is identified by
  what is hashed: equal keys on requests whose digests do not collide mean equal account, service
  and source item, whatever characters they contain.\<close>

theorem restore_key_identifies_request:
  assumes "sha256 (canonical_len_fields [a, s, i]) = sha256 (canonical_len_fields [a', s', i'])
      \<longrightarrow> canonical_len_fields [a, s, i] = canonical_len_fields [a', s', i']"
    and "mobile_restore_cloud_idempotency_key sha256 a s i = Inr k"
    and "mobile_restore_cloud_idempotency_key sha256 a' s' i' = Inr k'"
  shows "k = k' \<longleftrightarrow> (a, s, i) = (a', s', i')"
proof -
  have "k = ''restore-cloud:'' @ sha256_hex sha256 (canonical_len_fields [a, s, i])"
    "k' = ''restore-cloud:'' @ sha256_hex sha256 (canonical_len_fields [a', s', i'])"
    using assms(2,3) by (auto simp: mobile_restore_cloud_idempotency_key_def split: sum.splits)
  then have "k = k' \<longleftrightarrow> sha256 (canonical_len_fields [a, s, i]) = sha256 (canonical_len_fields [a', s', i'])"
    by (simp add: sha256_hex_def hex_string_inject)
  also have "\<dots> \<longleftrightarrow> canonical_len_fields [a, s, i] = canonical_len_fields [a', s', i']"
    using assms(1) by metis
  finally show ?thesis by (simp add: canonical_len_fields_inject)
qed

theorem restore_key_identifies_request_witness:
  "mobile_restore_cloud_idempotency_key toy_digest ''a:b'' ''mail'' ''1''
     \<noteq> mobile_restore_cloud_idempotency_key toy_digest ''a'' ''mail'' ''b:123''"
proof -
  have ne: "toy_digest (canonical_len_fields [''a:b'', ''mail'', ''1''])
      \<noteq> toy_digest (canonical_len_fields [''a'', ''mail'', ''b:123''])"
    by code_simp
  obtain k k' where k: "mobile_restore_cloud_idempotency_key toy_digest ''a:b'' ''mail'' ''1'' = Inr k"
    "mobile_restore_cloud_idempotency_key toy_digest ''a'' ''mail'' ''b:123'' = Inr k'"
    by (simp add: mobile_restore_cloud_idempotency_key_def validate_mobile_job_part_def)
  from restore_key_identifies_request [OF _ k] ne k show ?thesis by auto
qed

end
