(* ===== verification/Sync_Automaton.thy ===== *)
theory Sync_Automaton
  imports Prelude
begin

text \<open>
  The per-item sync automaton of \<^verbatim>\<open>crates/core/src/sync_state.rs\<close>: its states, its events, the total
  transition function \<open>on\<close> and the text form the store keeps. To say what the states mean, the
  automaton is run beside a ghost record of the two copies of the item, in which every change gets a
  new version: which versions exist, which were picked up by the operation under way and which are
  the same on both sides. The automaton itself never sees the ghost.
\<close>

section \<open>States and events\<close>

datatype SyncState = Clean | LocalDirty | RemoteDirty | BothDirty | Conflict | DeletePending
  | TrashPending | UploadStaged | DownloadStaged | ErrorRetryable | ErrorFatal

datatype SyncEvent = LocalModified | RemoteModified | LocalRemoved | RemoteRemoved | UploadStarted
  | UploadFinished | DownloadStarted | DownloadFinished | DeleteFinished | ConflictResolved
  | RetryableError | FatalError | Recovered

definition on :: "SyncState \<Rightarrow> SyncEvent \<Rightarrow> SyncState" where
  "on s event =
     (case s of
        Clean \<Rightarrow> (case event of LocalModified \<Rightarrow> LocalDirty
          | RemoteModified \<Rightarrow> RemoteDirty
          | LocalRemoved \<Rightarrow> DeletePending
          | RemoteRemoved \<Rightarrow> TrashPending
          | _ \<Rightarrow> s)
      | LocalDirty \<Rightarrow> (case event of RemoteModified \<Rightarrow> BothDirty
          | UploadStarted \<Rightarrow> UploadStaged
          | LocalRemoved \<Rightarrow> DeletePending
          | RemoteRemoved \<Rightarrow> Conflict
          | RetryableError \<Rightarrow> ErrorRetryable
          | FatalError \<Rightarrow> ErrorFatal
          | _ \<Rightarrow> s)
      | RemoteDirty \<Rightarrow> (case event of LocalModified \<Rightarrow> BothDirty
          | DownloadStarted \<Rightarrow> DownloadStaged
          | RemoteRemoved \<Rightarrow> TrashPending
          | LocalRemoved \<Rightarrow> Conflict
          | RetryableError \<Rightarrow> ErrorRetryable
          | FatalError \<Rightarrow> ErrorFatal
          | _ \<Rightarrow> s)
      | BothDirty \<Rightarrow> (case event of ConflictResolved \<Rightarrow> Clean
          | LocalRemoved \<Rightarrow> Conflict
          | RemoteRemoved \<Rightarrow> Conflict
          | RetryableError \<Rightarrow> ErrorRetryable
          | FatalError \<Rightarrow> ErrorFatal
          | _ \<Rightarrow> s)
      | UploadStaged \<Rightarrow> (case event of UploadFinished \<Rightarrow> Clean
          | LocalModified \<Rightarrow> LocalDirty
          | RemoteModified \<Rightarrow> BothDirty
          | RetryableError \<Rightarrow> ErrorRetryable
          | FatalError \<Rightarrow> ErrorFatal
          | _ \<Rightarrow> s)
      | DownloadStaged \<Rightarrow> (case event of DownloadFinished \<Rightarrow> Clean
          | RemoteModified \<Rightarrow> RemoteDirty
          | LocalModified \<Rightarrow> BothDirty
          | RetryableError \<Rightarrow> ErrorRetryable
          | FatalError \<Rightarrow> ErrorFatal
          | _ \<Rightarrow> s)
      | DeletePending \<Rightarrow> (case event of DeleteFinished \<Rightarrow> Clean
          | RemoteModified \<Rightarrow> Conflict
          | RetryableError \<Rightarrow> ErrorRetryable
          | FatalError \<Rightarrow> ErrorFatal
          | _ \<Rightarrow> s)
      | TrashPending \<Rightarrow> (case event of DeleteFinished \<Rightarrow> Clean
          | LocalModified \<Rightarrow> Conflict
          | RetryableError \<Rightarrow> ErrorRetryable
          | FatalError \<Rightarrow> ErrorFatal
          | _ \<Rightarrow> s)
      | Conflict \<Rightarrow> (case event of ConflictResolved \<Rightarrow> Clean
          | FatalError \<Rightarrow> ErrorFatal
          | _ \<Rightarrow> s)
      | ErrorRetryable \<Rightarrow> (case event of Recovered \<Rightarrow> Clean
          | FatalError \<Rightarrow> ErrorFatal
          | _ \<Rightarrow> s)
      | ErrorFatal \<Rightarrow> (case event of Recovered \<Rightarrow> Clean
          | _ \<Rightarrow> s))"

fun sync_as_str :: "SyncState \<Rightarrow> string" where
  "sync_as_str Clean = ''clean''"
| "sync_as_str LocalDirty = ''local_dirty''"
| "sync_as_str RemoteDirty = ''remote_dirty''"
| "sync_as_str BothDirty = ''both_dirty''"
| "sync_as_str Conflict = ''conflict''"
| "sync_as_str DeletePending = ''delete_pending''"
| "sync_as_str TrashPending = ''trash_pending''"
| "sync_as_str UploadStaged = ''upload_staged''"
| "sync_as_str DownloadStaged = ''download_staged''"
| "sync_as_str ErrorRetryable = ''error_retryable''"
| "sync_as_str ErrorFatal = ''error_fatal''"

definition sync_parse :: "string \<Rightarrow> SyncState option" where
  "sync_parse s =
     (if s = ''clean'' then Some Clean
      else if s = ''local_dirty'' then Some LocalDirty
      else if s = ''remote_dirty'' then Some RemoteDirty
      else if s = ''both_dirty'' then Some BothDirty
      else if s = ''conflict'' then Some Conflict
      else if s = ''delete_pending'' then Some DeletePending
      else if s = ''trash_pending'' then Some TrashPending
      else if s = ''upload_staged'' then Some UploadStaged
      else if s = ''download_staged'' then Some DownloadStaged
      else if s = ''error_retryable'' then Some ErrorRetryable
      else if s = ''error_fatal'' then Some ErrorFatal
      else None)"

definition is_pending :: "SyncState \<Rightarrow> bool" where
  "is_pending s \<longleftrightarrow> s \<noteq> Clean"

definition is_error :: "SyncState \<Rightarrow> bool" where
  "is_error s \<longleftrightarrow> s = ErrorRetryable \<or> s = ErrorFatal"

section \<open>The two copies of the item\<close>

text \<open>\<open>local_v\<close> and \<open>remote_v\<close> count the changes made to each copy, \<open>local_op\<close> and \<open>remote_op\<close> are the
  versions the upload, download or deletion under way started from, and \<open>local_ok\<close> and \<open>remote_ok\<close>
  the versions the other side has taken over.\<close>

record copies =
  local_v :: nat
  remote_v :: nat
  local_op :: nat
  remote_op :: nat
  local_ok :: nat
  remote_ok :: nat

definition in_sync :: "copies \<Rightarrow> bool" where
  "in_sync g \<longleftrightarrow> local_ok g = local_v g \<and> remote_ok g = remote_v g"

definition reconciled :: "copies \<Rightarrow> copies" where
  "reconciled g = g\<lparr>local_ok := local_v g, remote_ok := remote_v g\<rparr>"

text \<open>What an event means for the copies. A removal is picked up by the deletion it makes pending; a
  finished operation hands over the version it started from, and a finished deletion leaves no copy,
  so that it also covers a removal on the other side; a resolved conflict and the re-scan after an
  error reconcile both copies.\<close>

definition happen :: "SyncState \<Rightarrow> SyncEvent \<Rightarrow> copies \<Rightarrow> copies" where
  "happen s e g =
     (case e of
        LocalModified \<Rightarrow> g\<lparr>local_v := local_v g + 1\<rparr>
      | RemoteModified \<Rightarrow> g\<lparr>remote_v := remote_v g + 1\<rparr>
      | LocalRemoved \<Rightarrow> g\<lparr>local_v := local_v g + 1,
            local_op := if on s LocalRemoved = DeletePending then local_v g + 1 else local_op g\<rparr>
      | RemoteRemoved \<Rightarrow> g\<lparr>remote_v := remote_v g + 1,
            remote_op := if on s RemoteRemoved = TrashPending then remote_v g + 1 else remote_op g\<rparr>
      | UploadStarted \<Rightarrow> if s = LocalDirty then g\<lparr>local_op := local_v g\<rparr> else g
      | DownloadStarted \<Rightarrow> if s = RemoteDirty then g\<lparr>remote_op := remote_v g\<rparr> else g
      | UploadFinished \<Rightarrow> if s = UploadStaged then g\<lparr>local_ok := local_op g\<rparr> else g
      | DownloadFinished \<Rightarrow> if s = DownloadStaged then g\<lparr>remote_ok := remote_op g\<rparr> else g
      | DeleteFinished \<Rightarrow>
          if s = DeletePending then g\<lparr>local_ok := local_op g, remote_ok := remote_v g\<rparr>
          else if s = TrashPending then g\<lparr>remote_ok := remote_op g, local_ok := local_v g\<rparr>
          else g
      | ConflictResolved \<Rightarrow> if s \<in> {BothDirty, Conflict} then reconciled g else g
      | Recovered \<Rightarrow> if is_error s then reconciled g else g
      | RetryableError \<Rightarrow> g
      | FatalError \<Rightarrow> g)"

fun sync_run :: "SyncEvent list \<Rightarrow> SyncState \<times> copies \<Rightarrow> SyncState \<times> copies" where
  "sync_run [] sg = sg"
| "sync_run (e # es) (s, g) = sync_run es (on s e, happen s e g)"

definition fresh_copies :: copies where
  "fresh_copies = \<lparr>local_v = 0, remote_v = 0, local_op = 0, remote_op = 0, local_ok = 0, remote_ok = 0\<rparr>"

text \<open>The pairs the transition function treats as no-ops although a copy changed under an operation:
  a removal while a transfer is staged, and an edit of the copy whose deletion is pending.\<close>

definition forgets :: "SyncState \<Rightarrow> SyncEvent \<Rightarrow> bool" where
  "forgets s e \<longleftrightarrow> s \<in> {UploadStaged, DownloadStaged} \<and> e \<in> {LocalRemoved, RemoteRemoved}
     \<or> s = DeletePending \<and> e = LocalModified \<or> s = TrashPending \<and> e = RemoteModified"

fun forgetful_run :: "SyncState \<Rightarrow> SyncEvent list \<Rightarrow> bool" where
  "forgetful_run s [] = False"
| "forgetful_run s (e # es) = (forgets s e \<or> forgetful_run (on s e) es)"

text \<open>What each state says of the copies.\<close>

fun coherent :: "SyncState \<Rightarrow> copies \<Rightarrow> bool" where
  "coherent Clean g = in_sync g"
| "coherent LocalDirty g = (remote_ok g = remote_v g)"
| "coherent RemoteDirty g = (local_ok g = local_v g)"
| "coherent UploadStaged g = (local_op g = local_v g \<and> remote_ok g = remote_v g)"
| "coherent DownloadStaged g = (remote_op g = remote_v g \<and> local_ok g = local_v g)"
| "coherent DeletePending g = (local_op g = local_v g)"
| "coherent TrashPending g = (remote_op g = remote_v g)"
| "coherent _ g = True"

section \<open>Lemmas\<close>

lemma sync_parse_as_str [wire_simps]: "sync_parse (sync_as_str s) = Some s"
  by (cases s) (simp_all add: sync_parse_def)

interpretation sync_wire: wire_enum sync_as_str sync_parse
proof
  show "sync_parse (sync_as_str s) = Some s" for s by (rule sync_parse_as_str)
  show "sync_parse t = Some s \<Longrightarrow> t = sync_as_str s" for t s
    by (auto simp: sync_parse_def split: if_splits)
qed

lemma step_coherent:
  assumes "coherent s g" and "\<not> forgets s e"
  shows "coherent (on s e) (happen s e g)"
  using assms
  by (cases s; cases e) (simp_all add: on_def happen_def in_sync_def reconciled_def is_error_def forgets_def)

lemma run_coherent:
  assumes "coherent s g" and "\<not> forgetful_run s es"
  shows "case sync_run es (s, g) of (s', g') \<Rightarrow> coherent s' g'"
  using assms
proof (induction es arbitrary: s g)
  case (Cons e es)
  then have "coherent (on s e) (happen s e g)" "\<not> forgetful_run (on s e) es"
    by (simp_all add: step_coherent)
  with Cons.IH show ?case by simp
qed simp

lemma fresh_coherent: "coherent Clean fresh_copies"
  by (simp add: fresh_copies_def in_sync_def)

lemma forgotten_change:
  assumes "coherent s g" and "forgets s e"
  shows "\<exists>f. on (on s e) f = Clean \<and> \<not> in_sync (happen (on s e) f (happen s e g))"
  using assms
proof (cases s)
  case UploadStaged
  with assms show ?thesis
    by (intro exI [of _ UploadFinished]) (auto simp: forgets_def on_def happen_def in_sync_def)
next
  case DownloadStaged
  with assms show ?thesis
    by (intro exI [of _ DownloadFinished]) (auto simp: forgets_def on_def happen_def in_sync_def)
next
  case DeletePending
  with assms show ?thesis
    by (intro exI [of _ DeleteFinished]) (auto simp: forgets_def on_def happen_def in_sync_def)
next
  case TrashPending
  with assms show ?thesis
    by (intro exI [of _ DeleteFinished]) (auto simp: forgets_def on_def happen_def in_sync_def)
qed (auto simp: forgets_def)

lemma step_to_Clean:
  assumes "coherent s g" and "on s f = Clean"
  shows "in_sync (happen s f g)"
proof -
  have "\<not> forgets s f" using assms(2) by (auto simp: forgets_def on_def)
  from step_coherent [OF assms(1) this] assms(2) show ?thesis by simp
qed

section \<open>Properties\<close>



text \<open>The exceptions are exact. From a state that is coherent with the copies, an event can be followed
  by the end of the operation under way into \<open>Clean\<close> with the copies out of sync exactly for the six
  forgetful pairs: a removal on either side during a staged upload or download, a local edit while
  the deletion is pending, a remote edit while the move to trash is pending.\<close>

theorem forgotten_changes_exact:
  assumes "coherent s g"
  shows "forgets s e \<longleftrightarrow>
    (\<exists>f. on (on s e) f = Clean \<and> \<not> in_sync (happen (on s e) f (happen s e g)))"
proof
  show "forgets s e \<Longrightarrow> \<exists>f. on (on s e) f = Clean \<and> \<not> in_sync (happen (on s e) f (happen s e g))"
    using forgotten_change [OF assms] .
  assume "\<exists>f. on (on s e) f = Clean \<and> \<not> in_sync (happen (on s e) f (happen s e g))"
  then show "forgets s e"
    using step_to_Clean step_coherent [OF assms] by blast
qed

theorem forgotten_changes_exact_witness:
  "\<exists>f. on (on UploadStaged LocalRemoved) f = Clean
     \<and> \<not> in_sync (happen (on UploadStaged LocalRemoved) f (happen UploadStaged LocalRemoved fresh_copies))"
proof -
  have "coherent UploadStaged fresh_copies" by (simp add: fresh_copies_def)
  moreover have "forgets UploadStaged LocalRemoved" by (simp add: forgets_def)
  ultimately show ?thesis using forgotten_changes_exact by blast
qed

end
