(* ===== verification/Pending_Actions.thy ===== *)
theory Pending_Actions
  imports Prelude
begin

text \<open>
  Per-action confirmation tokens, \<^verbatim>\<open>crates/core/src/pending.rs\<close>: the catalogue of gated operations
  and services with their text forms, the descriptor parser, the length-prefixed action hash, and the
  registry of pending actions with its four operations. The registry is a map from ids to entries,
  times are \<open>u64\<close> words (\<^verbatim>\<open>saturating_add\<close> written out). SHA-256 of the \<^verbatim>\<open>ring\<close> crate is the parameter
  \<open>sha256\<close>, and what the system's random generator delivers is an argument of \<open>register\<close>.
\<close>

unbundle bit_operations_syntax

section \<open>The catalogue\<close>

datatype ConfirmationOperation = Delete | Share | ExternalShare | Backup | RestoreCloud | LiveWrite
  | Upload | Replace | MoveOutOfProtected | ModeSwitchOfflineLarge | ConflictKeepMine | Bulk
  | UserPresence

datatype ConfirmationService = Mail | Calendar | Contacts | Todo | Onenote | Onedrive | Backup | Agent

definition ALL_operations :: "ConfirmationOperation list" where
  "ALL_operations = [Delete, Share, ExternalShare, ConfirmationOperation.Backup, RestoreCloud,
     LiveWrite, Upload, Replace, MoveOutOfProtected, ModeSwitchOfflineLarge, ConflictKeepMine, Bulk,
     UserPresence]"

definition op_parse :: "string \<Rightarrow> ConfirmationOperation option" where
  "op_parse v =
     (if v = ''delete'' then Some Delete
      else if v = ''share'' then Some Share
      else if v = ''external-share'' then Some ExternalShare
      else if v = ''backup'' then Some ConfirmationOperation.Backup
      else if v = ''restore-cloud'' then Some RestoreCloud
      else if v = ''live-write'' then Some LiveWrite
      else if v = ''upload'' then Some Upload
      else if v = ''replace'' then Some Replace
      else if v = ''move-out-of-protected'' then Some MoveOutOfProtected
      else if v = ''mode-switch-offline-large'' then Some ModeSwitchOfflineLarge
      else if v = ''conflict-keep-mine'' then Some ConflictKeepMine
      else if v = ''bulk'' then Some Bulk
      else if v = ''user-presence'' then Some UserPresence
      else None)"

fun op_as_str :: "ConfirmationOperation \<Rightarrow> string" where
  "op_as_str Delete = ''delete''"
| "op_as_str Share = ''share''"
| "op_as_str ExternalShare = ''external-share''"
| "op_as_str ConfirmationOperation.Backup = ''backup''"
| "op_as_str RestoreCloud = ''restore-cloud''"
| "op_as_str LiveWrite = ''live-write''"
| "op_as_str Upload = ''upload''"
| "op_as_str Replace = ''replace''"
| "op_as_str MoveOutOfProtected = ''move-out-of-protected''"
| "op_as_str ModeSwitchOfflineLarge = ''mode-switch-offline-large''"
| "op_as_str ConflictKeepMine = ''conflict-keep-mine''"
| "op_as_str Bulk = ''bulk''"
| "op_as_str UserPresence = ''user-presence''"

fun allows_service :: "ConfirmationOperation \<Rightarrow> ConfirmationService \<Rightarrow> bool" where
  "allows_service Delete s = (s \<in> {Calendar, Contacts, Todo, Onenote, Onedrive})"
| "allows_service Share s = (s = Onedrive)"
| "allows_service ExternalShare s = (s = Onedrive)"
| "allows_service ConfirmationOperation.Backup s = (s \<in> {ConfirmationService.Backup, Agent})"
| "allows_service RestoreCloud s = (s \<in> {Mail, Calendar, Contacts, Todo, Onenote})"
| "allows_service LiveWrite s = (s \<in> {Mail, Calendar, Contacts, Todo, Onenote})"
| "allows_service Upload s = (s = Onedrive)"
| "allows_service Replace s = (s = Onedrive)"
| "allows_service MoveOutOfProtected s = (s = Onedrive)"
| "allows_service ModeSwitchOfflineLarge s = (s = Onedrive)"
| "allows_service ConflictKeepMine s = (s = Onedrive)"
| "allows_service Bulk s = (s \<in> {Onedrive, Todo})"
| "allows_service UserPresence s = (s = Agent)"

definition service_parse :: "string \<Rightarrow> ConfirmationService option" where
  "service_parse v =
     (if v = ''mail'' then Some Mail
      else if v = ''calendar'' then Some Calendar
      else if v = ''contacts'' then Some Contacts
      else if v = ''todo'' then Some Todo
      else if v = ''onenote'' then Some Onenote
      else if v = ''onedrive'' then Some Onedrive
      else if v = ''backup'' then Some ConfirmationService.Backup
      else if v = ''agent'' then Some Agent
      else None)"

fun service_as_str :: "ConfirmationService \<Rightarrow> string" where
  "service_as_str Mail = ''mail''"
| "service_as_str Calendar = ''calendar''"
| "service_as_str Contacts = ''contacts''"
| "service_as_str Todo = ''todo''"
| "service_as_str Onenote = ''onenote''"
| "service_as_str Onedrive = ''onedrive''"
| "service_as_str ConfirmationService.Backup = ''backup''"
| "service_as_str Agent = ''agent''"

definition requires_confirmation :: "string \<Rightarrow> bool" where
  "requires_confirmation op \<longleftrightarrow> op_parse op \<noteq> None"

datatype RegistrationError = UnknownOperation | UnknownService | InvalidServiceForOperation
  | RandomnessUnavailable

datatype DescribeError = NotFound | Expired

datatype ConsumeError = NotFound | Expired | NotConfirmed | HashMismatch

record PendingActionDescriptor =
  d_op :: ConfirmationOperation
  d_service :: ConfirmationService

definition descriptor_parse :: "string \<Rightarrow> string \<Rightarrow> RegistrationError + PendingActionDescriptor" where
  "descriptor_parse op service =
     (case op_parse op of
        None \<Rightarrow> Inl UnknownOperation
      | Some op \<Rightarrow>
          (case service_parse service of
             None \<Rightarrow> Inl UnknownService
           | Some service \<Rightarrow>
               if \<not> allows_service op service then Inl InvalidServiceForOperation
               else Inr \<lparr>d_op = op, d_service = service\<rparr>))"

section \<open>The registry\<close>

record Pending =
  p_action_hash :: bytes
  p_expires_at_ms :: u64
  p_biometric_confirmed :: bool
  p_descriptor :: PendingActionDescriptor

type_synonym registry = "string \<Rightarrow> Pending option"

definition DEFAULT_TTL_MS :: u64 where
  "DEFAULT_TTL_MS = 120000"

text \<open>The bytes that are hashed: every field after its length as eight little-endian bytes
  (\<^verbatim>\<open>f.len() as u64\<close>).\<close>

definition field_bytes :: "string \<Rightarrow> bytes" where
  "field_bytes f = le_bytes 8 (unat (of_nat (length f) :: u64)) @ str_bytes f"

definition action_bytes :: "string \<Rightarrow> string \<Rightarrow> string \<Rightarrow> string \<Rightarrow> bytes" where
  "action_bytes op account service item = concat (map field_bytes [op, account, service, item])"

definition action_hash :: "(bytes \<Rightarrow> bytes) \<Rightarrow> string \<Rightarrow> string \<Rightarrow> string \<Rightarrow> string \<Rightarrow> bytes" where
  "action_hash sha256 op account service item = sha256 (action_bytes op account service item)"

definition ct_eq :: "bytes \<Rightarrow> bytes \<Rightarrow> bool" where
  "ct_eq a b =
     (if length a \<noteq> length b then False
      else fold (\<lambda>(x, y) diff. diff OR (x XOR y)) (zip a b) 0 = 0)"

definition random_hex :: "bytes option \<Rightarrow> string option" where
  "random_hex fill = map_option (\<lambda>buf. concat (map hex_byte buf)) fill"

definition saturating_add :: "u64 \<Rightarrow> u64 \<Rightarrow> u64" where
  "saturating_add a b = (if unat a + unat b < 2 ^ 64 then a + b else - 1)"

definition register ::
  "(bytes \<Rightarrow> bytes) \<Rightarrow> bytes option \<Rightarrow> string \<Rightarrow> string \<Rightarrow> string \<Rightarrow> string \<Rightarrow> u64 \<Rightarrow> u64
     \<Rightarrow> registry \<Rightarrow> (RegistrationError + string) \<times> registry" where
  "register sha256 fill op account service item now_ms ttl_ms m =
     (case descriptor_parse op service of
        Inl e \<Rightarrow> (Inl e, m)
      | Inr descriptor \<Rightarrow>
          (case random_hex fill of
             None \<Rightarrow> (Inl RandomnessUnavailable, m)
           | Some pid \<Rightarrow>
               (Inr pid, m(pid \<mapsto> \<lparr>p_action_hash = action_hash sha256 op account service item,
                  p_expires_at_ms = saturating_add now_ms ttl_ms,
                  p_biometric_confirmed = False, p_descriptor = descriptor\<rparr>))))"

definition confirm_biometric :: "string \<Rightarrow> u64 \<Rightarrow> registry \<Rightarrow> bool \<times> registry" where
  "confirm_biometric pid now_ms m =
     (case m pid of
        Some p \<Rightarrow>
          if now_ms \<le> p_expires_at_ms p then (True, m(pid \<mapsto> p\<lparr>p_biometric_confirmed := True\<rparr>))
          else (False, m(pid := None))
      | None \<Rightarrow> (False, m))"

definition consume ::
  "(bytes \<Rightarrow> bytes) \<Rightarrow> string \<Rightarrow> string \<Rightarrow> string \<Rightarrow> string \<Rightarrow> string \<Rightarrow> u64
     \<Rightarrow> registry \<Rightarrow> (ConsumeError + unit) \<times> registry" where
  "consume sha256 pid op account service item now_ms m =
     (case m pid of
        None \<Rightarrow> (Inl NotFound, m)
      | Some pending \<Rightarrow>
          if now_ms > p_expires_at_ms pending then (Inl Expired, m(pid := None))
          else if \<not> p_biometric_confirmed pending then (Inl NotConfirmed, m)
          else if \<not> ct_eq (action_hash sha256 op account service item) (p_action_hash pending)
          then (Inl HashMismatch, m)
          else (Inr (), m(pid := None)))"

definition describe :: "string \<Rightarrow> u64 \<Rightarrow> registry \<Rightarrow> (DescribeError + PendingActionDescriptor) \<times> registry" where
  "describe pid now_ms m =
     (case m pid of
        None \<Rightarrow> (Inl DescribeError.NotFound, m)
      | Some pending \<Rightarrow>
          if now_ms > p_expires_at_ms pending then (Inl DescribeError.Expired, m(pid := None))
          else (Inr (p_descriptor pending), m))"

section \<open>Histories of calls\<close>

text \<open>The registry is behind a mutex, so that what its clients do is a sequence of whole calls.\<close>

datatype pending_call =
    Register "bytes option" string string string string u64 u64
  | Confirm string u64
  | Consume string string string string string u64
  | Describe string u64

datatype pending_reply =
    Registered "RegistrationError + string"
  | Confirmed bool
  | Consumed "ConsumeError + unit"
  | Described "DescribeError + PendingActionDescriptor"

fun pending_step :: "(bytes \<Rightarrow> bytes) \<Rightarrow> pending_call \<Rightarrow> registry \<Rightarrow> pending_reply \<times> registry" where
  "pending_step H (Register fill op a s i now ttl) m = map_prod Registered id (register H fill op a s i now ttl m)"
| "pending_step H (Confirm pid now) m = map_prod Confirmed id (confirm_biometric pid now m)"
| "pending_step H (Consume pid op a s i now) m = map_prod Consumed id (consume H pid op a s i now m)"
| "pending_step H (Describe pid now) m = map_prod Described id (describe pid now m)"

type_synonym history = "(pending_call \<times> pending_reply) list"

fun replay :: "(bytes \<Rightarrow> bytes) \<Rightarrow> pending_call list \<Rightarrow> history \<times> registry \<Rightarrow> history \<times> registry" where
  "replay H [] hm = hm"
| "replay H (c # cs) (h, m) = (case pending_step H c m of (r, m') \<Rightarrow> replay H cs (h @ [(c, r)], m'))"

text \<open>A text of the program is a slice of memory: its length is a \<^verbatim>\<open>usize\<close>.\<close>

fun addressable :: "pending_call \<Rightarrow> bool" where
  "addressable (Register fill op a s i now ttl) = list_all (\<lambda>f. length f < 2 ^ 64) [op, a, s, i]"
| "addressable (Consume pid op a s i now) = list_all (\<lambda>f. length f < 2 ^ 64) [op, a, s, i]"
| "addressable _ = True"

text \<open>Nothing in a stretch of history registers the id again or spends it.\<close>

definition unspent :: "string \<Rightarrow> history \<Rightarrow> bool" where
  "unspent pid h = list_all (\<lambda>(c, r). r \<noteq> Registered (Inr pid)
     \<and> (r = Consumed (Inr ()) \<longrightarrow> (case c of Consume p op a s i now \<Rightarrow> p \<noteq> pid | _ \<Rightarrow> True))) h"

text \<open>An entry is backed by the history: by the call that registered it and, if it is confirmed, by a
  confirmation since then, before the deadline.\<close>

definition backed :: "(bytes \<Rightarrow> bytes) \<Rightarrow> string \<Rightarrow> Pending \<Rightarrow> history \<Rightarrow> bool" where
  "backed H pid p h \<longleftrightarrow> (\<exists>pre mid fill op a s i t ttl.
     h = pre @ (Register fill op a s i t ttl, Registered (Inr pid)) # mid \<and> unspent pid mid
     \<and> p_action_hash p = action_hash H op a s i \<and> p_expires_at_ms p = saturating_add t ttl
     \<and> descriptor_parse op s = Inr (p_descriptor p)
     \<and> (p_biometric_confirmed p \<longrightarrow>
          (\<exists>tc. (Confirm pid tc, Confirmed True) \<in> set mid \<and> tc \<le> p_expires_at_ms p)))"

definition all_backed :: "(bytes \<Rightarrow> bytes) \<Rightarrow> history \<times> registry \<Rightarrow> bool" where
  "all_backed H hm \<longleftrightarrow> (\<forall>pid p. snd hm pid = Some p \<longrightarrow> backed H pid p (fst hm))"

text \<open>Calls that leave a pending action alone: no other registration draws its id, nobody touches it after
  the deadline, and no attempt to spend it presents its hash.\<close>

fun spares :: "(bytes \<Rightarrow> bytes) \<Rightarrow> string \<Rightarrow> u64 \<Rightarrow> bytes \<Rightarrow> pending_call \<Rightarrow> bool" where
  "spares H pid deadline hash (Register fill op a s i now ttl) = (random_hex fill \<noteq> Some pid)"
| "spares H pid deadline hash (Confirm q now) = (q = pid \<longrightarrow> now \<le> deadline)"
| "spares H pid deadline hash (Consume q op a s i now) =
     (q = pid \<longrightarrow> now \<le> deadline \<and> action_hash H op a s i \<noteq> hash)"
| "spares H pid deadline hash (Describe q now) = (q = pid \<longrightarrow> now \<le> deadline)"

section \<open>The catalogue is consistent\<close>

lemma op_parse_as_str [wire_simps]: "op_parse (op_as_str x) = Some x"
  by (cases x) (simp_all add: op_parse_def)

lemma service_parse_as_str [wire_simps]: "service_parse (service_as_str x) = Some x"
  by (cases x) (simp_all add: service_parse_def)

interpretation op_wire: wire_enum op_as_str op_parse
proof
  show "op_parse (op_as_str x) = Some x" for x by (rule op_parse_as_str)
  show "op_parse t = Some x \<Longrightarrow> t = op_as_str x" for t x
    by (auto simp: op_parse_def split: if_splits)
qed

interpretation service_wire: wire_enum service_as_str service_parse
proof
  show "service_parse (service_as_str x) = Some x" for x by (rule service_parse_as_str)
  show "service_parse t = Some x \<Longrightarrow> t = service_as_str x" for t x
    by (auto simp: service_parse_def split: if_splits)
qed

lemma descriptor_parse_iff:
  "descriptor_parse op s = Inr d \<longleftrightarrow>
     op = op_as_str (d_op d) \<and> s = service_as_str (d_service d) \<and> allows_service (d_op d) (d_service d)"
proof
  assume "descriptor_parse op s = Inr d"
  then show "op = op_as_str (d_op d) \<and> s = service_as_str (d_service d) \<and> allows_service (d_op d) (d_service d)"
    by (auto simp: descriptor_parse_def op_wire.parse_iff service_wire.parse_iff split: option.splits if_splits)
qed (simp add: descriptor_parse_def wire_simps)

section \<open>The hash and its comparison\<close>

lemma fold_or_zero:
  "fold (\<lambda>(x, y) diff. diff OR (x XOR y)) ps (d :: u8) = 0 \<longleftrightarrow> d = 0 \<and> (\<forall>(x, y) \<in> set ps. x = y)"
proof (induction ps arbitrary: d)
  case (Cons q ps)
  obtain x y where q: "q = (x, y)" by (cases q)
  have "x = y" if "x XOR y = 0"
    using that by (metis xor.assoc xor.right_neutral xor_self_eq)
  then have "d OR (x XOR y) = 0 \<longleftrightarrow> d = 0 \<and> x = y"
    by (auto simp: or_eq_0_iff xor_self_eq)
  with Cons q show ?case by auto
qed simp

lemma zip_all_eq: "length a = length b \<Longrightarrow> (\<forall>(x, y) \<in> set (zip a b). x = y) \<longleftrightarrow> a = b"
  by (induction a b rule: list_induct2) auto

lemma ct_eq_iff: "ct_eq a b \<longleftrightarrow> a = b"
  by (auto simp: ct_eq_def fold_or_zero zip_all_eq)

lemma field_bytes_inject:
  assumes "length f < 2 ^ 64" and "length g < 2 ^ 64"
  shows "field_bytes f @ xs = field_bytes g @ ys \<longleftrightarrow> f = g \<and> xs = ys"
proof -
  have len: "unat (of_nat n :: u64) = n" if "n < 2 ^ 64" for n
    using that by (simp add: unat_of_nat)
  have "le_bytes 8 (length f) = le_bytes 8 (length g) \<longleftrightarrow> length f = length g"
    by (rule le_bytes_inject) (use assms in simp_all)
  then show ?thesis
    using len [OF assms(1)] len [OF assms(2)] by (auto simp: field_bytes_def append_eq_append_conv)
qed

lemma action_bytes_inject:
  assumes "list_all (\<lambda>f. length f < 2 ^ 64) [op, a, s, i]"
    and "list_all (\<lambda>f. length f < 2 ^ 64) [op', a', s', i']"
  shows "action_bytes op a s i = action_bytes op' a' s' i' \<longleftrightarrow> (op, a, s, i) = (op', a', s', i')"
  using assms field_bytes_inject [of i i' "[]" "[]"]
  by (simp add: action_bytes_def field_bytes_inject)

section \<open>Every entry is backed by the history\<close>

lemma unspent_simps [simp]:
  "unspent pid []" "unspent pid (h @ h') \<longleftrightarrow> unspent pid h \<and> unspent pid h'"
  by (simp_all add: unspent_def)

lemma backed_snoc:
  assumes "backed H pid p h" and "unspent pid [e]"
  shows "backed H pid p (h @ [e])"
proof -
  from assms(1) obtain pre mid fill op a s i t ttl where
    *: "h = pre @ (Register fill op a s i t ttl, Registered (Inr pid)) # mid" "unspent pid mid"
    "p_action_hash p = action_hash H op a s i" "p_expires_at_ms p = saturating_add t ttl"
    "descriptor_parse op s = Inr (p_descriptor p)"
    "p_biometric_confirmed p \<longrightarrow>
          (\<exists>tc. (Confirm pid tc, Confirmed True) \<in> set mid \<and> tc \<le> p_expires_at_ms p)"
    unfolding backed_def by blast
  have "h @ [e] = pre @ (Register fill op a s i t ttl, Registered (Inr pid)) # (mid @ [e])"
    "unspent pid (mid @ [e])" using * assms(2) by simp_all
  moreover have "p_biometric_confirmed p \<longrightarrow>
      (\<exists>tc. (Confirm pid tc, Confirmed True) \<in> set (mid @ [e]) \<and> tc \<le> p_expires_at_ms p)"
    using *(6) by auto
  ultimately show ?thesis unfolding backed_def using *(3-5) by blast
qed

lemma backed_confirm:
  assumes "backed H pid p h" and "tc \<le> p_expires_at_ms p"
  shows "backed H pid (p\<lparr>p_biometric_confirmed := True\<rparr>) (h @ [(Confirm pid tc, Confirmed True)])"
proof -
  from assms(1) obtain pre mid fill op a s i t ttl where
    *: "h = pre @ (Register fill op a s i t ttl, Registered (Inr pid)) # mid" "unspent pid mid"
    "p_action_hash p = action_hash H op a s i" "p_expires_at_ms p = saturating_add t ttl"
    "descriptor_parse op s = Inr (p_descriptor p)"
    unfolding backed_def by blast
  let ?mid = "mid @ [(Confirm pid tc, Confirmed True)]"
  have "h @ [(Confirm pid tc, Confirmed True)]
      = pre @ (Register fill op a s i t ttl, Registered (Inr pid)) # ?mid" "unspent pid ?mid"
    "(Confirm pid tc, Confirmed True) \<in> set ?mid" using * by (simp_all add: unspent_def)
  then show ?thesis unfolding backed_def using *(3-5) assms(2) by fastforce
qed

lemma all_backed_shrink:
  assumes "all_backed H (h, m)" and "\<And>p. p \<noteq> pid \<Longrightarrow> m' p = m p"
    and "\<And>p. m' pid = Some p \<Longrightarrow> backed H pid p (h @ [e])" and "\<And>p. p \<noteq> pid \<Longrightarrow> unspent p [e]"
  shows "all_backed H (h @ [e], m')"
  unfolding all_backed_def
proof (intro allI impI)
  fix q p
  assume q: "snd (h @ [e], m') q = Some p"
  show "backed H q p (fst (h @ [e], m'))"
  proof (cases "q = pid")
    case False
    then have "m q = Some p" using q assms(2) by simp
    with assms(1) have "backed H q p h" by (simp add: all_backed_def)
    with backed_snoc assms(4) False show ?thesis by simp
  qed (use q assms(3) in simp)
qed

lemma register_backed:
  assumes "all_backed H (h, m)" and "register H fill op a s i now ttl m = (r, m')"
  shows "all_backed H (h @ [(Register fill op a s i now ttl, Registered r)], m')"
proof (cases r)
  case (Inl e)
  with assms(2) have "m' = m" by (auto simp: register_def split: sum.splits option.splits)
  with Inl assms(1) show ?thesis
    by (intro all_backed_shrink [where pid = undefined]) (auto simp: unspent_def all_backed_def intro: backed_snoc)
next
  case (Inr pid)
  then obtain d where d: "descriptor_parse op s = Inr d"
    "m' = m(pid \<mapsto> \<lparr>p_action_hash = action_hash H op a s i, p_expires_at_ms = saturating_add now ttl,
              p_biometric_confirmed = False, p_descriptor = d\<rparr>)"
    using assms(2) by (auto simp: register_def split: sum.splits option.splits)
  have "backed H pid p (h @ [(Register fill op a s i now ttl, Registered r)])" if "m' pid = Some p" for p
    unfolding backed_def using that d Inr
    by (intro exI [of _ h] exI [of _ "[]"]) auto
  with assms(1) Inr d(2) show ?thesis
    by (intro all_backed_shrink [where pid = pid]) (auto simp: unspent_def)
qed

lemma confirm_backed:
  assumes "all_backed H (h, m)" and "confirm_biometric pid now m = (r, m')"
  shows "all_backed H (h @ [(Confirm pid now, Confirmed r)], m')"
proof (rule all_backed_shrink [OF assms(1), where pid = pid])
  show "m' q = m q" if "q \<noteq> pid" for q
    using assms(2) that by (auto simp: confirm_biometric_def split: option.splits if_splits)
  show "unspent q [(Confirm pid now, Confirmed r)]" for q by (simp add: unspent_def)
  show "backed H pid p (h @ [(Confirm pid now, Confirmed r)])" if "m' pid = Some p" for p
  proof -
    from assms(2) that obtain p0 where "m pid = Some p0" "now \<le> p_expires_at_ms p0" "r"
      "p = p0\<lparr>p_biometric_confirmed := True\<rparr>"
      by (auto simp: confirm_biometric_def split: option.splits if_splits)
    moreover from this assms(1) have "backed H pid p0 h" by (simp add: all_backed_def)
    ultimately show ?thesis using backed_confirm by auto
  qed
qed

lemma consume_backed:
  assumes "all_backed H (h, m)" and "consume H pid op a s i now m = (r, m')"
  shows "all_backed H (h @ [(Consume pid op a s i now, Consumed r)], m')"
proof (rule all_backed_shrink [OF assms(1), where pid = pid])
  show "m' q = m q" if "q \<noteq> pid" for q
    using assms(2) that by (auto simp: consume_def split: option.splits if_splits)
  show "unspent q [(Consume pid op a s i now, Consumed r)]" if "q \<noteq> pid" for q
    using that by (simp add: unspent_def)
  show "backed H pid p (h @ [(Consume pid op a s i now, Consumed r)])" if "m' pid = Some p" for p
  proof -
    from assms(2) that have "m pid = Some p" "r \<noteq> Inr ()"
      by (auto simp: consume_def split: option.splits if_splits)
    moreover from this assms(1) have "backed H pid p h" by (simp add: all_backed_def)
    ultimately show ?thesis by (auto simp: unspent_def intro: backed_snoc)
  qed
qed

lemma describe_backed:
  assumes "all_backed H (h, m)" and "describe pid now m = (r, m')"
  shows "all_backed H (h @ [(Describe pid now, Described r)], m')"
proof (rule all_backed_shrink [OF assms(1), where pid = pid])
  show "m' q = m q" if "q \<noteq> pid" for q
    using assms(2) that by (auto simp: describe_def split: option.splits if_splits)
  show "unspent q [(Describe pid now, Described r)]" for q by (simp add: unspent_def)
  show "backed H pid p (h @ [(Describe pid now, Described r)])" if "m' pid = Some p" for p
  proof -
    from assms(2) that have "m pid = Some p"
      by (auto simp: describe_def split: option.splits if_splits)
    with assms(1) have "backed H pid p h" by (simp add: all_backed_def)
    then show ?thesis by (rule backed_snoc) (simp add: unspent_def)
  qed
qed

lemma step_backed:
  assumes "all_backed H (h, m)" and "pending_step H c m = (r, m')"
  shows "all_backed H (h @ [(c, r)], m')"
  using assms
  by (cases c) (auto simp: map_prod_def split: prod.splits
      intro: register_backed confirm_backed consume_backed describe_backed)

lemma replay_backed: "all_backed H hm \<Longrightarrow> all_backed H (replay H cs hm)"
proof (induction cs arbitrary: hm)
  case (Cons c cs)
  obtain h m where hm: "hm = (h, m)" by (cases hm)
  obtain r m' where "pending_step H c m = (r, m')" by (cases "pending_step H c m")
  with Cons hm step_backed [of H h m c r m'] show ?case by simp
qed simp

lemma replay_calls: "map fst (fst (replay H cs hm)) = map fst (fst hm) @ cs"
proof (induction cs arbitrary: hm)
  case (Cons c cs)
  obtain h m where hm: "hm = (h, m)" by (cases hm)
  with Cons show ?case by (simp split: prod.split)
qed simp

lemma replay_member: "(c, r) \<in> set (fst (replay H cs ([], m))) \<Longrightarrow> c \<in> set cs"
  using replay_calls [of H cs "([], m)"] by (metis append_Nil fst_conv image_eqI list.map(1) list.set_map)

lemma empty_backed: "all_backed H ([], Map.empty)"
  by (simp add: all_backed_def)

section \<open>A spared action stays\<close>

lemma spared_step:
  assumes "m pid = Some p" and "spares H pid (p_expires_at_ms p) (p_action_hash p) c"
  shows "snd (pending_step H c m) pid
    = Some (if \<exists>tc. c = Confirm pid tc then p\<lparr>p_biometric_confirmed := True\<rparr> else p)"
  using assms
  by (cases c) (auto simp: register_def confirm_biometric_def consume_def describe_def ct_eq_iff
      split: sum.splits option.splits)

lemma spared_replay:
  assumes "m pid = Some p"
    and "\<forall>c \<in> set cs. spares H pid (p_expires_at_ms p) (p_action_hash p) c"
  shows "\<exists>q. snd (replay H cs (h, m)) pid = Some q \<and> p_action_hash q = p_action_hash p
    \<and> p_expires_at_ms q = p_expires_at_ms p
    \<and> (p_biometric_confirmed p \<or> (\<exists>tc. Confirm pid tc \<in> set cs) \<longrightarrow> p_biometric_confirmed q)"
  using assms
proof (induction cs arbitrary: h m p)
  case (Cons c cs)
  obtain r m' where step: "pending_step H c m = (r, m')" by (cases "pending_step H c m")
  let ?p = "if \<exists>tc. c = Confirm pid tc then p\<lparr>p_biometric_confirmed := True\<rparr> else p"
  from Cons.prems step have m': "m' pid = Some ?p" using spared_step [of m pid p H c] by simp
  have "\<forall>c \<in> set cs. spares H pid (p_expires_at_ms ?p) (p_action_hash ?p) c"
    using Cons.prems(2) by simp
  from Cons.IH [of m' ?p "h @ [(c, r)]", OF m' this] step show ?case by (auto split: if_splits)
qed simp

section \<open>Properties\<close>

text \<open>C3: Every authorization is backed. In any history of calls, by any mix of clients, an id authorizes
  an action only if that id was handed out for it by an earlier registration of the same action
  (its operation and service in the catalogue), a biometric confirmation of the id was recorded
  between that registration and its deadline, the deadline has not passed, and since the
  registration the id was neither spent nor handed out again. The action is the registered one
  unless two different encodings with one SHA-256 value are at hand.\<close>

theorem authorization_is_backed:
  fixes H :: "bytes \<Rightarrow> bytes"
  assumes "fst (consume H pid op a s i now (snd (replay H cs ([], Map.empty)))) = Inr ()"
    and "list_all addressable (Consume pid op a s i now # cs)"
  shows "\<exists>pre mid fill op' a' s' i' t ttl d.
    fst (replay H cs ([], Map.empty)) = pre @ (Register fill op' a' s' i' t ttl, Registered (Inr pid)) # mid
    \<and> unspent pid mid \<and> now \<le> saturating_add t ttl
    \<and> (\<exists>tc. (Confirm pid tc, Confirmed True) \<in> set mid \<and> tc \<le> saturating_add t ttl)
    \<and> descriptor_parse op' s' = Inr d
    \<and> ((op', a', s', i') = (op, a, s, i)
       \<or> action_bytes op' a' s' i' \<noteq> action_bytes op a s i
         \<and> H (action_bytes op' a' s' i') = H (action_bytes op a s i))"
proof -
  obtain h m where hm: "replay H cs ([], Map.empty) = (h, m)" by fastforce
  from assms(1) hm obtain p where p: "m pid = Some p" "now \<le> p_expires_at_ms p"
    "p_biometric_confirmed p" "p_action_hash p = action_hash H op a s i"
    by (auto simp: consume_def ct_eq_iff split: option.splits if_splits)
  have "all_backed H (h, m)" using replay_backed [OF empty_backed, of H cs] hm by simp
  with p(1) have "backed H pid p h" by (simp add: all_backed_def)
  then obtain pre mid fill op' a' s' i' t ttl tc where
    b: "h = pre @ (Register fill op' a' s' i' t ttl, Registered (Inr pid)) # mid" "unspent pid mid"
    "p_action_hash p = action_hash H op' a' s' i'" "p_expires_at_ms p = saturating_add t ttl"
    "descriptor_parse op' s' = Inr (p_descriptor p)"
    "(Confirm pid tc, Confirmed True) \<in> set mid" "tc \<le> p_expires_at_ms p"
    unfolding backed_def using p(3) by blast
  have "Register fill op' a' s' i' t ttl \<in> set cs"
    by (rule replay_member [of _ "Registered (Inr pid)" H cs Map.empty]) (simp add: hm b(1))
  with assms(2) have "list_all (\<lambda>f. length f < 2 ^ 64) [op', a', s', i']"
    "list_all (\<lambda>f. length f < 2 ^ 64) [op, a, s, i]"
    by (fastforce simp: list_all_iff)+
  then have "(op', a', s', i') = (op, a, s, i)
       \<or> action_bytes op' a' s' i' \<noteq> action_bytes op a s i"
    using action_bytes_inject by blast
  moreover have "H (action_bytes op' a' s' i') = H (action_bytes op a s i)"
    using b(3) p(4) by (simp add: action_hash_def)
  ultimately show ?thesis using hm b p(2) by fastforce
qed

text \<open>A registration, a prompt that reads the descriptor, an early attempt, the confirmation. Nothing here
  depends on the digest, and the identity stands in for it.\<close>

definition id_digest :: "bytes \<Rightarrow> bytes" where
  "id_digest bs = bs"

definition demo_pending :: "pending_call list" where
  "demo_pending = [Register (Some [1, 2]) ''delete'' ''me'' ''todo'' ''t1'' 1000 120000,
     Describe ''0102'' 2000, Consume ''0102'' ''delete'' ''me'' ''todo'' ''t1'' 2500,
     Confirm ''0102'' 3000]"

lemma demo_id: "random_hex (Some [1, 2]) = Some ''0102''"
  by code_simp

lemma demo_descriptor: "descriptor_parse ''delete'' ''todo'' = Inr \<lparr>d_op = Delete, d_service = Todo\<rparr>"
  by (simp add: descriptor_parse_def op_parse_def service_parse_def)

lemma demo_deadline: "saturating_add 1000 120000 = 121000"
  by (simp add: saturating_add_def)

lemmas demo_simps = demo_pending_def register_def demo_id demo_descriptor demo_deadline describe_def
  confirm_biometric_def consume_def ct_eq_iff

theorem authorization_is_backed_witness:
  "\<exists>pre mid fill t ttl. fst (replay id_digest demo_pending ([], Map.empty))
     = pre @ (Register fill ''delete'' ''me'' ''todo'' ''t1'' t ttl, Registered (Inr ''0102'')) # mid"
proof -
  have ok: "fst (consume id_digest ''0102'' ''delete'' ''me'' ''todo'' ''t1'' 4000
      (snd (replay id_digest demo_pending ([], Map.empty)))) = Inr ()"
    by (simp add: demo_simps)
  have "list_all addressable (Consume ''0102'' ''delete'' ''me'' ''todo'' ''t1'' 4000 # demo_pending)"
    by (simp add: demo_pending_def)
  from authorization_is_backed [OF ok this] obtain pre mid fill op' a' s' i' t ttl where
    *: "fst (replay id_digest demo_pending ([], Map.empty))
      = pre @ (Register fill op' a' s' i' t ttl, Registered (Inr ''0102'')) # mid"
    by blast
  then have "Register fill op' a' s' i' t ttl \<in> set demo_pending"
    by (intro replay_member [of _ "Registered (Inr ''0102'')" id_digest demo_pending Map.empty]) simp
  then have "op' = ''delete'' \<and> a' = ''me'' \<and> s' = ''todo'' \<and> i' = ''t1''"
    by (simp add: demo_pending_def)
  with * show ?thesis by blast
qed

text \<open>A confirmed action goes through, once. After a registration, whatever other calls come in between
  (attempts to spend the id for other actions, early attempts before the confirmation, prompts,
  other registrations), a confirmation before the deadline makes the re-issued action succeed, and
  the same call repeated is refused: no one can burn a pending confirmation and no one can replay it.\<close>

theorem confirmed_action_goes_through:
  assumes "register H fill op a s i t ttl m = (Inr pid, m')"
    and "\<forall>c \<in> set cs. spares H pid (saturating_add t ttl) (action_hash H op a s i) c"
    and "Confirm pid tc \<in> set cs" and "now \<le> saturating_add t ttl"
    and "replay H cs (h, m') = (h', m1)" and "consume H pid op a s i now m1 = (r, m2)"
  shows "r = Inr () \<and> consume H pid op a s i now m2 = (Inl NotFound, m2)"
proof -
  from assms(1) obtain p where p: "m' pid = Some p" "p_action_hash p = action_hash H op a s i"
    "p_expires_at_ms p = saturating_add t ttl"
    by (auto simp: register_def split: sum.splits option.splits)
  with assms(2) have "\<forall>c \<in> set cs. spares H pid (p_expires_at_ms p) (p_action_hash p) c" by simp
  from spared_replay [of m' pid p cs H h, OF p(1) this] assms(3,5) p obtain q where
    "m1 pid = Some q" "p_action_hash q = action_hash H op a s i"
    "p_expires_at_ms q = saturating_add t ttl" "p_biometric_confirmed q"
    by auto
  then have "consume H pid op a s i now m1 = (Inr (), m1(pid := None))"
    using assms(4) by (simp add: consume_def ct_eq_iff not_less)
  with assms(6) show ?thesis by (auto simp: consume_def)
qed

theorem confirmed_action_goes_through_witness:
  "\<exists>m2. consume id_digest ''0102'' ''delete'' ''me'' ''todo'' ''t1'' 4000
     (snd (replay id_digest
        (Consume ''0102'' ''delete'' ''me'' ''todo'' ''t2'' 2000 # tl (tl (tl demo_pending)))
        ([], snd (register id_digest (Some [1, 2]) ''delete'' ''me'' ''todo'' ''t1'' 1000 120000 Map.empty))))
     = (Inr (), m2)"
proof -
  let ?m = "snd (register id_digest (Some [1, 2]) ''delete'' ''me'' ''todo'' ''t1'' 1000 120000 Map.empty)"
  let ?cs = "Consume ''0102'' ''delete'' ''me'' ''todo'' ''t2'' 2000 # tl (tl (tl demo_pending))"
  have reg: "register id_digest (Some [1, 2]) ''delete'' ''me'' ''todo'' ''t1'' 1000 120000 Map.empty
      = (Inr ''0102'', ?m)"
  proof -
    have "fst (register id_digest (Some [1, 2]) ''delete'' ''me'' ''todo'' ''t1'' 1000 120000 Map.empty)
      = Inr ''0102''" by (simp add: demo_simps)
    then show ?thesis by (metis prod.collapse)
  qed
  have sp: "\<forall>c \<in> set ?cs. spares id_digest ''0102'' (saturating_add 1000 120000)
      (action_hash id_digest ''delete'' ''me'' ''todo'' ''t1'') c"
    by (simp add: demo_pending_def demo_deadline action_hash_def id_digest_def action_bytes_inject)
  have conf: "Confirm ''0102'' 3000 \<in> set ?cs" by (simp add: demo_pending_def)
  have now: "(4000 :: u64) \<le> saturating_add 1000 120000" by (simp add: demo_deadline)
  obtain h' m1 where m1: "replay id_digest ?cs ([], ?m) = (h', m1)" by fastforce
  obtain r m2 where m2: "consume id_digest ''0102'' ''delete'' ''me'' ''todo'' ''t1'' 4000 m1 = (r, m2)"
    by fastforce
  from confirmed_action_goes_through [OF reg sp conf now m1 m2] m1 m2 show ?thesis by simp
qed

end
