(* ===== verification/Envelope.thy ===== *)
theory Envelope
  imports Prelude
begin

text \<open>
  The at-rest envelope of body files, \<^verbatim>\<open>crates/core/src/envelope.rs\<close>: header layout and parser, chunk
  nonces, sealing and opening, the process key registry with rotation, and the file operations on a
  file system that maps paths (lists of components) to contents. The AEAD of the \<^verbatim>\<open>ring\<close> crate
  (AES-256-GCM) is a pair of parameters: \<open>aseal key nonce aad plaintext\<close> returns ciphertext and tag,
  \<open>aopen key nonce aad ciphertext\<close> the plaintext or \<open>None\<close>. The random nonce base is an argument of
  sealing. The target has 64-bit \<^verbatim>\<open>usize\<close>; the chunk counter is a \<open>u32\<close> that wraps.
\<close>

section \<open>Header\<close>

type_synonym BodyKey = bytes

definition BODY_ENVELOPE_MAGIC :: bytes where
  "BODY_ENVELOPE_MAGIC = str_bytes ''ISYE''"

definition BODY_ENVELOPE_VERSION :: u8 where
  "BODY_ENVELOPE_VERSION = 1"

definition HEADER_LEN :: nat where
  "HEADER_LEN = 32"

definition TAG_LEN :: nat where
  "TAG_LEN = 16"

definition DEFAULT_CHUNK :: u32 where
  "DEFAULT_CHUNK = 64 * 1024"

datatype EnvelopeError = Malformed string | Decrypt

record EnvelopeHeaderV1 =
  h_key_id :: u32
  h_chunk_size :: u32
  h_plaintext_len :: u64
  h_expected_envelope_len :: u64

definition build_header :: "u32 \<Rightarrow> u32 \<Rightarrow> u64 \<Rightarrow> bytes \<Rightarrow> bytes" where
  "build_header key_id chunk_size plaintext_len nonce_base =
     BODY_ENVELOPE_MAGIC @ [BODY_ENVELOPE_VERSION, 0, 0, 0] @ be_bytes 4 (unat key_id)
       @ be_bytes 4 (unat chunk_size) @ be_bytes 8 (unat plaintext_len) @ nonce_base"

definition chunk_nonce :: "bytes \<Rightarrow> u32 \<Rightarrow> bytes" where
  "chunk_nonce nonce_base i = nonce_base @ be_bytes 4 (unat i)"

text \<open>\<^verbatim>\<open>&xs[a..b]\<close>.\<close>

definition slice :: "nat \<Rightarrow> nat \<Rightarrow> 'a list \<Rightarrow> 'a list" where
  "slice a b xs = take (b - a) (drop a xs)"

definition blob_key_id :: "bytes \<Rightarrow> u32 option" where
  "blob_key_id blob =
     (if length blob < HEADER_LEN \<or> slice 0 4 blob \<noteq> BODY_ENVELOPE_MAGIC then None
      else Some (of_nat (be_value (slice 8 12 blob))))"

definition blob_plaintext_len :: "bytes \<Rightarrow> u64 option" where
  "blob_plaintext_len blob =
     (if length blob < HEADER_LEN \<or> slice 0 4 blob \<noteq> BODY_ENVELOPE_MAGIC then None
      else Some (of_nat (be_value (slice 16 24 blob))))"

definition checked_add :: "u64 \<Rightarrow> u64 \<Rightarrow> u64 option" where
  "checked_add a b = (if unat a + unat b < 2 ^ 64 then Some (a + b) else None)"

definition checked_mul :: "u64 \<Rightarrow> u64 \<Rightarrow> u64 option" where
  "checked_mul a b = (if unat a * unat b < 2 ^ 64 then Some (a * b) else None)"

definition parse_envelope_header_v1 :: "bytes \<Rightarrow> bool \<Rightarrow> EnvelopeError + EnvelopeHeaderV1" where
  "parse_envelope_header_v1 header require_production_chunk =
     (if length header < HEADER_LEN then Inl (Malformed ''short header'')
      else if slice 0 4 header \<noteq> BODY_ENVELOPE_MAGIC then Inl (Malformed ''bad magic'')
      else if header ! 4 \<noteq> BODY_ENVELOPE_VERSION then Inl (Malformed ''unsupported version'')
      else if slice 5 8 header \<noteq> [0, 0, 0] then Inl (Malformed ''reserved header bits'')
      else
        let key_id = of_nat (be_value (slice 8 12 header));
            chunk_size = of_nat (be_value (slice 12 16 header)) :: u32
        in if chunk_size = 0 then Inl (Malformed ''zero chunk size'')
           else if require_production_chunk \<and> chunk_size \<noteq> DEFAULT_CHUNK
           then Inl (Malformed ''non-production chunk size'')
           else
             let plaintext_len = of_nat (be_value (slice 16 24 header))
             in case checked_add plaintext_len (ucast chunk_size - 1) of
                  None \<Rightarrow> Inl (Malformed ''length overflow'')
                | Some n \<Rightarrow>
                    let chunks = n div ucast chunk_size
                    in case Option.bind (checked_add (of_nat HEADER_LEN) plaintext_len)
                              (\<lambda>v. Option.bind (checked_mul chunks (of_nat TAG_LEN)) (checked_add v)) of
                         None \<Rightarrow> Inl (Malformed ''length overflow'')
                       | Some e \<Rightarrow> Inr \<lparr>h_key_id = key_id, h_chunk_size = chunk_size,
                                       h_plaintext_len = plaintext_len, h_expected_envelope_len = e\<rparr>)"

section \<open>Sealing and opening\<close>

type_synonym aseal = "BodyKey \<Rightarrow> bytes \<Rightarrow> bytes \<Rightarrow> bytes \<Rightarrow> bytes"
type_synonym aopen = "BodyKey \<Rightarrow> bytes \<Rightarrow> bytes \<Rightarrow> bytes \<Rightarrow> bytes option"

text \<open>\<^verbatim>\<open>plaintext.chunks(cs.max(1))\<close>.\<close>

fun chunks :: "nat \<Rightarrow> 'a list \<Rightarrow> 'a list list" where
  "chunks cs xs = (if xs = [] then [] else take (max cs 1) xs # chunks cs (drop (max cs 1) xs))"

declare chunks.simps [simp del]

fun seal_chunks :: "aseal \<Rightarrow> BodyKey \<Rightarrow> bytes \<Rightarrow> bytes \<Rightarrow> nat \<Rightarrow> bytes list \<Rightarrow> bytes" where
  "seal_chunks aseal key nonce_base header i [] = []"
| "seal_chunks aseal key nonce_base header i (ch # chs) =
     aseal key (chunk_nonce nonce_base (of_nat i)) header ch
       @ seal_chunks aseal key nonce_base header (i + 1) chs"

definition seal_with_chunk :: "aseal \<Rightarrow> bytes \<Rightarrow> bytes \<Rightarrow> BodyKey \<Rightarrow> u32 \<Rightarrow> u32 \<Rightarrow> bytes" where
  "seal_with_chunk aseal nonce_base plaintext key key_id chunk_size =
     (let header = build_header key_id chunk_size (of_nat (length plaintext)) nonce_base
      in header @ seal_chunks aseal key nonce_base header 0 (chunks (unat chunk_size) plaintext))"

definition seal :: "aseal \<Rightarrow> bytes \<Rightarrow> bytes \<Rightarrow> BodyKey \<Rightarrow> u32 \<Rightarrow> bytes" where
  "seal aseal nonce_base plaintext key key_id =
     seal_with_chunk aseal nonce_base plaintext key key_id DEFAULT_CHUNK"

text \<open>The loop of \<^verbatim>\<open>open\<close>: \<open>out\<close> is the plaintext so far, \<open>pos\<close> the position in the blob, \<open>i\<close> the counter.\<close>

function open_loop ::
  "aopen \<Rightarrow> BodyKey \<Rightarrow> bytes \<Rightarrow> bytes \<Rightarrow> bytes \<Rightarrow> nat \<Rightarrow> nat \<Rightarrow> bytes \<Rightarrow> nat \<Rightarrow> u32 \<Rightarrow> EnvelopeError + bytes" where
  "open_loop aopen key nonce_base header blob chunk_size plaintext_len out pos i =
     (if length out < plaintext_len then
        let this_pt = min (plaintext_len - length out) chunk_size;
            ct_len = this_pt + TAG_LEN;
            e = pos + ct_len
        in if 2 ^ 64 \<le> e then Inl (Malformed ''overflow'')
           else if length blob < e then Inl (Malformed ''truncated body'')
           else case aopen key (chunk_nonce nonce_base i) header (slice pos e blob) of
                  None \<Rightarrow> Inl Decrypt
                | Some pt \<Rightarrow>
                    open_loop aopen key nonce_base header blob chunk_size plaintext_len (out @ pt) e (i + 1)
      else if length out \<noteq> plaintext_len then Inl (Malformed ''length mismatch'')
      else Inr out)"
  by auto
termination
  by (relation "measure (\<lambda>(_, _, _, _, blob, _, _, _, pos, _). length blob + 1 - pos)") (auto simp: TAG_LEN_def)

declare open_loop.simps [simp del]

definition open_envelope :: "aopen \<Rightarrow> bytes \<Rightarrow> BodyKey \<Rightarrow> EnvelopeError + bytes" where
  "open_envelope aopen blob key =
     (if length blob < HEADER_LEN then Inl (Malformed ''short header'')
      else let header = take HEADER_LEN blob
           in case parse_envelope_header_v1 header False of
                Inl e \<Rightarrow> Inl e
              | Inr parsed \<Rightarrow>
                  if h_expected_envelope_len parsed \<noteq> of_nat (length blob)
                  then Inl (Malformed ''serialized length mismatch'')
                  else open_loop aopen key (slice 24 32 header) header blob (unat (h_chunk_size parsed))
                         (unat (h_plaintext_len parsed)) [] HEADER_LEN 0)"

section \<open>Keys and body files\<close>

record KeyRegistry =
  active :: "(u32 \<times> BodyKey) option"
  older :: "(u32 \<times> BodyKey) list"

definition no_keys :: KeyRegistry where
  "no_keys = \<lparr>active = None, older = []\<rparr>"

definition set_body_key :: "u32 \<Rightarrow> BodyKey \<Rightarrow> KeyRegistry \<Rightarrow> KeyRegistry" where
  "set_body_key key_id key reg =
     \<lparr>active = Some (key_id, key),
      older = (case active reg of
                 None \<Rightarrow> older reg
               | Some prev \<Rightarrow> if fst prev \<noteq> key_id then older reg @ [prev] else older reg)\<rparr>"

definition active_key_id :: "KeyRegistry \<Rightarrow> u32 option" where
  "active_key_id reg = map_option fst (active reg)"

definition key_for_id :: "u32 \<Rightarrow> KeyRegistry \<Rightarrow> BodyKey option" where
  "key_for_id key_id reg =
     (case active reg of
        Some (i, k) \<Rightarrow> if i = key_id then Some k else map_option snd (List.find (\<lambda>(i, k). i = key_id) (older reg))
      | None \<Rightarrow> map_option snd (List.find (\<lambda>(i, k). i = key_id) (older reg)))"

definition open_with_registered_body_key :: "aopen \<Rightarrow> bytes \<Rightarrow> KeyRegistry \<Rightarrow> EnvelopeError + bytes" where
  "open_with_registered_body_key aopen blob reg =
     (case parse_envelope_header_v1 blob False of
        Inl e \<Rightarrow> Inl e
      | Inr header \<Rightarrow>
          (case key_for_id (h_key_id header) reg of
             None \<Rightarrow> Inl Decrypt
           | Some key \<Rightarrow> open_envelope aopen blob key))"

definition seal_for_disk :: "aseal \<Rightarrow> bytes \<Rightarrow> bytes \<Rightarrow> KeyRegistry \<Rightarrow> bytes" where
  "seal_for_disk aseal nonce_base plaintext reg =
     (case active reg of
        Some (key_id, key) \<Rightarrow> seal aseal nonce_base plaintext key key_id
      | None \<Rightarrow> plaintext)"

type_synonym path = "string list"
type_synonym files = "path \<Rightarrow> bytes option"

datatype IoError = OsError | NoBodyKey | InvalidEnvelope EnvelopeError | NotSealed

text \<open>\<^verbatim>\<open>tmp_sibling\<close>: the file name with a suffix, in the same directory.\<close>

definition tmp_sibling :: "path \<Rightarrow> path" where
  "tmp_sibling final_path =
     (if final_path = [] then [''.isytmp'']
      else butlast final_path @ [last final_path @ ''.isytmp''])"

text \<open>Where writing a file can stop: after some bytes of the temporary file, or at the rename.\<close>

datatype disk_fault = NoFault | WriteFails nat | RenameFails

definition write_body_atomic ::
  "aseal \<Rightarrow> bytes \<Rightarrow> disk_fault \<Rightarrow> path \<Rightarrow> bytes \<Rightarrow> KeyRegistry \<Rightarrow> files \<Rightarrow> (IoError + unit) \<times> files" where
  "write_body_atomic aseal nonce_base fault final_path plaintext reg fs =
     (let bytes = (case active reg of
            Some (key_id, key) \<Rightarrow> seal aseal nonce_base plaintext key key_id
          | None \<Rightarrow> plaintext);
          tmp = tmp_sibling final_path
      in case fault of
           WriteFails n \<Rightarrow> (Inl OsError, fs(tmp \<mapsto> take n bytes))
         | RenameFails \<Rightarrow> (Inl OsError, fs(tmp \<mapsto> bytes))
         | NoFault \<Rightarrow> (Inr (), (fs(tmp \<mapsto> bytes))(tmp := None, final_path \<mapsto> bytes)))"

definition read_body :: "aopen \<Rightarrow> path \<Rightarrow> KeyRegistry \<Rightarrow> files \<Rightarrow> IoError + bytes" where
  "read_body aopen path reg fs =
     (case fs path of
        None \<Rightarrow> Inl OsError
      | Some raw \<Rightarrow>
          (case blob_key_id raw of
             Some key_id \<Rightarrow>
               (case key_for_id key_id reg of
                  None \<Rightarrow> Inl NoBodyKey
                | Some key \<Rightarrow> map_sum InvalidEnvelope id (open_envelope aopen raw key))
           | None \<Rightarrow> Inr raw))"

definition read_sealed_body_required :: "aopen \<Rightarrow> path \<Rightarrow> KeyRegistry \<Rightarrow> files \<Rightarrow> IoError + bytes" where
  "read_sealed_body_required aopen path reg fs =
     (case fs path of
        None \<Rightarrow> Inl OsError
      | Some raw \<Rightarrow>
          (case blob_key_id raw of
             None \<Rightarrow> Inl NotSealed
           | Some key_id \<Rightarrow>
               (case key_for_id key_id reg of
                  None \<Rightarrow> Inl NoBodyKey
                | Some key \<Rightarrow> map_sum InvalidEnvelope id (open_envelope aopen raw key))))"

definition probe_sealed_body_required :: "aopen \<Rightarrow> path \<Rightarrow> KeyRegistry \<Rightarrow> files \<Rightarrow> IoError + unit" where
  "probe_sealed_body_required aopen path reg fs =
     map_sum id (\<lambda>_. ()) (read_sealed_body_required aopen path reg fs)"

definition on_disk_plaintext_len :: "path \<Rightarrow> files \<Rightarrow> u64" where
  "on_disk_plaintext_len path fs =
     (case fs path of
        None \<Rightarrow> 0
      | Some raw \<Rightarrow>
          if length raw < HEADER_LEN then of_nat (length raw)
          else (case blob_plaintext_len (take HEADER_LEN raw) of
                  Some n \<Rightarrow> n
                | None \<Rightarrow> of_nat (length raw)))"

text \<open>What the code relies on of AES-256-GCM: opening inverts sealing, a tag of 16 bytes is appended, and
  what opens is what sealing the result gives (the tag is a function of key, nonce, data and text).\<close>

definition aead_ok :: "aseal \<Rightarrow> aopen \<Rightarrow> bool" where
  "aead_ok aseal aopen \<longleftrightarrow>
     (\<forall>k n a p. aopen k n a (aseal k n a p) = Some p)
     \<and> (\<forall>k n a p. length (aseal k n a p) = length p + TAG_LEN)
     \<and> (\<forall>k n a c p. aopen k n a c = Some p \<longrightarrow> c = aseal k n a p)"

section \<open>The header is read back\<close>

lemma word_of_be32: "length bs = 4 \<Longrightarrow> be_bytes 4 (unat (of_nat (be_value bs) :: u32)) = bs"
proof -
  assume 4: "length bs = 4"
  then have "be_value bs < 2 ^ 32" using be_value_less [of bs] by simp
  then have "unat (of_nat (be_value bs) :: u32) = be_value bs" by (simp add: unat_of_nat)
  with 4 be_bytes_be_value [of bs] show ?thesis by simp
qed

lemma word_of_be64: "length bs = 8 \<Longrightarrow> be_bytes 8 (unat (of_nat (be_value bs) :: u64)) = bs"
proof -
  assume 8: "length bs = 8"
  then have "be_value bs < 2 ^ 64" using be_value_less [of bs] by simp
  then have "unat (of_nat (be_value bs) :: u64) = be_value bs" by (simp add: unat_of_nat)
  with 8 be_bytes_be_value [of bs] show ?thesis by simp
qed

lemma be_word32 [simp]: "(of_nat (be_value (be_bytes 4 (unat w))) :: u32) = w"
proof -
  have "unat w < 256 ^ 4" using unsigned_less [of w] by simp
  then show ?thesis by (simp add: be_value_be_bytes)
qed

lemma be_word64 [simp]: "(of_nat (be_value (be_bytes 8 (unat w))) :: u64) = w"
proof -
  have "unat w < 256 ^ 8" using unsigned_less [of w] by simp
  then show ?thesis by (simp add: be_value_be_bytes)
qed

lemma length_magic [simp]: "length BODY_ENVELOPE_MAGIC = 4"
  by (simp add: BODY_ENVELOPE_MAGIC_def)

lemma length_build_header [simp]: "length nb = 8 \<Longrightarrow> length (build_header k cs pl nb) = 32"
  by (simp add: build_header_def)

lemma header_slices:
  fixes k cs :: u32 and pl :: u64
  assumes "length nb = 8"
  defines "h \<equiv> build_header k cs pl nb"
  shows "slice 0 4 h = BODY_ENVELOPE_MAGIC" "h ! 4 = BODY_ENVELOPE_VERSION" "slice 5 8 h = [0, 0, 0]"
    "slice 8 12 h = be_bytes 4 (unat k)" "slice 12 16 h = be_bytes 4 (unat cs)"
    "slice 16 24 h = be_bytes 8 (unat pl)" "slice 24 32 h = nb"
  unfolding h_def build_header_def slice_def using assms(1) by (simp_all add: nth_append)

text \<open>The number of chunks of a text, and the length of the envelope.\<close>

definition chunk_count :: "nat \<Rightarrow> nat \<Rightarrow> nat" where
  "chunk_count cs n = (n + (cs - 1)) div cs"

lemma checked_add_nat:
  "m < 2 ^ 64 \<Longrightarrow> n < 2 ^ 64 \<Longrightarrow>
   checked_add (of_nat m) (of_nat n) = (if m + n < 2 ^ 64 then Some (of_nat (m + n)) else None)"
  by (simp add: checked_add_def unat_of_nat)

lemma checked_mul_nat:
  "m < 2 ^ 64 \<Longrightarrow> n < 2 ^ 64 \<Longrightarrow>
   checked_mul (of_nat m) (of_nat n) = (if m * n < 2 ^ 64 then Some (of_nat (m * n)) else None)"
  by (simp add: checked_mul_def unat_of_nat)

lemma expected_len:
  fixes pl q :: u64
  shows "Option.bind (checked_add (of_nat HEADER_LEN) pl)
      (\<lambda>v. Option.bind (checked_mul q (of_nat TAG_LEN)) (checked_add v))
    = (if 32 + unat pl + 16 * unat q < 2 ^ 64 then Some (of_nat (32 + unat pl + 16 * unat q)) else None)"
proof -
  obtain P Q where P: "pl = of_nat P" "P < 2 ^ 64" and Q: "q = of_nat Q" "Q < 2 ^ 64"
    using unsigned_less [of pl] unsigned_less [of q] that [of "unat pl" "unat q"] by simp
  have "unat pl = P" "unat q = Q" using P Q by (simp_all add: unat_of_nat)
  moreover have "checked_add (of_nat 32) pl = (if 32 + P < 2 ^ 64 then Some (of_nat (32 + P)) else None)"
    unfolding P(1) using P(2) by (intro checked_add_nat) simp_all
  moreover have "checked_mul q (of_nat 16) = (if Q * 16 < 2 ^ 64 then Some (of_nat (Q * 16)) else None)"
    unfolding Q(1) using Q(2) by (intro checked_mul_nat) simp_all
  moreover have "checked_add (of_nat (32 + P)) (of_nat (Q * 16))
      = (if 32 + P + Q * 16 < 2 ^ 64 then Some (of_nat (32 + P + Q * 16)) else None)"
    if "32 + P < 2 ^ 64" "Q * 16 < 2 ^ 64"
    using that by (rule checked_add_nat)
  ultimately show ?thesis
    by (auto simp: HEADER_LEN_def TAG_LEN_def mult.commute simp del: of_nat_add of_nat_mult)
qed

lemma length_checks:
  fixes pl :: u64 and cs :: u32
  assumes "cs \<noteq> 0"
  shows "(case checked_add pl (ucast cs - 1) of
        None \<Rightarrow> Inl e
      | Some n \<Rightarrow> let chunks = n div ucast cs
          in case Option.bind (checked_add (of_nat HEADER_LEN) pl)
                    (\<lambda>v. Option.bind (checked_mul chunks (of_nat TAG_LEN)) (checked_add v)) of
               None \<Rightarrow> Inl e | Some x \<Rightarrow> Inr (f x))
    = (if unat pl + (unat cs - 1) < 2 ^ 64 \<and> 32 + unat pl + 16 * chunk_count (unat cs) (unat pl) < 2 ^ 64
       then Inr (f (of_nat (32 + unat pl + 16 * chunk_count (unat cs) (unat pl)))) else Inl e)"
    (is "?l = ?r")
proof -
  have "unat cs < 2 ^ LENGTH(32)" by (rule unsigned_less)
  then have cs: "unat (ucast cs :: u64) = unat cs"
    by (simp add: unsigned_ucast_eq unsigned_take_bit_eq take_bit_nat_eq_self_iff)
  have "unat cs > 0" using assms by (simp add: unat_gt_0)
  then have cs1: "unat (ucast cs - 1 :: u64) = unat cs - 1"
    using cs by (metis One_nat_def unat_minus_one unat_gt_0 unsigned_0)
  show ?thesis
  proof (cases "unat pl + (unat cs - 1) < 2 ^ 64")
    case True
    let ?n = "pl + (ucast cs - 1)"
    have n: "unat ?n = unat pl + (unat cs - 1)"
      using True cs1 unat_add_lem [of pl "ucast cs - 1"] by simp
    let ?q = "?n div ucast cs"
    have q: "unat ?q = chunk_count (unat cs) (unat pl)"
      by (simp add: unat_div_distrib n cs chunk_count_def)
    show ?thesis
      using True q cs1 by (simp add: expected_len checked_add_def [of pl] Let_def del: of_nat_add of_nat_mult)
  next
    case False
    then show ?thesis by (simp add: checked_add_def cs1)
  qed
qed

definition fits :: "nat \<Rightarrow> nat \<Rightarrow> bool" where
  "fits cs n \<longleftrightarrow> n + (cs - 1) < 2 ^ 64 \<and> 32 + n + 16 * chunk_count cs n < 2 ^ 64"

lemma parse_header:
  assumes "length nb = 8"
  shows "parse_envelope_header_v1 (build_header k cs pl nb) False =
    (if cs = 0 then Inl (Malformed ''zero chunk size'')
     else if fits (unat cs) (unat pl)
     then Inr \<lparr>h_key_id = k, h_chunk_size = cs, h_plaintext_len = pl,
               h_expected_envelope_len = of_nat (32 + unat pl + 16 * chunk_count (unat cs) (unat pl))\<rparr>
     else Inl (Malformed ''length overflow''))"
proof (cases "cs = 0")
  case True
  then show ?thesis
    using header_slices [OF assms, of k cs pl] assms
    by (simp add: parse_envelope_header_v1_def HEADER_LEN_def Let_def be_value_be_bytes)
next
  case False
  note * = length_checks [OF False, where f = "\<lambda>x. \<lparr>h_key_id = k, h_chunk_size = cs, h_plaintext_len = pl,
               h_expected_envelope_len = x\<rparr>"]
  show ?thesis
    using False header_slices [OF assms, of k cs pl] assms
    by (simp add: parse_envelope_header_v1_def * fits_def HEADER_LEN_def del: of_nat_add of_nat_mult) 
qed

lemma slices_whole:
  assumes "length h = 32"
  shows "h = slice 0 4 h @ [h ! 4] @ slice 5 8 h @ slice 8 12 h @ slice 12 16 h @ slice 16 24 h @ slice 24 32 h"
proof -
  have step: "drop a h = slice a b h @ drop b h" if "a \<le> b" for a b
    using that unfolding slice_def by (metis append_take_drop_id drop_drop le_add_diff_inverse2)
  have "drop 4 h = h ! 4 # drop 5 h" using assms Cons_nth_drop_Suc [of 4 h] by simp
  moreover have "slice 24 32 h = drop 24 h" using assms by (simp add: slice_def)
  ultimately show ?thesis
    using step [of 0 4] step [of 5 8] step [of 8 12] step [of 12 16] step [of 16 24] by simp
qed

lemma parsed_header:
  assumes "length h = 32" and "parse_envelope_header_v1 h False = Inr p"
  shows "h = build_header (h_key_id p) (h_chunk_size p) (h_plaintext_len p) (slice 24 32 h)"
proof -
  from assms(2) have "slice 0 4 h = BODY_ENVELOPE_MAGIC" "h ! 4 = BODY_ENVELOPE_VERSION"
    "slice 5 8 h = [0, 0, 0]" "h_key_id p = of_nat (be_value (slice 8 12 h))"
    "h_chunk_size p = of_nat (be_value (slice 12 16 h))"
    "h_plaintext_len p = of_nat (be_value (slice 16 24 h))"
    by (auto simp: parse_envelope_header_v1_def Let_def split: if_splits option.splits)
  moreover have "length (slice 8 12 h) = 4" "length (slice 12 16 h) = 4" "length (slice 16 24 h) = 8"
    using assms(1) by (simp_all add: slice_def)
  ultimately show ?thesis
    using slices_whole [OF assms(1)] by (simp add: build_header_def word_of_be32 word_of_be64)
qed

section \<open>Opening inverts sealing\<close>

lemma chunk_count_step:
  assumes "0 < cs" and "0 < n"
  shows "chunk_count cs n = Suc (chunk_count cs (n - min n cs))"
proof (cases "n < cs")
  case True
  then have "(n + (cs - 1)) div cs = 1" using assms by (intro div_nat_eqI) auto
  with True assms show ?thesis by (simp add: chunk_count_def)
next
  case False
  then have "n + (cs - 1) = (n - cs + (cs - 1)) + cs" by simp
  then have "(n + (cs - 1)) div cs = Suc ((n - cs + (cs - 1)) div cs)" using assms by (metis Suc_eq_plus1 div_add_self2 less_numeral_extra(3))
  with False show ?thesis by (simp add: chunk_count_def min_def)
qed

lemma chunk_count_0 [simp]: "0 < cs \<Longrightarrow> chunk_count cs 0 = 0"
  by (simp add: chunk_count_def)

lemma chunks_Nil [simp]: "chunks cs [] = []"
  by (simp add: chunks.simps)

lemma chunks_step: "0 < cs \<Longrightarrow> xs \<noteq> [] \<Longrightarrow> chunks cs xs = take cs xs # chunks cs (drop cs xs)"
  by (subst chunks.simps) (simp add: max_absorb1 Suc_leI)

lemma open_loop_exact:
  assumes aead: "aead_ok aseal aopen" and cs: "0 < cs"
    and "length out \<le> n" and "length blob = pos + (n - length out) + 16 * chunk_count cs (n - length out)"
    and "length blob < 2 ^ 64"
  shows "open_loop aopen key nb h blob cs n out pos (of_nat i) = Inr res \<longleftrightarrow>
    (\<exists>pt. res = out @ pt \<and> length pt = n - length out
        \<and> drop pos blob = seal_chunks aseal key nb h i (chunks cs pt))"
  using assms(3-5)
proof (induction "n - length out" arbitrary: out pos i rule: less_induct)
  case less
  show ?case
  proof (cases "length out < n")
    case False
    then show ?thesis using less.prems by (auto simp: open_loop.simps [of _ _ _ _ _ _ _ out] cs)
  next
    case True
    let ?d = "min (n - length out) cs"
    let ?e = "pos + (?d + TAG_LEN)"
    let ?ct = "slice pos ?e blob"
    let ?nonce = "chunk_nonce nb (of_nat i)"
    have d: "0 < ?d" using True cs by simp
    have cc: "chunk_count cs (n - length out) = Suc (chunk_count cs (n - length out - ?d))"
      using chunk_count_step [OF cs, of "n - length out"] True by simp
    have e: "?e \<le> length blob" "?e < 2 ^ 64" using less.prems cc min.cobounded1 [of "n - length out" cs]
      unfolding TAG_LEN_def by linarith+
    have ct: "length ?ct = ?d + TAG_LEN" "drop pos blob = ?ct @ drop ?e blob"
      using e by (simp_all add: slice_def) (metis add.commute append_take_drop_id drop_drop)
    have unfold: "open_loop aopen key nb h blob cs n out pos (of_nat i) =
      (case aopen key ?nonce h ?ct of None \<Rightarrow> Inl Decrypt
       | Some q \<Rightarrow> open_loop aopen key nb h blob cs n (out @ q) ?e (of_nat (Suc i)))"
      using True e by (subst open_loop.simps) (simp add: Let_def ac_simps split: option.split)
    have take_eq: "take cs pt = take ?d pt" "drop cs pt = drop ?d pt" if "length pt = n - length out" for pt :: bytes
      using that by (auto simp: min_def)
    have rest: "open_loop aopen key nb h blob cs n (out @ q) ?e (of_nat (Suc i)) = Inr res \<longleftrightarrow>
      (\<exists>pt. res = (out @ q) @ pt \<and> length pt = n - length (out @ q)
        \<and> drop ?e blob = seal_chunks aseal key nb h (Suc i) (chunks cs pt))" if "length q = ?d" for q
    proof (rule less.hyps)
      have nq: "n - length (out @ q) = n - length out - ?d" using that by simp
      have le: "?d \<le> n - length out" by simp
      show "n - length (out @ q) < n - length out" unfolding nq using d True by linarith
      show "length (out @ q) \<le> n" using that le True unfolding length_append by linarith
      show "length blob = ?e + (n - length (out @ q)) + 16 * chunk_count cs (n - length (out @ q))"
        unfolding nq TAG_LEN_def using less.prems(2) cc le by linarith
      show "length blob < 2 ^ 64" by (rule less.prems(3))
    qed
    show ?thesis
    proof
      assume "open_loop aopen key nb h blob cs n out pos (of_nat i) = Inr res"
      then obtain q where q: "aopen key ?nonce h ?ct = Some q"
        "open_loop aopen key nb h blob cs n (out @ q) ?e (of_nat (Suc i)) = Inr res"
        by (auto simp: unfold split: option.splits)
      then have ctq: "?ct = aseal key ?nonce h q" using aead by (simp add: aead_ok_def)
      then have lq: "length q = ?d" using ct(1) aead by (simp add: aead_ok_def)
      from rest [OF lq] q(2) obtain pt where pt: "res = (out @ q) @ pt"
        "length pt = n - length (out @ q)" "drop ?e blob = seal_chunks aseal key nb h (Suc i) (chunks cs pt)"
        by blast
      have len: "length (q @ pt) = n - length out"
        using pt(2) lq min.cobounded1 [of "n - length out" cs] unfolding length_append by linarith
      have "q @ pt \<noteq> []" using lq d by (metis append_is_Nil_conv list.size(3) less_irrefl)
      then have "chunks cs (q @ pt) = q # chunks cs pt"
        using chunks_step [OF cs, of "q @ pt"] take_eq [OF len] lq by simp
      with pt len ct(2) ctq show "\<exists>pt. res = out @ pt \<and> length pt = n - length out
          \<and> drop pos blob = seal_chunks aseal key nb h i (chunks cs pt)"
        by (intro exI [of _ "q @ pt"]) simp
    next
      assume "\<exists>pt. res = out @ pt \<and> length pt = n - length out
          \<and> drop pos blob = seal_chunks aseal key nb h i (chunks cs pt)"
      then obtain pt where pt: "res = out @ pt" "length pt = n - length out"
        "drop pos blob = seal_chunks aseal key nb h i (chunks cs pt)" by blast
      let ?q = "take ?d pt"
      have lq: "length ?q = ?d" using pt(2) by simp
      have "pt \<noteq> []" using pt(2) True by (metis list.size(3) zero_less_diff less_irrefl)
      then have "chunks cs pt = ?q # chunks cs (drop ?d pt)"
        using chunks_step [OF cs, of pt] take_eq [OF pt(2)] by simp
      then have "?ct @ drop ?e blob = aseal key ?nonce h ?q @ seal_chunks aseal key nb h (Suc i) (chunks cs (drop ?d pt))"
        using pt(3) ct(2) by simp
      moreover have "length ?ct = length (aseal key ?nonce h ?q)" using ct(1) lq aead by (simp add: aead_ok_def)
      ultimately have "?ct = aseal key ?nonce h ?q"
        "drop ?e blob = seal_chunks aseal key nb h (Suc i) (chunks cs (drop ?d pt))" by simp_all
      moreover have "res = (out @ ?q) @ drop ?d pt" using pt(1) by simp
      moreover have "length (drop ?d pt) = n - length (out @ ?q)" using pt(2) lq by simp
      ultimately have "open_loop aopen key nb h blob cs n (out @ ?q) ?e (of_nat (Suc i)) = Inr res"
        "aopen key ?nonce h ?ct = Some ?q"
        using rest [OF lq] aead by (blast, simp add: aead_ok_def)
      then show "open_loop aopen key nb h blob cs n out pos (of_nat i) = Inr res"
        by (simp only: unfold option.case)
    qed
  qed
qed

lemma length_seal_chunks:
  assumes "aead_ok aseal aopen" and "0 < cs"
  shows "length (seal_chunks aseal key nb h i (chunks cs pt)) = length pt + 16 * chunk_count cs (length pt)"
  using assms(2)
proof (induction "length pt" arbitrary: pt i rule: less_induct)
  case less
  show ?case
  proof (cases "pt = []")
    case False
    have "length (seal_chunks aseal key nb h (Suc i) (chunks cs (drop cs pt)))
        = length (drop cs pt) + 16 * chunk_count cs (length (drop cs pt))"
      using False less.prems by (intro less.hyps) (simp_all)
    moreover have "length (aseal key (chunk_nonce nb (of_nat i)) h (take cs pt)) = min (length pt) cs + 16"
      using assms(1) by (simp add: aead_ok_def TAG_LEN_def)
    moreover have "length (drop cs pt) = length pt - min (length pt) cs" by simp
    ultimately show ?thesis
      using False less.prems chunk_count_step [OF less.prems, of "length pt"] min.cobounded1 [of "length pt" cs]
      by (simp add: chunks_step) linarith
  qed (use assms(2) in simp)
qed

text \<open>Opening an envelope and sealing are inverse to each other on everything that fits into memory.\<close>

lemma open_envelope_exact:
  assumes "aead_ok aseal aopen" and "length blob < 2 ^ 63"
  shows "open_envelope aopen blob key = Inr pt \<longleftrightarrow>
    (\<exists>nb key_id cs. length nb = 8 \<and> cs \<noteq> 0 \<and> blob = seal_with_chunk aseal nb pt key key_id cs)"
proof
  assume op: "open_envelope aopen blob key = Inr pt"
  let ?h = "take 32 blob"
  from op obtain p where p: "32 \<le> length blob" "parse_envelope_header_v1 ?h False = Inr p"
    "h_expected_envelope_len p = of_nat (length blob)"
    "open_loop aopen key (slice 24 32 ?h) ?h blob (unat (h_chunk_size p)) (unat (h_plaintext_len p)) [] 32 0 = Inr pt"
    by (auto simp: open_envelope_def HEADER_LEN_def Let_def split: if_splits sum.splits)
  let ?nb = "slice 24 32 ?h" and ?k = "h_key_id p" and ?cs = "h_chunk_size p" and ?pl = "h_plaintext_len p"
  have nb: "length ?nb = 8" using p(1) by (simp add: slice_def)
  have h: "?h = build_header ?k ?cs ?pl ?nb" using p(1,2) by (intro parsed_header) simp_all
  from p(2) have "parse_envelope_header_v1 (build_header ?k ?cs ?pl ?nb) False = Inr p" using h by simp
  then have ok: "?cs \<noteq> 0" "fits (unat ?cs) (unat ?pl)"
    "h_expected_envelope_len p = of_nat (32 + unat ?pl + 16 * chunk_count (unat ?cs) (unat ?pl))"
    unfolding parse_header [OF nb]
    by (auto split: if_splits simp del: of_nat_add of_nat_mult) (metis EnvelopeHeaderV1.select_convs(4))
  have cs0: "0 < unat ?cs" using ok(1) by (simp add: unat_gt_0)
  have "(of_nat (length blob) :: u64) = of_nat (32 + unat ?pl + 16 * chunk_count (unat ?cs) (unat ?pl))"
    using ok(3) p(3) by simp
  then have "unat (of_nat (length blob) :: u64) = unat (of_nat (32 + unat ?pl + 16 * chunk_count (unat ?cs) (unat ?pl)) :: u64)"
    by simp
  then have len: "length blob = 32 + unat ?pl + 16 * chunk_count (unat ?cs) (unat ?pl)"
    using ok(2) assms(2) unfolding fits_def unat_of_nat by simp
  have "length pt = unat ?pl \<and> drop 32 blob = seal_chunks aseal key ?nb ?h 0 (chunks (unat ?cs) pt)"
    using open_loop_exact [OF assms(1) cs0, where out = "[]" and i = 0 and pos = 32 and blob = blob
        and n = "unat ?pl" and nb = ?nb and h = ?h and key = key and res = pt] p(4) len assms(2)
    by simp
  moreover have "blob = ?h @ drop 32 blob" by simp
  moreover have "(of_nat (unat ?pl) :: u64) = ?pl" by simp
  ultimately have "blob = seal_with_chunk aseal ?nb pt key ?k ?cs"
    using h by (simp add: seal_with_chunk_def)
  with nb ok(1) show "\<exists>nb key_id cs. length nb = 8 \<and> cs \<noteq> 0 \<and> blob = seal_with_chunk aseal nb pt key key_id cs"
    by blast
next
  assume "\<exists>nb key_id cs. length nb = 8 \<and> cs \<noteq> 0 \<and> blob = seal_with_chunk aseal nb pt key key_id cs"
  then obtain nb k and cs :: u32 where nb: "length nb = 8" and cs: "cs \<noteq> 0"
    and blob: "blob = seal_with_chunk aseal nb pt key k cs" by blast
  have cs0: "0 < unat cs" using cs by (simp add: unat_gt_0)
  let ?pl = "of_nat (length pt) :: u64"
  let ?h = "build_header k cs ?pl nb"
  let ?body = "seal_chunks aseal key nb ?h 0 (chunks (unat cs) pt)"
  have b: "blob = ?h @ ?body" using blob by (simp add: seal_with_chunk_def Let_def)
  then have len: "length blob = 32 + length pt + 16 * chunk_count (unat cs) (length pt)"
    using nb length_seal_chunks [OF assms(1) cs0] by simp
  have pl: "unat ?pl = length pt" using len assms(2) by (simp add: unat_of_nat)
  have "unat cs < 2 ^ LENGTH(32)" by (rule unsigned_less)
  then have fits: "fits (unat cs) (unat ?pl)" using len assms(2) unfolding fits_def pl by simp
  have h: "take 32 blob = ?h" "drop 32 blob = ?body" using b nb by simp_all
  have exp: "of_nat (32 + unat ?pl + 16 * chunk_count (unat cs) (unat ?pl)) = (of_nat (length blob) :: u64)"
    using len pl by simp
  have "open_loop aopen key nb ?h blob (unat cs) (unat ?pl) [] 32 (of_nat 0) = Inr pt"
    using open_loop_exact [OF assms(1) cs0, where out = "[]" and i = 0 and pos = 32 and blob = blob
        and n = "unat ?pl" and nb = nb and h = ?h and key = key and res = pt] len pl assms(2) h(2)
    by simp
  moreover have "parse_envelope_header_v1 ?h False =
      Inr \<lparr>h_key_id = k, h_chunk_size = cs, h_plaintext_len = ?pl, h_expected_envelope_len = of_nat (length blob)\<rparr>"
    unfolding parse_header [OF nb] exp using cs fits by simp
  ultimately show "open_envelope aopen blob key = Inr pt"
    using len h header_slices(7) [OF nb, of k cs ?pl]
    by (simp add: open_envelope_def HEADER_LEN_def)
qed

section \<open>Key rotation\<close>

text \<open>The registry after installing keys one after the other.\<close>

definition rotated :: "(u32 \<times> BodyKey) list \<Rightarrow> KeyRegistry" where
  "rotated ks = foldl (\<lambda>reg (i, k). set_body_key i k reg) no_keys ks"

text \<open>No key id is ever used for two keys.\<close>

definition one_key_per_id :: "(u32 \<times> BodyKey) list \<Rightarrow> bool" where
  "one_key_per_id ks = list_all (\<lambda>(i, k). list_all (\<lambda>(j, l). i = j \<longrightarrow> k = l) ks) ks"

definition entries :: "KeyRegistry \<Rightarrow> (u32 \<times> BodyKey) set" where
  "entries reg = set_option (active reg) \<union> set (older reg)"

lemma one_key_per_idD: "one_key_per_id ks \<Longrightarrow> (i, k) \<in> set ks \<Longrightarrow> (i, l) \<in> set ks \<Longrightarrow> k = l"
  by (fastforce simp: one_key_per_id_def list_all_iff)

lemma one_key_per_id_butlast: "one_key_per_id (ks @ ks') \<Longrightarrow> one_key_per_id ks"
  by (simp add: one_key_per_id_def list_all_iff) fast

lemma entries_rotated: "one_key_per_id ks \<Longrightarrow> entries (rotated ks) = set ks"
proof (induction ks rule: rev_induct)
  case Nil
  then show ?case by (simp add: rotated_def no_keys_def entries_def)
next
  case (snoc x ks)
  obtain i k where x: "x = (i, k)" by (cases x)
  let ?r = "rotated ks"
  have r: "rotated (ks @ [x]) = set_body_key i k ?r" by (simp add: rotated_def x)
  have IH: "entries ?r = set ks" using snoc one_key_per_id_butlast by blast
  have same: "l = k" if "active ?r = Some (i, l)" for l
  proof -
    have "(i, l) \<in> set (ks @ [x])" "(i, k) \<in> set (ks @ [x])"
      using that IH x by (auto simp: entries_def)
    with snoc.prems show ?thesis by (metis one_key_per_idD)
  qed
  have "entries (set_body_key i k ?r) = insert (i, k) (entries ?r)"
    using same by (cases "active ?r") (auto simp: set_body_key_def entries_def)
  with IH r x show ?case by auto
qed

lemma key_for_id_rotated:
  assumes "one_key_per_id ks" and "(i, k) \<in> set ks"
  shows "key_for_id i (rotated ks) = Some k"
proof -
  have e: "entries (rotated ks) = set ks" using assms(1) by (rule entries_rotated)
  have old: "map_option snd (List.find (\<lambda>(j, l). j = i) (older (rotated ks))) = Some k"
    if "(i, k) \<in> set (older (rotated ks))"
  proof -
    from that obtain y where y: "List.find (\<lambda>(j, l). j = i) (older (rotated ks)) = Some y"
      by (cases "List.find (\<lambda>(j, l). j = i) (older (rotated ks))") (auto simp: find_None_iff)
    then have "fst y = i" "y \<in> set (older (rotated ks))"
      by (auto simp: find_Some_iff dest: nth_mem)
    then have "fst y = i" "y \<in> set ks" using e by (auto simp: entries_def)
    with assms y show ?thesis by (metis (no_types) one_key_per_idD option.map(2) prod.collapse)
  qed
  show ?thesis
  proof (cases "active (rotated ks)")
    case None
    with e assms(2) old show ?thesis by (auto simp: key_for_id_def entries_def)
  next
    case (Some a)
    obtain j l where a: "a = (j, l)" by (cases a)
    have "(j, l) \<in> set ks" using Some a e by (auto simp: entries_def)
    then have "j = i \<Longrightarrow> l = k" using assms one_key_per_idD by blast
    moreover have "j \<noteq> i \<Longrightarrow> (i, k) \<in> set (older (rotated ks))" using Some a e assms(2) by (auto simp: entries_def)
    ultimately show ?thesis using Some a old by (auto simp: key_for_id_def)
  qed
qed

lemma active_rotated: "ks \<noteq> [] \<Longrightarrow> active (rotated ks) = Some (last ks)"
  by (induction ks rule: rev_induct) (auto simp: rotated_def set_body_key_def split: prod.split)

lemma blob_key_id_seal:
  assumes "length nb = 8"
  shows "blob_key_id (seal_with_chunk aseal nb pt key k cs) = Some k"
  using header_slices(1,4) [OF assms, of k cs "of_nat (length pt)"] assms
  by (simp add: blob_key_id_def seal_with_chunk_def Let_def HEADER_LEN_def slice_def)

lemma length_seal:
  assumes "aead_ok aseal aopen" and "length nb = 8" and "length pt < 2 ^ 62"
  shows "length (seal aseal nb pt key k) < 2 ^ 63"
proof -
  have "chunk_count (unat DEFAULT_CHUNK) (length pt) \<le> (2 ^ 62 + 65535) div 65536"
    unfolding chunk_count_def using assms(3) by (simp add: DEFAULT_CHUNK_def div_le_mono)
  moreover have "length (seal aseal nb pt key k)
      = 32 + (length pt + 16 * chunk_count (unat DEFAULT_CHUNK) (length pt))"
    unfolding seal_def seal_with_chunk_def Let_def length_append
    using assms(2) by (subst length_seal_chunks [OF assms(1)]) (simp_all add: DEFAULT_CHUNK_def)
  ultimately show ?thesis using assms(3) by simp
qed

lemma read_sealed:
  assumes "aead_ok aseal aopen" and "length nb = 8" and "length pt < 2 ^ 62"
    and "fs path = Some (seal aseal nb pt key k)" and "key_for_id k reg = Some key"
  shows "read_body aopen path reg fs = Inr pt"
proof -
  have "DEFAULT_CHUNK \<noteq> 0" by (simp add: DEFAULT_CHUNK_def)
  then have "open_envelope aopen (seal aseal nb pt key k) key = Inr pt"
    using open_envelope_exact [OF assms(1) length_seal [OF assms(1-3)]] assms(2) unfolding seal_def by blast
  with assms(2,4,5) show ?thesis
    by (simp add: read_body_def blob_key_id_seal seal_def)
qed

lemma tmp_sibling_neq [simp]: "tmp_sibling p \<noteq> p" "p \<noteq> tmp_sibling p"
proof -
  show "tmp_sibling p \<noteq> p"
  proof (cases p rule: rev_cases)
    case (snoc q n)
    then show ?thesis by (simp add: tmp_sibling_def)
  qed (simp add: tmp_sibling_def)
  then show "p \<noteq> tmp_sibling p" by metis
qed

section \<open>Properties\<close>

text \<open>C22: The strict reader returns sealed text and nothing else. It returns a plaintext exactly when the
  file is, byte for byte, what sealing that plaintext under an installed key produces (with some
  nonce base and chunk size): a plaintext file, a truncated, extended or reordered envelope, one
  with a changed header or with a missing key is always refused.\<close>

theorem strict_reader_exact:
  assumes "aead_ok aseal aopen" and "\<And>raw. fs path = Some raw \<Longrightarrow> length raw < 2 ^ 63"
  shows "read_sealed_body_required aopen path reg fs = Inr pt \<longleftrightarrow>
    (\<exists>key_id key nb cs. key_for_id key_id reg = Some key \<and> length nb = 8 \<and> cs \<noteq> 0
       \<and> fs path = Some (seal_with_chunk aseal nb pt key key_id cs))"
proof
  assume "read_sealed_body_required aopen path reg fs = Inr pt"
  then obtain raw k key where raw: "fs path = Some raw" "blob_key_id raw = Some k" "key_for_id k reg = Some key"
    "open_envelope aopen raw key = Inr pt"
    by (auto simp: read_sealed_body_required_def map_sum_def split: option.splits sum.splits)
  from open_envelope_exact [OF assms(1) assms(2) [OF raw(1)]] raw(4) obtain nb k' cs where
    "length nb = 8" "cs \<noteq> 0" "raw = seal_with_chunk aseal nb pt key k' cs" by blast
  moreover from this have "k' = k" using raw(2) blob_key_id_seal by simp
  ultimately show "\<exists>key_id key nb cs. key_for_id key_id reg = Some key \<and> length nb = 8 \<and> cs \<noteq> 0
       \<and> fs path = Some (seal_with_chunk aseal nb pt key key_id cs)"
    using raw by blast
next
  assume "\<exists>key_id key nb cs. key_for_id key_id reg = Some key \<and> length nb = 8 \<and> cs \<noteq> 0
       \<and> fs path = Some (seal_with_chunk aseal nb pt key key_id cs)"
  then obtain k key nb cs where *: "key_for_id k reg = Some key" "length nb = 8" "cs \<noteq> 0"
    "fs path = Some (seal_with_chunk aseal nb pt key k cs)" by blast
  then have "open_envelope aopen (seal_with_chunk aseal nb pt key k cs) key = Inr pt"
    using open_envelope_exact [OF assms(1) assms(2)] by blast
  with * show "read_sealed_body_required aopen path reg fs = Inr pt"
    by (simp add: read_sealed_body_required_def blob_key_id_seal)
qed

text \<open>A stand-in for the cipher: the text itself with a tag that depends on the key.\<close>

definition toy_seal :: aseal where
  "toy_seal k n a p = p @ replicate 16 (hd (k @ [0]))"

definition toy_open :: aopen where
  "toy_open k n a c =
     (if length c < 16 \<or> drop (length c - 16) c \<noteq> replicate 16 (hd (k @ [0])) then None
      else Some (take (length c - 16) c))"

lemma toy_aead: "aead_ok toy_seal toy_open"
  unfolding aead_ok_def toy_seal_def toy_open_def TAG_LEN_def
  by (auto split: if_splits) (metis append_take_drop_id)

theorem strict_reader_exact_witness:
  "read_sealed_body_required toy_open [''f''] (rotated [(1, [7])])
     [[''f''] \<mapsto> seal_with_chunk toy_seal (replicate 8 3) [1, 2, 3] [7] 1 2] = Inr [1, 2, 3]"
proof -
  let ?fs = "[[''f''] \<mapsto> seal_with_chunk toy_seal (replicate 8 3) [1, 2, 3] [7] 1 2]"
  have "length (seal_with_chunk toy_seal (replicate 8 3) [1, 2, 3] [7] 1 2) < 2 ^ 63"
    by (simp add: seal_with_chunk_def chunks.simps toy_seal_def)
  then have len: "\<And>raw. ?fs [''f''] = Some raw \<Longrightarrow> length raw < 2 ^ 63" by simp
  have "key_for_id 1 (rotated [(1, [7])]) = Some [7]" by code_simp
  moreover have "length (replicate 8 (3 :: u8)) = 8" "(2 :: u32) \<noteq> 0" by simp_all
  moreover have "?fs [''f''] = Some (seal_with_chunk toy_seal (replicate 8 3) [1, 2, 3] [7] 1 2)" by simp
  ultimately show ?thesis
    using strict_reader_exact [OF toy_aead len, where reg = "rotated [(1, [7])]" and pt = "[1, 2, 3]"] by blast
qed

text \<open>C23: A body file survives crashes and key rotation. Writing a body under the active key and reading it
  after any later rotations gives the text back, as long as no key id is reused for another key. If
  writing stops anywhere before the rename, readers of the path see what they saw before, and no
  file but the temporary sibling is touched in either case.\<close>

theorem body_survives_crash_and_rotation:
  assumes "aead_ok aseal aopen" and "length nb = 8" and "length pt < 2 ^ 62"
    and "ks \<noteq> []" and "one_key_per_id (ks @ later)"
    and "write_body_atomic aseal nb fault path pt (rotated ks) fs = (r, fs')"
  shows "read_body aopen path (rotated (ks @ later)) fs'
      = (if fault = NoFault then Inr pt else read_body aopen path (rotated (ks @ later)) fs)
    \<and> (r = Inr () \<longleftrightarrow> fault = NoFault)
    \<and> (\<forall>q. q \<noteq> path \<longrightarrow> q \<noteq> tmp_sibling path \<longrightarrow> fs' q = fs q)"
proof -
  obtain i k where last: "last ks = (i, k)" by (cases "last ks")
  have act: "active (rotated ks) = Some (i, k)" using active_rotated [OF assms(4)] last by simp
  have "(i, k) \<in> set (ks @ later)" using assms(4) last by (metis UnI1 last_in_set set_append)
  then have key: "key_for_id i (rotated (ks @ later)) = Some k" using assms(5) key_for_id_rotated by blast
  have "fs' path = (if fault = NoFault then Some (seal aseal nb pt k i) else fs path)"
    "r = Inr () \<longleftrightarrow> fault = NoFault" "\<forall>q. q \<noteq> path \<longrightarrow> q \<noteq> tmp_sibling path \<longrightarrow> fs' q = fs q"
    using assms(6) by (auto simp: write_body_atomic_def act Let_def split: disk_fault.splits)
  moreover have "read_body aopen path (rotated (ks @ later)) fs' = Inr pt" if "fs' path = Some (seal aseal nb pt k i)"
    using assms(1-3) that key by (rule read_sealed)
  moreover have "read_body aopen path (rotated (ks @ later)) fs' = read_body aopen path (rotated (ks @ later)) fs"
    if "fs' path = fs path" using that by (simp add: read_body_def)
  ultimately show ?thesis by (auto split: if_splits)
qed

theorem body_survives_crash_and_rotation_witness:
  "read_body toy_open [''d'', ''f''] (rotated [(1, [7]), (2, [8]), (1, [7])])
     (snd (write_body_atomic toy_seal (replicate 8 3) NoFault [''d'', ''f''] [1, 2, 3] (rotated [(1, [7])]) Map.empty))
   = Inr [1, 2, 3]"
proof -
  have "one_key_per_id ([(1, [7])] @ [(2, [8]), (1, [7])])" by (simp add: one_key_per_id_def)
  moreover obtain r fs' where "write_body_atomic toy_seal (replicate 8 3) NoFault [''d'', ''f''] [1, 2, 3]
      (rotated [(1, [7])]) Map.empty = (r, fs')" by fastforce
  ultimately show ?thesis
    using body_survives_crash_and_rotation [OF toy_aead, of "replicate 8 3" "[1, 2, 3]" "[(1, [7])]"
        "[(2, [8]), (1, [7])]" NoFault "[''d'', ''f'']" Map.empty r fs'] by simp
qed

text \<open>Without a key, files are stored as they are, and reading back gives the text exactly when it does
  not itself begin like an envelope; a file of at least 32 bytes that starts with the magic bytes
  cannot be read back.\<close>

theorem plaintext_body_exact:
  "read_body aopen path no_keys (snd (write_body_atomic aseal nb NoFault path pt no_keys fs))
   = (if 32 \<le> length pt \<and> take 4 pt = BODY_ENVELOPE_MAGIC then Inl NoBodyKey else Inr pt)"
  by (auto simp: write_body_atomic_def no_keys_def read_body_def key_for_id_def blob_key_id_def
      HEADER_LEN_def slice_def Let_def)

end
