(* ===== verification/Pathmap.thy ===== *)
theory Pathmap
  imports Prelude
begin

text \<open>
  Cloud and local file names, \<^verbatim>\<open>crates/pathmap/src/lib.rs\<close>: the reversible codec, reserved names, and
  the mapping table that assigns names in both directions. A name is a list of Unicode code points. The
  comparison key of a name (NFC of the \<^verbatim>\<open>unicode-normalization\<close> crate around the lowercase mapping)
  is the parameter \<open>case_key\<close>. The unbounded search for a free suffix is a partial function; that it
  ends is proved.
\<close>

section \<open>Code points\<close>

type_synonym uname = "int list"

definition codes :: "string \<Rightarrow> uname" where
  "codes s = map of_char s"

section \<open>The codec\<close>

definition CHAR_MAP :: "(int \<times> int) list" where
  "CHAR_MAP = [(0x22, 0xFF02), (0x2A, 0xFF0A), (0x3A, 0xFF1A), (0x3C, 0xFF1C), (0x3E, 0xFF1E),
     (0x3F, 0xFF1F), (0x5C, 0xFF3C), (0x7C, 0xFF5C), (0x2F, 0xFF0F)]"

definition TRAIL_DOT :: int where
  "TRAIL_DOT = 0xFF0E"

definition TRAIL_SPACE :: int where
  "TRAIL_SPACE = 0x2423"

definition enc_char :: "int \<Rightarrow> int" where
  "enc_char c = (case List.find (\<lambda>(a, b). a = c) CHAR_MAP of Some (a, b) \<Rightarrow> b | None \<Rightarrow> c)"

definition dec_char :: "int \<Rightarrow> int" where
  "dec_char c = (case List.find (\<lambda>(a, b). b = c) CHAR_MAP of Some (a, b) \<Rightarrow> a | None \<Rightarrow> c)"

text \<open>The index where the trailing run of dots and spaces starts.\<close>

fun trail_start :: "uname \<Rightarrow> nat \<Rightarrow> nat" where
  "trail_start out 0 = 0"
| "trail_start out (Suc i) = (if out ! i = 0x2E \<or> out ! i = 0x20 then trail_start out i else Suc i)"

definition trail_char :: "int \<Rightarrow> int" where
  "trail_char c = (if c = 0x2E then TRAIL_DOT else if c = 0x20 then TRAIL_SPACE else c)"

definition to_cloud :: "uname \<Rightarrow> uname" where
  "to_cloud name =
     (let out = map enc_char name;
          i = trail_start out (length out)
      in take i out @ map trail_char (drop i out))"

definition to_local :: "uname \<Rightarrow> uname" where
  "to_local cloud =
     map (\<lambda>c. if c = TRAIL_DOT then 0x2E else if c = TRAIL_SPACE then 0x20 else dec_char c) cloud"

definition ascii_upper :: "int \<Rightarrow> int" where
  "ascii_upper c = (if 0x61 \<le> c \<and> c \<le> 0x7A then c - 0x20 else c)"

definition starts_with :: "uname \<Rightarrow> uname \<Rightarrow> bool" where
  "starts_with name p \<longleftrightarrow> take (length p) name = p"

definition is_reserved :: "uname \<Rightarrow> bool" where
  "is_reserved name =
     (let stem = takeWhile (\<lambda>c. c \<noteq> 0x2E) name;
          upper = map ascii_upper stem;
          device = upper \<in> set [codes ''CON'', codes ''PRN'', codes ''AUX'', codes ''NUL'']
            \<or> (starts_with upper (codes ''COM'') \<or> starts_with upper (codes ''LPT''))
              \<and> length upper = 4 \<and> 0x30 \<le> upper ! 3 \<and> upper ! 3 \<le> 0x39 \<and> upper ! 3 \<noteq> 0x30
      in device \<or> starts_with name (codes ''~$'') \<or> starts_with name (codes ''_vti_'')
         \<or> map ascii_upper name = map ascii_upper (codes ''desktop.ini''))"

section \<open>The mapping table\<close>

text \<open>\<^verbatim>\<open>name.rfind('.')\<close>.\<close>

fun rfind_dot :: "uname \<Rightarrow> nat option" where
  "rfind_dot [] = None"
| "rfind_dot (c # cs) = (case rfind_dot cs of Some i \<Rightarrow> Some (Suc i) | None \<Rightarrow> if c = 0x2E then Some 0 else None)"

definition split_ext :: "uname \<Rightarrow> uname \<times> uname" where
  "split_ext name =
     (case rfind_dot name of
        Some idx \<Rightarrow> if 0 < idx \<and> idx < length name - 1 then (take idx name, drop idx name) else (name, [])
      | None \<Rightarrow> (name, []))"

record ParentMap =
  cloud_to_local :: "uname \<rightharpoonup> uname"
  local_to_cloud :: "uname \<rightharpoonup> uname"
  used_cloud :: "uname \<rightharpoonup> uname"

definition empty_parent :: ParentMap where
  "empty_parent = \<lparr>cloud_to_local = Map.empty, local_to_cloud = Map.empty, used_cloud = Map.empty\<rparr>"

text \<open>\<^verbatim>\<open>format!("{stem} ({n}){ext}")\<close>.\<close>

definition suffixed :: "uname \<Rightarrow> uname \<Rightarrow> nat \<Rightarrow> uname" where
  "suffixed stem ext n = stem @ codes '' ('' @ codes (show_nat n) @ codes '')'' @ ext"

partial_function (option) dedupe_from ::
  "(uname \<Rightarrow> uname) \<Rightarrow> ParentMap \<Rightarrow> uname \<Rightarrow> uname \<Rightarrow> nat \<Rightarrow> uname option" where
  "dedupe_from case_key p stem ext n =
     (if used_cloud p (case_key (suffixed stem ext n)) = None then Some (suffixed stem ext n)
      else dedupe_from case_key p stem ext (n + 1))"

declare dedupe_from.simps [code]

definition dedupe :: "(uname \<Rightarrow> uname) \<Rightarrow> ParentMap \<Rightarrow> uname \<Rightarrow> uname option" where
  "dedupe case_key p candidate =
     (if used_cloud p (case_key candidate) = None then Some candidate
      else case split_ext candidate of (stem, ext) \<Rightarrow> dedupe_from case_key p stem ext 2)"

definition record_pair :: "(uname \<Rightarrow> uname) \<Rightarrow> uname \<Rightarrow> uname \<Rightarrow> ParentMap \<Rightarrow> ParentMap" where
  "record_pair case_key cloud loc p =
     p\<lparr>cloud_to_local := (cloud_to_local p)(cloud \<mapsto> loc),
       local_to_cloud := (local_to_cloud p)(loc \<mapsto> cloud),
       used_cloud := (used_cloud p)(case_key cloud \<mapsto> cloud)\<rparr>"

type_synonym MappingTable = "uname \<rightharpoonup> ParentMap"

text \<open>\<^verbatim>\<open>parents.entry(parent).or_default()\<close>.\<close>

definition parent_entry :: "MappingTable \<Rightarrow> uname \<Rightarrow> ParentMap" where
  "parent_entry t parent = (case t parent of Some p \<Rightarrow> p | None \<Rightarrow> empty_parent)"

definition assign_cloud_name ::
  "(uname \<Rightarrow> uname) \<Rightarrow> uname \<Rightarrow> uname \<Rightarrow> MappingTable \<Rightarrow> (uname \<times> MappingTable) option" where
  "assign_cloud_name case_key parent loc t =
     (let p = parent_entry t parent
      in case local_to_cloud p loc of
           Some c \<Rightarrow> Some (c, t(parent \<mapsto> p))
         | None \<Rightarrow>
             (case dedupe case_key p (to_cloud loc) of
                None \<Rightarrow> None
              | Some cloud \<Rightarrow> Some (cloud, t(parent \<mapsto> record_pair case_key cloud loc p))))"

definition assign_local_name ::
  "(uname \<Rightarrow> uname) \<Rightarrow> uname \<Rightarrow> uname \<Rightarrow> MappingTable \<Rightarrow> uname \<times> MappingTable" where
  "assign_local_name case_key parent cloud t =
     (let p = parent_entry t parent
      in case cloud_to_local p cloud of
           Some l \<Rightarrow> (l, t(parent \<mapsto> p))
         | None \<Rightarrow>
             let loc = to_local cloud
             in (loc, t(parent \<mapsto> record_pair case_key cloud loc p)))"

definition lookup_local :: "MappingTable \<Rightarrow> uname \<Rightarrow> uname \<Rightarrow> uname option" where
  "lookup_local t parent cloud = Option.bind (t parent) (\<lambda>p. cloud_to_local p cloud)"

definition lookup_cloud :: "MappingTable \<Rightarrow> uname \<Rightarrow> uname \<Rightarrow> uname option" where
  "lookup_cloud t parent loc = Option.bind (t parent) (\<lambda>p. local_to_cloud p loc)"

section \<open>What the names promise\<close>

text \<open>The replacement characters of the codec, and the names OneDrive accepts.\<close>

definition replacement :: "int \<Rightarrow> bool" where
  "replacement c \<longleftrightarrow> c \<in> set (map snd CHAR_MAP) \<or> c = TRAIL_DOT \<or> c = TRAIL_SPACE"

definition cloud_safe :: "uname \<Rightarrow> bool" where
  "cloud_safe name \<longleftrightarrow> list_all (\<lambda>c. c \<notin> set (map fst CHAR_MAP)) name
     \<and> (name \<noteq> [] \<longrightarrow> last name \<noteq> 0x2E \<and> last name \<noteq> 0x20)"

text \<open>Case folding keeps numbers in parentheses apart.\<close>

definition numbers_survive :: "(uname \<Rightarrow> uname) \<Rightarrow> bool" where
  "numbers_survive case_key \<longleftrightarrow>
     (\<forall>stem ext m n. case_key (suffixed stem ext m) = case_key (suffixed stem ext n) \<longrightarrow> m = n)"

text \<open>The table of a folder: the two directions are inverse, every assigned cloud name is reserved under
  its comparison key, and the keys in use are finitely many.\<close>

definition parent_ok :: "(uname \<Rightarrow> uname) \<Rightarrow> ParentMap \<Rightarrow> bool" where
  "parent_ok case_key p \<longleftrightarrow>
     (\<forall>l c. local_to_cloud p l = Some c \<longleftrightarrow> cloud_to_local p c = Some l)
     \<and> (\<forall>c l. cloud_to_local p c = Some l \<longrightarrow> used_cloud p (case_key c) = Some c)
     \<and> finite (dom (used_cloud p))"

definition table_ok :: "(uname \<Rightarrow> uname) \<Rightarrow> MappingTable \<Rightarrow> bool" where
  "table_ok case_key t \<longleftrightarrow> (\<forall>parent p. t parent = Some p \<longrightarrow> parent_ok case_key p)"

text \<open>Sequences of assignments. An assignment of a local name is free of collisions if the cloud name is
  known, or neither its decoded name nor its comparison key is taken.\<close>

datatype name_call = AssignCloud uname uname | AssignLocal uname uname

fun name_exec :: "(uname \<Rightarrow> uname) \<Rightarrow> name_call \<Rightarrow> MappingTable \<Rightarrow> MappingTable option" where
  "name_exec case_key (AssignCloud parent loc) t = map_option snd (assign_cloud_name case_key parent loc t)"
| "name_exec case_key (AssignLocal parent cloud) t = Some (snd (assign_local_name case_key parent cloud t))"

fun collision_free :: "(uname \<Rightarrow> uname) \<Rightarrow> name_call \<Rightarrow> MappingTable \<Rightarrow> bool" where
  "collision_free case_key (AssignCloud parent loc) t = True"
| "collision_free case_key (AssignLocal parent cloud) t =
     (let p = parent_entry t parent
      in cloud_to_local p cloud \<noteq> None
         \<or> local_to_cloud p (to_local cloud) = None \<and> used_cloud p (case_key cloud) = None)"

fun name_run :: "(uname \<Rightarrow> uname) \<Rightarrow> name_call list \<Rightarrow> MappingTable \<Rightarrow> MappingTable option" where
  "name_run case_key [] t = Some t"
| "name_run case_key (c # cs) t = Option.bind (name_exec case_key c t) (name_run case_key cs)"

fun collision_free_run :: "(uname \<Rightarrow> uname) \<Rightarrow> name_call list \<Rightarrow> MappingTable \<Rightarrow> bool" where
  "collision_free_run case_key [] t = True"
| "collision_free_run case_key (c # cs) t =
     (collision_free case_key c t
      \<and> (case name_exec case_key c t of Some t' \<Rightarrow> collision_free_run case_key cs t' | None \<Rightarrow> True))"

section \<open>The codec is reversible\<close>

lemmas codec_defs = enc_char_def dec_char_def CHAR_MAP_def trail_char_def TRAIL_DOT_def TRAIL_SPACE_def
  replacement_def

definition local_char :: "int \<Rightarrow> int" where
  "local_char c = (if c = TRAIL_DOT then 0x2E else if c = TRAIL_SPACE then 0x20 else dec_char c)"

lemma local_char_enc: "local_char (enc_char c) = c \<longleftrightarrow> \<not> replacement c"
  by (simp add: codec_defs local_char_def)

lemma local_char_trail: "local_char (trail_char (enc_char c)) = c \<longleftrightarrow> \<not> replacement c"
  by (simp add: codec_defs local_char_def)

lemma map_id_iff: "map f xs = xs \<longleftrightarrow> (\<forall>x \<in> set xs. f x = x)"
  by (induction xs) auto

lemma to_local_to_cloud: "to_local (to_cloud name) = name \<longleftrightarrow> list_all (\<lambda>c. \<not> replacement c) name"
proof -
  define i where "i = trail_start (map enc_char name) (length (map enc_char name))"
  have "to_local (to_cloud name) =
      map (\<lambda>c. local_char (enc_char c)) (take i name)
      @ map (\<lambda>c. local_char (trail_char (enc_char c))) (drop i name)"
    by (simp add: to_local_def to_cloud_def local_char_def i_def Let_def take_map drop_map comp_def)
  also have "\<dots> = take i name @ drop i name \<longleftrightarrow>
      (\<forall>c \<in> set (take i name). \<not> replacement c) \<and> (\<forall>c \<in> set (drop i name). \<not> replacement c)"
    by (simp add: append_eq_append_conv map_id_iff local_char_enc local_char_trail del: append_take_drop_id)
  also have "\<dots> \<longleftrightarrow> (\<forall>c \<in> set (take i name @ drop i name). \<not> replacement c)"
    by (simp only: set_append) blast
  finally show ?thesis by (simp add: list_all_iff)
qed

lemma trail_start_spec:
  assumes "n \<le> length out"
  shows "trail_start out n \<le> n"
    and "trail_start out n \<le> j \<Longrightarrow> j < n \<Longrightarrow> out ! j = 0x2E \<or> out ! j = 0x20"
    and "0 < trail_start out n \<Longrightarrow>
      out ! (trail_start out n - 1) \<noteq> 0x2E \<and> out ! (trail_start out n - 1) \<noteq> 0x20"
  using assms
proof (induction n)
  case (Suc n)
  { case 1 then show ?case using Suc by simp
  next
    case 2 then show ?case using Suc by (cases "j = n") (auto split: if_splits)
  next
    case 3 then show ?case using Suc by (auto split: if_splits) }
qed simp_all

lemma enc_char_safe: "enc_char c \<notin> set (map fst CHAR_MAP)"
  by (simp add: codec_defs)

lemma trail_char_safe: "c \<notin> set (map fst CHAR_MAP) \<Longrightarrow> trail_char c \<notin> set (map fst CHAR_MAP)"
  by (simp add: codec_defs)

lemma to_cloud_safe: "cloud_safe (to_cloud name)"
proof -
  let ?out = "map enc_char name"
  define i where "i = trail_start ?out (length ?out)"
  note spec = trail_start_spec [of "length ?out" ?out, folded i_def]
  have cloud: "to_cloud name = take i ?out @ map trail_char (drop i ?out)"
    by (simp add: to_cloud_def i_def Let_def)
  have "c \<notin> set (map fst CHAR_MAP)" if "c \<in> set (to_cloud name)" for c
  proof -
    from that have "c \<in> set ?out \<or> c \<in> trail_char ` set ?out"
      unfolding cloud using set_take_subset [of i ?out] set_drop_subset [of i ?out] by auto
    then show ?thesis using enc_char_safe trail_char_safe by (metis imageE image_set)
  qed
  moreover have "last (to_cloud name) \<noteq> 0x2E \<and> last (to_cloud name) \<noteq> 0x20" if "to_cloud name \<noteq> []"
  proof (cases "i < length ?out")
    case True
    then have "drop i ?out \<noteq> []" by simp
    then have l: "last (to_cloud name) = trail_char (last ?out)"
      unfolding cloud using True by (simp add: last_map)
    have "?out \<noteq> []" using True by auto
    then have "last ?out = ?out ! (length ?out - 1)" by (rule last_conv_nth)
    then have "last ?out = 0x2E \<or> last ?out = 0x20" using spec(2) [of "length ?out - 1"] True by simp
    with l show ?thesis by (auto simp: codec_defs)
  next
    case False
    then have i: "i = length ?out" using spec(1) by simp
    then have "to_cloud name = ?out" using cloud by simp
    with that have "?out \<noteq> []" by metis
    with i spec(3) \<open>to_cloud name = ?out\<close> show ?thesis by (simp add: last_conv_nth)
  qed
  ultimately show ?thesis by (auto simp: cloud_safe_def list_all_iff)
qed

section \<open>Free names are found\<close>

lemma dedupe_from_finds:
  assumes "used_cloud p (case_key (suffixed stem ext m)) = None" and "n \<le> m"
  shows "\<exists>k. dedupe_from case_key p stem ext n = Some (suffixed stem ext k)
     \<and> used_cloud p (case_key (suffixed stem ext k)) = None"
  using assms
proof (induction "m - n" arbitrary: n)
  case 0
  then show ?case by (intro exI [of _ n]) (simp add: dedupe_from.simps)
next
  case (Suc d)
  show ?case
  proof (cases "used_cloud p (case_key (suffixed stem ext n)) = None")
    case True
    then show ?thesis by (intro exI [of _ n]) (simp add: dedupe_from.simps)
  next
    case False
    have "d = m - (n + 1)" "n + 1 \<le> m" using Suc.hyps(2) by simp_all
    from Suc.hyps(1) [OF this(1) Suc.prems(1) this(2)]
    have "\<exists>k. dedupe_from case_key p stem ext (n + 1) = Some (suffixed stem ext k)
      \<and> used_cloud p (case_key (suffixed stem ext k)) = None" .
    moreover have "dedupe_from case_key p stem ext n = dedupe_from case_key p stem ext (n + 1)"
      using False by (subst dedupe_from.simps) auto
    ultimately show ?thesis by simp
  qed
qed

lemma dedupe_from_returns:
  assumes "numbers_survive case_key" and "finite (dom (used_cloud p))"
  shows "\<exists>k. dedupe_from case_key p stem ext n = Some (suffixed stem ext k)
     \<and> used_cloud p (case_key (suffixed stem ext k)) = None"
proof -
  let ?f = "\<lambda>k. case_key (suffixed stem ext k)"
  have "inj ?f" using assms(1) by (auto simp: numbers_survive_def inj_def)
  then have "inj_on ?f {n..}" by (rule inj_on_subset) simp
  then have "infinite (?f ` {n..})" using infinite_Ici finite_imageD by blast
  then obtain m where "n \<le> m" "?f m \<notin> dom (used_cloud p)"
    using assms(2) finite_subset [of "?f ` {n..}" "dom (used_cloud p)"] by auto
  then show ?thesis using dedupe_from_finds [of p case_key stem ext m n] by (auto simp: dom_def)
qed

lemma split_ext_append: "split_ext name = (stem, ext) \<Longrightarrow> name = stem @ ext"
  by (auto simp: split_ext_def split: option.splits if_splits)

lemma code_digits: "c \<in> set (codes (show_nat n)) \<Longrightarrow> c \<in> {48..57}"
proof -
  assume "c \<in> set (codes (show_nat n))"
  then obtain d where d: "d \<in> set (show_nat n)" "c = of_char d" by (auto simp: codes_def)
  then have "c = int (of_char d)" by (simp add: of_nat_of_char)
  with show_nat_digits [OF d(1)] show ?thesis by (simp only: atLeastAtMost_iff) linarith
qed

lemma suffixed_chars: "set (suffixed stem ext n) \<subseteq> set stem \<union> set ext \<union> {0x20, 0x28, 0x29} \<union> {48..57}"
proof -
  have "set (codes '' ('') \<union> set (codes '')'') \<subseteq> {0x20, 0x28, 0x29}" by (simp add: codes_def)
  moreover have "set (codes (show_nat n)) \<subseteq> {48..57}" using code_digits by blast
  ultimately show ?thesis unfolding suffixed_def set_append by blast
qed

lemma suffixed_safe:
  assumes "cloud_safe (stem @ ext)"
  shows "cloud_safe (suffixed stem ext n)"
proof -
  have "c \<notin> set (map fst CHAR_MAP)" if "c \<in> set (suffixed stem ext n)" for c
  proof -
    from that suffixed_chars [of stem ext n] have "c \<in> set (stem @ ext) \<or> c \<in> {0x20, 0x28, 0x29} \<or> c \<in> {48..57}"
      unfolding set_append by blast
    moreover have "c \<notin> set (map fst CHAR_MAP)" if "c \<in> set (stem @ ext)"
      using that assms unfolding cloud_safe_def list_all_iff by blast
    moreover have "c \<notin> set (map fst CHAR_MAP)" if "c \<in> {0x20, 0x28, 0x29} \<or> c \<in> {48..57}"
      using that by (auto simp: CHAR_MAP_def)
    ultimately show ?thesis by blast
  qed
  moreover have "last (suffixed stem ext n) \<noteq> 0x2E \<and> last (suffixed stem ext n) \<noteq> 0x20"
    using assms by (cases "ext = []") (auto simp: suffixed_def cloud_safe_def codes_def)
  ultimately show ?thesis by (auto simp: cloud_safe_def list_all_iff)
qed

lemma dedupe_returns:
  assumes "numbers_survive case_key" and "finite (dom (used_cloud p))" and "cloud_safe candidate"
  shows "\<exists>c. dedupe case_key p candidate = Some c \<and> used_cloud p (case_key c) = None \<and> cloud_safe c"
proof (cases "used_cloud p (case_key candidate) = None")
  case True
  with assms(3) show ?thesis by (simp add: dedupe_def)
next
  case False
  obtain stem ext where se: "split_ext candidate = (stem, ext)" by fastforce
  then have "cloud_safe (stem @ ext)" using assms(3) split_ext_append by simp
  with dedupe_from_returns [OF assms(1,2), of stem ext 2] suffixed_safe False se show ?thesis
    by (fastforce simp: dedupe_def)
qed

section \<open>The table stays one-to-one\<close>

lemma empty_parent_ok: "parent_ok case_key empty_parent"
  by (simp add: parent_ok_def empty_parent_def)

lemma parent_entry_ok: "table_ok case_key t \<Longrightarrow> parent_ok case_key (parent_entry t parent)"
  by (auto simp: table_ok_def parent_entry_def empty_parent_ok split: option.splits)

lemma record_pair_ok:
  assumes "parent_ok case_key p" and "local_to_cloud p loc = None" and "used_cloud p (case_key cloud) = None"
  shows "parent_ok case_key (record_pair case_key cloud loc p)"
proof -
  have inv: "\<And>l c. local_to_cloud p l = Some c \<longleftrightarrow> cloud_to_local p c = Some l"
    and key: "\<And>c l. cloud_to_local p c = Some l \<Longrightarrow> used_cloud p (case_key c) = Some c"
    and fin: "finite (dom (used_cloud p))"
    using assms(1) by (simp_all add: parent_ok_def)
  have new: "cloud_to_local p cloud = None" using key assms(3) by (cases "cloud_to_local p cloud") auto
  have other: "case_key c \<noteq> case_key cloud" if "cloud_to_local p c = Some l" for c l
    using key [OF that] assms(3) by (metis option.distinct(1))
  have "((local_to_cloud p)(loc \<mapsto> cloud)) l = Some c \<longleftrightarrow> ((cloud_to_local p)(cloud \<mapsto> loc)) c = Some l" for l c
    using inv [of l c] inv [of l cloud] inv [of loc c] assms(2) new by auto
  moreover have "((used_cloud p)(case_key cloud \<mapsto> cloud)) (case_key c) = Some c"
    if "((cloud_to_local p)(cloud \<mapsto> loc)) c = Some l" for c l
    using that key [of c l] other [of c l] by (cases "c = cloud") simp_all
  ultimately show ?thesis using fin by (simp add: parent_ok_def record_pair_def)
qed

lemma table_ok_upd: "table_ok case_key t \<Longrightarrow> parent_ok case_key p \<Longrightarrow> table_ok case_key (t(parent \<mapsto> p))"
  by (simp add: table_ok_def)

lemma lookup_upd [simp]:
  "lookup_cloud (t(parent \<mapsto> p)) q l = (if q = parent then local_to_cloud p l else lookup_cloud t q l)"
  "lookup_local (t(parent \<mapsto> p)) q c = (if q = parent then cloud_to_local p c else lookup_local t q c)"
  by (simp_all add: lookup_cloud_def lookup_local_def)

lemma lookup_entry:
  "local_to_cloud (parent_entry t q) l = lookup_cloud t q l"
  "cloud_to_local (parent_entry t q) c = lookup_local t q c"
  by (simp_all add: parent_entry_def lookup_cloud_def lookup_local_def empty_parent_def split: option.split)

lemma record_pair_sel [simp]:
  "local_to_cloud (record_pair case_key cloud loc p) = (local_to_cloud p)(loc \<mapsto> cloud)"
  "cloud_to_local (record_pair case_key cloud loc p) = (cloud_to_local p)(cloud \<mapsto> loc)"
  by (simp_all add: record_pair_def)

lemma table_inverse:
  assumes "table_ok case_key t"
  shows "lookup_cloud t q l = Some c \<longleftrightarrow> lookup_local t q c = Some l"
  using parent_entry_ok [OF assms, of q] by (simp add: parent_ok_def lookup_entry)

lemma table_keys:
  assumes "table_ok case_key t" and "lookup_cloud t q l = Some c"
  shows "used_cloud (parent_entry t q) (case_key c) = Some c"
proof -
  have "cloud_to_local (parent_entry t q) c = Some l"
    using assms(2) table_inverse [OF assms(1)] by (simp add: lookup_entry)
  with parent_entry_ok [OF assms(1), of q] show ?thesis unfolding parent_ok_def by blast
qed

lemma table_distinct_keys:
  assumes "table_ok case_key t" and "lookup_cloud t q l = Some c" and "lookup_cloud t q l' = Some c'"
    and "l \<noteq> l'"
  shows "case_key c \<noteq> case_key c'"
proof
  assume "case_key c = case_key c'"
  then have "Some c = Some c'"
    using table_keys [OF assms(1,2)] table_keys [OF assms(1,3)] by (simp only:)
  then have "lookup_local t q c = Some l" "lookup_local t q c = Some l'"
    using assms(2,3) unfolding table_inverse [OF assms(1)] option.inject by (simp_all only:)
  with assms(4) show False by simp
qed

text \<open>What one call of \<open>assign_cloud_name\<close> does: the name is there, or a fresh safe one is recorded.\<close>

lemma assign_cloud_step:
  assumes "table_ok case_key t" and "numbers_survive case_key"
  obtains c where "lookup_cloud t parent loc = Some c"
      "assign_cloud_name case_key parent loc t = Some (c, t(parent \<mapsto> parent_entry t parent))"
  | c where "lookup_cloud t parent loc = None" "cloud_safe c"
      "used_cloud (parent_entry t parent) (case_key c) = None"
      "assign_cloud_name case_key parent loc t =
         Some (c, t(parent \<mapsto> record_pair case_key c loc (parent_entry t parent)))"
proof (cases "lookup_cloud t parent loc")
  case (Some c)
  then show ?thesis using that(1) by (simp add: assign_cloud_name_def lookup_entry)
next
  case None
  have "finite (dom (used_cloud (parent_entry t parent)))"
    using parent_entry_ok [OF assms(1)] by (simp add: parent_ok_def)
  from dedupe_returns [OF assms(2) this to_cloud_safe, of loc] None that(2) show ?thesis
    by (auto simp: assign_cloud_name_def lookup_entry)
qed

lemma assign_cloud_ok:
  assumes "table_ok case_key t" and "numbers_survive case_key"
  shows "\<exists>c t'. assign_cloud_name case_key parent loc t = Some (c, t') \<and> table_ok case_key t'
    \<and> lookup_cloud t' parent loc = Some c
    \<and> (\<forall>q l. (q, l) \<noteq> (parent, loc) \<longrightarrow> lookup_cloud t' q l = lookup_cloud t q l)
    \<and> (\<forall>d. lookup_cloud t parent loc = Some d \<longrightarrow> c = d)
    \<and> (lookup_cloud t parent loc = None \<longrightarrow> cloud_safe c)"
proof (rule assign_cloud_step [OF assms, of parent loc])
  fix c
  assume *: "lookup_cloud t parent loc = Some c"
    "assign_cloud_name case_key parent loc t = Some (c, t(parent \<mapsto> parent_entry t parent))"
  then show ?thesis
    using table_ok_upd [OF assms(1) parent_entry_ok [OF assms(1)]] by (auto simp: lookup_entry)
next
  fix c
  assume *: "lookup_cloud t parent loc = None" "cloud_safe c"
    "used_cloud (parent_entry t parent) (case_key c) = None"
    "assign_cloud_name case_key parent loc t =
       Some (c, t(parent \<mapsto> record_pair case_key c loc (parent_entry t parent)))"
  have "parent_ok case_key (record_pair case_key c loc (parent_entry t parent))"
    using * by (intro record_pair_ok parent_entry_ok assms(1)) (simp_all add: lookup_entry)
  with table_ok_upd [OF assms(1)] * show ?thesis by (auto simp: lookup_entry)
qed

lemma assign_local_ok:
  assumes "table_ok case_key t" and "collision_free case_key (AssignLocal parent cloud) t"
  shows "table_ok case_key (snd (assign_local_name case_key parent cloud t))
    \<and> (\<forall>q l c. lookup_cloud t q l = Some c \<longrightarrow>
        lookup_cloud (snd (assign_local_name case_key parent cloud t)) q l = Some c)"
proof (cases "lookup_local t parent cloud")
  case (Some l)
  then show ?thesis using table_ok_upd [OF assms(1) parent_entry_ok [OF assms(1)]]
    by (simp add: assign_local_name_def lookup_entry Let_def)
next
  case None
  with assms(2) have free: "local_to_cloud (parent_entry t parent) (to_local cloud) = None"
    "used_cloud (parent_entry t parent) (case_key cloud) = None"
    by (simp_all add: lookup_entry Let_def)
  have "parent_ok case_key (record_pair case_key cloud (to_local cloud) (parent_entry t parent))"
    using free by (intro record_pair_ok parent_entry_ok assms(1)) simp_all
  with table_ok_upd [OF assms(1)] None free show ?thesis
    by (auto simp: assign_local_name_def lookup_entry Let_def)
qed

lemma name_exec_ok:
  assumes "table_ok case_key t" and "numbers_survive case_key" and "collision_free case_key c t"
  shows "\<exists>t'. name_exec case_key c t = Some t' \<and> table_ok case_key t'
    \<and> (\<forall>q l d. lookup_cloud t q l = Some d \<longrightarrow> lookup_cloud t' q l = Some d)"
proof (cases c)
  case (AssignCloud parent loc)
  from assign_cloud_ok [OF assms(1,2), of parent loc] obtain d t' where
    "assign_cloud_name case_key parent loc t = Some (d, t')" "table_ok case_key t'"
    "lookup_cloud t' parent loc = Some d"
    "\<forall>q l. (q, l) \<noteq> (parent, loc) \<longrightarrow> lookup_cloud t' q l = lookup_cloud t q l"
    "\<forall>e. lookup_cloud t parent loc = Some e \<longrightarrow> d = e" by blast
  then show ?thesis using AssignCloud by (intro exI [of _ t']) (simp, metis)
next
  case (AssignLocal parent cloud)
  then show ?thesis using assign_local_ok [of case_key t parent cloud] assms by (simp only: name_exec.simps) blast
qed

lemma name_run_ok:
  assumes "table_ok case_key t" and "numbers_survive case_key" and "collision_free_run case_key cs t"
  shows "\<exists>t'. name_run case_key cs t = Some t' \<and> table_ok case_key t'
    \<and> (\<forall>q l d. lookup_cloud t q l = Some d \<longrightarrow> lookup_cloud t' q l = Some d)"
  using assms
proof (induction cs arbitrary: t)
  case (Cons c cs)
  then have "collision_free case_key c t" by simp
  from name_exec_ok [OF Cons.prems(1,2) this] obtain t1 where t1: "name_exec case_key c t = Some t1"
    "table_ok case_key t1" "\<forall>q l d. lookup_cloud t q l = Some d \<longrightarrow> lookup_cloud t1 q l = Some d" by blast
  with Cons.prems(3) have "collision_free_run case_key cs t1" by simp
  from Cons.IH [OF t1(2) Cons.prems(2) this] t1 show ?case by auto
qed simp

lemma empty_table_ok: "table_ok case_key Map.empty"
  by (simp add: table_ok_def)

section \<open>Properties\<close>


text \<open>C20: The table stays one-to-one. Whatever names are assigned, in both directions and in any number of
  folders, every assignment returns; as long as no cloud name decodes to a local name or has a
  comparison key that is already taken, lookups in the two directions are inverse to each other, no
  two local names of a folder have cloud names that OneDrive would treat as equal, and a pair once
  assigned never changes.\<close>

theorem names_stay_one_to_one:
  assumes "numbers_survive case_key" and "collision_free_run case_key (cs @ cs') Map.empty"
  shows "\<exists>t t'. name_run case_key cs Map.empty = Some t \<and> name_run case_key (cs @ cs') Map.empty = Some t'
    \<and> (\<forall>q l c. lookup_cloud t' q l = Some c \<longleftrightarrow> lookup_local t' q c = Some l)
    \<and> (\<forall>q l c l' c'. lookup_cloud t' q l = Some c \<longrightarrow> lookup_cloud t' q l' = Some c' \<longrightarrow> l \<noteq> l'
         \<longrightarrow> case_key c \<noteq> case_key c')
    \<and> (\<forall>q l c. lookup_cloud t q l = Some c \<longrightarrow> lookup_cloud t' q l = Some c)"
proof -
  have split: "name_run case_key (cs @ cs') t0 = Option.bind (name_run case_key cs t0) (name_run case_key cs')"
    "collision_free_run case_key (cs @ cs') t0 \<Longrightarrow> collision_free_run case_key cs t0
      \<and> (\<forall>t. name_run case_key cs t0 = Some t \<longrightarrow> collision_free_run case_key cs' t)" for t0
    by (induction cs arbitrary: t0) (auto split: option.splits bind_splits)
  from split(2) [OF assms(2)] name_run_ok [OF empty_table_ok assms(1)] obtain t where
    t: "name_run case_key cs Map.empty = Some t" "table_ok case_key t" "collision_free_run case_key cs' t" by blast
  from name_run_ok [OF t(2) assms(1) t(3)] obtain t' where t': "name_run case_key cs' t = Some t'"
    "table_ok case_key t'" "\<forall>q l d. lookup_cloud t q l = Some d \<longrightarrow> lookup_cloud t' q l = Some d" by blast
  have "name_run case_key (cs @ cs') Map.empty = Some t'" using split(1) t(1) t'(1) by simp
  with t(1) t' table_inverse [OF t'(2)] table_distinct_keys [OF t'(2)] show ?thesis by blast
qed

text \<open>A comparison key for plain ASCII names.\<close>

definition ascii_fold :: "uname \<Rightarrow> uname" where
  "ascii_fold name = map (\<lambda>c. if 0x41 \<le> c \<and> c \<le> 0x5A then c + 0x20 else c) name"

lemma ascii_fold_numbers: "numbers_survive ascii_fold"
  unfolding numbers_survive_def
proof (intro allI impI)
  fix stem ext m n
  assume "ascii_fold (suffixed stem ext m) = ascii_fold (suffixed stem ext n)"
  then have "ascii_fold (codes (show_nat m)) = ascii_fold (codes (show_nat n))"
    by (simp add: ascii_fold_def suffixed_def)
  moreover have "ascii_fold (codes (show_nat k)) = codes (show_nat k)" for k
    unfolding ascii_fold_def map_id_iff using code_digits [of _ k] by fastforce
  ultimately have "codes (show_nat m) = codes (show_nat n)" by simp
  then show "m = n" by (simp add: codes_def inj_map_eq_map inj_of_char)
qed

theorem names_stay_one_to_one_witness:
  "\<exists>t. name_run ascii_fold [AssignCloud [] (codes ''Foo.txt''), AssignCloud [] (codes ''foo.txt'')] Map.empty = Some t
     \<and> lookup_cloud t [] (codes ''foo.txt'') = Some (codes ''foo (2).txt'')
     \<and> lookup_local t [] (codes ''foo (2).txt'') = Some (codes ''foo.txt'')"
proof -
  let ?cs = "[AssignCloud [] (codes ''Foo.txt'')]" and ?cs' = "[AssignCloud [] (codes ''foo.txt'')]"
  have "collision_free_run ascii_fold (?cs @ ?cs') Map.empty"
    by (simp split: option.split)
  from names_stay_one_to_one [OF ascii_fold_numbers this] obtain t where
    t: "name_run ascii_fold (?cs @ ?cs') Map.empty = Some t"
    "\<forall>q l c. lookup_cloud t q l = Some c \<longleftrightarrow> lookup_local t q c = Some l" by blast
  have "map_option (\<lambda>t. lookup_cloud t [] (codes ''foo.txt'')) (name_run ascii_fold (?cs @ ?cs') Map.empty)
      = Some (Some (codes ''foo (2).txt''))"
    by code_simp
  with t show ?thesis by simp
qed

text \<open>A new local file gets a usable cloud name. In a table that is one-to-one, assigning a cloud name
  always returns, gives the known name if there is one and otherwise a name that OneDrive accepts and
  that differs, also up to case, from the name of every other file of the folder; no other
  assignment changes and the table stays one-to-one.\<close>

theorem assigned_cloud_name_is_free:
  assumes "table_ok case_key t" and "numbers_survive case_key"
  shows "\<exists>c t'. assign_cloud_name case_key parent loc t = Some (c, t') \<and> table_ok case_key t'
    \<and> lookup_cloud t' parent loc = Some c \<and> lookup_local t' parent c = Some loc
    \<and> c = (case lookup_cloud t parent loc of Some d \<Rightarrow> d | None \<Rightarrow> c)
    \<and> (lookup_cloud t parent loc = None \<longrightarrow> cloud_safe c)
    \<and> (\<forall>l d. l \<noteq> loc \<longrightarrow> lookup_cloud t parent l = Some d \<longrightarrow> case_key d \<noteq> case_key c)
    \<and> (\<forall>q l. (q, l) \<noteq> (parent, loc) \<longrightarrow> lookup_cloud t' q l = lookup_cloud t q l)"
proof -
  from assign_cloud_ok [OF assms, of parent loc] obtain c t' where
    *: "assign_cloud_name case_key parent loc t = Some (c, t')" "table_ok case_key t'"
    "lookup_cloud t' parent loc = Some c"
    "\<forall>q l. (q, l) \<noteq> (parent, loc) \<longrightarrow> lookup_cloud t' q l = lookup_cloud t q l"
    "\<forall>d. lookup_cloud t parent loc = Some d \<longrightarrow> c = d"
    "lookup_cloud t parent loc = None \<longrightarrow> cloud_safe c" by (elim exE conjE) (rule that)
  have "lookup_local t' parent c = Some loc" using *(2,3) table_inverse by blast
  moreover have "case_key d \<noteq> case_key c" if "l \<noteq> loc" "lookup_cloud t parent l = Some d" for l d
    using table_distinct_keys [OF *(2), of parent l d loc c] * that by simp
  moreover have "c = (case lookup_cloud t parent loc of Some d \<Rightarrow> d | None \<Rightarrow> c)"
    using *(5) by (cases "lookup_cloud t parent loc") auto
  ultimately show ?thesis using * by (intro exI [of _ c] exI [of _ t'] conjI) blast+
qed

theorem assigned_cloud_name_is_free_witness:
  "\<exists>c t'. assign_cloud_name ascii_fold [] (codes ''a?'') Map.empty = Some (c, t') \<and> cloud_safe c"
proof -
  have "lookup_cloud Map.empty [] (codes ''a?'') = None" by (simp add: lookup_cloud_def)
  with assigned_cloud_name_is_free [OF empty_table_ok ascii_fold_numbers, of "[]" "codes ''a?''"]
  show ?thesis by blast
qed

text \<open>Names from the cloud are not de-duplicated. The two cloud names \<^verbatim>\<open>a.b\<close> and \<^verbatim>\<open>a\<close> fullwidth-stop \<^verbatim>\<open>b\<close>
  are different and do not differ by case, yet both are assigned the local name \<^verbatim>\<open>a.b\<close>; after the
  second assignment the table no longer knows the first under that name.\<close>

theorem decoded_names_collide:
  "let (l1, t1) = assign_local_name ascii_fold [] (codes ''a.b'') Map.empty;
       (l2, t2) = assign_local_name ascii_fold [] [0x61, TRAIL_DOT, 0x62] t1
   in l1 = codes ''a.b'' \<and> l2 = codes ''a.b''
      \<and> lookup_local t2 [] (codes ''a.b'') = Some l1 \<and> lookup_local t2 [] [0x61, TRAIL_DOT, 0x62] = Some l1
      \<and> lookup_cloud t2 [] l1 = Some [0x61, TRAIL_DOT, 0x62]"
  by code_simp

end
