(* ===== verification/Graph_Transport.thy ===== *)
theory Graph_Transport
  imports Json
begin

text \<open>
  The transport core of the Graph client: classification of statuses (\<^verbatim>\<open>graph/src/error.rs\<close>), the
  adaptive pacer (\<^verbatim>\<open>graph/src/throttle.rs\<close>), the delta walk (\<^verbatim>\<open>graph/src/client.rs\<close>) and the page walk
  of the connectors (\<^verbatim>\<open>connectors/src/common.rs\<close>). A duration is its number of nanoseconds. The
  transport is a parameter: \<open>fetch url\<close> is a request on a world that the answer may change, \<open>wait\<close> is
  the backoff. The walks need not end, so they are partial functions: \<open>None\<close> is a walk that never
  returns.
\<close>

section \<open>Statuses\<close>

datatype GraphAction =
    Ok
  | Retry "nat option"
  | RefreshAuth
  | Resync
  | PreconditionFailed
  | NotFound
  | RangeNotSatisfiable
  | InsufficientStorage
  | Fatal

definition is_retryable :: "GraphAction \<Rightarrow> bool" where
  "is_retryable a = (case a of Retry d \<Rightarrow> True | _ \<Rightarrow> False)"

definition classify :: "nat \<Rightarrow> nat option \<Rightarrow> GraphAction" where
  "classify status retry_after =
     (if 200 \<le> status \<and> status \<le> 299 then Ok
      else if status = 401 then RefreshAuth
      else if status = 404 then NotFound
      else if status = 408 then Retry retry_after
      else if status = 410 then Resync
      else if status = 412 then PreconditionFailed
      else if status = 416 then RangeNotSatisfiable
      else if status = 425 \<or> status = 429 \<or> 500 \<le> status \<and> status \<le> 506 \<or> 508 \<le> status \<and> status \<le> 599
      then Retry retry_after
      else if status = 507 then InsufficientStorage
      else Fatal)"

section \<open>The pacer\<close>

datatype Outcome = Success | Throttled "nat option"

record Pacer =
  current :: nat
  base_backoff :: nat
  max_backoff :: nat
  retry_after_cap :: nat

definition Pacer_new :: Pacer where
  "Pacer_new = \<lparr>current = 0, base_backoff = 250000000, max_backoff = 16000000000,
     retry_after_cap = 300000000000\<rparr>"

definition pacer_update :: "Outcome \<Rightarrow> Pacer \<Rightarrow> nat \<times> Pacer" where
  "pacer_update outcome p =
     (let c = (case outcome of
          Success \<Rightarrow> if current p div 2 < base_backoff p then 0 else current p div 2
        | Throttled (Some d) \<Rightarrow> min d (retry_after_cap p)
        | Throttled None \<Rightarrow> if current p = 0 then base_backoff p else min (current p * 2) (max_backoff p))
      in (c, p\<lparr>current := c\<rparr>))"

section \<open>The delta walk\<close>

record Response =
  status :: nat
  retry_after :: "nat option"
  body :: "json option"

record DeltaOutcome =
  items :: "json list"
  cursor :: string
  resynced :: bool

datatype DeltaError = MissingBody | NoCursor | TooManyRetries | AuthExpired | FatalStatus nat

text \<open>The items of a page, and what follows it.\<close>

definition page_values :: "json \<Rightarrow> json list" where
  "page_values b = (case get_array ''value'' b of Some xs \<Rightarrow> xs | None \<Rightarrow> [])"

partial_function (option) delta_loop ::
  "(string \<Rightarrow> 'w \<Rightarrow> Response \<times> 'w) \<Rightarrow> (nat \<Rightarrow> 'w \<Rightarrow> 'w) \<Rightarrow> string \<Rightarrow> nat
     \<Rightarrow> string \<Rightarrow> json list \<Rightarrow> bool \<Rightarrow> nat \<Rightarrow> Pacer \<Rightarrow> 'w
     \<Rightarrow> ((DeltaError + DeltaOutcome) \<times> 'w) option" where
  "delta_loop fetch wait base_url max_retries url its res retries pacer w =
     (case fetch url w of (resp, w1) \<Rightarrow>
        (case classify (status resp) (retry_after resp) of
           Ok \<Rightarrow>
             (case body resp of
                None \<Rightarrow> Some (Inl MissingBody, w1)
              | Some b \<Rightarrow>
                  let its' = its @ page_values b;
                      pacer' = snd (pacer_update Success pacer)
                  in (case get_str ''@odata.nextLink'' b of
                        Some next_url \<Rightarrow>
                          delta_loop fetch wait base_url max_retries next_url its' res 0 pacer' w1
                      | None \<Rightarrow>
                          (case get_str ''@odata.deltaLink'' b of
                             Some d \<Rightarrow> Some (Inr \<lparr>items = its', cursor = d, resynced = res\<rparr>, w1)
                           | None \<Rightarrow> Some (Inl NoCursor, w1))))
         | Retry after \<Rightarrow>
             if retries + 1 > max_retries then Some (Inl TooManyRetries, w1)
             else (case pacer_update (Throttled after) pacer of (delay, pacer') \<Rightarrow>
                     delta_loop fetch wait base_url max_retries url its res (retries + 1) pacer'
                       (wait delay w1))
         | Resync \<Rightarrow> delta_loop fetch wait base_url max_retries base_url [] True 0 pacer w1
         | RefreshAuth \<Rightarrow> Some (Inl AuthExpired, w1)
         | _ \<Rightarrow> Some (Inl (FatalStatus (status resp)), w1)))"

definition run_delta ::
  "(string \<Rightarrow> 'w \<Rightarrow> Response \<times> 'w) \<Rightarrow> (nat \<Rightarrow> 'w \<Rightarrow> 'w) \<Rightarrow> string \<Rightarrow> string option \<Rightarrow> nat \<Rightarrow> 'w
     \<Rightarrow> ((DeltaError + DeltaOutcome) \<times> 'w) option" where
  "run_delta fetch wait base_url start_cursor max_retries w =
     delta_loop fetch wait base_url max_retries
       (case start_cursor of Some c \<Rightarrow> c | None \<Rightarrow> base_url) [] False 0 Pacer_new w"

section \<open>The page walk\<close>

datatype PageError = HttpStatus nat | MalformedPage string

partial_function (option) page_loop ::
  "(string \<Rightarrow> 'w \<Rightarrow> Response \<times> 'w) \<Rightarrow> string \<Rightarrow> json list \<Rightarrow> 'w
     \<Rightarrow> ((PageError + json list) \<times> 'w) option" where
  "page_loop fetch url out w =
     (case fetch url w of (resp, w1) \<Rightarrow>
        if \<not> (200 \<le> status resp \<and> status resp < 300) then Some (Inl (HttpStatus (status resp)), w1)
        else (case body resp of
                None \<Rightarrow> Some (Inl (MalformedPage ''empty list page''), w1)
              | Some b \<Rightarrow>
                  (case get_str ''@odata.nextLink'' b of
                     Some next_url \<Rightarrow> page_loop fetch next_url (out @ page_values b) w1
                   | None \<Rightarrow> Some (Inr (out @ page_values b), w1))))"

definition fetch_pages ::
  "(string \<Rightarrow> 'w \<Rightarrow> Response \<times> 'w) \<Rightarrow> string \<Rightarrow> 'w \<Rightarrow> ((PageError + json list) \<times> 'w) option" where
  "fetch_pages fetch start_url w = page_loop fetch start_url [] w"

section \<open>A server with faults\<close>

text \<open>A reference server: every URL is a page with its values and either the next page or the new delta
  cursor. Before it serves, it may throttle a request or declare the cursor gone; the world is the
  list of what happens to the coming requests, and when the list is used up, requests are served.\<close>

datatype fault = Serve | Throttle nat "nat option" | Gone

type_synonym server = "string \<Rightarrow> json list \<times> (string + string)"

definition page :: "server \<Rightarrow> string \<Rightarrow> Response" where
  "page srv url = (case srv url of (vs, link) \<Rightarrow>
     \<lparr>status = 200, retry_after = None,
      body = Some (JObj [(''value'', JArr vs),
        (case link of Inl u \<Rightarrow> (''@odata.nextLink'', JStr u) | Inr d \<Rightarrow> (''@odata.deltaLink'', JStr d))])\<rparr>)"

fun faulty_fetch :: "server \<Rightarrow> string \<Rightarrow> fault list \<Rightarrow> Response \<times> fault list" where
  "faulty_fetch srv url [] = (page srv url, [])"
| "faulty_fetch srv url (Serve # w) = (page srv url, w)"
| "faulty_fetch srv url (Throttle st after # w) = (\<lparr>status = st, retry_after = after, body = None\<rparr>, w)"
| "faulty_fetch srv url (Gone # w) = (\<lparr>status = 410, retry_after = None, body = None\<rparr>, w)"

definition no_wait :: "nat \<Rightarrow> fault list \<Rightarrow> fault list" where
  "no_wait d w = w"

text \<open>The pages from a URL on: their values in order, and the cursor on the last page.\<close>

inductive chain :: "server \<Rightarrow> string \<Rightarrow> json list \<Rightarrow> string \<Rightarrow> bool" for srv where
  last_page: "srv url = (vs, Inr d) \<Longrightarrow> chain srv url vs d"
| more_pages: "srv url = (vs, Inl u) \<Longrightarrow> chain srv u rest d \<Longrightarrow> chain srv url (vs @ rest) d"

inductive_cases chainE: "chain srv url vs d"

text \<open>Faults that the walk can ride out: no more than \<open>n\<close> retryable answers in a row (\<open>k\<close> are left).\<close>

fun rideable :: "nat \<Rightarrow> nat \<Rightarrow> fault list \<Rightarrow> bool" where
  "rideable n k [] = True"
| "rideable n k (Serve # w) = rideable n n w"
| "rideable n k (Gone # w) = rideable n n w"
| "rideable n k (Throttle st after # w) = (0 < k \<and> is_retryable (classify st after) \<and> rideable n (k - 1) w)"

section \<open>Lemmas on the pacer\<close>

definition pacer_ok :: "Pacer \<Rightarrow> bool" where
  "pacer_ok p \<longleftrightarrow> base_backoff p = base_backoff Pacer_new \<and> max_backoff p = max_backoff Pacer_new
     \<and> retry_after_cap p = retry_after_cap Pacer_new \<and> current p \<le> retry_after_cap p"

fun pace :: "Outcome list \<Rightarrow> Pacer \<Rightarrow> Pacer" where
  "pace [] p = p"
| "pace (out # outs) p = pace outs (snd (pacer_update out p))"

lemma pace_append: "pace (xs @ ys) p = pace ys (pace xs p)"
  by (induction xs arbitrary: p) simp_all

lemma pacer_update_ok: "pacer_ok p \<Longrightarrow> pacer_ok (snd (pacer_update out p))"
  by (auto simp: pacer_ok_def pacer_update_def Pacer_new_def Let_def split: Outcome.split option.split)

lemma pace_ok: "pacer_ok p \<Longrightarrow> pacer_ok (pace outs p)"
  by (induction outs arbitrary: p) (simp_all add: pacer_update_ok)

lemma Pacer_new_ok: "pacer_ok Pacer_new"
  by (simp add: pacer_ok_def Pacer_new_def)

lemma pace_successes:
  assumes "pacer_ok p" and "current p < 2 ^ n * base_backoff Pacer_new"
  shows "current (pace (replicate n Success) p) = 0 \<or> n = 0"
  using assms
proof (induction n arbitrary: p)
  case (Suc n)
  let ?p = "snd (pacer_update Success p)"
  have ok: "pacer_ok ?p" using Suc.prems(1) by (rule pacer_update_ok)
  have c: "current ?p = 0 \<or> current ?p = current p div 2 \<and> base_backoff Pacer_new \<le> current p div 2"
    using Suc.prems(1) by (auto simp: pacer_update_def pacer_ok_def Let_def)
  have "current p div 2 < 2 ^ n * base_backoff Pacer_new"
    using Suc.prems(2) by (simp add: less_mult_imp_div_less mult.assoc)
  moreover have "0 < 2 ^ n * base_backoff Pacer_new" by (simp add: Pacer_new_def)
  ultimately have lt: "current ?p < 2 ^ n * base_backoff Pacer_new" using c by auto
  from Suc.IH [OF ok this] show ?case
  proof
    assume "n = 0"
    then show ?thesis using c lt by auto
  qed simp
qed simp

section \<open>Lemmas on the walk\<close>

lemma classify_simps [simp]: "classify 200 a = Ok" "classify 410 a = Resync"
  by (simp_all add: classify_def)

lemma page_simps:
  assumes "srv url = (vs, link)"
  shows "status (page srv url) = 200" "body (page srv url) \<noteq> None"
    "page_values (the (body (page srv url))) = vs"
    "get_str ''@odata.nextLink'' (the (body (page srv url))) = (case link of Inl u \<Rightarrow> Some u | Inr d \<Rightarrow> None)"
    "get_str ''@odata.deltaLink'' (the (body (page srv url))) = (case link of Inl u \<Rightarrow> None | Inr d \<Rightarrow> Some d)"
  using assms by (auto simp: page_def page_values_def json_gets split: sum.split)

text \<open>One turn of the loop on a served page.\<close>

lemma delta_served:
  assumes "srv url = (vs, link)" and "faulty_fetch srv url w = (page srv url, w1)"
  shows "delta_loop (faulty_fetch srv) wt base n url its res k p w =
    (case link of
       Inl u \<Rightarrow> delta_loop (faulty_fetch srv) wt base n u (its @ vs) res 0 (snd (pacer_update Success p)) w1
     | Inr d \<Rightarrow> Some (Inr \<lparr>items = its @ vs, cursor = d, resynced = res\<rparr>, w1))"
proof -
  obtain b where b: "body (page srv url) = Some b" using page_simps(2) [of srv url vs link, OF assms(1)] by auto
  show ?thesis
    using page_simps [of srv url vs link, OF assms(1)] b
    by (subst delta_loop.simps) (simp add: assms(2) Let_def split: sum.split)
qed

lemma delta_undisturbed:
  assumes "chain srv url rest d"
  shows "delta_loop (faulty_fetch srv) wt base n url its res k p []
    = Some (Inr \<lparr>items = its @ rest, cursor = d, resynced = res\<rparr>, [])"
  using assms
proof (induction arbitrary: its k p rule: chain.induct)
  case (last_page url vs d)
  then show ?case by (subst delta_served) auto
next
  case (more_pages url vs u rest d)
  then show ?case by (subst delta_served) auto
qed

lemma delta_throttled:
  assumes "is_retryable (classify st after)" and "k < n"
  shows "delta_loop (faulty_fetch srv) no_wait base n url its res k p (Throttle st after # w) =
    delta_loop (faulty_fetch srv) no_wait base n url its res (k + 1) (snd (pacer_update (Throttled after) p)) w"
proof -
  have "classify st after = Retry after"
    using assms(1) by (auto simp: is_retryable_def classify_def split: if_splits)
  with assms(2) show ?thesis
    by (subst delta_loop.simps) (simp add: no_wait_def split: prod.split)
qed

lemma delta_gone:
  "delta_loop (faulty_fetch srv) wt base n url its res k p (Gone # w) =
   delta_loop (faulty_fetch srv) wt base n base [] True 0 p w"
  by (subst delta_loop.simps) simp

lemma delta_rides_out:
  assumes "chain srv base all_items db" and "chain srv url rest d"
    and "rideable n (n - k) w" and "k \<le> n"
  shows "\<exists>w'. delta_loop (faulty_fetch srv) no_wait base n url its res k p w
      = Some (Inr \<lparr>items = its @ rest, cursor = d, resynced = res\<rparr>, w')
    \<or> delta_loop (faulty_fetch srv) no_wait base n url its res k p w
      = Some (Inr \<lparr>items = all_items, cursor = db, resynced = True\<rparr>, w')"
  using assms(2-4)
proof (induction w arbitrary: url rest d its res k p)
  case Nil
  then show ?case by (intro exI [of _ "[]"] disjI1) (rule delta_undisturbed)
next
  case (Cons f w)
  show ?case
  proof (cases f)
    case Serve
    from Cons.prems(1) show ?thesis
    proof (cases rule: chain.cases)
      case last_page
      then show ?thesis using Serve by (subst (1 2) delta_served) auto
    next
      case (more_pages vs u rest')
      have "rideable n (n - 0) w" using Cons.prems(2) Serve by simp
      from Cons.IH [OF more_pages(3) this le0, of "its @ vs" res "snd (pacer_update Success p)"]
      show ?thesis using Serve more_pages(1,2) by (subst (1 2) delta_served) auto
    qed
  next
    case (Throttle st after)
    with Cons.prems have "k < n" "is_retryable (classify st after)" "rideable n (n - (k + 1)) w"
      by auto
    with Cons.IH [OF Cons.prems(1) this(3)] Throttle show ?thesis by (simp add: delta_throttled)
  next
    case Gone
    then have "rideable n (n - 0) w" using Cons.prems(2) by simp
    from Cons.IH [OF assms(1) this le0, of "[]" True p] Gone show ?thesis by (auto simp: delta_gone)
  qed
qed

lemma page_walk_complete:
  assumes "chain srv url rest d"
  shows "page_loop (faulty_fetch srv) url out [] = Some (Inr (out @ rest), [])"
  using assms
proof (induction arbitrary: out rule: chain.induct)
  case (last_page url vs d)
  then show ?case
    by (subst page_loop.simps) (simp add: page_def page_values_def json_gets)
next
  case (more_pages url vs u rest d)
  then show ?case
    by (subst page_loop.simps) (simp add: page_def page_values_def json_gets)
qed

lemma delta_loop_always_gone:
  assumes "\<And>url w. status (fst (fetch url w)) = 410"
  shows "delta_loop fetch wt base n url its res k p w = None"
proof (cases "delta_loop fetch wt base n url its res k p w")
  case (Some r)
  have "(\<forall>url w. status (fst (fetch url w)) = 410) \<longrightarrow> False"
  proof (rule delta_loop.raw_induct [where P = "\<lambda>fetch wt base n url its res k p w r.
        (\<forall>url w. status (fst (fetch url w)) = 410) \<longrightarrow> False", OF _ Some], rule impI, goal_cases)
    case (1 loop fetch wt base n url its res k p w r)
    obtain resp w1 where f: "fetch url w = (resp, w1)" by fastforce
    with 1(3) have "status resp = 410" by (metis fst_conv)
    with 1(2) f have "loop fetch wt base n base [] True 0 p w1 = Some r" by simp
    with 1(1,3) show ?case by blast
  qed
  with assms show ?thesis by blast
qed simp

section \<open>Properties\<close>

text \<open>C33: A delta walk is complete and never mixed. Against a server that throttles or drops the cursor at
  any point, with at most \<open>max_retries\<close> retryable answers in a row, the walk returns; its items are
  either all pages from the start cursor or, after a resync, all pages from the base URL, in order and
  once each, together with the cursor of that very chain. Items collected before a resync never
  survive it.\<close>

theorem delta_walk_complete:
  assumes "chain srv base_url all_items base_cursor"
    and "chain srv (case start_cursor of Some c \<Rightarrow> c | None \<Rightarrow> base_url) new_items new_cursor"
    and "rideable max_retries max_retries faults"
  shows "\<exists>rest. run_delta (faulty_fetch srv) no_wait base_url start_cursor max_retries faults
      = Some (Inr \<lparr>items = new_items, cursor = new_cursor, resynced = False\<rparr>, rest)
    \<or> run_delta (faulty_fetch srv) no_wait base_url start_cursor max_retries faults
      = Some (Inr \<lparr>items = all_items, cursor = base_cursor, resynced = True\<rparr>, rest)"
  using delta_rides_out [OF assms(1,2), of max_retries 0 faults "[]" False Pacer_new] assms(3)
  by (simp add: run_delta_def)

text \<open>Two pages, throttled twice, then the cursor is gone after the first page.\<close>

definition demo_server :: server where
  "demo_server url = (if url = ''base'' then ([JNum 1], Inl ''p2'') else ([JNum 2], Inr ''d''))"

definition demo_faults :: "fault list" where
  "demo_faults = [Throttle 429 (Some 1000), Throttle 503 None, Serve, Gone]"

theorem delta_walk_complete_witness:
  "\<exists>rest. run_delta (faulty_fetch demo_server) no_wait ''base'' None 3 demo_faults
     = Some (Inr \<lparr>items = [JNum 1, JNum 2], cursor = ''d'', resynced = True\<rparr>, rest)"
proof -
  have c: "chain demo_server ''base'' ([JNum 1] @ [JNum 2]) ''d''"
    by (rule more_pages [where u = "''p2''"], simp add: demo_server_def)
      (rule last_page, simp add: demo_server_def)
  have "rideable 3 3 demo_faults" by code_simp
  moreover have "map_option (\<lambda>(r, w). map_sum id resynced r)
      (run_delta (faulty_fetch demo_server) no_wait ''base'' None 3 demo_faults) = Some (Inr True)"
    by (simp add: run_delta_def demo_faults_def delta_loop.simps classify_def pacer_update_def
        demo_server_def page_def json_gets no_wait_def Pacer_new_def Let_def)
  ultimately show ?thesis
    using delta_walk_complete [OF c, of None "[JNum 1] @ [JNum 2]" "''d''" 3 demo_faults] c by auto
qed

text \<open>A walk need not end. If every request is answered with 410, the walk restarts from the base URL
  forever, without a delay and without using up its retry budget: it never returns, whatever
  \<open>max_retries\<close> is.\<close>

theorem persistent_gone_never_returns:
  "run_delta (\<lambda>url w. (\<lparr>status = 410, retry_after = after, body = b\<rparr>, w)) wt base_url start_cursor max_retries w
    = None"
  unfolding run_delta_def by (rule delta_loop_always_gone) simp

text \<open>C38: Pacing is bounded and recovers. Whatever outcomes are fed back, the delay is at most 300 seconds,
  so that doubling it never overflows, and at most 16 seconds when the server never names a delay;
  eleven successful requests bring any pacer back to full speed.\<close>

theorem pacing_bounded_and_recovers:
  "current (pace outs Pacer_new) \<le> 300 * 10 ^ 9
   \<and> (list_all (\<lambda>out. out = Success \<or> out = Throttled None) outs
        \<longrightarrow> current (pace outs Pacer_new) \<le> 16 * 10 ^ 9)
   \<and> current (pace (outs @ replicate 11 Success) Pacer_new) = 0"
proof -
  let ?p = "pace outs Pacer_new"
  have ok: "pacer_ok ?p" by (rule pace_ok) (rule Pacer_new_ok)
  then have cap: "current ?p \<le> 300 * 10 ^ 9" by (simp add: pacer_ok_def Pacer_new_def)
  then have "current ?p < 2 ^ 11 * base_backoff Pacer_new" by (simp add: Pacer_new_def)
  from pace_successes [OF ok this] have "current (pace (outs @ replicate 11 Success) Pacer_new) = 0"
    by (simp add: pace_append)
  moreover have "current (pace outs p) \<le> 16 * 10 ^ 9"
    if "list_all (\<lambda>out. out = Success \<or> out = Throttled None) outs" "pacer_ok p" "current p \<le> 16 * 10 ^ 9" for p
    using that
  proof (induction outs arbitrary: p)
    case (Cons out outs)
    have "current (snd (pacer_update out p)) \<le> 16 * 10 ^ 9"
      using Cons.prems by (auto simp: pacer_update_def pacer_ok_def Pacer_new_def Let_def)
    with Cons show ?case by (simp add: pacer_update_ok)
  qed simp
  ultimately show ?thesis using cap Pacer_new_ok by (simp add: Pacer_new_def)
qed

theorem pacing_bounded_and_recovers_witness:
  "current (pace [Throttled None, Throttled None, Success] Pacer_new) \<le> 16 * 10 ^ 9"
  using pacing_bounded_and_recovers [of "[Throttled None, Throttled None, Success]"] by simp

end
