(* ===== verification/Change_Source.thy ===== *)
theory Change_Source
  imports BTree_Map
begin

text \<open>
  Change detection (\<^verbatim>\<open>change-source/src\<close>): the authoritative diff of two snapshots (\<^verbatim>\<open>reconcile.rs\<close>), the
  coalescer of raw file system events (\<^verbatim>\<open>watcher.rs\<close>), the mapping of \<^verbatim>\<open>notify\<close> events and the polls of
  the two backends (\<^verbatim>\<open>watch.rs\<close>, \<^verbatim>\<open>source.rs\<close>), the choice of a backend, and the daemon's scheduler that a
  change wakes (\<^verbatim>\<open>daemon/src/main.rs\<close>). A poll is a function of the raw events that arrive in its window;
  paths are valid Unicode. The specification is a tree of files with fingerprints and the operations a
  user performs on it.
\<close>

section \<open>The reconciler\<close>

record Entry =
  ent_key :: string
  fingerprint :: string

datatype ReconcileChange = Created string | Modified string | Deleted string

primrec change_key :: "ReconcileChange \<Rightarrow> string" where
  "change_key (ReconcileChange.Created k) = k"
| "change_key (ReconcileChange.Modified k) = k"
| "change_key (ReconcileChange.Deleted k) = k"

definition snapshot :: "Entry list \<Rightarrow> (string, string) btree" where
  "snapshot es = bt_collect (map (\<lambda>e. (ent_key e, fingerprint e)) es)"

definition current_change :: "(string, string) btree \<Rightarrow> string \<times> string \<Rightarrow> ReconcileChange list" where
  "current_change known e =
     (case map_of known (fst e) of
        None \<Rightarrow> [ReconcileChange.Created (fst e)]
      | Some known_fp \<Rightarrow> if known_fp \<noteq> snd e then [ReconcileChange.Modified (fst e)] else [])"

definition reconcile :: "Entry list \<Rightarrow> Entry list \<Rightarrow> ReconcileChange list" where
  "reconcile known_entries current_entries =
     (let known = snapshot known_entries;
          current = snapshot current_entries;
          out = concat (map (current_change known) current)
            @ map ReconcileChange.Deleted (filter (\<lambda>k. map_of current k = None) (map fst known))
      in sort_key change_key out)"

section \<open>The coalescer\<close>

datatype RawEvent =
    Created string
  | Modified string
  | Deleted string
  | MovedFrom u32 string
  | MovedTo u32 string
  | QueueOverflow

datatype FsChange = Created string | Modified string | Deleted string | Renamed string string

primrec fs_sort_key :: "FsChange \<Rightarrow> string" where
  "fs_sort_key (FsChange.Created p) = p"
| "fs_sort_key (FsChange.Modified p) = p"
| "fs_sort_key (FsChange.Deleted p) = p"
| "fs_sort_key (Renamed a b) = a"

datatype Effect = Created | Modified | Deleted

record MovePair =
  mv_from :: "string option"
  mv_to :: "string option"

record Coalescer =
  effects :: "(string, Effect) btree"
  moves :: "(u32, MovePair) btree"
  overflow :: bool

definition Coalescer_new :: Coalescer where
  "Coalescer_new = \<lparr>effects = [], moves = [], overflow = False\<rparr>"

definition merge_effect :: "Effect option \<Rightarrow> Effect \<Rightarrow> Effect option" where
  "merge_effect old new =
     (case (old, new) of
        (None, e) \<Rightarrow> Some e
      | (Some Effect.Created, Effect.Modified) \<Rightarrow> Some Effect.Created
      | (Some Effect.Created, Effect.Deleted) \<Rightarrow> None
      | (Some Effect.Modified, Effect.Modified) \<Rightarrow> Some Effect.Modified
      | (Some Effect.Modified, Effect.Deleted) \<Rightarrow> Some Effect.Deleted
      | (Some Effect.Deleted, Effect.Created) \<Rightarrow> Some Effect.Modified
      | (Some Effect.Deleted, Effect.Modified) \<Rightarrow> Some Effect.Modified
      | (Some Effect.Created, Effect.Created) \<Rightarrow> Some Effect.Created
      | (Some Effect.Deleted, Effect.Deleted) \<Rightarrow> Some Effect.Deleted
      | (Some Effect.Modified, Effect.Created) \<Rightarrow> Some Effect.Modified)"

definition apply_effect :: "string \<Rightarrow> Effect \<Rightarrow> Coalescer \<Rightarrow> Coalescer" where
  "apply_effect path new c =
     (case merge_effect (map_of (effects c) path) new of
        Some e \<Rightarrow> c\<lparr>effects := bt_insert path e (effects c)\<rparr>
      | None \<Rightarrow> c\<lparr>effects := bt_remove path (effects c)\<rparr>)"

text \<open>\<^verbatim>\<open>entry(cookie).or_default()\<close>.\<close>

definition move_entry :: "u32 \<Rightarrow> Coalescer \<Rightarrow> MovePair" where
  "move_entry cookie c =
     (case map_of (moves c) cookie of Some mv \<Rightarrow> mv | None \<Rightarrow> \<lparr>mv_from = None, mv_to = None\<rparr>)"

definition push :: "Coalescer \<Rightarrow> RawEvent \<Rightarrow> Coalescer" where
  "push c ev =
     (case ev of
        QueueOverflow \<Rightarrow> c\<lparr>overflow := True, effects := [], moves := []\<rparr>
      | RawEvent.Created p \<Rightarrow> apply_effect p Effect.Created c
      | RawEvent.Modified p \<Rightarrow> apply_effect p Effect.Modified c
      | RawEvent.Deleted p \<Rightarrow> apply_effect p Effect.Deleted c
      | MovedFrom cookie path \<Rightarrow>
          c\<lparr>moves := bt_insert cookie ((move_entry cookie c)\<lparr>mv_from := Some path\<rparr>) (moves c)\<rparr>
      | MovedTo cookie path \<Rightarrow>
          c\<lparr>moves := bt_insert cookie ((move_entry cookie c)\<lparr>mv_to := Some path\<rparr>) (moves c)\<rparr>)"

fun effect_change :: "string \<times> Effect \<Rightarrow> FsChange" where
  "effect_change (path, Effect.Created) = FsChange.Created path"
| "effect_change (path, Effect.Modified) = FsChange.Modified path"
| "effect_change (path, Effect.Deleted) = FsChange.Deleted path"

definition move_change :: "MovePair \<Rightarrow> FsChange list" where
  "move_change mv =
     (case (mv_from mv, mv_to mv) of
        (Some a, Some b) \<Rightarrow> [Renamed a b]
      | (Some a, None) \<Rightarrow> [FsChange.Deleted a]
      | (None, Some b) \<Rightarrow> [FsChange.Created b]
      | (None, None) \<Rightarrow> [])"

definition drain :: "Coalescer \<Rightarrow> FsChange list \<times> Coalescer" where
  "drain c =
     (if overflow c then ([], c\<lparr>overflow := False, effects := [], moves := []\<rparr>)
      else
        let out = map effect_change (effects c) @ concat (map (\<lambda>e. move_change (snd e)) (moves c))
        in (sort_key fs_sort_key out, c\<lparr>effects := [], moves := []\<rparr>))"

section \<open>The two backends\<close>

text \<open>The event kinds of the \<^verbatim>\<open>notify\<close> crate, as far as \<^verbatim>\<open>map_event\<close> tells them apart.\<close>

datatype EventKind = EvCreate | EvRemove | EvModifyName | EvModify | EvOther

record Event =
  ev_kind :: EventKind
  ev_paths :: "string list"

definition map_event :: "Event \<Rightarrow> RawEvent list" where
  "map_event ev =
     (case ev_kind ev of
        EvCreate \<Rightarrow> map RawEvent.Created (ev_paths ev)
      | EvRemove \<Rightarrow> map RawEvent.Deleted (ev_paths ev)
      | EvModifyName \<Rightarrow>
          if length (ev_paths ev) = 2
          then [RawEvent.Deleted (ev_paths ev ! 0), RawEvent.Created (ev_paths ev ! 1)]
          else map RawEvent.Modified (ev_paths ev)
      | EvModify \<Rightarrow> map RawEvent.Modified (ev_paths ev)
      | EvOther \<Rightarrow> [])"

text \<open>What the watcher's callback sends for a result of \<^verbatim>\<open>notify\<close>.\<close>

definition callback :: "Event option \<Rightarrow> RawEvent list" where
  "callback res = (case res of Some ev \<Rightarrow> map_event ev | None \<Rightarrow> [QueueOverflow])"

text \<open>\<^verbatim>\<open>FsWatcher::poll\<close> on the raw events that arrive before its deadline.\<close>

definition inotify_poll :: "RawEvent list \<Rightarrow> FsChange list" where
  "inotify_poll window =
     (case window of
        [] \<Rightarrow> []
      | ev # rest \<Rightarrow> fst (drain (foldl push (push Coalescer_new ev) rest)))"

text \<open>\<^verbatim>\<open>FanotifyWatcher::poll\<close> on the batches its reads return; it stops at the first empty one.\<close>

definition fanotify_poll :: "RawEvent list list \<Rightarrow> FsChange list" where
  "fanotify_poll reads =
     (case reads of
        [] \<Rightarrow> []
      | first # rest \<Rightarrow>
          if first = [] then []
          else fst (drain (foldl (foldl push) (foldl push Coalescer_new first)
                 (takeWhile (\<lambda>r. r \<noteq> []) rest))))"

datatype ChangeSourceKind = Inotify | ReconcileOnly | Ebpf

datatype Decision = ReconcileOnly | Inotify | Fanotify

definition decide :: "ChangeSourceKind \<Rightarrow> bool \<Rightarrow> bool \<Rightarrow> Decision" where
  "decide cs privileged fanotify_available =
     (case cs of
        ChangeSourceKind.ReconcileOnly \<Rightarrow> Decision.ReconcileOnly
      | ChangeSourceKind.Inotify \<Rightarrow> Decision.Inotify
      | Ebpf \<Rightarrow> if privileged \<and> fanotify_available then Fanotify else Decision.Inotify)"

text \<open>The watcher \<^verbatim>\<open>select_change_source\<close> returns, given whether each backend starts.\<close>

definition select_change_source :: "ChangeSourceKind \<Rightarrow> bool \<Rightarrow> bool \<Rightarrow> bool \<Rightarrow> Decision option" where
  "select_change_source cs privileged mark_ok inotify_ok =
     (if cs = Ebpf \<and> privileged \<and> mark_ok then Some Fanotify
      else (case decide cs privileged False of
              Decision.ReconcileOnly \<Rightarrow> None
            | _ \<Rightarrow> if inotify_ok then Some Decision.Inotify else None))"

section \<open>The daemon's scheduler\<close>

record SchedState =
  paused :: bool
  trigger :: bool

definition pause :: "SchedState \<Rightarrow> SchedState" where
  "pause st = st\<lparr>paused := True\<rparr>"

definition resume :: "SchedState \<Rightarrow> SchedState" where
  "resume st = st\<lparr>paused := False\<rparr>"

definition trigger_now :: "SchedState \<Rightarrow> SchedState" where
  "trigger_now st = st\<lparr>trigger := True\<rparr>"

text \<open>One iteration of the watcher thread, and the decision of one iteration of \<^verbatim>\<open>sync_loop\<close>.\<close>

definition watch_step :: "FsChange list \<Rightarrow> SchedState \<Rightarrow> SchedState" where
  "watch_step changes st =
     (if changes = [] then st else if \<not> paused st then st\<lparr>trigger := True\<rparr> else st)"

definition loop_tick :: "bool \<Rightarrow> SchedState \<Rightarrow> bool \<times> SchedState" where
  "loop_tick timed_out st = (trigger st \<or> timed_out \<and> \<not> paused st, st\<lparr>trigger := False\<rparr>)"

section \<open>Specification: what users do to a tree\<close>

type_synonym tree = "string \<Rightarrow> string option"

text \<open>Operations on a tree of fingerprints. A rename here has a free target; what happens when it
  replaces a file is a matter of its own below.\<close>

datatype user_op = Make string string | Write string string | Remove string | Rename string string

fun op_ok :: "user_op \<Rightarrow> tree \<Rightarrow> bool" where
  "op_ok (Make p f) t = (t p = None)"
| "op_ok (Write p f) t = (t p \<noteq> None)"
| "op_ok (Remove p) t = (t p \<noteq> None)"
| "op_ok (Rename p q) t = (t p \<noteq> None \<and> t q = None)"

fun op_run :: "user_op \<Rightarrow> tree \<Rightarrow> tree" where
  "op_run (Make p f) t = t(p \<mapsto> f)"
| "op_run (Write p f) t = t(p \<mapsto> f)"
| "op_run (Remove p) t = t(p := None)"
| "op_run (Rename p q) t = t(q := t p, p := None)"

fun op_event :: "user_op \<Rightarrow> Event" where
  "op_event (Make p f) = \<lparr>ev_kind = EvCreate, ev_paths = [p]\<rparr>"
| "op_event (Write p f) = \<lparr>ev_kind = EvModify, ev_paths = [p]\<rparr>"
| "op_event (Remove p) = \<lparr>ev_kind = EvRemove, ev_paths = [p]\<rparr>"
| "op_event (Rename p q) = \<lparr>ev_kind = EvModifyName, ev_paths = [p, q]\<rparr>"

fun run_ops :: "user_op list \<Rightarrow> tree \<Rightarrow> tree option" where
  "run_ops [] t = Some t"
| "run_ops (a # as) t = (if op_ok a t then run_ops as (op_run a t) else None)"

definition raw_events :: "user_op list \<Rightarrow> RawEvent list" where
  "raw_events as = concat (map (\<lambda>a. callback (Some (op_event a))) as)"

text \<open>A change of the diff as the watcher names it, and a reported modification that left a path with
  the fingerprint it had.\<close>

primrec fs_change :: "ReconcileChange \<Rightarrow> FsChange" where
  "fs_change (ReconcileChange.Created p) = FsChange.Created p"
| "fs_change (ReconcileChange.Modified p) = FsChange.Modified p"
| "fs_change (ReconcileChange.Deleted p) = FsChange.Deleted p"

definition undone :: "tree \<Rightarrow> tree \<Rightarrow> FsChange \<Rightarrow> bool" where
  "undone t0 t c = (case c of FsChange.Modified p \<Rightarrow> t0 p = t p | _ \<Rightarrow> False)"

text \<open>The coalescer's entry for a path, against the tree before and now.\<close>

definition effect_ok :: "string option \<Rightarrow> string option \<Rightarrow> Effect option \<Rightarrow> bool" where
  "effect_ok before now e =
     (case e of
        None \<Rightarrow> before = now
      | Some Effect.Created \<Rightarrow> before = None \<and> now \<noteq> None
      | Some Effect.Modified \<Rightarrow> before \<noteq> None \<and> now \<noteq> None
      | Some Effect.Deleted \<Rightarrow> before \<noteq> None \<and> now = None)"

definition tracks :: "tree \<Rightarrow> tree \<Rightarrow> Coalescer \<Rightarrow> bool" where
  "tracks t0 t c \<longleftrightarrow> bt_ok (effects c) \<and> moves c = [] \<and> \<not> overflow c
     \<and> (\<forall>p. effect_ok (t0 p) (t p) (map_of (effects c) p))"

section \<open>Lemmas on the diff\<close>

lemma bt_ok_snapshot [simp]: "bt_ok (snapshot es)"
  by (simp add: snapshot_def)

lemma set_current_changes:
  assumes "bt_ok m"
  shows "set (concat (map (current_change k) m)) =
    {ReconcileChange.Created p | p. map_of k p = None \<and> map_of m p \<noteq> None}
    \<union> {ReconcileChange.Modified p | p. map_of k p \<noteq> None \<and> map_of m p \<noteq> None \<and> map_of k p \<noteq> map_of m p}"
proof -
  have "c \<in> set (current_change k (p, v)) \<longleftrightarrow>
      (map_of k p = None \<and> c = ReconcileChange.Created p)
      \<or> (map_of k p \<noteq> None \<and> map_of k p \<noteq> Some v \<and> c = ReconcileChange.Modified p)" for c p v
    by (auto simp: current_change_def split: option.split)
  then have "c \<in> set (concat (map (current_change k) m)) \<longleftrightarrow>
      (\<exists>p v. map_of m p = Some v \<and> ((map_of k p = None \<and> c = ReconcileChange.Created p)
        \<or> (map_of k p \<noteq> None \<and> map_of k p \<noteq> Some v \<and> c = ReconcileChange.Modified p)))" for c
    using in_set_bt [OF assms] by (auto simp: Bex_def)
  then show ?thesis by (auto simp: set_eq_iff)
qed

lemma keys_current_changes: "map change_key (concat (map (current_change k) m))
    = filter (\<lambda>p. map_of k p \<noteq> map_of m p) (map fst m)" if "bt_ok m"
  using that
proof (induction m)
  case (Cons e m)
  have eq: "map_of (e # m) p = map_of m p" if "p \<in> set (map fst m)" for p
    using Cons.prems that by (auto simp: bt_ok_Cons)
  have "filter (\<lambda>p. map_of k p \<noteq> map_of (e # m) p) (map fst m)
      = filter (\<lambda>p. map_of k p \<noteq> map_of m p) (map fst m)"
    by (intro filter_cong) (simp_all only: eq)
  with Cons show ?case
    by (simp add: bt_ok_Cons del: map_of.simps(2)) (simp add: current_change_def split: option.split)
qed simp

lemma reconcile_sorted: "sorted (map change_key (reconcile known current))"
  by (simp add: reconcile_def Let_def)

lemma reconcile_distinct: "distinct (map change_key (reconcile known current))"
proof -
  let ?k = "snapshot known" and ?c = "snapshot current"
  have "distinct (map change_key (concat (map (current_change ?k) ?c)))"
    by (simp only: keys_current_changes [OF bt_ok_snapshot] distinct_filter bt_ok_distinct bt_ok_snapshot)
  moreover have "distinct (filter (\<lambda>k. map_of ?c k = None) (map fst ?k))"
    using bt_ok_distinct [of ?k] by simp
  moreover have "set (map change_key (concat (map (current_change ?k) ?c)))
      \<inter> set (filter (\<lambda>k. map_of ?c k = None) (map fst ?k)) = {}"
    by (simp only: keys_current_changes [OF bt_ok_snapshot]) (auto simp: map_of_eq_None_iff)
  ultimately have "distinct (map change_key (concat (map (current_change ?k) ?c)
      @ map ReconcileChange.Deleted (filter (\<lambda>k. map_of ?c k = None) (map fst ?k))))"
    by (simp add: comp_def del: map_concat)
  from sort_key_distinct [OF this] show ?thesis by (simp add: reconcile_def Let_def)
qed

lemma set_reconcile:
  fixes known current
  defines "t0 \<equiv> map_of (snapshot known)" and "t \<equiv> map_of (snapshot current)"
  shows "set (reconcile known current) =
    {ReconcileChange.Created p | p. t0 p = None \<and> t p \<noteq> None}
    \<union> {ReconcileChange.Modified p | p. t0 p \<noteq> None \<and> t p \<noteq> None \<and> t0 p \<noteq> t p}
    \<union> {ReconcileChange.Deleted p | p. t0 p \<noteq> None \<and> t p = None}"
proof -
  have "set (map ReconcileChange.Deleted (filter (\<lambda>k. t k = None) (map fst (snapshot known))))
      = {ReconcileChange.Deleted p | p. t0 p \<noteq> None \<and> t p = None}"
    by (auto simp: t0_def map_of_eq_None_iff)
  then show ?thesis
    using set_current_changes [OF bt_ok_snapshot [of current], of "snapshot known"]
    by (simp add: reconcile_def Let_def t0_def t_def)
qed

section \<open>Lemmas on the coalescer\<close>

lemma effects_apply:
  assumes "bt_ok (effects c)"
  shows "map_of (effects (apply_effect p e c)) = (map_of (effects c))(p := merge_effect (map_of (effects c) p) e)"
    and "bt_ok (effects (apply_effect p e c))" "moves (apply_effect p e c) = moves c"
    "overflow (apply_effect p e c) = overflow c"
  using assms by (auto simp: apply_effect_def map_of_bt_insert map_of_bt_remove split: option.split)

lemma tracks_apply:
  assumes "tracks t0 t c" and "effect_ok (t0 p) x (merge_effect (map_of (effects c) p) e)"
  shows "tracks t0 (t(p := x)) (apply_effect p e c)"
  using assms by (auto simp: tracks_def effects_apply)

lemma effect_ok_merge:
  "effect_ok before None e \<Longrightarrow> effect_ok before (Some f) (merge_effect e Effect.Created)"
  "effect_ok before (Some f) e \<Longrightarrow> effect_ok before (Some g) (merge_effect e Effect.Modified)"
  "effect_ok before (Some f) e \<Longrightarrow> effect_ok before None (merge_effect e Effect.Deleted)"
  by (auto simp: effect_ok_def merge_effect_def split: option.splits Effect.splits)

lemma tracks_effect:
  assumes "tracks t0 t c"
  shows "t p = None \<Longrightarrow> tracks t0 (t(p \<mapsto> f)) (apply_effect p Effect.Created c)"
    "t p = Some g \<Longrightarrow> tracks t0 (t(p \<mapsto> f)) (apply_effect p Effect.Modified c)"
    "t p = Some g \<Longrightarrow> tracks t0 (t(p := None)) (apply_effect p Effect.Deleted c)"
proof -
  have "effect_ok (t0 p) (t p) (map_of (effects c) p)" using assms by (simp add: tracks_def)
  then show "t p = None \<Longrightarrow> tracks t0 (t(p \<mapsto> f)) (apply_effect p Effect.Created c)"
    "t p = Some g \<Longrightarrow> tracks t0 (t(p \<mapsto> f)) (apply_effect p Effect.Modified c)"
    "t p = Some g \<Longrightarrow> tracks t0 (t(p := None)) (apply_effect p Effect.Deleted c)"
    using tracks_apply [OF assms] effect_ok_merge by simp_all
qed

lemma tracks_op:
  assumes "tracks t0 t c" and "op_ok a t"
  shows "tracks t0 (op_run a t) (foldl push c (callback (Some (op_event a))))"
proof (cases a)
  case (Rename p q)
  with assms(2) obtain f where f: "t p = Some f" "t q = None" "p \<noteq> q" by (cases "p = q") auto
  have "tracks t0 (t(p := None)) (apply_effect p Effect.Deleted c)"
    by (rule tracks_effect(3) [OF assms(1) f(1)])
  then have "tracks t0 ((t(p := None))(q \<mapsto> f)) (apply_effect q Effect.Created (apply_effect p Effect.Deleted c))"
    by (rule tracks_effect(1)) (simp add: f)
  with f Rename show ?thesis
    by (simp add: callback_def map_event_def push_def fun_upd_twist)
qed (use assms in \<open>auto simp: callback_def map_event_def push_def intro: tracks_effect\<close>)

lemma tracks_ops:
  assumes "tracks t0 t c" and "run_ops as t = Some t'"
  shows "tracks t0 t' (foldl push c (raw_events as))"
  using assms
proof (induction as arbitrary: t c)
  case (Cons a as)
  then have "op_ok a t" "run_ops as (op_run a t) = Some t'" by (auto split: if_splits)
  with Cons.IH [OF tracks_op [OF Cons.prems(1)]] show ?case by (simp add: raw_events_def)
qed (simp add: raw_events_def)

lemma tracks_new: "tracks t t Coalescer_new"
  by (simp add: tracks_def Coalescer_new_def effect_ok_def)

lemma poll_fold: "inotify_poll evs = fst (drain (foldl push Coalescer_new evs))"
  by (cases evs) (simp_all add: inotify_poll_def drain_def Coalescer_new_def)

lemma fs_sort_key_effect [simp]: "fs_sort_key (effect_change e) = fst e"
  by (cases e; cases "snd e") auto

lemma effect_change_iff:
  "effect_change e = FsChange.Created p \<longleftrightarrow> e = (p, Effect.Created)"
  "effect_change e = FsChange.Modified p \<longleftrightarrow> e = (p, Effect.Modified)"
  "effect_change e = FsChange.Deleted p \<longleftrightarrow> e = (p, Effect.Deleted)"
  "effect_change e \<noteq> Renamed p q"
  by (cases e; cases "snd e"; auto)+

lemma drained_exact:
  assumes "tracks t0 t c"
  shows "fst (drain c) = sort_key fs_sort_key (map effect_change (effects c))"
    and "distinct (map fs_sort_key (map effect_change (effects c)))"
    and "d \<in> set (map effect_change (effects c)) \<and> \<not> undone t0 t d \<longleftrightarrow>
      (\<exists>p. d = FsChange.Created p \<and> t0 p = None \<and> t p \<noteq> None
        \<or> d = FsChange.Modified p \<and> t0 p \<noteq> None \<and> t p \<noteq> None \<and> t0 p \<noteq> t p
        \<or> d = FsChange.Deleted p \<and> t0 p \<noteq> None \<and> t p = None)"
proof -
  have ok: "bt_ok (effects c)" "moves c = []" "\<not> overflow c"
    and e: "\<And>p. effect_ok (t0 p) (t p) (map_of (effects c) p)" using assms by (simp_all add: tracks_def)
  from ok show "fst (drain c) = sort_key fs_sort_key (map effect_change (effects c))"
    by (simp add: drain_def Let_def)
  show "distinct (map fs_sort_key (map effect_change (effects c)))"
    using bt_ok_distinct [OF ok(1)] by (simp add: comp_def)
  have mem: "d \<in> set (map effect_change (effects c)) \<longleftrightarrow>
      (\<exists>p. d = FsChange.Created p \<and> map_of (effects c) p = Some Effect.Created
        \<or> d = FsChange.Modified p \<and> map_of (effects c) p = Some Effect.Modified
        \<or> d = FsChange.Deleted p \<and> map_of (effects c) p = Some Effect.Deleted)"
    by (cases d) (auto simp: image_iff effect_change_iff eq_commute [of _ "effect_change _"]
        in_set_bt [OF ok(1)])
  have "map_of (effects c) p = Some Effect.Created \<longleftrightarrow> t0 p = None \<and> t p \<noteq> None"
    "map_of (effects c) p = Some Effect.Deleted \<longleftrightarrow> t0 p \<noteq> None \<and> t p = None"
    "map_of (effects c) p = Some Effect.Modified \<and> t0 p \<noteq> t p
      \<longleftrightarrow> t0 p \<noteq> None \<and> t p \<noteq> None \<and> t0 p \<noteq> t p" for p
    using e [of p] by (auto simp: effect_ok_def split: option.splits Effect.splits)
  then show "d \<in> set (map effect_change (effects c)) \<and> \<not> undone t0 t d \<longleftrightarrow>
      (\<exists>p. d = FsChange.Created p \<and> t0 p = None \<and> t p \<noteq> None
        \<or> d = FsChange.Modified p \<and> t0 p \<noteq> None \<and> t p \<noteq> None \<and> t0 p \<noteq> t p
        \<or> d = FsChange.Deleted p \<and> t0 p \<noteq> None \<and> t p = None)"
    unfolding mem by (cases d) (simp_all add: undone_def)
qed

lemma fs_change_key [simp]: "fs_sort_key (fs_change c) = change_key c"
  by (cases c) simp_all

lemma fs_change_iff:
  "FsChange.Created p = fs_change c \<longleftrightarrow> c = ReconcileChange.Created p"
  "FsChange.Modified p = fs_change c \<longleftrightarrow> c = ReconcileChange.Modified p"
  "FsChange.Deleted p = fs_change c \<longleftrightarrow> c = ReconcileChange.Deleted p"
  "Renamed p q \<noteq> fs_change c"
  by (cases c; auto)+

lemma in_fs_changes:
  "d \<in> fs_change ` set (reconcile known current) \<longleftrightarrow>
    (\<exists>p. d = FsChange.Created p \<and> map_of (snapshot known) p = None \<and> map_of (snapshot current) p \<noteq> None
      \<or> d = FsChange.Modified p \<and> map_of (snapshot known) p \<noteq> None \<and> map_of (snapshot current) p \<noteq> None
          \<and> map_of (snapshot known) p \<noteq> map_of (snapshot current) p
      \<or> d = FsChange.Deleted p \<and> map_of (snapshot known) p \<noteq> None \<and> map_of (snapshot current) p = None)"
  by (cases d) (auto simp: set_reconcile image_iff fs_change_iff Bex_def)

lemma poll_is_diff:
  assumes "run_ops as (map_of (snapshot known)) = Some (map_of (snapshot current))"
  shows "filter (\<lambda>d. \<not> undone (map_of (snapshot known)) (map_of (snapshot current)) d)
      (inotify_poll (raw_events as)) = map fs_change (reconcile known current)"
proof -
  let ?before = "map_of (snapshot known)" and ?now = "map_of (snapshot current)"
  let ?c = "foldl push Coalescer_new (raw_events as)"
  have tr: "tracks ?before ?now ?c" by (rule tracks_ops [OF tracks_new assms])
  have poll: "inotify_poll (raw_events as) = sort_key fs_sort_key (map effect_change (effects ?c))"
    using drained_exact(1) [OF tr] by (simp add: poll_fold)
  show ?thesis
  proof (rule sorted_key_unique [where f = fs_sort_key])
    show "sorted (map fs_sort_key (filter (\<lambda>d. \<not> undone ?before ?now d) (inotify_poll (raw_events as))))"
      unfolding poll by (intro sorted_filter) simp
    show "distinct (map fs_sort_key (filter (\<lambda>d. \<not> undone ?before ?now d) (inotify_poll (raw_events as))))"
      unfolding poll by (intro distinct_map_filter sort_key_distinct drained_exact(2) [OF tr])
    show "sorted (map fs_sort_key (map fs_change (reconcile known current)))"
      using reconcile_sorted by (simp add: comp_def)
    show "distinct (map fs_sort_key (map fs_change (reconcile known current)))"
      using reconcile_distinct by (simp add: comp_def)
    show "set (filter (\<lambda>d. \<not> undone ?before ?now d) (inotify_poll (raw_events as)))
        = set (map fs_change (reconcile known current))"
      unfolding poll using drained_exact(3) [OF tr] in_fs_changes [of _ known current]
      by (simp add: set_eq_iff)
  qed
qed

lemma overflow_push: "overflow c \<or> ev = QueueOverflow \<Longrightarrow> overflow (push c ev)"
  by (auto simp: push_def apply_effect_def split: RawEvent.split option.split)

lemma foldl_foldl_push: "foldl (foldl push) c rs = foldl push c (concat rs)"
  by (induction rs arbitrary: c) simp_all

lemma overflow_fold: "overflow c \<or> QueueOverflow \<in> set evs \<Longrightarrow> overflow (foldl push c evs)"
proof (induction evs arbitrary: c)
  case (Cons ev evs)
  then have "overflow (push c ev) \<or> QueueOverflow \<in> set evs" using overflow_push by auto
  with Cons.IH show ?case by simp
qed simp

section \<open>Properties\<close>


definition scan_before :: "Entry list" where
  "scan_before = [\<lparr>ent_key = ''a'', fingerprint = ''1''\<rparr>, \<lparr>ent_key = ''b'', fingerprint = ''2''\<rparr>]"

definition scan_after :: "Entry list" where
  "scan_after = [\<lparr>ent_key = ''c'', fingerprint = ''1''\<rparr>, \<lparr>ent_key = ''b'', fingerprint = ''3''\<rparr>]"

definition day :: "user_op list" where
  "day = [Make ''x'' ''9'', Rename ''a'' ''c'', Remove ''b'', Make ''b'' ''3'', Remove ''x'']"


text \<open>A local change wakes an unpaused daemon: when the tree differs from the last scan, the watcher's
  poll sets the trigger and the next turn of the sync loop runs a pass, also when its timer has not
  expired. The trigger is consumed by that turn.\<close>

theorem local_change_wakes_daemon:
  assumes "run_ops as (map_of (snapshot known)) = Some (map_of (snapshot current))"
    and "reconcile known current \<noteq> []" and "\<not> paused st"
  shows "\<exists>st'. loop_tick timed_out (watch_step (inotify_poll (raw_events as)) st) = (True, st')
    \<and> \<not> trigger st' \<and> \<not> paused st'"
proof -
  have "inotify_poll (raw_events as) \<noteq> []" using poll_is_diff [OF assms(1)] assms(2) by auto
  with assms(3) show ?thesis by (simp add: watch_step_def loop_tick_def)
qed

theorem local_change_wakes_daemon_witness:
  "\<exists>st'. loop_tick False (watch_step (inotify_poll (raw_events [Make ''a'' ''1''])) \<lparr>paused = False, trigger = False\<rparr>)
      = (True, st') \<and> \<not> trigger st' \<and> \<not> paused st'"
proof -
  let ?c = "[\<lparr>ent_key = ''a'', fingerprint = ''1''\<rparr>]"
  have s: "snapshot [] = []" "snapshot ?c = [(''a'', ''1'')]" by code_simp+
  then have "run_ops [Make ''a'' ''1''] (map_of (snapshot [])) = Some (map_of (snapshot ?c))"
    by (auto simp: fun_eq_iff)
  moreover have "reconcile [] ?c \<noteq> []" by code_simp
  ultimately show ?thesis by (rule local_change_wakes_daemon) simp
qed

text \<open>Lost events do not wake the daemon. When the kernel's queue overflowed anywhere in the window,
  both backends return no change, and the daemon's watcher thread treats that like silence: its state
  stays as it is, and an unexpired timer still does not run a pass.\<close>

theorem lost_events_do_not_wake_daemon:
  assumes "QueueOverflow \<in> set window"
  shows "inotify_poll window = [] \<and> fanotify_poll (window # reads) = []
    \<and> watch_step (inotify_poll window) st = st
    \<and> (\<not> trigger st \<longrightarrow> loop_tick False (watch_step (inotify_poll window) st) = (False, st))"
proof -
  have o: "overflow (foldl push Coalescer_new (window @ rest))" for rest
    using assms overflow_fold [of Coalescer_new "window @ rest"] by simp
  have "inotify_poll window = []" using o [of "[]"] by (simp add: poll_fold drain_def)
  moreover have "fanotify_poll (window # reads) = []"
    using o [of "concat (takeWhile (\<lambda>r. r \<noteq> []) reads)"]
    by (simp add: fanotify_poll_def foldl_foldl_push drain_def)
  ultimately show ?thesis by (simp add: watch_step_def loop_tick_def)
qed

theorem lost_events_do_not_wake_daemon_witness:
  "loop_tick False (watch_step (inotify_poll [RawEvent.Deleted ''a'', QueueOverflow]) \<lparr>paused = False, trigger = False\<rparr>)
    = (False, \<lparr>paused = False, trigger = False\<rparr>)"
  using lost_events_do_not_wake_daemon
    [of "[RawEvent.Deleted ''a'', QueueOverflow]" "[]" "\<lparr>paused = False, trigger = False\<rparr>"]
  by (simp add: watch_step_def loop_tick_def)

text \<open>A file that an atomic save replaces and that is removed afterwards: the rename onto an existing path
  reaches the coalescer as a creation, which the removal cancels, so that a removal the diff sees is
  not reported.\<close>

lemma replaced_then_removed_is_silent:
  assumes "p \<noteq> q"
  shows "inotify_poll (concat (map (\<lambda>a. callback (Some (op_event a))) [Make p f, Rename p q, Remove q])) = []"
    and "reconcile [\<lparr>ent_key = q, fingerprint = g\<rparr>] [] = [ReconcileChange.Deleted q]"
proof -
  show "inotify_poll (concat (map (\<lambda>a. callback (Some (op_event a))) [Make p f, Rename p q, Remove q])) = []"
    using assms by (simp add: poll_fold callback_def map_event_def push_def apply_effect_def merge_effect_def
        Coalescer_new_def bt_remove_def drain_def)
  show "reconcile [\<lparr>ent_key = q, fingerprint = g\<rparr>] [] = [ReconcileChange.Deleted q]"
    by (simp add: reconcile_def snapshot_def bt_collect_def)
qed

end
