(* ===== verification/Fanotify.thy ===== *)
theory Fanotify
  imports Change_Source
begin

unbundle bit_operations_syntax

text \<open>
  The parser of fanotify event buffers (\<^verbatim>\<open>change-source/src/fanotify.rs\<close>). A buffer is a list of bytes;
  multi-byte fields are little-endian, the native order of the supported targets, and \<open>usize\<close> sums do
  not wrap on buffers of 8 KiB. Indexing and slicing that Rust would panic on is the outer \<open>None\<close> of a
  result. The constants of the \<^verbatim>\<open>libc\<close> crate are a record of parameters, and the resolution of a handle to
  a path (a system call) is a function parameter. The specification is an encoder of kernel events.
\<close>

section \<open>Constants and readers\<close>

record libc =
  FANOTIFY_METADATA_VERSION :: u8
  FAN_NOFD :: int
  FAN_Q_OVERFLOW :: u64
  FAN_RENAME :: u64
  FAN_DELETE :: u64
  FAN_MOVED_FROM :: u64
  FAN_MOVED_TO :: u64
  FAN_CREATE :: u64
  FAN_MODIFY :: u64
  INFO_TYPE_DFID_NAME :: u8
  INFO_TYPE_OLD_DFID_NAME :: u8
  INFO_TYPE_NEW_DFID_NAME :: u8

definition META_SIZE :: nat where "META_SIZE = 24"
definition OFF_EVENT_LEN :: nat where "OFF_EVENT_LEN = 0"
definition OFF_VERS :: nat where "OFF_VERS = 4"
definition OFF_META_LEN :: nat where "OFF_META_LEN = 6"
definition OFF_MASK :: nat where "OFF_MASK = 8"
definition OFF_FD :: nat where "OFF_FD = 16"

definition le_value :: "bytes \<Rightarrow> nat" where
  "le_value bs = be_value (rev bs)"

text \<open>\<^verbatim>\<open>b.get(o..o + n)\<close>, and the panicking \<^verbatim>\<open>b[i]\<close> and \<^verbatim>\<open>b[i..j]\<close>.\<close>

definition get_range :: "bytes \<Rightarrow> nat \<Rightarrow> nat \<Rightarrow> bytes option" where
  "get_range b i n = (if i + n \<le> length b then Some (take n (drop i b)) else None)"

definition index_at :: "bytes \<Rightarrow> nat \<Rightarrow> u8 option" where
  "index_at b i = (if i < length b then Some (b ! i) else None)"

definition slice :: "bytes \<Rightarrow> nat \<Rightarrow> nat \<Rightarrow> bytes option" where
  "slice b i j = (if i \<le> j \<and> j \<le> length b then Some (take (j - i) (drop i b)) else None)"

definition rd_u16 :: "bytes \<Rightarrow> nat \<Rightarrow> nat option" where
  "rd_u16 b i = map_option le_value (get_range b i 2)"

definition rd_u32 :: "bytes \<Rightarrow> nat \<Rightarrow> nat option" where
  "rd_u32 b i = map_option le_value (get_range b i 4)"

definition rd_i32 :: "bytes \<Rightarrow> nat \<Rightarrow> int option" where
  "rd_i32 b i = map_option (\<lambda>s. sint (of_nat (le_value s) :: u32)) (get_range b i 4)"

definition rd_u64 :: "bytes \<Rightarrow> nat \<Rightarrow> u64 option" where
  "rd_u64 b i = map_option (\<lambda>s. of_nat (le_value s)) (get_range b i 8)"

section \<open>Lossy decoding\<close>

text \<open>\<^verbatim>\<open>String::from_utf8_lossy\<close>: each maximal ill-formed prefix of a sequence becomes U+FFFD. The number of
  bytes a lead byte announces, and the range of the byte after it.\<close>

definition utf8_width :: "u8 \<Rightarrow> nat" where
  "utf8_width b =
     (if b < 0x80 then 1 else if 0xC2 \<le> b \<and> b \<le> 0xDF then 2
      else if 0xE0 \<le> b \<and> b \<le> 0xEF then 3 else if 0xF0 \<le> b \<and> b \<le> 0xF4 then 4 else 0)"

definition utf8_second :: "u8 \<Rightarrow> u8 \<Rightarrow> bool" where
  "utf8_second b c =
     ((if b = 0xE0 then 0xA0 else if b = 0xF0 then 0x90 else 0x80) \<le> c
      \<and> c \<le> (if b = 0xED then 0x9F else if b = 0xF4 then 0x8F else 0xBF))"

definition utf8_cont :: "u8 \<Rightarrow> bool" where
  "utf8_cont c \<longleftrightarrow> 0x80 \<le> c \<and> c \<le> 0xBF"

text \<open>How many bytes of the announced width are there and well-formed.\<close>

definition utf8_good :: "u8 \<Rightarrow> bytes \<Rightarrow> nat" where
  "utf8_good b rest =
     (case rest of
        [] \<Rightarrow> 1
      | c # cs \<Rightarrow>
          if utf8_width b \<le> 1 \<or> \<not> utf8_second b c then 1
          else 2 + length (takeWhile utf8_cont (take (utf8_width b - 2) cs)))"

lemma utf8_good_pos [simp]: "0 < utf8_good b rest"
  by (simp add: utf8_good_def split: list.split)

function from_utf8_lossy :: "bytes \<Rightarrow> bytes" where
  "from_utf8_lossy [] = []"
| "from_utf8_lossy (b # rest) =
     (let n = utf8_good b rest
      in (if n = utf8_width b then take n (b # rest) else [0xEF, 0xBF, 0xBD])
         @ from_utf8_lossy (drop n (b # rest)))"
  by pat_completeness auto

termination
  by (relation "measure length") (simp_all add: drop_Cons')

section \<open>Records\<close>

record Fid =
  handle_type :: int
  handle :: bytes
  fid_name :: bytes

text \<open>\<^verbatim>\<open>iter().position(|b| b == 0).unwrap_or(len)\<close> is the length of the prefix without a NUL.\<close>

definition parse_fid_tlv :: "bytes \<Rightarrow> Fid option option" where
  "parse_fid_tlv tlv =
     (if length tlv < 20 then Some None
      else (case (rd_u32 tlv 12, rd_i32 tlv 16) of
              (Some handle_bytes, Some htype) \<Rightarrow>
                let h_end = 20 + handle_bytes
                in if h_end > length tlv then Some None
                   else Option.bind (slice tlv 20 h_end) (\<lambda>h.
                        Option.bind (slice tlv h_end (length tlv)) (\<lambda>name_region.
                        let name_end = length (takeWhile (\<lambda>b. b \<noteq> 0) name_region)
                        in Option.bind (slice name_region 0 name_end) (\<lambda>n.
                        Some (Some \<lparr>handle_type = htype, handle = h, fid_name = from_utf8_lossy n\<rparr>))))
            | _ \<Rightarrow> Some None))"

record fids =
  dfid :: "Fid option"
  old_fid :: "Fid option"
  new_fid :: "Fid option"

definition take_fid :: "libc \<Rightarrow> u8 \<Rightarrow> bytes \<Rightarrow> fids \<Rightarrow> fids option" where
  "take_fid k info_type tlv f =
     (if info_type = INFO_TYPE_DFID_NAME k then map_option (\<lambda>x. f\<lparr>dfid := x\<rparr>) (parse_fid_tlv tlv)
      else if info_type = INFO_TYPE_OLD_DFID_NAME k then map_option (\<lambda>x. f\<lparr>old_fid := x\<rparr>) (parse_fid_tlv tlv)
      else if info_type = INFO_TYPE_NEW_DFID_NAME k then map_option (\<lambda>x. f\<lparr>new_fid := x\<rparr>) (parse_fid_tlv tlv)
      else Some f)"

text \<open>The walk over the info records of one event. \<open>None\<close> is a panic.\<close>

function tlv_loop :: "libc \<Rightarrow> bytes \<Rightarrow> nat \<Rightarrow> nat \<Rightarrow> fids \<Rightarrow> fids option" where
  "tlv_loop k buf inner stop_at f =
     (if inner + 4 \<le> stop_at then
        Option.bind (index_at buf inner) (\<lambda>info_type.
        case rd_u16 buf (inner + 2) of
          None \<Rightarrow> Some f
        | Some tlv_len \<Rightarrow>
            if tlv_len < 4 \<or> inner + tlv_len > stop_at then Some f
            else
              Option.bind (slice buf inner (inner + tlv_len)) (\<lambda>tlv.
              Option.bind (take_fid k info_type tlv f) (\<lambda>f'.
              tlv_loop k buf (inner + tlv_len) stop_at f')))
      else Some f)"
  by pat_completeness auto

termination
  by (relation "measure (\<lambda>(k, buf, inner, stop_at, f). stop_at - inner)") auto

text \<open>The events of one record, with the next synthetic cookie (\<^verbatim>\<open>fetch_add\<close> wraps).\<close>

definition record_events ::
  "libc \<Rightarrow> (Fid \<Rightarrow> string option) \<Rightarrow> u64 \<Rightarrow> fids \<Rightarrow> u32 \<Rightarrow> RawEvent list \<times> u32" where
  "record_events k resolve mask_bits f cookie =
     (let at = Option.bind (dfid f) resolve
      in if mask_bits AND FAN_RENAME k \<noteq> 0 then
           (case (Option.bind (old_fid f) resolve, Option.bind (new_fid f) resolve) of
              (Some a, Some b) \<Rightarrow> ([MovedFrom cookie a, MovedTo cookie b], cookie + 1)
            | (Some a, None) \<Rightarrow> ([MovedFrom cookie a], cookie + 1)
            | (None, Some b) \<Rightarrow> ([MovedTo cookie b], cookie + 1)
            | (None, None) \<Rightarrow> ([], cookie))
         else if mask_bits AND FAN_DELETE k \<noteq> 0 then
           (case at of Some p \<Rightarrow> ([RawEvent.Deleted p], cookie) | None \<Rightarrow> ([], cookie))
         else if mask_bits AND FAN_MOVED_FROM k \<noteq> 0 then
           (case at of Some p \<Rightarrow> ([MovedFrom cookie p], cookie + 1) | None \<Rightarrow> ([], cookie))
         else if mask_bits AND FAN_MOVED_TO k \<noteq> 0 then
           (case at of Some p \<Rightarrow> ([MovedTo cookie p], cookie + 1) | None \<Rightarrow> ([], cookie))
         else if mask_bits AND FAN_CREATE k \<noteq> 0 then
           (case at of Some p \<Rightarrow> ([RawEvent.Created p], cookie) | None \<Rightarrow> ([], cookie))
         else if mask_bits AND FAN_MODIFY k \<noteq> 0 then
           (case at of Some p \<Rightarrow> ([RawEvent.Modified p], cookie) | None \<Rightarrow> ([], cookie))
         else ([], cookie))"

record parsed =
  out :: "RawEvent list"
  next_cookie :: u32
  closed :: "int list"

function events_loop :: "libc \<Rightarrow> (Fid \<Rightarrow> string option) \<Rightarrow> bytes \<Rightarrow> nat \<Rightarrow> parsed \<Rightarrow> parsed option" where
  "events_loop k resolve buf off p =
     (if off + META_SIZE \<le> length buf then
        (case rd_u32 buf (off + OFF_EVENT_LEN) of
           None \<Rightarrow> Some p
         | Some event_len \<Rightarrow>
             Option.bind (index_at buf (off + OFF_VERS)) (\<lambda>vers.
             if vers \<noteq> FANOTIFY_METADATA_VERSION k \<or> event_len < META_SIZE \<or> off + event_len > length buf
             then Some p
             else
               let mask_bits = (case rd_u64 buf (off + OFF_MASK) of Some v \<Rightarrow> v | None \<Rightarrow> 0);
                   fd = (case rd_i32 buf (off + OFF_FD) of Some v \<Rightarrow> v | None \<Rightarrow> FAN_NOFD k);
                   p = (if fd \<ge> 0 then p\<lparr>closed := closed p @ [fd]\<rparr> else p)
               in if mask_bits AND FAN_Q_OVERFLOW k \<noteq> 0
                  then events_loop k resolve buf (off + event_len) (p\<lparr>out := out p @ [QueueOverflow]\<rparr>)
                  else
                    let meta_len = (case rd_u16 buf (off + OFF_META_LEN) of Some v \<Rightarrow> v | None \<Rightarrow> META_SIZE)
                    in Option.bind
                         (tlv_loop k buf (off + max meta_len META_SIZE) (off + event_len)
                            \<lparr>dfid = None, old_fid = None, new_fid = None\<rparr>) (\<lambda>f.
                       (case record_events k resolve mask_bits f (next_cookie p) of (evs, c) \<Rightarrow>
                          events_loop k resolve buf (off + event_len)
                            (p\<lparr>out := out p @ evs, next_cookie := c\<rparr>)))))
      else Some p)"
  by pat_completeness auto

termination
  by (relation "measure (\<lambda>(k, resolve, buf, off, p). length buf - off)") (auto simp: META_SIZE_def)

declare tlv_loop.simps [simp del] events_loop.simps [simp del]

definition parse_events :: "libc \<Rightarrow> (Fid \<Rightarrow> string option) \<Rightarrow> u32 \<Rightarrow> bytes \<Rightarrow> parsed option" where
  "parse_events k resolve cookie buf =
     events_loop k resolve buf 0 \<lparr>out = [], next_cookie = cookie, closed = []\<rparr>"

section \<open>No panics\<close>

lemma slice_Some [simp]: "i \<le> j \<Longrightarrow> j \<le> length b \<Longrightarrow> slice b i j = Some (take (j - i) (drop i b))"
  by (simp add: slice_def)

lemma index_at_Some [simp]: "i < length b \<Longrightarrow> index_at b i = Some (b ! i)"
  by (simp add: index_at_def)

lemma parse_fid_tlv_no_panic: "parse_fid_tlv tlv \<noteq> None"
proof -
  have "length (takeWhile P xs) \<le> length xs" for P and xs :: bytes by (rule length_takeWhile_le)
  then show ?thesis by (auto simp: parse_fid_tlv_def Let_def split: option.splits)
qed

lemma take_fid_no_panic: "take_fid k info_type tlv f \<noteq> None"
  using parse_fid_tlv_no_panic [of tlv] by (simp add: take_fid_def)

text \<open>One step of each walk at a place where the source's guards let it go on.\<close>

lemma tlv_loop_step:
  assumes "inner + n \<le> stop_at" "stop_at \<le> length buf" "4 \<le> n" "rd_u16 buf (inner + 2) = Some n"
    and "take_fid k (buf ! inner) (take n (drop inner buf)) f = Some f'"
  shows "tlv_loop k buf inner stop_at f = tlv_loop k buf (inner + n) stop_at f'"
  using assms by (subst tlv_loop.simps) simp

lemma tlv_loop_cases:
  obtains (stop) "tlv_loop k buf inner stop_at f = Some f"
  | (step) n f' where "4 \<le> n" "inner + n \<le> stop_at" "tlv_loop k buf inner stop_at f = tlv_loop k buf (inner + n) stop_at f'"
  | (outside) "length buf < stop_at"
proof (cases "stop_at \<le> length buf \<and> inner + 4 \<le> stop_at")
  case True
  show thesis
  proof (cases "rd_u16 buf (inner + 2)")
    case None
    with True show thesis by (intro stop) (subst tlv_loop.simps, simp)
  next
    case (Some n)
    show thesis
    proof (cases "n < 4 \<or> inner + n > stop_at")
      case False
      obtain f' where "take_fid k (buf ! inner) (take n (drop inner buf)) f = Some f'"
        using take_fid_no_panic by blast
      with True Some False show thesis by (intro step [of n f'] tlv_loop_step) auto
    qed (use True Some in \<open>intro stop; subst tlv_loop.simps; simp\<close>)
  qed
next
  case False
  then consider "length buf < stop_at" | "\<not> inner + 4 \<le> stop_at" by linarith
  then show thesis
  proof cases
    case 2
    then show thesis by (intro stop) (subst tlv_loop.simps, simp)
  qed (rule outside)
qed

lemma tlv_loop_no_panic:
  assumes "stop_at \<le> length buf"
  shows "tlv_loop k buf inner stop_at f \<noteq> None"
proof (induction "stop_at - inner" arbitrary: inner f rule: less_induct)
  case less
  show ?case
  proof (cases rule: tlv_loop_cases [where k = k and buf = buf and inner = inner and stop_at = stop_at and f = f])
    case (step n f')
    then have "stop_at - (inner + n) < stop_at - inner" by linarith
    with less step(3) show ?thesis by simp
  qed (use assms in simp_all)
qed

text \<open>The state after the record at an offset; \<open>None\<close> is a panic in its info records.\<close>

definition mask_at :: "bytes \<Rightarrow> nat \<Rightarrow> u64" where
  "mask_at buf off = (case rd_u64 buf (off + OFF_MASK) of Some v \<Rightarrow> v | None \<Rightarrow> 0)"

definition with_fd :: "libc \<Rightarrow> bytes \<Rightarrow> nat \<Rightarrow> parsed \<Rightarrow> parsed" where
  "with_fd k buf off p =
     (let fd = (case rd_i32 buf (off + OFF_FD) of Some v \<Rightarrow> v | None \<Rightarrow> FAN_NOFD k)
      in if fd \<ge> 0 then p\<lparr>closed := closed p @ [fd]\<rparr> else p)"

definition after_record ::
  "libc \<Rightarrow> (Fid \<Rightarrow> string option) \<Rightarrow> bytes \<Rightarrow> nat \<Rightarrow> nat \<Rightarrow> parsed \<Rightarrow> parsed option" where
  "after_record k resolve buf off event_len p =
     (let p = with_fd k buf off p
      in if mask_at buf off AND FAN_Q_OVERFLOW k \<noteq> 0 then Some (p\<lparr>out := out p @ [QueueOverflow]\<rparr>)
         else map_option (\<lambda>f. let (evs, c) = record_events k resolve (mask_at buf off) f (next_cookie p)
                              in p\<lparr>out := out p @ evs, next_cookie := c\<rparr>)
           (tlv_loop k buf
              (off + max (case rd_u16 buf (off + OFF_META_LEN) of Some v \<Rightarrow> v | None \<Rightarrow> META_SIZE) META_SIZE)
              (off + event_len) \<lparr>dfid = None, old_fid = None, new_fid = None\<rparr>))"

lemma events_loop_step:
  assumes "rd_u32 buf (off + OFF_EVENT_LEN) = Some n" "buf ! (off + OFF_VERS) = FANOTIFY_METADATA_VERSION k"
    "META_SIZE \<le> n" "off + n \<le> length buf"
  shows "events_loop k resolve buf off p
    = Option.bind (after_record k resolve buf off n p) (events_loop k resolve buf (off + n))"
proof -
  have "off + META_SIZE \<le> length buf" "index_at buf (off + OFF_VERS) = Some (buf ! (off + OFF_VERS))"
    using assms by (simp_all add: META_SIZE_def OFF_VERS_def)
  then show ?thesis
    using assms
    by (subst events_loop.simps)
       (simp add: after_record_def with_fd_def mask_at_def Let_def Option.bind_map_option comp_def
         prod.case_distrib [of "events_loop k resolve buf (off + n)"])
qed

lemma after_record_no_panic: "off + n \<le> length buf \<Longrightarrow> after_record k resolve buf off n p \<noteq> None"
  using tlv_loop_no_panic by (simp add: after_record_def Let_def)

lemma events_loop_cases:
  obtains (stop) "events_loop k resolve buf off p = Some p"
  | (step) n p' where "META_SIZE \<le> n" "off + n \<le> length buf" "after_record k resolve buf off n p = Some p'"
      "events_loop k resolve buf off p = events_loop k resolve buf (off + n) p'"
proof (cases "off + META_SIZE \<le> length buf")
  case True
  then obtain n where n: "rd_u32 buf (off + OFF_EVENT_LEN) = Some n"
    by (auto simp: rd_u32_def get_range_def OFF_EVENT_LEN_def META_SIZE_def)
  have vers: "index_at buf (off + OFF_VERS) = Some (buf ! (off + OFF_VERS))"
    using True by (simp add: META_SIZE_def OFF_VERS_def)
  show thesis
  proof (cases "buf ! (off + OFF_VERS) \<noteq> FANOTIFY_METADATA_VERSION k \<or> n < META_SIZE \<or> off + n > length buf")
    case False
    then obtain p' where "after_record k resolve buf off n p = Some p'"
      using after_record_no_panic by (meson not_le option.exhaust)
    with False n show thesis
      using events_loop_step [of buf off n k resolve p] by (intro step [of n p']) auto
  qed (use True n vers in \<open>intro stop; subst events_loop.simps; simp\<close>)
qed (intro stop, subst events_loop.simps, simp)

lemma record_events_le_2: "length (fst (record_events k resolve m f c)) \<le> 2"
  by (auto simp: record_events_def Let_def split: if_splits option.splits)

lemma after_record_length:
  assumes "after_record k resolve buf off n p = Some p'"
  shows "length (out p') \<le> length (out p) + 2"
proof -
  have "out (with_fd k buf off p) = out p" by (simp add: with_fd_def Let_def)
  with assms show ?thesis
    by (auto simp: after_record_def Let_def case_prod_beta split: if_splits intro: record_events_le_2 [simplified])
qed

lemma events_loop_bounded:
  "\<exists>q. events_loop k resolve buf off p = Some q
     \<and> length (out q) \<le> length (out p) + 2 * ((length buf - off) div META_SIZE)"
proof (induction "length buf - off" arbitrary: off p rule: less_induct)
  case less
  show ?case
  proof (cases rule: events_loop_cases [where k = k and resolve = resolve and buf = buf and off = off and p = p])
    case (step n p')
    then have lt: "length buf - (off + n) < length buf - off" by (simp add: META_SIZE_def)
    from less [OF lt, of p'] step(4) obtain q where
      q: "events_loop k resolve buf off p = Some q"
      "length (out q) \<le> length (out p') + 2 * ((length buf - (off + n)) div META_SIZE)" by auto
    have "(length buf - (off + n)) div META_SIZE + 1 = (length buf - (off + n) + META_SIZE) div META_SIZE"
      by (simp add: META_SIZE_def)
    also have "\<dots> \<le> (length buf - off) div META_SIZE"
      using step(1,2) by (intro div_le_mono) linarith
    finally have "2 * ((length buf - (off + n)) div META_SIZE) + 2 \<le> 2 * ((length buf - off) div META_SIZE)"
      by linarith
    with q after_record_length [OF step(3)] show ?thesis by (intro exI [of _ q]) linarith
  qed simp
qed

section \<open>Specification: what the kernel writes\<close>

datatype kernel_event =
    KOverflow
  | KCreate Fid
  | KModify Fid
  | KDelete Fid
  | KMovedFrom Fid
  | KMovedTo Fid
  | KRename Fid Fid

definition fid_tlv :: "u8 \<Rightarrow> Fid \<Rightarrow> bytes" where
  "fid_tlv info_type f =
     [info_type, 0] @ le_bytes 2 (21 + length (handle f) + length (fid_name f)) @ replicate 8 0
     @ le_bytes 4 (length (handle f)) @ le_bytes 4 (unat (of_int (handle_type f) :: u32))
     @ handle f @ fid_name f @ [0]"

definition kernel_record :: "libc \<Rightarrow> u64 \<Rightarrow> bytes \<Rightarrow> bytes" where
  "kernel_record k m tlvs =
     le_bytes 4 (24 + length tlvs) @ [FANOTIFY_METADATA_VERSION k, 0] @ le_bytes 2 24 @ le_bytes 8 (unat m)
     @ le_bytes 4 (2 ^ 32 - 1) @ le_bytes 4 0 @ tlvs"

fun encode :: "libc \<Rightarrow> kernel_event \<Rightarrow> bytes" where
  "encode k KOverflow = kernel_record k (FAN_Q_OVERFLOW k) []"
| "encode k (KCreate f) = kernel_record k (FAN_CREATE k) (fid_tlv (INFO_TYPE_DFID_NAME k) f)"
| "encode k (KModify f) = kernel_record k (FAN_MODIFY k) (fid_tlv (INFO_TYPE_DFID_NAME k) f)"
| "encode k (KDelete f) = kernel_record k (FAN_DELETE k) (fid_tlv (INFO_TYPE_DFID_NAME k) f)"
| "encode k (KMovedFrom f) = kernel_record k (FAN_MOVED_FROM k) (fid_tlv (INFO_TYPE_DFID_NAME k) f)"
| "encode k (KMovedTo f) = kernel_record k (FAN_MOVED_TO k) (fid_tlv (INFO_TYPE_DFID_NAME k) f)"
| "encode k (KRename a b) = kernel_record k (FAN_RENAME k)
     (fid_tlv (INFO_TYPE_OLD_DFID_NAME k) a @ fid_tlv (INFO_TYPE_NEW_DFID_NAME k) b)"

text \<open>What each event means, with fresh cookies for moves; an entry that no longer resolves is dropped.\<close>

definition one :: "(string \<Rightarrow> RawEvent) \<Rightarrow> string option \<Rightarrow> RawEvent list" where
  "one ev p = (case p of Some s \<Rightarrow> [ev s] | None \<Rightarrow> [])"

fun meaning :: "(Fid \<Rightarrow> string option) \<Rightarrow> u32 \<Rightarrow> kernel_event \<Rightarrow> RawEvent list" where
  "meaning r c KOverflow = [QueueOverflow]"
| "meaning r c (KCreate f) = one RawEvent.Created (r f)"
| "meaning r c (KModify f) = one RawEvent.Modified (r f)"
| "meaning r c (KDelete f) = one RawEvent.Deleted (r f)"
| "meaning r c (KMovedFrom f) = one (MovedFrom c) (r f)"
| "meaning r c (KMovedTo f) = one (MovedTo c) (r f)"
| "meaning r c (KRename a b) = one (MovedFrom c) (r a) @ one (MovedTo c) (r b)"

definition is_move :: "RawEvent \<Rightarrow> bool" where
  "is_move ev = (case ev of MovedFrom _ _ \<Rightarrow> True | MovedTo _ _ \<Rightarrow> True | _ \<Rightarrow> False)"

fun meanings :: "(Fid \<Rightarrow> string option) \<Rightarrow> u32 \<Rightarrow> kernel_event list \<Rightarrow> RawEvent list \<times> u32" where
  "meanings r c [] = ([], c)"
| "meanings r c (e # es) =
     (let evs = meaning r c e;
          (rest, c') = meanings r (if list_ex is_move evs then c + 1 else c) es
      in (evs @ rest, c'))"

text \<open>The assumptions on the constants: separate bits and separate record types, as documented for the
  kernel interface; and a directory entry that fits in a record, with a name that is valid UTF-8.\<close>

definition mask_flags :: "libc \<Rightarrow> u64 list" where
  "mask_flags k = [FAN_Q_OVERFLOW k, FAN_RENAME k, FAN_DELETE k, FAN_MOVED_FROM k, FAN_MOVED_TO k,
     FAN_CREATE k, FAN_MODIFY k]"

definition flags_ok :: "libc \<Rightarrow> bool" where
  "flags_ok k \<longleftrightarrow> list_all (\<lambda>m. m \<noteq> 0) (mask_flags k) \<and> sorted_wrt (\<lambda>m m'. m AND m' = 0) (mask_flags k)
     \<and> distinct [INFO_TYPE_DFID_NAME k, INFO_TYPE_OLD_DFID_NAME k, INFO_TYPE_NEW_DFID_NAME k]"

definition fid_ok :: "Fid \<Rightarrow> bool" where
  "fid_ok f \<longleftrightarrow> length (handle f) + length (fid_name f) < 2 ^ 15 \<and> - (2 ^ 31) \<le> handle_type f
     \<and> handle_type f < 2 ^ 31 \<and> 0 \<notin> set (fid_name f) \<and> from_utf8_lossy (fid_name f) = fid_name f"

fun event_ok :: "kernel_event \<Rightarrow> bool" where
  "event_ok KOverflow = True"
| "event_ok (KCreate f) = fid_ok f"
| "event_ok (KModify f) = fid_ok f"
| "event_ok (KDelete f) = fid_ok f"
| "event_ok (KMovedFrom f) = fid_ok f"
| "event_ok (KMovedTo f) = fid_ok f"
| "event_ok (KRename a b) = (fid_ok a \<and> fid_ok b)"

section \<open>Lemmas on reading back\<close>

lemma le_value_le_bytes: "v < 256 ^ n \<Longrightarrow> le_value (le_bytes n v) = v"
  by (simp add: le_value_def le_bytes_def be_value_be_bytes)

lemma get_range_here: "length xs = n \<Longrightarrow> get_range (xs @ ys) 0 n = Some xs"
  by (simp add: get_range_def)

lemma get_range_skip: "length xs \<le> i \<Longrightarrow> get_range (xs @ ys) i n = get_range ys (i - length xs) n"
  by (auto simp: get_range_def)

lemma get_range_Cons: "0 < i \<Longrightarrow> get_range (x # xs) i n = get_range xs (i - 1) n"
  using get_range_skip [of "[x]" i xs n] by simp

lemma nth_skip: "length xs \<le> i \<Longrightarrow> (xs @ ys) ! i = ys ! (i - length xs)"
  by (simp add: nth_append)

lemmas reads = rd_u16_def rd_u32_def rd_i32_def rd_u64_def get_range_skip get_range_Cons get_range_here nth_skip

lemma length_fid_tlv: "length (fid_tlv t f) = 21 + length (handle f) + length (fid_name f)"
  by (simp add: fid_tlv_def)

lemma length_kernel_record: "length (kernel_record k m tlvs) = 24 + length tlvs"
  by (simp add: kernel_record_def)

lemma parse_fid_tlv_encoded:
  assumes "fid_ok f"
  shows "parse_fid_tlv (fid_tlv t f) = Some (Some f)"
proof -
  let ?h = "length (handle f)" and ?tlv = "fid_tlv t f"
  define pre where "pre = [t, 0] @ le_bytes 2 (21 + ?h + length (fid_name f)) @ replicate 8 (0 :: u8)"
  have lp: "length pre = 12" by (simp add: pre_def)
  have tlv: "?tlv = pre @ le_bytes 4 ?h @ le_bytes 4 (unat (of_int (handle_type f) :: u32))
      @ handle f @ fid_name f @ [0]"
    by (simp add: fid_tlv_def pre_def)
  have r1: "rd_u32 ?tlv 12 = Some ?h"
    using assms by (simp add: tlv reads lp le_value_le_bytes fid_ok_def)
  have "unat (of_int (handle_type f) :: u32) < 256 ^ 4" using unsigned_less [of "of_int (handle_type f) :: u32"] by simp
  then have "le_value (le_bytes 4 (unat (of_int (handle_type f) :: u32))) = unat (of_int (handle_type f) :: u32)"
    by (rule le_value_le_bytes)
  moreover have "sint (of_int (handle_type f) :: u32) = handle_type f"
    using assms by (simp add: fid_ok_def signed_of_int signed_take_bit_int_eq_self)
  ultimately have r2: "rd_i32 ?tlv 16 = Some (handle_type f)"
    by (simp add: tlv reads lp)
  have "takeWhile (\<lambda>b. b \<noteq> 0) (fid_name f @ [0]) = fid_name f"
    using assms by (subst takeWhile_append2) (auto simp: fid_ok_def)
  with r1 r2 assms show ?thesis
    by (simp add: parse_fid_tlv_def Let_def length_fid_tlv tlv lp fid_ok_def)
qed

lemma take_fid_encoded:
  assumes "flags_ok k" and "fid_ok f"
  shows "take_fid k (INFO_TYPE_DFID_NAME k) (fid_tlv t f) fs = Some (fs\<lparr>dfid := Some f\<rparr>)"
    "take_fid k (INFO_TYPE_OLD_DFID_NAME k) (fid_tlv t f) fs = Some (fs\<lparr>old_fid := Some f\<rparr>)"
    "take_fid k (INFO_TYPE_NEW_DFID_NAME k) (fid_tlv t f) fs = Some (fs\<lparr>new_fid := Some f\<rparr>)"
  using assms by (auto simp: take_fid_def parse_fid_tlv_encoded flags_ok_def)

lemma tlv_loop_encoded:
  assumes "fid_ok f" and "buf = pre @ fid_tlv t f @ post" and "inner = length pre"
    and "length pre + length (fid_tlv t f) \<le> stop_at" "stop_at \<le> length buf"
    and "take_fid k t (fid_tlv t f) fs = Some fs'"
  shows "tlv_loop k buf inner stop_at fs = tlv_loop k buf (length (pre @ fid_tlv t f)) stop_at fs'"
proof -
  let ?n = "21 + length (handle f) + length (fid_name f)"
  have "rd_u16 buf (inner + 2) = Some ?n"
    using assms(1) by (simp add: assms(2,3) reads fid_tlv_def le_value_le_bytes fid_ok_def)
  moreover have "take ?n (drop inner buf) = fid_tlv t f" "buf ! inner = t"
    by (simp_all add: assms(2,3) length_fid_tlv nth_append) (simp add: fid_tlv_def)
  ultimately show ?thesis
    using tlv_loop_step [of inner ?n stop_at buf k fs fs'] assms by (simp add: length_fid_tlv)
qed

lemma tlv_loop_end: "tlv_loop k buf n n fs = Some fs"
  by (subst tlv_loop.simps) simp

lemma sint_minus_1: "sint (of_nat (2 ^ 32 - 1) :: u32) = - 1"
  by simp

lemma kernel_header:
  assumes "length tlvs < 2 ^ 31" and "buf = pre @ kernel_record k m tlvs @ post"
  shows "rd_u32 buf (length pre + OFF_EVENT_LEN) = Some (24 + length tlvs)"
    "buf ! (length pre + OFF_VERS) = FANOTIFY_METADATA_VERSION k"
    "mask_at buf (length pre) = m" "with_fd k buf (length pre) p = p"
    "rd_u16 buf (length pre + OFF_META_LEN) = Some 24"
proof -
  note offs = OFF_EVENT_LEN_def OFF_VERS_def OFF_MASK_def OFF_FD_def OFF_META_LEN_def
  show "rd_u32 buf (length pre + OFF_EVENT_LEN) = Some (24 + length tlvs)"
    using assms(1) by (simp add: assms(2) kernel_record_def reads offs le_value_le_bytes)
  show "buf ! (length pre + OFF_VERS) = FANOTIFY_METADATA_VERSION k"
    by (simp add: assms(2) kernel_record_def reads offs)
  have "unat m < 256 ^ 8" using unsigned_less [of m] by simp
  then have "le_value (le_bytes 8 (unat m)) = unat m" by (rule le_value_le_bytes)
  then show "mask_at buf (length pre) = m"
    by (simp add: assms(2) kernel_record_def reads offs mask_at_def)
  have "le_value (le_bytes 4 (2 ^ 32 - 1)) = 2 ^ 32 - 1" by (rule le_value_le_bytes) simp
  then have "rd_i32 buf (length pre + OFF_FD) = Some (- 1)"
    using sint_minus_1 by (simp add: assms(2) kernel_record_def reads offs)
  then show "with_fd k buf (length pre) p = p" by (simp add: with_fd_def)
  show "rd_u16 buf (length pre + OFF_META_LEN) = Some 24"
    by (simp add: assms(2) kernel_record_def reads offs le_value_le_bytes)
qed

lemma after_kernel_record:
  assumes "length tlvs < 2 ^ 31" and "buf = pre @ kernel_record k m tlvs @ post"
    and "m AND FAN_Q_OVERFLOW k = 0"
    and "tlv_loop k buf (length pre + 24) (length pre + (24 + length tlvs))
      \<lparr>dfid = None, old_fid = None, new_fid = None\<rparr> = Some fs"
    and "record_events k resolve m fs (next_cookie p) = (evs, c)"
  shows "after_record k resolve buf (length pre) (24 + length tlvs) p
    = Some (p\<lparr>out := out p @ evs, next_cookie := c\<rparr>)"
  using assms(3-5) by (simp add: after_record_def kernel_header [OF assms(1,2)] META_SIZE_def)

lemma kernel_record_split:
  "\<exists>h. length h = 24 \<and> kernel_record k m tlvs = h @ tlvs"
  by (intro exI [of _ "take 24 (kernel_record k m tlvs)"]) (simp add: kernel_record_def)

text \<open>The record of one directory entry, and that of a rename with two.\<close>

lemma entry_record:
  assumes "flags_ok k" "fid_ok f" and "buf = pre @ kernel_record k m (fid_tlv (INFO_TYPE_DFID_NAME k) f) @ post"
    and "m AND FAN_Q_OVERFLOW k = 0"
    and "record_events k resolve m \<lparr>dfid = Some f, old_fid = None, new_fid = None\<rparr> (next_cookie p) = (evs, c)"
  shows "after_record k resolve buf (length pre) (24 + length (fid_tlv (INFO_TYPE_DFID_NAME k) f)) p
    = Some (p\<lparr>out := out p @ evs, next_cookie := c\<rparr>)"
proof -
  let ?tlv = "fid_tlv (INFO_TYPE_DFID_NAME k) f"
  obtain h where h: "length h = 24" "kernel_record k m ?tlv = h @ ?tlv" using kernel_record_split by blast
  have "tlv_loop k buf (length pre + 24) (length pre + (24 + length ?tlv)) \<lparr>dfid = None, old_fid = None, new_fid = None\<rparr>
      = tlv_loop k buf (length ((pre @ h) @ ?tlv)) (length pre + (24 + length ?tlv))
          \<lparr>dfid = Some f, old_fid = None, new_fid = None\<rparr>"
    using assms(1-3) h by (intro tlv_loop_encoded) (simp_all add: take_fid_encoded)
  with h have "tlv_loop k buf (length pre + 24) (length pre + (24 + length ?tlv))
      \<lparr>dfid = None, old_fid = None, new_fid = None\<rparr> = Some \<lparr>dfid = Some f, old_fid = None, new_fid = None\<rparr>"
    by (simp add: tlv_loop_end)
  moreover have "length ?tlv < 2 ^ 31" using assms(2) by (simp add: length_fid_tlv fid_ok_def)
  ultimately show ?thesis using assms(3-5) by (intro after_kernel_record)
qed

lemma rename_record:
  assumes "flags_ok k" "fid_ok a" "fid_ok b"
    and "tlvs = fid_tlv (INFO_TYPE_OLD_DFID_NAME k) a @ fid_tlv (INFO_TYPE_NEW_DFID_NAME k) b"
    and "buf = pre @ kernel_record k m tlvs @ post" and "m AND FAN_Q_OVERFLOW k = 0"
    and "record_events k resolve m \<lparr>dfid = None, old_fid = Some a, new_fid = Some b\<rparr> (next_cookie p) = (evs, c)"
  shows "after_record k resolve buf (length pre) (24 + length tlvs) p
    = Some (p\<lparr>out := out p @ evs, next_cookie := c\<rparr>)"
proof -
  let ?a = "fid_tlv (INFO_TYPE_OLD_DFID_NAME k) a" and ?b = "fid_tlv (INFO_TYPE_NEW_DFID_NAME k) b"
  let ?none = "\<lparr>dfid = None, old_fid = None, new_fid = None\<rparr>"
  obtain h where h: "length h = 24" "kernel_record k m tlvs = h @ tlvs" using kernel_record_split by blast
  have "tlv_loop k buf (length pre + 24) (length pre + (24 + length tlvs)) ?none
      = tlv_loop k buf (length ((pre @ h) @ ?a)) (length pre + (24 + length tlvs)) (?none\<lparr>old_fid := Some a\<rparr>)"
    using assms(1-5) h by (intro tlv_loop_encoded [where post = "?b @ post"]) (simp_all add: take_fid_encoded)
  also have "\<dots> = tlv_loop k buf (length (((pre @ h) @ ?a) @ ?b)) (length pre + (24 + length tlvs))
      (?none\<lparr>old_fid := Some a, new_fid := Some b\<rparr>)"
    using assms(1-5) h by (intro tlv_loop_encoded [where post = post]) (simp_all add: take_fid_encoded)
  also have "\<dots> = Some \<lparr>dfid = None, old_fid = Some a, new_fid = Some b\<rparr>"
    using h assms(4) by (simp add: tlv_loop_end)
  finally have "tlv_loop k buf (length pre + 24) (length pre + (24 + length tlvs)) ?none
      = Some \<lparr>dfid = None, old_fid = Some a, new_fid = Some b\<rparr>" .
  moreover have "length tlvs < 2 ^ 31" using assms(2-4) by (simp add: length_fid_tlv fid_ok_def)
  ultimately show ?thesis using assms(5-7) by (intro after_kernel_record)
qed

lemma flags_disjoint:
  assumes "flags_ok k"
  shows "i < length (mask_flags k) \<Longrightarrow> j < length (mask_flags k) \<Longrightarrow>
    (mask_flags k ! i AND mask_flags k ! j = 0) \<longleftrightarrow> i \<noteq> j"
proof -
  assume ij: "i < length (mask_flags k)" "j < length (mask_flags k)"
  have d: "mask_flags k ! i AND mask_flags k ! j = 0" if "i < j" "j < length (mask_flags k)" for i j
    using assms that sorted_wrt_nth_less [of "\<lambda>m m'. m AND m' = 0" "mask_flags k" i j] by (simp add: flags_ok_def)
  have "mask_flags k ! i \<noteq> 0" using assms ij by (simp add: flags_ok_def list_all_length)
  then show ?thesis using d [of i j] d [of j i] ij by (cases i j rule: linorder_cases) (auto simp: and.commute)
qed

lemma flag_tests:
  assumes "flags_ok k"
  shows "m \<in> set (mask_flags k) \<Longrightarrow> m AND m \<noteq> 0"
    and "FAN_RENAME k AND FAN_Q_OVERFLOW k = 0" "FAN_DELETE k AND FAN_Q_OVERFLOW k = 0"
    "FAN_DELETE k AND FAN_RENAME k = 0" "FAN_MOVED_FROM k AND FAN_Q_OVERFLOW k = 0"
    "FAN_MOVED_FROM k AND FAN_RENAME k = 0" "FAN_MOVED_FROM k AND FAN_DELETE k = 0"
    "FAN_MOVED_TO k AND FAN_Q_OVERFLOW k = 0" "FAN_MOVED_TO k AND FAN_RENAME k = 0"
    "FAN_MOVED_TO k AND FAN_DELETE k = 0" "FAN_MOVED_TO k AND FAN_MOVED_FROM k = 0"
    "FAN_CREATE k AND FAN_Q_OVERFLOW k = 0" "FAN_CREATE k AND FAN_RENAME k = 0"
    "FAN_CREATE k AND FAN_DELETE k = 0" "FAN_CREATE k AND FAN_MOVED_FROM k = 0"
    "FAN_CREATE k AND FAN_MOVED_TO k = 0"
    "FAN_MODIFY k AND FAN_Q_OVERFLOW k = 0" "FAN_MODIFY k AND FAN_RENAME k = 0"
    "FAN_MODIFY k AND FAN_DELETE k = 0" "FAN_MODIFY k AND FAN_MOVED_FROM k = 0"
    "FAN_MODIFY k AND FAN_MOVED_TO k = 0" "FAN_MODIFY k AND FAN_CREATE k = 0"
proof -
  have nth: "mask_flags k ! 0 = FAN_Q_OVERFLOW k" "mask_flags k ! 1 = FAN_RENAME k" "mask_flags k ! 2 = FAN_DELETE k"
    "mask_flags k ! 3 = FAN_MOVED_FROM k" "mask_flags k ! 4 = FAN_MOVED_TO k" "mask_flags k ! 5 = FAN_CREATE k"
    "mask_flags k ! 6 = FAN_MODIFY k" "length (mask_flags k) = 7"
    by (simp_all add: mask_flags_def)
  note d = flags_disjoint [OF assms, unfolded nth(8)]
  show "m \<in> set (mask_flags k) \<Longrightarrow> m AND m \<noteq> 0"
    using assms by (auto simp: flags_ok_def list_all_iff)
  show "FAN_RENAME k AND FAN_Q_OVERFLOW k = 0" using d [of 1 0] nth by simp
  show "FAN_DELETE k AND FAN_Q_OVERFLOW k = 0" "FAN_DELETE k AND FAN_RENAME k = 0"
    using d [of 2 0] d [of 2 1] nth by simp_all
  show "FAN_MOVED_FROM k AND FAN_Q_OVERFLOW k = 0" "FAN_MOVED_FROM k AND FAN_RENAME k = 0"
    "FAN_MOVED_FROM k AND FAN_DELETE k = 0"
    using d [of 3 0] d [of 3 1] d [of 3 2] nth by simp_all
  show "FAN_MOVED_TO k AND FAN_Q_OVERFLOW k = 0" "FAN_MOVED_TO k AND FAN_RENAME k = 0"
    "FAN_MOVED_TO k AND FAN_DELETE k = 0" "FAN_MOVED_TO k AND FAN_MOVED_FROM k = 0"
    using d [of 4 0] d [of 4 1] d [of 4 2] d [of 4 3] nth by simp_all
  show "FAN_CREATE k AND FAN_Q_OVERFLOW k = 0" "FAN_CREATE k AND FAN_RENAME k = 0"
    "FAN_CREATE k AND FAN_DELETE k = 0" "FAN_CREATE k AND FAN_MOVED_FROM k = 0" "FAN_CREATE k AND FAN_MOVED_TO k = 0"
    using d [of 5 0] d [of 5 1] d [of 5 2] d [of 5 3] d [of 5 4] nth by simp_all
  show "FAN_MODIFY k AND FAN_Q_OVERFLOW k = 0" "FAN_MODIFY k AND FAN_RENAME k = 0"
    "FAN_MODIFY k AND FAN_DELETE k = 0" "FAN_MODIFY k AND FAN_MOVED_FROM k = 0"
    "FAN_MODIFY k AND FAN_MOVED_TO k = 0" "FAN_MODIFY k AND FAN_CREATE k = 0"
    using d [of 6 0] d [of 6 1] d [of 6 2] d [of 6 3] d [of 6 4] d [of 6 5] nth by simp_all
qed

lemma flag_set [simp]:
  assumes "flags_ok k"
  shows "FAN_Q_OVERFLOW k \<noteq> 0" "FAN_RENAME k \<noteq> 0" "FAN_DELETE k \<noteq> 0" "FAN_MOVED_FROM k \<noteq> 0"
    "FAN_MOVED_TO k \<noteq> 0" "FAN_CREATE k \<noteq> 0" "FAN_MODIFY k \<noteq> 0"
  using assms by (simp_all add: flags_ok_def mask_flags_def)

lemma after_encoded:
  assumes "flags_ok k" "event_ok e" and "buf = pre @ encode k e @ post"
  shows "after_record k resolve buf (length pre) (length (encode k e)) p
    = Some (p\<lparr>out := out p @ meaning resolve (next_cookie p) e,
        next_cookie := if list_ex is_move (meaning resolve (next_cookie p) e) then next_cookie p + 1 else next_cookie p\<rparr>)"
proof -
  note record_simps = record_events_def one_def is_move_def
  have entry: ?thesis
    if "fid_ok f" "encode k e = kernel_record k m (fid_tlv (INFO_TYPE_DFID_NAME k) f)" "m AND FAN_Q_OVERFLOW k = 0"
      "record_events k resolve m \<lparr>dfid = Some f, old_fid = None, new_fid = None\<rparr> (next_cookie p)
        = (meaning resolve (next_cookie p) e,
           if list_ex is_move (meaning resolve (next_cookie p) e) then next_cookie p + 1 else next_cookie p)" for f m
    using entry_record [OF assms(1) that(1) _ that(3,4)] assms(3) that(2) by (simp add: length_kernel_record)
  show ?thesis
  proof (cases e)
    case KOverflow
    with assms have "buf = pre @ kernel_record k (FAN_Q_OVERFLOW k) [] @ post" by simp
    from kernel_header [OF _ this]
    have "after_record k resolve buf (length pre) 24 p = Some (p\<lparr>out := out p @ [QueueOverflow]\<rparr>)"
      using assms(1) by (simp add: after_record_def)
    with KOverflow show ?thesis by (simp add: length_kernel_record is_move_def)
  next
    case (KRename a b)
    note f = flag_tests [OF assms(1)]
    let ?tlvs = "fid_tlv (INFO_TYPE_OLD_DFID_NAME k) a @ fid_tlv (INFO_TYPE_NEW_DFID_NAME k) b"
    have "record_events k resolve (FAN_RENAME k) \<lparr>dfid = None, old_fid = Some a, new_fid = Some b\<rparr> (next_cookie p)
        = (meaning resolve (next_cookie p) e,
           if list_ex is_move (meaning resolve (next_cookie p) e) then next_cookie p + 1 else next_cookie p)"
      using assms(1) KRename by (simp add: record_events_def one_def is_move_def split: option.split)
    then show ?thesis
      using KRename assms f(2) by (simp only: encode.simps event_ok.simps length_kernel_record) (rule rename_record; simp)
  next
    case (KCreate f)
    with assms(1,2) show ?thesis
      by (intro entry [of f "FAN_CREATE k"]) (simp_all add: flag_tests record_simps split: option.split)
  next
    case (KModify f)
    with assms(1,2) show ?thesis
      by (intro entry [of f "FAN_MODIFY k"]) (simp_all add: flag_tests record_simps split: option.split)
  next
    case (KDelete f)
    with assms(1,2) show ?thesis
      by (intro entry [of f "FAN_DELETE k"]) (simp_all add: flag_tests record_simps split: option.split)
  next
    case (KMovedFrom f)
    with assms(1,2) show ?thesis
      by (intro entry [of f "FAN_MOVED_FROM k"]) (simp_all add: flag_tests record_simps split: option.split)
  next
    case (KMovedTo f)
    with assms(1,2) show ?thesis
      by (intro entry [of f "FAN_MOVED_TO k"]) (simp_all add: flag_tests record_simps split: option.split)
  qed
qed

lemma length_encode: "META_SIZE \<le> length (encode k e)" "event_ok e \<Longrightarrow> length (encode k e) < 2 ^ 31"
  by (cases e; simp add: length_kernel_record length_fid_tlv META_SIZE_def fid_ok_def)+

lemma encode_record: "\<exists>m tlvs. encode k e = kernel_record k m tlvs"
  by (cases e) auto

lemma events_loop_encoded:
  assumes "flags_ok k" and "list_all event_ok es" and "buf = pre @ concat (map (encode k) es)"
  shows "events_loop k resolve buf (length pre) p
    = Some (p\<lparr>out := out p @ fst (meanings resolve (next_cookie p) es),
        next_cookie := snd (meanings resolve (next_cookie p) es)\<rparr>)"
  using assms(2,3)
proof (induction es arbitrary: pre p)
  case Nil
  then show ?case by (subst events_loop.simps) (simp add: META_SIZE_def)
next
  case (Cons e es)
  let ?rest = "concat (map (encode k) es)" and ?evs = "meaning resolve (next_cookie p) e"
  let ?p = "p\<lparr>out := out p @ ?evs,
      next_cookie := if list_ex is_move ?evs then next_cookie p + 1 else next_cookie p\<rparr>"
  have e: "event_ok e" and buf: "buf = pre @ encode k e @ ?rest" "buf = (pre @ encode k e) @ ?rest"
    using Cons.prems by simp_all
  obtain m tlvs where r: "encode k e = kernel_record k m tlvs" using encode_record by blast
  then have t: "length tlvs < 2 ^ 31" "length (encode k e) = 24 + length tlvs"
    using length_encode(2) [OF e, of k] by (simp_all add: length_kernel_record)
  note header = kernel_header [OF t(1) buf(1) [unfolded r]]
  have "events_loop k resolve buf (length pre) p
      = Option.bind (after_record k resolve buf (length pre) (length (encode k e)) p)
          (events_loop k resolve buf (length pre + length (encode k e)))"
    using header(1,2) t(2) buf(1) by (intro events_loop_step) (simp_all add: META_SIZE_def)
  also have "\<dots> = events_loop k resolve buf (length (pre @ encode k e)) ?p"
    by (simp add: after_encoded [OF assms(1) e buf(1)])
  also have "\<dots> = Some (?p\<lparr>out := out ?p @ fst (meanings resolve (next_cookie ?p) es),
      next_cookie := snd (meanings resolve (next_cookie ?p) es)\<rparr>)"
    using Cons.prems buf(2) by (intro Cons.IH) simp_all
  finally show ?case by (simp add: Let_def case_prod_beta)
qed

section \<open>Properties\<close>

text \<open>The parser is safe on every byte buffer: no index or slice is out of range, the walks end, and the
  number of events is at most two per metadata header that fits in the buffer.\<close>

theorem parse_events_total:
  "\<exists>q. parse_events k resolve cookie buf = Some q \<and> length (out q) \<le> 2 * (length buf div 24)"
  using events_loop_bounded [of k resolve buf 0 "\<lparr>out = [], next_cookie = cookie, closed = []\<rparr>"]
  by (simp add: parse_events_def META_SIZE_def)

text \<open>Parsing inverts the kernel's encoding. A buffer that holds any sequence of well-formed records is
  read as the events they stand for, in order, each rename as a pair with one cookie of its own, and
  entries whose handle no longer resolves are left out.\<close>

theorem parse_encoded_events:
  assumes "flags_ok k" and "list_all event_ok es"
  shows "parse_events k resolve cookie (concat (map (encode k) es))
    = Some \<lparr>out = fst (meanings resolve cookie es), next_cookie = snd (meanings resolve cookie es), closed = []\<rparr>"
  using events_loop_encoded [OF assms, where pre = "[]" and resolve = resolve
      and p = "\<lparr>out = [], next_cookie = cookie, closed = []\<rparr>"]
  by (simp add: parse_events_def)

text \<open>The constants of Linux.\<close>

definition linux :: libc where
  "linux = \<lparr>FANOTIFY_METADATA_VERSION = 3, FAN_NOFD = - 1, FAN_Q_OVERFLOW = 0x4000, FAN_RENAME = 0x10000000,
     FAN_DELETE = 0x200, FAN_MOVED_FROM = 0x40, FAN_MOVED_TO = 0x80, FAN_CREATE = 0x100, FAN_MODIFY = 2,
     INFO_TYPE_DFID_NAME = 2, INFO_TYPE_OLD_DFID_NAME = 10, INFO_TYPE_NEW_DFID_NAME = 12\<rparr>"

definition entry_named :: "bytes \<Rightarrow> Fid" where
  "entry_named n = \<lparr>handle_type = 1, handle = [0xde, 0xad], fid_name = n\<rparr>"

definition in_root :: "Fid \<Rightarrow> string option" where
  "in_root f = Some (''/root/'' @ map (\<lambda>b. char_of (unat b)) (fid_name f))"

lemma linux_flags: "flags_ok linux"
  by (simp add: flags_ok_def mask_flags_def linux_def)

lemma lossy_letter: "b < 0x80 \<Longrightarrow> from_utf8_lossy [b] = [b]"
  by (simp add: Let_def utf8_good_def utf8_width_def)

theorem parse_encoded_events_witness:
  "parse_events linux in_root 7 (encode linux (KRename (entry_named [97]) (entry_named [98]))
      @ encode linux (KCreate (entry_named [99])))
    = Some \<lparr>out = [MovedFrom 7 ''/root/a'', MovedTo 7 ''/root/b'', RawEvent.Created ''/root/c''],
        next_cookie = 8, closed = []\<rparr>"
proof -
  let ?es = "[KRename (entry_named [97]) (entry_named [98]), KCreate (entry_named [99])]"
  have "list_all event_ok ?es"
    by (simp add: fid_ok_def entry_named_def lossy_letter del: from_utf8_lossy.simps)
  from parse_encoded_events [OF linux_flags this, of in_root 7]
  show ?thesis by (simp add: one_def in_root_def entry_named_def is_move_def char_of_def bit_iff_odd)
qed

end
