(* ===== verification/Cloud_Ledger.thy ===== *)
theory Cloud_Ledger
  imports Json
begin

text \<open>
  The ledger of OneDrive cloud writes (\<^verbatim>\<open>cloud_write_operations\<close> of \<^verbatim>\<open>store/src/lib.rs\<close>): the kinds of
  operation, the row, and the statements on the table. The JSON text of an intent is held as the value
  \<^verbatim>\<open>serde_json\<close> reads from it, \<open>None\<close> when there is none or it is malformed. The table keeps its rows in the
  order of insertion.
\<close>

section \<open>Kinds and rows\<close>

datatype CloudOpKind = Create | Upload | Replace | Rename | Move | Delete | Share

primrec cloud_as_str :: "CloudOpKind \<Rightarrow> string" where
  "cloud_as_str Create = ''create''"
| "cloud_as_str Upload = ''upload''"
| "cloud_as_str Replace = ''replace''"
| "cloud_as_str Rename = ''rename''"
| "cloud_as_str Move = ''move''"
| "cloud_as_str Delete = ''delete''"
| "cloud_as_str Share = ''share''"

definition cloud_parse :: "string \<Rightarrow> CloudOpKind option" where
  "cloud_parse s =
     (if s = ''create'' then Some Create
      else if s = ''upload'' then Some Upload
      else if s = ''replace'' then Some Replace
      else if s = ''rename'' then Some Rename
      else if s = ''move'' then Some Move
      else if s = ''delete'' then Some Delete
      else if s = ''share'' then Some Share
      else None)"

definition is_blind_replay_safe :: "CloudOpKind \<Rightarrow> bool" where
  "is_blind_replay_safe kind \<longleftrightarrow> kind = Delete"

interpretation cloud_wire: wire_enum cloud_as_str cloud_parse
proof
  show "cloud_parse (cloud_as_str s) = Some s" for s by (cases s) (simp_all add: cloud_parse_def)
  show "cloud_parse t = Some s \<Longrightarrow> t = cloud_as_str s" for t s
    by (auto simp: cloud_parse_def split: if_splits)
qed

record CloudWriteOp =
  cw_op_id :: string
  cw_account_id :: string
  cw_service :: string
  cw_op_kind :: string
  cw_target_id :: "string option"
  cw_idempotency_key :: string
  cw_if_match_etag :: "string option"
  cw_state :: string
  cw_result_id :: "string option"
  cw_intent_json :: "json option"
  cw_attempts :: int
  cw_last_error :: "string option"

record cloud_row = CloudWriteOp +
  cw_created_at :: int
  cw_updated_at :: int

type_synonym cloud_ledger = "cloud_row list"

definition row_to_cloud_write :: "cloud_row \<Rightarrow> CloudWriteOp" where
  "row_to_cloud_write r = CloudWriteOp.truncate r"

section \<open>Statements\<close>

text \<open>\<^verbatim>\<open>INSERT OR IGNORE\<close>: a row with the operation id, or with the account and key, stands in the way.\<close>

definition record_cloud_write :: "CloudWriteOp \<Rightarrow> int \<Rightarrow> cloud_ledger \<Rightarrow> bool \<times> cloud_ledger" where
  "record_cloud_write op now rows =
     (if \<exists>r \<in> set rows. cw_op_id r = cw_op_id op
           \<or> cw_account_id r = cw_account_id op \<and> cw_idempotency_key r = cw_idempotency_key op
      then (False, rows)
      else (True, rows @ [CloudWriteOp.extend op \<lparr>cw_created_at = now, cw_updated_at = now\<rparr>]))"

definition cloud_write_by_key :: "string \<Rightarrow> string \<Rightarrow> cloud_ledger \<Rightarrow> CloudWriteOp option" where
  "cloud_write_by_key account key rows =
     map_option row_to_cloud_write
       (List.find (\<lambda>r. cw_account_id r = account \<and> cw_idempotency_key r = key) rows)"

definition set_cloud_write_state ::
  "string \<Rightarrow> string \<Rightarrow> string option \<Rightarrow> string option \<Rightarrow> int \<Rightarrow> cloud_ledger \<Rightarrow> cloud_ledger" where
  "set_cloud_write_state op_id st result_id last_error now rows =
     sql_update (\<lambda>r. cw_op_id r = op_id)
       (\<lambda>r. r\<lparr>cw_state := st, cw_result_id := coalesce result_id (cw_result_id r), cw_last_error := last_error,
              cw_attempts := cw_attempts r + 1, cw_updated_at := now\<rparr>) rows"

definition is_open :: "string \<Rightarrow> bool" where
  "is_open st \<longleftrightarrow> st = ''pending'' \<or> st = ''inflight''"

definition pending_cloud_writes :: "string \<Rightarrow> cloud_ledger \<Rightarrow> CloudWriteOp list" where
  "pending_cloud_writes account rows =
     map row_to_cloud_write (sort_key cw_created_at (filter (\<lambda>r. cw_account_id r = account \<and> is_open (cw_state r)) rows))"

definition cloud_write_ledger_summary :: "string \<Rightarrow> cloud_ledger \<Rightarrow> (string \<times> nat) list" where
  "cloud_write_ledger_summary account rows =
     (let mine = filter (\<lambda>r. cw_account_id r = account) rows
      in map (\<lambda>st. (st, sql_count (\<lambda>r. cw_state r = st) mine)) (sort (remdups (map cw_state mine))))"

section \<open>Laws\<close>

interpretation writes_by_id: keyed_rows "cw_op_id :: cloud_row \<Rightarrow> string" .

interpretation writes_by_key: keyed_rows "\<lambda>r :: cloud_row. (cw_account_id r, cw_idempotency_key r)" .

definition cloud_ok :: "cloud_ledger \<Rightarrow> bool" where
  "cloud_ok rows \<longleftrightarrow> unique_rows cw_op_id rows \<and> unique_rows (\<lambda>r. (cw_account_id r, cw_idempotency_key r)) rows"

lemma cloud_ok_empty [simp]: "cloud_ok []"
  by (simp add: cloud_ok_def unique_rows_def)

lemma cloud_ok_record: "cloud_ok rows \<Longrightarrow> cloud_ok (snd (record_cloud_write op now rows))"
  by (auto simp: cloud_ok_def record_cloud_write_def unique_rows_def CloudWriteOp.defs split: if_splits)

lemma cloud_ok_set_state: "cloud_ok rows \<Longrightarrow> cloud_ok (set_cloud_write_state op_id st res e now rows)"
  by (auto simp: cloud_ok_def set_cloud_write_state_def intro!: writes_by_id.unique_update writes_by_key.unique_update)

lemma find_key_eq: "List.find (\<lambda>r. cw_account_id r = a \<and> cw_idempotency_key r = k) rows
    = row_by (\<lambda>r :: cloud_row. (cw_account_id r, cw_idempotency_key r)) (a, k) rows"
  by (simp add: row_by_def)

lemma by_key_set_state:
  "cloud_write_by_key a k (set_cloud_write_state op_id st res e now rows) =
     map_option (\<lambda>op. if cw_op_id op = op_id
         then op\<lparr>cw_state := st, cw_result_id := coalesce res (cw_result_id op), cw_last_error := e,
                 cw_attempts := cw_attempts op + 1\<rparr>
         else op) (cloud_write_by_key a k rows)"
  by (auto simp: cloud_write_by_key_def find_key_eq set_cloud_write_state_def row_by_sql_update
      option.map_comp comp_def row_to_cloud_write_def CloudWriteOp.defs intro!: map_option_cong)

lemma by_key_record_new:
  assumes "record_cloud_write op now rows = (True, rows')"
  shows "cloud_write_by_key (cw_account_id op) (cw_idempotency_key op) rows' = Some op"
proof -
  let ?row = "CloudWriteOp.extend op \<lparr>cw_created_at = now, cw_updated_at = now\<rparr>"
  from assms have new: "\<forall>r \<in> set rows. \<not> (cw_account_id r = cw_account_id op \<and> cw_idempotency_key r = cw_idempotency_key op)"
    and rows': "rows' = rows @ [?row]"
    by (auto simp: record_cloud_write_def split: if_splits)
  from new have "row_by (\<lambda>r. (cw_account_id r, cw_idempotency_key r)) (cw_account_id op, cw_idempotency_key op) rows = None"
    by (auto simp: row_by_None_iff)
  moreover have "row_to_cloud_write ?row = op"
    by (cases op) (simp add: row_to_cloud_write_def CloudWriteOp.defs)
  ultimately show ?thesis
    by (simp add: rows' cloud_write_by_key_def find_key_eq row_by_append row_by_Cons)
       (simp add: CloudWriteOp.defs)
qed

end
