(* ===== verification/Ledger_Prog.thy ===== *)
theory Ledger_Prog
  imports Cloud_Ledger Restore_Key
begin

text \<open>
  Programs over the ledger of cloud writes and the cloud, in which the process can die. Every statement
  that changes the ledger and every call to the cloud uses one unit of a budget, and at zero the process
  is gone where it stands: running a program with every budget is running it with a crash at every
  point between two effects. Errors are text, as in \<^verbatim>\<open>Result<_, String>\<close>.
\<close>

record 'c cloud_world =
  cw_ledger :: cloud_ledger
  cw_cloud :: 'c

datatype 'a run = Finished "string + 'a" | Killed

type_synonym ('a, 'c) cw_prog = "nat \<Rightarrow> 'c cloud_world \<Rightarrow> 'a run \<times> nat \<times> 'c cloud_world"

definition cw_ret :: "'a \<Rightarrow> ('a, 'c) cw_prog" where
  "cw_ret x n w = (Finished (Inr x), n, w)"

definition cw_throw :: "string \<Rightarrow> ('a, 'c) cw_prog" where
  "cw_throw e n w = (Finished (Inl e), n, w)"

text \<open>\<^verbatim>\<open>match p { Ok(x) => f, Err(e) => h }\<close>, and \<^verbatim>\<open>?\<close>.\<close>

definition cw_match :: "('a, 'c) cw_prog \<Rightarrow> (string \<Rightarrow> ('b, 'c) cw_prog) \<Rightarrow> ('a \<Rightarrow> ('b, 'c) cw_prog) \<Rightarrow> ('b, 'c) cw_prog" where
  "cw_match p h f n w =
     (case p n w of
        (Finished (Inr x), n', w') \<Rightarrow> f x n' w'
      | (Finished (Inl e), n', w') \<Rightarrow> h e n' w'
      | (Killed, n', w') \<Rightarrow> (Killed, n', w'))"

definition cw_bind :: "('a, 'c) cw_prog \<Rightarrow> ('a \<Rightarrow> ('b, 'c) cw_prog) \<Rightarrow> ('b, 'c) cw_prog" where
  "cw_bind p f = cw_match p cw_throw f"

definition cw_lift :: "string + 'a \<Rightarrow> ('a, 'c) cw_prog" where
  "cw_lift r n w = (Finished r, n, w)"

definition ask_ledger :: "(cloud_ledger \<Rightarrow> 'a) \<Rightarrow> ('a, 'c) cw_prog" where
  "ask_ledger f n w = (Finished (Inr (f (cw_ledger w))), n, w)"

definition on_ledger :: "(cloud_ledger \<Rightarrow> 'a \<times> cloud_ledger) \<Rightarrow> ('a, 'c) cw_prog" where
  "on_ledger f n w =
     (case n of
        0 \<Rightarrow> (Killed, 0, w)
      | Suc n' \<Rightarrow> (case f (cw_ledger w) of (x, rows) \<Rightarrow> (Finished (Inr x), n', w\<lparr>cw_ledger := rows\<rparr>)))"

definition on_cloud :: "('c \<Rightarrow> (string + 'a) \<times> 'c) \<Rightarrow> ('a, 'c) cw_prog" where
  "on_cloud f n w =
     (case n of
        0 \<Rightarrow> (Killed, 0, w)
      | Suc n' \<Rightarrow> (case f (cw_cloud w) of (r, c) \<Rightarrow> (Finished r, n', w\<lparr>cw_cloud := c\<rparr>)))"

text \<open>The statement \<^verbatim>\<open>set_cloud_write_state\<close> as an effect, and recording an intent.\<close>

definition set_state :: "string \<Rightarrow> string \<Rightarrow> string option \<Rightarrow> string option \<Rightarrow> int \<Rightarrow> (unit, 'c) cw_prog" where
  "set_state op_id st res e now = on_ledger (\<lambda>rows. ((), set_cloud_write_state op_id st res e now rows))"

definition record_intent :: "CloudWriteOp \<Rightarrow> int \<Rightarrow> (bool, 'c) cw_prog" where
  "record_intent op now = on_ledger (record_cloud_write op now)"

lemma cw_bind_lift: "cw_bind (cw_lift (Inr x)) f = f x"
  by (simp add: fun_eq_iff cw_bind_def cw_match_def cw_lift_def)

lemma cw_bind_ret: "cw_bind (cw_ret x) f = f x"
  by (simp add: fun_eq_iff cw_bind_def cw_match_def cw_ret_def)

section \<open>Invariants of programs\<close>

text \<open>A program keeps an invariant whatever its budget: the proof rule for crash safety. The postcondition
  is about results, not about crashes.\<close>

definition keeps :: "('c cloud_world \<Rightarrow> bool) \<Rightarrow> ('a, 'c) cw_prog \<Rightarrow> (string + 'a \<Rightarrow> 'c cloud_world \<Rightarrow> bool)
    \<Rightarrow> ('c cloud_world \<Rightarrow> bool) \<Rightarrow> bool" where
  "keeps pre p post always \<longleftrightarrow> (\<forall>n w. pre w \<longrightarrow>
     (case p n w of (r, n', w') \<Rightarrow> always w' \<and> (case r of Finished x \<Rightarrow> post x w' | Killed \<Rightarrow> True)))"

lemma keepsD:
  assumes "keeps pre p post always" and "pre w" and "p n w = (r, n', w')"
  shows "always w'" and "r = Finished x \<Longrightarrow> post x w'"
proof -
  have "case p n w of (r, n', w') \<Rightarrow> always w' \<and> (case r of Finished x \<Rightarrow> post x w' | Killed \<Rightarrow> True)"
    by (rule assms(1) [unfolded keeps_def, rule_format, OF assms(2)])
  with assms(3) show "always w'" and "r = Finished x \<Longrightarrow> post x w'" by simp_all
qed

lemma keepsI:
  assumes "\<And>n w r n' w'. pre w \<Longrightarrow> p n w = (r, n', w') \<Longrightarrow> always w' \<and> (\<forall>x. r = Finished x \<longrightarrow> post x w')"
  shows "keeps pre p post always"
  unfolding keeps_def
proof (intro allI impI)
  fix n w
  assume "pre w"
  obtain r n' w' where p: "p n w = (r, n', w')" by (cases "p n w") auto
  from assms [OF \<open>pre w\<close> p] p
  show "case p n w of (r, n', w') \<Rightarrow> always w' \<and> (case r of Finished x \<Rightarrow> post x w' | Killed \<Rightarrow> True)"
    by (simp split: run.split)
qed

lemma keeps_ret: "(\<And>w. pre w \<Longrightarrow> always w \<and> post (Inr x) w) \<Longrightarrow> keeps pre (cw_ret x) post always"
  by (simp add: keeps_def cw_ret_def)

lemma keeps_throw: "(\<And>w. pre w \<Longrightarrow> always w \<and> post (Inl e) w) \<Longrightarrow> keeps pre (cw_throw e) post always"
  by (simp add: keeps_def cw_throw_def)

lemma keeps_lift: "(\<And>w. pre w \<Longrightarrow> always w \<and> post r w) \<Longrightarrow> keeps pre (cw_lift r) post always"
  by (simp add: keeps_def cw_lift_def)

lemma keeps_match:
  assumes "keeps pre p mid always"
    and "\<And>e. keeps (mid (Inl e)) (h e) post always" "\<And>x. keeps (mid (Inr x)) (f x) post always"
  shows "keeps pre (cw_match p h f) post always"
proof (rule keepsI)
  fix n w r n' w'
  assume "pre w" and m: "cw_match p h f n w = (r, n', w')"
  obtain r1 n1 w1 where p: "p n w = (r1, n1, w1)" by (cases "p n w") auto
  note 1 = keepsD [OF assms(1) \<open>pre w\<close> p]
  show "always w' \<and> (\<forall>x. r = Finished x \<longrightarrow> post x w')"
  proof (cases r1)
    case (Finished s)
    show ?thesis
    proof (cases s)
      case (Inl e)
      with Finished 1 p m have "mid (Inl e) w1" "h e n1 w1 = (r, n', w')" by (simp_all add: cw_match_def)
      with keepsD [OF assms(2)] show ?thesis by blast
    next
      case (Inr x)
      with Finished 1 p m have "mid (Inr x) w1" "f x n1 w1 = (r, n', w')" by (simp_all add: cw_match_def)
      with keepsD [OF assms(3)] show ?thesis by blast
    qed
  next
    case Killed
    with 1(1) p m show ?thesis by (simp add: cw_match_def)
  qed
qed

lemma keeps_bind:
  assumes "keeps pre p mid always"
    and "\<And>e w. mid (Inl e) w \<Longrightarrow> always w \<and> post (Inl e) w" "\<And>x. keeps (mid (Inr x)) (f x) post always"
  shows "keeps pre (cw_bind p f) post always"
  unfolding cw_bind_def by (rule keeps_match [OF assms(1)]) (rule keeps_throw, erule assms(2), rule assms(3))

lemma keeps_ask: "(\<And>w. pre w \<Longrightarrow> always w \<and> post (Inr (f (cw_ledger w))) w) \<Longrightarrow> keeps pre (ask_ledger f) post always"
  by (simp add: keeps_def ask_ledger_def)

lemma keeps_ledger:
  assumes "\<And>w. pre w \<Longrightarrow> always w"
    and "\<And>w x rows. pre w \<Longrightarrow> f (cw_ledger w) = (x, rows) \<Longrightarrow> always (w\<lparr>cw_ledger := rows\<rparr>) \<and> post (Inr x) (w\<lparr>cw_ledger := rows\<rparr>)"
  shows "keeps pre (on_ledger f) post always"
  using assms by (fastforce simp: keeps_def on_ledger_def split: nat.split prod.split)

lemma keeps_cloud:
  assumes "\<And>w. pre w \<Longrightarrow> always w"
    and "\<And>w r c. pre w \<Longrightarrow> f (cw_cloud w) = (r, c) \<Longrightarrow> always (w\<lparr>cw_cloud := c\<rparr>) \<and> post r (w\<lparr>cw_cloud := c\<rparr>)"
  shows "keeps pre (on_cloud f) post always"
  using assms by (fastforce simp: keeps_def on_cloud_def split: nat.split prod.split)

lemma keeps_set_state:
  assumes "\<And>w. pre w \<Longrightarrow> always w"
    and "\<And>w. pre w \<Longrightarrow> (let w' = w\<lparr>cw_ledger := set_cloud_write_state op_id st res e now (cw_ledger w)\<rparr>
      in always w' \<and> post (Inr ()) w')"
  shows "keeps pre (set_state op_id st res e now) post always"
  unfolding set_state_def using assms by (intro keeps_ledger) (auto simp: Let_def)

lemma keeps_mono:
  assumes "keeps pre p post always" and "\<And>w. pre' w \<Longrightarrow> pre w" and "\<And>r w. post r w \<Longrightarrow> post' r w"
    and "\<And>w. always w \<Longrightarrow> always' w"
  shows "keeps pre' p post' always'"
  using keepsD [OF assms(1) assms(2)] assms(3,4) by (intro keepsI) blast

text \<open>The two branches after an intent was recorded.\<close>

lemma keeps_if_new:
  assumes "keeps P old post always" and "keeps U fresh post always"
  shows "keeps (\<lambda>w. Inr new = Inr True \<and> U w \<or> Inr new = Inr False \<and> P w) (if \<not> new then old else fresh) post always"
  using assms by (cases new) simp_all

section \<open>The ledger of one operation\<close>

text \<open>A row, or the operation read from it, stands for an intent when all but its progress agrees.\<close>

definition stands_for :: "CloudWriteOp \<Rightarrow> 'z CloudWriteOp_scheme \<Rightarrow> bool" where
  "stands_for op r \<longleftrightarrow> cw_op_id r = cw_op_id op \<and> cw_account_id r = cw_account_id op \<and> cw_service r = cw_service op
     \<and> cw_op_kind r = cw_op_kind op \<and> cw_target_id r = cw_target_id op \<and> cw_idempotency_key r = cw_idempotency_key op
     \<and> cw_if_match_etag r = cw_if_match_etag op \<and> cw_intent_json r = cw_intent_json op"

definition only_row :: "CloudWriteOp \<Rightarrow> (string \<Rightarrow> string option \<Rightarrow> bool) \<Rightarrow> 'c cloud_world \<Rightarrow> bool" where
  "only_row op P w \<longleftrightarrow> (\<exists>r. cw_ledger w = [r] \<and> stands_for op r \<and> P (cw_state r) (cw_last_error r))"

lemma only_row_cloud [simp]: "only_row op P (w\<lparr>cw_cloud := c\<rparr>) \<longleftrightarrow> only_row op P w"
  by (simp add: only_row_def)

lemma only_row_mono: "only_row op P w \<Longrightarrow> (\<And>s e. P s e \<Longrightarrow> Q s e) \<Longrightarrow> only_row op Q w"
  by (auto simp: only_row_def)

lemma only_row_set_state:
  assumes "only_row op P w" and "op_id = cw_op_id op"
  shows "only_row op (\<lambda>s e. s = st \<and> e = err) (w\<lparr>cw_ledger := set_cloud_write_state op_id st res err now (cw_ledger w)\<rparr>)"
  using assms by (auto simp: only_row_def set_cloud_write_state_def sql_update_def stands_for_def)

lemma only_row_record_new:
  assumes "cw_ledger w = []" and "record_cloud_write op now (cw_ledger w) = (x, rows)"
  shows "x" and "only_row op (\<lambda>s e. s = cw_state op \<and> e = cw_last_error op) (w\<lparr>cw_ledger := rows\<rparr>)"
  using assms by (auto simp: record_cloud_write_def only_row_def stands_for_def CloudWriteOp.defs)

lemma only_row_record_again:
  assumes "only_row op P w" and "record_cloud_write op now (cw_ledger w) = (x, rows)"
  shows "\<not> x" and "rows = cw_ledger w"
  using assms by (auto simp: record_cloud_write_def only_row_def stands_for_def)

lemma only_row_by_key:
  assumes "only_row op P w"
  obtains op' where "cloud_write_by_key (cw_account_id op) (cw_idempotency_key op) (cw_ledger w) = Some op'"
    and "stands_for op op'" and "only_row op (\<lambda>s e. s = cw_state op' \<and> e = cw_last_error op') w"
    and "P (cw_state op') (cw_last_error op')"
proof -
  from assms obtain r where r: "cw_ledger w = [r]" "stands_for op r" "P (cw_state r) (cw_last_error r)"
    by (auto simp: only_row_def)
  then show thesis
    by (intro that [of "row_to_cloud_write r"])
       (auto simp: cloud_write_by_key_def stands_for_def only_row_def row_to_cloud_write_def CloudWriteOp.defs)
qed

lemma only_row_pending:
  assumes "only_row op P w"
  shows "pending_cloud_writes account (cw_ledger w) = [] \<or>
    (\<exists>op'. pending_cloud_writes account (cw_ledger w) = [op'] \<and> stands_for op op' \<and> is_open (cw_state op')
       \<and> only_row op (\<lambda>s e. s = cw_state op' \<and> e = cw_last_error op') w \<and> P (cw_state op') (cw_last_error op'))"
proof -
  from assms obtain r where r: "cw_ledger w = [r]" "stands_for op r" "P (cw_state r) (cw_last_error r)"
    by (auto simp: only_row_def)
  then show ?thesis
    by (auto simp: pending_cloud_writes_def stands_for_def only_row_def row_to_cloud_write_def CloudWriteOp.defs)
qed

section \<open>Histories\<close>

text \<open>An intent is issued again and again, and the process is restarted and recovers, each time with
  some number of effects before it dies.\<close>

datatype attempt = Issue nat int | Boot nat int

fun run_history ::
  "(int \<Rightarrow> ('a, 'c) cw_prog) \<Rightarrow> (int \<Rightarrow> (nat, 'c) cw_prog) \<Rightarrow> attempt list \<Rightarrow> 'c cloud_world \<Rightarrow> 'c cloud_world" where
  "run_history p boot [] w = w"
| "run_history p boot (Issue n t # hs) w = run_history p boot hs (snd (snd (p t n w)))"
| "run_history p boot (Boot n t # hs) w = run_history p boot hs (snd (snd (boot t n w)))"

lemma keeps_final: "keeps I p post I \<Longrightarrow> I w \<Longrightarrow> I (snd (snd (p n w)))"
  using keepsD(1) [of I p post I w n] by (cases "p n w") auto

lemma history_keeps:
  assumes "\<And>t. keeps I (p t) post I" and "\<And>t. keeps I (boot t) post' I" and "I w"
  shows "I (run_history p boot hs w)"
  using assms(3)
proof (induction hs arbitrary: w)
  case (Cons h hs)
  then show ?case using keeps_final [OF assms(1)] keeps_final [OF assms(2)] by (cases h) auto
qed simp

end
