(* ===== verification/Text_Ops.thy ===== *)
theory Text_Ops
  imports Prelude
begin

text \<open>
  Operations of Rust's \<^verbatim>\<open>str\<close> and \<^verbatim>\<open>char\<close> on text held as its UTF-8 bytes: \<^verbatim>\<open>trim\<close> with the white space of
  Unicode, \<^verbatim>\<open>to_ascii_lowercase\<close>, \<^verbatim>\<open>contains\<close>, \<^verbatim>\<open>char::is_control\<close> and \<^verbatim>\<open>join\<close>.
\<close>

definition seq :: "nat list \<Rightarrow> string" where
  "seq ns = map char_of ns"

text \<open>The characters of the property White_Space, encoded.\<close>

definition white_spaces :: "string list" where
  "white_spaces = map seq
     ([[9], [10], [11], [12], [13], [32], [0xC2, 0x85], [0xC2, 0xA0], [0xE1, 0x9A, 0x80]]
      @ map (\<lambda>n. [0xE2, 0x80, n]) [0x80, 0x81, 0x82, 0x83, 0x84, 0x85, 0x86, 0x87, 0x88, 0x89, 0x8A, 0xA8, 0xA9, 0xAF]
      @ [[0xE2, 0x81, 0x9F], [0xE3, 0x80, 0x80]])"

function strip_all :: "string list \<Rightarrow> string \<Rightarrow> string" where
  "strip_all ws s =
     (case List.find (\<lambda>w. w \<noteq> [] \<and> take (length w) s = w) ws of
        None \<Rightarrow> s
      | Some w \<Rightarrow> strip_all ws (drop (length w) s))"
  by pat_completeness auto

termination
proof (relation "measure (\<lambda>(ws, s). length s)")
  fix ws s w
  assume "List.find (\<lambda>w. w \<noteq> [] \<and> take (length w) s = w) ws = Some w"
  then have "w \<noteq> []" "take (length w) s = w" by (auto simp: find_Some_iff)
  moreover from this have "s \<noteq> []" by auto
  ultimately show "((ws, drop (length w) s), ws, s) \<in> measure (\<lambda>(ws, s). length s)" by simp
qed simp

declare strip_all.simps [simp del]

definition trim_text :: "string \<Rightarrow> string" where
  "trim_text s = rev (strip_all (map rev white_spaces) (rev (strip_all white_spaces s)))"

definition ascii_lower :: "char \<Rightarrow> char" where
  "ascii_lower c = (if 65 \<le> (of_char c :: nat) \<and> (of_char c :: nat) \<le> 90 then char_of ((of_char c :: nat) + 32) else c)"

definition to_ascii_lowercase :: "string \<Rightarrow> string" where
  "to_ascii_lowercase s = map ascii_lower s"

fun contains :: "string \<Rightarrow> string \<Rightarrow> bool" where
  "contains [] pat \<longleftrightarrow> pat = []"
| "contains (c # s) pat \<longleftrightarrow> take (length pat) (c # s) = pat \<or> contains s pat"

text \<open>\<^verbatim>\<open>chars().any(char::is_control)\<close>: U+0000 to U+001F and U+007F to U+009F.\<close>

fun any_control :: "string \<Rightarrow> bool" where
  "any_control [] \<longleftrightarrow> False"
| "any_control (c # s) \<longleftrightarrow>
     (of_char c :: nat) < 32 \<or> (of_char c :: nat) = 127
     \<or> (of_char c :: nat) = 0xC2 \<and> s \<noteq> [] \<and> 0x80 \<le> (of_char (hd s) :: nat) \<and> (of_char (hd s) :: nat) \<le> 0x9F
     \<or> any_control s"

fun join_with :: "string \<Rightarrow> string list \<Rightarrow> string" where
  "join_with sep [] = []"
| "join_with sep [s] = s"
| "join_with sep (s # t # ss) = s @ sep @ join_with sep (t # ss)"

lemma strip_all_none: "(\<And>w. w \<in> set ws \<Longrightarrow> w \<noteq> [] \<Longrightarrow> take (length w) s \<noteq> w) \<Longrightarrow> strip_all ws s = s"
  by (subst strip_all.simps) (auto split: option.split simp: find_Some_iff in_set_conv_nth)

lemma contains_char: "contains s [c] \<longleftrightarrow> c \<in> set s"
  by (induction s) auto

end
