(* ===== verification/Cloud_Shares.thy ===== *)
theory Cloud_Shares
  imports Ledger_Prog Text_Ops BTree_Map
begin

text \<open>
  Sharing links and e-mail invitations over the cloud-write ledger (\<^verbatim>\<open>engine/src/onedrive_write.rs\<close>):
  the share intent with its validation, keys and stored form, \<^verbatim>\<open>run_share_link\<close>, \<^verbatim>\<open>run_invite\<close> and the
  recovery of both. The Graph calls behind \<^verbatim>\<open>OneDriveShareSink\<close> are a record of functions on the cloud.
\<close>

section \<open>Intents\<close>

definition SERVICE :: string where "SERVICE = ''onedrive''"
definition INVITE_NOT_STARTED :: string where "INVITE_NOT_STARTED = ''invite_not_started_user_retry_required''"
definition INVITE_AMBIGUOUS :: string where "INVITE_AMBIGUOUS = ''invite_recovery_ambiguous''"
definition INVITE_PARTIAL_SUCCESS :: string where "INVITE_PARTIAL_SUCCESS = ''invite_partial_success''"

datatype ShareKind = Link | Invite

record ShareIntent =
  si_kind :: ShareKind
  si_item_id :: string
  si_link_type :: "string option"
  si_scope :: "string option"
  si_role :: "string option"
  si_recipient_hashes :: "string list"
  si_recipient_count :: nat
  si_require_sign_in :: bool
  si_send_invitation :: bool

datatype ShareOutcome =
    LinkCreated string
  | Invited "string list" string
  | FailedClosed string

record DrivePermission =
  dp_id :: string
  dp_roles :: "string list"
  dp_link_web_url :: "string option"
  dp_link_type :: "string option"
  dp_link_scope :: "string option"
  dp_granted_emails :: "string list"
  dp_invitation_emails :: "string list"
  dp_inherited :: bool

datatype InviteOutcome = Applied "string list" | Partial "string list" nat string

record 'c share_sink =
  create_share_link :: "string \<Rightarrow> string \<Rightarrow> string \<Rightarrow> 'c \<Rightarrow> (string + DrivePermission) \<times> 'c"
  list_share_permissions :: "string \<Rightarrow> 'c \<Rightarrow> (string + DrivePermission list) \<times> 'c"
  invite_share :: "string \<Rightarrow> string list \<Rightarrow> string list \<Rightarrow> bool \<Rightarrow> bool \<Rightarrow> 'c \<Rightarrow> (string + InviteOutcome) \<times> 'c"

definition or_err :: "string \<Rightarrow> 'a option \<Rightarrow> string + 'a" where
  "or_err e x = (case x of Some v \<Rightarrow> Inr v | None \<Rightarrow> Inl e)"

text \<open>\<^verbatim>\<open>?\<close> on results without effects.\<close>

definition and_then :: "string + 'a \<Rightarrow> ('a \<Rightarrow> string + 'b) \<Rightarrow> string + 'b" where
  "and_then r f = (case r of Inl e \<Rightarrow> Inl e | Inr x \<Rightarrow> f x)"

definition validate_share_item_id :: "string \<Rightarrow> string + unit" where
  "validate_share_item_id item_id =
     (if item_id = [] then Inl ''share item id is empty''
      else if length item_id > 512 then Inl ''share item id is too long''
      else Inr ())"

definition validate_share_link_type :: "string \<Rightarrow> string + unit" where
  "validate_share_link_type t =
     (if t \<in> set [''view'', ''edit'', ''embed''] then Inr () else Inl ''invalid share link type'')"

definition validate_share_link_scope :: "string \<Rightarrow> string + unit" where
  "validate_share_link_scope s =
     (if s \<in> set [''anonymous'', ''organization'', ''users''] then Inr () else Inl ''invalid share link scope'')"

definition validate_invite_role :: "string \<Rightarrow> string + unit" where
  "validate_invite_role r = (if r \<in> set [''read'', ''write''] then Inr () else Inl ''invalid invite role'')"

fun normalize_loop :: "string list \<Rightarrow> string list \<Rightarrow> string + string list" where
  "normalize_loop [] acc = Inr acc"
| "normalize_loop (email # emails) acc =
     (let trimmed = trim_text email
      in if trimmed = [] then Inl ''invite recipient is empty''
         else if length trimmed > 320 then Inl ''invite recipient is too long''
         else if any_control trimmed \<or> CHR ''@'' \<notin> set trimmed then Inl ''invite recipient is malformed''
         else let lowered = to_ascii_lowercase trimmed
              in normalize_loop emails (if lowered \<in> set acc then acc else acc @ [lowered]))"

definition normalize_invite_recipients :: "string list \<Rightarrow> string + string list" where
  "normalize_invite_recipients emails =
     (if emails = [] then Inl ''invite requires at least one recipient''
      else if length emails > 20 then Inl ''invite recipient count exceeds limit''
      else and_then (normalize_loop emails []) (\<lambda>normalized. Inr (sort normalized)))"

definition recipient_hash :: "(bytes \<Rightarrow> bytes \<Rightarrow> bytes) \<Rightarrow> bytes \<Rightarrow> string \<Rightarrow> string \<Rightarrow> string" where
  "recipient_hash hmac secret account email =
     idempotency_key hmac secret account SERVICE (''share|recipient|'' @ email) []"

definition share_link_intent :: "string \<Rightarrow> string \<Rightarrow> string \<Rightarrow> string + ShareIntent" where
  "share_link_intent item_id link_type scope =
     and_then (validate_share_item_id item_id) (\<lambda>_.
     and_then (validate_share_link_type link_type) (\<lambda>_.
     and_then (validate_share_link_scope scope) (\<lambda>_.
     Inr \<lparr>si_kind = Link, si_item_id = item_id, si_link_type = Some link_type, si_scope = Some scope,
          si_role = None, si_recipient_hashes = [], si_recipient_count = 0, si_require_sign_in = False,
          si_send_invitation = False\<rparr>)))"

definition invite_intent ::
  "(bytes \<Rightarrow> bytes \<Rightarrow> bytes) \<Rightarrow> string \<Rightarrow> string \<Rightarrow> string list \<Rightarrow> string \<Rightarrow> bytes
     \<Rightarrow> string + ShareIntent \<times> string list" where
  "invite_intent hmac account item_id emails role secret =
     and_then (validate_share_item_id item_id) (\<lambda>_.
     and_then (validate_invite_role role) (\<lambda>_.
     and_then (normalize_invite_recipients emails) (\<lambda>normalized.
     let hashes = map (recipient_hash hmac secret account) normalized
     in Inr (\<lparr>si_kind = Invite, si_item_id = item_id, si_link_type = None, si_scope = None,
          si_role = Some role, si_recipient_hashes = hashes, si_recipient_count = length hashes,
          si_require_sign_in = True, si_send_invitation = True\<rparr>, normalized))))"

fun all_strings :: "json list \<Rightarrow> string + string list" where
  "all_strings [] = Inr []"
| "all_strings (v # vs) =
     and_then (or_err ''invite recipient hash is not a string'' (as_string v)) (\<lambda>s.
     and_then (all_strings vs) (\<lambda>ss. Inr (s # ss)))"

definition as_u64 :: "json \<Rightarrow> nat option" where
  "as_u64 v = (case as_int v of Some n \<Rightarrow> if 0 \<le> n \<and> n < 2 ^ 64 then Some (nat n) else None | None \<Rightarrow> None)"

definition intent_from_op :: "CloudWriteOp \<Rightarrow> string + ShareIntent" where
  "intent_from_op op =
     and_then (or_err ''share ledger row has no target item id'' (cw_target_id op)) (\<lambda>target.
     and_then (or_err ''share ledger row has malformed intent_json'' (cw_intent_json op)) (\<lambda>intent.
     case get_str ''share_kind'' intent of
       None \<Rightarrow> Inl ''share ledger row has no share_kind''
     | Some kind \<Rightarrow>
         if kind = ''link'' then
           and_then (or_err ''share link intent has no link_type'' (get_str ''link_type'' intent)) (\<lambda>link_type.
           and_then (or_err ''share link intent has no scope'' (get_str ''scope'' intent)) (\<lambda>scope.
           share_link_intent target link_type scope))
         else if kind = ''invite'' then
           and_then (validate_share_item_id target) (\<lambda>_.
           and_then (or_err ''invite intent has no role'' (get_str ''role'' intent)) (\<lambda>role.
           and_then (validate_invite_role role) (\<lambda>_.
           and_then (or_err ''invite intent has no recipient_hashes'' (get_array ''recipient_hashes'' intent)) (\<lambda>vs.
           and_then (all_strings vs) (\<lambda>hashes.
           and_then (or_err ''invite intent has no recipient_count'' (Option.bind (get ''recipient_count'' intent) as_u64)) (\<lambda>count.
           if hashes = [] \<or> length hashes \<noteq> count then Inl ''invite recipient hash count mismatch''
           else Inr \<lparr>si_kind = Invite, si_item_id = target, si_link_type = None, si_scope = None,
             si_role = Some role, si_recipient_hashes = hashes, si_recipient_count = count,
             si_require_sign_in = (case Option.bind (get ''require_sign_in'' intent) as_bool of Some b \<Rightarrow> b | None \<Rightarrow> True),
             si_send_invitation = (case Option.bind (get ''send_invitation'' intent) as_bool of Some b \<Rightarrow> b | None \<Rightarrow> True)\<rparr>))))))
         else Inl (''unsupported share_kind '' @ [CHR 0x27] @ kind @ [CHR 0x27])))"

definition json_opt :: "string option \<Rightarrow> json" where
  "json_opt x = (case x of Some s \<Rightarrow> JStr s | None \<Rightarrow> JNull)"

definition share_intent_json :: "ShareIntent \<Rightarrow> json" where
  "share_intent_json i =
     (case si_kind i of
        Link \<Rightarrow> JObj [(''share_kind'', JStr ''link''), (''link_type'', json_opt (si_link_type i)), (''scope'', json_opt (si_scope i))]
      | Invite \<Rightarrow> JObj [(''share_kind'', JStr ''invite''), (''role'', json_opt (si_role i)),
          (''recipient_hashes'', JArr (map JStr (si_recipient_hashes i))),
          (''recipient_count'', JNum (int (si_recipient_count i))),
          (''require_sign_in'', JBool (si_require_sign_in i)), (''send_invitation'', JBool (si_send_invitation i))])"

definition show_bool :: "bool \<Rightarrow> string" where
  "show_bool b = (if b then ''true'' else ''false'')"

definition or_empty :: "string option \<Rightarrow> string" where
  "or_empty x = (case x of Some s \<Rightarrow> s | None \<Rightarrow> [])"

definition share_keys :: "(bytes \<Rightarrow> bytes \<Rightarrow> bytes) \<Rightarrow> ShareIntent \<Rightarrow> bytes \<Rightarrow> string \<Rightarrow> string \<times> string" where
  "share_keys hmac i secret account =
     (let source = (case si_kind i of
            Link \<Rightarrow> ''share|link|'' @ si_item_id i @ ''|'' @ or_empty (si_link_type i) @ ''|'' @ or_empty (si_scope i)
          | Invite \<Rightarrow> ''share|invite|'' @ si_item_id i @ ''|'' @ or_empty (si_role i) @ ''|''
              @ show_bool (si_require_sign_in i) @ ''|'' @ show_bool (si_send_invitation i) @ ''|''
              @ join_with '','' (si_recipient_hashes i));
          key = idempotency_key hmac secret account SERVICE source []
      in (restore_op_id account key, key))"

section \<open>Permissions\<close>

definition permission_email_hashes ::
  "(bytes \<Rightarrow> bytes \<Rightarrow> bytes) \<Rightarrow> DrivePermission \<Rightarrow> bytes \<Rightarrow> string \<Rightarrow> string list" where
  "permission_email_hashes hmac p secret account =
     map (\<lambda>email. recipient_hash hmac secret account (to_ascii_lowercase (trim_text email)))
       (dp_granted_emails p @ dp_invitation_emails p)"

definition invite_role_matches :: "DrivePermission \<Rightarrow> ShareIntent \<Rightarrow> bool" where
  "invite_role_matches p i = (case si_role i of None \<Rightarrow> False | Some role \<Rightarrow> role \<in> set (dp_roles p))"

text \<open>The permission ids found for one expected recipient, as a set without duplicates.\<close>

definition ids_for ::
  "(bytes \<Rightarrow> bytes \<Rightarrow> bytes) \<Rightarrow> DrivePermission list \<Rightarrow> ShareIntent \<Rightarrow> bytes \<Rightarrow> string \<Rightarrow> string \<Rightarrow> string list" where
  "ids_for hmac ps i secret account expected =
     remdups (map dp_id (filter (\<lambda>p. \<not> dp_inherited p \<and> invite_role_matches p i
       \<and> expected \<in> set (permission_email_hashes hmac p secret account)) ps))"

text \<open>The scan over the expected hashes in the order of the \<^verbatim>\<open>BTreeMap\<close>: each must have exactly one id.\<close>

fun single_ids :: "string list list \<Rightarrow> string list \<Rightarrow> string list option" where
  "single_ids [] acc = Some acc"
| "single_ids (ids # rest) acc =
     (case ids of
        [x] \<Rightarrow> single_ids rest (if x \<in> set acc then acc else acc @ [x])
      | _ \<Rightarrow> None)"

definition invite_recovered_permission_ids ::
  "(bytes \<Rightarrow> bytes \<Rightarrow> bytes) \<Rightarrow> DrivePermission list \<Rightarrow> ShareIntent \<Rightarrow> bytes \<Rightarrow> string \<Rightarrow> string list option" where
  "invite_recovered_permission_ids hmac ps i secret account =
     single_ids (map (ids_for hmac ps i secret account) (sort (remdups (si_recipient_hashes i)))) []"

definition share_permission_web_url :: "DrivePermission \<Rightarrow> string + string" where
  "share_permission_web_url p = or_err ''share link permission had no webUrl'' (dp_link_web_url p)"

definition exact_link_matches :: "DrivePermission list \<Rightarrow> ShareIntent \<Rightarrow> DrivePermission list" where
  "exact_link_matches ps i =
     filter (\<lambda>p. \<not> dp_inherited p \<and> dp_link_web_url p \<noteq> None \<and> dp_link_type p = si_link_type i
       \<and> dp_link_scope p = si_scope i) ps"

definition share_policy_final_error :: "ShareIntent \<Rightarrow> string \<Rightarrow> bool" where
  "share_policy_final_error i e =
     (if si_link_type i \<noteq> Some ''embed'' then False
      else let lower = to_ascii_lowercase e
           in list_ex (contains lower) [''unsupported'', ''not supported'', ''not available'', ''onedrive personal'',
                ''http 400'', ''http 403''])"

definition redacted_share_error :: "string \<Rightarrow> string" where
  "redacted_share_error e =
     (let lower = to_ascii_lowercase e
      in if contains lower ''http://'' \<or> contains lower ''https://'' \<or> contains lower ''1drv.ms'' \<or> CHR ''@'' \<in> set e
         then ''share_error'' else take_chars 200 e)"

definition non_empty :: "string \<Rightarrow> string option" where
  "non_empty s = (if s = [] then None else Some s)"

section \<open>Programs\<close>

definition set_share_error_state :: "string \<Rightarrow> ShareIntent \<Rightarrow> string \<Rightarrow> int \<Rightarrow> (unit, 'c) cw_prog" where
  "set_share_error_state op_id i e now =
     (if share_policy_final_error i e
      then set_state op_id ''failed'' None (Some ''share_policy_unsupported'') now
      else set_state op_id ''inflight'' None (Some (redacted_share_error e)) now)"

definition apply_share_link_permission :: "string \<Rightarrow> DrivePermission \<Rightarrow> int \<Rightarrow> (ShareOutcome, 'c) cw_prog" where
  "apply_share_link_permission op_id p now =
     cw_bind (cw_lift (share_permission_web_url p)) (\<lambda>web_url.
     cw_bind (set_state op_id ''applied'' (non_empty (dp_id p)) None now) (\<lambda>_.
     cw_ret (LinkCreated web_url)))"

definition create_and_apply_share_link ::
  "'c share_sink \<Rightarrow> string \<Rightarrow> ShareIntent \<Rightarrow> int \<Rightarrow> (ShareOutcome, 'c) cw_prog" where
  "create_and_apply_share_link sink op_id i now =
     cw_bind (cw_lift (or_err ''share link intent missing link_type'' (si_link_type i))) (\<lambda>link_type.
     cw_bind (cw_lift (or_err ''share link intent missing scope'' (si_scope i))) (\<lambda>scope.
     cw_match (on_cloud (create_share_link sink (si_item_id i) link_type scope))
       (\<lambda>e. cw_bind (set_share_error_state op_id i e now) (\<lambda>_. cw_throw e))
       (\<lambda>p. cw_match (apply_share_link_permission op_id p now)
              (\<lambda>e. cw_bind (set_share_error_state op_id i e now) (\<lambda>_. cw_throw e))
              cw_ret)))"

definition apply_invite_success :: "string \<Rightarrow> string list \<Rightarrow> nat \<Rightarrow> int \<Rightarrow> (ShareOutcome, 'c) cw_prog" where
  "apply_invite_success op_id ids count now =
     cw_bind (set_state op_id ''applied'' (case ids of [x] \<Rightarrow> Some x | _ \<Rightarrow> None) None now) (\<lambda>_.
     cw_ret (Invited ids (''invited '' @ show_nat count @ '' recipient(s)'')))"

definition set_invite_failed :: "string \<Rightarrow> string \<Rightarrow> int \<Rightarrow> (ShareOutcome, 'c) cw_prog" where
  "set_invite_failed op_id reason now =
     cw_bind (set_state op_id ''failed'' None (Some reason) now) (\<lambda>_. cw_ret (FailedClosed reason))"

definition issue_invite ::
  "'c share_sink \<Rightarrow> string \<Rightarrow> ShareIntent \<Rightarrow> string list \<Rightarrow> int \<Rightarrow> (ShareOutcome, 'c) cw_prog" where
  "issue_invite sink op_id i emails now =
     cw_bind (cw_lift (or_err ''invite intent has no role'' (si_role i))) (\<lambda>role.
     cw_match (on_cloud (invite_share sink (si_item_id i) emails [role] (si_require_sign_in i) (si_send_invitation i)))
       (\<lambda>e. cw_bind (set_state op_id ''inflight'' None (Some (redacted_share_error e)) now) (\<lambda>_. cw_throw e))
       (\<lambda>r. case r of
              Applied ids \<Rightarrow> apply_invite_success op_id ids (si_recipient_count i) now
            | Partial _ _ _ \<Rightarrow>
                cw_bind (set_invite_failed op_id INVITE_PARTIAL_SUCCESS now) (\<lambda>_. cw_throw INVITE_PARTIAL_SUCCESS)))"

definition recover_share_link_write_op ::
  "'c share_sink \<Rightarrow> CloudWriteOp \<Rightarrow> ShareIntent \<Rightarrow> int \<Rightarrow> (ShareOutcome, 'c) cw_prog" where
  "recover_share_link_write_op sink op i now =
     (if cw_state op = ''applied'' then
        cw_bind (on_cloud (list_share_permissions sink (si_item_id i))) (\<lambda>ps.
        case exact_link_matches ps i of
          [p] \<Rightarrow> cw_bind (cw_lift (share_permission_web_url p)) (\<lambda>url. cw_ret (LinkCreated url))
        | [] \<Rightarrow> cw_throw ''applied share link permission was not found''
        | _ \<Rightarrow> cw_throw ''applied share link permission is ambiguous'')
      else if cw_state op = ''failed'' then
        cw_ret (FailedClosed (case cw_last_error op of Some e \<Rightarrow> e | None \<Rightarrow> ''share_failed_closed''))
      else
        cw_bind (on_cloud (list_share_permissions sink (si_item_id i))) (\<lambda>ps.
        case exact_link_matches ps i of
          [p] \<Rightarrow> apply_share_link_permission (cw_op_id op) p now
        | _ \<Rightarrow> create_and_apply_share_link sink (cw_op_id op) i now))"

definition recover_invite_write_op ::
  "(bytes \<Rightarrow> bytes \<Rightarrow> bytes) \<Rightarrow> 'c share_sink \<Rightarrow> string \<Rightarrow> CloudWriteOp \<Rightarrow> bytes \<Rightarrow> ShareIntent \<Rightarrow> int
     \<Rightarrow> (ShareOutcome, 'c) cw_prog" where
  "recover_invite_write_op hmac sink account op secret i now =
     (if cw_state op = ''applied'' then
        cw_ret (Invited (case cw_result_id op of Some x \<Rightarrow> [x] | None \<Rightarrow> []) ''invite already applied'')
      else if cw_state op = ''failed'' then
        cw_ret (FailedClosed (case cw_last_error op of Some e \<Rightarrow> e | None \<Rightarrow> INVITE_AMBIGUOUS))
      else if cw_state op = ''pending'' then set_invite_failed (cw_op_id op) INVITE_NOT_STARTED now
      else
        cw_bind (on_cloud (list_share_permissions sink (si_item_id i))) (\<lambda>ps.
        case invite_recovered_permission_ids hmac ps i secret account of
          Some ids \<Rightarrow> apply_invite_success (cw_op_id op) ids (si_recipient_count i) now
        | None \<Rightarrow> set_invite_failed (cw_op_id op) INVITE_AMBIGUOUS now))"

definition recover_share_write_op ::
  "(bytes \<Rightarrow> bytes \<Rightarrow> bytes) \<Rightarrow> 'c share_sink \<Rightarrow> CloudWriteOp \<Rightarrow> bytes \<Rightarrow> int \<Rightarrow> (ShareOutcome, 'c) cw_prog" where
  "recover_share_write_op hmac sink op secret now =
     (case intent_from_op op of
        Inl e \<Rightarrow>
          cw_bind (set_state (cw_op_id op) ''failed'' None (Some (redacted_share_error e)) now) (\<lambda>_.
          cw_ret (FailedClosed (redacted_share_error e)))
      | Inr i \<Rightarrow>
          (case si_kind i of
             Link \<Rightarrow> recover_share_link_write_op sink op i now
           | Invite \<Rightarrow> recover_invite_write_op hmac sink (cw_account_id op) op secret i now))"

definition share_op :: "string \<Rightarrow> string \<Rightarrow> string \<Rightarrow> string \<Rightarrow> ShareIntent \<Rightarrow> CloudWriteOp" where
  "share_op op_id account item_id key i =
     \<lparr>cw_op_id = op_id, cw_account_id = account, cw_service = SERVICE, cw_op_kind = cloud_as_str Share,
      cw_target_id = Some item_id, cw_idempotency_key = key, cw_if_match_etag = None, cw_state = ''pending'',
      cw_result_id = None, cw_intent_json = Some (share_intent_json i), cw_attempts = 0, cw_last_error = None\<rparr>"

definition run_share_link ::
  "(bytes \<Rightarrow> bytes \<Rightarrow> bytes) \<Rightarrow> 'c share_sink \<Rightarrow> string \<Rightarrow> string \<Rightarrow> string \<Rightarrow> string \<Rightarrow> bytes \<Rightarrow> int
     \<Rightarrow> (ShareOutcome, 'c) cw_prog" where
  "run_share_link hmac sink account item_id link_type scope secret now =
     cw_bind (cw_lift (share_link_intent item_id link_type scope)) (\<lambda>i.
     let (op_id, key) = share_keys hmac i secret account
     in cw_bind (record_intent (share_op op_id account item_id key i) now) (\<lambda>new.
        if \<not> new then
          cw_bind (ask_ledger (cloud_write_by_key account key)) (\<lambda>found.
          case found of
            None \<Rightarrow> cw_throw (''share ledger row for key '' @ key @ '' vanished'')
          | Some existing \<Rightarrow> recover_share_write_op hmac sink existing secret now)
        else
          cw_bind (set_state op_id ''inflight'' None None now) (\<lambda>_.
          create_and_apply_share_link sink op_id i now)))"

text \<open>An invitation that is already in the ledger.\<close>

definition reissue_invite ::
  "(bytes \<Rightarrow> bytes \<Rightarrow> bytes) \<Rightarrow> 'c share_sink \<Rightarrow> CloudWriteOp \<Rightarrow> ShareIntent \<Rightarrow> string list \<Rightarrow> bytes \<Rightarrow> int
     \<Rightarrow> (ShareOutcome, 'c) cw_prog" where
  "reissue_invite hmac sink existing i normalized secret now =
     (if cw_state existing = ''pending'' \<or> cw_last_error existing = Some INVITE_NOT_STARTED then
        cw_bind (set_state (cw_op_id existing) ''inflight'' None None now) (\<lambda>_.
        issue_invite sink (cw_op_id existing) i normalized now)
      else if cw_state existing = ''failed'' then
        cw_throw (case cw_last_error existing of Some e \<Rightarrow> e | None \<Rightarrow> INVITE_AMBIGUOUS)
      else recover_share_write_op hmac sink existing secret now)"

definition run_invite ::
  "(bytes \<Rightarrow> bytes \<Rightarrow> bytes) \<Rightarrow> 'c share_sink \<Rightarrow> string \<Rightarrow> string \<Rightarrow> string list \<Rightarrow> string \<Rightarrow> bytes \<Rightarrow> int
     \<Rightarrow> (ShareOutcome, 'c) cw_prog" where
  "run_invite hmac sink account item_id emails role secret now =
     cw_bind (cw_lift (invite_intent hmac account item_id emails role secret)) (\<lambda>(i, normalized).
     let (op_id, key) = share_keys hmac i secret account
     in cw_bind (record_intent (share_op op_id account item_id key i) now) (\<lambda>new.
        if \<not> new then
          cw_bind (ask_ledger (cloud_write_by_key account key)) (\<lambda>found.
          case found of
            None \<Rightarrow> cw_throw (''invite ledger row for key '' @ key @ '' vanished'')
          | Some existing \<Rightarrow> reissue_invite hmac sink existing i normalized secret now)
        else
          cw_bind (set_state op_id ''inflight'' None None now) (\<lambda>_.
          issue_invite sink op_id i normalized now)))"

section \<open>Stored intents read back\<close>

lemma and_then_Inr [simp]: "and_then (Inr x) f = f x" "and_then (Inl e) f = Inl e"
  by (simp_all add: and_then_def)

lemma or_err_simps [simp]: "or_err e (Some x) = Inr x" "or_err e None = Inl e"
  by (simp_all add: or_err_def)

lemma and_then_eq_Inr: "and_then r f = Inr y \<longleftrightarrow> (\<exists>x. r = Inr x \<and> f x = Inr y)"
  by (cases r) auto

lemma all_strings_map [simp]: "all_strings (map (\<lambda>x. JStr (f x)) xs) = Inr (map f xs)"
  by (induction xs) simp_all

lemma normalize_loop_length: "normalize_loop es acc = Inr ns \<Longrightarrow> length acc \<le> length ns \<and> length ns \<le> length acc + length es"
proof (induction es acc arbitrary: ns rule: normalize_loop.induct)
  case (2 e es acc)
  then show ?case by (fastforce simp: Let_def split: if_splits)
qed simp

lemma normalize_loop_nonempty: "normalize_loop (e # es) [] = Inr ns \<Longrightarrow> ns \<noteq> []"
  using normalize_loop_length [of es "[to_ascii_lowercase (trim_text e)]"]
  by (auto simp: Let_def split: if_splits)

lemma invite_intent_shape:
  assumes "invite_intent hmac account item_id emails role secret = Inr (i, ns)"
  shows "validate_share_item_id item_id = Inr ()" "validate_invite_role role = Inr ()" "ns \<noteq> []" "length ns \<le> 20"
    and "i = \<lparr>si_kind = Invite, si_item_id = item_id, si_link_type = None, si_scope = None, si_role = Some role,
      si_recipient_hashes = map (recipient_hash hmac secret account) ns, si_recipient_count = length ns,
      si_require_sign_in = True, si_send_invitation = True\<rparr>"
proof -
  from assms have n: "normalize_invite_recipients emails = Inr ns"
    and "validate_share_item_id item_id = Inr ()" "validate_invite_role role = Inr ()"
    and i: "i = \<lparr>si_kind = Invite, si_item_id = item_id, si_link_type = None, si_scope = None, si_role = Some role,
      si_recipient_hashes = map (recipient_hash hmac secret account) ns, si_recipient_count = length ns,
      si_require_sign_in = True, si_send_invitation = True\<rparr>"
    by (auto simp: invite_intent_def and_then_eq_Inr Let_def)
  then show "validate_share_item_id item_id = Inr ()" "validate_invite_role role = Inr ()" by simp_all
  from i show "i = \<lparr>si_kind = Invite, si_item_id = item_id, si_link_type = None, si_scope = None, si_role = Some role,
      si_recipient_hashes = map (recipient_hash hmac secret account) ns, si_recipient_count = length ns,
      si_require_sign_in = True, si_send_invitation = True\<rparr>" .
  from n obtain ms where ms: "emails \<noteq> []" "length emails \<le> 20" "normalize_loop emails [] = Inr ms" "ns = sort ms"
    by (auto simp: normalize_invite_recipients_def and_then_eq_Inr split: if_splits)
  with normalize_loop_length [OF ms(3)] show "length ns \<le> 20" by simp
  from ms normalize_loop_nonempty have "ms \<noteq> []" by (cases emails) auto
  with ms(4) show "ns \<noteq> []" by (metis length_0_conv length_sort)
qed

text \<open>An invitation is stored without its addresses, and read back with all that recovery needs.\<close>

lemma intent_roundtrip:
  assumes "invite_intent hmac account item_id emails role secret = Inr (i, ns)"
    and "cw_target_id op = Some item_id" "cw_intent_json op = Some (share_intent_json i)"
  shows "intent_from_op op = Inr i"
proof -
  note s = invite_intent_shape [OF assms(1)]
  have "length ns < 2 ^ 64" using s(4) by simp
  then have "as_u64 (JNum (int (length ns))) = Some (length ns)" by (simp add: as_u64_def)
  with s assms(2,3) show ?thesis
    by (simp add: intent_from_op_def share_intent_json_def json_opt_def json_gets comp_def)
qed

section \<open>Invitations and crashes\<close>

text \<open>What is assumed of the cloud: a call to invite sends at most one batch of invitations, listing sends
  none, and the text of an error is not the one the ledger uses for an invitation that never began.\<close>

locale invite_cloud =
  fixes sink :: "'c share_sink" and sent :: "'c \<Rightarrow> nat"
  assumes invite_le: "sent (snd (invite_share sink item emails roles sign_in send c)) \<le> Suc (sent c)"
    and list_sent: "sent (snd (list_share_permissions sink item c)) = sent c"
    and error_text: "fst (invite_share sink item emails roles sign_in send c) = Inl e
      \<Longrightarrow> redacted_share_error e \<noteq> INVITE_NOT_STARTED"
begin

definition progress :: "CloudWriteOp \<Rightarrow> 'c cloud_world \<Rightarrow> bool" where
  "progress op w \<longleftrightarrow> sent (cw_cloud w) \<le> 1
     \<and> only_row op (\<lambda>s e. s = ''pending'' \<or> e = Some INVITE_NOT_STARTED \<longrightarrow> sent (cw_cloud w) = 0) w"

definition unsent :: "CloudWriteOp \<Rightarrow> 'c cloud_world \<Rightarrow> bool" where
  "unsent op w \<longleftrightarrow> sent (cw_cloud w) = 0 \<and> only_row op (\<lambda>s e. True) w"

lemma unsent_progress: "unsent op w \<Longrightarrow> progress op w"
  by (auto simp: progress_def unsent_def elim: only_row_mono)

lemma set_state_progress:
  assumes "progress op w" "op_id = cw_op_id op"
    and "st \<noteq> ''pending'' \<and> err \<noteq> Some INVITE_NOT_STARTED \<or> sent (cw_cloud w) = 0"
  shows "progress op (w\<lparr>cw_ledger := set_cloud_write_state op_id st res err now (cw_ledger w)\<rparr>)"
proof -
  from assms(1) have "only_row op (\<lambda>s e. s = ''pending'' \<or> e = Some INVITE_NOT_STARTED \<longrightarrow> sent (cw_cloud w) = 0) w"
    by (simp add: progress_def)
  from only_row_set_state [OF this assms(2), of st err res now] assms(1,3) show ?thesis
    by (auto simp: progress_def elim!: only_row_mono)
qed

lemma keeps_set_progress:
  assumes "op_id = cw_op_id op"
    and "\<And>w. pre w \<Longrightarrow> progress op w \<and> (st \<noteq> ''pending'' \<and> err \<noteq> Some INVITE_NOT_STARTED \<or> sent (cw_cloud w) = 0)"
  shows "keeps pre (set_state op_id st res err now) (\<lambda>r w. r = Inr () \<and> progress op w) (progress op)"
  using assms(2) set_state_progress [OF _ assms(1)] by (intro keeps_set_state) (simp_all add: Let_def)

lemma keeps_set_then:
  assumes "op_id = cw_op_id op" "st \<noteq> ''pending''" "err \<noteq> Some INVITE_NOT_STARTED"
    and "\<And>w. progress op w \<Longrightarrow> post (Inr x) w"
  shows "keeps (progress op) (cw_bind (set_state op_id st res err now) (\<lambda>_. cw_ret x)) post (progress op)"
  by (rule keeps_bind [OF keeps_set_progress [OF assms(1)]]) (use assms in \<open>auto intro!: keeps_ret\<close>)

lemma issue_invite_keeps:
  assumes "op_id = cw_op_id op"
  shows "keeps (\<lambda>w. sent (cw_cloud w) = 0 \<and> only_row op (\<lambda>s e. s = ''inflight'' \<and> e = None) w)
    (issue_invite sink op_id i emails now) (\<lambda>_. progress op) (progress op)"
    (is "keeps ?pre _ _ _")
proof -
  have pre: "progress op w" if "?pre w" for w using that by (auto simp: progress_def elim: only_row_mono)
  let ?called = "\<lambda>r w. progress op w \<and> (\<forall>e. r = Inl e \<longrightarrow> redacted_share_error e \<noteq> INVITE_NOT_STARTED)"
  have call: "keeps ?pre (on_cloud (invite_share sink it es rs b b')) ?called (progress op)" for it es rs b b'
  proof (rule keeps_cloud [OF pre])
    fix w r c
    assume w: "?pre w" and call: "invite_share sink it es rs b b' (cw_cloud w) = (r, c)"
    from call w have "sent c \<le> 1" using invite_le [of it es rs b b' "cw_cloud w"] by simp
    moreover from w have "only_row op (\<lambda>s e. s = ''inflight'' \<and> e = None) (w\<lparr>cw_cloud := c\<rparr>)" by simp
    ultimately have "progress op (w\<lparr>cw_cloud := c\<rparr>)" by (auto simp: progress_def elim!: only_row_mono)
    then show "progress op (w\<lparr>cw_cloud := c\<rparr>) \<and> ?called r (w\<lparr>cw_cloud := c\<rparr>)"
      using error_text call by (metis fst_conv)
  qed
  have err: "keeps (?called (Inl e))
      (cw_bind (set_state op_id ''inflight'' None (Some (redacted_share_error e)) now) (\<lambda>_. cw_throw e))
      (\<lambda>_. progress op) (progress op)" for e
    by (rule keeps_bind [OF keeps_set_progress [OF assms]]) (auto intro: keeps_throw)
  have ok: "keeps (?called (Inr r)) (case r of Applied ids \<Rightarrow> apply_invite_success op_id ids (si_recipient_count i) now
      | Partial _ _ _ \<Rightarrow> cw_bind (set_invite_failed op_id INVITE_PARTIAL_SUCCESS now) (\<lambda>_. cw_throw INVITE_PARTIAL_SUCCESS))
      (\<lambda>_. progress op) (progress op)" for r
  proof (cases r)
    case (Applied ids)
    then show ?thesis
      by (simp add: apply_invite_success_def) (rule keeps_set_then [OF assms], simp_all)
  next
    case (Partial ids n t)
    have "INVITE_PARTIAL_SUCCESS \<noteq> INVITE_NOT_STARTED" by (simp add: INVITE_PARTIAL_SUCCESS_def INVITE_NOT_STARTED_def)
    then have "keeps (progress op) (set_invite_failed op_id INVITE_PARTIAL_SUCCESS now) (\<lambda>_. progress op) (progress op)"
      unfolding set_invite_failed_def by (intro keeps_set_then [OF assms]) simp_all
    from keeps_bind [OF this, where f = "\<lambda>_. cw_throw INVITE_PARTIAL_SUCCESS" and post = "\<lambda>_. progress op"] Partial
    show ?thesis by (simp add: keeps_throw)
  qed
  show ?thesis
    unfolding issue_invite_def
    by (rule keeps_bind [where mid = "\<lambda>_. ?pre"], rule keeps_lift, simp add: pre, simp add: pre)
       (rule keeps_match [OF call err ok])
qed

lemma recover_invite_keeps:
  assumes "intent_from_op op' = Inr i" "si_kind i = Invite" "stands_for op op'"
  shows "keeps (\<lambda>w. progress op w \<and> only_row op (\<lambda>s e. s = cw_state op' \<and> e = cw_last_error op') w)
    (recover_share_write_op hmac sink op' secret now) (\<lambda>_. progress op) (progress op)"
    (is "keeps ?pre _ _ _")
proof -
  have id: "cw_op_id op' = cw_op_id op" using assms(3) by (simp add: stands_for_def)
  have listed: "keeps ?pre (on_cloud (list_share_permissions sink it)) (\<lambda>_. progress op) (progress op)" for it
  proof (rule keeps_cloud)
    fix w r c
    assume "?pre w" "list_share_permissions sink it (cw_cloud w) = (r, c)"
    moreover from this have "sent c = sent (cw_cloud w)" using list_sent [of it "cw_cloud w"] by simp
    ultimately show "progress op (w\<lparr>cw_cloud := c\<rparr>) \<and> progress op (w\<lparr>cw_cloud := c\<rparr>)" by (auto simp: progress_def)
  qed simp
  have neq: "INVITE_AMBIGUOUS \<noteq> INVITE_NOT_STARTED" by (simp add: INVITE_AMBIGUOUS_def INVITE_NOT_STARTED_def)
  have decide: "keeps (progress op) (case x of Some ids \<Rightarrow> apply_invite_success (cw_op_id op') ids n now
      | None \<Rightarrow> set_invite_failed (cw_op_id op') INVITE_AMBIGUOUS now) (\<lambda>_. progress op) (progress op)" for x n
    by (cases x; simp only: apply_invite_success_def set_invite_failed_def option.case; intro keeps_set_then [OF id])
       (simp_all add: neq)
  have recover: "recover_share_write_op hmac sink op' secret now
      = recover_invite_write_op hmac sink (cw_account_id op') op' secret i now"
    using assms(1,2) by (simp add: recover_share_write_op_def)
  show ?thesis
  proof (cases "cw_state op' = ''pending''")
    case True
    have "keeps ?pre (set_state (cw_op_id op') ''failed'' None (Some INVITE_NOT_STARTED) now)
        (\<lambda>r w. r = Inr () \<and> progress op w) (progress op)"
      using True by (intro keeps_set_progress [OF id]) (auto simp: progress_def only_row_def)
    from keeps_bind [OF this, where f = "\<lambda>_. cw_ret (FailedClosed INVITE_NOT_STARTED)" and post = "\<lambda>_. progress op"] True
    show ?thesis by (simp add: recover recover_invite_write_op_def set_invite_failed_def keeps_ret)
  next
    case False
    have "keeps ?pre (cw_bind (on_cloud (list_share_permissions sink (si_item_id i))) (\<lambda>ps.
        case invite_recovered_permission_ids hmac ps i secret (cw_account_id op') of
          Some ids \<Rightarrow> apply_invite_success (cw_op_id op') ids (si_recipient_count i) now
        | None \<Rightarrow> set_invite_failed (cw_op_id op') INVITE_AMBIGUOUS now)) (\<lambda>_. progress op) (progress op)"
      by (rule keeps_bind [OF listed _ decide]) simp
    with False show ?thesis
      unfolding recover recover_invite_write_op_def by (auto intro: keeps_ret)
  qed
qed

definition fine :: "CloudWriteOp \<Rightarrow> 'c cloud_world \<Rightarrow> bool" where
  "fine op w \<longleftrightarrow> cw_ledger w = [] \<and> sent (cw_cloud w) = 0 \<or> progress op w"

lemma send_keeps:
  assumes "op_id = cw_op_id op"
  shows "keeps (unsent op) (cw_bind (set_state op_id ''inflight'' None None now) (\<lambda>_. issue_invite sink op_id i emails now))
    (\<lambda>_. progress op) (progress op)"
proof (rule keeps_bind [OF keeps_set_state, where
      mid = "\<lambda>r w. r = Inr () \<and> sent (cw_cloud w) = 0 \<and> only_row op (\<lambda>s e. s = ''inflight'' \<and> e = None) w"])
  fix w
  assume u: "unsent op w"
  then show "progress op w" by (rule unsent_progress)
  from u only_row_set_state [OF _ assms] set_state_progress [OF unsent_progress [OF u] assms]
  show "let w' = w\<lparr>cw_ledger := set_cloud_write_state op_id ''inflight'' None None now (cw_ledger w)\<rparr>
      in progress op w' \<and> Inr () = Inr () \<and> sent (cw_cloud w') = 0 \<and> only_row op (\<lambda>s e. s = ''inflight'' \<and> e = None) w'"
    by (auto simp: unsent_def Let_def)
qed (use issue_invite_keeps [OF assms] in auto)

lemma record_keeps:
  assumes "cw_state op = ''pending''" "cw_last_error op = None"
  shows "keeps (fine op) (record_intent op now)
    (\<lambda>r w. r = Inr True \<and> unsent op w \<or> r = Inr False \<and> progress op w) (fine op)"
  unfolding record_intent_def
proof (rule keeps_ledger)
  fix w x rows
  assume w: "fine op w" and r: "record_cloud_write op now (cw_ledger w) = (x, rows)"
  show "fine op (w\<lparr>cw_ledger := rows\<rparr>) \<and> (Inr x = Inr True \<and> unsent op (w\<lparr>cw_ledger := rows\<rparr>)
      \<or> Inr x = Inr False \<and> progress op (w\<lparr>cw_ledger := rows\<rparr>))"
  proof (cases "cw_ledger w = []")
    case True
    with w have "sent (cw_cloud w) = 0" by (auto simp: fine_def progress_def only_row_def)
    with only_row_record_new [OF True r] have "x" "unsent op (w\<lparr>cw_ledger := rows\<rparr>)"
      by (auto simp: unsent_def elim: only_row_mono)
    then show ?thesis by (simp add: fine_def unsent_progress)
  next
    case False
    with w have "progress op w" by (simp add: fine_def)
    moreover from this only_row_record_again [OF _ r] have "\<not> x" "rows = cw_ledger w" by (auto simp: progress_def)
    ultimately show ?thesis by (simp add: fine_def)
  qed
qed

definition found :: "CloudWriteOp \<Rightarrow> CloudWriteOp \<Rightarrow> 'c cloud_world \<Rightarrow> bool" where
  "found op op' w \<longleftrightarrow> stands_for op op' \<and> progress op w \<and> only_row op (\<lambda>s e. s = cw_state op' \<and> e = cw_last_error op') w"

lemma ask_keeps:
  "keeps (progress op) (ask_ledger (cloud_write_by_key (cw_account_id op) (cw_idempotency_key op)))
    (\<lambda>r w. \<exists>op'. r = Inr (Some op') \<and> found op op' w) (progress op)"
proof (rule keeps_ask)
  fix w
  assume w: "progress op w"
  then have "only_row op (\<lambda>s e. s = ''pending'' \<or> e = Some INVITE_NOT_STARTED \<longrightarrow> sent (cw_cloud w) = 0) w"
    by (simp add: progress_def)
  then obtain op' where "cloud_write_by_key (cw_account_id op) (cw_idempotency_key op) (cw_ledger w) = Some op'"
    "stands_for op op'" "only_row op (\<lambda>s e. s = cw_state op' \<and> e = cw_last_error op') w"
    by (rule only_row_by_key)
  with w show "progress op w \<and> (\<exists>op'. Inr (cloud_write_by_key (cw_account_id op) (cw_idempotency_key op) (cw_ledger w))
      = Inr (Some op') \<and> found op op' w)" by (simp add: found_def)
qed

lemma reissue_keeps:
  assumes "intent_from_op op' = Inr i" "si_kind i = Invite"
  shows "keeps (found op op') (reissue_invite hmac sink op' i ns secret now) (\<lambda>_. progress op) (progress op)"
proof (cases "stands_for op op'")
  case True
  then have id: "cw_op_id op' = cw_op_id op" by (simp add: stands_for_def)
  have "keeps (found op op') (cw_bind (set_state (cw_op_id op') ''inflight'' None None now) (\<lambda>_.
        issue_invite sink (cw_op_id op') i ns now)) (\<lambda>_. progress op) (progress op)"
    if "cw_state op' = ''pending'' \<or> cw_last_error op' = Some INVITE_NOT_STARTED"
    by (rule keeps_mono [OF send_keeps [OF id]])
       (use that in \<open>auto simp: found_def progress_def unsent_def only_row_def\<close>)
  moreover have "keeps (found op op') (recover_share_write_op hmac sink op' secret now) (\<lambda>_. progress op) (progress op)"
    by (rule keeps_mono [OF recover_invite_keeps [OF assms True]]) (auto simp: found_def)
  moreover have "keeps (found op op') (cw_throw e) (\<lambda>_. progress op) (progress op)" for e
    by (rule keeps_throw) (simp add: found_def)
  ultimately show ?thesis unfolding reissue_invite_def by (auto split: if_split)
qed (simp add: keeps_def found_def)

lemma run_invite_keeps:
  assumes "invite_intent hmac account item_id emails role secret = Inr (i, ns)"
    and "share_keys hmac i secret account = (op_id, key)" and "op = share_op op_id account item_id key i"
  shows "keeps (fine op) (run_invite hmac sink account item_id emails role secret now) (\<lambda>_. fine op) (fine op)"
proof -
  have op: "cw_op_id op = op_id" "cw_account_id op = account" "cw_idempotency_key op = key" "cw_state op = ''pending''"
    "cw_last_error op = None" "cw_target_id op = Some item_id" "cw_intent_json op = Some (share_intent_json i)"
    by (simp_all add: assms(3) share_op_def)
  have kind: "si_kind i = Invite" using invite_intent_shape(5) [OF assms(1)] by simp
  have pf: "progress op w \<Longrightarrow> fine op w" for w by (simp add: fine_def)
  have again: "keeps (\<lambda>w. \<exists>op'. Inr x = Inr (Some op') \<and> found op op' w) (case x of
        None \<Rightarrow> cw_throw (''invite ledger row for key '' @ key @ '' vanished'')
      | Some existing \<Rightarrow> reissue_invite hmac sink existing i ns secret now) (\<lambda>_. progress op) (progress op)" for x
  proof (cases "\<exists>op'. x = Some op' \<and> stands_for op op'")
    case True
    then obtain op' where x: "x = Some op'" "stands_for op op'" by blast
    then have "intent_from_op op' = Inr i"
      using intent_roundtrip [OF assms(1)] op by (simp add: stands_for_def)
    from reissue_keeps [OF this kind] x show ?thesis by simp
  qed (auto simp: keeps_def found_def)
  let ?old = "cw_bind (ask_ledger (cloud_write_by_key account key)) (\<lambda>found. case found of
        None \<Rightarrow> cw_throw (''invite ledger row for key '' @ key @ '' vanished'')
      | Some existing \<Rightarrow> reissue_invite hmac sink existing i ns secret now)"
  let ?fresh = "cw_bind (set_state op_id ''inflight'' None None now) (\<lambda>_. issue_invite sink op_id i ns now)"
  have "keeps (progress op) ?old (\<lambda>_. progress op) (progress op)"
    by (rule keeps_bind [OF ask_keeps [of op, unfolded op] _ again]) simp
  then have old: "keeps (progress op) ?old (\<lambda>_. fine op) (fine op)" by (rule keeps_mono) (simp_all add: pf)
  have new: "keeps (unsent op) ?fresh (\<lambda>_. fine op) (fine op)"
    by (rule keeps_mono [OF send_keeps [OF op(1) [symmetric]]]) (simp_all add: pf)
  have "keeps (\<lambda>w. Inr new = Inr True \<and> unsent op w \<or> Inr new = Inr False \<and> progress op w)
      (if \<not> new then ?old else ?fresh) (\<lambda>_. fine op) (fine op)" for new
    by (rule keeps_if_new [OF old new])
  then have run: "keeps (fine op) (cw_bind (record_intent op now) (\<lambda>new. if \<not> new then ?old else ?fresh))
      (\<lambda>_. fine op) (fine op)"
    by (rule keeps_bind [OF record_keeps [OF op(4,5)], rotated]) simp
  have "run_invite hmac sink account item_id emails role secret now
      = cw_bind (record_intent op now) (\<lambda>new. if \<not> new then ?old else ?fresh)"
    by (simp only: run_invite_def assms cw_bind_lift prod.case Let_def)
  with run show ?thesis by (simp only:)
qed

end

end
