(* ===== verification/Cloud_Writes.thy ===== *)
theory Cloud_Writes
  imports Cloud_Shares
begin

text \<open>
  Crash-safe OneDrive writes (\<^verbatim>\<open>engine/src/onedrive_write.rs\<close>): the request with its keys and stored
  intent, \<^verbatim>\<open>issue\<close>, \<^verbatim>\<open>run_cloud_write\<close>, the recovery of one operation and of all pending ones, and the
  production sink's calls on the Graph client. The calls of \<^verbatim>\<open>OneDriveWriteSink\<close> are a record of functions
  on the cloud; \<open>body\<close> reads a body from its local source (\<^verbatim>\<open>envelope::read_body\<close>) and \<open>exists\<close> says
  whether the file is there.
\<close>

section \<open>Requests\<close>

datatype ReplaceOutcome = Replaced string | Conflict

datatype WriteOutcome = Applied string | Conflict

datatype Issued = Done string | Conflict

record 'c write_sink =
  ws_create_folder :: "string \<Rightarrow> string \<Rightarrow> 'c \<Rightarrow> (string + string) \<times> 'c"
  ws_find_child_folder :: "string \<Rightarrow> string \<Rightarrow> 'c \<Rightarrow> (string + string option) \<times> 'c"
  ws_find_child :: "string \<Rightarrow> string \<Rightarrow> 'c \<Rightarrow> (string + string option) \<times> 'c"
  ws_rename_or_move :: "string \<Rightarrow> string option \<Rightarrow> string \<Rightarrow> 'c \<Rightarrow> (string + unit) \<times> 'c"
  ws_delete :: "string \<Rightarrow> 'c \<Rightarrow> (string + unit) \<times> 'c"
  ws_upload :: "string \<Rightarrow> string \<Rightarrow> bytes \<Rightarrow> 'c \<Rightarrow> (string + string) \<times> 'c"
  ws_replace_if_match :: "string \<Rightarrow> bytes \<Rightarrow> string \<Rightarrow> 'c \<Rightarrow> (string + ReplaceOutcome) \<times> 'c"

record CloudWrite =
  wr_kind :: CloudOpKind
  wr_target_id :: string
  wr_name :: string
  wr_new_parent_id :: "string option"
  wr_if_match :: "string option"
  wr_local_path :: "string option"
  wr_content_tag :: "string option"

definition write_intent_json :: "CloudWrite \<Rightarrow> json" where
  "write_intent_json w =
     JObj [(''name'', JStr (wr_name w)), (''new_parent_id'', json_opt (wr_new_parent_id w)),
       (''local_path'', json_opt (wr_local_path w))]"

definition write_source :: "CloudWrite \<Rightarrow> string" where
  "write_source w =
     cloud_as_str (wr_kind w) @ ''|'' @ wr_target_id w @ ''|'' @ wr_name w @ ''|'' @ or_empty (wr_new_parent_id w)
     @ (case wr_content_tag w of Some tag \<Rightarrow> ''|'' @ tag | None \<Rightarrow> [])"

definition write_keys :: "(bytes \<Rightarrow> bytes \<Rightarrow> bytes) \<Rightarrow> CloudWrite \<Rightarrow> bytes \<Rightarrow> string \<Rightarrow> string \<times> string" where
  "write_keys hmac w secret account =
     (let key = idempotency_key hmac secret account SERVICE (write_source w) []
      in (restore_op_id account key, key))"

section \<open>Issuing\<close>

definition read_local_body :: "(string \<Rightarrow> string + bytes) \<Rightarrow> string option \<Rightarrow> string + bytes" where
  "read_local_body body local_path =
     and_then (or_err ''cloud-write body op has no local_path'' local_path) body"

definition issue ::
  "(string \<Rightarrow> string + bytes) \<Rightarrow> 'c write_sink \<Rightarrow> CloudWrite \<Rightarrow> (Issued, 'c) cw_prog" where
  "issue body sink w =
     (case wr_kind w of
        Create \<Rightarrow> cw_bind (on_cloud (ws_create_folder sink (wr_target_id w) (wr_name w))) (\<lambda>x. cw_ret (Done x))
      | Rename \<Rightarrow> cw_bind (on_cloud (ws_rename_or_move sink (wr_target_id w) None (wr_name w))) (\<lambda>_. cw_ret (Done []))
      | Move \<Rightarrow> cw_bind (on_cloud (ws_rename_or_move sink (wr_target_id w) (wr_new_parent_id w) (wr_name w)))
                  (\<lambda>_. cw_ret (Done []))
      | Delete \<Rightarrow> cw_bind (on_cloud (ws_delete sink (wr_target_id w))) (\<lambda>_. cw_ret (Done []))
      | Upload \<Rightarrow>
          cw_bind (cw_lift (read_local_body body (wr_local_path w))) (\<lambda>bytes.
          cw_bind (on_cloud (ws_upload sink (wr_target_id w) (wr_name w) bytes)) (\<lambda>x. cw_ret (Done x)))
      | Replace \<Rightarrow>
          cw_bind (cw_lift (read_local_body body (wr_local_path w))) (\<lambda>bytes.
          cw_bind (on_cloud (ws_replace_if_match sink (wr_target_id w) bytes (or_empty (wr_if_match w)))) (\<lambda>r.
          case r of Replaced x \<Rightarrow> cw_ret (Done x) | ReplaceOutcome.Conflict \<Rightarrow> cw_ret Issued.Conflict))
      | Share \<Rightarrow> cw_throw (''unsupported cloud-write kind '' @ [CHR 0x27] @ cloud_as_str Share @ [CHR 0x27]))"

section \<open>Recovery\<close>

text \<open>The fields of a stored intent.\<close>

definition intent_field :: "string \<Rightarrow> CloudWriteOp \<Rightarrow> string option" where
  "intent_field k op = Option.bind (cw_intent_json op) (get_str k)"

text \<open>What recovery does to the cloud for the kinds other than a share.\<close>

definition recover_call ::
  "(string \<Rightarrow> string + bytes) \<Rightarrow> 'c write_sink \<Rightarrow> CloudOpKind \<Rightarrow> CloudWriteOp \<Rightarrow> (WriteOutcome, 'c) cw_prog" where
  "recover_call body sink kind op =
     (let target = or_empty (cw_target_id op);
          name = or_empty (intent_field ''name'' op);
          new_parent = intent_field ''new_parent_id'' op;
          local_path = intent_field ''local_path'' op
      in case kind of
           Delete \<Rightarrow> cw_bind (on_cloud (ws_delete sink target)) (\<lambda>_. cw_ret (Applied []))
         | Rename \<Rightarrow> cw_bind (on_cloud (ws_rename_or_move sink target None name)) (\<lambda>_. cw_ret (Applied []))
         | Move \<Rightarrow> cw_bind (on_cloud (ws_rename_or_move sink target new_parent name)) (\<lambda>_. cw_ret (Applied []))
         | Create \<Rightarrow>
             cw_bind (on_cloud (ws_find_child_folder sink target name)) (\<lambda>found.
             case found of
               Some x \<Rightarrow> cw_ret (Applied x)
             | None \<Rightarrow> cw_bind (on_cloud (ws_create_folder sink target name)) (\<lambda>x. cw_ret (Applied x)))
         | Upload \<Rightarrow>
             cw_bind (on_cloud (ws_find_child sink target name)) (\<lambda>found.
             case found of
               Some x \<Rightarrow> cw_ret (Applied x)
             | None \<Rightarrow>
                 cw_bind (cw_lift (read_local_body body local_path)) (\<lambda>bytes.
                 cw_bind (on_cloud (ws_upload sink target name bytes)) (\<lambda>x. cw_ret (Applied x))))
         | Replace \<Rightarrow>
             cw_bind (cw_lift (read_local_body body local_path)) (\<lambda>bytes.
             cw_bind (on_cloud (ws_replace_if_match sink target bytes (or_empty (cw_if_match_etag op)))) (\<lambda>r.
             case r of Replaced x \<Rightarrow> cw_ret (Applied x) | ReplaceOutcome.Conflict \<Rightarrow> cw_ret WriteOutcome.Conflict))
         | Share \<Rightarrow> cw_ret (Applied []))"

definition recover_cloud_write_op ::
  "(bytes \<Rightarrow> bytes \<Rightarrow> bytes) \<Rightarrow> (string \<Rightarrow> string + bytes) \<Rightarrow> 'c write_sink \<Rightarrow> 'c share_sink \<Rightarrow> CloudWriteOp \<Rightarrow> bytes \<Rightarrow> int
     \<Rightarrow> (WriteOutcome, 'c) cw_prog" where
  "recover_cloud_write_op hmac body sink shares op secret now =
     (if cw_state op = ''applied'' then cw_ret (Applied (or_empty (cw_result_id op)))
      else if cw_state op = ''conflict'' then cw_ret WriteOutcome.Conflict
      else
        cw_bind (cw_lift (or_err (''unknown ledger op_kind '' @ [CHR 0x27] @ cw_op_kind op @ [CHR 0x27])
                   (cloud_parse (cw_op_kind op)))) (\<lambda>kind.
        if intent_field ''source_kind'' op = Some ''mutation_intent'' then cw_throw ''mutation_intent_resume_required''
        else if kind = Share then
          cw_bind (recover_share_write_op hmac shares op secret now) (\<lambda>_. cw_ret (Applied []))
        else
          cw_bind (recover_call body sink kind op) (\<lambda>outcome.
          cw_bind
            (case outcome of
               Applied x \<Rightarrow> set_state (cw_op_id op) ''applied'' (non_empty x) None now
             | WriteOutcome.Conflict \<Rightarrow> set_state (cw_op_id op) ''conflict'' None None now) (\<lambda>_.
          cw_ret outcome))))"

definition cloud_write_body_source_missing :: "(string \<Rightarrow> bool) \<Rightarrow> CloudWriteOp \<Rightarrow> bool" where
  "cloud_write_body_source_missing exists op =
     (if \<not> (cloud_parse (cw_op_kind op) = Some Upload \<or> cloud_parse (cw_op_kind op) = Some Replace) then False
      else if intent_field ''source_kind'' op = Some ''mutation_intent'' then False
      else (case intent_field ''local_path'' op of None \<Rightarrow> True | Some p \<Rightarrow> \<not> exists p))"

fun recover_writes_loop ::
  "(bytes \<Rightarrow> bytes \<Rightarrow> bytes) \<Rightarrow> (string \<Rightarrow> string + bytes) \<Rightarrow> (string \<Rightarrow> bool) \<Rightarrow> 'c write_sink \<Rightarrow> 'c share_sink
     \<Rightarrow> bytes \<Rightarrow> int \<Rightarrow> CloudWriteOp list \<Rightarrow> nat \<Rightarrow> (nat, 'c) cw_prog" where
  "recover_writes_loop hmac body exists sink shares secret now [] recovered = cw_ret recovered"
| "recover_writes_loop hmac body exists sink shares secret now (op # ops) recovered =
     cw_match (recover_cloud_write_op hmac body sink shares op secret now)
       (\<lambda>e. cw_bind
              (if cloud_write_body_source_missing exists op
               then set_state (cw_op_id op) ''failed'' None (Some e) now else cw_ret ()) (\<lambda>_.
            recover_writes_loop hmac body exists sink shares secret now ops recovered))
       (\<lambda>_. recover_writes_loop hmac body exists sink shares secret now ops (Suc recovered))"

definition recover_pending_cloud_writes ::
  "(bytes \<Rightarrow> bytes \<Rightarrow> bytes) \<Rightarrow> (string \<Rightarrow> string + bytes) \<Rightarrow> (string \<Rightarrow> bool) \<Rightarrow> 'c write_sink \<Rightarrow> 'c share_sink
     \<Rightarrow> string \<Rightarrow> bytes \<Rightarrow> int \<Rightarrow> (nat, 'c) cw_prog" where
  "recover_pending_cloud_writes hmac body exists sink shares account secret now =
     cw_bind (ask_ledger (pending_cloud_writes account)) (\<lambda>pending.
     recover_writes_loop hmac body exists sink shares secret now pending 0)"

section \<open>A fresh write\<close>

definition write_op :: "string \<Rightarrow> string \<Rightarrow> string \<Rightarrow> CloudWrite \<Rightarrow> CloudWriteOp" where
  "write_op op_id account key w =
     \<lparr>cw_op_id = op_id, cw_account_id = account, cw_service = SERVICE, cw_op_kind = cloud_as_str (wr_kind w),
      cw_target_id = Some (wr_target_id w), cw_idempotency_key = key, cw_if_match_etag = wr_if_match w,
      cw_state = ''pending'', cw_result_id = None, cw_intent_json = Some (write_intent_json w), cw_attempts = 0,
      cw_last_error = None\<rparr>"

definition run_cloud_write ::
  "(bytes \<Rightarrow> bytes \<Rightarrow> bytes) \<Rightarrow> (string \<Rightarrow> string + bytes) \<Rightarrow> 'c write_sink \<Rightarrow> 'c share_sink \<Rightarrow> string \<Rightarrow> CloudWrite
     \<Rightarrow> bytes \<Rightarrow> int \<Rightarrow> (WriteOutcome, 'c) cw_prog" where
  "run_cloud_write hmac body sink shares account w secret now =
     (let (op_id, key) = write_keys hmac w secret account
      in cw_bind (record_intent (write_op op_id account key w) now) (\<lambda>new.
         if \<not> new then
           cw_bind (ask_ledger (cloud_write_by_key account key)) (\<lambda>found.
           case found of
             None \<Rightarrow> cw_throw (''ledger row for key '' @ key @ '' vanished'')
           | Some existing \<Rightarrow> recover_cloud_write_op hmac body sink shares existing secret now)
         else
           cw_bind (set_state op_id ''inflight'' None None now) (\<lambda>_.
           cw_match (issue body sink w)
             (\<lambda>e. cw_bind (set_state op_id ''inflight'' None (Some e) now) (\<lambda>_. cw_throw e))
             (\<lambda>r. case r of
                    Done x \<Rightarrow>
                      cw_bind (set_state op_id ''applied'' (non_empty x) None now) (\<lambda>_. cw_ret (Applied x))
                  | Issued.Conflict \<Rightarrow>
                      cw_bind (set_state op_id ''conflict'' None None now) (\<lambda>_. cw_ret WriteOutcome.Conflict)))))"

section \<open>Invitations in the whole ledger\<close>

lemma intent_field_share: "cw_intent_json op = Some (share_intent_json i) \<Longrightarrow> intent_field ''source_kind'' op = None"
  by (simp add: intent_field_def share_intent_json_def json_gets split: ShareKind.split)

text \<open>Boot recovery when the ledger has at most one open row.\<close>

lemma boot_one:
  assumes pending: "\<And>w. I w \<Longrightarrow> pending_cloud_writes account (cw_ledger w) = []
      \<or> (\<exists>op'. pending_cloud_writes account (cw_ledger w) = [op'] \<and> F op' w)"
    and recover: "\<And>op'. keeps (\<lambda>w. I w \<and> F op' w) (recover_cloud_write_op hmac body sink shares op' secret now) (\<lambda>_. I) I"
    and source: "\<And>op' w. F op' w \<Longrightarrow> \<not> cloud_write_body_source_missing exists op'"
  shows "keeps I (recover_pending_cloud_writes hmac body exists sink shares account secret now) (\<lambda>_. I) I"
  unfolding recover_pending_cloud_writes_def
proof (rule keeps_bind [OF keeps_ask, where
      mid = "\<lambda>r w. I w \<and> (r = Inr [] \<or> (\<exists>op'. r = Inr [op'] \<and> F op' w))"])
  fix w
  assume "I w"
  then show "I w \<and> I w \<and> (Inr (pending_cloud_writes account (cw_ledger w)) = Inr []
      \<or> (\<exists>op'. Inr (pending_cloud_writes account (cw_ledger w)) = Inr [op'] \<and> F op' w))"
    using pending by auto
next
  fix ops
  show "keeps (\<lambda>w. I w \<and> (Inr ops = Inr [] \<or> (\<exists>op'. Inr ops = Inr [op'] \<and> F op' w)))
      (recover_writes_loop hmac body exists sink shares secret now ops 0) (\<lambda>_. I) I"
  proof (cases "\<exists>op' w. ops = [op'] \<and> F op' w")
    case True
    then obtain op' where ops: "ops = [op']" and "\<not> cloud_write_body_source_missing exists op'" using source by blast
    then have "keeps (\<lambda>w. I w \<and> F op' w) (recover_writes_loop hmac body exists sink shares secret now [op'] 0) (\<lambda>_. I) I"
      using recover [of op'] by (simp add: keeps_match keeps_ret cw_bind_ret)
    then show ?thesis unfolding ops by (rule keeps_mono) auto
  qed (auto simp: keeps_def cw_ret_def)
qed simp_all

context invite_cloud
begin

lemma boot_keeps:
  assumes "cw_op_kind op = cloud_as_str Share"
    and "\<And>op'. stands_for op op' \<Longrightarrow> intent_from_op op' = Inr i" "si_kind i = Invite"
    and "cw_intent_json op = Some (share_intent_json i)"
  shows "keeps (fine op) (recover_pending_cloud_writes hmac body exists ws sink account secret now) (\<lambda>_. fine op) (fine op)"
proof (rule boot_one [where F = "\<lambda>op'. \<lambda>w. is_open (cw_state op') \<and> found op op' w"])
  fix w
  assume w: "fine op w"
  show "pending_cloud_writes account (cw_ledger w) = [] \<or> (\<exists>op'. pending_cloud_writes account (cw_ledger w) = [op']
      \<and> is_open (cw_state op') \<and> found op op' w)"
  proof (cases "cw_ledger w = []")
    case False
    with w have p: "progress op w" by (simp add: fine_def)
    then have "only_row op (\<lambda>s e. s = ''pending'' \<or> e = Some INVITE_NOT_STARTED \<longrightarrow> sent (cw_cloud w) = 0) w"
      by (simp add: progress_def)
    from only_row_pending [OF this, of account] p show ?thesis by (auto simp: found_def)
  qed (simp add: pending_cloud_writes_def)
next
  fix op'
  have share: "cloud_parse (cw_op_kind op') = Some Share \<and> intent_field ''source_kind'' op' = None" if "stands_for op op'"
    using that assms(1,4) intent_field_share by (simp add: stands_for_def cloud_parse_def)
  show "\<not> cloud_write_body_source_missing exists op'" if "is_open (cw_state op') \<and> found op op' w" for w
    using that share by (simp add: cloud_write_body_source_missing_def found_def)
  show "keeps (\<lambda>w. fine op w \<and> is_open (cw_state op') \<and> found op op' w)
      (recover_cloud_write_op hmac body ws sink op' secret now) (\<lambda>_. fine op) (fine op)"
  proof (cases "is_open (cw_state op') \<and> stands_for op op'")
    case True
    then have r: "recover_cloud_write_op hmac body ws sink op' secret now
        = cw_bind (recover_share_write_op hmac sink op' secret now) (\<lambda>_. cw_ret (Applied []))"
      using share by (auto simp: recover_cloud_write_op_def is_open_def cw_bind_lift)
    have "keeps (found op op') (recover_share_write_op hmac sink op' secret now) (\<lambda>_. progress op) (progress op)"
      by (rule keeps_mono [OF recover_invite_keeps [OF assms(2,3)]]) (use True in \<open>auto simp: found_def\<close>)
    then have "keeps (found op op') (recover_cloud_write_op hmac body ws sink op' secret now) (\<lambda>_. progress op) (progress op)"
      unfolding r by (rule keeps_bind) (simp_all add: keeps_ret)
    then show ?thesis by (rule keeps_mono) (simp_all add: fine_def)
  qed (auto simp: keeps_def found_def)
qed

end

section \<open>Folders and crashes\<close>

text \<open>What is assumed of the cloud for one folder name: creating adds at most one folder of that name, and
  one when it reports success; looking for it changes nothing and is right. Creating twice makes two.\<close>

locale folder_cloud =
  fixes sink :: "'c write_sink" and present :: "'c \<Rightarrow> nat" and parent name :: string
  assumes create_le: "present (snd (ws_create_folder sink parent name c)) \<le> Suc (present c)"
    and create_ok: "fst (ws_create_folder sink parent name c) = Inr x
      \<Longrightarrow> 1 \<le> present (snd (ws_create_folder sink parent name c))"
    and find_same: "present (snd (ws_find_child_folder sink parent name c)) = present c"
    and find_hit: "fst (ws_find_child_folder sink parent name c) = Inr (Some x) \<Longrightarrow> 1 \<le> present c"
    and find_miss: "fst (ws_find_child_folder sink parent name c) = Inr None \<Longrightarrow> present c = 0"
begin

definition made :: "CloudWriteOp \<Rightarrow> 'c cloud_world \<Rightarrow> bool" where
  "made op w \<longleftrightarrow> present (cw_cloud w) \<le> 1
     \<and> only_row op (\<lambda>s e. s \<noteq> ''conflict'' \<and> (s = ''applied'' \<longrightarrow> present (cw_cloud w) = 1)) w"

definition sound :: "CloudWriteOp \<Rightarrow> 'c cloud_world \<Rightarrow> bool" where
  "sound op w \<longleftrightarrow> cw_ledger w = [] \<and> present (cw_cloud w) = 0 \<or> made op w"

definition settled :: "CloudWriteOp \<Rightarrow> string + WriteOutcome \<Rightarrow> 'c cloud_world \<Rightarrow> bool" where
  "settled op r w \<longleftrightarrow> made op w \<and> (\<forall>x. r = Inr x \<longrightarrow> (\<exists>y. x = Applied y) \<and> present (cw_cloud w) = 1)"

lemma made_set_state:
  assumes "made op w" "op_id = cw_op_id op" "st \<noteq> ''conflict''" "st = ''applied'' \<longrightarrow> present (cw_cloud w) = 1"
  shows "made op (w\<lparr>cw_ledger := set_cloud_write_state op_id st res err now (cw_ledger w)\<rparr>)"
proof -
  from assms(1) have "only_row op (\<lambda>s e. s \<noteq> ''conflict'' \<and> (s = ''applied'' \<longrightarrow> present (cw_cloud w) = 1)) w"
    by (simp add: made_def)
  from only_row_set_state [OF this assms(2), of st err res now] assms show ?thesis
    by (auto simp: made_def elim!: only_row_mono)
qed

lemma keeps_set_made:
  assumes "op_id = cw_op_id op" "st \<noteq> ''conflict''"
    and "\<And>w. pre w \<Longrightarrow> made op w \<and> (st = ''applied'' \<longrightarrow> present (cw_cloud w) = 1)"
  shows "keeps pre (set_state op_id st res err now)
    (\<lambda>r w. r = Inr () \<and> made op w \<and> (st = ''applied'' \<longrightarrow> present (cw_cloud w) = 1)) (made op)"
  using assms(3) made_set_state [OF _ assms(1,2)] by (intro keeps_set_state) (simp_all add: Let_def)

lemma create_keeps:
  "keeps (\<lambda>w. made op w \<and> present (cw_cloud w) = 0) (on_cloud (ws_create_folder sink parent name))
    (\<lambda>r w. made op w \<and> (\<forall>x. r = Inr x \<longrightarrow> present (cw_cloud w) = 1)) (made op)"
proof (rule keeps_cloud)
  fix w r c
  assume w: "made op w \<and> present (cw_cloud w) = 0" and call: "ws_create_folder sink parent name (cw_cloud w) = (r, c)"
  from call w have "present c \<le> 1" "\<forall>x. r = Inr x \<longrightarrow> present c = 1"
    using create_le [of "cw_cloud w"] create_ok [of "cw_cloud w"] by auto
  moreover from w have "only_row op (\<lambda>s e. s \<noteq> ''conflict'' \<and> s \<noteq> ''applied'') w"
    by (auto simp: made_def elim: only_row_mono)
  ultimately show "made op (w\<lparr>cw_cloud := c\<rparr>) \<and> made op (w\<lparr>cw_cloud := c\<rparr>) \<and> (\<forall>x. r = Inr x \<longrightarrow> present (cw_cloud (w\<lparr>cw_cloud := c\<rparr>)) = 1)"
    by (auto simp: made_def elim: only_row_mono)
qed simp

lemma find_keeps:
  "keeps (made op) (on_cloud (ws_find_child_folder sink parent name))
    (\<lambda>r w. made op w \<and> (\<forall>x. r = Inr (Some x) \<longrightarrow> present (cw_cloud w) = 1) \<and> (r = Inr None \<longrightarrow> present (cw_cloud w) = 0))
    (made op)"
proof (rule keeps_cloud)
  fix w r c
  assume w: "made op w" and call: "ws_find_child_folder sink parent name (cw_cloud w) = (r, c)"
  from call have c: "present c = present (cw_cloud w)" using find_same [of "cw_cloud w"] by simp
  moreover from call w have "\<forall>x. r = Inr (Some x) \<longrightarrow> present (cw_cloud w) = 1" "r = Inr None \<longrightarrow> present (cw_cloud w) = 0"
    using find_hit [of "cw_cloud w"] find_miss [of "cw_cloud w"] by (auto simp: made_def)
  ultimately show "made op (w\<lparr>cw_cloud := c\<rparr>) \<and> made op (w\<lparr>cw_cloud := c\<rparr>)
      \<and> (\<forall>x. r = Inr (Some x) \<longrightarrow> present (cw_cloud (w\<lparr>cw_cloud := c\<rparr>)) = 1)
      \<and> (r = Inr None \<longrightarrow> present (cw_cloud (w\<lparr>cw_cloud := c\<rparr>)) = 0)"
    using w by (simp add: made_def)
qed simp

lemma recover_create_keeps:
  assumes "stands_for op op'" "cw_op_kind op = cloud_as_str Create" "cw_target_id op = Some parent"
    and "cw_intent_json op = Some (write_intent_json w0)" "wr_name w0 = name"
  shows "keeps (\<lambda>w. made op w \<and> only_row op (\<lambda>s e. s = cw_state op') w)
    (recover_cloud_write_op hmac body sink shares op' secret now) (settled op) (made op)"
    (is "keeps ?pre _ _ _")
proof -
  have id: "cw_op_id op' = cw_op_id op" and parse: "cloud_parse (cw_op_kind op') = Some Create"
    and f: "or_empty (cw_target_id op') = parent" "or_empty (intent_field ''name'' op') = name"
      "intent_field ''source_kind'' op' = None"
    using assms by (simp_all add: stands_for_def cloud_parse_def or_empty_def intent_field_def write_intent_json_def json_gets)
  let ?call = "cw_bind (on_cloud (ws_find_child_folder sink parent name)) (\<lambda>found. case found of
      Some x \<Rightarrow> cw_ret (Applied x)
    | None \<Rightarrow> cw_bind (on_cloud (ws_create_folder sink parent name)) (\<lambda>x. cw_ret (Applied x)))"
  have "keeps (\<lambda>w. made op w \<and> (\<forall>x. Inr found = Inr (Some x) \<longrightarrow> present (cw_cloud w) = 1)
        \<and> (Inr found = Inr None \<longrightarrow> present (cw_cloud w) = 0))
      (case found of Some x \<Rightarrow> cw_ret (Applied x)
       | None \<Rightarrow> cw_bind (on_cloud (ws_create_folder sink parent name)) (\<lambda>x. cw_ret (Applied x))) (settled op) (made op)" for found
  proof (cases found)
    case None
    have "keeps (\<lambda>w. made op w \<and> present (cw_cloud w) = 0)
        (cw_bind (on_cloud (ws_create_folder sink parent name)) (\<lambda>x. cw_ret (Applied x))) (settled op) (made op)"
      by (rule keeps_bind [OF create_keeps]) (auto simp: settled_def intro: keeps_ret)
    with None show ?thesis by simp
  qed (auto simp: settled_def intro: keeps_ret)
  then have call: "keeps (made op) ?call (settled op) (made op)"
    by (rule keeps_bind [OF find_keeps, rotated]) (simp add: settled_def)
  have finish: "keeps (settled op (Inr outcome))
      (cw_bind (case outcome of Applied x \<Rightarrow> set_state (cw_op_id op') ''applied'' (non_empty x) None now
         | WriteOutcome.Conflict \<Rightarrow> set_state (cw_op_id op') ''conflict'' None None now) (\<lambda>_. cw_ret outcome))
      (settled op) (made op)" for outcome
  proof (cases outcome)
    case (Applied x)
    have "keeps (settled op (Inr outcome)) (set_state (cw_op_id op') ''applied'' (non_empty x) None now)
        (\<lambda>r w. r = Inr () \<and> made op w \<and> (''applied'' = ''applied'' \<longrightarrow> present (cw_cloud w) = 1)) (made op)"
      by (rule keeps_set_made [OF id]) (auto simp: settled_def)
    then have "keeps (settled op (Inr outcome)) (cw_bind (set_state (cw_op_id op') ''applied'' (non_empty x) None now)
        (\<lambda>_. cw_ret outcome)) (settled op) (made op)"
      by (rule keeps_bind) (auto simp: settled_def Applied intro!: keeps_ret)
    with Applied show ?thesis by simp
  qed (simp add: keeps_def settled_def)
  have "keeps (made op) (cw_bind ?call (\<lambda>outcome. cw_bind (case outcome of
        Applied x \<Rightarrow> set_state (cw_op_id op') ''applied'' (non_empty x) None now
      | WriteOutcome.Conflict \<Rightarrow> set_state (cw_op_id op') ''conflict'' None None now) (\<lambda>_. cw_ret outcome)))
      (settled op) (made op)"
    by (rule keeps_bind [OF call _ finish]) (simp add: settled_def)
  then have re: "keeps ?pre (recover_cloud_write_op hmac body sink shares op' secret now) (settled op) (made op)"
    if "cw_state op' \<noteq> ''applied''" "cw_state op' \<noteq> ''conflict''"
    using that parse f keeps_mono
    by (fastforce simp: recover_cloud_write_op_def cw_bind_lift recover_call_def Let_def)
  show ?thesis
  proof (cases "cw_state op' = ''applied'' \<or> cw_state op' = ''conflict''")
    case True
    then show ?thesis
      by (auto simp: recover_cloud_write_op_def settled_def made_def only_row_def intro!: keeps_ret)
  qed (simp add: re)
qed

lemma fresh_create_keeps:
  assumes "op_id = cw_op_id op" "wr_kind w0 = Create" "wr_target_id w0 = parent" "wr_name w0 = name"
  shows "keeps (\<lambda>w. made op w \<and> present (cw_cloud w) = 0)
    (cw_bind (set_state op_id ''inflight'' None None now) (\<lambda>_.
      cw_match (issue body sink w0)
        (\<lambda>e. cw_bind (set_state op_id ''inflight'' None (Some e) now) (\<lambda>_. cw_throw e))
        (\<lambda>r. case r of
            Done x \<Rightarrow> cw_bind (set_state op_id ''applied'' (non_empty x) None now) (\<lambda>_. cw_ret (Applied x))
          | Issued.Conflict \<Rightarrow> cw_bind (set_state op_id ''conflict'' None None now) (\<lambda>_. cw_ret WriteOutcome.Conflict))))
    (settled op) (made op)"
proof -
  let ?made1 = "\<lambda>r w. made op w \<and> (\<forall>x. r = Inr x \<longrightarrow> (\<exists>y. x = Done y) \<and> present (cw_cloud w) = 1)"
  have issue: "keeps (\<lambda>w. made op w \<and> present (cw_cloud w) = 0) (issue body sink w0) ?made1 (made op)"
  proof -
    have i: "issue body sink w0 = cw_bind (on_cloud (ws_create_folder sink parent name)) (\<lambda>x. cw_ret (Done x))"
      using assms(2-4) by (simp add: issue_def)
    show ?thesis unfolding i by (rule keeps_bind [OF create_keeps]) (auto intro!: keeps_ret)
  qed
  have err: "keeps (?made1 (Inl e)) (cw_bind (set_state op_id ''inflight'' None (Some e) now) (\<lambda>_. cw_throw e))
      (settled op) (made op)" for e
    by (rule keeps_bind [OF keeps_set_made [OF assms(1)]]) (auto simp: settled_def intro!: keeps_throw)
  have ok: "keeps (?made1 (Inr r)) (case r of
        Done x \<Rightarrow> cw_bind (set_state op_id ''applied'' (non_empty x) None now) (\<lambda>_. cw_ret (Applied x))
      | Issued.Conflict \<Rightarrow> cw_bind (set_state op_id ''conflict'' None None now) (\<lambda>_. cw_ret WriteOutcome.Conflict))
      (settled op) (made op)" for r
  proof (cases r)
    case (Done x)
    have "keeps (?made1 (Inr r)) (cw_bind (set_state op_id ''applied'' (non_empty x) None now) (\<lambda>_. cw_ret (Applied x)))
        (settled op) (made op)"
      by (rule keeps_bind [OF keeps_set_made [OF assms(1)]]) (auto simp: settled_def intro!: keeps_ret)
    with Done show ?thesis by simp
  qed (simp add: keeps_def)
  have start: "keeps (\<lambda>w. made op w \<and> present (cw_cloud w) = 0) (set_state op_id ''inflight'' None None now)
      (\<lambda>r w. r = Inr () \<and> made op w \<and> present (cw_cloud w) = 0) (made op)"
    by (rule keeps_set_state) (auto simp: Let_def intro!: made_set_state [OF _ assms(1)])
  show ?thesis
    by (rule keeps_bind [OF start]) (auto intro: keeps_mono [OF keeps_match [OF issue err ok]])
qed

lemma run_create_keeps:
  assumes "wr_kind w0 = Create" "wr_target_id w0 = parent" "wr_name w0 = name"
    and "write_keys hmac w0 secret account = (op_id, key)" and "op = write_op op_id account key w0"
  shows "keeps (sound op) (run_cloud_write hmac body sink shares account w0 secret now)
    (\<lambda>r w. \<forall>x. r = Inr x \<longrightarrow> present (cw_cloud w) = 1) (sound op)"
proof -
  have op: "cw_op_id op = op_id" "cw_account_id op = account" "cw_idempotency_key op = key" "cw_state op = ''pending''"
    "cw_op_kind op = cloud_as_str Create" "cw_target_id op = Some parent" "cw_intent_json op = Some (write_intent_json w0)"
    using assms by (simp_all add: write_op_def)
  have ms: "made op w \<Longrightarrow> sound op w" for w by (simp add: sound_def)
  have rec: "keeps (sound op) (record_intent op now)
      (\<lambda>r w. r = Inr True \<and> (made op w \<and> present (cw_cloud w) = 0) \<or> r = Inr False \<and> made op w) (sound op)"
    unfolding record_intent_def
  proof (rule keeps_ledger)
    fix w x rows
    assume w: "sound op w" and r: "record_cloud_write op now (cw_ledger w) = (x, rows)"
    let ?w = "w\<lparr>cw_ledger := rows\<rparr>"
    have "x \<and> made op ?w \<and> present (cw_cloud ?w) = 0 \<or> \<not> x \<and> made op ?w"
    proof (cases "cw_ledger w = []")
      case True
      with w have "present (cw_cloud w) = 0" by (auto simp: sound_def made_def only_row_def)
      with only_row_record_new [OF True r] op(4) show ?thesis by (auto simp: made_def elim!: only_row_mono)
    next
      case False
      with w have "made op w" by (simp add: sound_def)
      with only_row_record_again [OF _ r] show ?thesis by (auto simp: made_def)
    qed
    then show "sound op ?w \<and> (Inr x = Inr True \<and> (made op ?w \<and> present (cw_cloud ?w) = 0) \<or> Inr x = Inr False \<and> made op ?w)"
      by (auto simp: ms)
  qed simp
  have ask: "keeps (made op) (ask_ledger (cloud_write_by_key account key)) (\<lambda>r w. \<exists>op'. r = Inr (Some op')
      \<and> stands_for op op' \<and> made op w \<and> only_row op (\<lambda>s e. s = cw_state op') w) (made op)"
  proof (rule keeps_ask)
    fix w
    assume w: "made op w"
    then have "only_row op (\<lambda>s e. True) w" by (auto simp: made_def elim: only_row_mono)
    then obtain op' where "cloud_write_by_key (cw_account_id op) (cw_idempotency_key op) (cw_ledger w) = Some op'"
      "stands_for op op'" "only_row op (\<lambda>s e. s = cw_state op' \<and> e = cw_last_error op') w"
      by (rule only_row_by_key)
    with w op show "made op w \<and> (\<exists>op'. Inr (cloud_write_by_key account key (cw_ledger w)) = Inr (Some op')
        \<and> stands_for op op' \<and> made op w \<and> only_row op (\<lambda>s e. s = cw_state op') w)" by (auto elim: only_row_mono)
  qed
  have again: "keeps (\<lambda>w. \<exists>op'. Inr x = Inr (Some op') \<and> stands_for op op' \<and> made op w \<and> only_row op (\<lambda>s e. s = cw_state op') w)
      (case x of None \<Rightarrow> cw_throw (''ledger row for key '' @ key @ '' vanished'')
       | Some existing \<Rightarrow> recover_cloud_write_op hmac body sink shares existing secret now) (settled op) (made op)" for x
  proof (cases "\<exists>op'. x = Some op' \<and> stands_for op op'")
    case True
    then obtain op' where x: "x = Some op'" "stands_for op op'" by blast
    show ?thesis
      unfolding x(1) option.case
      by (rule keeps_mono [OF recover_create_keeps [OF x(2) op(5,6,7) assms(3)]]) auto
  qed (auto simp: keeps_def)
  let ?old = "cw_bind (ask_ledger (cloud_write_by_key account key)) (\<lambda>found. case found of
      None \<Rightarrow> cw_throw (''ledger row for key '' @ key @ '' vanished'')
    | Some existing \<Rightarrow> recover_cloud_write_op hmac body sink shares existing secret now)"
  have old: "keeps (made op) ?old (settled op) (made op)"
    by (rule keeps_bind [OF ask _ again]) simp
  note new = fresh_create_keeps [OF op(1) [symmetric] assms(1-3), of now body]
  have post: "settled op r w \<Longrightarrow> \<forall>x. r = Inr x \<longrightarrow> present (cw_cloud w) = 1" for r w
    by (simp add: settled_def)
  show ?thesis
    unfolding run_cloud_write_def assms(4) Let_def prod.case assms(5) [symmetric]
    by (rule keeps_bind [OF rec _ keeps_if_new [OF keeps_mono [OF old _ post ms] keeps_mono [OF new _ post ms]]]) auto
qed

lemma boot_create_keeps:
  assumes "cw_op_kind op = cloud_as_str Create" "cw_target_id op = Some parent"
    "cw_intent_json op = Some (write_intent_json w0)" "wr_name w0 = name"
  shows "keeps (sound op) (recover_pending_cloud_writes hmac body exists sink shares account secret now) (\<lambda>_. sound op) (sound op)"
proof (rule boot_one [where F = "\<lambda>op'. \<lambda>w. stands_for op op' \<and> made op w \<and> only_row op (\<lambda>s e. s = cw_state op') w"])
  fix w
  assume w: "sound op w"
  show "pending_cloud_writes account (cw_ledger w) = [] \<or> (\<exists>op'. pending_cloud_writes account (cw_ledger w) = [op']
      \<and> stands_for op op' \<and> made op w \<and> only_row op (\<lambda>s e. s = cw_state op') w)"
  proof (cases "cw_ledger w = []")
    case False
    with w have m: "made op w" by (simp add: sound_def)
    then have "only_row op (\<lambda>s e. True) w" by (auto simp: made_def elim: only_row_mono)
    from only_row_pending [OF this, of account] m show ?thesis by (auto elim: only_row_mono)
  qed (simp add: pending_cloud_writes_def)
next
  fix op'
  show "\<not> cloud_write_body_source_missing exists op'"
    if "stands_for op op' \<and> made op w \<and> only_row op (\<lambda>s e. s = cw_state op') w" for w
    using that assms(1) by (simp add: cloud_write_body_source_missing_def stands_for_def cloud_parse_def)
  show "keeps (\<lambda>w. sound op w \<and> stands_for op op' \<and> made op w \<and> only_row op (\<lambda>s e. s = cw_state op') w)
      (recover_cloud_write_op hmac body sink shares op' secret now) (\<lambda>_. sound op) (sound op)"
  proof (cases "stands_for op op'")
    case True
    show ?thesis
      by (rule keeps_mono [OF recover_create_keeps [OF True assms]]) (auto simp: sound_def settled_def)
  qed (simp add: keeps_def)
qed

end

end
