(* ===== verification/Upload_Session.thy ===== *)
theory Upload_Session
  imports Json
begin

text \<open>
  Resumable uploads: chunk planning and offsets (\<^verbatim>\<open>graph/src/upload.rs\<close>) and the client that drives a
  session and resumes it after a kill (\<^verbatim>\<open>upload_file_resumable\<close>, \<^verbatim>\<open>start_session\<close>, \<^verbatim>\<open>upload_status\<close>,
  \<^verbatim>\<open>create_upload_session\<close>, \<^verbatim>\<open>simple_upload\<close>, \<^verbatim>\<open>upload_session_from_ranges\<close> of \<^verbatim>\<open>graph/src/http.rs\<close>). A
  \<open>u64\<close> is a natural number, with the wrap-around of sums written out. The HTTP client of the
  \<^verbatim>\<open>reqwest\<close> crate is a record of operations on a world. A process can be killed before any request of
  the loop: \<open>lives\<close> is the number of fragments it gets to send, and \<open>None\<close> is a run that was killed.
  The persisted sessions are a map from destinations, as in the store's table of upload sessions.
\<close>

section \<open>Chunk planning\<close>

definition CHUNK_ALIGN :: nat where
  "CHUNK_ALIGN = 320 * 1024"

definition MAX_FRAGMENT :: nat where
  "MAX_FRAGMENT = 191 * CHUNK_ALIGN"

definition u64_wrap :: "nat \<Rightarrow> nat" where
  "u64_wrap n = n mod 2 ^ 64"

record ChunkPlan =
  start :: nat
  stop :: nat
  len :: nat
  content_range :: string

record UploadSession =
  upload_url :: string
  session_size :: nat
  next_offset :: nat

definition session_new :: "string \<Rightarrow> nat \<Rightarrow> UploadSession" where
  "session_new url n = \<lparr>upload_url = url, session_size = n, next_offset = 0\<rparr>"

definition session_resume :: "string \<Rightarrow> nat \<Rightarrow> nat \<Rightarrow> UploadSession" where
  "session_resume url n off = \<lparr>upload_url = url, session_size = n, next_offset = min off n\<rparr>"

definition is_complete :: "UploadSession \<Rightarrow> bool" where
  "is_complete s \<longleftrightarrow> session_size s \<le> next_offset s"

definition aligned_chunk :: "nat \<Rightarrow> nat \<Rightarrow> nat" where
  "aligned_chunk max_chunk remaining =
     (let cap = min max_chunk MAX_FRAGMENT;
          aligned = cap div CHUNK_ALIGN * CHUNK_ALIGN;
          aligned = (if aligned = 0 then CHUNK_ALIGN else aligned)
      in min aligned remaining)"

definition next_chunk :: "nat \<Rightarrow> UploadSession \<Rightarrow> ChunkPlan option" where
  "next_chunk max_chunk s =
     (if is_complete s then None
      else
        let remaining = session_size s - next_offset s;
            n = aligned_chunk max_chunk remaining;
            a = next_offset s;
            b = u64_wrap (a + n) - 1
        in Some \<lparr>start = a, stop = b, len = n,
             content_range = ''bytes '' @ show_nat a @ ''-'' @ show_nat b @ ''/'' @ show_nat (session_size s)\<rparr>)"

definition advance :: "nat \<Rightarrow> UploadSession \<Rightarrow> UploadSession" where
  "advance sent s = s\<lparr>next_offset := min (u64_wrap (next_offset s + sent)) (session_size s)\<rparr>"

definition ascii_space :: "char \<Rightarrow> bool" where
  "ascii_space c \<longleftrightarrow> (of_char c :: nat) \<in> set [9, 10, 11, 12, 13, 32]"

definition trim :: "string \<Rightarrow> string" where
  "trim s = rev (dropWhile ascii_space (rev (dropWhile ascii_space s)))"

text \<open>\<^verbatim>\<open>str::parse::<u64>\<close>.\<close>

definition parse_u64 :: "string \<Rightarrow> nat option" where
  "parse_u64 s =
     (let ds = (case s of c # cs \<Rightarrow> if c = CHR ''+'' then cs else s | [] \<Rightarrow> [])
      in if ds \<noteq> [] \<and> list_all (\<lambda>c. 48 \<le> (of_char c :: nat) \<and> (of_char c :: nat) \<le> 57) ds
            \<and> read_nat ds < 2 ^ 64
         then Some (read_nat ds) else None)"

definition parse_range_start :: "string \<Rightarrow> nat option" where
  "parse_range_start r = parse_u64 (trim (takeWhile (\<lambda>c. c \<noteq> CHR ''-'') r))"

definition apply_next_expected :: "string list \<Rightarrow> UploadSession \<Rightarrow> UploadSession" where
  "apply_next_expected ranges s =
     (case (case ranges of [] \<Rightarrow> None | r # _ \<Rightarrow> parse_range_start r) of
        Some off \<Rightarrow> s\<lparr>next_offset := min off (session_size s)\<rparr>
      | None \<Rightarrow> s)"

section \<open>The client\<close>

datatype GraphTransportFailure = NameResolution | Tls | Connect | Other

datatype UploadError =
    Http nat string
  | Transport GraphTransportFailure string
  | Timeout string
  | Parse string
  | TooLarge
  | Incomplete

record answer =
  a_status :: nat
  a_json :: "json option"
  a_text :: string

record 'w http =
  http_put_content :: "string \<Rightarrow> bytes \<Rightarrow> 'w \<Rightarrow> (UploadError + answer) \<times> 'w"
  http_create_session :: "string \<Rightarrow> 'w \<Rightarrow> (UploadError + answer) \<times> 'w"
  http_put_range :: "string \<Rightarrow> string \<Rightarrow> bytes \<Rightarrow> 'w \<Rightarrow> (UploadError + answer) \<times> 'w"
  http_get :: "string \<Rightarrow> 'w \<Rightarrow> (UploadError + answer) \<times> 'w"

definition answer_json :: "answer \<Rightarrow> UploadError + json" where
  "answer_json a = (case a_json a of Some v \<Rightarrow> Inr v | None \<Rightarrow> Inl (Parse ''json''))"

definition json_or_err :: "answer \<Rightarrow> UploadError + json" where
  "json_or_err a =
     (if 200 \<le> a_status a \<and> a_status a < 300 then answer_json a
      else Inl (Http (a_status a) (take_chars 300 (a_text a))))"

definition simple_upload :: "'w http \<Rightarrow> string \<Rightarrow> bytes \<Rightarrow> 'w \<Rightarrow> (UploadError + json) \<times> 'w" where
  "simple_upload h dest payload w =
     (case http_put_content h dest payload w of
        (Inl e, w') \<Rightarrow> (Inl e, w')
      | (Inr a, w') \<Rightarrow> (json_or_err a, w'))"

definition create_upload_session ::
  "'w http \<Rightarrow> string \<Rightarrow> nat \<Rightarrow> 'w \<Rightarrow> (UploadError + UploadSession) \<times> 'w" where
  "create_upload_session h dest n w =
     (case http_create_session h dest w of
        (Inl e, w') \<Rightarrow> (Inl e, w')
      | (Inr a, w') \<Rightarrow>
          (case json_or_err a of
             Inl e \<Rightarrow> (Inl e, w')
           | Inr v \<Rightarrow>
               (case get_str ''uploadUrl'' v of
                  None \<Rightarrow> (Inl (Parse ''createUploadSession response had no uploadUrl''), w')
                | Some url \<Rightarrow> (Inr (session_new url n), w'))))"

text \<open>The strings of \<^verbatim>\<open>nextExpectedRanges\<close> in an answer.\<close>

definition expected_ranges :: "answer \<Rightarrow> string list" where
  "expected_ranges a =
     (case Option.bind (a_json a) (get_array ''nextExpectedRanges'') of
        Some vs \<Rightarrow> List.map_filter as_string vs
      | None \<Rightarrow> [])"

definition upload_status :: "'w http \<Rightarrow> string \<Rightarrow> 'w \<Rightarrow> (UploadError + nat) \<times> 'w" where
  "upload_status h url w =
     (case http_get h url w of
        (Inl e, w') \<Rightarrow> (Inl e, w')
      | (Inr a, w') \<Rightarrow>
          if a_status a = 200
          then (Inr (case Option.bind (a_json a) (get_array ''nextExpectedRanges'') of
                  Some (v # _) \<Rightarrow>
                    (case Option.bind (as_string v) parse_range_start of Some n \<Rightarrow> n | None \<Rightarrow> 0)
                | _ \<Rightarrow> 0), w')
          else (Inl (Http (a_status a) ''''), w'))"

type_synonym resume_store = "string \<Rightarrow> (string \<times> nat \<times> nat) option"

definition start_session ::
  "'w http \<Rightarrow> string \<Rightarrow> nat \<Rightarrow> 'w \<times> resume_store \<Rightarrow> (UploadError + UploadSession) \<times> 'w \<times> resume_store" where
  "start_session h dest n wr =
     (case create_upload_session h dest n (fst wr) of
        (Inl e, w) \<Rightarrow> (Inl e, w, snd wr)
      | (Inr s, w) \<Rightarrow> (Inr s, w, (snd wr)(dest \<mapsto> (upload_url s, n, 0))))"

text \<open>After an accepted fragment: the server says where to go on, or the fragment counts as sent.\<close>

definition accepted :: "answer \<Rightarrow> ChunkPlan \<Rightarrow> UploadSession \<Rightarrow> UploadSession" where
  "accepted a plan s =
     (if expected_ranges a = [] then advance (len plan) s else apply_next_expected (expected_ranges a) s)"

fun upload_loop ::
  "'w http \<Rightarrow> string \<Rightarrow> bytes \<Rightarrow> nat \<Rightarrow> nat \<Rightarrow> UploadSession \<Rightarrow> 'w \<times> resume_store
     \<Rightarrow> (UploadError + json) option \<times> 'w \<times> resume_store" where
  "upload_loop h dest payload max_chunk lives s (w, rs) =
     (case next_chunk max_chunk s of
        None \<Rightarrow> (Some (Inl Incomplete), w, rs)
      | Some plan \<Rightarrow>
          (case lives of
             0 \<Rightarrow> (None, w, rs)
           | Suc n \<Rightarrow>
               (case http_put_range h (upload_url s) (content_range plan)
                       (take (stop plan + 1 - start plan) (drop (start plan) payload)) w of
                  (Inl e, w') \<Rightarrow> (Some (Inl e), w', rs)
                | (Inr a, w') \<Rightarrow>
                    if a_status a = 202 then
                      let s' = accepted a plan s
                      in upload_loop h dest payload max_chunk n s'
                           (w', rs(dest \<mapsto> (upload_url s', length payload, next_offset s')))
                    else if a_status a = 200 \<or> a_status a = 201
                    then (Some (answer_json a), w', rs(dest := None))
                    else (Some (Inl (Http (a_status a) (take_chars 300 (a_text a)))), w', rs))))"

declare upload_loop.simps [simp del]

definition upload_file_resumable ::
  "'w http \<Rightarrow> string \<Rightarrow> bytes \<Rightarrow> nat \<Rightarrow> nat \<Rightarrow> 'w \<times> resume_store
     \<Rightarrow> (UploadError + json) option \<times> 'w \<times> resume_store" where
  "upload_file_resumable h dest payload max_chunk lives wr =
     (case wr of (w, rs) \<Rightarrow>
        if length payload \<le> CHUNK_ALIGN
        then (case simple_upload h dest payload w of (r, w') \<Rightarrow> (Some r, w', rs))
        else
          let n = length payload;
              fresh = (\<lambda>wr. case start_session h dest n wr of
                  (Inl e, wr') \<Rightarrow> (Some (Inl e), wr')
                | (Inr s, wr') \<Rightarrow> upload_loop h dest payload max_chunk lives s wr')
          in (case rs dest of
                Some (url, persisted, _) \<Rightarrow>
                  if persisted = n then
                    (case upload_status h url w of
                       (Inr off, w') \<Rightarrow>
                         upload_loop h dest payload max_chunk lives (session_resume url n off) (w', rs)
                     | (Inl _, w') \<Rightarrow> fresh (w', rs(dest := None)))
                  else fresh (w, rs(dest := None))
              | None \<Rightarrow> fresh (w, rs)))"

text \<open>\<^verbatim>\<open>upload_session_from_ranges\<close>: the streaming variant, which reads each range from a source.\<close>

fun ranges_loop ::
  "'w http \<Rightarrow> (nat \<Rightarrow> nat \<Rightarrow> UploadError + bytes) \<Rightarrow> nat \<Rightarrow> UploadSession \<Rightarrow> 'w
     \<Rightarrow> (UploadError + json) option \<times> 'w" where
  "ranges_loop h read_range lives s w =
     (case next_chunk CHUNK_ALIGN s of
        None \<Rightarrow> (Some (Inl Incomplete), w)
      | Some plan \<Rightarrow>
          (case lives of
             0 \<Rightarrow> (None, w)
           | Suc n \<Rightarrow>
               (case read_range (start plan) (len plan) of
                  Inl e \<Rightarrow> (Some (Inl e), w)
                | Inr bytes \<Rightarrow>
                    if length bytes \<noteq> len plan
                    then (Some (Inl (Parse ''upload source returned a short range'')), w)
                    else
                      (case http_put_range h (upload_url s) (content_range plan) bytes w of
                         (Inl e, w') \<Rightarrow> (Some (Inl e), w')
                       | (Inr a, w') \<Rightarrow>
                           if a_status a = 202 then ranges_loop h read_range n (accepted a plan s) w'
                           else if a_status a = 200 \<or> a_status a = 201 then (Some (answer_json a), w')
                           else (Some (Inl (Http (a_status a) '''')), w')))))"

declare ranges_loop.simps [simp del]

section \<open>A server for upload sessions\<close>

text \<open>A reference server: a session collects bytes for a destination and expects the next fragment where
  the last one ended; the fragment that completes the announced size stores the file. Answers to
  fragments can be lost on the way back (\<open>lost\<close> says which), after the server has taken the bytes.\<close>

record upload_server =
  sessions :: "string \<Rightarrow> (string \<times> bytes) option"
  stored :: "string \<Rightarrow> bytes option"
  issued :: nat
  lost :: "bool list"

definition range_start :: "string \<Rightarrow> nat" where
  "range_start cr = read_nat (takeWhile (\<lambda>c. c \<noteq> CHR ''-'') (drop 6 cr))"

definition range_size :: "string \<Rightarrow> nat" where
  "range_size cr = read_nat (tl (dropWhile (\<lambda>c. c \<noteq> CHR ''/'') cr))"

definition ranges_json :: "bytes \<Rightarrow> json" where
  "ranges_json rcv = JObj [(''nextExpectedRanges'', JArr [JStr (show_nat (length rcv) @ ''-'')])]"

definition reply :: "nat \<Rightarrow> json \<Rightarrow> answer" where
  "reply st v = \<lparr>a_status = st, a_json = Some v, a_text = []\<rparr>"

definition srv_take :: "string \<Rightarrow> string \<Rightarrow> bytes \<Rightarrow> upload_server \<Rightarrow> answer \<times> upload_server" where
  "srv_take url cr bytes w =
     (case sessions w url of
        None \<Rightarrow> (reply 404 JNull, w)
      | Some (dest, rcv) \<Rightarrow>
          if range_start cr \<noteq> length rcv then (reply 416 JNull, w)
          else if length (rcv @ bytes) = range_size cr
          then (reply 201 JNull, w\<lparr>sessions := (sessions w)(url := None), stored := (stored w)(dest \<mapsto> rcv @ bytes)\<rparr>)
          else (reply 202 (ranges_json (rcv @ bytes)), w\<lparr>sessions := (sessions w)(url \<mapsto> (dest, rcv @ bytes))\<rparr>))"

definition srv_put :: "string \<Rightarrow> string \<Rightarrow> bytes \<Rightarrow> upload_server \<Rightarrow> (UploadError + answer) \<times> upload_server" where
  "srv_put url cr bytes w =
     (case srv_take url cr bytes w of (a, w') \<Rightarrow>
        (case lost w of
           [] \<Rightarrow> (Inr a, w')
         | l # ls \<Rightarrow> (if l then Inl (Transport Other ''lost'') else Inr a, w'\<lparr>lost := ls\<rparr>)))"

definition srv_create :: "string \<Rightarrow> upload_server \<Rightarrow> (UploadError + answer) \<times> upload_server" where
  "srv_create dest w =
     (let url = ''s'' @ show_nat (issued w)
      in (Inr (reply 200 (JObj [(''uploadUrl'', JStr url)])),
          w\<lparr>sessions := (sessions w)(url \<mapsto> (dest, [])), issued := issued w + 1\<rparr>))"

definition srv_get :: "string \<Rightarrow> upload_server \<Rightarrow> (UploadError + answer) \<times> upload_server" where
  "srv_get url w =
     (case sessions w url of
        None \<Rightarrow> (Inr (reply 404 JNull), w)
      | Some (dest, rcv) \<Rightarrow> (Inr (reply 200 (ranges_json rcv)), w))"

definition srv_content :: "string \<Rightarrow> bytes \<Rightarrow> upload_server \<Rightarrow> (UploadError + answer) \<times> upload_server" where
  "srv_content dest payload w = (Inr (reply 201 JNull), w\<lparr>stored := (stored w)(dest \<mapsto> payload)\<rparr>)"

definition session_http :: "upload_server http" where
  "session_http = \<lparr>http_put_content = srv_content, http_create_session = srv_create,
     http_put_range = srv_put, http_get = srv_get\<rparr>"

lemma session_http_sel [simp]:
  "http_put_content session_http = srv_content" "http_create_session session_http = srv_create"
  "http_put_range session_http = srv_put" "http_get session_http = srv_get"
  by (simp_all add: session_http_def)

text \<open>Attempts to upload one file, one after the other, each killed after some fragments.\<close>

fun attempts :: "string \<Rightarrow> bytes \<Rightarrow> nat \<Rightarrow> nat list \<Rightarrow> upload_server \<times> resume_store \<Rightarrow> upload_server \<times> resume_store" where
  "attempts dest payload max_chunk [] wr = wr"
| "attempts dest payload max_chunk (n # ns) wr =
     attempts dest payload max_chunk ns (snd (upload_file_resumable session_http dest payload max_chunk n wr))"

section \<open>Lemmas on chunks\<close>

lemma aligned_chunk_bounds:
  assumes "0 < remaining"
  shows "0 < aligned_chunk m remaining" "aligned_chunk m remaining \<le> remaining"
    "aligned_chunk m remaining \<le> MAX_FRAGMENT" "min CHUNK_ALIGN remaining \<le> aligned_chunk m remaining"
    "aligned_chunk m remaining < remaining \<Longrightarrow> CHUNK_ALIGN dvd aligned_chunk m remaining"
proof -
  let ?k = "min m MAX_FRAGMENT div CHUNK_ALIGN"
  let ?a = "if ?k * CHUNK_ALIGN = 0 then CHUNK_ALIGN else ?k * CHUNK_ALIGN"
  have c: "aligned_chunk m remaining = min ?a remaining"
    by (simp add: aligned_chunk_def Let_def)
  have pos: "0 < CHUNK_ALIGN" by (simp add: CHUNK_ALIGN_def)
  have le: "?a \<le> MAX_FRAGMENT"
  proof (cases "?k = 0")
    case False
    have "?k * CHUNK_ALIGN \<le> min m MAX_FRAGMENT" by (rule div_times_less_eq_dividend)
    with False pos show ?thesis by simp
  qed (simp add: MAX_FRAGMENT_def)
  have ge: "CHUNK_ALIGN \<le> ?a" by (cases ?k) simp_all
  show "0 < aligned_chunk m remaining" using assms pos ge unfolding c by linarith
  show "aligned_chunk m remaining \<le> remaining" "aligned_chunk m remaining \<le> MAX_FRAGMENT"
    "min CHUNK_ALIGN remaining \<le> aligned_chunk m remaining"
    using le ge unfolding c by linarith+
  show "CHUNK_ALIGN dvd aligned_chunk m remaining" if "aligned_chunk m remaining < remaining"
  proof -
    have "aligned_chunk m remaining = ?a" using that unfolding c by linarith
    then show ?thesis by simp
  qed
qed

lemma next_chunk_Some:
  assumes "next_offset s < session_size s" and "session_size s < 2 ^ 64"
  obtains n where "next_chunk m s = Some \<lparr>start = next_offset s, stop = next_offset s + n - 1, len = n,
      content_range = ''bytes '' @ show_nat (next_offset s) @ ''-'' @ show_nat (next_offset s + n - 1) @ ''/''
        @ show_nat (session_size s)\<rparr>"
    "n = aligned_chunk m (session_size s - next_offset s)"
    "0 < n" "next_offset s + n \<le> session_size s" "min CHUNK_ALIGN (session_size s - next_offset s) \<le> n"
proof -
  let ?n = "aligned_chunk m (session_size s - next_offset s)"
  have b: "0 < ?n" "?n \<le> session_size s - next_offset s" "min CHUNK_ALIGN (session_size s - next_offset s) \<le> ?n"
    using assms(1) by (simp_all add: aligned_chunk_bounds)
  then have "next_offset s + ?n < 2 ^ 64" using assms by linarith
  then have "u64_wrap (next_offset s + ?n) = next_offset s + ?n" by (simp add: u64_wrap_def)
  with assms(1) have "next_chunk m s = Some \<lparr>start = next_offset s, stop = next_offset s + ?n - 1, len = ?n,
      content_range = ''bytes '' @ show_nat (next_offset s) @ ''-'' @ show_nat (next_offset s + ?n - 1) @ ''/''
        @ show_nat (session_size s)\<rparr>"
    by (simp add: next_chunk_def is_complete_def Let_def)
  moreover have "next_offset s + ?n \<le> session_size s" using b(2) assms(1) by linarith
  ultimately show thesis using that b by blast
qed

lemma next_chunk_None: "session_size s \<le> next_offset s \<Longrightarrow> next_chunk m s = None"
  by (simp add: next_chunk_def is_complete_def)

lemma digits_no: "c \<in> set (show_nat n) \<Longrightarrow> c \<noteq> CHR ''-'' \<and> c \<noteq> CHR ''/''"
  using show_nat_digits [of c n] by auto

lemma range_start_of: "range_start (''bytes '' @ show_nat a @ ''-'' @ rest) = a"
proof -
  have "takeWhile (\<lambda>c. c \<noteq> CHR ''-'') (show_nat a @ ''-'' @ rest) = show_nat a"
    using digits_no by (subst takeWhile_append2) auto
  then show ?thesis by (simp add: range_start_def)
qed

lemma range_size_of: "range_size (''bytes '' @ show_nat a @ ''-'' @ show_nat b @ ''/'' @ show_nat n) = n"
proof -
  let ?P = "\<lambda>c. c \<noteq> CHR ''/''"
  have "dropWhile ?P (show_nat b @ CHR ''/'' # show_nat n) = CHR ''/'' # show_nat n"
    using digits_no by (subst dropWhile_append2) auto
  moreover have "dropWhile ?P (show_nat a @ xs) = dropWhile ?P xs" for xs
    using digits_no by (subst dropWhile_append2) auto
  ultimately show ?thesis by (simp add: range_size_def)
qed

lemma trim_digits: "trim (show_nat n) = show_nat n"
proof -
  have no: "dropWhile ascii_space xs = xs" if "set xs \<subseteq> set (show_nat n)" for xs
  proof (cases xs)
    case (Cons c cs)
    then have "\<not> ascii_space c" using that show_nat_digits [of c n] by (auto simp: ascii_space_def)
    with Cons show ?thesis by simp
  qed simp
  show ?thesis by (simp add: trim_def no)
qed

lemma parse_range_of: "n < 2 ^ 64 \<Longrightarrow> parse_range_start (show_nat n @ ''-'') = Some n"
proof -
  assume n: "n < 2 ^ 64"
  have "takeWhile (\<lambda>c. c \<noteq> CHR ''-'') (show_nat n @ ''-'') = show_nat n"
    using digits_no by (subst takeWhile_append2) auto
  moreover have "list_all (\<lambda>c. 48 \<le> (of_char c :: nat) \<and> (of_char c :: nat) \<le> 57) (show_nat n)"
    using show_nat_digits by (auto simp: list_all_iff)
  moreover have "(case show_nat n of c # cs \<Rightarrow> if c = CHR ''+'' then cs else show_nat n | [] \<Rightarrow> []) = show_nat n"
  proof (cases "show_nat n")
    case (Cons c cs)
    then have "c \<noteq> CHR ''+''" using show_nat_digits [of c n] by auto
    with Cons show ?thesis by simp
  qed simp
  ultimately show ?thesis using n by (simp add: parse_range_start_def trim_digits parse_u64_def Let_def)
qed

lemma accepted_keeps [simp]:
  "session_size (accepted a plan s) = session_size s" "upload_url (accepted a plan s) = upload_url s"
  by (simp_all add: accepted_def advance_def apply_next_expected_def split: option.split)

lemma accepted_bound: "next_offset s \<le> session_size s \<Longrightarrow> next_offset (accepted a plan s) \<le> session_size s"
  by (simp add: accepted_def advance_def apply_next_expected_def split: option.split)

lemma accepted_reply:
  assumes "length rcv < 2 ^ 64" and "length rcv \<le> session_size s"
  shows "accepted (reply 202 (ranges_json rcv)) plan s = s\<lparr>next_offset := length rcv\<rparr>"
proof -
  have "expected_ranges (reply 202 (ranges_json rcv)) = [show_nat (length rcv) @ ''-'']"
    by (simp add: expected_ranges_def reply_def ranges_json_def json_gets List.map_filter_def)
  then show ?thesis using assms parse_range_of by (simp add: accepted_def apply_next_expected_def)
qed

section \<open>Lemmas on the client\<close>

text \<open>What is kept for one destination: every session holds a prefix of the file, the persisted session
  belongs to the destination, and the stored file is the old one or the whole new one.\<close>

definition owned :: "string \<Rightarrow> string \<Rightarrow> upload_server \<Rightarrow> bool" where
  "owned dest url w \<longleftrightarrow> (\<forall>d rcv. sessions w url = Some (d, rcv) \<longrightarrow> d = dest)"

definition consistent :: "string \<Rightarrow> bytes \<Rightarrow> bytes option \<Rightarrow> upload_server \<times> resume_store \<Rightarrow> bool" where
  "consistent dest payload old wr \<longleftrightarrow>
     (\<forall>url rcv. sessions (fst wr) url = Some (dest, rcv) \<longrightarrow>
        rcv = take (length rcv) payload \<and> length rcv < length payload)
     \<and> (\<forall>url n off. snd wr dest = Some (url, n, off) \<longrightarrow> owned dest url (fst wr))
     \<and> stored (fst wr) dest \<in> {old, Some payload}"

text \<open>A fragment of the file, sent where the session planned it.\<close>

definition fragment :: "nat \<Rightarrow> bytes \<Rightarrow> UploadSession \<Rightarrow> upload_server \<Rightarrow> (UploadError + answer) \<times> upload_server" where
  "fragment m payload s w =
     (case next_chunk m s of
        None \<Rightarrow> (Inl Incomplete, w)
      | Some plan \<Rightarrow> srv_put (upload_url s) (content_range plan)
          (take (stop plan + 1 - start plan) (drop (start plan) payload)) w)"

lemma fragment_arrives:
  assumes "next_offset s < session_size s" and "session_size s = length payload" and "length payload < 2 ^ 64"
    and "lost w = []"
  shows "fragment m payload s w = map_prod Inr id (case sessions w (upload_url s) of
          None \<Rightarrow> (reply 404 JNull, w)
        | Some (d, rcv) \<Rightarrow>
            let n = aligned_chunk m (length payload - next_offset s);
                rcv' = rcv @ take n (drop (next_offset s) payload)
            in if next_offset s \<noteq> length rcv then (reply 416 JNull, w)
               else if length rcv' = length payload
               then (reply 201 JNull, w\<lparr>sessions := (sessions w)(upload_url s := None), stored := (stored w)(d \<mapsto> rcv')\<rparr>)
               else (reply 202 (ranges_json rcv'), w\<lparr>sessions := (sessions w)(upload_url s \<mapsto> (d, rcv'))\<rparr>))"
proof -
  obtain n where n: "next_chunk m s = Some \<lparr>start = next_offset s, stop = next_offset s + n - 1, len = n,
      content_range = ''bytes '' @ show_nat (next_offset s) @ ''-'' @ show_nat (next_offset s + n - 1) @ ''/''
        @ show_nat (session_size s)\<rparr>"
    "n = aligned_chunk m (session_size s - next_offset s)" "0 < n"
    using next_chunk_Some [OF assms(1), of m] assms(2,3) by metis
  have stop: "next_offset s + n - 1 + 1 - next_offset s = n" using n(3) by simp
  note sizes = range_start_of [of "next_offset s" "show_nat (next_offset s + n - 1) @ ''/'' @ show_nat (session_size s)"]
    range_size_of [of "next_offset s" "next_offset s + n - 1" "session_size s"]
  show ?thesis
    unfolding fragment_def n(1) option.case ChunkPlan.select_convs stop srv_put_def srv_take_def sizes
    using n(2) assms(2,4) by (simp add: Let_def split: option.split)
qed

lemma fragment_lost:
  assumes "lost w = l # ls" and "next_chunk m s = Some plan"
  shows "fragment m payload s w =
    (if l then Inl (Transport Other ''lost'') else fst (fragment m payload s (w\<lparr>lost := []\<rparr>)),
     snd (fragment m payload s (w\<lparr>lost := []\<rparr>))\<lparr>lost := ls\<rparr>)"
proof -
  have "srv_take u cr bs (w\<lparr>lost := []\<rparr>) = map_prod id (\<lambda>x. x\<lparr>lost := []\<rparr>) (srv_take u cr bs w)" for u cr bs
    by (auto simp: srv_take_def split: option.split)
  with assms show ?thesis by (simp add: fragment_def srv_put_def split: prod.split)
qed

lemma fragment_consistent:
  assumes "consistent dest payload old (w, rs)" and "owned dest (upload_url s) w"
    and "next_offset s < session_size s" and "session_size s = length payload" and "length payload < 2 ^ 64"
    and "fragment m payload s w = (r, w')"
  shows "consistent dest payload old (w', rs)" "owned dest (upload_url s) w'"
    "r = Inr a \<Longrightarrow> a_status a \<in> {200, 201} \<Longrightarrow> stored w' dest = Some payload"
proof -
  have main: "consistent dest payload old (snd f, rs) \<and> owned dest (upload_url s) (snd f)
      \<and> (\<forall>a. fst f = Inr a \<longrightarrow> a_status a \<in> {200, 201} \<longrightarrow> stored (snd f) dest = Some payload)"
    if f: "f = fragment m payload s w0" and w0: "lost w0 = []" "consistent dest payload old (w0, rs)"
      "owned dest (upload_url s) w0" for f w0
  proof (cases "sessions w0 (upload_url s)")
    case None
    with f w0 show ?thesis by (simp add: fragment_arrives [OF assms(3-5)] reply_def)
  next
    case (Some v)
    obtain d rcv where v: "v = (d, rcv)" by (cases v)
    with Some w0(3) have d: "d = dest" by (simp add: owned_def)
    with Some v w0(2) have rcv: "rcv = take (length rcv) payload" by (simp add: consistent_def)
    define n where "n = aligned_chunk m (length payload - next_offset s)"
    define rcv' where "rcv' = rcv @ take n (drop (next_offset s) payload)"
    have frag: "f = map_prod Inr id (if next_offset s \<noteq> length rcv then (reply 416 JNull, w0)
               else if length rcv' = length payload
               then (reply 201 JNull, w0\<lparr>sessions := (sessions w0)(upload_url s := None), stored := (stored w0)(dest \<mapsto> rcv')\<rparr>)
               else (reply 202 (ranges_json rcv'), w0\<lparr>sessions := (sessions w0)(upload_url s \<mapsto> (dest, rcv'))\<rparr>))"
      unfolding f fragment_arrives [OF assms(3-5) w0(1)] using Some v d by (simp add: Let_def n_def rcv'_def)
    show ?thesis
    proof (cases "next_offset s = length rcv")
      case False
      then show ?thesis using frag w0 by (simp add: reply_def)
    next
      case True
      have "rcv' = take (length rcv + n) payload" using rcv True unfolding rcv'_def by (metis take_add)
      then have pre: "rcv' = take (length rcv') payload" by (simp add: min_def)
      then have full: "length rcv' = length payload \<Longrightarrow> rcv' = payload" by simp
      have le: "length rcv' \<le> length payload" using pre by (metis length_take min.cobounded1)
      show ?thesis
        using frag True w0(2,3) pre full le
        by (auto simp: consistent_def owned_def reply_def)
    qed
  qed
  from next_chunk_Some [OF assms(3), of m] assms(4,5) obtain plan where chunk: "next_chunk m s = Some plan"
    by metis
  have eq: "fragment m payload s (w\<lparr>lost := []\<rparr>) = fragment m payload s w" if "lost w = []"
    using that by (metis upload_server.surjective upload_server.update_convs(4))
  have upd: "consistent dest payload old (x\<lparr>lost := ls\<rparr>, rs) = consistent dest payload old (x, rs)"
    "owned dest u (x\<lparr>lost := ls\<rparr>) = owned dest u x" for x u ls
    by (simp_all add: consistent_def owned_def)
  let ?f = "fragment m payload s (w\<lparr>lost := []\<rparr>)"
  have m: "consistent dest payload old (snd ?f, rs) \<and> owned dest (upload_url s) (snd ?f)
      \<and> (\<forall>a. fst ?f = Inr a \<longrightarrow> a_status a \<in> {200, 201} \<longrightarrow> stored (snd ?f) dest = Some payload)"
    using assms(1,2) by (intro main [OF refl]) (simp_all add: upd)
  have "consistent dest payload old (w', rs) \<and> owned dest (upload_url s) w'
    \<and> (\<forall>a. r = Inr a \<longrightarrow> a_status a \<in> {200, 201} \<longrightarrow> stored w' dest = Some payload)"
  proof (cases "lost w")
    case Nil
    then show ?thesis using m eq assms(6) by simp
  next
    case (Cons l ls)
    then have "r = (if l then Inl (Transport Other ''lost'') else fst ?f)" "w' = snd ?f\<lparr>lost := ls\<rparr>"
      using assms(6) chunk fragment_lost [OF Cons] by auto
    with m show ?thesis by (auto simp: upd)
  qed
  then show "consistent dest payload old (w', rs)" "owned dest (upload_url s) w'"
    "r = Inr a \<Longrightarrow> a_status a \<in> {200, 201} \<Longrightarrow> stored w' dest = Some payload" by blast+
qed

text \<open>One turn of the loop is one fragment.\<close>

lemma upload_loop_step:
  "upload_loop session_http dest payload m lives s (w, rs) =
   (if next_chunk m s = None then (Some (Inl Incomplete), w, rs)
    else case lives of
      0 \<Rightarrow> (None, w, rs)
    | Suc n \<Rightarrow>
        (case fragment m payload s w of
           (Inl e, w') \<Rightarrow> (Some (Inl e), w', rs)
         | (Inr a, w') \<Rightarrow>
             if a_status a = 202 then
               let s' = accepted a (the (next_chunk m s)) s
               in upload_loop session_http dest payload m n s'
                    (w', rs(dest \<mapsto> (upload_url s', length payload, next_offset s')))
             else if a_status a = 200 \<or> a_status a = 201 then (Some (answer_json a), w', rs(dest := None))
             else (Some (Inl (Http (a_status a) (take_chars 300 (a_text a)))), w', rs)))"
  by (subst upload_loop.simps, cases "next_chunk m s") (simp_all add: fragment_def split: nat.split prod.split sum.split)

lemma consistent_resume:
  "consistent dest payload old (w, rs(dest := None)) \<longleftrightarrow>
     consistent dest payload old (w, rs) \<or> consistent dest payload old (w, Map.empty)"
  "consistent dest payload old (w, rs) \<Longrightarrow> owned dest url w \<Longrightarrow>
     consistent dest payload old (w, rs(dest \<mapsto> (url, n, off)))"
  by (auto simp: consistent_def)

lemma upload_loop_safe:
  assumes "consistent dest payload old (w, rs)" and "owned dest (upload_url s) w"
    and "next_offset s \<le> session_size s" and "session_size s = length payload" and "length payload < 2 ^ 64"
    and "upload_loop session_http dest payload m lives s (w, rs) = (r, w', rs')"
  shows "consistent dest payload old (w', rs') \<and> (\<forall>v. r = Some (Inr v) \<longrightarrow> stored w' dest = Some payload)"
  using assms
proof (induction lives arbitrary: s w rs)
  case 0
  then show ?case using upload_loop_step [of dest payload m 0 s w rs] by (auto split: if_splits)
next
  case (Suc n)
  note step = upload_loop_step [of dest payload m "Suc n" s w rs]
  show ?case
  proof (cases "next_offset s < session_size s")
    case False
    then show ?thesis
      using Suc.prems next_chunk_None [of s m] step by auto
  next
    case True
    from next_chunk_Some [OF True, of m] Suc.prems(4,5) obtain plan where plan: "next_chunk m s = Some plan"
      by metis
    obtain fr w1 where f: "fragment m payload s w = (fr, w1)" by fastforce
    note keep = fragment_consistent [OF Suc.prems(1,2) True Suc.prems(4,5) f]
    show ?thesis
    proof (cases fr)
      case (Inl e)
      then show ?thesis using Suc.prems(6) f plan keep(1) step by auto
    next
      case (Inr a)
      let ?s = "accepted a plan s"
      show ?thesis
      proof (cases "a_status a = 202")
        case True
        let ?rs = "rs(dest \<mapsto> (upload_url ?s, length payload, next_offset ?s))"
        have c: "consistent dest payload old (w1, ?rs)"
          using keep(1,2) by (simp add: consistent_resume(2))
        have l: "upload_loop session_http dest payload m n ?s (w1, ?rs) = (r, w', rs')"
          using Suc.prems(6) f plan Inr True step by (simp add: Let_def)
        have "owned dest (upload_url ?s) w1" "next_offset ?s \<le> session_size ?s" "session_size ?s = length payload"
          using keep(2) Suc.prems(4) accepted_bound [OF Suc.prems(3)] by simp_all
        then show ?thesis by (rule Suc.IH [OF c _ _ _ Suc.prems(5) l])
      next
        case False
        then show ?thesis
          using Suc.prems(6) f plan Inr keep(1) keep(3) [OF Inr] consistent_resume(1) [of dest payload old w1 rs]
            step
          by (auto simp: answer_json_def split: if_splits option.splits)
      qed
    qed
  qed
qed

lemma start_session_eq:
  "start_session session_http dest n (w, rs) =
   (let url = ''s'' @ show_nat (issued w)
    in (Inr (session_new url n),
        w\<lparr>sessions := (sessions w)(url \<mapsto> (dest, [])), issued := issued w + 1\<rparr>, rs(dest \<mapsto> (url, n, 0))))"
  by (simp add: start_session_def create_upload_session_def srv_create_def json_or_err_def answer_json_def
      reply_def json_gets session_new_def Let_def)

lemma fresh_consistent:
  assumes "consistent dest payload old (w, rs)" and "0 < length payload"
  shows "consistent dest payload old
      (w\<lparr>sessions := (sessions w)(url \<mapsto> (dest, [])), issued := k\<rparr>, rs(dest \<mapsto> (url, n, 0)))"
    "owned dest url (w\<lparr>sessions := (sessions w)(url \<mapsto> (dest, [])), issued := k\<rparr>)"
  using assms by (auto simp: consistent_def owned_def)

lemma upload_status_eq:
  "upload_status session_http url w =
   (case sessions w url of
      None \<Rightarrow> (Inl (Http 404 []), w)
    | Some (d, rcv) \<Rightarrow> (Inr (if length rcv < 2 ^ 64 then length rcv else 0), w))"
proof -
  have "parse_range_start (show_nat n @ ''-'') = None" if "\<not> n < 2 ^ 64" for n
  proof -
    have "takeWhile (\<lambda>c. c \<noteq> CHR ''-'') (show_nat n @ ''-'') = show_nat n"
      using digits_no by (subst takeWhile_append2) auto
    moreover have "(case show_nat n of c # cs \<Rightarrow> if c = CHR ''+'' then cs else show_nat n | [] \<Rightarrow> []) = show_nat n"
    proof (cases "show_nat n")
      case (Cons c cs)
      then have "c \<noteq> CHR ''+''" using show_nat_digits [of c n] by auto
      with Cons show ?thesis by simp
    qed simp
    ultimately show ?thesis using that by (simp add: parse_range_start_def trim_digits parse_u64_def Let_def)
  qed
  then show ?thesis
    by (auto simp: upload_status_def srv_get_def reply_def ranges_json_def json_gets parse_range_of
        split: option.split)
qed

text \<open>What an attempt does with a large file: it starts a session or resumes the persisted one.\<close>

definition ready :: "string \<Rightarrow> bytes \<Rightarrow> bytes option \<Rightarrow> UploadSession \<Rightarrow> upload_server \<times> resume_store \<Rightarrow> bool" where
  "ready dest payload old s wr \<longleftrightarrow> consistent dest payload old wr
     \<and> session_size s = length payload \<and> next_offset s < length payload
     \<and> (\<exists>rcv. sessions (fst wr) (upload_url s) = Some (dest, rcv) \<and> next_offset s = length rcv)"

lemma ready_fresh:
  assumes "consistent dest payload old (w, rs)" and "0 < length payload"
  shows "ready dest payload old (session_new url (length payload))
      (w\<lparr>sessions := (sessions w)(url \<mapsto> (dest, [])), issued := k\<rparr>, rs(dest \<mapsto> (url, length payload, 0)))"
  using fresh_consistent [OF assms] assms(2) by (simp add: ready_def session_new_def)

lemma attempt_ready:
  assumes "CHUNK_ALIGN < length payload" and "length payload < 2 ^ 64"
    and "consistent dest payload old (w, rs)"
  shows "\<exists>s w1 rs1. upload_file_resumable session_http dest payload m lives (w, rs)
      = upload_loop session_http dest payload m lives s (w1, rs1)
    \<and> ready dest payload old s (w1, rs1) \<and> lost w1 = lost w"
proof -
  let ?url = "''s'' @ show_nat (issued w)"
  let ?w = "w\<lparr>sessions := (sessions w)(?url \<mapsto> (dest, [])), issued := issued w + 1\<rparr>"
  have pos: "0 < length payload" using assms(1) by linarith
  have fresh: ?thesis
    if "upload_file_resumable session_http dest payload m lives (w, rs)
      = upload_loop session_http dest payload m lives (session_new ?url (length payload))
          (?w, rs0(dest \<mapsto> (?url, length payload, 0)))"
      "consistent dest payload old (w, rs0)" for rs0
    using that(1) ready_fresh [OF that(2) pos, of ?url "issued w + 1"]
    by (intro exI [of _ "session_new ?url (length payload)"] exI [of _ ?w]
        exI [of _ "rs0(dest \<mapsto> (?url, length payload, 0))"]) simp
  have big: "\<not> length payload \<le> CHUNK_ALIGN" using assms(1) by simp
  have clear: "consistent dest payload old (w, rs(dest := None))"
    using assms(3) consistent_resume(1) by blast
  show ?thesis
  proof (cases "rs dest")
    case None
    with big show ?thesis
      by (intro fresh [OF _ assms(3)]) (simp add: upload_file_resumable_def start_session_eq Let_def)
  next
    case (Some p)
    obtain url n off where p: "p = (url, n, off)" by (cases p) auto
    have own: "owned dest url w" using assms(3) Some p by (simp add: consistent_def)
    show ?thesis
    proof (cases "n = length payload \<and> sessions w url \<noteq> None")
      case False
      then show ?thesis
        using big Some p
        by (intro fresh [OF _ clear], cases "sessions w url")
          (simp_all add: upload_file_resumable_def start_session_eq upload_status_eq Let_def)
    next
      case True
      then obtain rcv where rcv: "sessions w url = Some (dest, rcv)" using own by (auto simp: owned_def)
      then have lt: "length rcv < length payload" using assms(3) by (simp add: consistent_def)
      let ?s = "session_resume url (length payload) (length rcv)"
      have "upload_file_resumable session_http dest payload m lives (w, rs)
          = upload_loop session_http dest payload m lives ?s (w, rs)"
        using big Some p True rcv lt assms(2) by (simp add: upload_file_resumable_def upload_status_eq Let_def)
      moreover have "ready dest payload old ?s (w, rs)"
        using assms(3) rcv lt by (simp add: ready_def session_resume_def)
      ultimately show ?thesis by (intro exI [of _ ?s] exI [of _ w] exI [of _ rs]) simp
    qed
  qed
qed

lemma upload_loop_finishes:
  assumes "sessions w (upload_url s) = Some (dest, rcv)" and "next_offset s = length rcv"
    and "length rcv < length payload" and "session_size s = length payload" and "length payload < 2 ^ 64"
    and "lost w = []" and "length payload - length rcv \<le> lives * CHUNK_ALIGN"
  shows "\<exists>w' rs'. upload_loop session_http dest payload m lives s (w, rs) = (Some (Inr JNull), w', rs')
    \<and> stored w' dest = Some (rcv @ drop (length rcv) payload) \<and> rs' dest = None"
  using assms
proof (induction lives arbitrary: s w rs rcv)
  case (Suc k)
  have lt: "next_offset s < session_size s" using Suc.prems by simp
  define n where "n = aligned_chunk m (length payload - length rcv)"
  have n: "n \<le> length payload - length rcv" "min CHUNK_ALIGN (length payload - length rcv) \<le> n" "0 < n"
    unfolding n_def using Suc.prems(3) by (simp_all add: aligned_chunk_bounds)
  define rcv' where "rcv' = rcv @ take n (drop (length rcv) payload)"
  have len: "length rcv' = length rcv + n" unfolding rcv'_def using n(1) by simp
  have tail: "rcv' @ drop (length rcv') payload = rcv @ drop (length rcv) payload"
  proof -
    have "drop (length rcv') payload = drop n (drop (length rcv) payload)" by (simp add: len add.commute)
    then show ?thesis by (simp only: rcv'_def append.assoc append_take_drop_id)
  qed
  have chunk: "next_chunk m s \<noteq> None" using next_chunk_Some [OF lt, of m] Suc.prems(4,5) by (metis option.distinct(1))
  note step = upload_loop_step [of dest payload m "Suc k" s w rs]
  have frag: "fragment m payload s w = (if length rcv' = length payload
      then (Inr (reply 201 JNull), w\<lparr>sessions := (sessions w)(upload_url s := None), stored := (stored w)(dest \<mapsto> rcv')\<rparr>)
      else (Inr (reply 202 (ranges_json rcv')), w\<lparr>sessions := (sessions w)(upload_url s \<mapsto> (dest, rcv'))\<rparr>))"
    using fragment_arrives [OF lt Suc.prems(4,5,6), of m] Suc.prems(1,2) by (simp add: Let_def n_def rcv'_def)
  show ?case
  proof (cases "length rcv' = length payload")
    case True
    then have "rcv' = rcv @ drop (length rcv) payload" using tail by simp
    with True step frag chunk show ?thesis by (auto simp: reply_def answer_json_def)
  next
    case False
    let ?a = "reply 202 (ranges_json rcv')"
    let ?s = "s\<lparr>next_offset := length rcv'\<rparr>"
    let ?w = "w\<lparr>sessions := (sessions w)(upload_url s \<mapsto> (dest, rcv'))\<rparr>"
    let ?rs = "rs(dest \<mapsto> (upload_url s, length payload, length rcv'))"
    have lt': "length rcv' < length payload" using False len n(1) Suc.prems(3) by linarith
    have "n \<noteq> length payload - length rcv" using lt' len by linarith
    with n have "CHUNK_ALIGN \<le> n" by linarith
    then have lives: "length payload - length rcv' \<le> k * CHUNK_ALIGN" using Suc.prems(7) len by simp
    have "accepted ?a p s = ?s" for p using lt' Suc.prems(4,5) by (intro accepted_reply) simp_all
    then have "upload_loop session_http dest payload m (Suc k) s (w, rs)
        = upload_loop session_http dest payload m k ?s (?w, ?rs)"
      using step frag chunk False by (simp add: Let_def) (simp add: reply_def)
    moreover have "\<exists>w' rs'. upload_loop session_http dest payload m k ?s (?w, ?rs) = (Some (Inr JNull), w', rs')
      \<and> stored w' dest = Some (rcv' @ drop (length rcv') payload) \<and> rs' dest = None"
      using Suc.prems(4-6) lt' lives by (intro Suc.IH) simp_all
    ultimately show ?thesis using tail by simp
  qed
qed simp

lemma attempt_small:
  assumes "length payload \<le> CHUNK_ALIGN"
  shows "upload_file_resumable session_http dest payload m lives (w, rs)
    = (Some (Inr JNull), w\<lparr>stored := (stored w)(dest \<mapsto> payload)\<rparr>, rs)"
  using assms by (simp add: upload_file_resumable_def simple_upload_def srv_content_def json_or_err_def
      answer_json_def reply_def)

lemma attempt_safe:
  assumes "consistent dest payload old (w, rs)" and "length payload < 2 ^ 64"
    and "upload_file_resumable session_http dest payload m lives (w, rs) = (r, w', rs')"
  shows "consistent dest payload old (w', rs') \<and> (\<forall>v. r = Some (Inr v) \<longrightarrow> stored w' dest = Some payload)"
proof (cases "length payload \<le> CHUNK_ALIGN")
  case True
  then show ?thesis using assms by (auto simp: attempt_small consistent_def owned_def)
next
  case False
  then have "CHUNK_ALIGN < length payload" by simp
  from attempt_ready [OF this assms(2,1), of m lives] obtain s w1 rs1 where
    "upload_file_resumable session_http dest payload m lives (w, rs)
      = upload_loop session_http dest payload m lives s (w1, rs1)"
    "ready dest payload old s (w1, rs1)" by blast
  with assms(2,3) show ?thesis
    by (intro upload_loop_safe [of dest payload old w1 rs1 s m lives]) (auto simp: ready_def owned_def)
qed

lemma attempts_consistent:
  assumes "consistent dest payload old wr" and "length payload < 2 ^ 64"
  shows "consistent dest payload old (attempts dest payload m ns wr)"
  using assms(1)
proof (induction ns arbitrary: wr)
  case (Cons n ns)
  obtain w rs where wr: "wr = (w, rs)" by (cases wr)
  obtain r w' rs' where "upload_file_resumable session_http dest payload m n wr = (r, w', rs')"
    by (cases "upload_file_resumable session_http dest payload m n wr") auto
  with attempt_safe [of dest payload old w rs m n r w' rs'] Cons wr assms(2) show ?case by simp
qed simp

section \<open>Properties\<close>

text \<open>Fragments tile the file. Every planned fragment is within the file, starts at the offset of the
  session and is not empty; it is smaller than 60 MiB, and a multiple of 320 KiB unless it is the
  last one. The sum that gives its end does not overflow.\<close>

theorem planned_fragment_bounds:
  assumes "next_chunk max_chunk s = Some plan" and "session_size s < 2 ^ 64"
  shows "start plan = next_offset s \<and> 0 < len plan \<and> stop plan = start plan + len plan - 1
    \<and> stop plan < session_size s \<and> len plan < 60 * 1024 * 1024
    \<and> (stop plan + 1 = session_size s \<or> 320 * 1024 dvd len plan)"
proof -
  have lt: "next_offset s < session_size s"
    using assms(1) by (auto simp: next_chunk_def is_complete_def split: if_splits)
  obtain n where n: "plan = \<lparr>start = next_offset s, stop = next_offset s + n - 1, len = n,
      content_range = ''bytes '' @ show_nat (next_offset s) @ ''-'' @ show_nat (next_offset s + n - 1) @ ''/''
        @ show_nat (session_size s)\<rparr>" "n = aligned_chunk max_chunk (session_size s - next_offset s)"
    "0 < n" "next_offset s + n \<le> session_size s"
    using next_chunk_Some [OF lt assms(2), of max_chunk] assms(1) by (metis option.inject)
  have rem: "0 < session_size s - next_offset s" using lt by simp
  note b = aligned_chunk_bounds [OF rem, of max_chunk, folded n(2)]
  have "n < 60 * 1024 * 1024" using b(3) by (simp add: MAX_FRAGMENT_def CHUNK_ALIGN_def)
  moreover have "next_offset s + n = session_size s \<or> 320 * 1024 dvd n"
    using b(2,5) rem unfolding CHUNK_ALIGN_def by fastforce
  ultimately show ?thesis using n by auto
qed

theorem planned_fragment_bounds_witness:
  "len (the (next_chunk 1000000 (session_new ''u'' 2000000))) < 60 * 1024 * 1024"
proof -
  have "next_chunk 1000000 (session_new ''u'' 2000000) = Some (the (next_chunk 1000000 (session_new ''u'' 2000000)))"
    by (simp add: next_chunk_def is_complete_def session_new_def Let_def)
  from planned_fragment_bounds [OF this] show ?thesis by (simp add: session_new_def)
qed

text \<open>C26: A resumed upload is exact. However often the process is killed while it uploads a file, whichever
  answers get lost and whatever fragment size is asked for, the cloud holds either what it held
  before or the whole file, never a part; an attempt that reports success has stored the file, and an
  attempt that is allowed enough fragments and loses no answer succeeds and drops its persisted
  session.\<close>

theorem resumed_upload_is_exact:
  assumes "length payload < 2 ^ 64" and "sessions w = Map.empty"
    and "attempts dest payload max_chunk kills (w, Map.empty) = (w1, rs1)"
    and "upload_file_resumable session_http dest payload max_chunk lives (w1, rs1) = (r, w2, rs2)"
  shows "stored w1 dest \<in> {stored w dest, Some payload} \<and> stored w2 dest \<in> {stored w dest, Some payload}
    \<and> (\<forall>v. r = Some (Inr v) \<longrightarrow> stored w2 dest = Some payload)
    \<and> (lost w1 = [] \<longrightarrow> length payload \<le> lives * CHUNK_ALIGN \<longrightarrow>
         r = Some (Inr JNull) \<and> (CHUNK_ALIGN < length payload \<longrightarrow> rs2 dest = None))"
proof -
  have "consistent dest payload (stored w dest) (w, Map.empty)" using assms(2) by (simp add: consistent_def)
  then have c: "consistent dest payload (stored w dest) (w1, rs1)"
    using attempts_consistent [OF _ assms(1)] assms(3) by metis
  note safe = attempt_safe [OF c assms(1,4)]
  have "r = Some (Inr JNull) \<and> (CHUNK_ALIGN < length payload \<longrightarrow> rs2 dest = None)"
    if "lost w1 = []" "length payload \<le> lives * CHUNK_ALIGN"
  proof (cases "length payload \<le> CHUNK_ALIGN")
    case True
    then show ?thesis using assms(4) by (simp add: attempt_small)
  next
    case False
    then have "CHUNK_ALIGN < length payload" by simp
    from attempt_ready [OF this assms(1) c, of max_chunk lives] obtain s w' rs' where
      s: "upload_file_resumable session_http dest payload max_chunk lives (w1, rs1)
        = upload_loop session_http dest payload max_chunk lives s (w', rs')"
      "ready dest payload (stored w dest) s (w', rs')" "lost w' = lost w1" by blast
    then have s': "lost w' = []" using that(1) by simp
    from s(2) obtain rcv where rcv: "sessions w' (upload_url s) = Some (dest, rcv)"
      "next_offset s = length rcv" "length rcv < length payload" "session_size s = length payload"
      by (auto simp: ready_def)
    have "length payload - length rcv \<le> lives * CHUNK_ALIGN" using that(2) by linarith
    from upload_loop_finishes [OF rcv assms(1) s' this, of max_chunk rs'] s(1) assms(4)
    show ?thesis by auto
  qed
  with safe c show ?thesis by (auto simp: consistent_def)
qed

text \<open>A small file, and a server that has nothing yet.\<close>

definition empty_server :: upload_server where
  "empty_server = \<lparr>sessions = Map.empty, stored = Map.empty, issued = 0, lost = []\<rparr>"

theorem resumed_upload_is_exact_witness:
  "stored (fst (snd (upload_file_resumable session_http ''d'' (replicate 400000 7) 327680 2
      (attempts ''d'' (replicate 400000 7) 327680 [1, 0] (empty_server, Map.empty))))) ''d''
    \<in> {None, Some (replicate 400000 7)}"
proof -
  let ?p = "replicate 400000 7 :: bytes"
  obtain w1 rs1 where a: "attempts ''d'' ?p 327680 [1, 0] (empty_server, Map.empty) = (w1, rs1)" by fastforce
  obtain r w2 rs2 where u: "upload_file_resumable session_http ''d'' ?p 327680 2 (w1, rs1) = (r, w2, rs2)"
    by (cases "upload_file_resumable session_http ''d'' ?p 327680 2 (w1, rs1)") auto
  have "length ?p < 2 ^ 64" "sessions empty_server = Map.empty" by (simp_all add: empty_server_def)
  from resumed_upload_is_exact [OF this a u] a u show ?thesis by (simp add: empty_server_def)
qed

text \<open>C27: A session is resumed for a file that changed. The persisted session is matched by size only: if
  an upload is killed after its first fragment and the file is edited without changing its size, the
  next upload resumes the old session, reports success and stores the old beginning with the new
  end, a content that no version of the file ever had.\<close>

theorem resume_mixes_versions:
  assumes "length old = length new" and "CHUNK_ALIGN < length old" and "length old < 2 ^ 64"
    and "upload_file_resumable session_http dest old CHUNK_ALIGN 1 (empty_server, Map.empty) = (r1, w1, rs1)"
    and "upload_file_resumable session_http dest new CHUNK_ALIGN (length new) (w1, rs1) = (r2, w2, rs2)"
  shows "r1 = None \<and> r2 = Some (Inr JNull)
    \<and> stored w2 dest = Some (take CHUNK_ALIGN old @ drop CHUNK_ALIGN new)"
proof -
  have pos: "0 < CHUNK_ALIGN" by (simp add: CHUNK_ALIGN_def)
  let ?s = "session_new ''s0'' (length old)"
  let ?w = "empty_server\<lparr>sessions := [''s0'' \<mapsto> (dest, [])], issued := 1\<rparr>"
  let ?rs = "[dest \<mapsto> (''s0'', length old, 0 :: nat)]"
  have show0: "show_nat 0 = ''0''" by code_simp
  have big: "\<not> length old \<le> CHUNK_ALIGN" "\<not> length new \<le> CHUNK_ALIGN" using assms(1,2) by simp_all
  have start: "upload_file_resumable session_http dest old CHUNK_ALIGN 1 (empty_server, Map.empty)
      = upload_loop session_http dest old CHUNK_ALIGN 1 ?s (?w, ?rs)"
    using big by (simp add: upload_file_resumable_def start_session_eq empty_server_def show0 Let_def)
  have "old \<noteq> []" using assms(2) by auto
  then have s: "next_offset ?s < session_size ?s" "session_size ?s = length old" "lost ?w = []"
    by (simp_all add: session_new_def empty_server_def)
  have chunk: "next_chunk m x \<noteq> None" if "next_offset x < session_size x" "session_size x < 2 ^ 64" for m x
    using next_chunk_Some [OF that, of m] by (metis option.distinct(1))
  have al: "aligned_chunk CHUNK_ALIGN n = CHUNK_ALIGN" if "CHUNK_ALIGN < n" for n
    using that by (simp add: aligned_chunk_def CHUNK_ALIGN_def MAX_FRAGMENT_def)
  let ?rcv = "take CHUNK_ALIGN old"
  have lr: "length ?rcv = CHUNK_ALIGN" using assms(2) by simp
  let ?w1 = "?w\<lparr>sessions := [''s0'' \<mapsto> (dest, ?rcv)]\<rparr>"
  have "fragment CHUNK_ALIGN old ?s ?w = (Inr (reply 202 (ranges_json ?rcv)), ?w1)"
    using fragment_arrives [OF s(1,2) assms(3) s(3), of CHUNK_ALIGN] assms(2) al by (simp add: session_new_def Let_def)
  moreover have "accepted (reply 202 (ranges_json ?rcv)) p ?s = ?s\<lparr>next_offset := CHUNK_ALIGN\<rparr>" for p
    using accepted_reply [of ?rcv ?s] lr assms(2,3) by (simp add: session_new_def)
  ultimately have "upload_loop session_http dest old CHUNK_ALIGN 1 ?s (?w, ?rs)
      = upload_loop session_http dest old CHUNK_ALIGN 0 (?s\<lparr>next_offset := CHUNK_ALIGN\<rparr>)
          (?w1, [dest \<mapsto> (''s0'', length old, CHUNK_ALIGN)])"
    using upload_loop_step [of dest old CHUNK_ALIGN 1 ?s ?w ?rs] chunk [OF s(1), of CHUNK_ALIGN] assms(3)
    by (simp add: Let_def session_new_def) (auto simp: reply_def)
  moreover have "next_chunk CHUNK_ALIGN (?s\<lparr>next_offset := CHUNK_ALIGN\<rparr>) \<noteq> None"
    using assms(2,3) by (intro chunk) (simp_all add: session_new_def)
  ultimately have 1: "r1 = None" "w1 = ?w1" "rs1 = [dest \<mapsto> (''s0'', length old, CHUNK_ALIGN)]"
    using assms(4) start
      upload_loop_step [of dest old CHUNK_ALIGN 0 "?s\<lparr>next_offset := CHUNK_ALIGN\<rparr>" ?w1
        "[dest \<mapsto> (''s0'', length old, CHUNK_ALIGN)]"]
    by auto
  let ?s2 = "session_resume ''s0'' (length new) CHUNK_ALIGN"
  have resume: "upload_file_resumable session_http dest new CHUNK_ALIGN (length new) (w1, rs1)
      = upload_loop session_http dest new CHUNK_ALIGN (length new) ?s2 (w1, rs1)"
    using big 1 lr assms(1,3) by (simp add: upload_file_resumable_def upload_status_eq Let_def)
  have "\<exists>w' rs'. upload_loop session_http dest new CHUNK_ALIGN (length new) ?s2 (w1, rs1) = (Some (Inr JNull), w', rs')
      \<and> stored w' dest = Some (?rcv @ drop (length ?rcv) new) \<and> rs' dest = None"
    using 1 lr assms(1-3) pos
    by (intro upload_loop_finishes) (auto simp: session_resume_def empty_server_def CHUNK_ALIGN_def)
  with resume assms(5) lr 1(1) show ?thesis by auto
qed

theorem resume_mixes_versions_witness:
  "\<exists>w. upload_file_resumable session_http ''d'' (replicate 400000 2) CHUNK_ALIGN 400000
      (snd (upload_file_resumable session_http ''d'' (replicate 400000 1) CHUNK_ALIGN 1 (empty_server, Map.empty)))
     = (Some (Inr JNull), w)
   \<and> stored (fst w) ''d'' = Some (take CHUNK_ALIGN (replicate 400000 1) @ drop CHUNK_ALIGN (replicate 400000 2))"
proof -
  let ?old = "replicate 400000 1 :: bytes" and ?new = "replicate 400000 2 :: bytes"
  obtain r1 w1 rs1 where 1: "upload_file_resumable session_http ''d'' ?old CHUNK_ALIGN 1 (empty_server, Map.empty)
      = (r1, w1, rs1)"
    by (cases "upload_file_resumable session_http ''d'' ?old CHUNK_ALIGN 1 (empty_server, Map.empty)") auto
  obtain r2 w2 rs2 where 2: "upload_file_resumable session_http ''d'' ?new CHUNK_ALIGN (length ?new) (w1, rs1)
      = (r2, w2, rs2)"
    by (cases "upload_file_resumable session_http ''d'' ?new CHUNK_ALIGN (length ?new) (w1, rs1)") auto
  have "length ?old = length ?new" "CHUNK_ALIGN < length ?old" "length ?old < 2 ^ 64"
    by (simp_all add: CHUNK_ALIGN_def)
  from resume_mixes_versions [OF this 1 2] 1 2 show ?thesis by simp
qed

end
