(* ===== verification/OneDrive_Sink.thy ===== *)
theory OneDrive_Sink
  imports Cloud_Writes Upload_Session
begin

text \<open>
  The production sink of cloud writes: \<^verbatim>\<open>OneDriveWriteSink for GraphClient\<close> (\<^verbatim>\<open>engine/src/onedrive_write.rs\<close>)
  over the Graph requests it makes (\<^verbatim>\<open>graph/src/http.rs\<close>). The HTTP requests are a record of functions on
  the drive that answer with a status; a reference drive implements them as Microsoft Graph documents
  them, with answers that can get lost after the request has taken effect.
\<close>

section \<open>Requests of the Graph client\<close>

record 'c drive_http =
  dh_post_folder :: "string \<Rightarrow> string \<Rightarrow> 'c \<Rightarrow> (UploadError + answer) \<times> 'c"
  dh_children :: "string \<Rightarrow> 'c \<Rightarrow> (UploadError + json list) \<times> 'c"
  dh_patch :: "string \<Rightarrow> json \<Rightarrow> 'c \<Rightarrow> (UploadError + answer) \<times> 'c"
  dh_delete :: "string \<Rightarrow> 'c \<Rightarrow> (UploadError + answer) \<times> 'c"
  dh_put_child :: "string \<Rightarrow> string \<Rightarrow> bytes \<Rightarrow> 'c \<Rightarrow> (UploadError + answer) \<times> 'c"
  dh_put_content :: "string \<Rightarrow> bytes \<Rightarrow> string \<Rightarrow> 'c \<Rightarrow> (UploadError + answer) \<times> 'c"

text \<open>Reading an answer, and \<^verbatim>\<open>?\<close> on a request that could not be sent.\<close>

definition answered :: "(answer \<Rightarrow> UploadError + 'a) \<Rightarrow> (UploadError + answer) \<times> 'c \<Rightarrow> (UploadError + 'a) \<times> 'c" where
  "answered f r = (case fst r of Inl e \<Rightarrow> (Inl e, snd r) | Inr a \<Rightarrow> (f a, snd r))"

definition create_folder :: "'c drive_http \<Rightarrow> string \<Rightarrow> string \<Rightarrow> 'c \<Rightarrow> (UploadError + json) \<times> 'c" where
  "create_folder h parent name c = answered json_or_err (dh_post_folder h parent name c)"

definition move_body :: "string option \<Rightarrow> string \<Rightarrow> json" where
  "move_body new_parent new_name =
     JObj ((''name'', JStr new_name) #
       (case new_parent of
          None \<Rightarrow> []
        | Some pid \<Rightarrow>
            [(''parentReference'',
              if pid = [] then JObj [(''path'', JStr ''/drive/root:'')] else JObj [(''id'', JStr pid)])]))"

definition move_item :: "'c drive_http \<Rightarrow> string \<Rightarrow> string option \<Rightarrow> string \<Rightarrow> 'c \<Rightarrow> (UploadError + json) \<times> 'c" where
  "move_item h item_id new_parent new_name c = answered json_or_err (dh_patch h item_id (move_body new_parent new_name) c)"

definition delete_item :: "'c drive_http \<Rightarrow> string \<Rightarrow> 'c \<Rightarrow> (UploadError + unit) \<times> 'c" where
  "delete_item h item_id c =
     answered (\<lambda>a. if a_status a = 200 \<or> a_status a = 204 then Inr ()
                   else Inl (Http (a_status a) (take_chars 200 (a_text a)))) (dh_delete h item_id c)"

definition upload_to_parent :: "'c drive_http \<Rightarrow> string \<Rightarrow> string \<Rightarrow> bytes \<Rightarrow> 'c \<Rightarrow> (UploadError + json option) \<times> 'c" where
  "upload_to_parent h parent name payload c =
     answered (\<lambda>a. if a_status a = 200 \<or> a_status a = 201 then map_sum id Some (answer_json a)
                   else if a_status a = 409 then Inr None
                   else Inl (Http (a_status a) (take_chars 300 (a_text a)))) (dh_put_child h parent name payload c)"

definition replace_content_if_match :: "'c drive_http \<Rightarrow> string \<Rightarrow> bytes \<Rightarrow> string \<Rightarrow> 'c \<Rightarrow> (UploadError + json option) \<times> 'c" where
  "replace_content_if_match h item_id payload etag c =
     answered (\<lambda>a. if a_status a = 200 \<or> a_status a = 201 then map_sum id Some (answer_json a)
                   else if a_status a = 412 then Inr None
                   else Inl (Http (a_status a) (take_chars 300 (a_text a)))) (dh_put_content h item_id payload etag c)"

text \<open>\<^verbatim>\<open>Display\<close> of an error.\<close>

primrec show_upload_error :: "UploadError \<Rightarrow> string" where
  "show_upload_error (Http st t) = ''HTTP '' @ show_nat st @ '': '' @ t"
| "show_upload_error (Transport f d) = ''transport error: '' @ d"
| "show_upload_error (Timeout e) = ''timeout: '' @ e"
| "show_upload_error (Parse e) = ''parse error: '' @ e"
| "show_upload_error TooLarge = ''response body exceeded limit''"
| "show_upload_error Incomplete = ''upload ended without completion''"

section \<open>The sink\<close>

definition texted :: "('a \<Rightarrow> string + 'b) \<Rightarrow> (UploadError + 'a) \<times> 'c \<Rightarrow> (string + 'b) \<times> 'c" where
  "texted f r = (case fst r of Inl e \<Rightarrow> (Inl (show_upload_error e), snd r) | Inr x \<Rightarrow> (f x, snd r))"

definition graph_create_folder :: "'c drive_http \<Rightarrow> string \<Rightarrow> string \<Rightarrow> 'c \<Rightarrow> (string + string) \<times> 'c" where
  "graph_create_folder h parent name c =
     texted (\<lambda>v. or_err ''create_folder: Graph response had no id'' (get_str ''id'' v)) (create_folder h parent name c)"

definition graph_find_child_folder :: "'c drive_http \<Rightarrow> string \<Rightarrow> string \<Rightarrow> 'c \<Rightarrow> (string + string option) \<times> 'c" where
  "graph_find_child_folder h parent name c =
     texted (\<lambda>kids. Inr (Option.bind (List.find (\<lambda>v. get ''folder'' v \<noteq> None \<and> get_str ''name'' v = Some name) kids) (get_str ''id'')))
       (dh_children h parent c)"

definition graph_find_child :: "'c drive_http \<Rightarrow> string \<Rightarrow> string \<Rightarrow> 'c \<Rightarrow> (string + string option) \<times> 'c" where
  "graph_find_child h parent name c =
     texted (\<lambda>kids. Inr (Option.bind (List.find (\<lambda>v. get_str ''name'' v = Some name) kids) (get_str ''id'')))
       (dh_children h parent c)"

definition graph_rename_or_move :: "'c drive_http \<Rightarrow> string \<Rightarrow> string option \<Rightarrow> string \<Rightarrow> 'c \<Rightarrow> (string + unit) \<times> 'c" where
  "graph_rename_or_move h item_id new_parent new_name c = texted (\<lambda>_. Inr ()) (move_item h item_id new_parent new_name c)"

definition graph_delete :: "'c drive_http \<Rightarrow> string \<Rightarrow> 'c \<Rightarrow> (string + unit) \<times> 'c" where
  "graph_delete h item_id c = texted Inr (delete_item h item_id c)"

definition upload_conflict :: "string \<Rightarrow> string \<Rightarrow> string" where
  "upload_conflict name parent = ''upload conflict: a child named '' @ [CHR 0x27] @ name @ [CHR 0x27]
     @ '' already exists under '' @ parent"

definition graph_upload :: "'c drive_http \<Rightarrow> string \<Rightarrow> string \<Rightarrow> bytes \<Rightarrow> 'c \<Rightarrow> (string + string) \<times> 'c" where
  "graph_upload h parent name payload c =
     texted (\<lambda>r. case r of
               Some v \<Rightarrow> or_err ''upload: Graph response had no id'' (get_str ''id'' v)
             | None \<Rightarrow> Inl (upload_conflict name parent)) (upload_to_parent h parent name payload c)"

definition graph_replace_if_match :: "'c drive_http \<Rightarrow> string \<Rightarrow> bytes \<Rightarrow> string \<Rightarrow> 'c \<Rightarrow> (string + ReplaceOutcome) \<times> 'c" where
  "graph_replace_if_match h item_id payload etag c =
     texted (\<lambda>r. Inr (case r of Some v \<Rightarrow> Replaced (or_empty (get_str ''id'' v)) | None \<Rightarrow> ReplaceOutcome.Conflict))
       (replace_content_if_match h item_id payload etag c)"

definition graph_sink :: "'c drive_http \<Rightarrow> 'c write_sink" where
  "graph_sink h =
     \<lparr>ws_create_folder = graph_create_folder h, ws_find_child_folder = graph_find_child_folder h,
      ws_find_child = graph_find_child h, ws_rename_or_move = graph_rename_or_move h, ws_delete = graph_delete h,
      ws_upload = graph_upload h, ws_replace_if_match = graph_replace_if_match h\<rparr>"

section \<open>A reference drive\<close>

record ditem =
  di_id :: string
  di_parent :: string
  di_name :: string
  di_folder :: bool
  di_etag :: nat
  di_bytes :: bytes

record drive =
  d_items :: "ditem list"
  d_seq :: nat
  d_lost :: "bool list"

definition child_there :: "string \<Rightarrow> string \<Rightarrow> drive \<Rightarrow> bool" where
  "child_there parent name d \<longleftrightarrow> list_ex (\<lambda>x. di_parent x = parent \<and> di_name x = name) (d_items d)"

text \<open>The answer to a request that has taken effect, or a lost one.\<close>

definition answering :: "answer \<Rightarrow> drive \<Rightarrow> (UploadError + answer) \<times> drive" where
  "answering a d =
     (case d_lost d of
        [] \<Rightarrow> (Inr a, d)
      | l # ls \<Rightarrow> (if l then Inl (Transport Other ''connection reset'') else Inr a, d\<lparr>d_lost := ls\<rparr>))"

definition add_child :: "bool \<Rightarrow> string \<Rightarrow> string \<Rightarrow> bytes \<Rightarrow> drive \<Rightarrow> (UploadError + answer) \<times> drive" where
  "add_child folder parent name payload d =
     (let x = ''i'' @ show_nat (d_seq d)
      in answering (reply 201 (JObj [(''id'', JStr x)]))
           (d\<lparr>d_items := d_items d @ [\<lparr>di_id = x, di_parent = parent, di_name = name, di_folder = folder,
                di_etag = 0, di_bytes = payload\<rparr>], d_seq := d_seq d + 1\<rparr>))"

text \<open>\<^verbatim>\<open>conflictBehavior\<close>: with \<open>fail\<close> a name that is taken answers 409; without it the drive makes another.\<close>

definition drive_post :: "bool \<Rightarrow> string \<Rightarrow> string \<Rightarrow> drive \<Rightarrow> (UploadError + answer) \<times> drive" where
  "drive_post strict parent name d =
     (if strict \<and> child_there parent name d then answering (reply 409 JNull) d else add_child True parent name [] d)"

definition item_json :: "ditem \<Rightarrow> json" where
  "item_json x = JObj ([(''id'', JStr (di_id x)), (''name'', JStr (di_name x))] @ (if di_folder x then [(''folder'', JObj [])] else []))"

definition drive_children :: "string \<Rightarrow> drive \<Rightarrow> (UploadError + json list) \<times> drive" where
  "drive_children parent d = (Inr (map item_json (filter (\<lambda>x. di_parent x = parent) (d_items d))), d)"

definition drive_patch :: "string \<Rightarrow> json \<Rightarrow> drive \<Rightarrow> (UploadError + answer) \<times> drive" where
  "drive_patch item v d =
     (if list_ex (\<lambda>x. di_id x = item) (d_items d)
      then answering (reply 200 (JObj [(''id'', JStr item)]))
        (d\<lparr>d_items := map (\<lambda>x. if di_id x = item
            then x\<lparr>di_name := or_empty (get_str ''name'' v),
                   di_parent := (case get ''parentReference'' v of
                      None \<Rightarrow> di_parent x | Some p \<Rightarrow> or_empty (get_str ''id'' p))\<rparr> else x) (d_items d)\<rparr>)
      else answering (reply 404 JNull) d)"

definition drive_delete :: "string \<Rightarrow> drive \<Rightarrow> (UploadError + answer) \<times> drive" where
  "drive_delete item d =
     (if list_ex (\<lambda>x. di_id x = item) (d_items d)
      then answering (reply 204 JNull) (d\<lparr>d_items := filter (\<lambda>x. di_id x \<noteq> item) (d_items d)\<rparr>)
      else answering (reply 404 JNull) d)"

definition drive_put_child :: "string \<Rightarrow> string \<Rightarrow> bytes \<Rightarrow> drive \<Rightarrow> (UploadError + answer) \<times> drive" where
  "drive_put_child parent name payload d =
     (if child_there parent name d then answering (reply 409 JNull) d else add_child False parent name payload d)"

definition drive_put_content :: "string \<Rightarrow> bytes \<Rightarrow> string \<Rightarrow> drive \<Rightarrow> (UploadError + answer) \<times> drive" where
  "drive_put_content item payload etag d =
     (case List.find (\<lambda>x. di_id x = item) (d_items d) of
        None \<Rightarrow> answering (reply 404 JNull) d
      | Some x \<Rightarrow>
          if show_nat (di_etag x) \<noteq> etag then answering (reply 412 JNull) d
          else answering (reply 200 (JObj [(''id'', JStr item)]))
            (d\<lparr>d_items := map (\<lambda>y. if di_id y = item then y\<lparr>di_bytes := payload, di_etag := di_etag y + 1\<rparr> else y) (d_items d)\<rparr>))"

definition drive_requests :: "bool \<Rightarrow> drive drive_http" where
  "drive_requests strict =
     \<lparr>dh_post_folder = drive_post strict, dh_children = drive_children, dh_patch = drive_patch, dh_delete = drive_delete,
      dh_put_child = drive_put_child, dh_put_content = drive_put_content\<rparr>"

definition folders_named :: "string \<Rightarrow> string \<Rightarrow> drive \<Rightarrow> nat" where
  "folders_named parent name d =
     length (filter (\<lambda>x. di_folder x \<and> di_parent x = parent \<and> di_name x = name) (d_items d))"

section \<open>The drive meets the contract\<close>

lemma answering_drive: "d_items (snd (answering a d)) = d_items d"
  by (simp add: answering_def split: list.split)

lemma answering_Inr: "fst (answering a d) = Inr b \<Longrightarrow> b = a"
  by (auto simp: answering_def split: list.splits if_splits)

lemma snd_answered [simp]: "snd (answered f r) = snd r" "snd (texted g r') = snd r'"
  by (simp_all add: answered_def texted_def split: sum.split)

lemma folder_json:
  "(\<exists>y. get ''folder'' (item_json x) = Some y) \<longleftrightarrow> di_folder x" "get_str ''name'' (item_json x) = Some (di_name x)"
  "get_str ''id'' (item_json x) = Some (di_id x)"
  by (simp_all add: item_json_def json_gets)

lemma find_map: "List.find P (map f xs) = map_option f (List.find (\<lambda>x. P (f x)) xs)"
  by (induction xs) simp_all

lemma find_folder_drive:
  "graph_find_child_folder (drive_requests strict) p n d =
    (Inr (map_option di_id (List.find (\<lambda>x. di_folder x \<and> di_name x = n) (filter (\<lambda>x. di_parent x = p) (d_items d)))), d)"
proof -
  have "Option.bind (map_option item_json r) (get_str ''id'') = map_option di_id r" for r
    by (cases r) (simp_all add: folder_json)
  then show ?thesis
    by (simp add: graph_find_child_folder_def drive_requests_def drive_children_def texted_def find_map folder_json)
qed

lemma items_post: "d_items (snd (drive_post strict p n d)) = d_items d
    \<or> (\<exists>x. d_items (snd (drive_post strict p n d)) = d_items d @ [x] \<and> di_folder x \<and> di_parent x = p \<and> di_name x = n)"
  by (simp add: drive_post_def add_child_def Let_def answering_drive)

lemma create_folder_drive:
  assumes "fst (graph_create_folder (drive_requests strict) p n d) = Inr x"
  shows "\<exists>y. d_items (snd (graph_create_folder (drive_requests strict) p n d)) = d_items d @ [y]
    \<and> di_folder y \<and> di_parent y = p \<and> di_name y = n \<and> di_id y = x"
proof -
  let ?r = "drive_post strict p n d"
  from assms obtain a v where a: "fst ?r = Inr a" "json_or_err a = Inr v" "get_str ''id'' v = Some x"
    by (auto simp: graph_create_folder_def create_folder_def drive_requests_def texted_def answered_def or_err_def
        split: sum.splits option.splits)
  have "\<not> (strict \<and> child_there p n d)"
  proof
    assume "strict \<and> child_there p n d"
    with a(1) have "a = reply 409 JNull" by (auto simp: drive_post_def dest: answering_Inr)
    with a(2) show False by (simp add: json_or_err_def reply_def)
  qed
  then have post: "?r = add_child True p n [] d" by (auto simp: drive_post_def)
  with a(1) have "a = reply 201 (JObj [(''id'', JStr (''i'' @ show_nat (d_seq d)))])"
    by (auto simp: add_child_def Let_def dest: answering_Inr)
  with a(2,3) have "x = ''i'' @ show_nat (d_seq d)" by (auto simp: json_or_err_def answer_json_def reply_def json_gets)
  moreover have "snd (graph_create_folder (drive_requests strict) p n d) = snd ?r"
    by (simp add: graph_create_folder_def create_folder_def drive_requests_def)
  ultimately show ?thesis by (simp add: post add_child_def Let_def answering_drive)
qed

interpretation drive_folders: folder_cloud "graph_sink (drive_requests strict)" "folders_named p n" p n for strict p n
proof
  fix d :: drive and x
  let ?s = "graph_sink (drive_requests strict)"
  have items: "d_items (snd (ws_create_folder ?s p n d)) = d_items (snd (drive_post strict p n d))"
    by (simp add: graph_sink_def graph_create_folder_def create_folder_def drive_requests_def)
  show "folders_named p n (snd (ws_create_folder ?s p n d)) \<le> Suc (folders_named p n d)"
    using items_post [of strict p n d] by (auto simp: folders_named_def items)
  show "fst (ws_create_folder ?s p n d) = Inr x \<Longrightarrow> 1 \<le> folders_named p n (snd (ws_create_folder ?s p n d))"
    using create_folder_drive [of strict p n d x] by (auto simp: graph_sink_def folders_named_def)
  show "folders_named p n (snd (ws_find_child_folder ?s p n d)) = folders_named p n d"
    by (simp add: graph_sink_def find_folder_drive)
  show "1 \<le> folders_named p n d" if "fst (ws_find_child_folder ?s p n d) = Inr (Some x)"
  proof -
    from that obtain y where "List.find (\<lambda>x. di_folder x \<and> di_name x = n) (filter (\<lambda>x. di_parent x = p) (d_items d)) = Some y"
      by (auto simp: graph_sink_def find_folder_drive)
    then have "y \<in> set (filter (\<lambda>x. di_folder x \<and> di_parent x = p \<and> di_name x = n) (d_items d))"
      by (auto simp: find_Some_iff dest: nth_mem)
    then show ?thesis unfolding folders_named_def by (metis One_nat_def Suc_leI length_pos_if_in_set)
  qed
  show "folders_named p n d = 0" if "fst (ws_find_child_folder ?s p n d) = Inr None"
    using that by (auto simp: graph_sink_def find_folder_drive find_None_iff folders_named_def filter_empty_conv)
qed

section \<open>A reference share service\<close>

record share_cloud =
  sc_sent :: nat
  sc_permissions :: "DrivePermission list"
  sc_lost :: "bool list"

definition invited :: "string list \<Rightarrow> string list \<Rightarrow> nat \<Rightarrow> DrivePermission list" where
  "invited emails roles n =
     map (\<lambda>(k, email). \<lparr>dp_id = ''p'' @ show_nat (n + k), dp_roles = roles, dp_link_web_url = None, dp_link_type = None,
        dp_link_scope = None, dp_granted_emails = [email], dp_invitation_emails = [], dp_inherited = False\<rparr>)
       (enumerate 0 emails)"

definition service_invite ::
  "string \<Rightarrow> string list \<Rightarrow> string list \<Rightarrow> bool \<Rightarrow> bool \<Rightarrow> share_cloud \<Rightarrow> (string + InviteOutcome) \<times> share_cloud" where
  "service_invite item emails roles sign_in send c =
     (let ps = invited emails roles (length (sc_permissions c));
          c' = c\<lparr>sc_sent := sc_sent c + 1, sc_permissions := sc_permissions c @ ps\<rparr>
      in case sc_lost c of
           [] \<Rightarrow> (Inr (InviteOutcome.Applied (map dp_id ps)), c')
         | l # ls \<Rightarrow> (if l then Inl ''timeout: no answer'' else Inr (InviteOutcome.Applied (map dp_id ps)), c'\<lparr>sc_lost := ls\<rparr>))"

definition service_link :: "string \<Rightarrow> string \<Rightarrow> string \<Rightarrow> share_cloud \<Rightarrow> (string + DrivePermission) \<times> share_cloud" where
  "service_link item link_type scope c =
     (let p = \<lparr>dp_id = ''p'' @ show_nat (length (sc_permissions c)), dp_roles = [], dp_link_web_url = Some ''https://1drv.ms/x'',
            dp_link_type = Some link_type, dp_link_scope = Some scope, dp_granted_emails = [], dp_invitation_emails = [],
            dp_inherited = False\<rparr>
      in (Inr p, c\<lparr>sc_permissions := sc_permissions c @ [p]\<rparr>))"

definition share_service :: "share_cloud share_sink" where
  "share_service = \<lparr>create_share_link = service_link, list_share_permissions = (\<lambda>item c. (Inr (sc_permissions c), c)),
     invite_share = service_invite\<rparr>"

interpretation service_invites: invite_cloud share_service sc_sent
proof
  fix item emails roles sign_in send c e
  show "sc_sent (snd (invite_share share_service item emails roles sign_in send c)) \<le> Suc (sc_sent c)"
    by (simp add: share_service_def service_invite_def Let_def split: list.split)
  show "sc_sent (snd (list_share_permissions share_service item c)) = sc_sent c" by (simp add: share_service_def)
  assume "fst (invite_share share_service item emails roles sign_in send c) = Inl e"
  then have "e = ''timeout: no answer''"
    by (auto simp: share_service_def service_invite_def Let_def split: list.splits if_splits)
  then show "redacted_share_error e \<noteq> INVITE_NOT_STARTED" by simp code_simp
qed

text \<open>Services that refuse every call.\<close>

definition offline_writes :: "'c write_sink" where
  "offline_writes =
     \<lparr>ws_create_folder = (\<lambda>p n c. (Inl ''offline'', c)), ws_find_child_folder = (\<lambda>p n c. (Inl ''offline'', c)),
      ws_find_child = (\<lambda>p n c. (Inl ''offline'', c)), ws_rename_or_move = (\<lambda>x p n c. (Inl ''offline'', c)),
      ws_delete = (\<lambda>x c. (Inl ''offline'', c)), ws_upload = (\<lambda>p n b c. (Inl ''offline'', c)),
      ws_replace_if_match = (\<lambda>x b e c. (Inl ''offline'', c))\<rparr>"

definition offline_shares :: "'c share_sink" where
  "offline_shares =
     \<lparr>create_share_link = (\<lambda>x t s c. (Inl ''offline'', c)), list_share_permissions = (\<lambda>x c. (Inl ''offline'', c)),
      invite_share = (\<lambda>x es rs b b' c. (Inl ''offline'', c))\<rparr>"

section \<open>Properties\<close>

text \<open>C37: An invitation is sent at most once. However often the same invitation is issued, and whenever the
  process dies and recovers the ledger at the next start, at most one call to invite reaches the cloud:
  an invitation whose fate is unknown is never sent again on its own.\<close>

theorem invite_sent_at_most_once:
  assumes "invite_cloud shares sent" and "sent c = 0"
  shows "sent (cw_cloud (run_history (run_invite hmac shares account item_id emails role secret)
      (recover_pending_cloud_writes hmac body exists sink shares account secret) hs
      \<lparr>cw_ledger = [], cw_cloud = c\<rparr>)) \<le> 1"
proof -
  let ?boot = "recover_pending_cloud_writes hmac body exists sink shares account secret"
  show ?thesis
  proof (cases "invite_intent hmac account item_id emails role secret")
    case (Inl e)
    let ?I = "\<lambda>w. cw_ledger w = [] \<and> sent (cw_cloud w) = 0"
    have "run_invite hmac shares account item_id emails role secret t = cw_throw e" for t
      by (simp add: run_invite_def Inl fun_eq_iff cw_bind_def cw_match_def cw_lift_def)
    then have run: "keeps ?I (run_invite hmac shares account item_id emails role secret t) (\<lambda>_ _. True) ?I" for t
      by (simp add: keeps_throw)
    have boot: "keeps ?I (?boot t) (\<lambda>_. ?I) ?I" for t
      by (rule boot_one [where F = "\<lambda>_ _. False"]) (simp_all add: pending_cloud_writes_def keeps_def)
    have "?I (run_history (run_invite hmac shares account item_id emails role secret) ?boot hs
        \<lparr>cw_ledger = [], cw_cloud = c\<rparr>)"
      by (rule history_keeps [OF run boot]) (simp add: assms(2))
    then show ?thesis by simp
  next
    case (Inr p)
    obtain i ns where i: "invite_intent hmac account item_id emails role secret = Inr (i, ns)"
      using Inr by (cases p) auto
    obtain op_id key where k: "share_keys hmac i secret account = (op_id, key)" by fastforce
    define op where "op = share_op op_id account item_id key i"
    have kind: "si_kind i = Invite" using invite_intent_shape(5) [OF i] by simp
    have reads: "intent_from_op op' = Inr i" if "stands_for op op'" for op'
      using that intent_roundtrip [OF i] by (simp add: op_def stands_for_def share_op_def)
    note run = invite_cloud.run_invite_keeps [OF assms(1) i k op_def]
    have boot: "keeps (invite_cloud.fine sent op) (?boot t) (\<lambda>_. invite_cloud.fine sent op) (invite_cloud.fine sent op)" for t
      by (rule invite_cloud.boot_keeps [OF assms(1) _ reads kind]) (simp_all add: op_def share_op_def)
    have "invite_cloud.fine sent op (run_history (run_invite hmac shares account item_id emails role secret) ?boot hs
        \<lparr>cw_ledger = [], cw_cloud = c\<rparr>)"
      by (rule history_keeps [OF run boot]) (simp add: invite_cloud.fine_def [OF assms(1)] assms(2))
    then show ?thesis
      by (auto simp: invite_cloud.fine_def [OF assms(1)] invite_cloud.progress_def [OF assms(1)])
  qed
qed

definition no_shares :: share_cloud where
  "no_shares = \<lparr>sc_sent = 0, sc_permissions = [], sc_lost = [True]\<rparr>"

theorem invite_sent_at_most_once_witness:
  "sc_sent (cw_cloud (run_history (run_invite (\<lambda>k m. m) share_service ''a'' ''x'' [''u@v''] ''read'' [])
      (recover_pending_cloud_writes (\<lambda>k m. m) Inl (\<lambda>p. False) offline_writes share_service ''a'' [])
      [Issue 3 0, Boot 1 1, Issue 9 2] \<lparr>cw_ledger = [], cw_cloud = no_shares\<rparr>)) \<le> 1"
  by (rule invite_sent_at_most_once [OF service_invites.invite_cloud_axioms]) (simp add: no_shares_def)

text \<open>C4: Creating a folder survives crashes without a duplicate, although the cloud would create it twice.
  However often the same request is issued and the ledger recovered, with a crash after any effect and
  with answers that get lost, there is at most one folder, and a call that reports success leaves
  exactly one.\<close>

theorem folder_created_once:
  assumes "folder_cloud sink present (wr_target_id req) (wr_name req)" and "wr_kind req = Create" and "present c = 0"
    and "w = run_history (run_cloud_write hmac body sink shares account req secret)
      (recover_pending_cloud_writes hmac body exists sink shares account secret) hs \<lparr>cw_ledger = [], cw_cloud = c\<rparr>"
  shows "present (cw_cloud w) \<le> 1
    \<and> (\<forall>now n x n' w'. run_cloud_write hmac body sink shares account req secret now n w = (Finished (Inr x), n', w')
        \<longrightarrow> present (cw_cloud w') = 1)"
proof -
  obtain op_id key where k: "write_keys hmac req secret account = (op_id, key)" by fastforce
  define op where "op = write_op op_id account key req"
  have row: "cw_op_kind op = cloud_as_str Create" "cw_target_id op = Some (wr_target_id req)"
    "cw_intent_json op = Some (write_intent_json req)" using assms(2) by (simp_all add: op_def write_op_def)
  note run = folder_cloud.run_create_keeps [OF assms(1,2) refl refl k op_def]
  note boot = folder_cloud.boot_create_keeps [OF assms(1) row refl]
  have I: "folder_cloud.sound present op w"
    unfolding assms(4)
    by (rule history_keeps [OF run boot]) (simp add: folder_cloud.sound_def [OF assms(1)] assms(3))
  then have "present (cw_cloud w) \<le> 1"
    by (auto simp: folder_cloud.sound_def [OF assms(1)] folder_cloud.made_def [OF assms(1)])
  moreover have "present (cw_cloud w') = 1"
    if "run_cloud_write hmac body sink shares account req secret now n w = (Finished (Inr x), n', w')" for now n x n' w'
    using keepsD(2) [OF run I that refl] by simp
  ultimately show ?thesis by blast
qed

definition new_folder :: CloudWrite where
  "new_folder = \<lparr>wr_kind = Create, wr_target_id = ''root'', wr_name = ''docs'', wr_new_parent_id = None, wr_if_match = None,
     wr_local_path = None, wr_content_tag = None\<rparr>"

theorem folder_created_once_witness:
  "folders_named ''root'' ''docs'' (cw_cloud (run_history
      (run_cloud_write (\<lambda>k m. m) Inl (graph_sink (drive_requests False)) offline_shares ''a'' new_folder [])
      (recover_pending_cloud_writes (\<lambda>k m. m) Inl (\<lambda>p. False) (graph_sink (drive_requests False)) offline_shares ''a'' [])
      [Issue 3 0, Issue 2 1, Boot 3 2] \<lparr>cw_ledger = [], cw_cloud = \<lparr>d_items = [], d_seq = 0, d_lost = [True]\<rparr>\<rparr>)) \<le> 1"
proof -
  have f: "folder_cloud (graph_sink (drive_requests False)) (folders_named ''root'' ''docs'') (wr_target_id new_folder) (wr_name new_folder)"
    by (simp add: new_folder_def drive_folders.folder_cloud_axioms)
  have k: "wr_kind new_folder = Create" and z: "folders_named ''root'' ''docs'' \<lparr>d_items = [], d_seq = 0, d_lost = [True]\<rparr> = 0"
    by (simp_all add: new_folder_def folders_named_def)
  show ?thesis
    by (rule folder_created_once [where present = "folders_named ''root'' ''docs''" and req = new_folder
          and c = "\<lparr>d_items = [], d_seq = 0, d_lost = [True]\<rparr>", OF f k z refl, THEN conjunct1])
qed

text \<open>Requests that carry no body.\<close>

definition plain_request :: "CloudOpKind \<Rightarrow> string \<Rightarrow> string \<Rightarrow> CloudWrite" where
  "plain_request kind target name =
     \<lparr>wr_kind = kind, wr_target_id = target, wr_name = name, wr_new_parent_id = None, wr_if_match = None,
      wr_local_path = None, wr_content_tag = None\<rparr>"

lemma issue_plain:
  "issue body sink (plain_request Delete x n) = cw_bind (on_cloud (ws_delete sink x)) (\<lambda>_. cw_ret (Done []))"
  "issue body sink (plain_request Rename x n) = cw_bind (on_cloud (ws_rename_or_move sink x None n)) (\<lambda>_. cw_ret (Done []))"
  by (simp_all add: issue_def plain_request_def)

lemmas prog_simps = cw_bind_def cw_match_def cw_ret_def cw_throw_def cw_lift_def on_cloud_def on_ledger_def
  ask_ledger_def set_state_def record_intent_def

lemma record_empty: "record_cloud_write op now [] = (True, [CloudWriteOp.extend op \<lparr>cw_created_at = now, cw_updated_at = now\<rparr>])"
  by (simp add: record_cloud_write_def)

lemma graph_delete_there:
  assumes "list_ex (\<lambda>i. di_id i = x) (d_items d)" and "d_lost d = []"
  shows "graph_delete (drive_requests strict) x d = (Inr (), d\<lparr>d_items := filter (\<lambda>i. di_id i \<noteq> x) (d_items d)\<rparr>)"
  using assms by (simp add: graph_delete_def delete_item_def drive_requests_def drive_delete_def answering_def answered_def texted_def reply_def)

lemma show_404: "show_nat 404 = ''404''"
  by code_simp

lemma graph_delete_gone:
  assumes "\<not> list_ex (\<lambda>i. di_id i = x) (d_items d)" and "d_lost d = []"
  shows "graph_delete (drive_requests strict) x d = (Inl ''HTTP 404: '', d)"
  using assms show_404
  by (simp add: graph_delete_def delete_item_def drive_requests_def drive_delete_def answering_def answered_def texted_def reply_def)

text \<open>The row a delete leaves behind when the process dies after the request took effect.\<close>

lemma deleted_row_stuck:
  assumes "cw_ledger w = [r]" "stands_for (write_op op_id account key (plain_request Delete x [])) r" "cw_state r = ''inflight''"
    and "\<not> list_ex (\<lambda>i. di_id i = x) (d_items (cw_cloud w))" "d_lost (cw_cloud w) = []"
    and "write_keys hmac (plain_request Delete x []) secret account = (op_id, key)"
  shows "recover_pending_cloud_writes hmac body exists (graph_sink (drive_requests strict)) shares account secret now (Suc n) w
      = (Finished (Inr 0), n, w)"
    and "run_cloud_write hmac body (graph_sink (drive_requests strict)) shares account (plain_request Delete x []) secret now (Suc (Suc n)) w
      = (Finished (Inl ''HTTP 404: ''), n, w)"
proof -
  let ?sink = "graph_sink (drive_requests strict)" and ?op = "row_to_cloud_write r"
  have r: "cw_op_id r = op_id" "cw_account_id r = account" "cw_idempotency_key r = key" "cw_op_kind r = ''delete''"
    "cw_target_id r = Some x" "cw_intent_json r = Some (write_intent_json (plain_request Delete x []))"
    using assms(2) by (simp_all add: stands_for_def write_op_def plain_request_def)
  have op: "cw_op_kind ?op = ''delete''" "cw_state ?op = ''inflight''" "cw_target_id ?op = Some x"
    "cw_intent_json ?op = Some (write_intent_json (plain_request Delete x []))"
    using r assms(3) by (simp_all add: row_to_cloud_write_def CloudWriteOp.defs)
  then have field: "intent_field ''source_kind'' ?op = None"
    by (simp add: intent_field_def write_intent_json_def json_gets)
  have parse: "cloud_parse ''delete'' = Some Delete" by (simp add: cloud_parse_def)
  have gone: "ws_delete ?sink x (cw_cloud w) = (Inl ''HTTP 404: '', cw_cloud w)"
    using graph_delete_gone [OF assms(4,5), of strict] by (simp add: graph_sink_def)
  have rec: "recover_cloud_write_op hmac body ?sink shares ?op secret now (Suc m) w = (Finished (Inl ''HTTP 404: ''), m, w)" for m
    using op field parse gone
    by (simp add: recover_cloud_write_op_def recover_call_def prog_simps or_err_def or_empty_def Let_def)
  have "pending_cloud_writes account (cw_ledger w) = [?op]"
    using assms(1,3) r by (simp add: pending_cloud_writes_def is_open_def)
  moreover have "\<not> cloud_write_body_source_missing exists ?op"
    using op parse by (simp add: cloud_write_body_source_missing_def)
  ultimately show "recover_pending_cloud_writes hmac body exists ?sink shares account secret now (Suc n) w = (Finished (Inr 0), n, w)"
    using rec by (simp add: recover_pending_cloud_writes_def prog_simps)
  have "record_cloud_write (write_op op_id account key (plain_request Delete x [])) now (cw_ledger w) = (False, cw_ledger w)"
    using assms(1) r by (simp add: record_cloud_write_def write_op_def)
  moreover have "cloud_write_by_key account key (cw_ledger w) = Some ?op"
    using assms(1) r by (simp add: cloud_write_by_key_def)
  ultimately show "run_cloud_write hmac body ?sink shares account (plain_request Delete x []) secret now (Suc (Suc n)) w
      = (Finished (Inl ''HTTP 404: ''), n, w)"
    using rec [of n] assms(6) by (simp add: run_cloud_write_def prog_simps)
qed

text \<open>A delete that was interrupted is never finished. When the process dies after the DELETE took effect,
  every later recovery asks again, gets 404 and takes it for a failure: the row stays in flight and is
  never reconciled, and a retry by the user reports HTTP 404, although the sink documents that 404 is
  success for a delete.\<close>

theorem crashed_delete_never_recovers:
  assumes "list_ex (\<lambda>i. di_id i = x) (d_items d)" and "d_lost d = []"
    and "run_cloud_write hmac body (graph_sink (drive_requests strict)) shares account (plain_request Delete x []) secret now0 3
      \<lparr>cw_ledger = [], cw_cloud = d\<rparr> = (r, n0, w)"
  shows "r = Killed \<and> \<not> list_ex (\<lambda>i. di_id i = x) (d_items (cw_cloud w))
    \<and> (\<forall>now n. recover_pending_cloud_writes hmac body exists (graph_sink (drive_requests strict)) shares account secret now (Suc n) w
         = (Finished (Inr 0), n, w))
    \<and> (\<forall>now n. run_cloud_write hmac body (graph_sink (drive_requests strict)) shares account (plain_request Delete x []) secret now (Suc (Suc n)) w
         = (Finished (Inl ''HTTP 404: ''), n, w))"
proof -
  let ?req = "plain_request Delete x []" and ?sink = "graph_sink (drive_requests strict)"
  obtain op_id key where k: "write_keys hmac ?req secret account = (op_id, key)" by fastforce
  let ?op = "write_op op_id account key ?req"
  let ?row = "CloudWriteOp.extend ?op \<lparr>cw_created_at = now0, cw_updated_at = now0\<rparr>"
  let ?rows = "set_cloud_write_state op_id ''inflight'' None None now0 [?row]"
  let ?d = "d\<lparr>d_items := filter (\<lambda>i. di_id i \<noteq> x) (d_items d)\<rparr>"
  have del: "ws_delete ?sink x d = (Inr (), ?d)"
    using graph_delete_there [OF assms(1,2), of strict] by (simp add: graph_sink_def)
  have "run_cloud_write hmac body ?sink shares account ?req secret now0 3 \<lparr>cw_ledger = [], cw_cloud = d\<rparr>
      = (Killed, 0, \<lparr>cw_ledger = ?rows, cw_cloud = ?d\<rparr>)"
    using del by (simp add: run_cloud_write_def k prog_simps record_empty numeral_3_eq_3 issue_plain)
  with assms(3) have w: "r = Killed" "w = \<lparr>cw_ledger = ?rows, cw_cloud = ?d\<rparr>" by simp_all
  obtain row where row: "?rows = [row]" "stands_for ?op row" "cw_state row = ''inflight''"
    by (simp add: set_cloud_write_state_def sql_update_def stands_for_def CloudWriteOp.defs write_op_def)
  have gone: "\<not> list_ex (\<lambda>i. di_id i = x) (d_items (cw_cloud w))" "d_lost (cw_cloud w) = []"
    using w(2) assms(2) by (simp_all add: list_ex_iff)
  from deleted_row_stuck [OF _ row(2,3) gone k] w row(1) gone show ?thesis by simp
qed

definition one_file :: drive where
  "one_file = \<lparr>d_items = [\<lparr>di_id = ''x'', di_parent = [], di_name = ''a'', di_folder = False, di_etag = 0, di_bytes = []\<rparr>],
     d_seq = 1, d_lost = []\<rparr>"

theorem crashed_delete_never_recovers_witness:
  "fst (run_cloud_write (\<lambda>k m. m) Inl (graph_sink (drive_requests True)) offline_shares ''u'' (plain_request Delete ''x'' []) [] 0 3
      \<lparr>cw_ledger = [], cw_cloud = one_file\<rparr>) = Killed"
proof -
  obtain r n w where e: "run_cloud_write (\<lambda>k m. m) Inl (graph_sink (drive_requests True)) offline_shares ''u''
      (plain_request Delete ''x'' []) [] 0 3 \<lparr>cw_ledger = [], cw_cloud = one_file\<rparr> = (r, n, w)"
    by (cases "run_cloud_write (\<lambda>k m. m) Inl (graph_sink (drive_requests True)) offline_shares ''u''
      (plain_request Delete ''x'' []) [] 0 3 \<lparr>cw_ledger = [], cw_cloud = one_file\<rparr>") auto
  have "list_ex (\<lambda>i. di_id i = ''x'') (d_items one_file)" "d_lost one_file = []" by (simp_all add: one_file_def)
  from crashed_delete_never_recovers [OF this e] e show ?thesis by simp
qed

lemma rename_drive:
  assumes "list_ex (\<lambda>i. di_id i = x) (d_items d)" "d_lost d = []"
  shows "ws_rename_or_move (graph_sink (drive_requests strict)) x None n d
    = (Inr (), d\<lparr>d_items := map (\<lambda>i. if di_id i = x then i\<lparr>di_name := n\<rparr> else i) (d_items d)\<rparr>)"
proof -
  have "get_str ''name'' (move_body None n) = Some n" "get ''parentReference'' (move_body None n) = None"
    by (simp_all add: move_body_def json_gets)
  with assms show ?thesis
    by (simp add: graph_sink_def graph_rename_or_move_def move_item_def drive_requests_def drive_patch_def answering_def
        answered_def texted_def reply_def json_or_err_def answer_json_def or_empty_def cong: if_cong)
qed

lemma fresh_rename:
  assumes "write_keys hmac (plain_request Rename x n) secret account = (op_id, key)"
    and "\<forall>r \<in> set (cw_ledger w). cw_op_id r \<noteq> op_id \<and> cw_idempotency_key r \<noteq> key"
    and "list_ex (\<lambda>i. di_id i = x) (d_items (cw_cloud w))" "d_lost (cw_cloud w) = []"
    and "run_cloud_write hmac body (graph_sink (drive_requests strict)) shares account (plain_request Rename x n) secret now 4 w
      = (res, m, w')"
  obtains row where "res = Finished (Inr (WriteOutcome.Applied []))"
    and "cw_ledger w' = cw_ledger w @ [row]" "cw_op_id row = op_id" "cw_account_id row = account" "cw_idempotency_key row = key"
    "cw_state row = ''applied''" "cw_result_id row = None"
    and "cw_cloud w' = (cw_cloud w)\<lparr>d_items := map (\<lambda>i. if di_id i = x then i\<lparr>di_name := n\<rparr> else i) (d_items (cw_cloud w))\<rparr>"
proof -
  let ?sink = "graph_sink (drive_requests strict)" and ?op = "write_op op_id account key (plain_request Rename x n)"
  let ?row = "CloudWriteOp.extend ?op \<lparr>cw_created_at = now, cw_updated_at = now\<rparr>"
  let ?set = "\<lambda>st r. r\<lparr>cw_state := st, cw_result_id := coalesce None (cw_result_id r), cw_last_error := None,
      cw_attempts := cw_attempts r + 1, cw_updated_at := now\<rparr>"
  have rec: "record_cloud_write ?op now (cw_ledger w) = (True, cw_ledger w @ [?row])"
    using assms(2) by (auto simp: record_cloud_write_def write_op_def)
  have set: "set_cloud_write_state op_id st None None now (cw_ledger w @ [r]) = cw_ledger w @ [?set st r]"
    if "cw_op_id r = op_id" for st r
    using assms(2) that by (simp add: set_cloud_write_state_def sql_update_def map_idI)
  have id: "cw_op_id ?row = op_id" by (simp add: write_op_def CloudWriteOp.defs)
  let ?d = "(cw_cloud w)\<lparr>d_items := map (\<lambda>i. if di_id i = x then i\<lparr>di_name := n\<rparr> else i) (d_items (cw_cloud w))\<rparr>"
  have "run_cloud_write hmac body ?sink shares account (plain_request Rename x n) secret now 4 w
      = (Finished (Inr (WriteOutcome.Applied [])), 0,
         w\<lparr>cw_ledger := cw_ledger w @ [?set ''applied'' (?set ''inflight'' ?row)], cw_cloud := ?d\<rparr>)"
    using assms(1) rec set [OF id] set [of "?set ''inflight'' ?row"] id rename_drive [OF assms(3,4), of strict n]
    by (simp add: run_cloud_write_def prog_simps issue_plain non_empty_def eval_nat_numeral)
  with assms(5) have "res = Finished (Inr (WriteOutcome.Applied []))"
    "w' = w\<lparr>cw_ledger := cw_ledger w @ [?set ''applied'' (?set ''inflight'' ?row)], cw_cloud := ?d\<rparr>" by simp_all
  then show thesis
    by (intro that [where row = "?set ''applied'' (?set ''inflight'' ?row)"]) (simp_all add: write_op_def CloudWriteOp.defs)
qed

lemma answered_from_ledger:
  assumes "write_keys hmac req secret account = (op_id, key)"
    and "List.find (\<lambda>r. cw_account_id r = account \<and> cw_idempotency_key r = key) (cw_ledger w) = Some r" "cw_state r = ''applied''"
  shows "run_cloud_write hmac body sink shares account req secret now (Suc n) w
    = (Finished (Inr (WriteOutcome.Applied (or_empty (cw_result_id r)))), n, w)"
proof -
  have "r \<in> set (cw_ledger w)" "cw_account_id r = account" "cw_idempotency_key r = key"
    using assms(2) by (auto simp: find_Some_iff)
  then have "record_cloud_write (write_op op_id account key req) now (cw_ledger w) = (False, cw_ledger w)"
    by (auto simp: record_cloud_write_def write_op_def)
  moreover have "cloud_write_by_key account key (cw_ledger w) = Some (row_to_cloud_write r)"
    using assms(2) by (simp add: cloud_write_by_key_def)
  moreover have "cw_state (row_to_cloud_write r) = ''applied''" "cw_result_id (row_to_cloud_write r) = cw_result_id r"
    using assms(3) by (simp_all add: row_to_cloud_write_def CloudWriteOp.defs)
  ultimately show ?thesis
    using assms(1) by (simp add: run_cloud_write_def recover_cloud_write_op_def prog_simps)
qed

text \<open>A request that repeats an earlier one is swallowed. A file is renamed to a new name, back to its old
  name, and to the new name again: the third rename is answered from the ledger row of the first, reports
  success and does not reach the cloud, where the file keeps its old name.\<close>

theorem repeated_rename_is_swallowed:
  assumes "d_items d = [i]" "di_id i = x" "di_name i = old" "d_lost d = []"
    and "snd (write_keys hmac (plain_request Rename x old) secret account)
      \<noteq> snd (write_keys hmac (plain_request Rename x new) secret account)"
    and "run_cloud_write hmac body (graph_sink (drive_requests strict)) shares account (plain_request Rename x new) secret 1 4
      \<lparr>cw_ledger = [], cw_cloud = d\<rparr> = (res1, m1, w1)"
    and "run_cloud_write hmac body (graph_sink (drive_requests strict)) shares account (plain_request Rename x old) secret 2 4 w1
      = (res2, m2, w2)"
    and "run_cloud_write hmac body (graph_sink (drive_requests strict)) shares account (plain_request Rename x new) secret 3 4 w2
      = (res3, m3, w3)"
  shows "res1 = Finished (Inr (WriteOutcome.Applied [])) \<and> res2 = res1 \<and> res3 = res1
    \<and> map di_name (d_items (cw_cloud w3)) = [old]"
proof -
  obtain o1 k1 o2 k2 where k: "write_keys hmac (plain_request Rename x new) secret account = (o1, k1)"
    "write_keys hmac (plain_request Rename x old) secret account = (o2, k2)" by fastforce
  with assms(5) have ne: "k1 \<noteq> k2" "o1 \<noteq> o2" by (auto simp: write_keys_def Let_def restore_op_id_def)
  have "\<forall>r \<in> set (cw_ledger \<lparr>cw_ledger = [], cw_cloud = d\<rparr>). cw_op_id r \<noteq> o1 \<and> cw_idempotency_key r \<noteq> k1"
    "list_ex (\<lambda>i. di_id i = x) (d_items (cw_cloud \<lparr>cw_ledger = [], cw_cloud = d\<rparr>))"
    "d_lost (cw_cloud \<lparr>cw_ledger = [], cw_cloud = d\<rparr>) = []"
    using assms(1,2,4) by simp_all
  from k(1) this assms(6) obtain r1 where 1: "res1 = Finished (Inr (WriteOutcome.Applied []))"
      "cw_ledger w1 = cw_ledger \<lparr>cw_ledger = [], cw_cloud = d\<rparr> @ [r1]" "cw_op_id r1 = o1"
      "cw_account_id r1 = account" "cw_idempotency_key r1 = k1" "cw_state r1 = ''applied''" "cw_result_id r1 = None"
      "cw_cloud w1 = (cw_cloud \<lparr>cw_ledger = [], cw_cloud = d\<rparr>)\<lparr>d_items := map (\<lambda>i. if di_id i = x then i\<lparr>di_name := new\<rparr> else i)
        (d_items (cw_cloud \<lparr>cw_ledger = [], cw_cloud = d\<rparr>))\<rparr>"
    by (rule fresh_rename)
  then have "\<forall>r \<in> set (cw_ledger w1). cw_op_id r \<noteq> o2 \<and> cw_idempotency_key r \<noteq> k2"
    "list_ex (\<lambda>i. di_id i = x) (d_items (cw_cloud w1))" "d_lost (cw_cloud w1) = []"
    using ne assms(1,2,4) by auto
  from k(2) this assms(7) obtain r2 where 2: "res2 = Finished (Inr (WriteOutcome.Applied []))" "cw_ledger w2 = cw_ledger w1 @ [r2]"
      "cw_cloud w2 = (cw_cloud w1)\<lparr>d_items := map (\<lambda>i. if di_id i = x then i\<lparr>di_name := old\<rparr> else i) (d_items (cw_cloud w1))\<rparr>"
    by (rule fresh_rename)
  have "List.find (\<lambda>r. cw_account_id r = account \<and> cw_idempotency_key r = k1) (cw_ledger w2) = Some r1"
    using 1 2(2) by simp
  from answered_from_ledger [OF k(1) this 1(6), of body "graph_sink (drive_requests strict)" shares 3 3]
  have "res3 = Finished (Inr (WriteOutcome.Applied []))" "w3 = w2"
    using assms(8) 1(7) by (simp_all add: or_empty_def eval_nat_numeral)
  with 1 2 assms(1-3) show ?thesis by simp
qed

definition rename_x :: "string \<Rightarrow> int \<Rightarrow> drive cloud_world \<Rightarrow> WriteOutcome run \<times> nat \<times> drive cloud_world" where
  "rename_x n now w = run_cloud_write (\<lambda>k m. m) Inl (graph_sink (drive_requests True)) offline_shares ''u''
    (plain_request Rename ''x'' n) [] now 4 w"

theorem repeated_rename_is_swallowed_witness:
  "map di_name (d_items (cw_cloud (snd (snd (rename_x ''b'' 3 (snd (snd (rename_x ''a'' 2 (snd (snd (rename_x ''b'' 1
    \<lparr>cw_ledger = [], cw_cloud = one_file\<rparr>))))))))))) = [''a'']"
proof -
  let ?file = "\<lparr>di_id = ''x'', di_parent = [], di_name = ''a'', di_folder = False, di_etag = 0, di_bytes = []\<rparr>"
  have f: "d_items one_file = [?file]" "d_lost one_file = []" by (simp_all add: one_file_def)
  have k: "snd (write_keys (\<lambda>k m. m) (plain_request Rename ''x'' ''a'') [] ''u'')
      \<noteq> snd (write_keys (\<lambda>k m. m) (plain_request Rename ''x'' ''b'') [] ''u'')"
    by code_simp
  obtain r1 m1 w1 where 1: "rename_x ''b'' 1 \<lparr>cw_ledger = [], cw_cloud = one_file\<rparr> = (r1, m1, w1)" by (rule prod_cases3)
  obtain r2 m2 w2 where 2: "rename_x ''a'' 2 w1 = (r2, m2, w2)" by (rule prod_cases3)
  obtain r3 m3 w3 where 3: "rename_x ''b'' 3 w2 = (r3, m3, w3)" by (rule prod_cases3)
  have "map di_name (d_items (cw_cloud w3)) = [''a'']"
    by (rule repeated_rename_is_swallowed [OF f(1) _ _ f(2) k 1 [unfolded rename_x_def] 2 [unfolded rename_x_def] 3 [unfolded rename_x_def],
          THEN conjunct2, THEN conjunct2, THEN conjunct2]) simp_all
  with 1 2 3 show ?thesis by simp
qed

end
