(* ===== verification/Quickxor.thy ===== *)
theory Quickxor
  imports Prelude
begin

text \<open>
  The content hash OneDrive reports for files (\<^verbatim>\<open>connectors/src/quickxor.rs\<close>): the routine with three
  64-bit cells, of which the last holds 32 valid bits, that folds every 160th byte before it shifts.
  The reference is the definition of the hash: a 160-bit register into which the byte number \<open>i\<close> is
  rotated by \<open>11 * i\<close> bits, with the length exclusive-ored into the top 64 bits.
\<close>

unbundle bit_operations_syntax

section \<open>The routine\<close>

definition WIDTH_IN_BITS :: nat where "WIDTH_IN_BITS = 160"
definition SHIFT :: nat where "SHIFT = 11"
definition BITS_IN_LAST_CELL :: nat where "BITS_IN_LAST_CELL = 32"
definition OUT_LEN :: nat where "OUT_LEN = 20"

lemmas quickxor_consts = WIDTH_IN_BITS_def SHIFT_def BITS_IN_LAST_CELL_def OUT_LEN_def

function column :: "bytes \<Rightarrow> nat \<Rightarrow> u8 \<Rightarrow> u8" where
  "column payload j xored =
     (if j < length payload then column payload (j + WIDTH_IN_BITS) (xored XOR payload ! j) else xored)"
  by pat_completeness auto
termination
  by (relation "measure (\<lambda>(payload, j, _). length payload - j)") (auto simp: quickxor_consts)

declare column.simps [simp del]

definition bits_in_cell :: "bool \<Rightarrow> nat" where
  "bits_in_cell is_last_cell = (if is_last_cell then BITS_IN_LAST_CELL else 64)"

definition next_cell :: "bool \<Rightarrow> nat \<Rightarrow> nat" where
  "next_cell is_last_cell index = (if is_last_cell then 0 else index + 1)"

function carry :: "bool \<Rightarrow> nat \<Rightarrow> nat \<Rightarrow> nat \<times> nat" where
  "carry is_last_cell index offset =
     (if bits_in_cell is_last_cell \<le> offset
      then carry is_last_cell (next_cell is_last_cell index) (offset - bits_in_cell is_last_cell)
      else (index, offset))"
  by pat_completeness auto
termination
  by (relation "measure (\<lambda>(_, _, offset). offset)") (auto simp: bits_in_cell_def quickxor_consts)

declare carry.simps [simp del]

type_synonym cells = "64 word list"

definition xor_cell :: "nat \<Rightarrow> 64 word \<Rightarrow> cells \<Rightarrow> cells" where
  "xor_cell i v cs = cs[i := cs ! i XOR v]"

definition spread :: "nat \<Rightarrow> nat \<Rightarrow> u8 \<Rightarrow> cells \<Rightarrow> cells" where
  "spread index offset xored cs =
     (let is_last_cell = (index = length cs - 1)
      in if offset \<le> bits_in_cell is_last_cell - 8
         then xor_cell index (push_bit offset (ucast xored)) cs
         else
           xor_cell (next_cell is_last_cell index) (drop_bit (bits_in_cell is_last_cell - offset) (ucast xored))
             (xor_cell index (push_bit offset (ucast xored)) cs))"

fun column_step :: "bytes \<Rightarrow> nat \<Rightarrow> cells \<times> nat \<times> nat \<Rightarrow> cells \<times> nat \<times> nat" where
  "column_step payload i (cs, index, offset) =
     (let is_last_cell = (index = length cs - 1)
      in (spread index offset (column payload i 0) cs, carry is_last_cell index (offset + SHIFT)))"

definition quickxor_cells :: "bytes \<Rightarrow> cells" where
  "quickxor_cells payload =
     fst (fold (column_step payload) [0..<min (length payload) WIDTH_IN_BITS] ([0, 0, 0], 0, 0))"

definition cell_bytes :: "nat \<Rightarrow> 64 word \<Rightarrow> bytes" where
  "cell_bytes n cell = map (\<lambda>j. ucast (drop_bit (8 * j) cell)) [0..<n]"

definition le_bytes64 :: "nat \<Rightarrow> bytes" where
  "le_bytes64 n = cell_bytes 8 (of_nat n)"

fun xor_tail :: "nat \<Rightarrow> bytes \<Rightarrow> bytes \<Rightarrow> bytes" where
  "xor_tail at [] rgb = rgb"
| "xor_tail at (b # bs) rgb = xor_tail (Suc at) bs (rgb[at := rgb ! at XOR b])"

definition quickxor :: "bytes \<Rightarrow> bytes" where
  "quickxor payload =
     (let cs = quickxor_cells payload;
          rgb = cell_bytes 8 (cs ! 0) @ cell_bytes 8 (cs ! 1) @ cell_bytes (BITS_IN_LAST_CELL div 8) (cs ! 2)
      in xor_tail (OUT_LEN - 8) (le_bytes64 (length payload)) rgb)"

definition ALPHABET :: string where
  "ALPHABET = ''ABCDEFGHIJKLMNOPQRSTUVWXYZabcdefghijklmnopqrstuvwxyz0123456789+/''"

definition sextet :: "nat \<Rightarrow> 32 word \<Rightarrow> char" where
  "sextet at n = ALPHABET ! unat (drop_bit at n AND 63)"

definition three :: "u8 \<Rightarrow> u8 \<Rightarrow> u8 \<Rightarrow> 32 word" where
  "three a b c = (push_bit 16 (ucast a) OR push_bit 8 (ucast b)) OR ucast c"

fun base64_encode :: "bytes \<Rightarrow> string" where
  "base64_encode [] = []"
| "base64_encode [a] = [sextet 18 (three a 0 0), sextet 12 (three a 0 0), CHR ''='', CHR ''='']"
| "base64_encode [a, b] = [sextet 18 (three a b 0), sextet 12 (three a b 0), sextet 6 (three a b 0), CHR ''='']"
| "base64_encode (a # b # c # rest) =
     [sextet 18 (three a b c), sextet 12 (three a b c), sextet 6 (three a b c), sextet 0 (three a b c)] @ base64_encode rest"

definition quickxor_base64 :: "bytes \<Rightarrow> string" where
  "quickxor_base64 payload = base64_encode (quickxor payload)"

section \<open>The reference\<close>

fun rotated :: "nat \<Rightarrow> bytes \<Rightarrow> 160 word" where
  "rotated i [] = 0"
| "rotated i (b # bs) = word_rotl (11 * i) (ucast b) XOR rotated (Suc i) bs"

definition reference :: "bytes \<Rightarrow> 160 word" where
  "reference payload = rotated 0 payload XOR push_bit 96 (ucast (of_nat (length payload) :: 64 word))"

definition register_bytes :: "160 word \<Rightarrow> bytes" where
  "register_bytes r = map (\<lambda>m. ucast (drop_bit (8 * m) r)) [0..<20]"

section \<open>One column\<close>

text \<open>The register three cells stand for.\<close>

definition reg :: "cells \<Rightarrow> 160 word" where
  "reg cs = ucast (cs ! 0) XOR push_bit 64 (ucast (cs ! 1)) XOR push_bit 128 (ucast (cs ! 2))"

lemma bit_reg:
  "bit (reg cs) k \<longleftrightarrow>
     (if k < 64 then bit (cs ! 0) k else if k < 128 then bit (cs ! 1) (k - 64) else k < 160 \<and> bit (cs ! 2) (k - 128))"
  by (auto simp: reg_def bit_xor_iff bit_push_bit_iff bit_ucast_iff dest: bit_imp_le_length)

lemma bit_rotated_byte:
  fixes b :: u8
  assumes "p < 160"
  shows "bit (word_rotl p (ucast b) :: 160 word) k
    \<longleftrightarrow> k < 160 \<and> (if p \<le> k then bit b (k - p) else bit b (160 + k - p))"
proof -
  have "(k + (160 - p)) mod 160 = (if p \<le> k then k - p else 160 + k - p)" if "k < 160"
    using that assms by (auto simp: mod_if)
  with assms show ?thesis by (auto simp: bit_word_rotl_iff bit_ucast_iff dest: bit_imp_le_length)
qed

lemma byte_bit: "bit (b :: u8) k \<Longrightarrow> k < 8"
  using bit_imp_le_length by fastforce

lemma cell_1: "64 \<le> p \<Longrightarrow> p < 128 \<Longrightarrow> p div 64 = 1" "64 \<le> p \<Longrightarrow> p < 128 \<Longrightarrow> p mod 64 = p - 64" for p :: nat
  by (simp_all add: le_div_geq le_mod_geq)

lemma cell_2: "128 \<le> p \<Longrightarrow> p < 160 \<Longrightarrow> p div 64 = 2" "128 \<le> p \<Longrightarrow> p < 160 \<Longrightarrow> p mod 64 = p - 128" for p :: nat
proof -
  assume p: "128 \<le> p" "p < 160"
  then have "p = (p - 128) + 2 * 64" by simp
  moreover have "((p - 128) + 2 * 64) div 64 = 2" "((p - 128) + 2 * 64) mod 64 = p - 128"
    using p by (simp_all only: div_mult_self1 mod_mult_self1) simp_all
  ultimately show "p div 64 = 2" "p mod 64 = p - 128" by simp_all
qed

lemma spread_rotates:
  assumes "length cs = 3" "p < 160"
  shows "reg (spread (p div 64) (p mod 64) b cs) = reg cs XOR word_rotl p (ucast b)"
proof (rule bit_word_eqI)
  fix k
  assume "k < LENGTH(160)"
  then have k: "k < 160" by simp
  consider "p < 64" | "64 \<le> p" "p < 128" | "128 \<le> p" by linarith
  then show "bit (reg (spread (p div 64) (p mod 64) b cs)) k = bit (reg cs XOR word_rotl p (ucast b)) k"
  proof cases
    case 1
    then have "p div 64 = 0" "p mod 64 = p" by simp_all
    with 1 k assms show ?thesis
      by (auto simp: bit_reg bit_xor_iff bit_rotated_byte spread_def xor_cell_def Let_def bits_in_cell_def next_cell_def
          quickxor_consts bit_push_bit_iff bit_ucast_iff bit_drop_bit_eq nth_list_update dest: byte_bit)
  next
    case 2
    then have "p div 64 = 1" "p mod 64 = p - 64" by (simp_all add: cell_1)
    with 2 k assms show ?thesis
      by (auto simp: bit_reg bit_xor_iff bit_rotated_byte spread_def xor_cell_def Let_def bits_in_cell_def next_cell_def
          quickxor_consts bit_push_bit_iff bit_ucast_iff bit_drop_bit_eq nth_list_update numeral_2_eq_2 dest: byte_bit)
  next
    case 3
    then have "p div 64 = 2" "p mod 64 = p - 128" using assms by (simp_all add: cell_2)
    with 3 k assms show ?thesis
      by (auto simp: bit_reg bit_xor_iff bit_rotated_byte spread_def xor_cell_def Let_def bits_in_cell_def next_cell_def
          quickxor_consts bit_push_bit_iff bit_ucast_iff bit_drop_bit_eq nth_list_update dest: byte_bit)
  qed
qed

lemma carry_stop: "offset < bits_in_cell l \<Longrightarrow> carry l index offset = (index, offset)"
  by (subst carry.simps) simp

lemma carry_once:
  "bits_in_cell l \<le> offset \<Longrightarrow> offset < 2 * bits_in_cell l \<Longrightarrow> carry l index offset = (next_cell l index, offset - bits_in_cell l)"
  by (subst carry.simps) (simp add: carry_stop)

lemma carry_position:
  assumes "p < 160"
  shows "carry (p div 64 = 2) (p div 64) (p mod 64 + 11) = ((p + 11) mod 160 div 64, (p + 11) mod 160 mod 64)"
proof -
  have b: "bits_in_cell False = 64" "bits_in_cell True = 32" by (simp_all add: bits_in_cell_def quickxor_consts)
  consider "p < 53" | "53 \<le> p" "p < 64" | "64 \<le> p" "p < 117" | "117 \<le> p" "p < 128" | "128 \<le> p" "p < 149" | "149 \<le> p"
    by linarith
  then show ?thesis
  proof cases
    case 6
    then have "(p + 11) mod 160 = p - 149" using assms by (simp add: le_mod_geq)
    with 6 assms b show ?thesis by (simp add: cell_2 carry_once next_cell_def)
  qed (use assms b in \<open>simp_all add: cell_1 cell_2 carry_once carry_stop next_cell_def\<close>)
qed

section \<open>Sums without carry\<close>

interpretation xors: comm_monoid_set "(XOR) :: 'a::len word \<Rightarrow> _" 0
  by unfold_locales simp

lemma rotl_xor: "word_rotl n (a XOR b) = word_rotl n a XOR (word_rotl n b :: 'a::len word)"
  by (rule bit_eqI) (auto simp: bit_word_rotl_iff bit_xor_iff)

lemma ucast_xor: "(ucast (a XOR b :: 'a::len word) :: 'b::len word) = ucast a XOR ucast b"
  by (rule bit_eqI) (auto simp: bit_ucast_iff bit_xor_iff)

lemma rotl_zero: "word_rotl n 0 = (0 :: 'a::len word)"
  by (rule bit_eqI) (auto simp: bit_word_rotl_iff)

lemma rotl_mod: "word_rotl (n mod 160) w = word_rotl n (w :: 160 word)"
  by (rule bit_eqI) (auto simp: bit_word_rotl_iff)

lemma rotl_xors:
  "finite A \<Longrightarrow> word_rotl n (ucast (xors.F g A :: u8)) = (xors.F (\<lambda>j. word_rotl n (ucast (g j))) A :: 160 word)"
  by (induction A rule: finite_induct) (simp_all add: rotl_xor ucast_xor rotl_zero)

lemma rotated_xors: "rotated i bs = xors.F (\<lambda>j. word_rotl (11 * (i + j)) (ucast (bs ! j))) {..<length bs}"
proof (induction bs arbitrary: i)
  case (Cons b bs)
  have "xors.F (\<lambda>j. word_rotl (11 * (i + j)) (ucast ((b # bs) ! j)) :: 160 word) {..<Suc (length bs)}
      = word_rotl (11 * i) (ucast b) XOR xors.F (\<lambda>j. word_rotl (11 * (i + Suc j)) (ucast (bs ! j))) {..<length bs}"
    by (simp only: xors.lessThan_Suc_shift) simp
  with Cons [of "Suc i"] show ?case by simp
qed simp

lemma column_xors:
  "column payload j x = x XOR xors.F ((!) payload) {k. j \<le> k \<and> k < length payload \<and> k mod 160 = j mod 160}"
proof (induction payload j x rule: column.induct)
  case (1 payload j x)
  let ?from = "\<lambda>j. {k. j \<le> k \<and> k < length payload \<and> k mod 160 = j mod 160}"
  show ?case
  proof (cases "j < length payload")
    case True
    have "?from j = insert j (?from (j + 160))"
    proof (intro equalityI subsetI)
      fix k
      assume k: "k \<in> ?from j"
      show "k \<in> insert j (?from (j + 160))"
      proof (cases "k = j")
        case False
        with k have "j < k" "160 dvd k - j" by (auto simp: mod_eq_dvd_iff_nat)
        then have "j + 160 \<le> k" by (auto dest!: dvd_imp_le)
        with k show ?thesis by simp
      qed simp
    qed (use True in auto)
    then have "xors.F ((!) payload) (?from j) = payload ! j XOR xors.F ((!) payload) (?from (j + 160))" by simp
    with 1 [OF True] True show ?thesis by (simp add: column.simps [of payload j] quickxor_consts ac_simps)
  next
    case False
    then have none: "?from j = {}" by auto
    show ?thesis unfolding none using False by (simp add: column.simps [of payload j])
  qed
qed

section \<open>The routine computes the reference\<close>

lemma cells_invariant:
  assumes "n \<le> 160"
  shows "\<exists>cs. fold (column_step payload) [0..<n] ([0, 0, 0], 0, 0) = (cs, 11 * n mod 160 div 64, 11 * n mod 160 mod 64)
    \<and> length cs = 3 \<and> reg cs = xors.F (\<lambda>i. word_rotl (11 * i) (ucast (column payload i 0))) {..<n}"
  using assms
proof (induction n)
  case 0
  then show ?case by (simp add: reg_def)
next
  case (Suc n)
  let ?p = "11 * n mod 160"
  from Suc obtain cs where cs: "fold (column_step payload) [0..<n] ([0, 0, 0], 0, 0) = (cs, ?p div 64, ?p mod 64)"
    "length cs = 3" "reg cs = xors.F (\<lambda>i. word_rotl (11 * i) (ucast (column payload i 0))) {..<n}" by auto
  have "carry (?p div 64 = 2) (?p div 64) (?p mod 64 + 11) = (11 * Suc n mod 160 div 64, 11 * Suc n mod 160 mod 64)"
    using carry_position [of ?p] by (simp add: mod_simps add.commute)
  then have "fold (column_step payload) [0..<Suc n] ([0, 0, 0], 0, 0)
      = (spread (?p div 64) (?p mod 64) (column payload n 0) cs, 11 * Suc n mod 160 div 64, 11 * Suc n mod 160 mod 64)"
    using cs(1,2) by (simp add: Let_def SHIFT_def)
  moreover have "reg (spread (?p div 64) (?p mod 64) (column payload n 0) cs)
      = xors.F (\<lambda>i. word_rotl (11 * i) (ucast (column payload i 0))) {..<Suc n}"
    using spread_rotates [of cs ?p] cs(2,3) by (simp add: rotl_mod xors.lessThan_Suc xor.commute)
  moreover have "length (spread i j b cs) = 3" for i j b
    using cs(2) by (simp add: spread_def xor_cell_def Let_def)
  ultimately show ?case by blast
qed

lemma cells_rotated: "reg (quickxor_cells payload) = rotated 0 payload"
proof -
  let ?n = "min (length payload) 160"
  let ?h = "\<lambda>j. word_rotl (11 * j) (ucast (payload ! j)) :: 160 word"
  have "word_rotl (11 * i) (ucast (column payload i 0)) = xors.F ?h {j. j \<in> {..<length payload} \<and> j mod 160 = i}"
    if "i < ?n" for i
  proof -
    from that have "{k. i \<le> k \<and> k < length payload \<and> k mod 160 = i mod 160} = {j. j \<in> {..<length payload} \<and> j mod 160 = i}"
      by (auto simp: mod_less_eq_dividend)
    then have "(word_rotl (11 * i) (ucast (column payload i 0)) :: 160 word)
        = xors.F (\<lambda>j. word_rotl (11 * i) (ucast (payload ! j))) {j. j \<in> {..<length payload} \<and> j mod 160 = i}"
      using rotl_xors [of "{j. j \<in> {..<length payload} \<and> j mod 160 = i}" "11 * i" "(!) payload"] by (simp add: column_xors)
    also have "\<dots> = xors.F ?h {j. j \<in> {..<length payload} \<and> j mod 160 = i}"
      by (intro xors.cong refl) (auto, metis mod_mult_right_eq rotl_mod)
    finally show ?thesis .
  qed
  then have "xors.F (\<lambda>i. word_rotl (11 * i) (ucast (column payload i 0))) {..<?n}
      = xors.F (\<lambda>i. xors.F ?h {j. j \<in> {..<length payload} \<and> j mod 160 = i}) {..<?n}"
    by (intro xors.cong refl) simp
  moreover have "(\<lambda>j. j mod 160) ` {..<length payload} \<subseteq> {..<?n}" by (auto simp: less_le_trans intro: le_less_trans)
  ultimately have "xors.F (\<lambda>i. word_rotl (11 * i) (ucast (column payload i 0))) {..<?n} = xors.F ?h {..<length payload}"
    using xors.group [of "{..<length payload}" "{..<?n}" "\<lambda>j. j mod 160" ?h] by simp
  moreover have "reg (quickxor_cells payload) = xors.F (\<lambda>i. word_rotl (11 * i) (ucast (column payload i 0))) {..<?n}"
    using cells_invariant [of ?n payload] by (auto simp: quickxor_cells_def WIDTH_IN_BITS_def)
  ultimately show ?thesis by (simp add: rotated_xors)
qed

lemma bit_byte_at: "bit (ucast (drop_bit (8 * m) w) :: u8) k \<longleftrightarrow> k < 8 \<and> bit w (8 * m + k)" for w :: "'a::len word"
  by (simp add: bit_ucast_iff bit_drop_bit_eq)

lemma length_register_bytes [simp]: "length (register_bytes r) = 20"
  by (simp add: register_bytes_def)

lemma length_cell_bytes [simp]: "length (cell_bytes n c) = n"
  by (simp add: cell_bytes_def)

lemma bit_cell_bytes: "i < n \<Longrightarrow> k < 8 \<Longrightarrow> bit (cell_bytes n c ! i) k \<longleftrightarrow> bit c (8 * i + k)"
  by (simp add: cell_bytes_def bit_byte_at)

lemma bit_register_bytes: "m < 20 \<Longrightarrow> k < 8 \<Longrightarrow> bit (register_bytes r ! m) k \<longleftrightarrow> bit r (8 * m + k)"
  by (simp add: register_bytes_def bit_byte_at)

lemma cells_bytes: "cell_bytes 8 (cs ! 0) @ cell_bytes 8 (cs ! 1) @ cell_bytes 4 (cs ! 2) = register_bytes (reg cs)"
  (is "?l = _")
proof (rule nth_equalityI)
  fix m
  assume "m < length ?l"
  then have m: "m < 20" by (simp add: cell_bytes_def)
  show "?l ! m = register_bytes (reg cs) ! m"
  proof (rule bit_word_eqI)
    fix k
    assume "k < LENGTH(8)"
    then have k: "k < 8" by simp
    consider "m < 8" | "8 \<le> m" "m < 16" | "16 \<le> m" by linarith
    then show "bit (?l ! m) k = bit (register_bytes (reg cs) ! m) k"
    proof cases
      case 1
      with m k show ?thesis by (simp add: nth_append bit_cell_bytes bit_register_bytes bit_reg)
    next
      case 2
      then have "8 * (m - 8) + k = 8 * m + k - 64" "m - 8 < 8" by auto
      with 2 m k show ?thesis by (simp add: nth_append bit_cell_bytes bit_register_bytes bit_reg)
    next
      case 3
      then have "8 * (m - 16) + k = 8 * m + k - 128" "\<not> m - 8 < 8" by auto
      with 3 m k show ?thesis by (simp add: nth_append bit_cell_bytes bit_register_bytes bit_reg)
    qed
  qed
qed simp

lemma length_xor_tail [simp]: "length (xor_tail at bs rgb) = length rgb"
  by (induction at bs rgb rule: xor_tail.induct) simp_all

lemma nth_xor_tail:
  "at + length bs \<le> length rgb \<Longrightarrow>
     xor_tail at bs rgb ! m = (if at \<le> m \<and> m < at + length bs then rgb ! m XOR bs ! (m - at) else rgb ! m)"
proof (induction at bs rgb rule: xor_tail.induct)
  case (2 at b bs rgb)
  then have "xor_tail (Suc at) bs (rgb[at := rgb ! at XOR b]) ! m
      = (if Suc at \<le> m \<and> m < Suc at + length bs then rgb[at := rgb ! at XOR b] ! m XOR bs ! (m - Suc at)
         else rgb[at := rgb ! at XOR b] ! m)" by simp
  moreover have "(b # bs) ! (m - at) = bs ! (m - Suc at)" if "Suc at \<le> m" using that by (simp add: nth_Cons' diff_Suc split: nat.split)
  ultimately show ?case using 2(2) by (cases "m = at") (auto simp: nth_list_update)
qed auto

lemma bit_widened: "bit (ucast (n :: 64 word) :: 160 word) k \<longleftrightarrow> bit n k"
  by (auto simp: bit_ucast_iff dest: bit_imp_le_length)

lemma quickxor_register: "quickxor payload = register_bytes (reference payload)"
proof (rule nth_equalityI)
  let ?rgb = "register_bytes (rotated 0 payload)" and ?n = "of_nat (length payload) :: 64 word"
  have q: "quickxor payload = xor_tail 12 (cell_bytes 8 ?n) ?rgb"
    using cells_bytes [of "quickxor_cells payload"]
    by (simp add: quickxor_def Let_def quickxor_consts le_bytes64_def cells_rotated)
  then show "length (quickxor payload) = length (register_bytes (reference payload))" by simp
  fix m
  assume "m < length (quickxor payload)"
  with q have m: "m < 20" by simp
  show "quickxor payload ! m = register_bytes (reference payload) ! m"
  proof (rule bit_word_eqI)
    fix k
    assume "k < LENGTH(8)"
    then have k: "k < 8" by simp
    have "quickxor payload ! m = (if 12 \<le> m then ?rgb ! m XOR cell_bytes 8 ?n ! (m - 12) else ?rgb ! m)"
      using m by (simp add: q nth_xor_tail)
    moreover have "8 * (m - 12) + k = 8 * m + k - 96" if "12 \<le> m" using that by simp
    ultimately show "bit (quickxor payload ! m) k = bit (register_bytes (reference payload) ! m) k"
      using m k
      by (auto simp: bit_register_bytes bit_cell_bytes reference_def bit_xor_iff bit_push_bit_iff bit_widened)
  qed
qed

section \<open>Comparing hashes\<close>

lemma register_bytes_inject: "register_bytes r = register_bytes s \<longleftrightarrow> r = s"
proof
  assume eq: "register_bytes r = register_bytes s"
  show "r = s"
  proof (rule bit_word_eqI)
    fix k
    assume "k < LENGTH(160)"
    then have "k div 8 < 20" by simp
    with eq have "(ucast (drop_bit (8 * (k div 8)) r) :: u8) = ucast (drop_bit (8 * (k div 8)) s)"
      by (auto simp: register_bytes_def)
    then have "bit (ucast (drop_bit (8 * (k div 8)) r) :: u8) (k mod 8) = bit (ucast (drop_bit (8 * (k div 8)) s) :: u8) (k mod 8)"
      by simp
    then show "bit r k = bit s k" by (simp only: bit_byte_at) simp
  qed
qed simp

lemma rotated_append: "rotated i (xs @ ys) = rotated i xs XOR rotated (i + length xs) ys"
  by (induction xs arbitrary: i) (simp_all add: ac_simps)

text \<open>Bytes that are 160 apart can trade places: equal hashes do not mean equal content.\<close>

lemma quickxor_swap:
  assumes "length ys = 159"
  shows "quickxor (xs @ a # ys @ b # zs) = quickxor (xs @ b # ys @ a # zs)"
proof -
  have r: "word_rotl (11 * (n + 160)) w = word_rotl (11 * n) (w :: 160 word)" for n w
    by (metis (no_types) distrib_left mod_mult_self2 mult.commute rotl_mod)
  have "rotated 0 (xs @ a # ys @ b # zs) = rotated 0 (xs @ b # ys @ a # zs)"
    using r [of "length xs"] assms by (simp add: rotated_append ac_simps)
  then show ?thesis by (simp add: quickxor_register reference_def)
qed

section \<open>The text form\<close>

lemma bit_three:
  "bit (three a b c) k \<longleftrightarrow> (if k < 8 then bit c k else if k < 16 then bit b (k - 8) else k < 24 \<and> bit a (k - 16))"
  by (auto simp: three_def bit_or_iff bit_push_bit_iff bit_ucast_iff dest: byte_bit)

lemma bit_six: "bit (drop_bit at n AND 63 :: 32 word) k \<longleftrightarrow> k < 6 \<and> bit n (at + k)"
proof -
  have "drop_bit at n AND 63 = take_bit 6 (drop_bit at n :: 32 word)" by (simp add: take_bit_eq_mask mask_eq_exp_minus_1)
  then show ?thesis by (simp add: bit_take_bit_iff bit_drop_bit_eq)
qed

lemma unat_six: "unat (drop_bit at n AND 63 :: 32 word) < 64"
proof -
  have "drop_bit at n AND 63 \<le> (63 :: 32 word)" by (rule word_and_le1)
  then show ?thesis by (simp add: word_le_nat_alt)
qed

lemma length_alphabet: "length ALPHABET = 64"
  by (simp add: ALPHABET_def)

lemma distinct_alphabet: "distinct ALPHABET"
  by (simp add: ALPHABET_def)

lemma sextet_not_pad: "sextet at n \<noteq> CHR ''=''" "CHR ''='' \<noteq> sextet at n"
proof -
  have "sextet at n \<in> set ALPHABET" using unat_six length_alphabet by (simp add: sextet_def)
  moreover have "CHR ''='' \<notin> set ALPHABET" by (simp add: ALPHABET_def)
  ultimately show "sextet at n \<noteq> CHR ''=''" "CHR ''='' \<noteq> sextet at n" by auto
qed

lemma sextet_bits:
  assumes "sextet at n = sextet at m" and "at \<le> k" "k < at + 6"
  shows "bit n k = bit m k"
proof -
  have "drop_bit at n AND 63 = drop_bit at m AND 63"
    using assms(1) nth_eq_iff_index_eq [OF distinct_alphabet] unat_six length_alphabet by (simp add: sextet_def word_unat_eq_iff)
  then have "bit (drop_bit at n AND 63) (k - at) = bit (drop_bit at m AND 63) (k - at)" by simp
  moreover have "k - at < 6" using assms(2,3) by simp
  ultimately show ?thesis using assms(2) by (simp add: bit_six)
qed

text \<open>The four characters determine the bytes they were made from.\<close>

lemma sextets_first:
  assumes "sextet 18 (three a b c) = sextet 18 (three a' b' c')" "sextet 12 (three a b c) = sextet 12 (three a' b' c')"
  shows "a = a'"
proof (rule bit_word_eqI)
  fix k
  assume "k < LENGTH(8)"
  then have "bit (three a b c) (16 + k) = bit (three a' b' c') (16 + k)"
    using sextet_bits [OF assms(1)] sextet_bits [OF assms(2)] by (cases "k < 2") simp_all
  with \<open>k < LENGTH(8)\<close> show "bit a k = bit a' k" by (simp add: bit_three)
qed

lemma sextets_second:
  assumes "sextet 12 (three a b c) = sextet 12 (three a' b' c')" "sextet 6 (three a b c) = sextet 6 (three a' b' c')"
  shows "b = b'"
proof (rule bit_word_eqI)
  fix k
  assume "k < LENGTH(8)"
  then have "bit (three a b c) (8 + k) = bit (three a' b' c') (8 + k)"
    using sextet_bits [OF assms(1)] sextet_bits [OF assms(2)] by (cases "k < 4") simp_all
  with \<open>k < LENGTH(8)\<close> show "bit b k = bit b' k" by (simp add: bit_three)
qed

lemma sextets_third:
  assumes "sextet 6 (three a b c) = sextet 6 (three a' b' c')" "sextet 0 (three a b c) = sextet 0 (three a' b' c')"
  shows "c = c'"
proof (rule bit_word_eqI)
  fix k
  assume "k < LENGTH(8)"
  then have "bit (three a b c) k = bit (three a' b' c') k"
    using sextet_bits [OF assms(1)] sextet_bits [OF assms(2)] by (cases "k < 6") simp_all
  with \<open>k < LENGTH(8)\<close> show "bit c k = bit c' k" by (simp add: bit_three)
qed

lemma base64_encode_inject: "base64_encode xs = base64_encode ys \<Longrightarrow> xs = ys"
proof (induction xs arbitrary: ys rule: base64_encode.induct)
  case 1
  then show ?case by (cases ys rule: base64_encode.cases) simp_all
next
  case (2 a)
  then show ?case by (cases ys rule: base64_encode.cases) (auto simp: sextet_not_pad dest: sextets_first)
next
  case (3 a b)
  then show ?case
    by (cases ys rule: base64_encode.cases) (auto simp: sextet_not_pad dest: sextets_first sextets_second)
next
  case (4 a b c xs)
  then show ?case
    by (cases ys rule: base64_encode.cases) (auto simp: sextet_not_pad dest: sextets_first sextets_second sextets_third)
qed

text \<open>C40: The optimised content hash is the reference hash. For every content the routine with three cells,
  which folds the bytes that are 160 apart before it shifts them, gives the twenty bytes of the 160-bit
  register that rotates each byte by eleven bits more than the one before and takes in the length; and
  comparing the base64 texts compares the registers.\<close>

theorem quickxor_is_reference:
  "quickxor_base64 payload = base64_encode (register_bytes (reference payload))
    \<and> (quickxor_base64 payload = quickxor_base64 other \<longleftrightarrow> reference payload = reference other)"
proof -
  have q: "quickxor_base64 p = base64_encode (register_bytes (reference p))" for p
    by (simp add: quickxor_base64_def quickxor_register)
  then show ?thesis using base64_encode_inject register_bytes_inject by metis
qed

lemma quickxor_hello: "quickxor_base64 (str_bytes ''hello'') = ''aCgDG9jwBgAAAAAABQAAAAAAAAA=''"
  by code_simp

end
