(* ===== verification/Cloud_Entries.thy ===== *)
theory Cloud_Entries
  imports OneDrive_Sink Quickxor
begin

text \<open>
  The entry points of the OneDrive writes (\<^verbatim>\<open>*_via_ledger\<close> in \<^verbatim>\<open>engine/src/onedrive_write.rs\<close>) and the writes
  whose body is streamed from a random-access source. Looking up the account, its secret, its store and
  its token are answers of the environment (\<open>ledger_env\<close>), each of which can be an error; the client for
  a token is a record of the sinks and of the upload requests. A stream of fragments is one effect of
  the crash budget, and can itself be cut after any number of fragments (\<open>lives\<close>). The successive
  readings of the clock are \<open>clock 0, clock 1, \<dots>\<close>.
\<close>

section \<open>The account and its ledger\<close>

datatype ConflictBehavior = Fail | Replace | Rename

datatype StreamUploadOutcome = Applied json | Conflict

record 'c graph_client =
  gc_writes :: "'c write_sink"
  gc_shares :: "'c share_sink"
  gc_post_session :: "string \<Rightarrow> nat \<Rightarrow> ConflictBehavior \<Rightarrow> string option \<Rightarrow> 'c \<Rightarrow> (UploadError + answer) \<times> 'c"
  gc_http :: "'c http"

record 'c ledger_env =
  le_accounts :: "string list"
  le_secret :: "string \<Rightarrow> string + bytes"
  le_db_exists :: "string \<Rightarrow> bool"
  le_store_open :: "string \<Rightarrow> string + unit"
  le_token :: "string \<Rightarrow> string + string"
  le_client :: "string \<Rightarrow> 'c graph_client"

definition no_account :: "string \<Rightarrow> string" where
  "no_account account = ''no account '' @ [CHR 0x27] @ account @ [CHR 0x27] @ '' in config''"

definition with_ledger ::
  "'c ledger_env \<Rightarrow> string \<Rightarrow> ('c graph_client \<Rightarrow> bytes \<Rightarrow> ('a, 'c) cw_prog) \<Rightarrow> ('a, 'c) cw_prog" where
  "with_ledger env account run =
     (if account \<notin> set (le_accounts env) then cw_throw (no_account account)
      else
        cw_bind (cw_lift (le_secret env account)) (\<lambda>secret.
        cw_bind (cw_lift (le_store_open env account)) (\<lambda>_.
        cw_bind (cw_lift (le_token env account)) (\<lambda>token.
        run (le_client env token) secret))))"

definition pending_cloud_write_count :: "'c ledger_env \<Rightarrow> string \<Rightarrow> (nat, 'c) cw_prog" where
  "pending_cloud_write_count env account =
     (if account \<notin> set (le_accounts env) then cw_throw (no_account account)
      else if \<not> le_db_exists env account then cw_ret 0
      else
        cw_bind (cw_lift (le_store_open env account)) (\<lambda>_.
        cw_bind (ask_ledger (pending_cloud_writes account)) (\<lambda>ops. cw_ret (length ops))))"

definition cw_map :: "('a \<Rightarrow> 'b) \<Rightarrow> ('a, 'c) cw_prog \<Rightarrow> ('b, 'c) cw_prog" where
  "cw_map f p = cw_bind p (\<lambda>x. cw_ret (f x))"

primrec applied_id :: "WriteOutcome \<Rightarrow> string" where
  "applied_id (WriteOutcome.Applied x) = x"
| "applied_id WriteOutcome.Conflict = []"

section \<open>One entry per verb\<close>

text \<open>The two parameters \<open>hmac\<close> and \<open>body\<close> are those of \<^const>\<open>run_cloud_write\<close>.\<close>

definition ledger_write ::
  "(bytes \<Rightarrow> bytes \<Rightarrow> bytes) \<Rightarrow> (string \<Rightarrow> string + bytes) \<Rightarrow> 'c ledger_env \<Rightarrow> string \<Rightarrow> CloudWrite \<Rightarrow> int
     \<Rightarrow> (WriteOutcome, 'c) cw_prog" where
  "ledger_write hmac body env account w now =
     with_ledger env account (\<lambda>client secret.
       run_cloud_write hmac body (gc_writes client) (gc_shares client) account w secret now)"

definition recover_pending_cloud_writes_for ::
  "(bytes \<Rightarrow> bytes \<Rightarrow> bytes) \<Rightarrow> (string \<Rightarrow> string + bytes) \<Rightarrow> (string \<Rightarrow> bool) \<Rightarrow> 'c ledger_env \<Rightarrow> string \<Rightarrow> int
     \<Rightarrow> (nat, 'c) cw_prog" where
  "recover_pending_cloud_writes_for hmac body exists env account now =
     with_ledger env account (\<lambda>client secret.
       recover_pending_cloud_writes hmac body exists (gc_writes client) (gc_shares client) account secret now)"

definition create_folder_via_ledger ::
  "(bytes \<Rightarrow> bytes \<Rightarrow> bytes) \<Rightarrow> (string \<Rightarrow> string + bytes) \<Rightarrow> 'c ledger_env \<Rightarrow> string \<Rightarrow> string \<Rightarrow> string \<Rightarrow> int
     \<Rightarrow> (string, 'c) cw_prog" where
  "create_folder_via_ledger hmac body env account parent name now =
     cw_map applied_id (ledger_write hmac body env account
       \<lparr>wr_kind = Create, wr_target_id = parent, wr_name = name, wr_new_parent_id = None, wr_if_match = None,
        wr_local_path = None, wr_content_tag = None\<rparr> now)"

definition rename_via_ledger ::
  "(bytes \<Rightarrow> bytes \<Rightarrow> bytes) \<Rightarrow> (string \<Rightarrow> string + bytes) \<Rightarrow> 'c ledger_env \<Rightarrow> string \<Rightarrow> string \<Rightarrow> string \<Rightarrow> int
     \<Rightarrow> (unit, 'c) cw_prog" where
  "rename_via_ledger hmac body env account item new_name now =
     cw_map (\<lambda>_. ()) (ledger_write hmac body env account
       \<lparr>wr_kind = CloudOpKind.Rename, wr_target_id = item, wr_name = new_name, wr_new_parent_id = None, wr_if_match = None,
        wr_local_path = None, wr_content_tag = None\<rparr> now)"

definition move_via_ledger ::
  "(bytes \<Rightarrow> bytes \<Rightarrow> bytes) \<Rightarrow> (string \<Rightarrow> string + bytes) \<Rightarrow> 'c ledger_env \<Rightarrow> string \<Rightarrow> string \<Rightarrow> string option \<Rightarrow> string
     \<Rightarrow> int \<Rightarrow> (unit, 'c) cw_prog" where
  "move_via_ledger hmac body env account item new_parent new_name now =
     cw_map (\<lambda>_. ()) (ledger_write hmac body env account
       \<lparr>wr_kind = Move, wr_target_id = item, wr_name = new_name, wr_new_parent_id = new_parent, wr_if_match = None,
        wr_local_path = None, wr_content_tag = None\<rparr> now)"

definition delete_via_ledger ::
  "(bytes \<Rightarrow> bytes \<Rightarrow> bytes) \<Rightarrow> (string \<Rightarrow> string + bytes) \<Rightarrow> 'c ledger_env \<Rightarrow> string \<Rightarrow> string \<Rightarrow> int
     \<Rightarrow> (unit, 'c) cw_prog" where
  "delete_via_ledger hmac body env account item now =
     cw_map (\<lambda>_. ()) (ledger_write hmac body env account
       \<lparr>wr_kind = Delete, wr_target_id = item, wr_name = [], wr_new_parent_id = None, wr_if_match = None,
        wr_local_path = None, wr_content_tag = None\<rparr> now)"

definition upload_via_ledger ::
  "(bytes \<Rightarrow> bytes \<Rightarrow> bytes) \<Rightarrow> (string \<Rightarrow> string + bytes) \<Rightarrow> 'c ledger_env \<Rightarrow> string \<Rightarrow> string \<Rightarrow> string \<Rightarrow> string \<Rightarrow> int
     \<Rightarrow> (string, 'c) cw_prog" where
  "upload_via_ledger hmac body env account parent name path now =
     cw_map applied_id (ledger_write hmac body env account
       \<lparr>wr_kind = Upload, wr_target_id = parent, wr_name = name, wr_new_parent_id = None, wr_if_match = None,
        wr_local_path = Some path, wr_content_tag = None\<rparr> now)"

definition replace_via_ledger ::
  "(bytes \<Rightarrow> bytes \<Rightarrow> bytes) \<Rightarrow> (string \<Rightarrow> string + bytes) \<Rightarrow> 'c ledger_env \<Rightarrow> string \<Rightarrow> string
     \<Rightarrow> string \<Rightarrow> string \<Rightarrow> int \<Rightarrow> (WriteOutcome, 'c) cw_prog" where
  "replace_via_ledger hmac body env account item etag path now =
     with_ledger env account (\<lambda>client secret.
       cw_bind (cw_lift (body path)) (\<lambda>payload.
       run_cloud_write hmac body (gc_writes client) (gc_shares client) account
         \<lparr>wr_kind = CloudOpKind.Replace, wr_target_id = item, wr_name = [], wr_new_parent_id = None, wr_if_match = Some etag,
          wr_local_path = Some path, wr_content_tag = Some (quickxor_base64 payload)\<rparr> secret now))"

definition share_link_via_ledger ::
  "(bytes \<Rightarrow> bytes \<Rightarrow> bytes) \<Rightarrow> 'c ledger_env \<Rightarrow> string \<Rightarrow> string \<Rightarrow> string \<Rightarrow> string \<Rightarrow> int \<Rightarrow> (string, 'c) cw_prog" where
  "share_link_via_ledger hmac env account item link_type scope now =
     with_ledger env account (\<lambda>client secret.
       cw_bind (run_share_link hmac (gc_shares client) account item link_type scope secret now) (\<lambda>r.
       case r of
         LinkCreated url \<Rightarrow> cw_ret url
       | FailedClosed reason \<Rightarrow> cw_throw reason
       | Invited _ _ \<Rightarrow> cw_throw ''unexpected invite outcome for share link''))"

definition invite_via_ledger ::
  "(bytes \<Rightarrow> bytes \<Rightarrow> bytes) \<Rightarrow> 'c ledger_env \<Rightarrow> string \<Rightarrow> string \<Rightarrow> string list \<Rightarrow> string \<Rightarrow> int \<Rightarrow> (string, 'c) cw_prog" where
  "invite_via_ledger hmac env account item emails role now =
     with_ledger env account (\<lambda>client secret.
       cw_bind (run_invite hmac (gc_shares client) account item emails role secret now) (\<lambda>r.
       case r of
         Invited _ summary \<Rightarrow> cw_ret summary
       | FailedClosed reason \<Rightarrow> cw_throw reason
       | LinkCreated _ \<Rightarrow> cw_throw ''unexpected link outcome for invite''))"

section \<open>Streamed bodies\<close>

definition create_target_upload_session ::
  "'c graph_client \<Rightarrow> string \<Rightarrow> nat \<Rightarrow> ConflictBehavior \<Rightarrow> string option \<Rightarrow> 'c
     \<Rightarrow> (UploadError + UploadSession option) \<times> 'c" where
  "create_target_upload_session g url n behavior if_match c =
     answered (\<lambda>a.
       if a_status a = 200 \<or> a_status a = 201 then
         (case answer_json a of
            Inl e \<Rightarrow> Inl e
          | Inr v \<Rightarrow>
              (case get_str ''uploadUrl'' v of
                 None \<Rightarrow> Inl (Parse ''createUploadSession response had no uploadUrl'')
               | Some at \<Rightarrow> Inr (Some (session_new at n))))
       else if a_status a = 409 \<or> a_status a = 412 then Inr None
       else Inl (Http (a_status a) [])) (gc_post_session g url n behavior if_match c)"

text \<open>Creating the session and sending the fragments; \<open>clash\<close> is the status that means a conflict at the end.\<close>

definition stream_session ::
  "nat \<Rightarrow> 'c graph_client \<Rightarrow> string \<Rightarrow> nat \<Rightarrow> ConflictBehavior \<Rightarrow> string option \<Rightarrow> (nat \<Rightarrow> nat \<Rightarrow> UploadError + bytes) \<Rightarrow> nat \<Rightarrow> 'c
     \<Rightarrow> (UploadError + StreamUploadOutcome) option \<times> 'c" where
  "stream_session clash g url n behavior if_match read_range lives c =
     (case create_target_upload_session g url n behavior if_match c of
        (Inl e, c') \<Rightarrow> (Some (Inl e), c')
      | (Inr None, c') \<Rightarrow> (Some (Inr Conflict), c')
      | (Inr (Some session), c') \<Rightarrow>
          (case ranges_loop (gc_http g) read_range lives session c' of
             (None, c'') \<Rightarrow> (None, c'')
           | (Some (Inr v), c'') \<Rightarrow> (Some (Inr (Applied v)), c'')
           | (Some (Inl e), c'') \<Rightarrow>
               (Some (case e of Http st _ \<Rightarrow> if st = clash then Inr Conflict else Inl e | _ \<Rightarrow> Inl e), c'')))"

definition child_session_url :: "string \<Rightarrow> string \<Rightarrow> (string \<Rightarrow> string) \<Rightarrow> string \<Rightarrow> string" where
  "child_session_url base parent enc name =
     (if parent = [] then base @ ''/me/drive/root:/'' @ enc name @ '':/createUploadSession''
      else base @ ''/me/drive/items/'' @ parent @ '':/'' @ enc name @ '':/createUploadSession'')"

definition upload_to_parent_streaming ::
  "'c graph_client \<Rightarrow> string \<Rightarrow> (string \<Rightarrow> string) \<Rightarrow> string \<Rightarrow> string \<Rightarrow> nat \<Rightarrow> (nat \<Rightarrow> nat \<Rightarrow> UploadError + bytes) \<Rightarrow> nat \<Rightarrow> 'c
     \<Rightarrow> (UploadError + StreamUploadOutcome) option \<times> 'c" where
  "upload_to_parent_streaming g base enc parent name n read_range =
     stream_session 409 g (child_session_url base parent enc name) n Fail None read_range"

definition replace_content_streaming_if_match ::
  "'c graph_client \<Rightarrow> string \<Rightarrow> string \<Rightarrow> string \<Rightarrow> nat \<Rightarrow> (nat \<Rightarrow> nat \<Rightarrow> UploadError + bytes) \<Rightarrow> nat \<Rightarrow> 'c
     \<Rightarrow> (UploadError + StreamUploadOutcome) option \<times> 'c" where
  "replace_content_streaming_if_match g base item etag n read_range =
     stream_session 412 g (base @ ''/me/drive/items/'' @ item @ ''/createUploadSession'') n Replace (Some etag) read_range"

definition on_stream :: "nat \<Rightarrow> (nat \<Rightarrow> 'c \<Rightarrow> (UploadError + 'a) option \<times> 'c) \<Rightarrow> ('a, 'c) cw_prog" where
  "on_stream lives f n w =
     (case n of
        0 \<Rightarrow> (Killed, 0, w)
      | Suc m \<Rightarrow>
          (case f lives (cw_cloud w) of
             (None, c) \<Rightarrow> (Killed, 0, w\<lparr>cw_cloud := c\<rparr>)
           | (Some r, c) \<Rightarrow> (Finished (map_sum show_upload_error id r), m, w\<lparr>cw_cloud := c\<rparr>)))"

definition streamed_write :: "CloudOpKind \<Rightarrow> string \<Rightarrow> string \<Rightarrow> string option \<Rightarrow> string \<Rightarrow> CloudWrite" where
  "streamed_write kind target name etag sha =
     \<lparr>wr_kind = kind, wr_target_id = target, wr_name = name, wr_new_parent_id = None, wr_if_match = etag,
      wr_local_path = None, wr_content_tag = Some sha\<rparr>"

definition streamed_op ::
  "string \<Rightarrow> string \<Rightarrow> string \<Rightarrow> CloudOpKind \<Rightarrow> string \<Rightarrow> string \<Rightarrow> string option \<Rightarrow> nat \<Rightarrow> string \<Rightarrow> CloudWriteOp" where
  "streamed_op op_id account key kind target name etag n sha =
     \<lparr>cw_op_id = op_id, cw_account_id = account, cw_service = SERVICE, cw_op_kind = cloud_as_str kind,
      cw_target_id = Some target, cw_idempotency_key = key, cw_if_match_etag = etag, cw_state = ''pending'',
      cw_result_id = None,
      cw_intent_json = Some (JObj [(''name'', JStr name), (''new_parent_id'', JNull), (''local_path'', JNull),
        (''source_kind'', JStr ''mutation_intent''), (''total_bytes'', JNum (int n)), (''content_sha256'', JStr sha)]),
      cw_attempts = 0, cw_last_error = None\<rparr>"

text \<open>What a row that is already there answers: its outcome, a child adopted under the name, or nothing, and
  then the request is sent.\<close>

definition streamed_known ::
  "'c graph_client \<Rightarrow> string \<Rightarrow> string \<Rightarrow> CloudOpKind \<Rightarrow> string \<Rightarrow> string \<Rightarrow> string \<Rightarrow> (nat \<Rightarrow> int)
     \<Rightarrow> (WriteOutcome option, 'c) cw_prog" where
  "streamed_known g account key kind target name op_id clock =
     cw_bind (ask_ledger (cloud_write_by_key account key)) (\<lambda>found.
     case found of
       None \<Rightarrow> cw_throw ''streaming ledger row vanished''
     | Some existing \<Rightarrow>
         if cw_state existing = ''applied'' then cw_ret (Some (WriteOutcome.Applied (or_empty (cw_result_id existing))))
         else if cw_state existing = ''conflict'' then cw_ret (Some WriteOutcome.Conflict)
         else if kind = Upload then
           cw_bind (on_cloud (ws_find_child (gc_writes g) target name)) (\<lambda>child.
           case child of
             Some x \<Rightarrow>
               cw_bind (set_state op_id ''applied'' (Some x) None (clock 1)) (\<lambda>_. cw_ret (Some (WriteOutcome.Applied x)))
           | None \<Rightarrow> cw_ret None)
         else cw_ret None)"

definition streamed_send ::
  "'c graph_client \<Rightarrow> string \<Rightarrow> (string \<Rightarrow> string) \<Rightarrow> CloudOpKind \<Rightarrow> string \<Rightarrow> string \<Rightarrow> string option \<Rightarrow> nat
     \<Rightarrow> (nat \<Rightarrow> nat \<Rightarrow> string + bytes) \<Rightarrow> nat \<Rightarrow> (StreamUploadOutcome, 'c) cw_prog" where
  "streamed_send g base enc kind target name etag n read_range lives =
     (let read = (\<lambda>off len. map_sum Parse id (read_range off len))
      in case kind of
           Upload \<Rightarrow> on_stream lives (upload_to_parent_streaming g base enc target name n read)
         | CloudOpKind.Replace \<Rightarrow> on_stream lives (replace_content_streaming_if_match g base target (or_empty etag) n read)
         | _ \<Rightarrow> cw_throw ''unsupported streaming cloud-write kind'')"

definition streamed_body_via_ledger ::
  "(bytes \<Rightarrow> bytes \<Rightarrow> bytes) \<Rightarrow> 'c ledger_env \<Rightarrow> string \<Rightarrow> (string \<Rightarrow> string) \<Rightarrow> string \<Rightarrow> CloudOpKind \<Rightarrow> string \<Rightarrow> string
     \<Rightarrow> string option \<Rightarrow> nat \<Rightarrow> string \<Rightarrow> (nat \<Rightarrow> nat \<Rightarrow> string + bytes) \<Rightarrow> nat \<Rightarrow> (nat \<Rightarrow> int) \<Rightarrow> (WriteOutcome, 'c) cw_prog" where
  "streamed_body_via_ledger hmac env base enc account kind target name etag n sha read_range lives clock =
     with_ledger env account (\<lambda>g secret.
       let (op_id, key) = write_keys hmac (streamed_write kind target name etag sha) secret account
       in cw_bind (record_intent (streamed_op op_id account key kind target name etag n sha) (clock 0)) (\<lambda>new.
          cw_bind (if new then cw_ret None else streamed_known g account key kind target name op_id clock) (\<lambda>known.
          case known of
            Some outcome \<Rightarrow> cw_ret outcome
          | None \<Rightarrow>
              cw_bind (set_state op_id ''inflight'' None None (clock 2)) (\<lambda>_.
              cw_bind (streamed_send g base enc kind target name etag n read_range lives) (\<lambda>outcome.
              case outcome of
                Applied v \<Rightarrow>
                  cw_bind (set_state op_id ''applied'' (non_empty (or_empty (get_str ''id'' v))) None (clock 3)) (\<lambda>_.
                  cw_ret (WriteOutcome.Applied (or_empty (get_str ''id'' v))))
              | Conflict \<Rightarrow>
                  cw_bind (set_state op_id ''conflict'' None None (clock 3)) (\<lambda>_. cw_ret WriteOutcome.Conflict))))))"

definition upload_streaming_via_ledger ::
  "(bytes \<Rightarrow> bytes \<Rightarrow> bytes) \<Rightarrow> 'c ledger_env \<Rightarrow> string \<Rightarrow> (string \<Rightarrow> string) \<Rightarrow> string \<Rightarrow> string \<Rightarrow> string \<Rightarrow> nat \<Rightarrow> string
     \<Rightarrow> (nat \<Rightarrow> nat \<Rightarrow> string + bytes) \<Rightarrow> nat \<Rightarrow> (nat \<Rightarrow> int) \<Rightarrow> (string, 'c) cw_prog" where
  "upload_streaming_via_ledger hmac env base enc account parent name n sha read_range lives clock =
     cw_map applied_id
       (streamed_body_via_ledger hmac env base enc account Upload parent name None n sha read_range lives clock)"

definition replace_streaming_via_ledger ::
  "(bytes \<Rightarrow> bytes \<Rightarrow> bytes) \<Rightarrow> 'c ledger_env \<Rightarrow> string \<Rightarrow> (string \<Rightarrow> string) \<Rightarrow> string \<Rightarrow> string \<Rightarrow> string \<Rightarrow> nat \<Rightarrow> string
     \<Rightarrow> (nat \<Rightarrow> nat \<Rightarrow> string + bytes) \<Rightarrow> nat \<Rightarrow> (nat \<Rightarrow> int) \<Rightarrow> (WriteOutcome, 'c) cw_prog" where
  "replace_streaming_via_ledger hmac env base enc account item etag n sha read_range lives clock =
     streamed_body_via_ledger hmac env base enc account CloudOpKind.Replace item [] (Some etag) n sha read_range lives clock"

section \<open>What a repeated upload adopts\<close>

lemma find_filtered: "List.find P (filter Q xs) = List.find (\<lambda>x. Q x \<and> P x) xs"
  by (induction xs) simp_all

lemma find_child_drive:
  assumes "List.find (\<lambda>i. di_parent i = parent \<and> di_name i = name) (d_items d) = Some i"
  shows "ws_find_child (graph_sink (drive_requests strict)) parent name d = (Inr (Some (di_id i)), d)"
proof -
  have "get_str ''name'' (item_json i) = Some (di_name i)" "get_str ''id'' (item_json i) = Some (di_id i)" for i
    by (simp_all add: item_json_def json_gets)
  with assms show ?thesis
    by (simp add: graph_sink_def graph_find_child_def drive_requests_def drive_children_def texted_def find_map find_filtered comp_def)
qed

lemma with_ledger_ok:
  assumes "account \<in> set (le_accounts env)" "le_secret env account = Inr secret" "le_store_open env account = Inr ()"
    "le_token env account = Inr token"
  shows "with_ledger env account run = run (le_client env token) secret"
  using assms by (simp add: with_ledger_def cw_bind_lift)

text \<open>C39: A repeated upload adopts whatever has its name. When the process died after it had recorded a
  streamed upload and before it had sent a byte, and in the meantime any item of that name is there,
  whatever its content and even a folder, the next attempt reports success with the identifier of that
  item; the body is never sent and the ledger says it was applied.\<close>

theorem repeated_upload_adopts_any_child:
  assumes "account \<in> set (le_accounts env)" "le_secret env account = Inr secret" "le_store_open env account = Inr ()"
    "le_token env account = Inr token" and "gc_writes (le_client env token) = graph_sink (drive_requests strict)"
    and "List.find (\<lambda>i. di_parent i = parent \<and> di_name i = name) (d_items d) = Some i"
    and "upload_streaming_via_ledger hmac env base enc account parent name n sha read_range lives clock 1
      \<lparr>cw_ledger = [], cw_cloud = c\<rparr> = (r1, m1, w1)"
    and "upload_streaming_via_ledger hmac env base enc account parent name n sha read_range lives clock 3
      (w1\<lparr>cw_cloud := d\<rparr>) = (r2, m2, w2)"
  shows "r1 = Killed \<and> cw_cloud w1 = c \<and> r2 = Finished (Inr (di_id i)) \<and> cw_cloud w2 = d
    \<and> cloud_write_ledger_summary account (cw_ledger w2) = [(''applied'', 1)]"
proof -
  obtain op_id key where k: "write_keys hmac (streamed_write Upload parent name None sha) secret account = (op_id, key)"
    by fastforce
  let ?op = "streamed_op op_id account key Upload parent name None n sha"
  let ?row = "CloudWriteOp.extend ?op \<lparr>cw_created_at = clock 0, cw_updated_at = clock 0\<rparr>"
  have 1: "r1 = Killed" "w1 = \<lparr>cw_ledger = [?row], cw_cloud = c\<rparr>"
    using assms(7) k
    by (simp_all add: upload_streaming_via_ledger_def streamed_body_via_ledger_def with_ledger_ok [OF assms(1-4)] cw_map_def
        prog_simps record_empty)
  have row: "cw_op_id ?row = op_id" "cw_account_id ?row = account" "cw_idempotency_key ?row = key" "cw_state ?row = ''pending''"
    by (simp_all add: streamed_op_def CloudWriteOp.defs)
  have again: "record_cloud_write ?op (clock 0) [?row] = (False, [?row])"
    by (simp add: record_cloud_write_def streamed_op_def CloudWriteOp.defs)
  have known: "cloud_write_by_key account key [?row] = Some (row_to_cloud_write ?row)"
    "cw_state (row_to_cloud_write ?row) = ''pending''"
    using row by (simp_all add: cloud_write_by_key_def row_to_cloud_write_def CloudWriteOp.defs)
  let ?done = "?row\<lparr>cw_state := ''applied'', cw_result_id := Some (di_id i), cw_last_error := None,
      cw_attempts := cw_attempts ?row + 1, cw_updated_at := clock 1\<rparr>"
  have set: "set_cloud_write_state op_id ''applied'' (Some (di_id i)) None (clock 1) [?row] = [?done]"
    using row(1) by (simp add: set_cloud_write_state_def sql_update_def)
  have 2: "r2 = Finished (Inr (di_id i))" "w2 = \<lparr>cw_ledger = [?done], cw_cloud = d\<rparr>"
    using assms(8) k again known set find_child_drive [OF assms(6), of strict]
    by (simp_all add: 1 upload_streaming_via_ledger_def streamed_body_via_ledger_def with_ledger_ok [OF assms(1-4)] cw_map_def
        streamed_known_def assms(5) prog_simps eval_nat_numeral)
  have "cw_account_id ?done = account" "cw_state ?done = ''applied''" using row by simp_all
  then have "cloud_write_ledger_summary account [?done] = [(''applied'', 1)]"
    by (simp add: cloud_write_ledger_summary_def sql_count_def)
  with 1 2 show ?thesis by simp
qed

definition drive_env :: "drive ledger_env" where
  "drive_env =
     \<lparr>le_accounts = [''u''], le_secret = (\<lambda>_. Inr []), le_db_exists = (\<lambda>_. True), le_store_open = (\<lambda>_. Inr ()), le_token = Inr,
      le_client = (\<lambda>_. \<lparr>gc_writes = graph_sink (drive_requests True), gc_shares = offline_shares,
        gc_post_session = (\<lambda>url n b e d. (Inl Incomplete, d)),
        gc_http = \<lparr>http_put_content = (\<lambda>p b d. (Inl Incomplete, d)), http_create_session = (\<lambda>p d. (Inl Incomplete, d)),
          http_put_range = (\<lambda>u r b d. (Inl Incomplete, d)), http_get = (\<lambda>u d. (Inl Incomplete, d))\<rparr>\<rparr>)\<rparr>"

definition stream_a :: "(nat \<Rightarrow> nat \<Rightarrow> string + bytes) \<Rightarrow> nat \<Rightarrow> drive cloud_world \<Rightarrow> string run \<times> nat \<times> drive cloud_world" where
  "stream_a source =
     upload_streaming_via_ledger (\<lambda>k m. m) drive_env [] (\<lambda>s. s) ''u'' [] ''a'' 1 ''sha'' source 0 (\<lambda>_. 0)"

theorem repeated_upload_adopts_any_child_witness:
  "fst (stream_a (\<lambda>off len. Inr [7]) 3
    ((snd (snd (stream_a (\<lambda>off len. Inr [7]) 1 \<lparr>cw_ledger = [], cw_cloud = one_file\<lparr>d_items := []\<rparr>\<rparr>)))\<lparr>cw_cloud := one_file\<rparr>))
    = Finished (Inr ''x'')"
proof -
  let ?file = "\<lparr>di_id = ''x'', di_parent = [], di_name = ''a'', di_folder = False, di_etag = 0, di_bytes = []\<rparr>"
  let ?w = "\<lparr>cw_ledger = [], cw_cloud = one_file\<lparr>d_items := []\<rparr>\<rparr>"
  have f: "List.find (\<lambda>i. di_parent i = [] \<and> di_name i = ''a'') (d_items one_file) = Some ?file" by (simp add: one_file_def)
  have e: "''u'' \<in> set (le_accounts drive_env)" "le_secret drive_env ''u'' = Inr []" "le_store_open drive_env ''u'' = Inr ()"
    "le_token drive_env ''u'' = Inr ''u''" "gc_writes (le_client drive_env ''u'') = graph_sink (drive_requests True)"
    by (simp_all add: drive_env_def)
  obtain r1 m1 w1 where 1: "stream_a (\<lambda>off len. Inr [7]) 1 ?w = (r1, m1, w1)" by (rule prod_cases3)
  obtain r2 m2 w2 where 2: "stream_a (\<lambda>off len. Inr [7]) 3 (w1\<lparr>cw_cloud := one_file\<rparr>) = (r2, m2, w2)" by (rule prod_cases3)
  have "r2 = Finished (Inr (di_id ?file))"
    using repeated_upload_adopts_any_child [OF e f 1 [unfolded stream_a_def] 2 [unfolded stream_a_def]] by blast
  with 1 2 show ?thesis by simp
qed

end
