(* ===== verification/Local_Disk.thy ===== *)
theory Local_Disk
  imports Envelope Text_Ops
begin

text \<open>
  The local disk as the connectors use it through \<^verbatim>\<open>std::path\<close> and \<^verbatim>\<open>std::fs\<close>. A \<^verbatim>\<open>PathBuf\<close> is the list
  of its components and whether it is absolute; \<^verbatim>\<open>join\<close> with an absolute path replaces, and \<open>resolve\<close> is
  what the operating system makes of \<^verbatim>\<open>..\<close>. A node is a directory or a file with its bytes and its
  modification time in seconds. Every operation that changes the disk can fail: \<open>io_faults\<close> says which
  of the coming ones do, a failing write leaves an empty file behind, and when the list is used up no
  more of them fail. \<open>entries\<close> holds every path that was ever made, in the order in which directories list
  what they contain. There are no symbolic links. Reading a directory as a file's metadata reports size and time zero.
\<close>

section \<open>Paths\<close>

type_synonym PathBuf = "bool \<times> string list"

fun split_slash :: "string \<Rightarrow> string list" where
  "split_slash [] = [[]]"
| "split_slash (c # s) =
     (if c = CHR ''/'' then [] # split_slash s
      else case split_slash s of [] \<Rightarrow> [[c]] | p # ps \<Rightarrow> (c # p) # ps)"

definition path_of :: "string \<Rightarrow> PathBuf" where
  "path_of s = (take 1 s = ''/'', filter (\<lambda>c. c \<noteq> [] \<and> c \<noteq> ''.'') (split_slash s))"

definition path_join :: "PathBuf \<Rightarrow> PathBuf \<Rightarrow> PathBuf" where
  "path_join a b = (if fst b then b else (fst a, snd a @ snd b))"

definition path_parent :: "PathBuf \<Rightarrow> PathBuf option" where
  "path_parent p = (if snd p = [] then None else Some (fst p, butlast (snd p)))"

definition file_name :: "PathBuf \<Rightarrow> string option" where
  "file_name p = (if snd p = [] \<or> last (snd p) = ''..'' then None else Some (last (snd p)))"

definition path_starts_with :: "PathBuf \<Rightarrow> PathBuf \<Rightarrow> bool" where
  "path_starts_with p base \<longleftrightarrow> fst p = fst base \<and> take (length (snd base)) (snd p) = snd base"

text \<open>\<^verbatim>\<open>rsplit_once('.')\<close>, and \<^verbatim>\<open>extension\<close>/\<^verbatim>\<open>file_stem\<close>, for which a leading dot does not count.\<close>

definition rsplit_dot :: "string \<Rightarrow> (string \<times> string) option" where
  "rsplit_dot s =
     (if CHR ''.'' \<in> set s
      then let e = rev (takeWhile (\<lambda>c. c \<noteq> CHR ''.'') (rev s)) in Some (take (length s - length e - 1) s, e)
      else None)"

definition stem_ext :: "string \<Rightarrow> string \<times> string option" where
  "stem_ext name = (case rsplit_dot name of Some (s, e) \<Rightarrow> if s = [] then (name, None) else (s, Some e) | None \<Rightarrow> (name, None))"

definition with_extension :: "string \<Rightarrow> PathBuf \<Rightarrow> PathBuf" where
  "with_extension ext p =
     (case file_name p of
        None \<Rightarrow> p
      | Some name \<Rightarrow>
          (fst p, butlast (snd p) @ [fst (stem_ext name) @ (if ext = [] then [] else CHR ''.'' # ext)]))"

definition resolve_step :: "string \<Rightarrow> string list \<Rightarrow> string list" where
  "resolve_step c ps = (if c = ''..'' then butlast ps else ps @ [c])"

definition resolve :: "PathBuf \<Rightarrow> string list" where
  "resolve p = fold resolve_step (snd p) []"

section \<open>The disk\<close>

datatype node = Dir | File bytes int

record disk =
  nodes :: "string list \<Rightarrow> node option"
  entries :: "string list list"
  io_faults :: "bool list"
  wall_clock :: int

definition path_exists :: "PathBuf \<Rightarrow> disk \<Rightarrow> bool" where
  "path_exists p d \<longleftrightarrow> nodes d (resolve p) \<noteq> None"

definition is_file :: "PathBuf \<Rightarrow> disk \<Rightarrow> bool" where
  "is_file p d \<longleftrightarrow> (case nodes d (resolve p) of Some (File b t) \<Rightarrow> True | _ \<Rightarrow> False)"

definition metadata :: "PathBuf \<Rightarrow> disk \<Rightarrow> (nat \<times> int) option" where
  "metadata p d =
     map_option (\<lambda>n. case n of Dir \<Rightarrow> (0, 0) | File b t \<Rightarrow> (length b, t)) (nodes d (resolve p))"

definition files_of :: "disk \<Rightarrow> files" where
  "files_of d p = (case nodes d p of Some (File b t) \<Rightarrow> Some b | _ \<Rightarrow> None)"

definition io_step :: "(disk \<Rightarrow> disk) \<Rightarrow> (disk \<Rightarrow> bool \<times> disk) \<Rightarrow> disk \<Rightarrow> bool \<times> disk" where
  "io_step broken ok d =
     (case io_faults d of
        [] \<Rightarrow> ok d
      | f # fs \<Rightarrow> (if f then (False, broken (d\<lparr>io_faults := fs\<rparr>)) else ok (d\<lparr>io_faults := fs\<rparr>)))"

definition set_node :: "string list \<Rightarrow> node option \<Rightarrow> disk \<Rightarrow> disk" where
  "set_node p n d = d\<lparr>nodes := (nodes d)(p := n), entries := List.insert p (entries d)\<rparr>"

definition dir_at :: "string list \<Rightarrow> disk \<Rightarrow> bool" where
  "dir_at p d \<longleftrightarrow> p = [] \<or> nodes d p = Some Dir"

text \<open>\<^verbatim>\<open>create_dir_all\<close>: the missing directories of the path, unless a file is in the way.\<close>

definition create_dir_all :: "PathBuf \<Rightarrow> disk \<Rightarrow> bool \<times> disk" where
  "create_dir_all p = io_step id (\<lambda>d.
     let q = resolve p; ps = map (\<lambda>i. take i q) [1..<Suc (length q)]
     in if list_all (\<lambda>r. case nodes d r of Some (File b t) \<Rightarrow> False | _ \<Rightarrow> True) ps
        then (True, fold (\<lambda>r d. if nodes d r = None then set_node r (Some Dir) d else d) ps d)
        else (False, d))"

definition write_file :: "PathBuf \<Rightarrow> bytes \<Rightarrow> disk \<Rightarrow> bool \<times> disk" where
  "write_file p b =
     (let q = resolve p;
          put = (\<lambda>b d. if dir_at (butlast q) d \<and> q \<noteq> [] \<and> nodes d q \<noteq> Some Dir
                       then (True, set_node q (Some (File b (wall_clock d))) d) else (False, d))
      in io_step (\<lambda>d. snd (put [] d)) (put b))"

definition remove_file :: "PathBuf \<Rightarrow> disk \<Rightarrow> bool \<times> disk" where
  "remove_file p = io_step id (\<lambda>d. if is_file p d then (True, set_node (resolve p) None d) else (False, d))"

text \<open>\<^verbatim>\<open>rename\<close> replaces a file by a file and moves a directory with everything below it.\<close>

definition moved :: "string list \<Rightarrow> string list \<Rightarrow> (string list \<Rightarrow> node option) \<Rightarrow> string list \<Rightarrow> node option" where
  "moved src dst ns p =
     (if take (length dst) p = dst then ns (src @ drop (length dst) p)
      else if take (length src) p = src then None else ns p)"

definition rename :: "PathBuf \<Rightarrow> PathBuf \<Rightarrow> disk \<Rightarrow> bool \<times> disk" where
  "rename src dst = io_step id (\<lambda>d.
     let s = resolve src; t = resolve dst
     in if t = [] \<or> \<not> dir_at (butlast t) d then (False, d)
        else case (nodes d s, nodes d t) of
               (Some (File b m), Some Dir) \<Rightarrow> (False, d)
             | (Some (File b m), _) \<Rightarrow> (True, set_node t (Some (File b m)) (set_node s None d))
             | (Some Dir, None) \<Rightarrow>
                 if take (length s) t = s then (False, d)
                 else (True, d\<lparr>nodes := moved s t (nodes d),
                        entries := entries d @ map (\<lambda>p. t @ drop (length s) p) (filter (\<lambda>p. take (length s) p = s) (entries d))\<rparr>)
             | _ \<Rightarrow> (False, d))"

definition set_modified :: "PathBuf \<Rightarrow> int \<Rightarrow> disk \<Rightarrow> disk" where
  "set_modified p t d =
     (case nodes d (resolve p) of Some (File b m) \<Rightarrow> set_node (resolve p) (Some (File b t)) d | _ \<Rightarrow> d)"

text \<open>\<^verbatim>\<open>read_dir\<close>: the names in a directory.\<close>

definition read_dir :: "PathBuf \<Rightarrow> disk \<Rightarrow> string list" where
  "read_dir p d =
     (if dir_at (resolve p) d
      then map last (filter (\<lambda>q. q \<noteq> [] \<and> butlast q = resolve p \<and> nodes d q \<noteq> None) (entries d)) else [])"

section \<open>Files with bodies\<close>

text \<open>What sealing a body needs: the cipher, a nonce and the keys of the process.\<close>

record body_keys =
  bk_seal :: aseal
  bk_open :: aopen
  bk_nonce :: bytes
  bk_registry :: KeyRegistry

definition sealed_for_disk :: "body_keys \<Rightarrow> bytes \<Rightarrow> bytes" where
  "sealed_for_disk k b = seal_for_disk (bk_seal k) (bk_nonce k) b (bk_registry k)"

definition body_at :: "body_keys \<Rightarrow> PathBuf \<Rightarrow> disk \<Rightarrow> bytes option" where
  "body_at k p d =
     (case read_body (bk_open k) (resolve p) (bk_registry k) (files_of d) of Inl e \<Rightarrow> None | Inr b \<Rightarrow> Some b)"

definition plain_len :: "PathBuf \<Rightarrow> disk \<Rightarrow> u64" where
  "plain_len p d = on_disk_plaintext_len (resolve p) (files_of d)"

section \<open>Lemmas on paths\<close>

lemma path_join_comps: "\<not> fst b \<Longrightarrow> snd (path_join a b) = snd a @ snd b"
  by (simp add: path_join_def)

lemma resolve_append: "resolve (a, xs @ ys) = fold resolve_step ys (resolve (a, xs))"
  by (simp add: resolve_def)

text \<open>Components that are ordinary names stay as they are.\<close>

lemma fold_resolve_normal: "''..'' \<notin> set xs \<Longrightarrow> fold resolve_step xs ps = ps @ xs"
  by (induction xs arbitrary: ps) (auto simp: resolve_step_def)

lemma resolve_normal: "''..'' \<notin> set xs \<Longrightarrow> resolve (a, xs) = xs"
  by (simp add: resolve_def fold_resolve_normal)

lemma rsplit_dot_Some: "rsplit_dot s = Some (a, e) \<Longrightarrow> s = a @ CHR ''.'' # e \<and> CHR ''.'' \<notin> set e"
proof -
  let ?t = "takeWhile (\<lambda>c. c \<noteq> CHR ''.'') (rev s)" and ?r = "dropWhile (\<lambda>c. c \<noteq> CHR ''.'') (rev s)"
  assume "rsplit_dot s = Some (a, e)"
  then have e: "CHR ''.'' \<in> set s" "e = rev ?t" "a = take (length s - length ?t - 1) s"
    by (auto simp: rsplit_dot_def Let_def split: if_splits)
  obtain t where t: "t = ?t" by simp
  have "?r \<noteq> []" using e(1) by simp
  then obtain r where r: "?r = CHR ''.'' # r" using hd_dropWhile [of "\<lambda>c. c \<noteq> CHR ''.''" "rev s"] by (cases ?r) auto
  have "rev s = t @ CHR ''.'' # r" unfolding t using takeWhile_dropWhile_id [of "\<lambda>c. c \<noteq> CHR ''.''" "rev s"] r by simp
  then have "rev (rev s) = rev (t @ CHR ''.'' # r)" by simp
  then have s: "s = rev r @ CHR ''.'' # rev t" by simp
  have "a = rev r" unfolding e(3) t [symmetric] by (subst s) (simp add: s)
  moreover have "CHR ''.'' \<notin> set t" unfolding t by (auto dest: set_takeWhileD)
  moreover have "e = rev t" unfolding e(2) t ..
  ultimately show ?thesis using s by simp
qed

end
