(* ===== verification/Utf8.thy ===== *)
theory Utf8
  imports Text_Ops
begin

text \<open>
  Text as code points and as its UTF-8 bytes. A \<^verbatim>\<open>String\<close> of the program is valid UTF-8, so that decoding
  only meets well-formed sequences; on other bytes \<open>utf8_decode\<close> stops short.
\<close>

definition utf8_char :: "int \<Rightarrow> string" where
  "utf8_char c =
     map (\<lambda>b. char_of (nat b))
       (if c < 0x80 then [c]
        else if c < 0x800 then [0xC0 + c div 64, 0x80 + c mod 64]
        else if c < 0x10000 then [0xE0 + c div 4096, 0x80 + c div 64 mod 64, 0x80 + c mod 64]
        else [0xF0 + c div 262144, 0x80 + c div 4096 mod 64, 0x80 + c div 64 mod 64, 0x80 + c mod 64])"

definition utf8_encode :: "int list \<Rightarrow> string" where
  "utf8_encode cs = concat (map utf8_char cs)"

abbreviation byte_val :: "char \<Rightarrow> int" where
  "byte_val c \<equiv> int (of_char c)"

fun utf8_decode :: "string \<Rightarrow> int list" where
  "utf8_decode [] = []"
| "utf8_decode (a # s) =
     (if byte_val a < 0x80 then byte_val a # utf8_decode s
      else if byte_val a < 0xE0 then
        (case s of b # s \<Rightarrow> ((byte_val a - 0xC0) * 64 + (byte_val b - 0x80)) # utf8_decode s | _ \<Rightarrow> [])
      else if byte_val a < 0xF0 then
        (case s of b # c # s \<Rightarrow>
           ((byte_val a - 0xE0) * 4096 + (byte_val b - 0x80) * 64 + (byte_val c - 0x80)) # utf8_decode s | _ \<Rightarrow> [])
      else
        (case s of b # c # e # s \<Rightarrow>
           ((byte_val a - 0xF0) * 262144 + (byte_val b - 0x80) * 4096 + (byte_val c - 0x80) * 64 + (byte_val e - 0x80))
             # utf8_decode s | _ \<Rightarrow> []))"

definition code_point :: "int \<Rightarrow> bool" where
  "code_point c \<longleftrightarrow> 0 \<le> c \<and> c < 0x110000"

lemma byte_val_char_of: "0 \<le> b \<Longrightarrow> b < 256 \<Longrightarrow> byte_val (char_of (nat b)) = b"
  by (simp add: nat_less_iff)

lemma decode_char:
  assumes "code_point c"
  shows "utf8_decode (utf8_char c @ s) = c # utf8_decode s"
proof -
  let ?d = "c div 64" and ?ch = "\<lambda>b. char_of (nat b) :: char"
  let ?e = "?d div 64"
  have c: "0 \<le> c" "c < 0x110000" using assms by (simp_all add: code_point_def)
  have parts: "c = ?d * 64 + c mod 64" "?d = ?e * 64 + ?d mod 64" "?e = ?e div 64 * 64 + ?e mod 64" by simp_all
  have div: "c div 4096 = ?e" "c div 262144 = ?e div 64" by (simp_all add: zdiv_zmult2_eq [symmetric])
  have m: "0 \<le> x mod 64" "x mod 64 < 64" for x :: int by simp_all
  have cont: "byte_val (?ch (0x80 + x mod 64)) = 0x80 + x mod 64" for x
    by (rule byte_val_char_of) (use m [of x] in linarith)+
  consider "c < 0x80" | "0x80 \<le> c" "c < 0x800" | "0x800 \<le> c" "c < 0x10000" | "0x10000 \<le> c" by linarith
  then show ?thesis
  proof cases
    case 1
    then have "byte_val (?ch c) = c" by (intro byte_val_char_of) (use c in linarith)+
    with 1 show ?thesis by (simp add: utf8_char_def)
  next
    case 2
    then have d: "2 \<le> ?d" "?d < 32" using parts(1) m [of c] by linarith+
    have a: "byte_val (?ch (0xC0 + ?d)) = 0xC0 + ?d" by (rule byte_val_char_of) (use d in linarith)+
    have "utf8_char c = [?ch (0xC0 + ?d), ?ch (0x80 + c mod 64)]" using 2 by (simp only: utf8_char_def) simp
    moreover have "\<not> 0xC0 + ?d < 0x80" "0xC0 + ?d < 0xE0" using d by linarith+
    moreover have "(0xC0 + ?d - 0xC0) * 64 + (0x80 + c mod 64 - 0x80) = c" by simp
    ultimately show ?thesis by (simp only: append.simps utf8_decode.simps a cont if_False if_True list.case)
  next
    case 3
    then have d: "0 \<le> ?e" "?e < 16" using parts m [of c] m [of ?d] by linarith+
    have a: "byte_val (?ch (0xE0 + ?e)) = 0xE0 + ?e" by (rule byte_val_char_of) (use d in linarith)+
    have "utf8_char c = [?ch (0xE0 + ?e), ?ch (0x80 + ?d mod 64), ?ch (0x80 + c mod 64)]"
      using 3 by (simp only: utf8_char_def div) simp
    moreover have "\<not> 0xE0 + ?e < 0x80" "\<not> 0xE0 + ?e < 0xE0" "0xE0 + ?e < 0xF0" using d by linarith+
    moreover have "(0xE0 + ?e - 0xE0) * 4096 + (0x80 + ?d mod 64 - 0x80) * 64 + (0x80 + c mod 64 - 0x80) = c"
      unfolding add_diff_cancel_left' using parts(1,2) by linarith
    ultimately show ?thesis by (simp only: append.simps utf8_decode.simps a cont if_False if_True list.case)
  next
    case 4
    then have d: "0 \<le> ?e div 64" "?e div 64 < 5" using c parts m [of c] m [of ?d] m [of ?e] by linarith+
    have a: "byte_val (?ch (0xF0 + ?e div 64)) = 0xF0 + ?e div 64" by (rule byte_val_char_of) (use d in linarith)+
    have "utf8_char c = [?ch (0xF0 + ?e div 64), ?ch (0x80 + ?e mod 64), ?ch (0x80 + ?d mod 64), ?ch (0x80 + c mod 64)]"
      using 4 by (simp only: utf8_char_def div) simp
    moreover have "\<not> 0xF0 + ?e div 64 < 0x80" "\<not> 0xF0 + ?e div 64 < 0xE0" "\<not> 0xF0 + ?e div 64 < 0xF0" using d by linarith+
    moreover have "(0xF0 + ?e div 64 - 0xF0) * 262144 + (0x80 + ?e mod 64 - 0x80) * 4096 + (0x80 + ?d mod 64 - 0x80) * 64
      + (0x80 + c mod 64 - 0x80) = c" unfolding add_diff_cancel_left' using parts by linarith
    ultimately show ?thesis by (simp only: append.simps utf8_decode.simps a cont if_False if_True list.case)
  qed
qed

lemma utf8_round_trip: "list_all code_point cs \<Longrightarrow> utf8_decode (utf8_encode cs) = cs"
  by (induction cs) (simp_all add: utf8_encode_def decode_char)

end
