(* ===== verification/Drive_Items.thy ===== *)
theory Drive_Items
  imports Item_Store Pathmap Graph_Transport Upload_Session Local_Disk Utf8
begin

text \<open>
  The remote-to-local half of the OneDrive connector (\<^verbatim>\<open>connectors/src/onedrive.rs\<close>): a delta walk is
  ingested item by item into the index, names are mapped through the mapping table, the full metadata
  of an item is archived as a file, and the new cursor is stored. The state is the index, the mapping
  table, the disk and the cloud. Serializing JSON and lowercasing are functions of the environment.
\<close>

section \<open>State and errors\<close>

datatype SyncError =
    StoreFailed string
  | Delta DeltaError
  | Malformed string
  | Remote string
  | Graph UploadError
  | HttpStatus nat
  | Io

record drive_env =
  de_case_key :: "uname \<Rightarrow> uname"
  de_keys :: body_keys
  de_to_vec :: "json \<Rightarrow> bytes"

record 'c drive_world =
  dw_db :: item_db
  dw_map :: MappingTable
  dw_disk :: disk
  dw_cloud :: 'c

text \<open>\<^verbatim>\<open>?\<close> on a result.\<close>

definition try_then ::
  "(SyncError + 'a) \<times> 'c drive_world \<Rightarrow> ('a \<Rightarrow> 'c drive_world \<Rightarrow> (SyncError + 'b) \<times> 'c drive_world)
     \<Rightarrow> (SyncError + 'b) \<times> 'c drive_world" where
  "try_then r f = (case r of (Inl e, w) \<Rightarrow> (Inl e, w) | (Inr x, w) \<Rightarrow> f x w)"

definition on_db :: "(item_db \<Rightarrow> 'a \<times> item_db) \<Rightarrow> 'c drive_world \<Rightarrow> 'a \<times> 'c drive_world" where
  "on_db f w = (case f (dw_db w) of (x, db) \<Rightarrow> (x, w\<lparr>dw_db := db\<rparr>))"

definition on_disk :: "(disk \<Rightarrow> 'a \<times> disk) \<Rightarrow> 'c drive_world \<Rightarrow> 'a \<times> 'c drive_world" where
  "on_disk f w = (case f (dw_disk w) of (x, d) \<Rightarrow> (x, w\<lparr>dw_disk := d\<rparr>))"

definition on_dcloud :: "('c \<Rightarrow> 'a \<times> 'c) \<Rightarrow> 'c drive_world \<Rightarrow> 'a \<times> 'c drive_world" where
  "on_dcloud f w = (case f (dw_cloud w) of (x, c) \<Rightarrow> (x, w\<lparr>dw_cloud := c\<rparr>))"

abbreviation update_db :: "(item_db \<Rightarrow> item_db) \<Rightarrow> 'c drive_world \<Rightarrow> 'c drive_world" where
  "update_db f w \<equiv> w\<lparr>dw_db := f (dw_db w)\<rparr>"

definition ROOT_DELTA :: string where
  "ROOT_DELTA = ''https://graph.microsoft.com/v1.0/me/drive/root/delta''"

definition DRIVE :: string where
  "DRIVE = ''onedrive''"

section \<open>Archive paths\<close>

definition fnv1a64 :: "string \<Rightarrow> u64" where
  "fnv1a64 s = fold (\<lambda>c h. xor h (of_nat (of_char c)) * 0x100000001b3) s 0xcbf29ce484222325"

text \<open>\<^verbatim>\<open>{:016x}\<close>.\<close>

definition hex16 :: "u64 \<Rightarrow> string" where
  "hex16 h = concat (map hex_byte (be_bytes 8 (unat h)))"

definition shard_rel :: "string \<Rightarrow> string \<Rightarrow> string \<Rightarrow> string" where
  "shard_rel service i ext =
     (let hex = hex16 (fnv1a64 i)
      in service @ ''/'' @ take 2 hex @ ''/'' @ take 2 (drop 2 hex) @ ''/'' @ hex @ ''.'' @ ext)"

definition shard_path :: "PathBuf \<Rightarrow> string \<Rightarrow> string \<Rightarrow> string \<Rightarrow> PathBuf" where
  "shard_path root service i ext = path_join root (path_of (shard_rel service i ext))"

definition write_item_json :: "drive_env \<Rightarrow> PathBuf \<Rightarrow> string \<Rightarrow> json \<Rightarrow> disk \<Rightarrow> (SyncError + unit) \<times> disk" where
  "write_item_json env root i item d =
     (let abs = shard_path root DRIVE i ''json'';
          tmp = with_extension ''json.part'' abs
      in case (case path_parent abs of Some p \<Rightarrow> create_dir_all p d | None \<Rightarrow> (True, d)) of
           (False, d) \<Rightarrow> (Inl Io, d)
         | (True, d) \<Rightarrow>
             (case write_file tmp (sealed_for_disk (de_keys env) (de_to_vec env item)) d of
                (False, d) \<Rightarrow> (Inl Io, d)
              | (True, d) \<Rightarrow>
                  (case rename tmp abs d of (False, d) \<Rightarrow> (Inl Io, d) | (True, d) \<Rightarrow> (Inr (), d))))"

definition remove_item_json :: "PathBuf \<Rightarrow> string \<Rightarrow> disk \<Rightarrow> disk" where
  "remove_item_json root i d = snd (remove_file (shard_path root DRIVE i ''json'') d)"

section \<open>One item of a delta\<close>

datatype Ingest = Upserted | Deleted | Skipped

text \<open>\<^verbatim>\<open>pointer\<close>: a path of keys.\<close>

definition get_path :: "string list \<Rightarrow> json \<Rightarrow> json option" where
  "get_path ks v = fold (\<lambda>k r. Option.bind r (get k)) ks (Some v)"

definition get_path_str :: "string list \<Rightarrow> json \<Rightarrow> string option" where
  "get_path_str ks v = Option.bind (get_path ks v) as_string"

definition removed :: "json \<Rightarrow> bool" where
  "removed item \<longleftrightarrow> get ''deleted'' item \<noteq> None \<or> get ''@removed'' item \<noteq> None"

definition local_name_for ::
  "drive_env \<Rightarrow> string option \<Rightarrow> string \<Rightarrow> MappingTable \<Rightarrow> string \<times> MappingTable" where
  "local_name_for env parent name t =
     (case parent of
        None \<Rightarrow> (name, t)
      | Some p \<Rightarrow>
          (case assign_local_name (de_case_key env) (utf8_decode p) (utf8_decode name) t of
             (l, t') \<Rightarrow> (utf8_encode l, t')))"

definition item_of_json :: "string \<Rightarrow> string \<Rightarrow> json \<Rightarrow> string \<Rightarrow> string \<Rightarrow> Item" where
  "item_of_json account i item local_name state =
     (let name = (case get_str ''name'' item of Some n \<Rightarrow> n | None \<Rightarrow> [])
      in (Item_new account DRIVE i name (if get ''folder'' item \<noteq> None then ''folder'' else ''file''))
         \<lparr>it_parent_remote_id := get_path_str [''parentReference'', ''id''] item,
          it_local_path := Some local_name,
          it_etag := get_str ''eTag'' item,
          it_ctag := get_str ''cTag'' item,
          it_quickxorhash := get_path_str [''file'', ''hashes'', ''quickXorHash''] item,
          it_size := Option.bind (get ''size'' item) as_int,
          it_remote_mtime := get_path_str [''fileSystemInfo'', ''lastModifiedDateTime''] item,
          it_sync_state := state\<rparr>)"

definition store_item ::
  "drive_env \<Rightarrow> string \<Rightarrow> string \<Rightarrow> json \<Rightarrow> string \<Rightarrow> PathBuf option \<Rightarrow> 'c drive_world
     \<Rightarrow> (SyncError + unit) \<times> 'c drive_world" where
  "store_item env account i item state archive w =
     (case local_name_for env (get_path_str [''parentReference'', ''id''] item)
             (case get_str ''name'' item of Some n \<Rightarrow> n | None \<Rightarrow> []) (dw_map w) of
        (local_name, t) \<Rightarrow>
          let w = w\<lparr>dw_map := t, dw_db := upsert_item (item_of_json account i item local_name state) (dw_db w)\<rparr>
          in (case archive of
                None \<Rightarrow> (Inr (), w)
              | Some root \<Rightarrow> on_disk (write_item_json env root i item) w))"

definition tombstone ::
  "string \<Rightarrow> string \<Rightarrow> string \<Rightarrow> PathBuf option \<Rightarrow> 'c drive_world \<Rightarrow> 'c drive_world" where
  "tombstone account i now archive w =
     w\<lparr>dw_db := snd (mark_deleted account DRIVE i now (dw_db w)),
       dw_disk := (case archive of None \<Rightarrow> dw_disk w | Some root \<Rightarrow> remove_item_json root i (dw_disk w))\<rparr>"

definition ingest_item ::
  "drive_env \<Rightarrow> string \<Rightarrow> json \<Rightarrow> string \<Rightarrow> string \<Rightarrow> PathBuf option \<Rightarrow> 'c drive_world
     \<Rightarrow> (SyncError + Ingest) \<times> 'c drive_world" where
  "ingest_item env account item now state archive w =
     (case get_str ''id'' item of
        None \<Rightarrow> (Inl (Malformed ''item has no id''), w)
      | Some i \<Rightarrow>
          if removed item then (Inr Deleted, tombstone account i now archive w)
          else if get ''root'' item \<noteq> None then (Inr Skipped, w)
          else try_then (store_item env account i item state archive w) (\<lambda>_ w. (Inr Upserted, w)))"

section \<open>The incremental pass\<close>

record SyncReport =
  sr_upserted :: nat
  sr_deleted :: nat
  sr_skipped :: nat
  sr_resynced :: bool

definition count_ingest :: "Ingest \<Rightarrow> SyncReport \<Rightarrow> SyncReport" where
  "count_ingest i r =
     (case i of
        Upserted \<Rightarrow> r\<lparr>sr_upserted := sr_upserted r + 1\<rparr>
      | Deleted \<Rightarrow> r\<lparr>sr_deleted := sr_deleted r + 1\<rparr>
      | Skipped \<Rightarrow> r\<lparr>sr_skipped := sr_skipped r + 1\<rparr>)"

fun ingest_items ::
  "(json \<Rightarrow> 'c drive_world \<Rightarrow> (SyncError + Ingest) \<times> 'c drive_world) \<Rightarrow> json list \<Rightarrow> SyncReport \<Rightarrow> 'c drive_world
     \<Rightarrow> (SyncError + SyncReport) \<times> 'c drive_world" where
  "ingest_items f [] r w = (Inr r, w)"
| "ingest_items f (item # xs) r w = try_then (f item w) (\<lambda>i w. ingest_items f xs (count_ingest i r) w)"

type_synonym 'c transport = "(string \<Rightarrow> 'c \<Rightarrow> Response \<times> 'c) \<times> (nat \<Rightarrow> 'c \<Rightarrow> 'c)"

definition incremental_sync ::
  "drive_env \<Rightarrow> 'c transport \<Rightarrow> string \<Rightarrow> string \<Rightarrow> PathBuf \<Rightarrow> 'c drive_world
     \<Rightarrow> ((SyncError + SyncReport) \<times> 'c drive_world) option" where
  "incremental_sync env t account now archive w =
     map_option
       (\<lambda>(out, c).
          let w = w\<lparr>dw_cloud := c\<rparr>
          in case out of
               Inl e \<Rightarrow> (Inl (Delta e), w)
             | Inr delta \<Rightarrow>
                 try_then
                   (ingest_items (\<lambda>item. ingest_item env account item now ''remote_dirty'' (Some archive)) (items delta)
                      \<lparr>sr_upserted = 0, sr_deleted = 0, sr_skipped = 0, sr_resynced = resynced delta\<rparr> w)
                   (\<lambda>r w. (Inr r, update_db (set_delta_cursor account DRIVE [] (cursor delta)) w)))
       (run_delta (fst t) (snd t) ROOT_DELTA (get_delta_cursor account DRIVE [] (dw_db w)) 5 (dw_cloud w))"

end
