(* ===== verification/Civil_Time.thy ===== *)
theory Civil_Time
  imports Prelude "HOL-Library.Signed_Division"
begin

text \<open>
  Calendar arithmetic of \<^verbatim>\<open>connectors/src/onedrive.rs\<close>: days since the Unix epoch for a civil date and
  back (\<^verbatim>\<open>days_from_civil\<close>, \<^verbatim>\<open>civil_from_days\<close>), and the RFC 3339 text of a timestamp
  (\<^verbatim>\<open>unix_to_rfc3339\<close>, \<^verbatim>\<open>rfc3339_to_unix\<close>). The division of the source is that of \<open>i64\<close>, which
  truncates; no intermediate value leaves the range of \<open>i64\<close> for a timestamp that fits in one.
\<close>

section \<open>Civil dates\<close>

definition days_from_civil :: "int \<Rightarrow> int \<Rightarrow> int \<Rightarrow> int" where
  "days_from_civil y month d =
     (let y = (if month \<le> 2 then y - 1 else y);
          era = (if 0 \<le> y then y else y - 399) sdiv 400;
          yoe = y - era * 400;
          mp = (month + 9) smod 12;
          doy = (153 * mp + 2) sdiv 5 + d - 1;
          doe = yoe * 365 + yoe sdiv 4 - yoe sdiv 100 + doy
      in era * 146097 + doe - 719468)"

definition civil_from_days :: "int \<Rightarrow> int \<times> int \<times> int" where
  "civil_from_days z =
     (let z = z + 719468;
          era = (if 0 \<le> z then z else z - 146096) sdiv 146097;
          doe = z - era * 146097;
          yoe = (doe - doe sdiv 1460 + doe sdiv 36524 - doe sdiv 146096) sdiv 365;
          y = yoe + era * 400;
          doy = doe - (365 * yoe + yoe sdiv 4 - yoe sdiv 100);
          mp = (5 * doy + 2) sdiv 153;
          d = doy - (153 * mp + 2) sdiv 5 + 1;
          m = (if mp < 10 then mp + 3 else mp - 9)
      in (if m \<le> 2 then y + 1 else y, m, d))"

section \<open>Timestamps\<close>

text \<open>\<^verbatim>\<open>str::parse::<i64>\<close>, and a slice of the text read as a number.\<close>

definition all_digits :: "string \<Rightarrow> bool" where
  "all_digits ds \<longleftrightarrow> ds \<noteq> [] \<and> list_all (\<lambda>c. 48 \<le> (of_char c :: nat) \<and> (of_char c :: nat) \<le> 57) ds"

definition parse_i64 :: "string \<Rightarrow> int option" where
  "parse_i64 s =
     (let (neg, ds) = (case s of
          [] \<Rightarrow> (False, [])
        | c # cs \<Rightarrow> if c = CHR ''-'' then (True, cs) else if c = CHR ''+'' then (False, cs) else (False, s));
          v = (if neg then - int (read_nat ds) else int (read_nat ds))
      in if all_digits ds \<and> - (2 ^ 63) \<le> v \<and> v < 2 ^ 63 then Some v else None)"

definition num_at :: "string \<Rightarrow> nat \<Rightarrow> nat \<Rightarrow> int option" where
  "num_at s a b = parse_i64 (take (b - a) (drop a s))"

definition rfc3339_to_unix :: "string \<Rightarrow> int option" where
  "rfc3339_to_unix s =
     (if length s < 19 \<or> s ! 4 \<noteq> CHR ''-'' \<or> s ! 7 \<noteq> CHR ''-'' \<or> s ! 10 \<noteq> CHR ''T'' then None
      else
        Option.bind (num_at s 0 4) (\<lambda>y.
        Option.bind (num_at s 5 7) (\<lambda>mo.
        Option.bind (num_at s 8 10) (\<lambda>d.
        Option.bind (num_at s 11 13) (\<lambda>h.
        Option.bind (num_at s 14 16) (\<lambda>mi.
        Option.bind (num_at s 17 19) (\<lambda>se.
        if \<not> (1 \<le> mo \<and> mo \<le> 12) \<or> \<not> (1 \<le> d \<and> d \<le> 31) \<or> h > 23 \<or> mi > 59 \<or> se > 60 then None
        else Some (days_from_civil y mo d * 86400 + h * 3600 + mi * 60 + se))))))))"

text \<open>\<^verbatim>\<open>{v:0w}\<close>: the sign counts for the width.\<close>

definition pad_int :: "nat \<Rightarrow> int \<Rightarrow> string" where
  "pad_int w v =
     (if v < 0 then CHR ''-'' # pad_zeros (w - 1) (show_nat (nat (- v))) else pad_zeros w (show_nat (nat v)))"

definition unix_to_rfc3339 :: "int \<Rightarrow> string" where
  "unix_to_rfc3339 secs =
     (let days = secs div 86400;
          rem = secs mod 86400;
          (y, mo, d) = civil_from_days days;
          h = rem sdiv 3600;
          mi = (rem smod 3600) sdiv 60;
          s = rem smod 60
      in pad_int 4 y @ ''-'' @ pad_int 2 mo @ ''-'' @ pad_int 2 d @ ''T'' @ pad_int 2 h @ '':'' @ pad_int 2 mi @ '':''
         @ pad_int 2 s @ ''Z'')"

section \<open>The year of a day in an era\<close>

text \<open>The first day of a year in its era of 400 years, and the year the source computes for a day.\<close>

definition year_start :: "int \<Rightarrow> int" where
  "year_start y = 365 * y + y div 4 - y div 100"

definition year_of :: "int \<Rightarrow> int" where
  "year_of doe = (doe - doe div 1460 + doe div 36524 - doe div 146096) div 365"

lemma year_boundaries: "list_all (\<lambda>y. year_of (year_start y) = y \<and> (y = 0 \<or> year_of (year_start y - 1) = y - 1)) [0..399]"
  by code_simp

lemma div_grows_slowly: "a \<le> b \<Longrightarrow> b div k - a div k \<le> b - a" if "1 \<le> k" for a b k :: int
proof -
  assume "a \<le> b"
  then have "(b - a) * 1 \<le> (b - a) * k" using that by (intro mult_left_mono) simp_all
  then have "b \<le> a + (b - a) * k" by simp
  then have "b div k \<le> (a + (b - a) * k) div k" using that by (intro zdiv_mono1) simp_all
  also have "\<dots> = a div k + (b - a)" using that by simp
  finally show ?thesis by simp
qed

lemma year_of_mono: "0 \<le> a \<Longrightarrow> a \<le> b \<Longrightarrow> b < 146096 \<Longrightarrow> year_of a \<le> year_of b"
proof -
  assume ab: "0 \<le> a" "a \<le> b" "b < 146096"
  then have "a div 146096 = 0" "b div 146096 = 0" by simp_all
  moreover have "b div 1460 - a div 1460 \<le> b - a" by (rule div_grows_slowly [of 1460]) (use ab in simp_all)
  moreover have "a div 36524 \<le> b div 36524" by (rule zdiv_mono1) (use ab in simp_all)
  ultimately have "a - a div 1460 + a div 36524 - a div 146096 \<le> b - b div 1460 + b div 36524 - b div 146096" by linarith
  then show ?thesis unfolding year_of_def by (rule zdiv_mono1) simp
qed

lemma year_boundary:
  assumes "0 \<le> y" "y \<le> 399"
  shows "year_of (year_start y) = y" and "y \<noteq> 0 \<Longrightarrow> year_of (year_start y - 1) = y - 1"
  using year_boundaries assms by (auto simp: list_all_iff)

lemma year_start_bounds: "0 \<le> y \<Longrightarrow> y \<le> 399 \<Longrightarrow> 0 \<le> year_start y \<and> year_start y < 146096"
proof -
  assume y: "0 \<le> y" "y \<le> 399"
  then have "0 \<le> y div 4" "y div 4 \<le> 399 div 4" "0 \<le> y div 100" "y div 100 \<le> 399 div 100"
    by (simp_all add: zdiv_mono1 pos_imp_zdiv_nonneg_iff)
  with y show ?thesis by (simp add: year_start_def)
qed

lemma year_of_range:
  assumes "0 \<le> doe" "doe \<le> 146096"
  shows "0 \<le> year_of doe" "year_of doe \<le> 399" "year_start (year_of doe) \<le> doe" "doe \<le> year_start (year_of doe) + 365"
proof -
  show lo: "0 \<le> year_of doe"
  proof (cases "doe = 146096")
    case False
    with assms year_of_mono [of 0 doe] show ?thesis by (simp add: year_of_def)
  qed (simp add: year_of_def)
  show hi: "year_of doe \<le> 399"
  proof (cases "doe = 146096")
    case False
    with assms have "year_of doe \<le> year_of 146095" by (intro year_of_mono) simp_all
    then show ?thesis by (simp add: year_of_def)
  qed (simp add: year_of_def)
  let ?y = "year_of doe"
  show "year_start ?y \<le> doe"
  proof (rule ccontr)
    assume "\<not> year_start ?y \<le> doe"
    then have "doe \<le> year_start ?y - 1" by simp
    moreover from this assms have "?y \<noteq> 0" by (auto simp: year_start_def)
    ultimately have "?y \<le> ?y - 1"
      using assms year_of_mono [of doe "year_start ?y - 1"] year_boundary(2) [OF lo hi] year_start_bounds [OF lo hi] by simp
    then show False by simp
  qed
  show "doe \<le> year_start ?y + 365"
  proof (cases "?y = 399")
    case True
    then have "year_start ?y = 145731" by (simp add: year_start_def)
    with assms show ?thesis by simp
  next
    case False
    with hi have y: "0 \<le> ?y + 1" "?y + 1 \<le> 399" using lo by simp_all
    have "doe < year_start (?y + 1)"
    proof (rule ccontr)
      assume "\<not> ?thesis"
      moreover from False have "doe < 146096" using assms by (cases "doe = 146096") (simp_all add: year_of_def)
      ultimately have "?y + 1 \<le> ?y"
        using year_of_mono [of "year_start (?y + 1)" doe] year_boundary(1) [OF y] year_start_bounds [OF y] by simp
      then show False by simp
    qed
    moreover have "(?y + 1) div 4 - ?y div 4 \<le> 1" by (rule order_trans [OF div_grows_slowly]) simp_all
    moreover have "?y div 100 \<le> (?y + 1) div 100" by (rule zdiv_mono1) simp_all
    ultimately show ?thesis by (simp add: year_start_def)
  qed
qed

section \<open>Round trips\<close>

lemma sdiv_nonneg: "0 \<le> a \<Longrightarrow> 0 < b \<Longrightarrow> a sdiv b = a div b" for a b :: int
  by (simp add: signed_divide_int_def sgn_if)

lemma smod_nonneg: "0 \<le> a \<Longrightarrow> 0 < b \<Longrightarrow> a smod b = a mod b" for a b :: int
  by (simp add: signed_modulo_int_def sgn_if)

lemma floor_sdiv: "0 < b \<Longrightarrow> (if 0 \<le> a then a else a - (b - 1)) sdiv b = a div b" for a b :: int
proof (cases "0 \<le> a")
  case False
  assume b: "0 < b"
  have "a - (b - 1) < 0" using False b by simp
  then have "(a - (b - 1)) sdiv b = - ((b - 1 - a) div b)" using b by (simp add: signed_divide_int_def sgn_if abs_if)
  also have "(b - 1 - a) div b = - (a div b)"
  proof (rule int_div_pos_eq)
    have "a = b * (a div b) + a mod b" by simp
    then show "b - 1 - a = b * (- (a div b)) + (b - 1 - a mod b)" by linarith
    show "0 \<le> b - 1 - a mod b" "b - 1 - a mod b < b" using b pos_mod_bound [of b a] pos_mod_sign [of b a] by linarith+
  qed
  finally show ?thesis using False by simp
qed (simp add: sdiv_nonneg)

text \<open>The parts of the date the source computes, with the truncating divisions replaced.\<close>

lemma civil_parts:
  fixes z :: int
  defines "era \<equiv> (z + 719468) div 146097" and "doe \<equiv> (z + 719468) mod 146097"
  defines "yoe \<equiv> year_of doe"
  defines "doy \<equiv> doe - year_start yoe"
  defines "mp \<equiv> (5 * doy + 2) div 153"
  shows "civil_from_days z =
      ((if mp < 10 then yoe + era * 400 else yoe + era * 400 + 1), (if mp < 10 then mp + 3 else mp - 9),
       doy - (153 * mp + 2) div 5 + 1)"
    and "0 \<le> yoe" "yoe \<le> 399" "0 \<le> doy" "doy \<le> 365" "0 \<le> mp" "mp \<le> 11"
proof -
  have doe: "0 \<le> doe" "doe \<le> 146096" using pos_mod_bound [of 146097 "z + 719468"] by (simp_all add: doe_def)
  show yoe: "0 \<le> yoe" "yoe \<le> 399" and doy: "0 \<le> doy" "doy \<le> 365"
    using year_of_range [OF doe] by (simp_all add: yoe_def doy_def)
  show mp: "0 \<le> mp" "mp \<le> 11"
    using doy zdiv_mono1 [of "5 * doy + 2" "5 * 365 + 2" 153] by (simp_all add: mp_def pos_imp_zdiv_nonneg_iff)
  have era: "(if 0 \<le> z + 719468 then z + 719468 else z + 719468 - 146096) sdiv 146097 = era"
    using floor_sdiv [of 146097 "z + 719468"] by (cases "0 \<le> z + 719468") (simp_all add: era_def)
  have "z + 719468 - era * 146097 = doe" by (simp add: era_def doe_def minus_div_mult_eq_mod)
  moreover have "(doe - doe sdiv 1460 + doe sdiv 36524 - doe sdiv 146096) sdiv 365 = yoe"
  proof -
    have "doe div 1460 \<le> doe" "0 \<le> doe div 36524" "doe div 146096 \<le> 1" using doe by (simp_all add: zdiv_mono1 pos_imp_zdiv_nonneg_iff)
    moreover have "doe div 1460 = 0 \<or> doe div 146096 \<le> doe div 36524" using doe by (auto intro: zdiv_mono2)
    ultimately have "0 \<le> doe - doe div 1460 + doe div 36524 - doe div 146096" using doe zdiv_mono2 [of doe 36524 146096] by linarith
    with doe show ?thesis by (simp add: sdiv_nonneg yoe_def year_of_def)
  qed
  moreover have "doe - (365 * yoe + yoe sdiv 4 - yoe sdiv 100) = doy" using yoe by (simp add: sdiv_nonneg doy_def year_start_def)
  moreover have "(5 * doy + 2) sdiv 153 = mp" "(153 * mp + 2) sdiv 5 = (153 * mp + 2) div 5"
    using doy mp by (simp_all add: sdiv_nonneg mp_def)
  ultimately show "civil_from_days z =
      ((if mp < 10 then yoe + era * 400 else yoe + era * 400 + 1), (if mp < 10 then mp + 3 else mp - 9),
       doy - (153 * mp + 2) div 5 + 1)"
    using mp by (auto simp: civil_from_days_def Let_def era)
qed

lemma day_of_month:
  fixes doy mp :: int
  assumes "mp = (5 * doy + 2) div 153"
  shows "1 \<le> doy - (153 * mp + 2) div 5 + 1 \<and> doy - (153 * mp + 2) div 5 + 1 \<le> 31"
proof -
  let ?k = "(153 * mp + 2) div 5"
  have "153 * mp \<le> 5 * doy + 2" "5 * doy + 2 < 153 * mp + 153"
    using pos_mod_bound [of 153 "5 * doy + 2"] pos_mod_sign [of 153 "5 * doy + 2"] mult_div_mod_eq [of 153 "5 * doy + 2"]
    unfolding assms by linarith+
  moreover have "5 * ?k \<le> 153 * mp + 2" "153 * mp + 2 < 5 * ?k + 5"
    using pos_mod_bound [of 5 "153 * mp + 2"] pos_mod_sign [of 5 "153 * mp + 2"] mult_div_mod_eq [of 5 "153 * mp + 2"]
    by linarith+
  ultimately show ?thesis by linarith
qed

lemma civil_month_day:
  assumes "civil_from_days z = (y, m, d)"
  shows "1 \<le> m" "m \<le> 12" "1 \<le> d" "d \<le> 31"
proof -
  note p = civil_parts [of z]
  let ?doe = "(z + 719468) mod 146097"
  let ?doy = "?doe - year_start (year_of ?doe)"
  let ?mp = "(5 * ?doy + 2) div 153"
  have m: "m = (if ?mp < 10 then ?mp + 3 else ?mp - 9)" and d: "d = ?doy - (153 * ?mp + 2) div 5 + 1"
    using assms p(1) by simp_all
  show "1 \<le> m" "m \<le> 12" using p(6,7) by (simp_all add: m split: if_split)
  show "1 \<le> d" "d \<le> 31" unfolding d using day_of_month [OF refl, of ?doy] by simp_all
qed

lemma days_of_civil:
  assumes "civil_from_days z = (y, m, d)"
  shows "days_from_civil y m d = z"
proof -
  note p = civil_parts [of z]
  let ?z = "z + 719468"
  let ?era = "?z div 146097" and ?doe = "?z mod 146097"
  let ?yoe = "year_of ?doe"
  let ?doy = "?doe - year_start ?yoe"
  let ?mp = "(5 * ?doy + 2) div 153"
  have e: "y = (if ?mp < 10 then ?yoe + ?era * 400 else ?yoe + ?era * 400 + 1)" "m = (if ?mp < 10 then ?mp + 3 else ?mp - 9)"
    "d = ?doy - (153 * ?mp + 2) div 5 + 1"
    using assms p(1) by simp_all
  have y: "(if m \<le> 2 then y - 1 else y) = ?yoe + ?era * 400" using p(6,7) by (auto simp: e)
  have "(?yoe + ?era * 400) div 400 = ?era" using p(2,3) by simp
  then have era: "(if 0 \<le> ?yoe + ?era * 400 then ?yoe + ?era * 400 else ?yoe + ?era * 400 - 399) sdiv 400 = ?era"
    using floor_sdiv [of 400 "?yoe + ?era * 400"] by (cases "0 \<le> ?yoe + ?era * 400") simp_all
  have mp: "(m + 9) smod 12 = ?mp" using p(6,7) by (auto simp: e smod_nonneg)
  have "days_from_civil y m d = ?era * 146097 + (?yoe * 365 + ?yoe div 4 - ?yoe div 100 + ?doy) - 719468"
    using p(2,3,6) by (simp add: days_from_civil_def Let_def y era mp sdiv_nonneg e(3))
  also have "\<dots> = z" by (simp add: year_start_def)
  finally show ?thesis .
qed

lemma civil_year:
  assumes "civil_from_days z = (y, m, d)" and "0 \<le> z" "z \<le> 2932896"
  shows "0 \<le> y" "y \<le> 9999"
proof -
  note p = civil_parts [of z]
  let ?z = "z + 719468"
  let ?era = "?z div 146097" and ?doe = "?z mod 146097"
  let ?yoe = "year_of ?doe"
  let ?doy = "?doe - year_start ?yoe"
  let ?mp = "(5 * ?doy + 2) div 153"
  have y: "y = (if ?mp < 10 then ?yoe + ?era * 400 else ?yoe + ?era * 400 + 1)" using assms(1) p(1) by simp
  have era: "0 \<le> ?era" "?era \<le> 24" using assms(2,3) zdiv_mono1 [of ?z "2932896 + 719468" 146097]
    by (simp_all add: pos_imp_zdiv_nonneg_iff)
  show "0 \<le> y" using p(2) era(1) by (simp add: y)
  show "y \<le> 9999"
  proof (cases "?yoe = 399 \<and> ?era = 24")
    case True
    have "?doe = ?z - 24 * 146097" using True mult_div_mod_eq [of 146097 ?z] by linarith
    then have "?doe \<le> 146036" using assms(3) by simp
    moreover have "year_start ?yoe = 145731" using True by (simp add: year_start_def)
    ultimately have "?mp \<le> (5 * 305 + 2) div 153" by (intro zdiv_mono1) simp_all
    with True show ?thesis by (simp add: y)
  next
    case False
    with p(3) era(2) have "?yoe \<le> 398 \<or> ?era \<le> 23" by linarith
    with p(3) era(2) show ?thesis by (auto simp: y)
  qed
qed

subsection \<open>The text\<close>

lemma length_show_nat: "n < 10 ^ Suc w \<Longrightarrow> length (show_nat n) \<le> Suc w"
proof (induction w arbitrary: n)
  case 0
  then show ?case by (simp add: show_nat.simps [of n])
next
  case (Suc w)
  show ?case
  proof (cases "n < 10")
    case False
    have "length (show_nat (n div 10)) \<le> Suc w" by (rule Suc.IH) (use Suc.prems in simp)
    with False show ?thesis by (simp add: show_nat.simps [of n])
  qed (simp add: show_nat.simps [of n])
qed

lemma read_nat_zeros: "read_nat (replicate k (CHR ''0'') @ s) = read_nat s"
  by (induction k) (simp_all add: read_nat_def digit_val_def)

lemma pad_int_parses:
  assumes "0 \<le> v" "v < 10 ^ Suc w"
  shows "length (pad_int (Suc w) v) = Suc w" and "w \<le> 17 \<Longrightarrow> parse_i64 (pad_int (Suc w) v) = Some v"
proof -
  let ?t = "pad_zeros (Suc w) (show_nat (nat v))"
  have t: "pad_int (Suc w) v = ?t" using assms(1) by (simp add: pad_int_def)
  have "nat v < 10 ^ Suc w" using assms by (simp add: nat_less_iff)
  then have len: "length ?t = Suc w" using length_show_nat [of "nat v" w] by (simp add: pad_zeros_def)
  then show "length (pad_int (Suc w) v) = Suc w" by (simp add: t)
  assume "w \<le> 17"
  have digits: "48 \<le> (of_char c :: nat) \<and> (of_char c :: nat) \<le> 57" if "c \<in> set ?t" for c
    using that show_nat_digits [of c "nat v"] by (auto simp: pad_zeros_def)
  then have sign: "c \<noteq> CHR ''-''" "c \<noteq> CHR ''+''" if "c \<in> set ?t" for c using that by force+
  have read: "int (read_nat ?t) = v" using assms(1) by (simp add: pad_zeros_def read_nat_zeros)
  have "v < 10 ^ 18"
  proof -
    have "(10 :: int) ^ Suc w \<le> 10 ^ 18" using \<open>w \<le> 17\<close> by (intro power_increasing) simp_all
    with assms(2) show ?thesis by linarith
  qed
  then have "v < 2 ^ 63" by simp
  moreover obtain c cs where c: "?t = c # cs" using len by (cases ?t) auto
  moreover have "all_digits ?t" using digits c by (auto simp: all_digits_def list_all_iff)
  ultimately show "parse_i64 (pad_int (Suc w) v) = Some v"
    using sign [of c] read assms(1) unfolding t c parse_i64_def by (simp add: Let_def)
qed

lemma two_digits:
  assumes "0 \<le> v" "v < 100"
  obtains a b where "pad_int 2 v = [a, b]" "parse_i64 [a, b] = Some v"
proof -
  have "length (pad_int 2 v) = 2" "parse_i64 (pad_int 2 v) = Some v"
    using pad_int_parses [of v 1] assms by (simp_all add: numeral_2_eq_2)
  then show thesis by (cases "pad_int 2 v" rule: remdups_adj.cases) (auto intro: that simp: length_Suc_conv)
qed

lemma four_digits:
  assumes "0 \<le> v" "v < 10000"
  obtains a b c d where "pad_int 4 v = [a, b, c, d]" "parse_i64 [a, b, c, d] = Some v"
proof -
  have "length (pad_int 4 v) = 4" "parse_i64 (pad_int 4 v) = Some v"
    using pad_int_parses [of v 3] assms by (simp_all add: eval_nat_numeral)
  then show thesis by (auto intro: that simp: length_Suc_conv eval_nat_numeral)
qed

text \<open>Timestamps survive the round trip through the cloud's text. Every time from the Unix epoch to the
  end of the year 9999 is printed by \<^verbatim>\<open>unix_to_rfc3339\<close> as a text that \<^verbatim>\<open>rfc3339_to_unix\<close> reads as the
  same second.\<close>

theorem rfc3339_round_trip:
  assumes "0 \<le> secs" "secs \<le> 253402300799"
  shows "rfc3339_to_unix (unix_to_rfc3339 secs) = Some secs"
proof -
  let ?rem = "secs mod 86400"
  obtain y m d where c: "civil_from_days (secs div 86400) = (y, m, d)" by (rule prod_cases3)
  have "0 \<le> secs div 86400" "secs div 86400 \<le> 2932896"
    using assms zdiv_mono1 [of secs 253402300799 86400] by (simp_all add: pos_imp_zdiv_nonneg_iff)
  then have y: "0 \<le> y" "y < 10000" using civil_year [OF c] by linarith+
  note md = civil_month_day [OF c]
  have rem: "0 \<le> ?rem" "?rem < 86400" by simp_all
  have h: "0 \<le> ?rem div 3600" "?rem div 3600 \<le> 23" using rem zdiv_mono1 [of ?rem 86399 3600]
    by (simp_all add: pos_imp_zdiv_nonneg_iff)
  have mi: "0 \<le> ?rem mod 3600 div 60" "?rem mod 3600 div 60 \<le> 59" using zdiv_mono1 [of "?rem mod 3600" 3599 60]
    by (simp_all add: pos_imp_zdiv_nonneg_iff)
  have r: "m < 100" "d < 100" "?rem div 3600 < 100" "?rem mod 3600 div 60 < 100" "?rem mod 60 < 100" "0 \<le> m" "0 \<le> d" "0 \<le> ?rem mod 60"
    using md h(2) mi(2) pos_mod_bound [of 60 ?rem] pos_mod_sign [of 60 ?rem] by linarith+
  obtain y1 y2 y3 y4 where py: "pad_int 4 y = [y1, y2, y3, y4]" "parse_i64 [y1, y2, y3, y4] = Some y"
    by (rule four_digits [OF y])
  obtain m1 m2 where pm: "pad_int 2 m = [m1, m2]" "parse_i64 [m1, m2] = Some m"
    by (rule two_digits [OF r(6) r(1)])
  obtain d1 d2 where pd: "pad_int 2 d = [d1, d2]" "parse_i64 [d1, d2] = Some d"
    by (rule two_digits [OF r(7) r(2)])
  obtain h1 h2 where ph: "pad_int 2 (?rem div 3600) = [h1, h2]" "parse_i64 [h1, h2] = Some (?rem div 3600)"
    by (rule two_digits [OF h(1) r(3)])
  obtain i1 i2 where pi: "pad_int 2 (?rem mod 3600 div 60) = [i1, i2]" "parse_i64 [i1, i2] = Some (?rem mod 3600 div 60)"
    by (rule two_digits [OF mi(1) r(4)])
  obtain s1 s2 where ps: "pad_int 2 (?rem mod 60) = [s1, s2]" "parse_i64 [s1, s2] = Some (?rem mod 60)"
    by (rule two_digits [OF r(8) r(5)])
  let ?t = "[y1, y2, y3, y4, CHR ''-'', m1, m2, CHR ''-'', d1, d2, CHR ''T'', h1, h2, CHR '':'', i1, i2, CHR '':'', s1, s2, CHR ''Z'']"
  have t: "unix_to_rfc3339 secs = ?t"
    using py pm pd ph pi ps by (simp add: unix_to_rfc3339_def c sdiv_nonneg smod_nonneg)
  have at: "num_at ?t 0 4 = Some y" "num_at ?t 5 7 = Some m" "num_at ?t 8 10 = Some d" "num_at ?t 11 13 = Some (?rem div 3600)"
    "num_at ?t 14 16 = Some (?rem mod 3600 div 60)" "num_at ?t 17 19 = Some (?rem mod 60)"
    using py(2) pm(2) pd(2) ph(2) pi(2) ps(2) by (simp_all add: num_at_def)
  have shape: "\<not> (length ?t < 19 \<or> ?t ! 4 \<noteq> CHR ''-'' \<or> ?t ! 7 \<noteq> CHR ''-'' \<or> ?t ! 10 \<noteq> CHR ''T'')" by simp
  have "?rem mod 60 \<le> 60" using pos_mod_bound [of 60 ?rem] by linarith
  then have ok: "\<not> (\<not> (1 \<le> m \<and> m \<le> 12) \<or> \<not> (1 \<le> d \<and> d \<le> 31) \<or> ?rem div 3600 > 23 \<or> ?rem mod 3600 div 60 > 59 \<or> ?rem mod 60 > 60)"
    using md h(2) [THEN leD] mi(2) [THEN leD] leD by blast
  have "?rem mod 3600 mod 60 = ?rem mod 60" by (simp add: mod_mod_cancel)
  then have secs: "secs div 86400 * 86400 + ?rem div 3600 * 3600 + ?rem mod 3600 div 60 * 60 + ?rem mod 60 = secs"
    using mult_div_mod_eq [of 86400 secs] mult_div_mod_eq [of 3600 ?rem] mult_div_mod_eq [of 60 "?rem mod 3600"] by linarith
  show ?thesis
    unfolding t rfc3339_to_unix_def if_not_P [OF shape] at bind.bind_lunit if_not_P [OF ok] days_of_civil [OF c] secs ..
qed

theorem rfc3339_round_trip_witness: "rfc3339_to_unix (unix_to_rfc3339 1704164645) = Some 1704164645"
  by (rule rfc3339_round_trip) simp_all

end
