(* ===== verification/Drive_Files.thy ===== *)
theory Drive_Files
  imports Drive_Items Quickxor Civil_Time
begin

text \<open>
  The files of the OneDrive connector (\<^verbatim>\<open>connectors/src/onedrive.rs\<close>): where an item lives on disk, when a
  local file counts as edited, materializing what the cloud changed with keep-both for local edits,
  mirroring remote deletions into the trash, and pushing local creations, edits and deletions. The
  traits of the cloud side (\<^verbatim>\<open>Downloader\<close>, \<^verbatim>\<open>RemoteWriter\<close>, \<^verbatim>\<open>ContentReplacer\<close>) are records of operations;
  an upload sees the index, where its resumable session is kept.
\<close>

section \<open>Paths of items\<close>

definition by_id :: "Item list \<Rightarrow> string \<Rightarrow> Item option" where
  "by_id its = fold (\<lambda>it m. m(it_remote_id it \<mapsto> it)) its Map.empty"

definition MAX_PATH_DEPTH :: nat where
  "MAX_PATH_DEPTH = 256"

text \<open>The names from the item up, at most \<open>n\<close> of them; \<open>None\<close> when an item on the way has no local name.\<close>

fun name_chain :: "(string \<Rightarrow> Item option) \<Rightarrow> nat \<Rightarrow> Item \<Rightarrow> string list option" where
  "name_chain m 0 it = Some []"
| "name_chain m (Suc n) it =
     (case it_local_path it of
        None \<Rightarrow> None
      | Some name \<Rightarrow>
          (case Option.bind (it_parent_remote_id it) m of
             None \<Rightarrow> Some [name]
           | Some p \<Rightarrow> map_option ((#) name) (name_chain m n p)))"

definition collect_path :: "string list \<Rightarrow> PathBuf" where
  "collect_path names = fold (\<lambda>s p. path_join p (path_of s)) names (False, [])"

definition local_rel_path :: "(string \<Rightarrow> Item option) \<Rightarrow> Item \<Rightarrow> PathBuf option" where
  "local_rel_path m it = map_option (\<lambda>names. collect_path (rev names)) (name_chain m MAX_PATH_DEPTH it)"

section \<open>Comparing a local file with the index\<close>

definition epoch_secs :: "int \<Rightarrow> int option" where
  "epoch_secs t = (if 0 \<le> t then Some t else None)"

definition local_mtime_secs :: "PathBuf \<Rightarrow> disk \<Rightarrow> int option" where
  "local_mtime_secs p d = Option.bind (metadata p d) (\<lambda>(n, t). epoch_secs t)"

definition record_synced_state ::
  "string \<Rightarrow> string \<Rightarrow> PathBuf \<Rightarrow> string option \<Rightarrow> 'c drive_world \<Rightarrow> 'c drive_world" where
  "record_synced_state account i full hash w =
     (case metadata full (dw_disk w) of
        None \<Rightarrow> w
      | Some (n, t) \<Rightarrow>
          update_db (\<lambda>db. snd (set_synced_state account DRIVE i (int n)
            (case epoch_secs t of Some s \<Rightarrow> s | None \<Rightarrow> 0) hash db)) w)"

definition locally_edited_since_sync ::
  "drive_env \<Rightarrow> PathBuf \<Rightarrow> int \<Rightarrow> int \<Rightarrow> string option \<Rightarrow> disk \<Rightarrow> bool" where
  "locally_edited_since_sync env full ssize smtime shash d =
     (case metadata full d of
        None \<Rightarrow> False
      | Some (n, t) \<Rightarrow>
          if int n \<noteq> ssize then True
          else if epoch_secs t = Some smtime then False
          else (case (shash, body_at (de_keys env) full d) of
                  (Some h, Some payload) \<Rightarrow> quickxor_base64 payload \<noteq> h
                | _ \<Rightarrow> False))"

text \<open>\<^verbatim>\<open>on_disk_plaintext_len(path) as i64\<close>.\<close>

definition plain_len_i64 :: "PathBuf \<Rightarrow> disk \<Rightarrow> int" where
  "plain_len_i64 p d = sint (plain_len p d)"

definition local_file_matches :: "PathBuf \<Rightarrow> Item \<Rightarrow> disk \<Rightarrow> bool" where
  "local_file_matches p it d =
     (case metadata p d of
        None \<Rightarrow> False
      | Some (n, t) \<Rightarrow>
          if it_size it \<noteq> Some (plain_len_i64 p d) then False
          else (case it_remote_mtime it of
                  None \<Rightarrow> False
                | Some rm \<Rightarrow> Option.bind (rfc3339_to_unix rm) epoch_secs = epoch_secs t))"

definition local_file_matches_synced_remote :: "string \<Rightarrow> PathBuf \<Rightarrow> Item \<Rightarrow> 'c drive_world \<Rightarrow> bool" where
  "local_file_matches_synced_remote account p it w =
     (if \<not> local_file_matches p it (dw_disk w) then False
      else (case it_quickxorhash it of
              None \<Rightarrow> True
            | Some remote_hash \<Rightarrow>
                (case get_synced_state account DRIVE (it_remote_id it) (dw_db w) of
                   Some (sz, mt, Some synced_hash) \<Rightarrow> synced_hash = remote_hash
                 | _ \<Rightarrow> False)))"

definition is_local_modified :: "drive_env \<Rightarrow> PathBuf \<Rightarrow> Item \<Rightarrow> disk \<Rightarrow> bool" where
  "is_local_modified env full it d =
     (if metadata full d = None then False
      else if local_file_matches full it d then False
      else if it_size it \<noteq> Some (plain_len_i64 full d) then True
      else (case (it_quickxorhash it, body_at (de_keys env) full d) of
              (Some remote_hash, Some payload) \<Rightarrow> quickxor_base64 payload \<noteq> remote_hash
            | _ \<Rightarrow> False))"

section \<open>Writing files\<close>

definition scratch_path :: "PathBuf \<Rightarrow> PathBuf" where
  "scratch_path p =
     with_extension
       ((case Option.bind (file_name p) (\<lambda>n. snd (stem_ext n)) of Some e \<Rightarrow> e | None \<Rightarrow> []) @ ''.isync-tmp'') p"

definition atomic_write :: "drive_env \<Rightarrow> PathBuf \<Rightarrow> bytes \<Rightarrow> disk \<Rightarrow> bool \<times> disk" where
  "atomic_write env p payload d =
     (case write_file (scratch_path p) (sealed_for_disk (de_keys env) payload) d of
        (False, d) \<Rightarrow> (False, d)
      | (True, d) \<Rightarrow> rename (scratch_path p) p d)"

definition set_file_mtime :: "PathBuf \<Rightarrow> string \<Rightarrow> disk \<Rightarrow> disk" where
  "set_file_mtime p remote_mtime d =
     (case Option.bind (rfc3339_to_unix remote_mtime) epoch_secs of None \<Rightarrow> d | Some s \<Rightarrow> set_modified p s d)"

definition conflict_copy_name :: "string \<Rightarrow> string \<Rightarrow> nat \<Rightarrow> string" where
  "conflict_copy_name fname host n =
     (let (stem, ext) = (case rsplit_dot fname of
          Some (s, e) \<Rightarrow> if s \<noteq> [] then (s, CHR ''.'' # e) else (fname, [])
        | None \<Rightarrow> (fname, []))
      in stem @ ''-'' @ host @ ''-safeBackup-'' @ pad_zeros 4 (show_nat n) @ ext)"

definition unique_conflict_copy :: "PathBuf \<Rightarrow> string \<Rightarrow> string \<Rightarrow> disk \<Rightarrow> string" where
  "unique_conflict_copy dir fname host d =
     (case List.find (\<lambda>name. \<not> path_exists (path_join dir (path_of name)) d)
             (map (conflict_copy_name fname host) [1..<10000]) of
        Some name \<Rightarrow> name
      | None \<Rightarrow> conflict_copy_name fname host 9999)"

text \<open>The directory of a path, with the root it was joined to as the fallback, and its name.\<close>

definition dir_of :: "PathBuf \<Rightarrow> PathBuf \<Rightarrow> PathBuf" where
  "dir_of root p = (case path_parent p of Some q \<Rightarrow> q | None \<Rightarrow> root)"

definition name_of :: "PathBuf \<Rightarrow> string" where
  "name_of p = (case file_name p of Some n \<Rightarrow> n | None \<Rightarrow> ''file'')"

section \<open>Materializing\<close>

record MaterializeReport =
  mr_downloaded :: nat
  mr_dirs_created :: nat
  mr_skipped :: nat
  mr_failed :: nat
  mr_conflicts :: nat
  mr_cancelled :: nat

definition no_downloads :: MaterializeReport where
  "no_downloads = \<lparr>mr_downloaded = 0, mr_dirs_created = 0, mr_skipped = 0, mr_failed = 0, mr_conflicts = 0,
     mr_cancelled = 0\<rparr>"

type_synonym 'c downloader = "string \<Rightarrow> 'c \<Rightarrow> (string + bytes) \<times> 'c"

definition mark_clean :: "string \<Rightarrow> string \<Rightarrow> 'c drive_world \<Rightarrow> 'c drive_world" where
  "mark_clean account i = update_db (\<lambda>db. snd (set_sync_state account DRIVE i ''clean'' db))"

text \<open>A folder, and the three things that can happen to a file: it is already there, a local edit is moved
  aside first, and the body is fetched and written.\<close>

definition materialize_folder ::
  "string \<Rightarrow> string \<Rightarrow> PathBuf \<Rightarrow> MaterializeReport \<times> 'c drive_world \<Rightarrow> MaterializeReport \<times> 'c drive_world" where
  "materialize_folder account i full rw =
     (case rw of (r, w) \<Rightarrow>
        (case on_disk (create_dir_all full) w of
           (True, w) \<Rightarrow> (r\<lparr>mr_dirs_created := mr_dirs_created r + 1\<rparr>, mark_clean account i w)
         | (False, w) \<Rightarrow> (r\<lparr>mr_failed := mr_failed r + 1\<rparr>, w)))"

definition keep_local_edit ::
  "drive_env \<Rightarrow> string \<Rightarrow> PathBuf \<Rightarrow> string \<Rightarrow> string \<Rightarrow> PathBuf \<Rightarrow> MaterializeReport \<times> 'c drive_world
     \<Rightarrow> MaterializeReport \<times> 'c drive_world" where
  "keep_local_edit env account root host i full rw =
     (case rw of (r, w) \<Rightarrow>
        (case get_synced_state account DRIVE i (dw_db w) of
           None \<Rightarrow> (r, w)
         | Some (ssize, smtime, shash) \<Rightarrow>
             if locally_edited_since_sync env full ssize smtime shash (dw_disk w)
             then
               let dir = dir_of root full;
                   copy = unique_conflict_copy dir (name_of full) host (dw_disk w)
               in (case on_disk (rename full (path_join dir (path_of copy))) w of
                     (True, w) \<Rightarrow> (r\<lparr>mr_conflicts := mr_conflicts r + 1\<rparr>, w)
                   | (False, w) \<Rightarrow> (r, w))
             else (r, w)))"

definition download_file ::
  "drive_env \<Rightarrow> 'c downloader \<Rightarrow> string \<Rightarrow> Item \<Rightarrow> PathBuf \<Rightarrow> MaterializeReport \<times> 'c drive_world
     \<Rightarrow> MaterializeReport \<times> 'c drive_world" where
  "download_file env download account it full rw =
     (case rw of (r, w) \<Rightarrow>
        let w = (case path_parent full of Some p \<Rightarrow> snd (on_disk (create_dir_all p) w) | None \<Rightarrow> w)
        in (case on_dcloud (download (it_remote_id it)) w of
              (Inl e, w) \<Rightarrow> (r\<lparr>mr_failed := mr_failed r + 1\<rparr>, w)
            | (Inr payload, w) \<Rightarrow>
                (case on_disk (atomic_write env full payload) w of
                   (False, w) \<Rightarrow> (r\<lparr>mr_failed := mr_failed r + 1\<rparr>, w)
                 | (True, w) \<Rightarrow>
                     let w = (case it_remote_mtime it of
                            Some mt \<Rightarrow> w\<lparr>dw_disk := set_file_mtime full mt (dw_disk w)\<rparr> | None \<Rightarrow> w);
                         w = mark_clean account (it_remote_id it) w;
                         w = record_synced_state account (it_remote_id it) full (Some (quickxor_base64 payload)) w
                     in (r\<lparr>mr_downloaded := mr_downloaded r + 1\<rparr>, w))))"

definition materialize_file ::
  "drive_env \<Rightarrow> 'c downloader \<Rightarrow> string \<Rightarrow> PathBuf \<Rightarrow> string \<Rightarrow> Item \<Rightarrow> PathBuf \<Rightarrow> MaterializeReport \<times> 'c drive_world
     \<Rightarrow> MaterializeReport \<times> 'c drive_world" where
  "materialize_file env download account root host it full rw =
     (case rw of (r, w) \<Rightarrow>
        if local_file_matches_synced_remote account full it w then
          (r\<lparr>mr_skipped := mr_skipped r + 1\<rparr>,
           record_synced_state account (it_remote_id it) full (it_quickxorhash it) (mark_clean account (it_remote_id it) w))
        else download_file env download account it full
               (keep_local_edit env account root host (it_remote_id it) full (r, w)))"

definition materialize_item ::
  "drive_env \<Rightarrow> 'c downloader \<Rightarrow> string \<Rightarrow> PathBuf \<Rightarrow> string \<Rightarrow> (string \<Rightarrow> Item option) \<Rightarrow> bool \<Rightarrow> Item
     \<Rightarrow> MaterializeReport \<times> 'c drive_world \<Rightarrow> MaterializeReport \<times> 'c drive_world" where
  "materialize_item env download account root host m pass_folders it rw =
     (case rw of (r, w) \<Rightarrow>
        let is_folder = (it_item_type it = ''folder'')
        in if is_folder \<noteq> pass_folders \<or> it_sync_state it \<noteq> ''remote_dirty'' then (r, w)
           else (case local_rel_path m it of
                   None \<Rightarrow> (r\<lparr>mr_failed := mr_failed r + 1\<rparr>, w)
                 | Some rel \<Rightarrow>
                     let full = path_join root rel
                     in if is_folder then materialize_folder account (it_remote_id it) full (r, w)
                        else materialize_file env download account root host it full (r, w)))"

definition materialize_downloads ::
  "drive_env \<Rightarrow> 'c downloader \<Rightarrow> string \<Rightarrow> PathBuf \<Rightarrow> string \<Rightarrow> 'c drive_world
     \<Rightarrow> MaterializeReport \<times> 'c drive_world" where
  "materialize_downloads env download account root host w =
     (let its = items_by_service account DRIVE (dw_db w);
          m = by_id its
      in fold (\<lambda>pass rw. fold (materialize_item env download account root host m pass) its rw)
           [True, False] (no_downloads, w))"

section \<open>Remote deletions\<close>

record PendingLocalDelete =
  pd_remote_id :: string
  pd_rel :: PathBuf

definition pending_local_deletes :: "string \<Rightarrow> PathBuf \<Rightarrow> 'c drive_world \<Rightarrow> PendingLocalDelete list" where
  "pending_local_deletes account root w =
     (let its = all_items_by_service account DRIVE (dw_db w);
          m = by_id its
      in List.map_filter (\<lambda>it.
           if it_deleted_at it = None then None
           else (case local_rel_path m it of
                   None \<Rightarrow> None
                 | Some rel \<Rightarrow>
                     if path_exists (path_join root rel) (dw_disk w)
                     then Some \<lparr>pd_remote_id = it_remote_id it, pd_rel = rel\<rparr> else None)) its)"

definition copy_file :: "PathBuf \<Rightarrow> PathBuf \<Rightarrow> disk \<Rightarrow> bool \<times> disk" where
  "copy_file src dst d =
     (case nodes d (resolve src) of Some (File b t) \<Rightarrow> write_file dst b d | _ \<Rightarrow> (False, d))"

fun apply_local_deletes ::
  "PathBuf \<Rightarrow> PathBuf \<Rightarrow> PendingLocalDelete list \<Rightarrow> nat \<Rightarrow> disk \<Rightarrow> (SyncError + nat) \<times> disk" where
  "apply_local_deletes root trash [] n d = (Inr n, d)"
| "apply_local_deletes root trash (x # xs) n d =
     (let src = path_join root (pd_rel x); dst = path_join trash (pd_rel x)
      in if \<not> path_exists src d then apply_local_deletes root trash xs n d
         else (case (case path_parent dst of Some p \<Rightarrow> create_dir_all p d | None \<Rightarrow> (True, d)) of
                 (False, d) \<Rightarrow> (Inl Io, d)
               | (True, d) \<Rightarrow>
                   (case rename src dst d of
                      (True, d) \<Rightarrow> apply_local_deletes root trash xs (Suc n) d
                    | (False, d) \<Rightarrow>
                        if is_file src d then
                          (case copy_file src dst d of
                             (False, d) \<Rightarrow> (Inl Io, d)
                           | (True, d) \<Rightarrow>
                               (case remove_file src d of
                                  (False, d) \<Rightarrow> (Inl Io, d)
                                | (True, d) \<Rightarrow> apply_local_deletes root trash xs (Suc n) d))
                        else (Inl Io, d))))"

section \<open>Scanning the disk\<close>

definition ends_with :: "string \<Rightarrow> string \<Rightarrow> bool" where
  "ends_with s e \<longleftrightarrow> length e \<le> length s \<and> drop (length s - length e) s = e"

text \<open>One directory: the directories in it are pushed, the files collected. Directories form a tree, so that
  one round per path is enough.\<close>

definition scan_dir :: "PathBuf \<Rightarrow> disk \<Rightarrow> PathBuf list \<Rightarrow> PathBuf list \<Rightarrow> PathBuf list \<times> PathBuf list" where
  "scan_dir dir d stack out =
     fold (\<lambda>name (stack, out).
         let p = path_join dir (False, [name])
         in if nodes d (resolve p) = Some Dir then (stack @ [p], out)
            else if is_file p d \<and> \<not> ends_with name ''.isync-tmp'' then (stack, out @ [p])
            else (stack, out))
       (read_dir dir d) (stack, out)"

fun walk_stack :: "nat \<Rightarrow> disk \<Rightarrow> PathBuf list \<Rightarrow> PathBuf list \<Rightarrow> PathBuf list" where
  "walk_stack 0 d stack out = out"
| "walk_stack (Suc n) d stack out =
     (if stack = [] then out
      else case scan_dir (last stack) d (butlast stack) out of (stack', out') \<Rightarrow> walk_stack n d stack' out')"

definition walk_local_files :: "PathBuf \<Rightarrow> disk \<Rightarrow> PathBuf list" where
  "walk_local_files root d = walk_stack (Suc (length (entries d))) d [root] []"

definition strip_prefix :: "PathBuf \<Rightarrow> PathBuf \<Rightarrow> PathBuf option" where
  "strip_prefix base p = (if path_starts_with p base then Some (False, drop (length (snd base)) (snd p)) else None)"

definition scan_local_creates :: "string \<Rightarrow> PathBuf \<Rightarrow> 'c drive_world \<Rightarrow> PathBuf list" where
  "scan_local_creates account root w =
     (let its = all_items_by_service account DRIVE (dw_db w);
          m = by_id its;
          tracked = List.map_filter (\<lambda>it. if it_deleted_at it \<noteq> None then None else local_rel_path m it) its
      in filter (\<lambda>rel. rel \<notin> set tracked)
           (List.map_filter (strip_prefix root) (walk_local_files root (dw_disk w))))"

definition scan_local_deletes :: "string \<Rightarrow> PathBuf \<Rightarrow> 'c drive_world \<Rightarrow> string list" where
  "scan_local_deletes account root w =
     (let its = all_items_by_service account DRIVE (dw_db w);
          m = by_id its
      in List.map_filter (\<lambda>it.
           if it_deleted_at it \<noteq> None \<or> it_item_type it \<noteq> ''file'' \<or> it_sync_state it \<noteq> ''clean'' then None
           else if \<not> (it_content_state it = None \<or> it_content_state it = Some ''materialized'') then None
           else (case local_rel_path m it of
                   None \<Rightarrow> None
                 | Some rel \<Rightarrow>
                     if path_exists (path_join root rel) (dw_disk w) then None else Some (it_remote_id it))) its)"

definition scan_local_modifies :: "drive_env \<Rightarrow> string \<Rightarrow> PathBuf \<Rightarrow> 'c drive_world \<Rightarrow> (string \<times> PathBuf \<times> string) list" where
  "scan_local_modifies env account root w =
     (let its = all_items_by_service account DRIVE (dw_db w);
          m = by_id its
      in List.map_filter (\<lambda>it.
           if it_deleted_at it \<noteq> None \<or> it_item_type it \<noteq> ''file'' then None
           else (case local_rel_path m it of
                   None \<Rightarrow> None
                 | Some rel \<Rightarrow>
                     if is_local_modified env (path_join root rel) it (dw_disk w)
                     then map_option (\<lambda>etag. (it_remote_id it, rel, etag)) (it_etag it) else None)) its)"

section \<open>Pushing local changes\<close>

record 'c remote_writer =
  rw_upload_resumable :: "string \<Rightarrow> string \<Rightarrow> bytes \<Rightarrow> item_db \<times> 'c \<Rightarrow> (string + json) \<times> item_db \<times> 'c"
  rw_delete :: "string \<Rightarrow> 'c \<Rightarrow> (string + unit) \<times> 'c"
  rw_set_mtime :: "string \<Rightarrow> string \<Rightarrow> 'c \<Rightarrow> (string + json) \<times> 'c"

record 'c content_replacer =
  cr_replace_if_match :: "string \<Rightarrow> bytes \<Rightarrow> string \<Rightarrow> 'c \<Rightarrow> (string + json option) \<times> 'c"
  cr_set_mtime :: "string \<Rightarrow> string \<Rightarrow> 'c \<Rightarrow> (string + json) \<times> 'c"

definition remote :: "(string + 'a) \<times> 'c drive_world \<Rightarrow> (SyncError + 'a) \<times> 'c drive_world" where
  "remote r = (map_sum Remote id (fst r), snd r)"

definition upload_through ::
  "'c remote_writer \<Rightarrow> string \<Rightarrow> string \<Rightarrow> bytes \<Rightarrow> 'c drive_world \<Rightarrow> (string + json) \<times> 'c drive_world" where
  "upload_through writer account dest payload w =
     (case rw_upload_resumable writer account dest payload (dw_db w, dw_cloud w) of
        (r, db, c) \<Rightarrow> (r, w\<lparr>dw_db := db, dw_cloud := c\<rparr>))"

definition push_upload ::
  "drive_env \<Rightarrow> 'c remote_writer \<Rightarrow> string \<Rightarrow> string \<Rightarrow> bytes \<Rightarrow> int option \<Rightarrow> 'c drive_world
     \<Rightarrow> (SyncError + string) \<times> 'c drive_world" where
  "push_upload env writer account dest payload mtime w =
     try_then (remote (upload_through writer account dest payload w)) (\<lambda>item w.
     case get_str ''id'' item of
       None \<Rightarrow> (Inl (Malformed ''upload response had no id''), w)
     | Some i \<Rightarrow>
         try_then
           (case mtime of
              None \<Rightarrow> (Inr item, w)
            | Some secs \<Rightarrow>
                try_then (remote (on_dcloud (rw_set_mtime writer i (unix_to_rfc3339 secs)) w)) (\<lambda>updated w.
                (Inr (if updated = JNull then item else updated), w)))
           (\<lambda>to_ingest w.
              try_then (ingest_item env account to_ingest [] ''clean'' None w) (\<lambda>_ w. (Inr i, w))))"

definition push_delete ::
  "'c remote_writer \<Rightarrow> string \<Rightarrow> string \<Rightarrow> string \<Rightarrow> 'c drive_world \<Rightarrow> (SyncError + unit) \<times> 'c drive_world" where
  "push_delete writer account i now w =
     try_then (remote (on_dcloud (rw_delete writer i) w)) (\<lambda>_ w.
     (Inr (), update_db (\<lambda>db. snd (mark_deleted account DRIVE i now db)) w))"

definition cloud_dest_path :: "PathBuf \<Rightarrow> string" where
  "cloud_dest_path rel =
     concat (map (\<lambda>c. if c = ''..'' then [] else CHR ''/'' # utf8_encode (to_cloud (utf8_decode c))) (snd rel))"

fun push_local_creates ::
  "drive_env \<Rightarrow> 'c remote_writer \<Rightarrow> string \<Rightarrow> PathBuf \<Rightarrow> PathBuf list \<Rightarrow> nat \<Rightarrow> 'c drive_world
     \<Rightarrow> (SyncError + nat) \<times> 'c drive_world" where
  "push_local_creates env writer account root [] uploaded w = (Inr uploaded, w)"
| "push_local_creates env writer account root (rel # rels) uploaded w =
     (let full = path_join root rel
      in case body_at (de_keys env) full (dw_disk w) of
           None \<Rightarrow> (Inl Io, w)
         | Some payload \<Rightarrow>
             try_then
               (push_upload env writer account (cloud_dest_path rel) payload (local_mtime_secs full (dw_disk w)) w)
               (\<lambda>i w. push_local_creates env writer account root rels (Suc uploaded)
                  (record_synced_state account i full (Some (quickxor_base64 payload)) w)))"

record ModifyReport =
  mo_uploaded :: nat
  mo_conflicts :: nat
  mo_failed :: nat

text \<open>The item to ingest after a replacement: the one with the corrected time when that call succeeded.\<close>

definition corrected_item ::
  "'c content_replacer \<Rightarrow> string \<Rightarrow> json \<Rightarrow> int option \<Rightarrow> 'c drive_world \<Rightarrow> json \<times> 'c drive_world" where
  "corrected_item replacer i item mtime w =
     (case mtime of
        None \<Rightarrow> (item, w)
      | Some secs \<Rightarrow>
          (case on_dcloud (cr_set_mtime replacer i (unix_to_rfc3339 secs)) w of
             (Inl e, w) \<Rightarrow> (item, w)
           | (Inr updated, w) \<Rightarrow> (if updated = JNull then item else updated, w)))"

definition move_edit_aside ::
  "string \<Rightarrow> PathBuf \<Rightarrow> string \<Rightarrow> string \<Rightarrow> PathBuf \<Rightarrow> ModifyReport \<Rightarrow> 'c drive_world \<Rightarrow> ModifyReport \<times> 'c drive_world" where
  "move_edit_aside account root host i rel r w =
     (let src = path_join root rel;
          dir = dir_of root src;
          copy = unique_conflict_copy dir (name_of rel) host (dw_disk w)
      in case on_disk (rename src (path_join dir (path_of copy))) w of
           (True, w) \<Rightarrow>
             (r\<lparr>mo_conflicts := mo_conflicts r + 1\<rparr>,
              update_db (\<lambda>db. set_conflict_state account DRIVE i (Some copy)
                (snd (set_sync_state account DRIVE i ''remote_dirty'' db))) w)
         | (False, w) \<Rightarrow> (r\<lparr>mo_failed := mo_failed r + 1\<rparr>, w))"

fun apply_local_modifies ::
  "drive_env \<Rightarrow> 'c content_replacer \<Rightarrow> string \<Rightarrow> PathBuf \<Rightarrow> string \<Rightarrow> (string \<times> PathBuf \<times> string) list \<Rightarrow> ModifyReport
     \<Rightarrow> 'c drive_world \<Rightarrow> (SyncError + ModifyReport) \<times> 'c drive_world" where
  "apply_local_modifies env replacer account root host [] r w = (Inr r, w)"
| "apply_local_modifies env replacer account root host ((i, rel, etag) # ms) r w =
     (case body_at (de_keys env) (path_join root rel) (dw_disk w) of
        None \<Rightarrow> apply_local_modifies env replacer account root host ms (r\<lparr>mo_failed := mo_failed r + 1\<rparr>) w
      | Some payload \<Rightarrow>
          (case on_dcloud (cr_replace_if_match replacer i payload etag) w of
             (Inl e, w) \<Rightarrow> apply_local_modifies env replacer account root host ms (r\<lparr>mo_failed := mo_failed r + 1\<rparr>) w
           | (Inr None, w) \<Rightarrow>
               (case move_edit_aside account root host i rel r w of
                  (r, w) \<Rightarrow> apply_local_modifies env replacer account root host ms r w)
           | (Inr (Some item), w) \<Rightarrow>
               (case corrected_item replacer i item (local_mtime_secs (path_join root rel) (dw_disk w)) w of
                  (to_ingest, w) \<Rightarrow>
                    try_then (ingest_item env account to_ingest [] ''clean'' None w) (\<lambda>_ w.
                    apply_local_modifies env replacer account root host ms (r\<lparr>mo_uploaded := mo_uploaded r + 1\<rparr>)
                      (record_synced_state account i (path_join root rel) (Some (quickxor_base64 payload)) w)))))"

section \<open>Resolving a conflict\<close>

datatype ConflictResolution = KeepBoth | KeepMine | KeepCloud

definition parse_resolution :: "string \<Rightarrow> ConflictResolution option" where
  "parse_resolution s =
     (if s = ''keep-both'' then Some KeepBoth else if s = ''keep-mine'' then Some KeepMine
      else if s = ''keep-cloud'' then Some KeepCloud else None)"

definition malformed :: "(string + 'a) \<times> 'c drive_world \<Rightarrow> (SyncError + 'a) \<times> 'c drive_world" where
  "malformed r = (map_sum Malformed id (fst r), snd r)"

definition resolve_conflict ::
  "string \<Rightarrow> string \<Rightarrow> ConflictResolution \<Rightarrow> PathBuf \<Rightarrow> 'c remote_writer \<Rightarrow> 'c drive_world
     \<Rightarrow> (SyncError + unit) \<times> 'c drive_world" where
  "resolve_conflict account i resolution root writer w =
     (let m = by_id (items_by_service account DRIVE (dw_db w))
      in case m i of
           None \<Rightarrow> (Inl (Malformed (''resolve: unknown item '' @ i)), w)
         | Some it \<Rightarrow>
             (case it_conflict_state it of
                None \<Rightarrow> (Inl (Malformed (''resolve: no conflict on '' @ i)), w)
              | Some copy \<Rightarrow>
                  (case local_rel_path m it of
                     None \<Rightarrow> (Inl (Malformed ''resolve: no local path''), w)
                   | Some rel \<Rightarrow>
                       let full = path_join root rel;
                           copy_path = path_join (dir_of root full) (path_of copy);
                           clear = update_db (set_conflict_state account DRIVE i None)
                       in (case resolution of
                             KeepBoth \<Rightarrow> (Inr (), clear w)
                           | KeepMine \<Rightarrow>
                               try_then (malformed (on_dcloud (rw_delete writer i) w)) (\<lambda>_ w.
                               case on_disk (rename copy_path full) (snd (on_disk (remove_file full) w)) of
                                 (True, w) \<Rightarrow> (Inr (), clear w)
                               | (False, w) \<Rightarrow> (Inl (Malformed ''rename''), w))
                           | KeepCloud \<Rightarrow> (Inr (), clear (snd (on_disk (remove_file copy_path) w)))))))"

end
