(* ===== verification/Sync_Policies.thy ===== *)
theory Sync_Policies
  imports Text_Ops BTree_Map Complex_Main
begin

text \<open>
  The pure decisions of a synchronisation pass: what two diverging changes mean and how a conflict is
  resolved (\<^verbatim>\<open>core/src/conflict.rs\<close>), whether a batch of deletions may go ahead (\<^verbatim>\<open>guard.rs\<close>), whether a
  transfer may start (\<^verbatim>\<open>policy.rs\<close>), which mode a folder is in (\<^verbatim>\<open>onedrive_mode.rs\<close>) and which scope owns
  an item (\<^verbatim>\<open>connectors/src/scope.rs\<close>), and the health of an account (\<^verbatim>\<open>recovery.rs\<close>).
\<close>

section \<open>Conflicts\<close>

datatype Change = Unchanged | Created | ContentEdited | Renamed string | Deleted | TypeChanged

datatype ConflictKind =
    ContentContent
  | RenameRename
  | RenameDelete
  | EditDelete
  | FileFolderType
  | UploadPreconditionFailed
  | DownloadChangedDuringTransfer

datatype Resolution =
    KeepLocal
  | TakeRemote
  | KeepBothAs string
  | FixTimestampOnly
  | Reevaluate
  | SkipConflict

record ConflictPolicy =
  headless :: bool
  cp_host :: string

fun classify :: "Change \<Rightarrow> Change \<Rightarrow> ConflictKind option" where
  "classify Unchanged r = None"
| "classify l Unchanged = None"
| "classify Deleted Deleted = None"
| "classify TypeChanged r = Some FileFolderType"
| "classify l TypeChanged = Some FileFolderType"
| "classify ContentEdited ContentEdited = Some ContentContent"
| "classify Created Created = Some ContentContent"
| "classify ContentEdited Deleted = Some EditDelete"
| "classify Deleted ContentEdited = Some EditDelete"
| "classify (Renamed a) (Renamed b) = (if a = b then None else Some RenameRename)"
| "classify (Renamed a) Deleted = Some RenameDelete"
| "classify Deleted (Renamed b) = Some RenameDelete"
| "classify (Renamed a) ContentEdited = None"
| "classify ContentEdited (Renamed b) = None"
| "classify Created r = None"
| "classify l Created = None"

fun resolve_kind :: "ConflictKind \<Rightarrow> ConflictPolicy \<Rightarrow> Resolution" where
  "resolve_kind UploadPreconditionFailed p = Reevaluate"
| "resolve_kind DownloadChangedDuringTransfer p = Reevaluate"
| "resolve_kind k p = (if headless p then KeepBothAs [] else SkipConflict)"

text \<open>\<^verbatim>\<open>rfind('.')\<close>: a dot at the start or at the end does not make an extension.\<close>

definition last_dot :: "string \<Rightarrow> nat option" where
  "last_dot s = (if CHR ''.'' \<in> set s then Some (length s - 1 - length (takeWhile (\<lambda>c. c \<noteq> CHR ''.'') (rev s))) else None)"

definition split_name :: "string \<Rightarrow> string \<times> string" where
  "split_name s =
     (case last_dot s of
        Some i \<Rightarrow> if 0 < i \<and> i < length s - 1 then (take i s, drop i s) else (s, [])
      | None \<Rightarrow> (s, []))"

definition backup_name :: "string \<Rightarrow> string \<Rightarrow> nat \<Rightarrow> string" where
  "backup_name original host n =
     (case split_name original of (stem, ext) \<Rightarrow>
        stem @ ''-'' @ host @ ''-safeBackup-'' @ pad_zeros 4 (show_nat n) @ ext)"

datatype Versus = Identical | LocalNewer | RemoteNewer | Diverged

definition compare_versions :: "string option \<Rightarrow> string option \<Rightarrow> int \<Rightarrow> int \<Rightarrow> Versus" where
  "compare_versions local_hash remote_hash local_mtime remote_mtime =
     (if local_hash \<noteq> None \<and> local_hash = remote_hash then Identical
      else if local_mtime > remote_mtime then LocalNewer
      else if local_mtime < remote_mtime then RemoteNewer
      else Diverged)"

section \<open>The mass-delete guard\<close>

datatype Direction = LocalToCloud | CloudToLocal

definition show_direction :: "Direction \<Rightarrow> string" where
  "show_direction d =
     (case d of LocalToCloud \<Rightarrow> ''local'' @ seq [0xE2, 0x86, 0x92] @ ''cloud''
              | CloudToLocal \<Rightarrow> ''cloud'' @ seq [0xE2, 0x86, 0x92] @ ''local'')"

record DeleteGuard =
  max_absolute :: nat
  max_fraction :: rat
  fraction_min_total :: nat

definition default_guard :: DeleteGuard where
  "default_guard = \<lparr>max_absolute = 1000, max_fraction = 1 / 2, fraction_min_total = 10\<rparr>"

datatype GuardVerdict = Proceed | Block string

text \<open>Double precision: the nearest double of a number, and how a percentage is printed. A quotient by zero
  is infinite, which is at or above every limit.\<close>

record f64 =
  nearest :: "rat \<Rightarrow> rat"
  percent :: "rat option \<Rightarrow> string"

definition f64_quotient :: "f64 \<Rightarrow> nat \<Rightarrow> nat \<Rightarrow> rat option" where
  "f64_quotient fp a b =
     (if b = 0 then None else Some (nearest fp (nearest fp (of_nat a) / nearest fp (of_nat b))))"

definition confirm_text :: string where
  "confirm_text = '' '' @ seq [0xE2, 0x80, 0x94] @ '' confirm to proceed''"

definition guard_evaluate :: "f64 \<Rightarrow> DeleteGuard \<Rightarrow> nat \<Rightarrow> nat \<Rightarrow> Direction \<Rightarrow> GuardVerdict" where
  "guard_evaluate fp g destructive total_tracked direction =
     (if destructive = 0 then Proceed
      else if destructive \<ge> max_absolute g then
        Block (show_direction direction @ '': '' @ show_nat destructive
          @ '' destructive operations reach the absolute limit of '' @ show_nat (max_absolute g) @ confirm_text)
      else if total_tracked \<ge> fraction_min_total g then
        (let fraction = f64_quotient fp destructive total_tracked
         in if fraction = None \<or> the fraction \<ge> max_fraction g then
              Block (show_direction direction @ '': '' @ show_nat destructive @ ''/'' @ show_nat total_tracked
                @ '' items ('' @ percent fp (map_option (\<lambda>q. nearest fp (q * 100)) fraction)
                @ ''%) would be removed, at or above the ''
                @ percent fp (Some (nearest fp (max_fraction g * 100))) @ ''% limit'' @ confirm_text)
            else Proceed)
      else Proceed)"

section \<open>The transfer policy\<close>

record SyncConfig =
  delete_guard :: DeleteGuard
  wifi_only :: bool
  charging_only :: bool
  min_free_bytes :: nat

record DeviceState =
  metered :: bool
  charging :: bool
  free_bytes :: nat

datatype PolicyBlock = StorageFloor | MeteredNetwork | NotCharging

datatype PolicyDecision = Allowed | Blocked PolicyBlock

fun is_allowed :: "PolicyDecision \<Rightarrow> bool" where
  "is_allowed Allowed = True"
| "is_allowed (Blocked b) = False"

fun policy_reason :: "PolicyDecision \<Rightarrow> string" where
  "policy_reason Allowed = ''allowed''"
| "policy_reason (Blocked StorageFloor) = ''storage_floor''"
| "policy_reason (Blocked MeteredNetwork) = ''metered_network''"
| "policy_reason (Blocked NotCharging) = ''not_charging''"

definition always_on :: "nat \<Rightarrow> DeviceState" where
  "always_on n = \<lparr>metered = False, charging = True, free_bytes = n\<rparr>"

definition evaluate :: "SyncConfig \<Rightarrow> DeviceState \<Rightarrow> PolicyDecision" where
  "evaluate cfg st =
     (if free_bytes st < min_free_bytes cfg then Blocked StorageFloor
      else if wifi_only cfg \<and> metered st then Blocked MeteredNetwork
      else if charging_only cfg \<and> \<not> charging st then Blocked NotCharging
      else Allowed)"

section \<open>Modes of folders and scopes\<close>

datatype OneDriveMode = Online | Sync | Offline

definition is_default :: "OneDriveMode \<Rightarrow> bool" where
  "is_default m \<longleftrightarrow> m = Online"

primrec mode_as_str :: "OneDriveMode \<Rightarrow> string" where
  "mode_as_str Online = ''online''"
| "mode_as_str Sync = ''sync''"
| "mode_as_str Offline = ''offline''"

record OneDriveModes =
  default_mode :: OneDriveMode
  folder_modes :: "(string, OneDriveMode) btree"

definition default_modes :: OneDriveModes where
  "default_modes = \<lparr>default_mode = Online, folder_modes = []\<rparr>"

fun inherited_mode :: "(string, OneDriveMode) btree \<Rightarrow> OneDriveMode \<Rightarrow> string list \<Rightarrow> OneDriveMode" where
  "inherited_mode m d [] = d"
| "inherited_mode m d (pid # pids) = (case map_of m pid of Some x \<Rightarrow> x | None \<Rightarrow> inherited_mode m d pids)"

definition effective_mode :: "string \<Rightarrow> string list \<Rightarrow> OneDriveModes \<Rightarrow> OneDriveMode" where
  "effective_mode folder_id ancestry ms =
     (case map_of (folder_modes ms) folder_id of
        Some x \<Rightarrow> x
      | None \<Rightarrow> inherited_mode (folder_modes ms) (default_mode ms) ancestry)"

definition prune :: "string set \<Rightarrow> OneDriveModes \<Rightarrow> nat \<times> OneDriveModes" where
  "prune live ms =
     (let kept = filter (\<lambda>e. fst e \<in> live) (folder_modes ms)
      in (length (folder_modes ms) - length kept, ms\<lparr>folder_modes := kept\<rparr>))"

definition validation_errors :: "string \<Rightarrow> OneDriveModes \<Rightarrow> string list" where
  "validation_errors who ms =
     map (\<lambda>k. who @ '': empty folder_modes key'') (filter (\<lambda>k. trim_text k = []) (map fst (folder_modes ms)))"

datatype Mode = OnlineMode | SyncMode | OfflineMode

primrec runtime_mode :: "OneDriveMode \<Rightarrow> Mode" where
  "runtime_mode Online = OnlineMode"
| "runtime_mode Sync = SyncMode"
| "runtime_mode Offline = OfflineMode"

record FolderScope =
  fs_folder_id :: string
  fs_mode :: Mode

definition owning_scope :: "string list \<Rightarrow> string set \<Rightarrow> string option" where
  "owning_scope ancestry active = List.find (\<lambda>i. i \<in> active) ancestry"

definition scopes_from_modes :: "OneDriveModes option \<Rightarrow> FolderScope list" where
  "scopes_from_modes ms =
     (case ms of
        None \<Rightarrow> []
      | Some m \<Rightarrow> map (\<lambda>(i, x). \<lparr>fs_folder_id = i, fs_mode = runtime_mode x\<rparr>)
                    (filter (\<lambda>(i, x). x \<noteq> Online) (folder_modes m)))"

section \<open>The self-check\<close>

record SelfCheck =
  token_valid :: bool
  db_ok :: bool
  sc_free_bytes :: nat
  sc_min_free_bytes :: nat
  last_sync_age_secs :: "int option"
  max_sync_age_secs :: int

definition show_int :: "int \<Rightarrow> string" where
  "show_int i = (if i < 0 then CHR ''-'' # show_nat (nat (- i)) else show_nat (nat i))"

datatype HealthStatus = Green | Yellow "string list" | Red "string list"

definition red_flags :: "SelfCheck \<Rightarrow> string list" where
  "red_flags c =
     (if \<not> token_valid c then [''auth token invalid or expired''] else [])
     @ (if \<not> db_ok c then [''store database not healthy''] else [])
     @ (if sc_free_bytes c < sc_min_free_bytes c
        then [''low disk space: '' @ show_nat (sc_free_bytes c) @ '' bytes free, need '' @ show_nat (sc_min_free_bytes c)]
        else [])"

definition yellow_flags :: "SelfCheck \<Rightarrow> string list" where
  "yellow_flags c =
     (case last_sync_age_secs c of
        None \<Rightarrow> [''no successful sync yet'']
      | Some age \<Rightarrow>
          if age > max_sync_age_secs c
          then [''last sync '' @ show_int age @ ''s ago exceeds '' @ show_int (max_sync_age_secs c) @ ''s''] else [])"

definition self_check :: "SelfCheck \<Rightarrow> HealthStatus" where
  "self_check c =
     (if red_flags c \<noteq> [] then Red (red_flags c)
      else if yellow_flags c \<noteq> [] then Yellow (yellow_flags c) else Green)"

end
