(* ===== verification/Sync_Pass.thy ===== *)
theory Sync_Pass
  imports Drive_Files Sync_Policies
begin

text \<open>
  One full pass of the desktop (\<^verbatim>\<open>sync_once\<close> in \<^verbatim>\<open>engine/src/lib.rs\<close>): ingest the delta, materialize what is
  dirty, mirror remote deletions under the mass-delete guard, then push local creations, edits and
  deletions. The client is the transport, the downloader and the writers of the connector.
\<close>

section \<open>Configuration and report\<close>

record AccountConfig =
  ac_id :: string
  ac_sync_root :: PathBuf
  ac_archive_root :: PathBuf
  ac_cache_root :: PathBuf

record Config =
  cfg_accounts :: "AccountConfig list"
  cfg_sync :: SyncConfig
  cfg_onedrive_modes :: "(string, OneDriveModes) btree"

record 'c drive_client =
  dc_transport :: "'c transport"
  dc_download :: "'c downloader"
  dc_writer :: "'c remote_writer"
  dc_replacer :: "'c content_replacer"

record PassReport =
  pr_upserted :: nat
  pr_deleted :: nat
  pr_skipped :: nat
  pr_resynced :: bool
  pr_downloaded :: nat
  pr_dirs_created :: nat
  pr_materialize_failed :: nat
  pr_materialize_cancelled :: nat
  pr_local_trashed :: nat
  pr_local_delete_blocked :: "string option"
  pr_uploaded_creates :: nat
  pr_modified_uploaded :: nat
  pr_modified_conflicts :: nat
  pr_modified_failed :: nat
  pr_cloud_deleted :: nat
  pr_cloud_delete_blocked :: "string option"

definition no_pass :: PassReport where
  "no_pass = \<lparr>pr_upserted = 0, pr_deleted = 0, pr_skipped = 0, pr_resynced = False, pr_downloaded = 0,
     pr_dirs_created = 0, pr_materialize_failed = 0, pr_materialize_cancelled = 0, pr_local_trashed = 0,
     pr_local_delete_blocked = None, pr_uploaded_creates = 0, pr_modified_uploaded = 0, pr_modified_conflicts = 0,
     pr_modified_failed = 0, pr_cloud_deleted = 0, pr_cloud_delete_blocked = None\<rparr>"

definition counted :: "string \<Rightarrow> nat \<Rightarrow> string" where
  "counted what n = (if n > 0 then '' ('' @ show_nat n @ '' '' @ what @ '')'' else [])"

definition held :: "string \<Rightarrow> string option \<Rightarrow> string" where
  "held what r = (case r of None \<Rightarrow> [] | Some reason \<Rightarrow> '' ['' @ what @ '' deletes held: '' @ reason @ '']'')"

definition summary :: "PassReport \<Rightarrow> string" where
  "summary r =
     ''sync: '' @ show_nat (pr_upserted r) @ '' upserted, '' @ show_nat (pr_deleted r) @ '' deleted, ''
     @ show_nat (pr_skipped r) @ '' skipped'' @ (if pr_resynced r then '' (full resync)'' else []) @ ''; ''
     @ show_nat (pr_downloaded r) @ '' downloaded, '' @ show_nat (pr_local_trashed r) @ '' trashed; ''
     @ show_nat (pr_uploaded_creates r) @ '' created, '' @ show_nat (pr_modified_uploaded r) @ '' modified, ''
     @ show_nat (pr_cloud_deleted r) @ '' cloud-deleted up''
     @ counted ''conflict copies'' (pr_modified_conflicts r) @ counted ''cancelled'' (pr_materialize_cancelled r)
     @ held ''local'' (pr_local_delete_blocked r) @ held ''cloud'' (pr_cloud_delete_blocked r)"

text \<open>Why a pass ends early: the account is not configured, or a step failed.\<close>

datatype PassError = NoAccount string | StepFailed SyncError | StepText string

type_synonym 'c pass_step = "PassReport \<times> 'c drive_world \<Rightarrow> (PassError + PassReport) \<times> 'c drive_world"

definition then_step ::
  "(PassError + PassReport) \<times> 'c drive_world \<Rightarrow> 'c pass_step \<Rightarrow> (PassError + PassReport) \<times> 'c drive_world" where
  "then_step r f = (case r of (Inl e, w) \<Rightarrow> (Inl e, w) | (Inr out, w) \<Rightarrow> f (out, w))"

text \<open>\<^verbatim>\<open>map_err(|e| e.to_string())?\<close>, and what the step adds to the report.\<close>

definition reported ::
  "(SyncError + 'a) \<times> 'c drive_world \<Rightarrow> ('a \<Rightarrow> PassReport) \<Rightarrow> (PassError + PassReport) \<times> 'c drive_world" where
  "reported r f = (map_sum StepFailed f (fst r), snd r)"

definition find_account :: "Config \<Rightarrow> string \<Rightarrow> AccountConfig option" where
  "find_account cfg account = List.find (\<lambda>a. ac_id a = account) (cfg_accounts cfg)"

definition trash_root :: "AccountConfig \<Rightarrow> PathBuf" where
  "trash_root acc = path_join (ac_archive_root acc) (path_of ''.isyncyou-trash'')"

section \<open>The steps\<close>

definition ingested :: "SyncReport \<Rightarrow> PassReport \<Rightarrow> PassReport" where
  "ingested ing out = out\<lparr>pr_upserted := sr_upserted ing, pr_deleted := sr_deleted ing, pr_skipped := sr_skipped ing,
     pr_resynced := sr_resynced ing\<rparr>"

definition materialized :: "MaterializeReport \<Rightarrow> PassReport \<Rightarrow> PassReport" where
  "materialized m out = out\<lparr>pr_downloaded := mr_downloaded m, pr_dirs_created := mr_dirs_created m,
     pr_materialize_failed := mr_failed m, pr_materialize_cancelled := mr_cancelled m, pr_modified_conflicts := mr_conflicts m\<rparr>"

definition trash_step :: "f64 \<Rightarrow> DeleteGuard \<Rightarrow> string \<Rightarrow> PathBuf \<Rightarrow> PathBuf \<Rightarrow> 'c pass_step" where
  "trash_step fp g account sroot trash ow =
     (case ow of (out, w) \<Rightarrow>
        let pending = pending_local_deletes account sroot w
        in if pending = [] then (Inr out, w)
           else (case guard_evaluate fp g (length pending)
                        (count_by_service account DRIVE (dw_db w) + length pending) CloudToLocal of
                   Block reason \<Rightarrow> (Inr (out\<lparr>pr_local_delete_blocked := Some reason\<rparr>), w)
                 | Proceed \<Rightarrow>
                     reported (on_disk (apply_local_deletes sroot trash pending 0) w)
                       (\<lambda>n. out\<lparr>pr_local_trashed := n\<rparr>)))"

definition create_step :: "drive_env \<Rightarrow> 'c remote_writer \<Rightarrow> string \<Rightarrow> PathBuf \<Rightarrow> 'c pass_step" where
  "create_step env writer account sroot ow =
     (case ow of (out, w) \<Rightarrow>
        let creates = scan_local_creates account sroot w
        in if creates = [] then (Inr out, w)
           else reported (push_local_creates env writer account sroot creates 0 w) (\<lambda>n. out\<lparr>pr_uploaded_creates := n\<rparr>))"

definition modify_step :: "drive_env \<Rightarrow> 'c content_replacer \<Rightarrow> string \<Rightarrow> PathBuf \<Rightarrow> string \<Rightarrow> 'c pass_step" where
  "modify_step env replacer account sroot host ow =
     (case ow of (out, w) \<Rightarrow>
        let modifies = scan_local_modifies env account sroot w
        in if modifies = [] then (Inr out, w)
           else reported
                  (apply_local_modifies env replacer account sroot host modifies
                     \<lparr>mo_uploaded = 0, mo_conflicts = 0, mo_failed = 0\<rparr> w)
                  (\<lambda>mr. out\<lparr>pr_modified_uploaded := mo_uploaded mr,
                     pr_modified_conflicts := pr_modified_conflicts out + mo_conflicts mr,
                     pr_modified_failed := mo_failed mr\<rparr>))"

fun push_deletes :: "'c remote_writer \<Rightarrow> string \<Rightarrow> string \<Rightarrow> string list \<Rightarrow> 'c pass_step" where
  "push_deletes writer account now [] (out, w) = (Inr out, w)"
| "push_deletes writer account now (i # ids) (out, w) =
     then_step
       (reported (push_delete writer account i now w) (\<lambda>_. out\<lparr>pr_cloud_deleted := pr_cloud_deleted out + 1\<rparr>))
       (push_deletes writer account now ids)"

definition delete_step :: "f64 \<Rightarrow> DeleteGuard \<Rightarrow> 'c remote_writer \<Rightarrow> string \<Rightarrow> string \<Rightarrow> PathBuf \<Rightarrow> 'c pass_step" where
  "delete_step fp g writer account now sroot ow =
     (case ow of (out, w) \<Rightarrow>
        let ids = scan_local_deletes account sroot w
        in if ids = [] then (Inr out, w)
           else (case guard_evaluate fp g (length ids) (count_by_service account DRIVE (dw_db w)) LocalToCloud of
                   Block reason \<Rightarrow> (Inr (out\<lparr>pr_cloud_delete_blocked := Some reason\<rparr>), w)
                 | Proceed \<Rightarrow> push_deletes writer account now ids (out, w)))"

text \<open>What follows the ingest: materializing and the four mirroring steps.\<close>

definition mirror ::
  "drive_env \<Rightarrow> f64 \<Rightarrow> Config \<Rightarrow> AccountConfig \<Rightarrow> 'c drive_client \<Rightarrow> string \<Rightarrow> string \<Rightarrow> string \<Rightarrow> 'c pass_step" where
  "mirror env fp cfg acc client account host now ow =
     (case ow of (out, w) \<Rightarrow>
        let sroot = ac_sync_root acc; g = delete_guard (cfg_sync cfg)
        in case materialize_downloads env (dc_download client) account sroot host w of
             (m, w) \<Rightarrow>
               then_step (then_step (then_step
                 (trash_step fp g account sroot (trash_root acc) (materialized m out, w))
                 (create_step env (dc_writer client) account sroot))
                 (modify_step env (dc_replacer client) account sroot host))
                 (delete_step fp g (dc_writer client) account now sroot))"

definition sync_once ::
  "drive_env \<Rightarrow> f64 \<Rightarrow> Config \<Rightarrow> string \<Rightarrow> 'c drive_client \<Rightarrow> string \<Rightarrow> string \<Rightarrow> 'c drive_world
     \<Rightarrow> ((PassError + PassReport) \<times> 'c drive_world) option" where
  "sync_once env fp cfg account client host now w =
     (case find_account cfg account of
        None \<Rightarrow> Some (Inl (NoAccount account), w)
      | Some acc \<Rightarrow>
          map_option
            (\<lambda>r. then_step (reported r (\<lambda>ing. ingested ing no_pass)) (mirror env fp cfg acc client account host now))
            (incremental_sync env (dc_transport client) account now (ac_archive_root acc) w))"

end
