(* ===== verification/Pass_Types.thy ===== *)
theory Pass_Types
  imports Sync_Pass
begin

text \<open>
  What a pass of the desktop does to the index, whatever the cloud answers: the rows of the account stay well
  typed and unique, and nothing of another account or service is touched. The relation is shown for every
  operation of the connector and carried through the composition of the pass.
\<close>

section \<open>The type of the rows of the drive\<close>

definition drive_row_ok :: "item_row \<Rightarrow> bool" where
  "drive_row_ok r \<longleftrightarrow> it_sync_state r \<in> {''clean'', ''remote_dirty'', ''deleted''}
     \<and> it_item_type r \<in> {''file'', ''folder''}
     \<and> (it_sync_state r = ''deleted'' \<longrightarrow> it_deleted_at r \<noteq> None)
     \<and> it_content_state r \<in> {None, Some ''materialized'', Some ''cached''}"

definition own_row :: "string \<Rightarrow> item_row \<Rightarrow> bool" where
  "own_row account r \<longleftrightarrow> it_account_id r = account \<and> it_service r = DRIVE"

definition drive_typed :: "string \<Rightarrow> item_db \<Rightarrow> bool" where
  "drive_typed account db \<longleftrightarrow> (\<forall>r \<in> set (db_items db). own_row account r \<longrightarrow> drive_row_ok r)"

text \<open>Everything in the index that is not the drive of the account, and the log of runs.\<close>

definition rest_of_index :: "string \<Rightarrow> item_db \<Rightarrow> item_row list \<times> delta_row list \<times> upload_session list \<times> Run list" where
  "rest_of_index account db =
     (filter (\<lambda>r. \<not> own_row account r) (db_items db),
      filter (\<lambda>r. \<not> (ds_account_id r = account \<and> ds_service r = DRIVE)) (db_delta db),
      filter (\<lambda>r. \<not> (us_account_id r = account \<and> us_service r = DRIVE)) (db_uploads db),
      db_runs db)"

definition evolves :: "string \<Rightarrow> item_db \<Rightarrow> item_db \<Rightarrow> bool" where
  "evolves account db db' \<longleftrightarrow> (items_ok db \<longrightarrow> items_ok db') \<and> (drive_typed account db \<longrightarrow> drive_typed account db')
     \<and> rest_of_index account db' = rest_of_index account db"

named_theorems evolving

lemma evolves_refl [evolving]: "evolves account db db"
  by (simp add: evolves_def)

lemma evolves_trans: "evolves account db db' \<Longrightarrow> evolves account db' db'' \<Longrightarrow> evolves account db db''"
  by (auto simp: evolves_def)

section \<open>The calls of the index\<close>

lemma filter_sql_update:
  assumes "\<And>r. p r \<Longrightarrow> \<not> q r" and "\<And>r. p r \<Longrightarrow> \<not> q (f r)"
  shows "filter q (sql_update p f rs) = filter q rs"
  using assms by (induction rs) (auto simp: sql_update_def)

lemma filter_sql_delete:
  assumes "\<And>r. p r \<Longrightarrow> \<not> q r"
  shows "filter q (sql_delete p rs) = filter q rs"
  using assms by (induction rs) (auto simp: sql_delete_def)

lemma filter_sql_upsert:
  assumes "\<And>r. key r = k \<Longrightarrow> \<not> q r" and "\<And>r. key r = k \<Longrightarrow> \<not> q (f r)" and "\<not> q row"
  shows "filter q (sql_upsert key k row f rs) = filter q rs"
  using assms by (simp add: sql_upsert_def filter_sql_update)

lemma in_sql_update: "r \<in> set (sql_update p f rs) \<Longrightarrow> \<exists>r' \<in> set rs. r = (if p r' then f r' else r')"
  by (auto simp: sql_update_def)

lemma own_row_key: "own_row account r \<longleftrightarrow> (\<exists>i. key_of r = (account, DRIVE, i))"
  by (cases r) (auto simp: own_row_def)

lemma update_item_evolves:
  assumes key: "\<And>r. key_of (f r) = key_of r" and ok: "\<And>r. drive_row_ok r \<Longrightarrow> drive_row_ok (f r)"
  shows "evolves account db (snd (update_item (account, DRIVE, i) f db))"
proof -
  have own: "own_row account (f r) = own_row account r" for r by (simp add: own_row_key key)
  have "rest_of_index account (snd (update_item (account, DRIVE, i) f db)) = rest_of_index account db"
    by (simp add: rest_of_index_def update_item_def)
      (rule filter_sql_update, auto simp: own_row_key key)
  moreover have "drive_typed account (snd (update_item (account, DRIVE, i) f db))" if "drive_typed account db"
    unfolding drive_typed_def
  proof (intro ballI impI)
    fix r assume r: "r \<in> set (db_items (snd (update_item (account, DRIVE, i) f db)))" "own_row account r"
    then obtain r' where r': "r' \<in> set (db_items db)" "r = f r' \<or> r = r'"
      by (auto simp: update_item_def dest!: in_sql_update split: if_splits)
    with r(2) have "own_row account r'" by (auto simp: own)
    with r' that show "drive_row_ok r" by (auto simp: drive_typed_def ok)
  qed
  ultimately show ?thesis by (simp add: evolves_def update_item_keeps_ok key)
qed

lemma upsert_item_evolves:
  assumes it: "it_account_id it = account" "it_service it = DRIVE" "it_deleted_at it = None"
    "it_sync_state it \<in> {''clean'', ''remote_dirty''}" "it_item_type it \<in> {''file'', ''folder''}"
  shows "evolves account db (upsert_item it db)"
proof -
  have key: "key_of it = (account, DRIVE, it_remote_id it)" using it by (simp add:)
  have new: "drive_row_ok (inserted_row it)"
    using it by (auto simp: drive_row_ok_def inserted_row_def Item.defs)
  have old: "drive_row_ok (merged_row it r)" if "drive_row_ok r" for r
    using that it by (auto simp: drive_row_ok_def merged_row_def)
  have own: "own_row account (merged_row it r) = own_row account r" "own_row account (inserted_row it)" for r
    by (simp_all add: own_row_key key)
  have "rest_of_index account (upsert_item it db) = rest_of_index account db"
    by (simp add: rest_of_index_def upsert_item_def)
      (rule filter_sql_upsert, auto simp: own own_row_key key)
  moreover have "drive_typed account (upsert_item it db)" if "drive_typed account db"
    unfolding drive_typed_def
  proof (intro ballI impI)
    fix r assume r: "r \<in> set (db_items (upsert_item it db))" "own_row account r"
    then consider "r = inserted_row it" | r' where "r' \<in> set (db_items db)" "r = merged_row it r' \<or> r = r'"
      by (auto simp: upsert_item_def sql_upsert_def dest!: in_sql_update split: if_splits)
    then show "drive_row_ok r"
    proof cases
      case 2
      with r(2) have "own_row account r'" by (auto simp: own)
      with 2 that show ?thesis by (auto simp: drive_typed_def old)
    qed (simp add: new)
  qed
  ultimately show ?thesis by (simp add: evolves_def upsert_item_keeps_ok)
qed

lemma set_sync_state_evolves [evolving]:
  "s \<in> {''clean'', ''remote_dirty''} \<Longrightarrow> evolves account db (snd (set_sync_state account DRIVE i s db))"
  by (simp add: set_sync_state_def split_beta)
    (rule update_item_evolves, auto simp: drive_row_ok_def)

lemma mark_deleted_evolves [evolving]: "evolves account db (snd (mark_deleted account DRIVE i now db))"
  by (simp add: mark_deleted_def split_beta)
    (rule update_item_evolves, auto simp: drive_row_ok_def)

lemma set_synced_state_evolves [evolving]: "evolves account db (snd (set_synced_state account DRIVE i n t h db))"
  by (simp add: set_synced_state_def split_beta)
    (rule update_item_evolves, auto simp: drive_row_ok_def)

lemma set_conflict_state_evolves [evolving]: "evolves account db (set_conflict_state account DRIVE i c db)"
  by (simp add: set_conflict_state_def)
    (rule update_item_evolves, auto simp: drive_row_ok_def)

lemma set_content_state_evolves [evolving]:
  "c \<in> {None, Some ''materialized'', Some ''cached''} \<Longrightarrow>
     evolves account db (set_content_state account DRIVE i c l b t db)"
  by (simp add: set_content_state_def)
    (rule update_item_evolves, auto simp: drive_row_ok_def)

lemma set_delta_cursor_evolves [evolving]: "evolves account db (set_delta_cursor account DRIVE sc c db)"
  unfolding evolves_def
  by (auto simp: set_delta_cursor_def items_ok_def delta_table.unique_upsert drive_typed_def rest_of_index_def
    intro!: filter_sql_upsert)

lemma clear_delta_cursor_evolves [evolving]: "evolves account db (snd (clear_delta_cursor account DRIVE sc db))"
  unfolding evolves_def
  by (auto simp: clear_delta_cursor_def items_ok_def delta_table.unique_delete drive_typed_def rest_of_index_def
    intro!: filter_sql_delete)

lemma save_upload_session_evolves [evolving]: "evolves account db (save_upload_session account DRIVE p u t n db)"
  unfolding evolves_def
  by (auto simp: save_upload_session_def items_ok_def upload_table.unique_upsert drive_typed_def rest_of_index_def
    intro!: filter_sql_upsert)

lemma clear_upload_session_evolves [evolving]: "evolves account db (clear_upload_session account DRIVE p db)"
  unfolding evolves_def
  by (auto simp: clear_upload_session_def items_ok_def upload_table.unique_delete drive_typed_def rest_of_index_def
    intro!: filter_sql_delete)

section \<open>The operations of the connector\<close>

text \<open>A step keeps the index when its final world's index has evolved from the one it began with.\<close>

abbreviation keeps_index :: "string \<Rightarrow> item_db \<Rightarrow> 'a \<times> 'c drive_world \<Rightarrow> bool" where
  "keeps_index account db r \<equiv> evolves account db (dw_db (snd r))"

lemma keeps_try_then:
  assumes "keeps_index account db r" and "\<And>x w. keeps_index account (dw_db w) (f x w)"
  shows "keeps_index account db (try_then r f)"
  using assms by (cases r) (auto simp: try_then_def split: sum.split intro: evolves_trans)

lemma on_disk_db [simp]: "dw_db (snd (on_disk f w)) = dw_db w"
  by (simp add: on_disk_def split_beta)

lemma on_dcloud_db [simp]: "dw_db (snd (on_dcloud f w)) = dw_db w"
  by (simp add: on_dcloud_def split_beta)

lemma on_disk_eq_db: "on_disk f w = (x, w') \<Longrightarrow> dw_db w' = dw_db w"
  by (metis on_disk_db snd_conv)

lemma on_dcloud_eq_db: "on_dcloud f w = (x, w') \<Longrightarrow> dw_db w' = dw_db w"
  by (metis on_dcloud_db snd_conv)

lemmas same_db = on_disk_eq_db on_dcloud_eq_db

lemma remote_db [simp]: "dw_db (snd (remote r)) = dw_db (snd r)"
  by (simp add: remote_def)

lemma keeps_tombstone [evolving]: "evolves account (dw_db w) (dw_db (tombstone account i now archive w))"
  by (simp add: tombstone_def mark_deleted_evolves)

lemma keeps_store_item [evolving]:
  "state \<in> {''clean'', ''remote_dirty''} \<Longrightarrow> keeps_index account (dw_db w) (store_item env account i item state archive w)"
  by (auto simp: store_item_def split_beta Let_def item_of_json_def Item_new_def split: option.split intro!: upsert_item_evolves)

lemma keeps_ingest_item [evolving]:
  "state \<in> {''clean'', ''remote_dirty''} \<Longrightarrow> keeps_index account (dw_db w) (ingest_item env account item now state archive w)"
  by (auto simp: ingest_item_def split: option.split intro!: evolving keeps_try_then)

lemma keeps_ingest_items:
  assumes "\<And>item w. keeps_index account (dw_db w) (f item w)"
  shows "keeps_index account (dw_db w) (ingest_items f xs rep w)"
  by (induction xs arbitrary: rep w) (auto intro!: evolving keeps_try_then assms)

lemma keeps_incremental_sync:
  assumes "incremental_sync env t account now archive w = Some r"
  shows "keeps_index account (dw_db w) r"
  using assms
  by (auto simp: incremental_sync_def Let_def split_beta split: sum.split
    intro!: evolving keeps_try_then keeps_ingest_items[where w = "w\<lparr>dw_cloud := c\<rparr>" for c, simplified])

lemma keeps_mark_clean [evolving]: "evolves account (dw_db w) (dw_db (mark_clean account i w))"
  by (simp add: mark_clean_def set_sync_state_evolves)

lemma keeps_record_synced [evolving]: "evolves account (dw_db w) (dw_db (record_synced_state account i full h w))"
  by (auto simp: record_synced_state_def set_synced_state_evolves evolves_refl split: option.split)

lemma keeps_after:
  "evolves account db (dw_db w) \<Longrightarrow> evolves account db (dw_db (mark_clean account i w))"
  "evolves account db (dw_db w) \<Longrightarrow> evolves account db (dw_db (record_synced_state account i full h w))"
  by (blast intro: evolves_trans evolving)+

lemmas keeping = keeps_after evolves_refl

lemma keeps_materialize_folder:
  "keeps_index account (dw_db w) (materialize_folder account i full (r, w))"
  by (auto simp: materialize_folder_def evolves_refl dest!: same_db intro!: keeps_after split: prod.splits bool.splits)

lemma keeps_keep_local_edit: "dw_db (snd (keep_local_edit env account base host i full (r, w))) = dw_db w"
  by (auto simp: keep_local_edit_def Let_def dest!: same_db split: prod.splits bool.splits option.splits)

lemma keeps_download_file:
  "keeps_index account (dw_db w) (download_file env download account it full (r, w))"
  unfolding download_file_def Let_def
  by (cases "path_parent full")
    (auto simp: evolves_refl dest!: same_db intro!: keeps_after split: prod.splits bool.splits sum.splits option.splits)

lemma keeps_materialize_file:
  "keeps_index account (dw_db w) (materialize_file env download account base host it full (r, w))"
proof -
  obtain r' w' where kept: "keep_local_edit env account base host (it_remote_id it) full (r, w) = (r', w')" by fastforce
  then have "dw_db w' = dw_db w" by (metis keeps_keep_local_edit snd_conv)
  then show ?thesis
    using keeps_download_file [of account w' env download it full r']
    by (auto simp: materialize_file_def kept evolves_refl intro!: keeps_after)
qed

lemma keeps_materialize_item:
  "keeps_index account (dw_db w) (materialize_item env download account base host m pass it (r, w))"
  by (auto simp: materialize_item_def Let_def evolves_refl keeps_materialize_folder keeps_materialize_file split: option.split)

lemma keeps_fold:
  assumes "\<And>x r w. keeps_index account (dw_db w) (f x (r, w))"
  shows "keeps_index account (dw_db w) (fold f xs (r, w))"
proof (induction xs arbitrary: r w)
  case (Cons x xs)
  obtain r' w' where "f x (r, w) = (r', w')" by fastforce
  then show ?case using Cons [of w' r'] assms [of w x r] by (auto intro: evolves_trans)
qed (simp add: evolves_refl)

lemma keeps_materialize_downloads:
  "keeps_index account (dw_db w) (materialize_downloads env download account base host w)"
  unfolding materialize_downloads_def Let_def by (intro keeps_fold keeps_materialize_item)

section \<open>Pushing\<close>

text \<open>A writer keeps its upload sessions in the index; this is what it may do there.\<close>

definition writer_keeps :: "string \<Rightarrow> 'c remote_writer \<Rightarrow> bool" where
  "writer_keeps account writer \<longleftrightarrow>
     (\<forall>dest payload db c. evolves account db (fst (snd (rw_upload_resumable writer account dest payload (db, c)))))"

lemma keeps_upload_through:
  "writer_keeps account writer \<Longrightarrow> keeps_index account (dw_db w) (upload_through writer account dest payload w)"
  by (simp add: writer_keeps_def upload_through_def split_beta)

lemma keeps_push_upload:
  assumes "writer_keeps account writer"
  shows "keeps_index account (dw_db w) (push_upload env writer account dest payload mtime w)"
  unfolding push_upload_def
  by (auto simp: keeps_upload_through [OF assms] evolves_refl split: option.split
    intro!: keeps_try_then evolving)

lemma keeps_push_delete:
  "keeps_index account (dw_db w) (push_delete writer account i now w)"
  unfolding push_delete_def by (auto simp: evolves_refl intro!: keeps_try_then evolving)

lemma keeps_push_local_creates:
  assumes "writer_keeps account writer"
  shows "keeps_index account (dw_db w) (push_local_creates env writer account base rels n w)"
proof (induction rels arbitrary: n w)
  case (Cons rel rels)
  show ?case
    by (auto simp: Let_def evolves_refl keeps_push_upload [OF assms] split: option.split
      intro!: keeps_try_then evolves_trans [OF keeps_record_synced Cons.IH])
qed (simp add: evolves_refl)

lemma corrected_item_db [simp]: "dw_db (snd (corrected_item replacer i item mtime w)) = dw_db w"
  by (auto simp: corrected_item_def dest!: same_db split: option.split prod.split sum.split)

lemma keeps_move_edit_aside:
  "keeps_index account (dw_db w) (move_edit_aside account base host i rel r w)"
  by (auto simp: move_edit_aside_def Let_def evolves_refl dest!: same_db split: prod.split bool.split
    intro!: evolves_trans [OF set_sync_state_evolves set_conflict_state_evolves])

lemma keeps_apply_local_modifies:
  "keeps_index account (dw_db w) (apply_local_modifies env replacer account base host ms r w)"
proof (induction ms arbitrary: r w)
  case (Cons m ms)
  obtain i rel etag where m: "m = (i, rel, etag)" by (cases m) auto
  show ?case
  proof (cases "body_at (de_keys env) (path_join base rel) (dw_disk w)")
    case (Some payload)
    obtain x w1 where put: "on_dcloud (cr_replace_if_match replacer i payload etag) w = (x, w1)" by fastforce
    then have db: "dw_db w1 = dw_db w" by (rule on_dcloud_eq_db)
    consider e where "x = Inl e" | "x = Inr None" | item where "x = Inr (Some item)"
      by (metis old.sum.exhaust option.exhaust)
    then show ?thesis
    proof cases
      case 1
      then show ?thesis using Cons [of w1] by (simp add: m Some put db)
    next
      case 2
      obtain r2 w2 where aside: "move_edit_aside account base host i rel r w1 = (r2, w2)" by fastforce
      then have "evolves account (dw_db w) (dw_db w2)"
        using keeps_move_edit_aside [of account w1 base host i rel r] by (simp add: db)
      then show ?thesis using 2 by (simp add: m Some put aside evolves_trans [OF _ Cons])
    next
      case 3
      obtain j w2 where fixed: "corrected_item replacer i item (local_mtime_secs (path_join base rel) (dw_disk w1)) w1 = (j, w2)"
        by fastforce
      then have "dw_db w2 = dw_db w" using db by (metis corrected_item_db snd_conv)
      then have "keeps_index account (dw_db w) (ingest_item env account j [] ''clean'' None w2)"
        using keeps_ingest_item [of "''clean''" account w2] by simp
      then have "keeps_index account (dw_db w)
          (try_then (ingest_item env account j [] ''clean'' None w2) (\<lambda>_ w.
             apply_local_modifies env replacer account base host ms (r\<lparr>mo_uploaded := mo_uploaded r + 1\<rparr>)
               (record_synced_state account i (path_join base rel) (Some (quickxor_base64 payload)) w)))"
        by (rule keeps_try_then) (rule evolves_trans [OF keeps_record_synced Cons])
      then show ?thesis using 3 by (simp add: m Some put fixed)
    qed
  qed (simp add: m Cons)
qed (simp add: evolves_refl)

section \<open>The pass\<close>

lemma keeps_reported: "keeps_index account db r \<Longrightarrow> keeps_index account db (reported r f)"
  by (simp add: reported_def)

lemma keeps_then_step:
  assumes "keeps_index account db r" and "\<And>out w. keeps_index account (dw_db w) (f (out, w))"
  shows "keeps_index account db (then_step r f)"
  using assms by (cases r) (auto simp: then_step_def split: sum.split intro: evolves_trans)

lemma keeps_trash_step: "keeps_index account (dw_db w) (trash_step fp g account base trash (out, w))"
  by (auto simp: trash_step_def Let_def evolves_refl split: GuardVerdict.split intro!: keeps_reported)

lemma keeps_create_step:
  "writer_keeps account writer \<Longrightarrow> keeps_index account (dw_db w) (create_step env writer account base (out, w))"
  by (auto simp: create_step_def Let_def evolves_refl intro!: keeps_reported keeps_push_local_creates)

lemma keeps_modify_step: "keeps_index account (dw_db w) (modify_step env replacer account base host (out, w))"
  by (auto simp: modify_step_def Let_def evolves_refl intro!: keeps_reported keeps_apply_local_modifies)

lemma keeps_push_deletes: "keeps_index account (dw_db w) (push_deletes writer account now ids (out, w))"
  by (induction ids arbitrary: out w)
    (auto simp: evolves_refl intro!: keeps_then_step keeps_reported keeps_push_delete)

lemma keeps_delete_step: "keeps_index account (dw_db w) (delete_step fp g writer account now base (out, w))"
  by (auto simp: delete_step_def Let_def evolves_refl keeps_push_deletes split: GuardVerdict.split)

lemma keeps_mirror:
  assumes "writer_keeps account (dc_writer client)"
  shows "keeps_index account (dw_db w) (mirror env fp cfg acc client account host now (out, w))"
proof -
  obtain rep w1 where down: "materialize_downloads env (dc_download client) account (ac_sync_root acc) host w = (rep, w1)"
    by fastforce
  then have "evolves account (dw_db w) (dw_db w1)"
    using keeps_materialize_downloads [of account w env "dc_download client" "ac_sync_root acc" host] by simp
  then show ?thesis
    by (auto simp: mirror_def Let_def down
      intro!: keeps_then_step evolves_trans [OF _ keeps_trash_step] keeps_create_step assms keeps_modify_step keeps_delete_step)
qed

lemma keeps_sync_once:
  assumes "writer_keeps account (dc_writer client)" and "sync_once env fp cfg account client host now w = Some r"
  shows "keeps_index account (dw_db w) r"
  using assms(2)
  by (auto simp: sync_once_def evolves_refl split: option.splits
    intro!: keeps_then_step keeps_reported keeps_incremental_sync keeps_mirror assms(1))

end
