(* ===== verification/Drive_Paths.thy ===== *)
theory Drive_Paths
  imports Drive_Files
begin

text \<open>
  Where the items of a drive live on disk: the path of an item is the local names of its ancestors below the
  sync root. Names that the cloud accepts can decode to text with separators, so that the path leaves
  the root; and a cycle of parents yields a path, not a refusal.
\<close>

section \<open>Names and bytes\<close>

definition ascii :: "string \<Rightarrow> bool" where
  "ascii s \<longleftrightarrow> list_all (\<lambda>c. of_char c < (0x80 :: int)) s"

lemma of_char_nonneg: "0 \<le> (of_char c :: int)"
  by (metis of_nat_of_char of_nat_0_le_iff)

lemma utf8_ascii: "ascii s \<Longrightarrow> utf8_encode (codes s) = s"
proof (induction s)
  case (Cons c s)
  then have "utf8_char (of_char c) = [c]" by (simp add: ascii_def utf8_char_def)
  with Cons show ?case by (simp add: utf8_encode_def codes_def ascii_def)
qed (simp add: utf8_encode_def codes_def)

lemma ascii_not_replaced: "ascii s \<Longrightarrow> list_all (\<lambda>c. \<not> replacement c) (codes s)"
  by (auto simp: ascii_def codes_def list_all_iff replacement_def CHAR_MAP_def TRAIL_DOT_def TRAIL_SPACE_def)

lemma code_point_enc: "code_point c \<Longrightarrow> code_point (enc_char c)"
  by (auto simp: enc_char_def CHAR_MAP_def code_point_def)

lemma code_point_to_cloud:
  assumes "list_all code_point name"
  shows "list_all code_point (to_cloud name)"
proof -
  have "list_all code_point (map enc_char name)" using assms by (simp add: list_all_iff code_point_enc)
  moreover have "code_point c \<Longrightarrow> code_point (trail_char c)" for c
    by (simp add: trail_char_def TRAIL_DOT_def TRAIL_SPACE_def code_point_def)
  ultimately show ?thesis
    using set_take_subset [of i "map enc_char name" for i] set_drop_subset [of i "map enc_char name" for i]
    by (simp add: to_cloud_def Let_def list_all_iff) blast
qed

lemma ascii_code_points: "ascii s \<Longrightarrow> list_all code_point (codes s)"
  using of_char_nonneg by (fastforce simp: ascii_def codes_def list_all_iff code_point_def)

text \<open>The local name of an encoded name in a folder the table does not know yet.\<close>

lemma local_name_of_encoded:
  assumes "ascii s"
  shows "fst (local_name_for env (Some p) (utf8_encode (to_cloud (codes s))) Map.empty) = s"
proof -
  have "utf8_decode (utf8_encode (to_cloud (codes s))) = to_cloud (codes s)"
    using assms by (intro utf8_round_trip code_point_to_cloud ascii_code_points)
  moreover have "to_local (to_cloud (codes s)) = codes s" using assms by (simp add: to_local_to_cloud ascii_not_replaced)
  ultimately show ?thesis
    using assms by (simp add: local_name_for_def assign_local_name_def parent_entry_def empty_parent_def Let_def utf8_ascii)
qed

section \<open>Paths\<close>

lemma name_chain_top:
  "it_local_path it = Some name \<Longrightarrow> Option.bind (it_parent_remote_id it) m = None \<Longrightarrow> 0 < n \<Longrightarrow> name_chain m n it = Some [name]"
  by (cases n) auto

lemma local_rel_path_top:
  assumes "it_local_path it = Some name" and "Option.bind (it_parent_remote_id it) m = None"
  shows "local_rel_path m it = Some (path_of name)"
proof -
  have "name_chain m MAX_PATH_DEPTH it = Some [name]" by (rule name_chain_top [OF assms]) (simp add: MAX_PATH_DEPTH_def)
  then show ?thesis by (cases "path_of name") (simp add: local_rel_path_def collect_path_def path_join_def)
qed

text \<open>An item that is its own ancestor: the walk stops at the depth limit and returns what it has.\<close>

lemma cyclic_parents_make_a_path:
  assumes "m i = Some it" and "it_parent_remote_id it = Some i" and "it_local_path it = Some name"
    and "path_of name = (False, [name])"
  shows "local_rel_path m it = Some (False, replicate 256 name)"
proof -
  have "name_chain m n it = Some (replicate n name)" for n using assms(1-3) by (induction n) auto
  moreover have "fold (\<lambda>s p. path_join p (path_of s)) (replicate n name) (False, xs) = (False, xs @ replicate n name)" for n xs
    using assms(4) by (induction n arbitrary: xs) (simp_all add: path_join_def)
  ultimately show ?thesis by (simp add: local_rel_path_def collect_path_def MAX_PATH_DEPTH_def)
qed

section \<open>Leaving the sync root\<close>

lemma single_row: "all_items_by_service account service db = map row_to_item rs"
  if "db_items db = rs" and "\<forall>r \<in> set rs. it_account_id r = account \<and> it_service r = service" and "length rs \<le> 1"
proof -
  have "filter (\<lambda>r. it_account_id r = account \<and> it_service r = service) rs = rs" using that(2) by (simp add: filter_id_conv)
  moreover have "sort_key f rs = rs" for f :: "item_row \<Rightarrow> string \<times> string" using that(3) by (cases rs) auto
  ultimately show ?thesis by (simp add: all_items_by_service_def that(1))
qed

definition named_item :: "string \<Rightarrow> string \<Rightarrow> string \<Rightarrow> json" where
  "named_item i name parent =
     JObj [(''id'', JStr i), (''name'', JStr name), (''parentReference'', JObj [(''id'', JStr parent)])]"

definition empty_world :: "disk \<Rightarrow> 'c \<Rightarrow> 'c drive_world" where
  "empty_world d c = \<lparr>dw_db = empty_items, dw_map = Map.empty, dw_disk = d, dw_cloud = c\<rparr>"

text \<open>C32: A cloud name can place a file anywhere on the disk. For every absolute path in ASCII there is a name
  the cloud accepts (it holds none of the characters OneDrive forbids and does not end in a dot or a space)
  such that the item ingested under that name is materialized at exactly that path, whatever the sync
  root is: the fullwidth solidus of the name decodes to a separator, and joining an absolute path
  to the root replaces the root.\<close>

theorem cloud_name_escapes_root:
  assumes "ascii s" and "take 1 s = ''/''"
  shows "\<exists>name. cloud_safe (utf8_decode name)
    \<and> (\<forall>i parent r w'. ingest_item env account (named_item i name parent) now st None (empty_world d c) = (r, w') \<longrightarrow>
         (\<exists>it. all_items_by_service account DRIVE (dw_db w') = [it] \<and> it_deleted_at it = None
            \<and> (parent \<noteq> i \<longrightarrow> map_option (path_join root) (local_rel_path (by_id [it]) it) = Some (path_of s))))"
proof (rule exI, intro conjI allI impI)
  let ?name = "utf8_encode (to_cloud (codes s))"
  have "utf8_decode ?name = to_cloud (codes s)"
    using assms(1) by (intro utf8_round_trip code_point_to_cloud ascii_code_points)
  then show "cloud_safe (utf8_decode ?name)" by (simp add: to_cloud_safe)
  fix i parent r w'
  assume run: "ingest_item env account (named_item i ?name parent) now st None (empty_world d c) = (r, w')"
  obtain loc t where loc: "local_name_for env (Some parent) ?name Map.empty = (loc, t)" by fastforce
  then have "loc = s" using local_name_of_encoded [OF assms(1), of env parent] by simp
  let ?it = "item_of_json account i (named_item i ?name parent) s st"
  have db: "db_items (dw_db w') = [inserted_row ?it]"
    using run loc \<open>loc = s\<close>
    by (auto simp: ingest_item_def named_item_def json_gets removed_def store_item_def try_then_def get_path_str_def
        get_path_def empty_world_def empty_items_def upsert_item_def sql_upsert_def sql_update_def split: prod.splits)
  have cols: "it_account_id ?it = account" "it_service ?it = DRIVE" "it_remote_id ?it = i" "it_deleted_at ?it = None"
    "it_local_path ?it = Some s" "it_parent_remote_id ?it = Some parent"
    by (simp_all add: item_of_json_def Item_new_def Let_def named_item_def get_path_str_def get_path_def)
  let ?row = "row_to_item (inserted_row ?it)"
  have row: "it_account_id (inserted_row ?it) = account" "it_service (inserted_row ?it) = DRIVE"
    "it_remote_id ?row = i" "it_deleted_at ?row = None" "it_local_path ?row = Some s" "it_parent_remote_id ?row = Some parent"
    using cols by (simp_all add: inserted_row_def Item.defs)
  have items: "all_items_by_service account DRIVE (dw_db w') = [?row]"
    using single_row [OF db, of account DRIVE] row(1,2) by simp
  have "map_option (path_join root) (local_rel_path (by_id [?row]) ?row) = Some (path_of s)" if "parent \<noteq> i"
  proof -
    have "by_id [?row] parent = None" using that row(3) by (simp add: by_id_def)
    then have "local_rel_path (by_id [?row]) ?row = Some (path_of s)" using row by (intro local_rel_path_top) auto
    then show ?thesis using assms(2) by (simp add: path_join_def path_of_def)
  qed
  with items row(4) show "\<exists>it. all_items_by_service account DRIVE (dw_db w') = [it] \<and> it_deleted_at it = None
      \<and> (parent \<noteq> i \<longrightarrow> map_option (path_join root) (local_rel_path (by_id [it]) it) = Some (path_of s))" by blast
qed

theorem cloud_name_escapes_root_witness:
  "\<forall>env account now st d (c :: unit) base. \<exists>name. cloud_safe (utf8_decode name)
    \<and> (\<forall>i parent r w'. ingest_item env account (named_item i name parent) now st None (empty_world d c) = (r, w') \<longrightarrow>
         (\<exists>it. all_items_by_service account DRIVE (dw_db w') = [it] \<and> it_deleted_at it = None
            \<and> (parent \<noteq> i \<longrightarrow> map_option (path_join base) (local_rel_path (by_id [it]) it)
                  = Some (True, [''etc'', ''cron.d'', ''job'']))))"
proof -
  have "path_of ''/etc/cron.d/job'' = (True, [''etc'', ''cron.d'', ''job''])" by code_simp
  moreover have "ascii ''/etc/cron.d/job''" by code_simp
  ultimately show ?thesis
    using cloud_name_escapes_root [where s = "''/etc/cron.d/job''" and c = "()"]
    by (simp del: split_paired_All map_option_eq_Some)
qed

end
