(* ===== verification/Drive_Safety.thy ===== *)
theory Drive_Safety
  imports Sync_Pass Drive_Paths
begin

text \<open>
  What a synchronisation pass does to local edits: when a locally edited file survives a download, when a
  stale body is pushed over a newer cloud version, what becomes of a version the user chose to keep, and
  what the mass-delete guard lets through. Also the index stays well-formed through a whole pass.
\<close>

section \<open>Operations of the disk without faults\<close>

lemma set_node_sel [simp]:
  "nodes (set_node p n d) = (nodes d)(p := n)" "io_faults (set_node p n d) = io_faults d"
  "wall_clock (set_node p n d) = wall_clock d"
  by (simp_all add: set_node_def)

lemma io_step_ok: "io_faults d = [] \<Longrightarrow> io_step broken ok d = ok d"
  by (simp add: io_step_def)

lemma io_step_fails: "io_faults d = [True] \<Longrightarrow> io_step broken ok d = (False, broken (d\<lparr>io_faults := []\<rparr>))"
  by (simp add: io_step_def)

lemma nodes_faults [simp]: "nodes (d\<lparr>io_faults := fs\<rparr>) = nodes d"
  by simp

lemma rename_file:
  assumes "io_faults d = []" and "nodes d (resolve src) = Some (File b m)" and "resolve dst \<noteq> []"
    and "dir_at (butlast (resolve dst)) d" and "nodes d (resolve dst) \<noteq> Some Dir"
  shows "rename src dst d = (True, set_node (resolve dst) (Some (File b m)) (set_node (resolve src) None d))"
  using assms by (simp add: rename_def io_step_ok Let_def split: option.split node.split)

lemma write_file_there:
  assumes "io_faults d = []" and "resolve p \<noteq> []" and "dir_at (butlast (resolve p)) d" and "nodes d (resolve p) \<noteq> Some Dir"
  shows "write_file p b d = (True, set_node (resolve p) (Some (File b (wall_clock d))) d)"
  using assms by (simp add: write_file_def io_step_ok Let_def)

text \<open>A path made of ordinary names whose directories are there.\<close>

definition placed :: "PathBuf \<Rightarrow> disk \<Rightarrow> bool" where
  "placed p d \<longleftrightarrow> snd p \<noteq> [] \<and> ''..'' \<notin> set (snd p) \<and> (\<forall>k < length (snd p). dir_at (take k (snd p)) d)"

lemma placed_resolve: "placed p d \<Longrightarrow> resolve p = snd p"
  by (cases p) (simp add: placed_def resolve_normal)

lemma placed_dir: "placed p d \<Longrightarrow> dir_at (butlast (snd p)) d"
  by (simp add: placed_def butlast_conv_take)

lemma create_parent:
  assumes "placed p d" and "io_faults d = []"
  shows "create_dir_all (fst p, butlast (snd p)) d = (True, d)"
proof -
  let ?q = "butlast (snd p)"
  have res: "resolve (fst p, ?q) = ?q" using assms(1) by (auto simp: placed_def intro!: resolve_normal dest: in_set_butlastD)
  have "nodes d r = Some Dir" if mem: "r \<in> set (map (\<lambda>i. take i ?q) [1..<Suc (length ?q)])" for r
  proof -
    obtain i where "i \<in> set [1..<Suc (length ?q)]" and r: "r = take i ?q" using mem unfolding set_map by blast
    then have i: "0 < i" "i \<le> length (snd p) - 1" "r = take i ?q" by (auto simp del: upt_Suc)
    have "i < length (snd p)" using i(1,2) by linarith
    with i have i: "0 < i" "i < length (snd p)" "r = take i (snd p)" by (simp_all add: take_butlast)
    have "dir_at r d" using assms(1) i by (simp add: placed_def)
    then show ?thesis using i by (cases "snd p") (auto simp: dir_at_def)
  qed
  then have dirs: "\<forall>r \<in> set (map (\<lambda>i. take i ?q) [1..<Suc (length ?q)]). nodes d r = Some Dir" by blast
  have "fold (\<lambda>r d. if nodes d r = None then set_node r (Some Dir) d else d) ps d = d"
    if "\<forall>r \<in> set ps. nodes d r = Some Dir" for ps using that by (induction ps) auto
  with dirs show ?thesis using assms(2) by (simp add: create_dir_all_def io_step_ok res Let_def list_all_iff)
qed

lemma path_parent_placed: "placed p d \<Longrightarrow> path_parent p = Some (fst p, butlast (snd p))"
  by (simp add: path_parent_def placed_def)

section \<open>The names of copies and scratch files\<close>

definition sibling :: "PathBuf \<Rightarrow> string \<Rightarrow> string list" where
  "sibling p x = butlast (snd p) @ [x]"

definition scratch_name :: "string \<Rightarrow> string" where
  "scratch_name n = fst (stem_ext n) @ CHR ''.'' # (case snd (stem_ext n) of Some e \<Rightarrow> e | None \<Rightarrow> []) @ ''.isync-tmp''"

lemma conflict_copy_stem: "\<exists>r. conflict_copy_name n host k = fst (stem_ext n) @ CHR ''-'' # r"
  by (simp add: conflict_copy_name_def stem_ext_def split: option.splits prod.splits)

lemma unique_conflict_copy_stem: "\<exists>r. unique_conflict_copy dir n host d = fst (stem_ext n) @ CHR ''-'' # r"
proof (cases "List.find (\<lambda>name. \<not> path_exists (path_join dir (path_of name)) d) (map (conflict_copy_name n host) [1..<10000])")
  case None
  then show ?thesis by (simp add: unique_conflict_copy_def conflict_copy_stem del: upt_Suc)
next
  case (Some x)
  then have "x \<in> set (map (conflict_copy_name n host) [1..<10000])" by (auto simp: find_Some_iff simp del: upt_Suc)
  then obtain k where "x = conflict_copy_name n host k" by (auto simp del: upt_Suc)
  with Some show ?thesis by (simp add: unique_conflict_copy_def conflict_copy_stem del: upt_Suc)
qed

lemma stem_ext_name: "n = fst (stem_ext n) @ (case snd (stem_ext n) of Some e \<Rightarrow> CHR ''.'' # e | None \<Rightarrow> [])"
  using rsplit_dot_Some [of n] by (auto simp: stem_ext_def split: option.splits prod.splits)

lemma copy_names_differ:
  assumes "copy = unique_conflict_copy dir n host d"
  shows "copy \<noteq> n" and "scratch_name n \<noteq> n" and "scratch_name n \<noteq> copy" and "copy \<noteq> ''..''" and "scratch_name n \<noteq> ''..''"
proof -
  obtain r where r: "copy = fst (stem_ext n) @ CHR ''-'' # r" using unique_conflict_copy_stem assms by blast
  have n: "n = fst (stem_ext n) @ (case snd (stem_ext n) of Some e \<Rightarrow> CHR ''.'' # e | None \<Rightarrow> [])" by (rule stem_ext_name)
  show "copy \<noteq> n" by (subst n) (simp add: r split: option.split)
  show "scratch_name n \<noteq> n" by (subst (2) n) (simp add: scratch_name_def split: option.split)
  show "scratch_name n \<noteq> copy" by (simp add: r scratch_name_def)
  have "CHR ''-'' \<in> set copy" by (simp add: r)
  then show "copy \<noteq> ''..''" by auto
  have "length (scratch_name n) > 2" by (simp add: scratch_name_def)
  then show "scratch_name n \<noteq> ''..''" by auto
qed

lemma placed_last: "placed p d \<Longrightarrow> last (snd p) \<noteq> ''..''"
  unfolding placed_def using last_in_set by metis

lemma scratch_of_placed: "placed p d \<Longrightarrow> scratch_path p = (fst p, sibling p (scratch_name (last (snd p))))"
  using placed_last [of p d]
  by (cases "snd (stem_ext (last (snd p)))")
    (simp_all add: scratch_path_def with_extension_def file_name_def placed_def scratch_name_def sibling_def)

lemma sibling_prefix: "k < length (snd p) \<Longrightarrow> take k (sibling p x) = take k (snd p)"
  by (simp add: sibling_def take_butlast)

lemma length_sibling: "snd p \<noteq> [] \<Longrightarrow> length (sibling p x) = length (snd p)"
  by (simp add: sibling_def)

lemma placed_sibling:
  assumes "placed p d" and "x \<noteq> ''..''"
  shows "placed (a, sibling p x) d"
proof -
  have ne: "snd p \<noteq> []" using assms(1) by (simp add: placed_def)
  have "''..'' \<notin> set (sibling p x)" using assms by (auto simp: sibling_def placed_def dest: in_set_butlastD)
  moreover have "dir_at (take k (sibling p x)) d" if "k < length (snd p)" for k
    using assms(1) that by (simp add: placed_def sibling_prefix)
  moreover have "sibling p x \<noteq> []" by (simp add: sibling_def)
  ultimately show ?thesis unfolding placed_def snd_conv length_sibling [OF ne] by blast
qed

lemma sibling_last: "snd p \<noteq> [] \<Longrightarrow> sibling p (last (snd p)) = snd p"
  by (simp add: sibling_def)

lemma sibling_eq [simp]: "sibling p x = sibling p y \<longleftrightarrow> x = y"
  by (simp add: sibling_def)

lemma placed_set_node:
  assumes "length q = length (snd p)"
  shows "placed p (set_node q n d) \<longleftrightarrow> placed p d"
proof -
  have "dir_at (take k (snd p)) (set_node q n d) = dir_at (take k (snd p)) d" if "k < length (snd p)" for k
  proof -
    have "length (take k (snd p)) \<noteq> length q" using assms that by simp
    then have "take k (snd p) \<noteq> q" by blast
    then show ?thesis by (simp add: dir_at_def)
  qed
  then show ?thesis by (auto simp: placed_def)
qed

lemma placed_faults [simp]: "placed p (d\<lparr>io_faults := fs\<rparr>) = placed p d"
  by (simp add: placed_def dir_at_def)

section \<open>Writing a body\<close>

lemma atomic_write_there:
  assumes "placed p d" and "io_faults d = []" and "nodes d (snd p) \<noteq> Some Dir"
    and "nodes d (sibling p (scratch_name (last (snd p)))) \<noteq> Some Dir"
  shows "\<exists>d'. atomic_write env p payload d = (True, d') \<and> io_faults d' = []
    \<and> nodes d' = (nodes d)(sibling p (scratch_name (last (snd p))) := None,
        snd p := Some (File (sealed_for_disk (de_keys env) payload) (wall_clock d)))"
proof -
  let ?s = "sibling p (scratch_name (last (snd p)))" and ?b = "sealed_for_disk (de_keys env) payload"
  let ?n = "last (snd p)"
  have ne: "snd p \<noteq> []" using assms(1) by (simp add: placed_def)
  note names = copy_names_differ [OF refl, where n = ?n]
  have tmp: "scratch_path p = (fst p, ?s)" by (rule scratch_of_placed [OF assms(1)])
  have "placed (fst p, ?s) d" by (rule placed_sibling [OF assms(1) names(5)])
  then have res: "resolve (fst p, ?s) = ?s" "dir_at (butlast ?s) d" using placed_resolve placed_dir by fastforce+
  have len: "length ?s = length (snd p)" by (rule length_sibling [OF ne])
  define d1 where "d1 = set_node ?s (Some (File ?b (wall_clock d))) d"
  have wrote: "write_file (fst p, ?s) ?b d = (True, d1)"
    using assms(2,4) res ne len by (subst write_file_there) (auto simp: d1_def)
  have "placed p d1" using assms(1) len by (simp add: d1_def placed_set_node)
  then have dst: "resolve p = snd p" "dir_at (butlast (snd p)) d1" using placed_resolve placed_dir by blast+
  have diff: "?s \<noteq> snd p" using sibling_last [OF ne] names(2) sibling_eq by metis
  have "rename (fst p, ?s) p d1 = (True, set_node (snd p) (Some (File ?b (wall_clock d))) (set_node ?s None d1))"
    using assms(2,3) dst res(1) ne diff by (subst rename_file [of d1 _ ?b "wall_clock d"]) (auto simp: d1_def)
  then show ?thesis using wrote assms(2) diff by (simp add: atomic_write_def tmp d1_def)
qed

section \<open>Local edits and downloads\<close>

lemma dir_and_name:
  assumes "placed p d"
  shows "dir_of sroot p = (fst p, butlast (snd p))" and "name_of p = last (snd p)"
  using assms placed_last [OF assms] by (simp_all add: dir_of_def name_of_def path_parent_placed [OF assms] file_name_def placed_def)

lemma metadata_placed: "placed p d \<Longrightarrow> nodes d (snd p) = Some (File b t) \<Longrightarrow> metadata p d = Some (length b, t)"
  by (simp add: metadata_def placed_resolve)

text \<open>A file of another size than the reference is renamed, unless the rename fails; then nothing changes.\<close>

lemma keep_edited:
  fixes fails :: bool
  assumes placed: "placed full (dw_disk w)" and body: "nodes (dw_disk w) (snd full) = Some (File b t)"
    and synced: "get_synced_state account DRIVE i (dw_db w) = Some (sz, mt, h)" "sz \<noteq> int (length b)"
    and faults: "io_faults (dw_disk w) = (if fails then [True] else [])"
    and copy: "copy = unique_conflict_copy (fst full, butlast (snd full)) (last (snd full)) host (dw_disk w)"
      "path_of copy = (False, [copy])" "nodes (dw_disk w) (sibling full copy) = None"
  shows "keep_local_edit env account sroot host i full (r, w) =
    (if fails then (r, w\<lparr>dw_disk := (dw_disk w)\<lparr>io_faults := []\<rparr>\<rparr>)
     else (r\<lparr>mr_conflicts := mr_conflicts r + 1\<rparr>,
           w\<lparr>dw_disk := set_node (sibling full copy) (Some (File b t)) (set_node (snd full) None (dw_disk w))\<rparr>))"
proof -
  let ?d = "dw_disk w"
  have ne: "snd full \<noteq> []" using placed by (simp add: placed_def)
  have edited: "locally_edited_since_sync env full sz mt h ?d"
    using metadata_placed [OF placed body] synced(2) by (simp add: locally_edited_since_sync_def)
  have join: "path_join (fst full, butlast (snd full)) (path_of copy) = (fst full, sibling full copy)"
    by (simp add: path_join_def copy(2) sibling_def)
  have spot: "placed (fst full, sibling full copy) ?d" by (rule placed_sibling [OF placed copy_names_differ(4) [OF copy(1)]])
  have "rename full (fst full, sibling full copy) ?d =
      (if fails then (False, ?d\<lparr>io_faults := []\<rparr>)
       else (True, set_node (sibling full copy) (Some (File b t)) (set_node (snd full) None ?d)))"
  proof (cases fails)
    case True
    then have "io_faults ?d = [True]" using faults by simp
    then show ?thesis using True by (simp add: rename_def io_step_fails)
  next
    case False
    have "rename full (fst full, sibling full copy) ?d =
        (True, set_node (resolve (fst full, sibling full copy)) (Some (File b t)) (set_node (resolve full) None ?d))"
      using False faults body copy(3) placed_dir [OF spot] placed_resolve [OF placed] placed_resolve [OF spot] ne
      by (intro rename_file) (auto simp: sibling_def)
    then show ?thesis using False placed_resolve [OF placed] placed_resolve [OF spot] by simp
  qed
  then show ?thesis
    by (simp add: keep_local_edit_def synced(1) edited dir_and_name [OF placed] Let_def copy(1) [symmetric] join on_disk_def)
qed

text \<open>Marking a row and recording a reference leave the disk alone; setting the time changes one file's time.\<close>

lemma bookkeeping_disk [simp]:
  "dw_disk (mark_clean account i w) = dw_disk w" "dw_disk (record_synced_state account i p h w) = dw_disk w"
  by (simp_all add: mark_clean_def record_synced_state_def split: option.split prod.split)

lemma nodes_set_file_mtime:
  "nodes (set_file_mtime p s d) q = nodes d q
   \<or> (q = resolve p \<and> (\<exists>b t m. nodes d q = Some (File b t) \<and> nodes (set_file_mtime p s d) q = Some (File b m)))"
  by (auto simp: set_file_mtime_def set_modified_def split: option.split node.split)

lemma download_there:
  assumes "placed full (dw_disk w)" and "io_faults (dw_disk w) = []" and "nodes (dw_disk w) (snd full) \<noteq> Some Dir"
    and "nodes (dw_disk w) (sibling full (scratch_name (last (snd full)))) \<noteq> Some Dir"
    and "download (it_remote_id it) (dw_cloud w) = (Inr payload, c)"
    and "download_file env download account it full (r, w) = (r', w')"
  shows "r' = r\<lparr>mr_downloaded := mr_downloaded r + 1\<rparr>"
    and "\<exists>m. nodes (dw_disk w') (snd full) = Some (File (sealed_for_disk (de_keys env) payload) m)"
    and "\<And>q. q \<noteq> snd full \<Longrightarrow> q \<noteq> sibling full (scratch_name (last (snd full))) \<Longrightarrow> nodes (dw_disk w') q = nodes (dw_disk w) q"
proof -
  let ?d = "dw_disk w" and ?s = "sibling full (scratch_name (last (snd full)))"
  let ?b = "sealed_for_disk (de_keys env) payload"
  obtain d' where wrote: "atomic_write env full payload ?d = (True, d')"
    and d': "nodes d' = (nodes ?d)(?s := None, snd full := Some (File ?b (wall_clock ?d)))"
    using atomic_write_there [OF assms(1-4)] by blast
  define d2 where "d2 = (case it_remote_mtime it of Some mt \<Rightarrow> set_file_mtime full mt d' | None \<Rightarrow> d')"
  have res: "r' = r\<lparr>mr_downloaded := mr_downloaded r + 1\<rparr>" "dw_disk w' = d2"
    using assms(5,6) create_parent [OF assms(1,2)] wrote path_parent_placed [OF assms(1)]
    by (auto simp: download_file_def on_disk_def on_dcloud_def Let_def d2_def split: option.splits)
  then show "r' = r\<lparr>mr_downloaded := mr_downloaded r + 1\<rparr>" by simp
  have d2: "nodes d2 q = nodes d' q \<or> (q = snd full \<and> (\<exists>b t m. nodes d' q = Some (File b t) \<and> nodes d2 q = Some (File b m)))" for q
    using nodes_set_file_mtime [of full _ d' q] placed_resolve [OF assms(1)] by (auto simp: d2_def split: option.split)
  show "\<exists>m. nodes (dw_disk w') (snd full) = Some (File ?b m)" using d2 [of "snd full"] res(2) d' by auto
  show "nodes (dw_disk w') q = nodes ?d q" if "q \<noteq> snd full" "q \<noteq> ?s" for q using d2 [of q] that res(2) d' by auto
qed

text \<open>C28: A local edit survives a download exactly when moving it aside succeeds. When a file whose length differs
  from the last synchronised one is replaced by a download, then the new cloud version ends up at its
  path in both cases and no other file is touched; if renaming the edit works, the edit is kept under
  the conflict-copy name and reported as a conflict, but if the rename fails, the failure is ignored, the
  download goes on over the edit, and the edit is gone without any report.\<close>

theorem edit_survives_unless_rename_fails:
  fixes rename_fails :: bool
  assumes "placed full (dw_disk w)" and "nodes (dw_disk w) (snd full) = Some (File b t)"
    and "get_synced_state account DRIVE (it_remote_id it) (dw_db w) = Some (sz, mt, h)" and "sz \<noteq> int (length b)"
    and "it_size it \<noteq> Some (plain_len_i64 full (dw_disk w))"
    and "io_faults (dw_disk w) = (if rename_fails then [True] else [])"
    and "copy = unique_conflict_copy (fst full, butlast (snd full)) (last (snd full)) host (dw_disk w)"
    and "path_of copy = (False, [copy])" and "nodes (dw_disk w) (sibling full copy) = None"
    and "nodes (dw_disk w) (sibling full (scratch_name (last (snd full)))) \<noteq> Some Dir"
    and "download (it_remote_id it) (dw_cloud w) = (Inr payload, c)"
    and "materialize_file env download account sroot host it full (no_downloads, w) = (r, w')"
  shows "mr_downloaded r = 1 \<and> mr_conflicts r = (if rename_fails then 0 else 1) \<and> mr_failed r = 0
    \<and> (\<exists>m. nodes (dw_disk w') (snd full) = Some (File (sealed_for_disk (de_keys env) payload) m))
    \<and> nodes (dw_disk w') (sibling full copy) = (if rename_fails then None else Some (File b t))
    \<and> (\<forall>q. q \<noteq> snd full \<longrightarrow> q \<noteq> sibling full copy \<longrightarrow> q \<noteq> sibling full (scratch_name (last (snd full))) \<longrightarrow>
          nodes (dw_disk w') q = nodes (dw_disk w) q)"
proof -
  let ?d = "dw_disk w" and ?c = "sibling full copy"
  have ne: "snd full \<noteq> []" using assms(1) by (simp add: placed_def)
  note names = copy_names_differ [OF assms(7)]
  define d1 where "d1 = (if rename_fails then ?d\<lparr>io_faults := []\<rparr> else set_node ?c (Some (File b t)) (set_node (snd full) None ?d))"
  define r1 where "r1 = (if rename_fails then no_downloads else no_downloads\<lparr>mr_conflicts := 1\<rparr>)"
  have "keep_local_edit env account sroot host (it_remote_id it) full (no_downloads, w) = (r1, w\<lparr>dw_disk := d1\<rparr>)"
    using keep_edited [OF assms(1-4,6-9)] by (simp add: d1_def r1_def no_downloads_def)
  moreover have "\<not> local_file_matches_synced_remote account full it w"
    using assms(5) metadata_placed [OF assms(1,2)] by (simp add: local_file_matches_synced_remote_def local_file_matches_def)
  ultimately have down: "download_file env download account it full (r1, w\<lparr>dw_disk := d1\<rparr>) = (r, w')"
    using assms(12) by (simp add: materialize_file_def)
  have len: "length ?c = length (snd full)" by (rule length_sibling [OF ne])
  have diff: "?c \<noteq> snd full" "sibling full (scratch_name (last (snd full))) \<noteq> snd full"
    using sibling_last [OF ne] names(1,2) sibling_eq by metis+
  have d1: "placed full d1" "io_faults d1 = []" "nodes d1 (snd full) \<noteq> Some Dir"
    "nodes d1 (sibling full (scratch_name (last (snd full)))) \<noteq> Some Dir"
    using assms(1,2,6,10) len diff names(3) by (auto simp: d1_def placed_set_node)
  have down': "mr_downloaded r = 1" "r = r1\<lparr>mr_downloaded := 1\<rparr>"
    "\<exists>m. nodes (dw_disk w') (snd full) = Some (File (sealed_for_disk (de_keys env) payload) m)"
    "\<And>q. q \<noteq> snd full \<Longrightarrow> q \<noteq> sibling full (scratch_name (last (snd full))) \<Longrightarrow> nodes (dw_disk w') q = nodes d1 q"
    using download_there [OF _ _ _ _ _ down] d1 assms(11) by (simp_all add: r1_def no_downloads_def)
  have "nodes (dw_disk w') ?c = nodes d1 ?c" using diff names(3) by (intro down'(4)) auto
  then have "nodes (dw_disk w') ?c = (if rename_fails then None else Some (File b t))"
    using assms(9) diff by (simp add: d1_def)
  moreover have "nodes (dw_disk w') q = nodes ?d q"
    if "q \<noteq> snd full" "q \<noteq> ?c" "q \<noteq> sibling full (scratch_name (last (snd full)))" for q
    using down'(4) [OF that(1,3)] that by (simp add: d1_def)
  moreover have "mr_conflicts r = (if rename_fails then 0 else 1)" "mr_failed r = 0"
    using down'(2) by (simp_all add: r1_def no_downloads_def)
  ultimately show ?thesis using down'(1,3) by blast
qed

section \<open>Examples\<close>

definition demo_env :: drive_env where
  "demo_env = \<lparr>de_case_key = id, de_keys = \<lparr>bk_seal = toy_seal, bk_open = toy_open, bk_nonce = [], bk_registry = no_keys\<rparr>,
     de_to_vec = (\<lambda>v. [])\<rparr>"

definition demo_full :: PathBuf where
  "demo_full = (True, [''r'', ''a.txt''])"

definition demo_disk :: "bytes \<Rightarrow> int \<Rightarrow> bool list \<Rightarrow> disk" where
  "demo_disk b t faults = \<lparr>nodes = [[''r''] \<mapsto> Dir, [''r'', ''a.txt''] \<mapsto> File b t],
     entries = [[''r''], [''r'', ''a.txt'']], io_faults = faults, wall_clock = 9\<rparr>"

definition demo_file :: "string \<Rightarrow> string option \<Rightarrow> int option \<Rightarrow> Item" where
  "demo_file st etag n = (Item_new ''acc'' DRIVE ''i1'' ''a.txt'' ''file'')
     \<lparr>it_parent_remote_id := Some ''top'', it_local_path := Some ''a.txt'', it_etag := etag, it_size := n, it_sync_state := st\<rparr>"

text \<open>The index after a body of that size and time was synchronised.\<close>

definition demo_index :: "string \<Rightarrow> string option \<Rightarrow> int option \<Rightarrow> int \<Rightarrow> int \<Rightarrow> item_db" where
  "demo_index st etag n sz mt =
     snd (set_synced_state ''acc'' DRIVE ''i1'' sz mt None (upsert_item (demo_file st etag n) empty_items))"

definition demo_world :: "item_db \<Rightarrow> disk \<Rightarrow> 'c \<Rightarrow> 'c drive_world" where
  "demo_world db d c = \<lparr>dw_db = db, dw_map = Map.empty, dw_disk = d, dw_cloud = c\<rparr>"

lemma demo_world_sel [simp]:
  "dw_db (demo_world db d c) = db" "dw_disk (demo_world db d c) = d" "dw_cloud (demo_world db d c) = c"
  by (simp_all add: demo_world_def)

lemma demo_disk_sel [simp]:
  "nodes (demo_disk b t faults) = [[''r''] \<mapsto> Dir, [''r'', ''a.txt''] \<mapsto> File b t]"
  "io_faults (demo_disk b t faults) = faults"
  by (simp_all add: demo_disk_def)

lemma demo_placed: "placed demo_full (demo_disk b t faults)"
  by (auto simp: placed_def demo_full_def dir_at_def less_Suc_eq)

lemma demo_synced: "get_synced_state ''acc'' DRIVE ''i1'' (demo_index st etag n sz mt) = Some (sz, mt, None)"
  by (simp add: demo_index_def get_synced_state_def set_synced_state_def update_item_def upsert_item_def sql_upsert_def
      sql_update_def empty_items_def demo_file_def Item_new_def inserted_row_def Item.defs row_by_Cons)

lemma first_copy_free:
  assumes "\<not> path_exists (path_join dir (path_of (conflict_copy_name n host 1))) d"
  shows "unique_conflict_copy dir n host d = conflict_copy_name n host 1"
proof -
  have "(1 :: nat) < 10000" by simp
  then obtain rest where rest: "[1..<10000] = 1 # rest" using upt_conv_Cons by blast
  show ?thesis unfolding unique_conflict_copy_def rest list.map find.simps using assms by (simp only: if_True simp_thms option.simps)
qed

lemma demo_copy_name: "conflict_copy_name ''a.txt'' ''pc'' 1 = ''a-pc-safeBackup-0001.txt''"
  by code_simp

lemma demo_copy: "unique_conflict_copy (True, [''r'']) ''a.txt'' ''pc'' (demo_disk b t faults) = ''a-pc-safeBackup-0001.txt''"
proof -
  have "path_of ''a-pc-safeBackup-0001.txt'' = (False, [''a-pc-safeBackup-0001.txt''])" by code_simp
  then have "\<not> path_exists (path_join (True, [''r'']) (path_of ''a-pc-safeBackup-0001.txt'')) (demo_disk b t faults)"
    by (simp add: path_exists_def path_join_def resolve_normal)
  then show ?thesis using first_copy_free [of _ "''a.txt''" "''pc''", unfolded demo_copy_name] by blast
qed

lemma demo_scratch: "scratch_name ''a.txt'' = ''a.txt.isync-tmp''"
  by code_simp

theorem edit_survives_unless_rename_fails_witness:
  "(let (r, w') = materialize_file demo_env (\<lambda>i c. (Inr [7, 7], c)) ''acc'' (True, [''r'']) ''pc''
         (demo_file ''remote_dirty'' None None) demo_full
         (no_downloads, demo_world (demo_index ''remote_dirty'' None None 1 5) (demo_disk [1, 2, 3] 6 [True]) ())
    in mr_downloaded r = 1 \<and> mr_conflicts r = 0
       \<and> nodes (dw_disk w') [''r'', ''a-pc-safeBackup-0001.txt''] = None)
   \<and> (let (r, w') = materialize_file demo_env (\<lambda>i c. (Inr [7, 7], c)) ''acc'' (True, [''r'']) ''pc''
         (demo_file ''remote_dirty'' None None) demo_full
         (no_downloads, demo_world (demo_index ''remote_dirty'' None None 1 5) (demo_disk [1, 2, 3] 6 []) ())
    in mr_downloaded r = 1 \<and> mr_conflicts r = 1
       \<and> nodes (dw_disk w') [''r'', ''a-pc-safeBackup-0001.txt''] = Some (File [1, 2, 3] 6))"
proof -
  let ?it = "demo_file ''remote_dirty'' None None" and ?db = "demo_index ''remote_dirty'' None None 1 5"
  let ?run = "\<lambda>f. materialize_file demo_env (\<lambda>i c. (Inr [7, 7], c)) ''acc'' (True, [''r'']) ''pc'' ?it demo_full
      (no_downloads, demo_world ?db (demo_disk [1, 2, 3] 6 (if f then [True] else [])) ())"
  have item: "it_remote_id ?it = ''i1''" "it_size ?it = None" by (simp_all add: demo_file_def Item_new_def)
  have full: "snd demo_full = [''r'', ''a.txt'']" "fst demo_full" by (simp_all add: demo_full_def)
  have name: "path_of ''a-pc-safeBackup-0001.txt'' = (False, [''a-pc-safeBackup-0001.txt''])" by code_simp
  have "mr_downloaded (fst (?run f)) = 1 \<and> mr_conflicts (fst (?run f)) = (if f then 0 else 1) \<and> mr_failed (fst (?run f)) = 0
    \<and> (\<exists>m. nodes (dw_disk (snd (?run f))) (snd demo_full) = Some (File (sealed_for_disk (de_keys demo_env) [7, 7]) m))
    \<and> nodes (dw_disk (snd (?run f))) (sibling demo_full ''a-pc-safeBackup-0001.txt'')
        = (if f then None else Some (File [1, 2, 3] 6))
    \<and> (\<forall>q. q \<noteq> snd demo_full \<longrightarrow> q \<noteq> sibling demo_full ''a-pc-safeBackup-0001.txt''
          \<longrightarrow> q \<noteq> sibling demo_full (scratch_name (last (snd demo_full))) \<longrightarrow> nodes (dw_disk (snd (?run f))) q
            = nodes (dw_disk (demo_world ?db (demo_disk [1, 2, 3] 6 (if f then [True] else [])) ())) q)" for f
    using demo_placed name item
    by (intro edit_survives_unless_rename_fails [where account = "''acc''" and sz = 1 and mt = 5 and h = None
          and host = "''pc''" and payload = "[7, 7]"])
      (auto simp: full demo_synced demo_copy demo_scratch sibling_def)
  from this [of True] this [of False] show ?thesis
    by (simp add: full sibling_def split_beta Let_def)
qed

section \<open>The rows of the drive\<close>

lemma set_all_items:
  "set (all_items_by_service a s db) = row_to_item ` {r \<in> set (db_items db). it_account_id r = a \<and> it_service r = s}"
  by (simp add: all_items_by_service_def)

lemma distinct_map_sort_key: "distinct (map f (sort_key k xs)) \<longleftrightarrow> distinct (map f xs)"
  by (simp add: distinct_map)

lemma distinct_row_ids:
  assumes "items_ok db"
  shows "distinct (map it_remote_id (filter (\<lambda>r. it_account_id r = a \<and> it_service r = s \<and> q r) (db_items db)))"
proof -
  let ?rs = "filter (\<lambda>r. it_account_id r = a \<and> it_service r = s \<and> q r) (db_items db)"
  have "distinct (map key_of (db_items db))" using assms by (simp add: items_ok_def unique_rows_def)
  then have "distinct (map key_of ?rs)" by (rule distinct_map_filter)
  then have "inj_on key_of (set ?rs)" "distinct ?rs" by (simp_all add: distinct_map)
  then have "inj_on it_remote_id (set ?rs)" by (auto simp: inj_on_def)
  then show ?thesis using \<open>distinct ?rs\<close> by (simp add: distinct_map)
qed

lemma distinct_item_ids: "items_ok db \<Longrightarrow> distinct (map it_remote_id (all_items_by_service a s db))"
  using distinct_row_ids [of db a s "\<lambda>_. True"] by (simp add: all_items_by_service_def comp_def distinct_map_sort_key)

lemma distinct_live_ids: "items_ok db \<Longrightarrow> distinct (map it_remote_id (items_by_service a s db))"
  using distinct_row_ids [of db a s "\<lambda>r. it_deleted_at r = None"]
  by (simp add: items_by_service_def comp_def distinct_map_sort_key)

lemma live_among_all: "it \<in> set (items_by_service a s db) \<longleftrightarrow> it \<in> set (all_items_by_service a s db) \<and> it_deleted_at it = None"
  by (auto simp: items_by_service_def all_items_by_service_def)

lemma all_items_update:
  assumes "\<And>r. key_of (f r) = key_of r"
  shows "set (all_items_by_service a s (snd (update_item k f db))) =
    (\<lambda>r. row_to_item (if key_of r = k then f r else r)) ` {r \<in> set (db_items db). it_account_id r = a \<and> it_service r = s}"
proof -
  let ?g = "\<lambda>r. if key_of r = k then f r else r" and ?P = "\<lambda>r. it_account_id r = a \<and> it_service r = s"
  have "?P (?g r) = ?P r" for r using assms [of r] by simp
  then have "{r \<in> ?g ` set (db_items db). ?P r} = ?g ` {r \<in> set (db_items db). ?P r}" by blast
  moreover have "set (db_items (snd (update_item k f db))) = ?g ` set (db_items db)"
    by (simp add: update_item_def set_sql_update)
  ultimately show ?thesis by (simp only: set_all_items image_image)
qed

lemma by_id_None: "k \<notin> it_remote_id ` set its \<Longrightarrow> by_id its k = None"
  unfolding by_id_def by (induction its rule: rev_induct) auto

lemma by_id_Some: "distinct (map it_remote_id its) \<Longrightarrow> it \<in> set its \<Longrightarrow> by_id its (it_remote_id it) = Some it"
  unfolding by_id_def by (induction its rule: rev_induct) (auto simp: image_iff)

lemma top_level_path:
  assumes "it_local_path it = Some name" and "\<And>p. it_parent_remote_id it = Some p \<Longrightarrow> p \<notin> it_remote_id ` set its"
  shows "local_rel_path (by_id its) it = Some (path_of name)"
proof (rule local_rel_path_top [OF assms(1)])
  show "Option.bind (it_parent_remote_id it) (by_id its) = None"
    using assms(2) by (cases "it_parent_remote_id it") (simp_all add: by_id_None)
qed

section \<open>A download that fails\<close>

text \<open>A cloud of versions: the content of an item and its etag; a replacement goes through when the etag matches.\<close>

type_synonym versions = "string \<Rightarrow> (bytes \<times> string) option"

definition versioned :: "versions content_replacer" where
  "versioned = \<lparr>cr_replace_if_match = (\<lambda>i b etag c.
       case c i of
         None \<Rightarrow> (Inl ''HTTP 404'', c)
       | Some (old, current_etag) \<Rightarrow>
           if current_etag = etag then (Inr (Some (JObj [(''id'', JStr i)])), c(i \<mapsto> (b, current_etag @ ''+''))) else (Inr None, c)),
     cr_set_mtime = (\<lambda>i s c. (Inr JNull, c))\<rparr>"

lemma ingest_cloud: "dw_cloud (snd (ingest_item env account item now st None w)) = dw_cloud w"
  by (simp add: ingest_item_def store_item_def tombstone_def try_then_def Let_def split: option.split prod.split sum.split)

lemma record_cloud [simp]: "dw_cloud (record_synced_state account i p h w) = dw_cloud w"
  by (simp add: record_synced_state_def split: option.split prod.split)

lemma push_one_modification:
  assumes "body_at (de_keys env) (path_join sroot rel) (dw_disk w) = Some payload" and "dw_cloud w i = Some (newer, etag)"
  shows "dw_cloud (snd (apply_local_modifies env versioned account sroot host [(i, rel, etag)] rep w)) i = Some (payload, etag @ ''+'')"
proof -
  let ?w = "w\<lparr>dw_cloud := (dw_cloud w)(i \<mapsto> (payload, etag @ ''+''))\<rparr>" and ?mt = "local_mtime_secs (path_join sroot rel) (dw_disk w)"
  let ?item = "JObj [(''id'', JStr i)]"
  have "on_dcloud (cr_replace_if_match versioned i payload etag) w = (Inr (Some ?item), ?w)"
    using assms(2) by (simp add: on_dcloud_def versioned_def)
  moreover have "corrected_item versioned i ?item ?mt ?w = (?item, ?w)"
    by (simp add: corrected_item_def on_dcloud_def versioned_def split: option.split)
  moreover obtain r w2 where ing: "ingest_item env account ?item [] ''clean'' None ?w = (r, w2)" by fastforce
  moreover have "dw_cloud w2 i = Some (payload, etag @ ''+'')"
    using ingest_cloud [of env account ?item "[]" "''clean''" ?w] ing by simp
  ultimately show ?thesis using assms(1) by (cases r) (simp_all add: try_then_def)
qed

text \<open>C7: A failed download is answered by pushing the old body over the new version. Take a file of the index whose
  new cloud version has another length, and on disk the body of the last synchronisation, unedited.
  When the download of the new version fails, the scan for local modifications of the same pass reports
  the file, with the etag of the new version, because it compares the disk with the new metadata and does
  not look at whether the item is still waiting for its download; and replacing with that etag succeeds,
  so that the cloud's newer content is overwritten by the old body.\<close>

theorem failed_download_is_pushed_back:
  assumes "items_ok (dw_db w)" and "it \<in> set (all_items_by_service account DRIVE (dw_db w))"
    and "it_deleted_at it = None" and "it_item_type it = ''file''" and "it_etag it = Some etag"
    and "it_local_path it = Some name"
    and "\<And>p. it_parent_remote_id it = Some p \<Longrightarrow> p \<notin> it_remote_id ` set (all_items_by_service account DRIVE (dw_db w))"
    and "full = path_join sroot (path_of name)" and "placed full (dw_disk w)"
    and "nodes (dw_disk w) (snd full) = Some (File b t)" and "body_at (de_keys env) full (dw_disk w) = Some old"
    and "it_size it \<noteq> Some (plain_len_i64 full (dw_disk w))"
    and "get_synced_state account DRIVE (it_remote_id it) (dw_db w) = Some (int (length b), t, h)" and "0 \<le> t"
    and "io_faults (dw_disk w) = []" and "download (it_remote_id it) (dw_cloud w) = (Inl e, c)"
    and "c (it_remote_id it) = Some (newer, etag)"
    and "materialize_file env download account sroot host it full (no_downloads, w) = (r, w')"
  shows "mr_failed r = 1 \<and> (it_remote_id it, path_of name, etag) \<in> set (scan_local_modifies env account sroot w')
    \<and> dw_cloud (snd (apply_local_modifies env versioned account sroot host [(it_remote_id it, path_of name, etag)] rep w'))
        (it_remote_id it) = Some (old, etag @ ''+'')"
proof -
  let ?i = "it_remote_id it"
  have meta: "metadata full (dw_disk w) = Some (length b, t)" by (rule metadata_placed [OF assms(9,10)])
  have "\<not> local_file_matches full it (dw_disk w)" using assms(12) meta by (simp add: local_file_matches_def)
  moreover have "\<not> locally_edited_since_sync env full (int (length b)) t h (dw_disk w)"
    using meta assms(14) by (simp add: locally_edited_since_sync_def epoch_secs_def)
  ultimately have run: "r = no_downloads\<lparr>mr_failed := 1\<rparr>" "w' = w\<lparr>dw_cloud := c\<rparr>"
    using assms(13,16,18) create_parent [OF assms(9,15)] path_parent_placed [OF assms(9)]
    by (simp_all add: materialize_file_def local_file_matches_synced_remote_def keep_local_edit_def download_file_def
        on_disk_def on_dcloud_def no_downloads_def Let_def)
  let ?its = "all_items_by_service account DRIVE (dw_db w)"
  have rel: "local_rel_path (by_id ?its) it = Some (path_of name)" by (rule top_level_path [OF assms(6,7)])
  have "is_local_modified env full it (dw_disk w)"
    using meta assms(12) \<open>\<not> local_file_matches full it (dw_disk w)\<close> by (simp add: is_local_modified_def)
  then have "(?i, path_of name, etag) \<in> set (scan_local_modifies env account sroot w)"
    using assms(2-5,8) rel by (force simp: scan_local_modifies_def map_filter_def Let_def)
  moreover have "scan_local_modifies env account sroot w' = scan_local_modifies env account sroot w"
  proof -
    have same: "dw_db w' = dw_db w" "dw_disk w' = dw_disk w" by (simp_all add: run(2))
    show ?thesis unfolding scan_local_modifies_def same ..
  qed
  moreover have "dw_cloud (snd (apply_local_modifies env versioned account sroot host [(?i, path_of name, etag)] rep w')) ?i
      = Some (old, etag @ ''+'')"
    using assms(8,11,17) by (intro push_one_modification) (simp_all add: run(2))
  ultimately show ?thesis using run(1) by (simp add: no_downloads_def)
qed

theorem failed_download_is_pushed_back_witness:
  "let it = demo_file ''remote_dirty'' (Some ''v2'') (Some 5);
       w = demo_world (demo_index ''remote_dirty'' (Some ''v2'') (Some 5) 3 6) (demo_disk [1, 2, 3] 6 [])
             [''i1'' \<mapsto> ([9, 9, 9, 9, 9], ''v2'')];
       (r, w') = materialize_file demo_env (\<lambda>i c. (Inl ''timeout'', c)) ''acc'' (True, [''r'']) ''pc'' it demo_full (no_downloads, w)
   in mr_failed r = 1 \<and> (''i1'', path_of ''a.txt'', ''v2'') \<in> set (scan_local_modifies demo_env ''acc'' (True, [''r'']) w')
    \<and> dw_cloud (snd (apply_local_modifies demo_env versioned ''acc'' (True, [''r'']) ''pc'' [(''i1'', path_of ''a.txt'', ''v2'')]
        \<lparr>mo_uploaded = 0, mo_conflicts = 0, mo_failed = 0\<rparr> w')) ''i1'' = Some ([1, 2, 3], ''v2+'')"
proof -
  let ?it = "demo_file ''remote_dirty'' (Some ''v2'') (Some 5)"
  let ?db = "demo_index ''remote_dirty'' (Some ''v2'') (Some 5) 3 6"
  let ?d = "demo_disk [1, 2, 3] 6 []" and ?c = "[''i1'' \<mapsto> ([9, 9, 9, 9, 9], ''v2'')] :: versions"
  have item: "it_remote_id ?it = ''i1''" "it_deleted_at ?it = None" "it_item_type ?it = ''file''" "it_etag ?it = Some ''v2''"
    "it_local_path ?it = Some ''a.txt''" "it_parent_remote_id ?it = Some ''top''" "it_size ?it = Some 5"
    by (simp_all add: demo_file_def Item_new_def)
  have ok: "items_ok ?db"
    by (simp add: demo_index_def set_synced_state_def update_item_keeps_ok upsert_item_keeps_ok empty_items_ok split_beta)
  have all: "all_items_by_service ''acc'' DRIVE ?db = [?it]" by code_simp
  have body: "body_at (de_keys demo_env) demo_full ?d = Some [1, 2, 3]" by code_simp
  have len: "plain_len_i64 demo_full ?d = 3" by code_simp
  have path: "path_of ''a.txt'' = (False, [''a.txt''])" by code_simp
  obtain r w' where run: "materialize_file demo_env (\<lambda>i c. (Inl ''timeout'', c)) ''acc'' (True, [''r'']) ''pc'' ?it demo_full
      (no_downloads, demo_world ?db ?d ?c) = (r, w')" by fastforce
  have "mr_failed r = 1 \<and> (it_remote_id ?it, path_of ''a.txt'', ''v2'') \<in> set (scan_local_modifies demo_env ''acc'' (True, [''r'']) w')
    \<and> dw_cloud (snd (apply_local_modifies demo_env versioned ''acc'' (True, [''r'']) ''pc'' [(it_remote_id ?it, path_of ''a.txt'', ''v2'')]
        \<lparr>mo_uploaded = 0, mo_conflicts = 0, mo_failed = 0\<rparr> w')) (it_remote_id ?it) = Some ([1, 2, 3], ''v2'' @ ''+'')"
    by (rule failed_download_is_pushed_back [OF _ _ _ _ _ _ _ _ _ _ _ _ _ _ _ _ _ run, where b = "[1, 2, 3]" and t = 6 and h = None
          and e = "''timeout''" and c = ?c and newer = "[9, 9, 9, 9, 9]"])
      (use ok all item demo_placed body len path in \<open>simp_all add: demo_synced demo_full_def path_join_def\<close>)
  then show ?thesis using run by (simp add: item Let_def)
qed

section \<open>Keeping the own version\<close>

lemma path_exists_placed: "placed p d \<Longrightarrow> path_exists p d \<longleftrightarrow> nodes d (snd p) \<noteq> None"
  by (simp add: path_exists_def placed_resolve)

lemma trash_one:
  assumes "placed (path_join sroot rel) d" and "placed (path_join trash rel) d" and "io_faults d = []"
    and "nodes d (snd (path_join sroot rel)) = Some (File b t)" and "nodes d (snd (path_join trash rel)) \<noteq> Some Dir"
  shows "apply_local_deletes sroot trash [\<lparr>pd_remote_id = i, pd_rel = rel\<rparr>] n d =
    (Inr (Suc n), set_node (snd (path_join trash rel)) (Some (File b t)) (set_node (snd (path_join sroot rel)) None d))"
proof -
  let ?f = "path_join sroot rel" and ?t = "path_join trash rel"
  have "rename ?f ?t d = (True, set_node (resolve ?t) (Some (File b t)) (set_node (resolve ?f) None d))"
    using assms placed_resolve [OF assms(1)] placed_resolve [OF assms(2)] placed_dir [OF assms(2)]
    by (intro rename_file) (auto simp: placed_def)
  then show ?thesis
    using assms(4) path_exists_placed [OF assms(1)] path_parent_placed [OF assms(2)] create_parent [OF assms(2,3)]
      placed_resolve [OF assms(1)] placed_resolve [OF assms(2)]
    by (simp add: Let_def)
qed

text \<open>\<open>KeepMine\<close>: the cloud copy is deleted and the local edit takes the original name.\<close>

lemma keep_mine_there:
  assumes "items_ok (dw_db w)" and "it \<in> set (items_by_service account DRIVE (dw_db w))"
    and "it_conflict_state it = Some copy" and "it_local_path it = Some name"
    and "\<And>p. it_parent_remote_id it = Some p \<Longrightarrow> p \<notin> it_remote_id ` set (items_by_service account DRIVE (dw_db w))"
    and "full = path_join sroot (path_of name)" and "placed full (dw_disk w)" and "io_faults (dw_disk w) = []"
    and "nodes (dw_disk w) (snd full) \<noteq> Some Dir" and "nodes (dw_disk w) (sibling full copy) = Some (File mine t)"
    and "path_of copy = (False, [copy])" and "copy \<noteq> ''..''" and "copy \<noteq> last (snd full)"
    and "rw_delete writer (it_remote_id it) (dw_cloud w) = (Inr (), c)"
  obtains d where "resolve_conflict account (it_remote_id it) KeepMine sroot writer w =
      (Inr (), w\<lparr>dw_db := set_conflict_state account DRIVE (it_remote_id it) None (dw_db w), dw_disk := d, dw_cloud := c\<rparr>)"
    and "nodes d = (nodes (dw_disk w))(sibling full copy := None, snd full := Some (File mine t))" and "io_faults d = []"
proof -
  let ?d = "dw_disk w" and ?c = "sibling full copy"
  have ne: "snd full \<noteq> []" using assms(7) by (simp add: placed_def)
  have diff: "?c \<noteq> snd full" using sibling_last [OF ne] assms(13) sibling_eq by metis
  have len: "length ?c = length (snd full)" by (rule length_sibling [OF ne])
  have item: "by_id (items_by_service account DRIVE (dw_db w)) (it_remote_id it) = Some it"
    by (rule by_id_Some [OF distinct_live_ids [OF assms(1)] assms(2)])
  have rel: "local_rel_path (by_id (items_by_service account DRIVE (dw_db w))) it = Some (path_of name)"
    by (rule top_level_path [OF assms(4,5)])
  have copy_path: "path_join (dir_of sroot full) (path_of copy) = (fst full, ?c)"
    by (simp add: dir_and_name [OF assms(7)] path_join_def assms(11) sibling_def)
  obtain g d1 where rm: "remove_file full ?d = (g, d1)" by fastforce
  then have d1: "nodes d1 = nodes ?d \<or> nodes d1 = (nodes ?d)(snd full := None)" "io_faults d1 = []" "placed full d1"
    using assms(7,8) placed_resolve [OF assms(7)]
    by (auto simp: remove_file_def io_step_ok placed_set_node split: if_splits)
  have spot: "placed (fst full, ?c) d1" by (rule placed_sibling [OF d1(3) assms(12)])
  have there: "nodes d1 ?c = Some (File mine t)" using d1(1) assms(10) diff by auto
  let ?e = "set_node (snd full) (Some (File mine t)) (set_node ?c None d1)"
  have "rename (fst full, ?c) full d1 =
      (True, set_node (resolve full) (Some (File mine t)) (set_node (resolve (fst full, ?c)) None d1))"
    using d1 there assms(9) ne placed_resolve [OF spot] placed_resolve [OF d1(3)] placed_dir [OF d1(3)]
    by (intro rename_file) auto
  then have mv: "rename (fst full, ?c) full d1 = (True, ?e)" using placed_resolve [OF spot] placed_resolve [OF d1(3)] by simp
  have "resolve_conflict account (it_remote_id it) KeepMine sroot writer w =
      (Inr (), w\<lparr>dw_db := set_conflict_state account DRIVE (it_remote_id it) None (dw_db w), dw_disk := ?e, dw_cloud := c\<rparr>)"
    using item rel assms(3,14) rm mv
    by (simp add: resolve_conflict_def Let_def assms(6) [symmetric] copy_path try_then_def malformed_def on_dcloud_def on_disk_def)
  moreover have "nodes ?e = (nodes ?d)(?c := None, snd full := Some (File mine t))" using d1(1) by auto
  ultimately show ?thesis using that d1(2) by simp
qed

lemma tombstone_ingest:
  "ingest_item env account (JObj [(''id'', JStr i), (''deleted'', JObj [])]) now st archive w =
     (Inr Drive_Items.Deleted, tombstone account i now archive w)"
  by (simp add: ingest_item_def json_gets removed_def)

lemma all_ids_update:
  assumes "\<And>r. key_of (f r) = key_of r"
  shows "it_remote_id ` set (all_items_by_service a s (snd (update_item k f db))) = it_remote_id ` set (all_items_by_service a s db)"
proof -
  have "it_remote_id (row_to_item (if key_of r = k then f r else r)) = it_remote_id r" for r using assms [of r] by simp
  then have "(\<lambda>r. it_remote_id (row_to_item (if key_of r = k then f r else r))) ` S = it_remote_id ` S" for S :: "item_row set"
    by (intro image_cong refl)
  note same = this
  show ?thesis unfolding all_items_update [OF assms] set_all_items [of a s db] image_image same by (simp only: row_to_item_selectors)
qed

lemma row_update_member:
  "r \<in> set (db_items db) \<Longrightarrow> key_of r = k \<Longrightarrow> f r \<in> set (db_items (snd (update_item k f db)))"
  by (force simp: update_item_def set_sql_update)

text \<open>The item after its conflict is cleared and its tombstone has come in.\<close>

lemma tombstoned_item:
  assumes "it \<in> set (all_items_by_service account DRIVE db)"
    and "db2 = snd (mark_deleted account DRIVE (it_remote_id it) now (set_conflict_state account DRIVE (it_remote_id it) cs db))"
  obtains it2 where "it2 \<in> set (all_items_by_service account DRIVE db2)"
    and "it_remote_id it2 = it_remote_id it" and "it_deleted_at it2 = Some now" and "it_local_path it2 = it_local_path it"
    and "it_parent_remote_id it2 = it_parent_remote_id it"
    and "it_remote_id ` set (all_items_by_service account DRIVE db2) = it_remote_id ` set (all_items_by_service account DRIVE db)"
proof -
  let ?k = "(account, DRIVE, it_remote_id it)"
  let ?f = "\<lambda>r. r\<lparr>it_conflict_state := cs\<rparr> :: item_row"
  let ?g = "\<lambda>r. r\<lparr>it_deleted_at := Some now, it_sync_state := ''deleted''\<rparr> :: item_row"
  obtain r where r: "r \<in> set (db_items db)" "it = row_to_item r" "key_of r = ?k" using assms by (auto simp: set_all_items)
  have db2: "db2 = snd (update_item ?k ?g (snd (update_item ?k ?f db)))"
    by (simp add: assms(2) mark_deleted_def set_conflict_state_def split: prod.split)
  have cleared: "?f r \<in> set (db_items (snd (update_item ?k ?f db)))" by (rule row_update_member [OF r(1,3)])
  have "?g (?f r) \<in> set (db_items db2)" unfolding db2 by (rule row_update_member [OF cleared]) (use r(3) in simp)
  then have "row_to_item (?g (?f r)) \<in> set (all_items_by_service account DRIVE db2)" using r(3) by (simp add: set_all_items)
  moreover have "it_remote_id ` set (all_items_by_service account DRIVE db2) = it_remote_id ` set (all_items_by_service account DRIVE db)"
    unfolding db2 by (subst all_ids_update, simp)+ simp
  ultimately show ?thesis using that [of "row_to_item (?g (?f r))"] r(2) by simp
qed

lemma placed_cong:
  assumes "\<And>k. k < length (snd p) \<Longrightarrow> nodes d' (take k (snd p)) = nodes d (take k (snd p))"
  shows "placed p d' \<longleftrightarrow> placed p d"
  using assms by (simp add: placed_def dir_at_def)

text \<open>C30: The version the user keeps is moved to the trash. Resolving a conflict with \<open>KeepMine\<close> deletes the
  cloud's item and puts the local edit at the original path, but leaves the row of the deleted item in
  the index. As soon as the cloud's delta reports that deletion, the pending local deletions name exactly this path,
  and applying them moves the version the user chose to keep out of the sync root into the trash.\<close>

theorem kept_version_is_trashed:
  assumes "items_ok (dw_db w)" and "it \<in> set (items_by_service account DRIVE (dw_db w))"
    and "it_conflict_state it = Some copy" and "it_local_path it = Some name"
    and "\<And>p. it_parent_remote_id it = Some p \<Longrightarrow> p \<notin> it_remote_id ` set (all_items_by_service account DRIVE (dw_db w))"
    and "full = path_join sroot (path_of name)" and "placed full (dw_disk w)" and "io_faults (dw_disk w) = []"
    and "nodes (dw_disk w) (snd full) \<noteq> Some Dir" and "nodes (dw_disk w) (sibling full copy) = Some (File mine t)"
    and "path_of copy = (False, [copy])" and "copy \<noteq> ''..''" and "copy \<noteq> last (snd full)"
    and "rw_delete writer (it_remote_id it) (dw_cloud w) = (Inr (), c)"
    and "bin = path_join trash (path_of name)" and "placed bin (dw_disk w)" and "nodes (dw_disk w) (snd bin) = None"
    and "snd bin \<noteq> snd full"
    and "resolve_conflict account (it_remote_id it) KeepMine sroot writer w = (r, w1)"
    and "ingest_item env account (JObj [(''id'', JStr (it_remote_id it)), (''deleted'', JObj [])]) now st None w1 = (x, w2)"
  shows "r = Inr () \<and> nodes (dw_disk w1) (snd full) = Some (File mine t) \<and> x = Inr Drive_Items.Deleted
    \<and> \<lparr>pd_remote_id = it_remote_id it, pd_rel = path_of name\<rparr> \<in> set (pending_local_deletes account sroot w2)
    \<and> (case apply_local_deletes sroot trash [\<lparr>pd_remote_id = it_remote_id it, pd_rel = path_of name\<rparr>] 0 (dw_disk w2) of
         (n, d) \<Rightarrow> n = Inr 1 \<and> nodes d (snd full) = None \<and> nodes d (snd bin) = Some (File mine t))"
proof -
  let ?i = "it_remote_id it" and ?d = "dw_disk w" and ?c = "sibling full copy"
  have ne: "snd full \<noteq> []" using assms(7) by (simp add: placed_def)
  have all: "it \<in> set (all_items_by_service account DRIVE (dw_db w))" using assms(2) by (simp add: live_among_all)
  have live_top: "p \<notin> it_remote_id ` set (items_by_service account DRIVE (dw_db w))" if "it_parent_remote_id it = Some p" for p
    using assms(5) [OF that] by (auto simp: live_among_all)
  obtain d where kept: "resolve_conflict account ?i KeepMine sroot writer w =
      (Inr (), w\<lparr>dw_db := set_conflict_state account DRIVE ?i None (dw_db w), dw_disk := d, dw_cloud := c\<rparr>)"
    and d: "nodes d = (nodes ?d)(?c := None, snd full := Some (File mine t))" "io_faults d = []"
    by (rule keep_mine_there [OF assms(1-4) live_top assms(6-14)])
  have w1: "r = Inr ()" "w1 = w\<lparr>dw_db := set_conflict_state account DRIVE ?i None (dw_db w), dw_disk := d, dw_cloud := c\<rparr>"
    using kept assms(19) by simp_all
  define db2 where "db2 = snd (mark_deleted account DRIVE ?i now (set_conflict_state account DRIVE ?i None (dw_db w)))"
  have w2: "x = Inr Drive_Items.Deleted" "dw_db w2 = db2" "dw_disk w2 = d"
    using assms(20) by (auto simp: tombstone_ingest tombstone_def w1 db2_def)
  obtain it2 where it2: "it2 \<in> set (all_items_by_service account DRIVE db2)" "it_remote_id it2 = ?i" "it_deleted_at it2 = Some now"
    "it_local_path it2 = it_local_path it" "it_parent_remote_id it2 = it_parent_remote_id it"
    and ids: "it_remote_id ` set (all_items_by_service account DRIVE db2) = it_remote_id ` set (all_items_by_service account DRIVE (dw_db w))"
    by (rule tombstoned_item [OF all db2_def])
  have rel: "local_rel_path (by_id (all_items_by_service account DRIVE db2)) it2 = Some (path_of name)"
    using it2(4,5) assms(4,5) ids by (intro top_level_path) auto
  have "take k (snd full) \<noteq> snd full \<and> take k (snd full) \<noteq> ?c" if "k < length (snd full)" for k
  proof -
    have "length (take k (snd full)) \<noteq> length (snd full)" "length (take k (snd full)) \<noteq> length ?c"
      using that length_sibling [OF ne] by simp_all
    then show ?thesis by metis
  qed
  then have full: "placed full d" using assms(7) by (subst placed_cong [where d = ?d]) (simp_all add: d(1))
  have "take k (snd bin) \<noteq> snd full \<and> take k (snd bin) \<noteq> ?c" if "k < length (snd bin)" for k
  proof -
    have "dir_at (take k (snd bin)) ?d" using assms(16) that by (simp add: placed_def)
    moreover have "\<not> dir_at (snd full) ?d" "\<not> dir_at ?c ?d" using ne assms(9,10) by (simp_all add: dir_at_def sibling_def)
    ultimately show ?thesis by metis
  qed
  then have bin: "placed bin d" using assms(16) by (subst placed_cong [where d = ?d]) (simp_all add: d(1))
  have "path_exists full d" using full by (simp add: path_exists_placed d(1))
  then have "\<lparr>pd_remote_id = ?i, pd_rel = path_of name\<rparr> \<in> set (pending_local_deletes account sroot w2)"
    using it2(1-3) rel assms(6) by (force simp: pending_local_deletes_def w2 map_filter_def Let_def)
  moreover have "apply_local_deletes sroot trash [\<lparr>pd_remote_id = ?i, pd_rel = path_of name\<rparr>] 0 (dw_disk w2) =
      (Inr (Suc 0), set_node (snd bin) (Some (File mine t)) (set_node (snd full) None d))"
    unfolding w2(3) assms(6,15) using full bin d assms(17,18) unfolding assms(6,15)
    by (intro trash_one) (auto split: if_splits)
  ultimately show ?thesis using w1 w2(1) d(1) assms(18) by simp
qed

text \<open>A conflict: the cloud's version at the path, the local edit beside it, and a trash.\<close>

definition demo_copy_file :: string where
  "demo_copy_file = ''a-copy.txt''"

definition demo_conflict :: "unit drive_world" where
  "demo_conflict = demo_world
     (set_conflict_state ''acc'' DRIVE ''i1'' (Some demo_copy_file) (demo_index ''clean'' None None 1 5))
     \<lparr>nodes = [[''r''] \<mapsto> Dir, [''t''] \<mapsto> Dir, [''r'', ''a.txt''] \<mapsto> File [7] 5, [''r'', demo_copy_file] \<mapsto> File [1, 2, 3] 6],
      entries = [], io_faults = [], wall_clock = 9\<rparr> ()"

definition demo_writer :: "unit remote_writer" where
  "demo_writer = \<lparr>rw_upload_resumable = (\<lambda>a dest b wc. (Inl ''no'', wc)), rw_delete = (\<lambda>i c. (Inr (), c)),
     rw_set_mtime = (\<lambda>i s c. (Inr JNull, c))\<rparr>"

theorem kept_version_is_trashed_witness:
  "let (r, w1) = resolve_conflict ''acc'' ''i1'' KeepMine (True, [''r'']) demo_writer demo_conflict;
       (x, w2) = ingest_item demo_env ''acc'' (JObj [(''id'', JStr ''i1''), (''deleted'', JObj [])]) ''now'' [] None w1;
       (n, d) = apply_local_deletes (True, [''r'']) (True, [''t'']) [\<lparr>pd_remote_id = ''i1'', pd_rel = path_of ''a.txt''\<rparr>] 0 (dw_disk w2)
   in r = Inr () \<and> nodes (dw_disk w1) [''r'', ''a.txt''] = Some (File [1, 2, 3] 6)
      \<and> \<lparr>pd_remote_id = ''i1'', pd_rel = path_of ''a.txt''\<rparr> \<in> set (pending_local_deletes ''acc'' (True, [''r'']) w2)
      \<and> nodes d [''r'', ''a.txt''] = None \<and> nodes d [''t'', ''a.txt''] = Some (File [1, 2, 3] 6)"
proof -
  let ?it = "(demo_file ''clean'' None None)\<lparr>it_conflict_state := Some demo_copy_file\<rparr>"
  have item: "it_remote_id ?it = ''i1''" "it_local_path ?it = Some ''a.txt''" "it_parent_remote_id ?it = Some ''top''"
    by (simp_all add: demo_file_def Item_new_def)
  have ok: "items_ok (dw_db demo_conflict)"
    by (simp add: demo_conflict_def demo_index_def set_synced_state_def set_conflict_state_def update_item_keeps_ok
        upsert_item_keeps_ok empty_items_ok split_beta)
  have all: "all_items_by_service ''acc'' DRIVE (dw_db demo_conflict) = [?it]" by code_simp
  have live: "items_by_service ''acc'' DRIVE (dw_db demo_conflict) = [?it]" by code_simp
  have path: "path_of ''a.txt'' = (False, [''a.txt''])" "path_of demo_copy_file = (False, [demo_copy_file])" by code_simp+
  have disk: "nodes (dw_disk demo_conflict) =
      [[''r''] \<mapsto> Dir, [''t''] \<mapsto> Dir, [''r'', ''a.txt''] \<mapsto> File [7] 5, [''r'', demo_copy_file] \<mapsto> File [1, 2, 3] 6]"
    "io_faults (dw_disk demo_conflict) = []" by (simp_all add: demo_conflict_def)
  have copy: "demo_copy_file \<noteq> ''..''" "demo_copy_file \<noteq> ''a.txt''" by (simp_all add: demo_copy_file_def)
  have placed: "placed (True, [''r'', ''a.txt'']) (dw_disk demo_conflict)" "placed (True, [''t'', ''a.txt'']) (dw_disk demo_conflict)"
    using disk by (auto simp: placed_def dir_at_def less_Suc_eq)
  obtain r w1 where res: "resolve_conflict ''acc'' (it_remote_id ?it) KeepMine (True, [''r'']) demo_writer demo_conflict = (r, w1)"
    by fastforce
  obtain x w2 where ing: "ingest_item demo_env ''acc'' (JObj [(''id'', JStr (it_remote_id ?it)), (''deleted'', JObj [])]) ''now'' [] None w1
      = (x, w2)" by fastforce
  have "r = Inr () \<and> nodes (dw_disk w1) (snd (True, [''r'', ''a.txt''])) = Some (File [1, 2, 3] 6) \<and> x = Inr Drive_Items.Deleted
    \<and> \<lparr>pd_remote_id = it_remote_id ?it, pd_rel = path_of ''a.txt''\<rparr> \<in> set (pending_local_deletes ''acc'' (True, [''r'']) w2)
    \<and> (case apply_local_deletes (True, [''r'']) (True, [''t'']) [\<lparr>pd_remote_id = it_remote_id ?it, pd_rel = path_of ''a.txt''\<rparr>] 0
           (dw_disk w2) of
         (n, d) \<Rightarrow> n = Inr 1 \<and> nodes d (snd (True, [''r'', ''a.txt''])) = None
           \<and> nodes d (snd (True, [''t'', ''a.txt''])) = Some (File [1, 2, 3] 6))"
    by (rule kept_version_is_trashed [OF _ _ _ _ _ _ _ _ _ _ _ _ _ _ _ _ _ _ res ing, where copy = demo_copy_file and c = "()"])
      (use ok all live item path disk copy placed in \<open>simp_all add: path_join_def sibling_def demo_writer_def\<close>)
  then show ?thesis using res ing by (simp add: item Let_def split_beta del: apply_local_deletes.simps)
qed

section \<open>The mass-delete guard\<close>

text \<open>On counts of this size double precision is exact enough: comparing the rounded quotient with one half
  gives what comparing the quotient gives.\<close>

definition halves_exact :: "f64 \<Rightarrow> bool" where
  "halves_exact fp \<longleftrightarrow> (\<forall>a b. 0 < b \<and> a < 2 ^ 26 \<and> b < 2 ^ 26 \<longrightarrow> (\<exists>q. f64_quotient fp a b = Some q \<and> (q < 1 / 2 \<longleftrightarrow> 2 * a < b)))"

lemma default_guard_half:
  assumes "halves_exact fp" and "0 < n" and "n < 1000" and "10 \<le> tracked" and "tracked < 2 ^ 26"
  shows "guard_evaluate fp default_guard n tracked dir = Proceed \<longleftrightarrow> 2 * n < tracked"
proof -
  have "n < 2 ^ 26" using assms(3) by simp
  moreover have "0 < tracked" using assms(4) by simp
  ultimately obtain q where "f64_quotient fp n tracked = Some q" "q < 1 / 2 \<longleftrightarrow> 2 * n < tracked"
    using assms(1,5) unfolding halves_exact_def by metis
  then show ?thesis using assms(2-4) by (auto simp: guard_evaluate_def default_guard_def Let_def not_less)
qed

text \<open>The guard on remote deletions lets everything through but the loss of the whole library. The pass
  guards with the number of remaining items plus the number of pending deletions, but the count it calls
  remaining includes deleted rows that still have a local path, which every ingested row keeps. So
  under the default limit of one half, with fewer than a thousand deletions and at least ten items,
  the deletions are applied whenever a single one of the items is left, and held back only when all of them are gone.\<close>

theorem guard_lets_all_but_total_loss_through:
  assumes "halves_exact fp"
    and "rows = filter (\<lambda>r. it_account_id r = account \<and> it_service r = DRIVE) (db_items (dw_db w))"
    and "\<forall>r \<in> set rows. it_local_path r \<noteq> None"
    and "pending = pending_local_deletes account sroot w" and "pending \<noteq> []" and "length pending < 1000"
    and "10 \<le> length rows" and "length rows < 2 ^ 25"
  shows "if length pending < length rows
    then trash_step fp default_guard account sroot trash (out, w) =
           reported (on_disk (apply_local_deletes sroot trash pending 0) w) (\<lambda>n. out\<lparr>pr_local_trashed := n\<rparr>)
    else \<exists>reason. trash_step fp default_guard account sroot trash (out, w) =
           (Inr (out\<lparr>pr_local_delete_blocked := Some reason\<rparr>), w)"
proof -
  let ?n = "length pending" and ?listed = "filter (\<lambda>r. it_account_id r = account \<and> it_service r = DRIVE
      \<and> (it_deleted_at r = None \<or> it_local_path r \<noteq> None)) (db_items (dw_db w))"
  have "?listed = filter (\<lambda>r. it_deleted_at r = None \<or> it_local_path r \<noteq> None) rows"
    by (simp add: assms(2) conj_ac)
  also have "\<dots> = rows" using assms(3) by (simp add: filter_id_conv)
  finally have count: "count_by_service account DRIVE (dw_db w) = length rows" by (simp add: count_by_service_def)
  have "guard_evaluate fp default_guard ?n (length rows + ?n) CloudToLocal = Proceed \<longleftrightarrow> 2 * ?n < length rows + ?n"
    using assms(5-8) by (intro default_guard_half [OF assms(1)]) simp_all
  then have verdict: "guard_evaluate fp default_guard ?n (length rows + ?n) CloudToLocal = Proceed \<longleftrightarrow> ?n < length rows"
    by linarith
  show ?thesis
    using verdict assms(5)
    by (cases "guard_evaluate fp default_guard ?n (length rows + ?n) CloudToLocal")
      (auto simp: trash_step_def count assms(4) [symmetric] Let_def)
qed

text \<open>Ten files of which nine are deleted in the cloud, with exact arithmetic.\<close>

definition exact_f64 :: f64 where
  "exact_f64 = \<lparr>nearest = id, percent = (\<lambda>q. ''50'')\<rparr>"

definition nine_gone :: item_db where
  "nine_gone = empty_items\<lparr>db_items := map (\<lambda>n. inserted_row ((Item_new ''acc'' DRIVE [n] [n] ''file'')
     \<lparr>it_parent_remote_id := Some ''top'', it_local_path := Some [n], it_deleted_at := (if n = CHR ''0'' then None else Some ''now'')\<rparr>))
     ''0123456789''\<rparr>"

definition nine_disk :: disk where
  "nine_disk = \<lparr>nodes = (\<lambda>p. if p = [''r''] then Some Dir
       else if length p = 2 \<and> hd p = ''r'' \<and> last p \<in> set (map (\<lambda>n. [n]) ''0123456789'') then Some (File [] 1) else None),
     entries = [], io_faults = [], wall_clock = 2\<rparr>"

lemma exact_halves: "halves_exact exact_f64"
proof -
  have "(of_nat a / of_nat b < (1 / 2 :: rat)) = (2 * a < b)" if "0 < b" for a b :: nat
  proof -
    have "(of_nat a / of_nat b < (1 / 2 :: rat)) = (of_nat (2 * a) < (of_nat b :: rat))"
      using that by (simp add: field_simps)
    then show ?thesis by (simp only: of_nat_less_iff)
  qed
  then show ?thesis by (simp add: halves_exact_def f64_quotient_def exact_f64_def)
qed

theorem guard_lets_all_but_total_loss_through_witness:
  "length (pending_local_deletes ''acc'' (True, [''r'']) (demo_world nine_gone nine_disk ())) = 9
   \<and> trash_step exact_f64 default_guard ''acc'' (True, [''r'']) (True, [''t'']) (no_pass, demo_world nine_gone nine_disk ())
     = reported (on_disk (apply_local_deletes (True, [''r'']) (True, [''t''])
         (pending_local_deletes ''acc'' (True, [''r'']) (demo_world nine_gone nine_disk ())) 0) (demo_world nine_gone nine_disk ()))
         (\<lambda>n. no_pass\<lparr>pr_local_trashed := n\<rparr>)"
proof -
  let ?w = "demo_world nine_gone nine_disk ()"
  let ?rows = "filter (\<lambda>r. it_account_id r = ''acc'' \<and> it_service r = DRIVE) (db_items (dw_db ?w))"
  have len: "length (pending_local_deletes ''acc'' (True, [''r'']) ?w) = 9" by code_simp
  have rows: "length ?rows = 10" "\<forall>r \<in> set ?rows. it_local_path r \<noteq> None" by code_simp+
  then show ?thesis
    using guard_lets_all_but_total_loss_through [OF exact_halves refl rows(2) refl, of "(True, [''r''])" "(True, [''t''])" no_pass] len
    by (simp add: rows(1) flip: length_greater_0_conv)
qed

end
