(* ===== verification/Graph_Requests.thy ===== *)
theory Graph_Requests
  imports Upload_Session OneDrive_Sink Local_Disk Text_Ops
begin

text \<open>
  How requests of the Graph client are written (\<^verbatim>\<open>graph/src/http.rs\<close>): percent-encoding of ids and paths,
  the URLs of the path-addressed uploads, and the JSON batch that deletes to-do tasks. Texts are their UTF-8
  bytes.
\<close>

section \<open>Percent-encoding\<close>

definition unreserved :: "char \<Rightarrow> bool" where
  "unreserved c \<longleftrightarrow>
     (let n = of_char c :: nat
      in 65 \<le> n \<and> n \<le> 90 \<or> 97 \<le> n \<and> n \<le> 122 \<or> 48 \<le> n \<and> n \<le> 57 \<or> c \<in> set ''-_.~'')"

definition upper_digit :: "nat \<Rightarrow> char" where
  "upper_digit d = (if d < 10 then char_of (48 + d) else char_of (55 + d))"

definition percent_byte :: "char \<Rightarrow> string" where
  "percent_byte c = [CHR 0x25, upper_digit (of_char c div 16), upper_digit (of_char c mod 16)]"

definition encode_seg :: "string \<Rightarrow> string" where
  "encode_seg seg = concat (map (\<lambda>b. if unreserved b then [b] else percent_byte b) seg)"

definition encode_id :: "string \<Rightarrow> string" where
  "encode_id i = encode_seg i"

definition trim_slashes :: "string \<Rightarrow> string" where
  "trim_slashes s = rev (dropWhile (\<lambda>c. c = CHR ''/'') (rev (dropWhile (\<lambda>c. c = CHR ''/'') s)))"

definition enc_path :: "string \<Rightarrow> string" where
  "enc_path path = join_with ''/'' (map encode_seg (split_slash (trim_slashes path)))"

text \<open>The encoding of the uploads: leading slashes are dropped and spaces replaced, nothing else.\<close>

definition escape_spaces :: "string \<Rightarrow> string" where
  "escape_spaces s = concat (map (\<lambda>c. if c = CHR '' '' then [CHR 0x25] @ ''20'' else [c]) s)"

definition enc :: "string \<Rightarrow> string" where
  "enc path = escape_spaces (dropWhile (\<lambda>c. c = CHR ''/'') path)"

section \<open>URLs of the uploads\<close>

definition simple_upload_url :: "string \<Rightarrow> string \<Rightarrow> string" where
  "simple_upload_url base dest = base @ ''/me/drive/root:/'' @ enc dest @ '':/content''"

definition session_create_url :: "string \<Rightarrow> string \<Rightarrow> string" where
  "session_create_url base dest = base @ ''/me/drive/root:/'' @ enc dest @ '':/createUploadSession''"

record 'c raw_http =
  rq_put :: "string \<Rightarrow> bytes \<Rightarrow> 'c \<Rightarrow> (UploadError + answer) \<times> 'c"
  rq_post :: "string \<Rightarrow> 'c \<Rightarrow> (UploadError + answer) \<times> 'c"
  rq_put_range :: "string \<Rightarrow> string \<Rightarrow> bytes \<Rightarrow> 'c \<Rightarrow> (UploadError + answer) \<times> 'c"
  rq_get :: "string \<Rightarrow> 'c \<Rightarrow> (UploadError + answer) \<times> 'c"

definition uploads_over :: "string \<Rightarrow> 'c raw_http \<Rightarrow> 'c http" where
  "uploads_over base q =
     \<lparr>http_put_content = (\<lambda>dest. rq_put q (simple_upload_url base dest)),
      http_create_session = (\<lambda>dest. rq_post q (session_create_url base dest)),
      http_put_range = rq_put_range q, http_get = rq_get q\<rparr>"

section \<open>Deleting tasks in batches\<close>

definition GRAPH_BATCH_REQUEST_LIMIT :: nat where
  "GRAPH_BATCH_REQUEST_LIMIT = 20"

definition TODO_DELETE_BATCH_PARALLELISM :: nat where
  "TODO_DELETE_BATCH_PARALLELISM = 4"

definition batch_request :: "nat \<Rightarrow> string \<times> string \<Rightarrow> json" where
  "batch_request index task =
     JObj [(''id'', JStr (show_nat index)), (''method'', JStr ''DELETE''),
       (''url'', JStr (''/me/todo/lists/'' @ encode_id (fst task) @ ''/tasks/'' @ encode_id (snd task)))]"

definition batch_body :: "(string \<times> string) list \<Rightarrow> json" where
  "batch_body items = JObj [(''requests'', JArr (map (\<lambda>(n, task). batch_request n task) (enumerate 0 items)))]"

definition response_index :: "nat \<Rightarrow> json \<Rightarrow> nat option" where
  "response_index n v =
     (case Option.bind (get_str ''id'' v) parse_u64 of Some i \<Rightarrow> if i < n then Some i else None | None \<Rightarrow> None)"

definition response_status :: "json \<Rightarrow> nat option" where
  "response_status v =
     (case Option.bind (get ''status'' v) as_int of
        Some s \<Rightarrow> if 0 \<le> s \<and> s < 65536 then Some (nat s) else None
      | None \<Rightarrow> None)"

definition gone_or_ok :: "nat \<Rightarrow> bool" where
  "gone_or_ok st \<longleftrightarrow> 200 \<le> st \<and> st < 300 \<or> st = 404"

fun check_responses :: "json list \<Rightarrow> bool list \<Rightarrow> UploadError + bool list" where
  "check_responses [] seen = Inr seen"
| "check_responses (v # vs) seen =
     (case response_index (length seen) v of
        None \<Rightarrow> Inl (Parse ''invalid Graph batch response id'')
      | Some i \<Rightarrow>
          if seen ! i then Inl (Parse ''duplicate Graph batch response id'')
          else (case response_status v of
                  None \<Rightarrow> Inl (Parse ''invalid Graph batch response status'')
                | Some st \<Rightarrow>
                    if \<not> gone_or_ok st then Inl (Http st [])
                    else check_responses vs (seen[i := True])))"

definition check_batch :: "nat \<Rightarrow> json \<Rightarrow> UploadError + unit" where
  "check_batch n v =
     (case get_array ''responses'' v of
        None \<Rightarrow> Inl (Parse ''Graph batch response missing responses'')
      | Some rs \<Rightarrow>
          if length rs \<noteq> n then Inl (Parse ''Graph batch response count mismatch'')
          else (case check_responses rs (replicate n False) of
                  Inl e \<Rightarrow> Inl e
                | Inr seen \<Rightarrow> if False \<in> set seen then Inl (Parse ''incomplete Graph batch response'') else Inr ()))"

definition delete_tasks_batch_chunk ::
  "(json \<Rightarrow> 'c \<Rightarrow> (UploadError + answer) \<times> 'c) \<Rightarrow> (string \<times> string) list \<Rightarrow> 'c \<Rightarrow> (UploadError + unit) \<times> 'c" where
  "delete_tasks_batch_chunk post items c =
     (if items = [] \<or> length items > GRAPH_BATCH_REQUEST_LIMIT then (Inl (Parse ''invalid Graph batch size''), c)
      else answered (\<lambda>a. case json_or_err a of Inl e \<Rightarrow> Inl e | Inr v \<Rightarrow> check_batch (length items) v)
             (post (batch_body items) c))"

text \<open>The chunks of a wave run in parallel: every one is posted, in an order that the schedule picks, and the
  first failure in the order of the chunks is the outcome of the wave.\<close>

fun post_scheduled ::
  "(json \<Rightarrow> 'c \<Rightarrow> (UploadError + answer) \<times> 'c) \<Rightarrow> (string \<times> string) list list \<Rightarrow> nat list
     \<Rightarrow> (nat \<Rightarrow> UploadError + unit) \<Rightarrow> 'c \<Rightarrow> (nat \<Rightarrow> UploadError + unit) \<times> 'c" where
  "post_scheduled post parts [] out c = (out, c)"
| "post_scheduled post parts (i # order) out c =
     (case delete_tasks_batch_chunk post (parts ! i) c of (r, c) \<Rightarrow> post_scheduled post parts order (out(i := r)) c)"

fun first_failure :: "(UploadError + unit) list \<Rightarrow> UploadError + unit" where
  "first_failure [] = Inr ()"
| "first_failure (Inl e # rs) = Inl e"
| "first_failure (Inr x # rs) = first_failure rs"

definition run_wave ::
  "(json \<Rightarrow> 'c \<Rightarrow> (UploadError + answer) \<times> 'c) \<Rightarrow> (nat \<Rightarrow> nat list) \<Rightarrow> (string \<times> string) list \<Rightarrow> 'c
     \<Rightarrow> (UploadError + unit) \<times> 'c" where
  "run_wave post schedule wave c =
     (let parts = chunks GRAPH_BATCH_REQUEST_LIMIT wave
      in case post_scheduled post parts (schedule (length parts)) (\<lambda>i. Inr ()) c of
           (out, c) \<Rightarrow> (first_failure (map out [0..<length parts]), c))"

fun run_waves ::
  "(json \<Rightarrow> 'c \<Rightarrow> (UploadError + answer) \<times> 'c) \<Rightarrow> (nat \<Rightarrow> nat list) \<Rightarrow> (string \<times> string) list list \<Rightarrow> 'c
     \<Rightarrow> (UploadError + unit) \<times> 'c" where
  "run_waves post schedule [] c = (Inr (), c)"
| "run_waves post schedule (wave # waves) c =
     (case run_wave post schedule wave c of
        (Inl e, c) \<Rightarrow> (Inl e, c)
      | (Inr x, c) \<Rightarrow> run_waves post schedule waves c)"

definition delete_tasks_batch ::
  "(json \<Rightarrow> 'c \<Rightarrow> (UploadError + answer) \<times> 'c) \<Rightarrow> (nat \<Rightarrow> nat list) \<Rightarrow> (string \<times> string) list \<Rightarrow> 'c
     \<Rightarrow> (UploadError + unit) \<times> 'c" where
  "delete_tasks_batch post schedule items c =
     run_waves post schedule (chunks (GRAPH_BATCH_REQUEST_LIMIT * TODO_DELETE_BATCH_PARALLELISM) items) c"

section \<open>Decoding\<close>

definition digit_of :: "char \<Rightarrow> nat" where
  "digit_of c = (let n = of_char c :: nat in if n \<le> 57 then n - 48 else n - 55)"

fun percent_decode :: "string \<Rightarrow> string" where
  "percent_decode (c # a # b # s) =
     (if c = CHR 0x25 then char_of (16 * digit_of a + digit_of b) # percent_decode s
      else c # percent_decode (a # b # s))"
| "percent_decode s = s"

lemma upper_digit_value: "d < 16 \<Longrightarrow> digit_of (upper_digit d) = d"
  by (simp add: digit_of_def upper_digit_def Let_def)

lemma decode_percent_byte: "percent_decode (percent_byte c @ s) = c # percent_decode s"
proof -
  have "(of_char c :: nat) div 16 < 16" by (simp add: div_less_iff_less_mult nat_of_char_less_256)
  then have "16 * digit_of (upper_digit (of_char c div 16)) + digit_of (upper_digit (of_char c mod 16)) = (of_char c :: nat)"
    by (simp add: upper_digit_value)
  then show ?thesis by (simp add: percent_byte_def)
qed

lemma decode_unreserved: "unreserved c \<Longrightarrow> percent_decode (c # s) = c # percent_decode s"
  by (cases s rule: percent_decode.cases) (auto simp: unreserved_def Let_def)

lemma decode_encode_seg: "percent_decode (encode_seg s) = s"
  by (induction s) (simp_all add: encode_seg_def decode_percent_byte decode_unreserved)

lemma upper_digit_unreserved: "d < 16 \<Longrightarrow> unreserved (upper_digit d)"
  by (simp add: unreserved_def upper_digit_def Let_def)

lemma encode_seg_chars: "c \<in> set (encode_seg s) \<Longrightarrow> unreserved c \<or> c = CHR 0x25"
proof (induction s)
  case (Cons b s)
  have "(of_char b :: nat) div 16 < 16" by (simp add: div_less_iff_less_mult nat_of_char_less_256)
  with Cons show ?case by (auto simp: encode_seg_def percent_byte_def upper_digit_unreserved split: if_splits)
qed (simp add: encode_seg_def)

lemma no_slash_encoded: "CHR ''/'' \<notin> set (encode_seg s)"
proof
  assume "CHR ''/'' \<in> set (encode_seg s)"
  from encode_seg_chars [OF this] show False by (simp add: unreserved_def)
qed

lemma split_slash_append:
  "CHR ''/'' \<notin> set a \<Longrightarrow> split_slash (a @ CHR ''/'' # s) = a # split_slash s"
  by (induction a) auto

lemma split_slash_whole: "CHR ''/'' \<notin> set a \<Longrightarrow> split_slash a = [a]"
  by (induction a) auto

lemma split_join:
  "segs \<noteq> [] \<Longrightarrow> (\<And>a. a \<in> set segs \<Longrightarrow> CHR ''/'' \<notin> set a) \<Longrightarrow> split_slash (join_with ''/'' segs) = segs"
proof (induction "''/''" segs rule: join_with.induct)
  case (3 s t ss)
  then show ?case using split_slash_append [of s "join_with ''/'' (t # ss)"] by simp
qed (simp_all add: split_slash_whole)

lemma split_slash_not_empty: "split_slash s \<noteq> []"
  by (induction s) (auto split: list.split)

lemma split_enc_path: "split_slash (enc_path p) = map encode_seg (split_slash (trim_slashes p))"
  unfolding enc_path_def by (rule split_join) (auto simp: split_slash_not_empty no_slash_encoded)

text \<open>Ids and path-addressed reads are encoded exactly: an encoded segment consists of unreserved
  characters and escapes only, so that it can neither end the path segment nor start a query or a fragment, and
  decoding gives it back; an encoded path has the segments of the path, encoded one by one.\<close>

theorem path_encoding_exact:
  "percent_decode (encode_seg s) = s \<and> list_all (\<lambda>c. unreserved c \<or> c = CHR 0x25) (encode_seg s)
   \<and> map percent_decode (split_slash (enc_path p)) = split_slash (trim_slashes p)"
proof -
  have "percent_decode \<circ> encode_seg = id" by (simp add: fun_eq_iff decode_encode_seg)
  then show ?thesis by (simp add: decode_encode_seg split_enc_path list_all_iff encode_seg_chars)
qed

lemma escape_spaces_again: "escape_spaces (escape_spaces s) = escape_spaces s"
  by (induction s) (simp_all add: escape_spaces_def)

lemma enc_escaped: "enc (escape_spaces s) = enc s"
proof (induction s)
  case (Cons c s)
  then show ?case
    by (cases "c = CHR ''/''") (auto simp: enc_def escape_spaces_again [unfolded escape_spaces_def] escape_spaces_def)
qed (simp add: enc_def escape_spaces_def)

section \<open>The batch\<close>

lemma check_responses_ok:
  "check_responses vs seen = Inr seen' \<Longrightarrow>
     \<exists>is. map (response_index (length seen)) vs = map Some is \<and> distinct is \<and> (\<forall>i \<in> set is. i < length seen \<and> \<not> seen ! i)
       \<and> list_all (\<lambda>v. case response_status v of Some st \<Rightarrow> gone_or_ok st | None \<Rightarrow> False) vs"
proof (induction vs arbitrary: seen)
  case (Cons v vs)
  obtain i where i: "response_index (length seen) v = Some i" "\<not> seen ! i"
    using Cons.prems by (auto split: option.splits if_splits)
  obtain st where st: "response_status v = Some st" "gone_or_ok st" "check_responses vs (seen[i := True]) = Inr seen'"
    using Cons.prems i by (auto split: option.splits if_splits)
  from Cons.IH [OF st(3)] obtain xs where xs: "map (response_index (length seen)) vs = map Some xs" "distinct xs"
    "\<forall>j \<in> set xs. j < length seen \<and> \<not> seen[i := True] ! j"
    "list_all (\<lambda>v. case response_status v of Some st \<Rightarrow> gone_or_ok st | None \<Rightarrow> False) vs" by auto
  have lt: "i < length seen" using i(1) by (auto simp: response_index_def split: option.splits if_splits)
  have "i \<notin> set xs" "\<forall>j \<in> set xs. \<not> seen ! j" using xs(3) lt by (auto simp: nth_list_update split: if_splits)
  then show ?case using xs i st lt by (intro exI [of _ "i # xs"]) auto
qed auto

lemma check_batch_ok:
  assumes "check_batch n v = Inr ()" and "i < n"
  shows "\<exists>vs r st. get_array ''responses'' v = Some vs \<and> r \<in> set vs \<and> response_index n r = Some i
    \<and> response_status r = Some st \<and> gone_or_ok st"
proof -
  obtain vs seen where vs: "get_array ''responses'' v = Some vs" "length vs = n"
    "check_responses vs (replicate n False) = Inr seen"
    using assms(1) by (auto simp: check_batch_def split: option.splits sum.splits if_splits)
  from check_responses_ok [OF vs(3)] obtain xs where xs: "map (response_index n) vs = map Some xs" "distinct xs"
    "set xs \<subseteq> {..<n}" "list_all (\<lambda>v. case response_status v of Some st \<Rightarrow> gone_or_ok st | None \<Rightarrow> False) vs" by auto
  have "length xs = n" using xs(1) vs(2) by (metis length_map)
  then have "set xs = {..<n}" using xs(2,3) by (metis card_lessThan card_subset_eq distinct_card finite_lessThan)
  then have "Some i \<in> set (map (response_index n) vs)" unfolding xs(1) using assms(2) by simp
  then obtain r where "r \<in> set vs" "response_index n r = Some i" by auto
  moreover from this xs(4) obtain st where "response_status r = Some st" "gone_or_ok st"
    by (cases "response_status r") (auto simp: list_all_iff)
  ultimately show ?thesis using vs(1) by blast
qed

text \<open>What the service promises of a batch: nothing it does brings a task back, and a task whose deletion it
  acknowledges (or that it reports missing) is gone.\<close>

definition acknowledges_deletions ::
  "('c \<Rightarrow> (string \<times> string) set) \<Rightarrow> (json \<Rightarrow> 'c \<Rightarrow> (UploadError + answer) \<times> 'c) \<Rightarrow> bool" where
  "acknowledges_deletions tasks post \<longleftrightarrow>
     (\<forall>body c. tasks (snd (post body c)) \<subseteq> tasks c)
     \<and> (\<forall>items c a v vs r i st.
          fst (post (batch_body items) c) = Inr a \<longrightarrow> json_or_err a = Inr v \<longrightarrow> get_array ''responses'' v = Some vs
          \<longrightarrow> r \<in> set vs \<longrightarrow> response_index (length items) r = Some i \<longrightarrow> response_status r = Some st \<longrightarrow> gone_or_ok st
          \<longrightarrow> items ! i \<notin> tasks (snd (post (batch_body items) c)))"

lemma chunk_deletes:
  assumes "acknowledges_deletions tasks post" and "delete_tasks_batch_chunk post items c = (r, c')"
  shows "tasks c' \<subseteq> tasks c \<and> (r = Inr () \<longrightarrow> set items \<inter> tasks c' = {})"
proof (cases "items = [] \<or> length items > GRAPH_BATCH_REQUEST_LIMIT")
  case False
  then have c': "c' = snd (post (batch_body items) c)"
    using assms(2) by (auto simp: delete_tasks_batch_chunk_def answered_def split: sum.splits)
  have "set items \<inter> tasks c' = {}" if ok: "r = Inr ()"
  proof -
    obtain a v where a: "fst (post (batch_body items) c) = Inr a" "json_or_err a = Inr v" "check_batch (length items) v = Inr ()"
      using assms(2) False ok by (auto simp: delete_tasks_batch_chunk_def answered_def split: sum.splits)
    have "items ! i \<notin> tasks c'" if "i < length items" for i
      using check_batch_ok [OF a(3) that] assms(1) a(1,2) unfolding acknowledges_deletions_def c' by blast
    then show ?thesis by (metis disjoint_iff in_set_conv_nth)
  qed
  moreover have "tasks c' \<subseteq> tasks c" using assms(1) by (simp add: acknowledges_deletions_def c')
  ultimately show ?thesis by blast
qed (use assms in \<open>auto simp: delete_tasks_batch_chunk_def\<close>)

lemma scheduled_deletes:
  assumes "acknowledges_deletions tasks post" and "distinct order"
    and "post_scheduled post parts order out c = (out', c')"
  shows "tasks c' \<subseteq> tasks c \<and> (\<forall>i \<in> set order. out' i = Inr () \<longrightarrow> set (parts ! i) \<inter> tasks c' = {})
    \<and> (\<forall>i. i \<notin> set order \<longrightarrow> out' i = out i)"
  using assms(2,3)
proof (induction order arbitrary: out c)
  case (Cons i order)
  obtain r c1 where chunk: "delete_tasks_batch_chunk post (parts ! i) c = (r, c1)" by fastforce
  note c1 = chunk_deletes [OF assms(1) chunk]
  have rest: "distinct order" "i \<notin> set order" "post_scheduled post parts order (out(i := r)) c1 = (out', c')"
    using Cons.prems chunk by simp_all
  note IH = Cons.IH [OF rest(1,3)]
  then have "out' i = r" using rest(2) by simp
  with IH c1 show ?case by auto
qed auto

lemma first_failure_none: "first_failure rs = Inr () \<longleftrightarrow> (\<forall>r \<in> set rs. r = Inr ())"
  by (induction rs rule: first_failure.induct) auto

lemma concat_chunks: "concat (chunks n xs) = xs"
  by (induction n xs rule: chunks.induct) (subst chunks.simps, simp)

definition fair_schedule :: "(nat \<Rightarrow> nat list) \<Rightarrow> bool" where
  "fair_schedule schedule \<longleftrightarrow> (\<forall>n. distinct (schedule n) \<and> set (schedule n) = {..<n})"

lemma wave_deletes:
  assumes "acknowledges_deletions tasks post" and "fair_schedule schedule" and "run_wave post schedule wave c = (r, c')"
  shows "tasks c' \<subseteq> tasks c \<and> (r = Inr () \<longrightarrow> set wave \<inter> tasks c' = {})"
proof -
  let ?parts = "chunks GRAPH_BATCH_REQUEST_LIMIT wave"
  obtain out where post: "post_scheduled post ?parts (schedule (length ?parts)) (\<lambda>i. Inr ()) c = (out, c')"
    and r: "r = first_failure (map out [0..<length ?parts])"
    using assms(3) by (auto simp: run_wave_def Let_def split: prod.splits)
  have s: "distinct (schedule (length ?parts))" "set (schedule (length ?parts)) = {..<length ?parts}"
    using assms(2) by (simp_all add: fair_schedule_def)
  note del = scheduled_deletes [OF assms(1) s(1) post, unfolded s(2)]
  have "set wave \<inter> tasks c' = {}" if "r = Inr ()"
  proof -
    have "\<forall>i < length ?parts. set (?parts ! i) \<inter> tasks c' = {}" using that del by (auto simp: r first_failure_none)
    then have "\<forall>p \<in> set ?parts. set p \<inter> tasks c' = {}" by (metis in_set_conv_nth)
    moreover have "set wave = (\<Union>p \<in> set ?parts. set p)" using concat_chunks [of GRAPH_BATCH_REQUEST_LIMIT wave] by (metis set_concat)
    ultimately show ?thesis by auto
  qed
  with del show ?thesis by blast
qed

lemma waves_delete:
  assumes "acknowledges_deletions tasks post" and "fair_schedule schedule" and "run_waves post schedule waves c = (r, c')"
  shows "tasks c' \<subseteq> tasks c \<and> (r = Inr () \<longrightarrow> (\<Union>wave \<in> set waves. set wave) \<inter> tasks c' = {})"
  using assms(3)
proof (induction waves arbitrary: c)
  case (Cons wave waves)
  obtain r1 c1 where wave: "run_wave post schedule wave c = (r1, c1)" by fastforce
  note w = wave_deletes [OF assms(1,2) wave]
  show ?case
  proof (cases r1)
    case (Inl e)
    then show ?thesis using Cons.prems wave w by auto
  next
    case (Inr x)
    then show ?thesis using Cons.prems Cons.IH [of c1] wave w by auto
  qed
qed auto

text \<open>C34: When deleting a selection of tasks succeeds, every task of it is gone, in whatever order the parallel
  batches of a wave reach the service: an answer is accepted only if it acknowledges every request exactly
  once.\<close>

theorem batch_success_deletes_all:
  assumes "acknowledges_deletions tasks post" and "fair_schedule schedule"
    and "delete_tasks_batch post schedule items c = (Inr (), c')"
  shows "set items \<inter> tasks c' = {}"
proof -
  let ?waves = "chunks (GRAPH_BATCH_REQUEST_LIMIT * TODO_DELETE_BATCH_PARALLELISM) items"
  have "set items = (\<Union>wave \<in> set ?waves. set wave)" by (metis concat_chunks set_concat)
  then show ?thesis
    using waves_delete [OF assms(1,2) assms(3) [unfolded delete_tasks_batch_def]] by auto
qed

text \<open>A service that deletes what a batch names and acknowledges every request, in reverse order.\<close>

definition request_urls :: "json \<Rightarrow> string option list" where
  "request_urls body = map (get_str ''url'') (case get_array ''requests'' body of Some rs \<Rightarrow> rs | None \<Rightarrow> [])"

definition acknowledged :: "json \<Rightarrow> json" where
  "acknowledged request = JObj [(''id'', (case get ''id'' request of Some i \<Rightarrow> i | None \<Rightarrow> JNull)), (''status'', JNum 204)]"

definition serve_batch :: "json \<Rightarrow> (string \<times> string) list \<Rightarrow> (UploadError + answer) \<times> (string \<times> string) list" where
  "serve_batch body c =
     (Inr \<lparr>a_status = 200,
        a_json = Some (JObj [(''responses'', JArr (rev (map acknowledged
          (case get_array ''requests'' body of Some rs \<Rightarrow> rs | None \<Rightarrow> []))))]), a_text = []\<rparr>,
      filter (\<lambda>task. get_str ''url'' (batch_request 0 task) \<notin> set (request_urls body)) c)"

lemma serve_batch_acknowledges: "acknowledges_deletions set serve_batch"
proof -
  have "get_str ''url'' (batch_request 0 (items ! i)) \<in> set (request_urls (batch_body items))"
    if "i < length items" for items i
  proof -
    have "items ! i \<in> set items" using that by simp
    moreover have same: "get_str ''url'' (batch_request n task) = get_str ''url'' (batch_request 0 task)" for n task
      by (simp add: batch_request_def json_gets)
    ultimately have "get_str ''url'' (batch_request 0 (items ! i)) \<in> (\<lambda>(n, task). get_str ''url'' (batch_request n task)) ` set (enumerate 0 items)"
      using that by (intro image_eqI [of _ _ "(i, items ! i)"]) (simp_all add: in_set_enumerate_eq same [of i "items ! i"] del: split_paired_All)
    then show ?thesis
      by (simp add: request_urls_def batch_body_def json_gets image_image case_prod_beta)
  qed
  moreover have "i < n" if "response_index n r = Some i" for n r i
    using that by (auto simp: response_index_def split: option.splits if_splits)
  ultimately show ?thesis by (auto simp: acknowledges_deletions_def serve_batch_def)
qed

theorem batch_success_deletes_all_witness:
  "\<exists>c'. delete_tasks_batch serve_batch (\<lambda>n. rev [0..<n]) [(''l'', ''t1''), (''l'', ''t2'')]
      [(''l'', ''t0''), (''l'', ''t1''), (''l'', ''t2'')] = (Inr (), c') \<and> set [(''l'', ''t1''), (''l'', ''t2'')] \<inter> set c' = {}"
proof -
  let ?items = "[(''l'', ''t1''), (''l'', ''t2'')]" and ?c = "[(''l'', ''t0''), (''l'', ''t1''), (''l'', ''t2'')]"
  have digits: "parse_u64 ''0'' = Some 0" "parse_u64 ''1'' = Some (Suc 0)"
    by (simp_all add: parse_u64_def read_nat_def digit_val_def)
  have shown: "show_nat 0 = ''0''" "show_nat (Suc 0) = ''1''" by code_simp+
  have "fst (delete_tasks_batch serve_batch (\<lambda>n. rev [0..<n]) ?items ?c) = Inr ()"
    by (simp add: delete_tasks_batch_def chunks.simps run_wave_def delete_tasks_batch_chunk_def answered_def serve_batch_def
        batch_body_def batch_request_def json_gets acknowledged_def json_or_err_def answer_json_def check_batch_def
        response_index_def response_status_def gone_or_ok_def digits shown GRAPH_BATCH_REQUEST_LIMIT_def
        TODO_DELETE_BATCH_PARALLELISM_def Let_def)
  then obtain c' where run: "delete_tasks_batch serve_batch (\<lambda>n. rev [0..<n]) ?items ?c = (Inr (), c')"
    by (metis prod.collapse)
  have "fair_schedule (\<lambda>n. rev [0..<n])" by (auto simp: fair_schedule_def)
  from batch_success_deletes_all [OF serve_batch_acknowledges this run] run show ?thesis by blast
qed

end
