(* ===== verification/Graph_Reads.thy ===== *)
theory Graph_Reads
  imports Graph_Requests
begin

text \<open>
  The idempotent reads of the Graph client (\<^verbatim>\<open>graph/src/http.rs\<close>): the central retry policy with its
  operation deadline, and the reads built on it: JSON resources, listings over several pages, bodies in one
  piece, with a limit, and with progress. Durations are nanoseconds. HTTP, the monotonic clock and sleeping
  are a record of operations on a world; a body arrives as a sequence of reads, each of which can fail.
\<close>

section \<open>The world of a read\<close>

record reply =
  rp_answer :: answer
  rp_retry_after :: "string option"
  rp_length :: "nat option"
  rp_reads :: "(string + bytes) list"

record 'w read_http =
  rh_get :: "string \<Rightarrow> nat option \<Rightarrow> 'w \<Rightarrow> (UploadError + reply) \<times> 'w"
  rh_now :: "'w \<Rightarrow> nat"
  rh_sleep :: "nat \<Rightarrow> 'w \<Rightarrow> 'w"

record graph_reader =
  gr_base :: string
  gr_deadline :: "nat option"

definition rp_status :: "reply \<Rightarrow> nat" where
  "rp_status r = a_status (rp_answer r)"

text \<open>\<^verbatim>\<open>?\<close> on a read.\<close>

definition read_then ::
  "(UploadError + 'a) \<times> 'w \<Rightarrow> ('a \<Rightarrow> 'w \<Rightarrow> (UploadError + 'b) \<times> 'w) \<Rightarrow> (UploadError + 'b) \<times> 'w" where
  "read_then r f = (case r of (Inl e, w) \<Rightarrow> (Inl e, w) | (Inr x, w) \<Rightarrow> f x w)"

section \<open>The retry policy\<close>

definition millis :: "nat \<Rightarrow> nat" where
  "millis n = n * 1000000"

definition secs :: "nat \<Rightarrow> nat" where
  "secs n = n * 1000000000"

definition MAX_GET_ATTEMPTS :: nat where
  "MAX_GET_ATTEMPTS = 4"

definition MAX_RETRY_WAIT :: nat where
  "MAX_RETRY_WAIT = secs 20"

definition is_retryable_status :: "nat \<Rightarrow> bool" where
  "is_retryable_status st \<longleftrightarrow> st = 429 \<or> 500 \<le> st \<and> st \<le> 599"

definition backoff_delay :: "nat \<Rightarrow> nat" where
  "backoff_delay attempt = min (millis (200 * 2 ^ min attempt 5)) MAX_RETRY_WAIT"

definition parse_retry_after :: "reply \<Rightarrow> nat option" where
  "parse_retry_after r = map_option secs (Option.bind (rp_retry_after r) (\<lambda>s. parse_u64 (trim s)))"

definition deadline_elapsed :: UploadError where
  "deadline_elapsed = Timeout ''operation deadline elapsed''"

definition remaining_operation_budget :: "'w read_http \<Rightarrow> graph_reader \<Rightarrow> 'w \<Rightarrow> UploadError + nat option" where
  "remaining_operation_budget h g w =
     (case gr_deadline g of
        None \<Rightarrow> Inr None
      | Some d \<Rightarrow> if rh_now h w < d then Inr (Some (d - rh_now h w)) else Inl deadline_elapsed)"

definition sleep_for_get_retry :: "'w read_http \<Rightarrow> graph_reader \<Rightarrow> nat \<Rightarrow> 'w \<Rightarrow> (UploadError + unit) \<times> 'w" where
  "sleep_for_get_retry h g wait w =
     (let wait = min wait MAX_RETRY_WAIT
      in case remaining_operation_budget h g w of
           Inl e \<Rightarrow> (Inl e, w)
         | Inr budget \<Rightarrow>
             if (case budget of Some left \<Rightarrow> left \<le> wait | None \<Rightarrow> False) then (Inl deadline_elapsed, w)
             else (Inr (), rh_sleep h wait w))"

definition is_transport :: "UploadError \<Rightarrow> bool" where
  "is_transport e = (case e of Transport f d \<Rightarrow> True | _ \<Rightarrow> False)"

text \<open>How long to wait before the next attempt, when there is one.\<close>

definition retry_wait :: "nat \<Rightarrow> UploadError + reply \<Rightarrow> nat option" where
  "retry_wait attempt out =
     (if MAX_GET_ATTEMPTS \<le> attempt then None
      else case out of
             Inl e \<Rightarrow> if is_transport e then Some (backoff_delay attempt) else None
           | Inr r \<Rightarrow>
               if is_retryable_status (rp_status r)
               then Some (min (case parse_retry_after r of Some d \<Rightarrow> d | None \<Rightarrow> backoff_delay attempt) MAX_RETRY_WAIT)
               else None)"

function get_attempt :: "'w read_http \<Rightarrow> graph_reader \<Rightarrow> string \<Rightarrow> nat \<Rightarrow> 'w \<Rightarrow> (UploadError + reply) \<times> 'w" where
  "get_attempt h g url attempt w =
     (case remaining_operation_budget h g w of
        Inl e \<Rightarrow> (Inl e, w)
      | Inr budget \<Rightarrow>
          (case rh_get h url budget w of (out, w) \<Rightarrow>
             (case retry_wait attempt out of
                None \<Rightarrow> (out, w)
              | Some wait \<Rightarrow>
                  (case sleep_for_get_retry h g wait w of
                     (Inl e, w) \<Rightarrow> (Inl e, w)
                   | (Inr _, w) \<Rightarrow> get_attempt h g url (Suc attempt) w))))"
  by pat_completeness auto

termination
  by (relation "measure (\<lambda>(h, g, url, attempt, w). MAX_GET_ATTEMPTS - attempt)")
    (auto simp: retry_wait_def split: if_splits)

declare get_attempt.simps [simp del]

definition get_with_retry :: "'w read_http \<Rightarrow> graph_reader \<Rightarrow> string \<Rightarrow> 'w \<Rightarrow> (UploadError + reply) \<times> 'w" where
  "get_with_retry h g url w = get_attempt h g url 1 w"

definition abs_url :: "graph_reader \<Rightarrow> string \<Rightarrow> string" where
  "abs_url g url = (if take 4 url = ''http'' then url else gr_base g @ url)"

section \<open>Bodies\<close>

definition http_error :: "reply \<Rightarrow> UploadError" where
  "http_error r = Http (rp_status r) (take_chars 300 (a_text (rp_answer r)))"

definition read_failed :: "string \<Rightarrow> UploadError" where
  "read_failed e = Transport Other e"

text \<open>The reads up to the end of the stream, which is an empty read.\<close>

fun read_all :: "bytes \<Rightarrow> (string + bytes) list \<Rightarrow> UploadError + bytes" where
  "read_all out [] = Inr out"
| "read_all out (Inl e # rs) = Inl (read_failed e)"
| "read_all out (Inr b # rs) = (if b = [] then Inr out else read_all (out @ b) rs)"

fun read_bounded :: "nat \<Rightarrow> bytes \<Rightarrow> (string + bytes) list \<Rightarrow> UploadError + bytes" where
  "read_bounded n out [] = Inr out"
| "read_bounded n out (Inl e # rs) = Inl (read_failed e)"
| "read_bounded n out (Inr b # rs) =
     (if b = [] then Inr out
      else if length out + length b > n then Inl TooLarge
      else read_bounded n (out @ b) rs)"

text \<open>With the cumulative lengths that are reported.\<close>

fun read_reporting :: "bytes \<Rightarrow> (string + bytes) list \<Rightarrow> nat list \<times> (UploadError + bytes)" where
  "read_reporting out [] = ([], Inr out)"
| "read_reporting out (Inl e # rs) = ([], Inl (read_failed e))"
| "read_reporting out (Inr b # rs) =
     (if b = [] then ([], Inr out)
      else case read_reporting (out @ b) rs of (ns, r) \<Rightarrow> (length (out @ b) # ns, r))"

definition ok_reply :: "(reply \<Rightarrow> UploadError + 'a) \<Rightarrow> reply \<Rightarrow> 'w \<Rightarrow> (UploadError + 'a) \<times> 'w" where
  "ok_reply f r w = (if 200 \<le> rp_status r \<and> rp_status r < 300 then f r else Inl (http_error r), w)"

definition get_bytes :: "'w read_http \<Rightarrow> graph_reader \<Rightarrow> string \<Rightarrow> 'w \<Rightarrow> (UploadError + bytes) \<times> 'w" where
  "get_bytes h g url w = read_then (get_with_retry h g (abs_url g url) w) (ok_reply (\<lambda>r. read_all [] (rp_reads r)))"

definition get_bytes_bounded :: "'w read_http \<Rightarrow> graph_reader \<Rightarrow> string \<Rightarrow> nat \<Rightarrow> 'w \<Rightarrow> (UploadError + bytes) \<times> 'w" where
  "get_bytes_bounded h g url max_bytes w =
     read_then (get_with_retry h g (abs_url g url) w)
       (ok_reply (\<lambda>r. if (case rp_length r of Some n \<Rightarrow> n > max_bytes | None \<Rightarrow> False) then Inl TooLarge
                       else read_bounded max_bytes [] (rp_reads r)))"

definition get_bytes_with_progress ::
  "'w read_http \<Rightarrow> graph_reader \<Rightarrow> string \<Rightarrow> 'w \<Rightarrow> (nat list \<times> (UploadError + bytes)) \<times> 'w" where
  "get_bytes_with_progress h g url w =
     (case get_with_retry h g (abs_url g url) w of
        (Inl e, w) \<Rightarrow> (([], Inl e), w)
      | (Inr r, w) \<Rightarrow>
          (if 200 \<le> rp_status r \<and> rp_status r < 300 then read_reporting [] (rp_reads r) else ([], Inl (http_error r)), w))"

section \<open>Resources and listings\<close>

definition get_json :: "'w read_http \<Rightarrow> graph_reader \<Rightarrow> string \<Rightarrow> 'w \<Rightarrow> (UploadError + json) \<times> 'w" where
  "get_json h g url w =
     read_then (get_with_retry h g (abs_url g url) w) (\<lambda>r w. (json_or_err (rp_answer r), w))"

definition page_items :: "json \<Rightarrow> json list" where
  "page_items v = (case get_array ''value'' v of Some xs \<Rightarrow> xs | None \<Rightarrow> [])"

partial_function (option) listing_loop ::
  "'w read_http \<Rightarrow> graph_reader \<Rightarrow> string \<Rightarrow> json list \<Rightarrow> 'w \<Rightarrow> ((UploadError + json list) \<times> 'w) option" where
  "listing_loop h g url found w =
     (case get_with_retry h g url w of
        (Inl e, w) \<Rightarrow> Some (Inl e, w)
      | (Inr r, w) \<Rightarrow>
          (case json_or_err (rp_answer r) of
             Inl e \<Rightarrow> Some (Inl e, w)
           | Inr v \<Rightarrow>
               (case get_str ''@odata.nextLink'' v of
                  None \<Rightarrow> Some (Inr (found @ page_items v), w)
                | Some nxt \<Rightarrow> listing_loop h g nxt (found @ page_items v) w)))"

definition get_json_paged ::
  "'w read_http \<Rightarrow> graph_reader \<Rightarrow> string \<Rightarrow> 'w \<Rightarrow> ((UploadError + json list) \<times> 'w) option" where
  "get_json_paged h g url w = listing_loop h g (abs_url g url) [] w"

definition content_url :: "graph_reader \<Rightarrow> string \<Rightarrow> string" where
  "content_url g i = gr_base g @ ''/me/drive/items/'' @ i @ ''/content''"

definition download_content :: "'w read_http \<Rightarrow> graph_reader \<Rightarrow> string \<Rightarrow> 'w \<Rightarrow> (UploadError + bytes) \<times> 'w" where
  "download_content h g i w = get_bytes h g (content_url g i) w"

definition download_content_with_progress ::
  "'w read_http \<Rightarrow> graph_reader \<Rightarrow> string \<Rightarrow> 'w \<Rightarrow> (nat list \<times> (UploadError + bytes)) \<times> 'w" where
  "download_content_with_progress h g i w = get_bytes_with_progress h g (content_url g i) w"

definition CHILD_SELECT :: string where
  "CHILD_SELECT = ''$select=id,name,size,folder,file,lastModifiedDateTime,eTag''"

definition list_children ::
  "'w read_http \<Rightarrow> graph_reader \<Rightarrow> string \<Rightarrow> 'w \<Rightarrow> ((UploadError + json list) \<times> 'w) option" where
  "list_children h g parent w =
     get_json_paged h g
       (if parent = [] then ''/me/drive/root/children?'' @ CHILD_SELECT
        else ''/me/drive/items/'' @ encode_id parent @ ''/children?'' @ CHILD_SELECT) w"

definition drive_quota :: "'w read_http \<Rightarrow> graph_reader \<Rightarrow> 'w \<Rightarrow> (UploadError + json) \<times> 'w" where
  "drive_quota h g w =
     read_then (get_json h g (gr_base g @ ''/me/drive'') w) (\<lambda>v w.
       (case get ''quota'' v of Some q \<Rightarrow> Inr q | None \<Rightarrow> Inl (Parse ''drive response had no quota''), w))"

definition item_id_for_path ::
  "'w read_http \<Rightarrow> graph_reader \<Rightarrow> string \<Rightarrow> 'w \<Rightarrow> (UploadError + string) \<times> 'w" where
  "item_id_for_path h g rel w =
     read_then (get_json h g (gr_base g @ ''/me/drive/root:/'' @ enc_path rel) w) (\<lambda>v w.
       (case get_str ''id'' v of Some i \<Rightarrow> Inr i | None \<Rightarrow> Inl (Parse ''drive item response had no id''), w))"

definition get_drive_item_by_path ::
  "'w read_http \<Rightarrow> graph_reader \<Rightarrow> string \<Rightarrow> string list \<Rightarrow> 'w
     \<Rightarrow> (UploadError + json option) \<times> 'w" where
  "get_drive_item_by_path h g path select w =
     read_then
       (get_with_retry h g
          (gr_base g @ ''/me/drive/root:/'' @ enc_path path @ '':'' @
           (if select = [] then [] else ''?$select='' @ concat (map (\<lambda>(i, s). if i = 0 then s else CHR '','' # s) (enumerate 0 select)))) w)
       (\<lambda>r w. (if rp_status r = 200 then map_sum id Some (answer_json (rp_answer r))
                else if rp_status r = 404 then Inr None
                else Inl (http_error r), w))"

section \<open>A log of what a read does\<close>

datatype read_event = Sent string | Slept nat

definition logged :: "'w read_http \<Rightarrow> ('w \<times> read_event list) read_http" where
  "logged h =
     \<lparr>rh_get = (\<lambda>url t (w, log). case rh_get h url t w of (r, w) \<Rightarrow> (r, w, log @ [Sent url])),
      rh_now = (\<lambda>(w, log). rh_now h w),
      rh_sleep = (\<lambda>d (w, log). (rh_sleep h d w, log @ [Slept d]))\<rparr>"

fun requests :: "read_event list \<Rightarrow> string list" where
  "requests [] = []"
| "requests (Sent url # es) = url # requests es"
| "requests (Slept d # es) = requests es"

fun slept :: "read_event list \<Rightarrow> nat" where
  "slept [] = 0"
| "slept (Sent url # es) = slept es"
| "slept (Slept d # es) = d + slept es"

lemma requests_append [simp]: "requests (xs @ ys) = requests xs @ requests ys"
  by (induction xs rule: requests.induct) auto

lemma slept_append [simp]: "slept (xs @ ys) = slept xs + slept ys"
  by (induction xs rule: slept.induct) auto

lemma logged_sel [simp]:
  "rh_get (logged h) url t (w, log) = (case rh_get h url t w of (r, w) \<Rightarrow> (r, w, log @ [Sent url]))"
  "rh_now (logged h) (w, log) = rh_now h w"
  "rh_sleep (logged h) d (w, log) = (rh_sleep h d w, log @ [Slept d])"
  by (simp_all add: logged_def)

lemma sleep_logged:
  "sleep_for_get_retry (logged h) g wait (w, log) = (r, w', log') \<Longrightarrow>
     (case r of Inl e \<Rightarrow> log' = log | Inr x \<Rightarrow> log' = log @ [Slept (min wait MAX_RETRY_WAIT)])"
  by (auto simp: sleep_for_get_retry_def Let_def split: sum.splits if_splits option.splits)

lemma get_attempt_logged:
  assumes "get_attempt (logged h) g url attempt (w, log) = (r, w', log')"
    and "1 \<le> attempt" and "attempt \<le> MAX_GET_ATTEMPTS"
  shows "\<exists>es. log' = log @ es \<and> set (requests es) \<subseteq> {url} \<and> length (requests es) \<le> MAX_GET_ATTEMPTS + 1 - attempt
    \<and> slept es \<le> (MAX_GET_ATTEMPTS - attempt) * MAX_RETRY_WAIT"
  using assms
proof (induction "MAX_GET_ATTEMPTS - attempt" arbitrary: attempt w log rule: less_induct)
  case less
  let ?rem = "remaining_operation_budget (logged h) g (w, log)"
  show ?case
  proof (cases ?rem)
    case (Inl e)
    then show ?thesis using less.prems(1) by (intro exI [of _ "[]"]) (auto simp: get_attempt.simps [of "logged h"])
  next
    case (Inr budget)
    obtain out w1 where get: "rh_get h url budget w = (out, w1)" by fastforce
    show ?thesis
    proof (cases "retry_wait attempt out")
      case None
      with less.prems(1) Inr get have "log' = log @ [Sent url]"
        by (auto simp: get_attempt.simps [of "logged h"])
      then show ?thesis using less.prems by (intro exI [of _ "[Sent url]"]) simp
    next
      case (Some wait)
      then have lt: "attempt < MAX_GET_ATTEMPTS" by (auto simp: retry_wait_def split: if_splits)
      obtain s w2 log2 where sl: "sleep_for_get_retry (logged h) g wait (w1, log @ [Sent url]) = (s, w2, log2)"
        by (metis prod_cases3)
      show ?thesis
      proof (cases s)
        case (Inl e)
        with less.prems(1) Inr get Some sl sleep_logged [OF sl] have "log' = log @ [Sent url]"
          by (auto simp: get_attempt.simps [of "logged h"])
        then show ?thesis using less.prems by (intro exI [of _ "[Sent url]"]) simp
      next
        case (Inr x)
        then have log2: "log2 = log @ [Sent url] @ [Slept (min wait MAX_RETRY_WAIT)]" using sleep_logged [OF sl] by simp
        have "get_attempt (logged h) g url (Suc attempt) (w2, log2) = (r, w', log')"
          using less.prems(1) \<open>?rem = Inr budget\<close> get Some sl Inr by (simp add: get_attempt.simps [of "logged h" g url attempt])
        moreover have "MAX_GET_ATTEMPTS - Suc attempt < MAX_GET_ATTEMPTS - attempt" using lt by linarith
        ultimately obtain es where es: "log' = log2 @ es" "set (requests es) \<subseteq> {url}"
          "length (requests es) \<le> MAX_GET_ATTEMPTS + 1 - Suc attempt"
          "slept es \<le> (MAX_GET_ATTEMPTS - Suc attempt) * MAX_RETRY_WAIT"
          using less.hyps [of "Suc attempt" w2 log2] lt by auto
        have "(MAX_GET_ATTEMPTS - attempt) = Suc (MAX_GET_ATTEMPTS - Suc attempt)" using lt by simp
        then show ?thesis
          using es lt log2 by (intro exI [of _ "Sent url # Slept (min wait MAX_RETRY_WAIT) # es"]) auto
      qed
    qed
  qed
qed

section \<open>Reads and the clock\<close>

text \<open>The HTTP client honours the timeout it is given and a sleep does not oversleep, up to \<open>slack\<close>; the
  clock moves on with every request.\<close>

definition keeps_time :: "nat \<Rightarrow> 'w read_http \<Rightarrow> bool" where
  "keeps_time slack h \<longleftrightarrow>
     (\<forall>url t w. rh_now h w < rh_now h (snd (rh_get h url (Some t) w))
        \<and> rh_now h (snd (rh_get h url (Some t) w)) \<le> rh_now h w + t + slack)
     \<and> (\<forall>d w. rh_now h w \<le> rh_now h (rh_sleep h d w) \<and> rh_now h (rh_sleep h d w) \<le> rh_now h w + d + slack)"

lemma budget_with_deadline:
  assumes "gr_deadline g = Some d" and "remaining_operation_budget h g w = Inr budget"
  shows "budget = Some (d - rh_now h w) \<and> rh_now h w < d"
  using assms by (auto simp: remaining_operation_budget_def split: if_splits)

lemma sleep_with_deadline:
  assumes "gr_deadline g = Some d" and "keeps_time slack h"
    and "sleep_for_get_retry h g wait w = (r, w')" and "rh_now h w \<le> d + slack"
  shows "rh_now h w' \<le> d + slack \<and> rh_now h w \<le> rh_now h w'"
proof (cases r)
  case (Inr x)
  let ?wait = "min wait MAX_RETRY_WAIT"
  have "rh_now h w < d" "?wait < d - rh_now h w" "w' = rh_sleep h ?wait w"
    using assms(1,3) Inr by (auto simp: sleep_for_get_retry_def remaining_operation_budget_def Let_def split: if_splits)
  moreover have "rh_now h (rh_sleep h ?wait w) \<le> rh_now h w + ?wait + slack" "rh_now h w \<le> rh_now h (rh_sleep h ?wait w)"
    using assms(2) by (auto simp: keeps_time_def)
  ultimately show ?thesis by auto
qed (use assms in \<open>auto simp: sleep_for_get_retry_def remaining_operation_budget_def Let_def split: if_splits\<close>)

lemma get_attempt_with_deadline:
  assumes "gr_deadline g = Some d" and "keeps_time slack h"
    and "get_attempt h g url attempt w = (r, w')" and "rh_now h w \<le> d + slack"
  shows "rh_now h w' \<le> d + slack \<and> (isl r \<or> rh_now h w < d \<and> rh_now h w < rh_now h w')"
  using assms(3,4)
proof (induction "MAX_GET_ATTEMPTS - attempt" arbitrary: attempt w rule: less_induct)
  case less
  show ?case
  proof (cases "remaining_operation_budget h g w")
    case (Inl e)
    then show ?thesis using less.prems by (auto simp: get_attempt.simps [of h])
  next
    case (Inr budget)
    note b = budget_with_deadline [OF assms(1) Inr]
    obtain out w1 where get: "rh_get h url budget w = (out, w1)" by fastforce
    have "rh_now h w < rh_now h w1" "rh_now h w1 \<le> rh_now h w + (d - rh_now h w) + slack"
      using assms(2) get b unfolding keeps_time_def by (metis snd_conv)+
    with b have w1: "rh_now h w < rh_now h w1" "rh_now h w1 \<le> d + slack" by auto
    show ?thesis
    proof (cases "retry_wait attempt out")
      case None
      with less.prems(1) Inr get w1 b show ?thesis by (auto simp: get_attempt.simps [of h])
    next
      case (Some wait)
      then have lt: "attempt < MAX_GET_ATTEMPTS" by (auto simp: retry_wait_def split: if_splits)
      obtain s w2 where sl: "sleep_for_get_retry h g wait w1 = (s, w2)" by fastforce
      note w2 = sleep_with_deadline [OF assms(1,2) sl w1(2)]
      show ?thesis
      proof (cases s)
        case (Inl e)
        with less.prems(1) Inr get Some sl w2 show ?thesis by (auto simp: get_attempt.simps [of h])
      next
        case ok: (Inr x)
        have "get_attempt h g url (Suc attempt) w2 = (r, w')"
          using less.prems(1) Inr get Some sl ok by (simp add: get_attempt.simps [of h g url attempt])
        moreover have "MAX_GET_ATTEMPTS - Suc attempt < MAX_GET_ATTEMPTS - attempt" using lt by linarith
        ultimately have "rh_now h w' \<le> d + slack \<and> (isl r \<or> rh_now h w2 < d \<and> rh_now h w2 < rh_now h w')"
          using less.hyps [of "Suc attempt" w2] conjunct1 [OF w2] by blast
        then show ?thesis using w1 w2 b by auto
      qed
    qed
  qed
qed

lemma listing_loop_with_deadline:
  assumes "gr_deadline g = Some d" and "keeps_time slack h" and "rh_now h w \<le> d + slack"
  shows "\<exists>r w'. listing_loop h g url found w = Some (r, w') \<and> rh_now h w' \<le> d + slack"
  using assms(3)
proof (induction "d - rh_now h w" arbitrary: url found w rule: less_induct)
  case less
  obtain r w1 where get: "get_with_retry h g url w = (r, w1)" by fastforce
  note w1 = get_attempt_with_deadline [OF assms(1,2) get [unfolded get_with_retry_def] less.prems]
  show ?case
  proof (cases r)
    case (Inl e)
    then show ?thesis using get w1 by (simp add: listing_loop.simps [of h])
  next
    case (Inr rp)
    with w1 have lt: "d - rh_now h w1 < d - rh_now h w" "rh_now h w1 \<le> d + slack" by auto
    show ?thesis
    proof (cases "json_or_err (rp_answer rp)")
      case (Inl e)
      then show ?thesis using get Inr w1 by (simp add: listing_loop.simps [of h])
    next
      case ok: (Inr v)
      show ?thesis
      proof (cases "get_str ''@odata.nextLink'' v")
        case None
        then show ?thesis using get Inr ok w1 by (simp add: listing_loop.simps [of h])
      next
        case (Some nxt)
        then show ?thesis using get Inr ok less.hyps [OF lt, of nxt "found @ page_items v"]
          by (simp add: listing_loop.simps [of h g url])
      qed
    qed
  qed
qed

section \<open>Lemmas on bodies\<close>

lemma read_all_length: "read_all out rs = Inr b \<Longrightarrow> length out \<le> length b"
  by (induction out rs rule: read_all.induct) (auto split: if_splits)

lemma read_bounded_iff:
  "length out \<le> n \<Longrightarrow> read_bounded n out rs = Inr b \<longleftrightarrow> read_all out rs = Inr b \<and> length b \<le> n"
proof (induction n out rs rule: read_bounded.induct)
  case (3 n out b' rs)
  show ?case
  proof (cases "length out + length b' > n")
    case True
    then have "b' \<noteq> [] \<Longrightarrow> read_all (out @ b') rs = Inr b \<Longrightarrow> n < length b"
      using read_all_length [of "out @ b'" rs b] by simp
    with True 3 show ?thesis by auto
  next
    case False
    with 3 show ?thesis by auto
  qed
qed auto

lemma read_reporting_result: "snd (read_reporting out rs) = read_all out rs"
  by (induction out rs rule: read_all.induct) (auto split: prod.split)

section \<open>Properties\<close>

text \<open>C36: An idempotent read is bounded whatever the server answers and whatever \<^verbatim>\<open>Retry-After\<close> it asks for: it
  sends at most four requests, all to the same URL, and sleeps at most 60 seconds in all.\<close>

theorem read_effort_bounded:
  assumes "get_with_retry (logged h) g url (w, []) = (r, w', es)"
  shows "set (requests es) \<subseteq> {url} \<and> length (requests es) \<le> 4 \<and> slept es \<le> secs 60"
proof -
  have "get_attempt (logged h) g url 1 (w, []) = (r, w', es)" using assms by (simp add: get_with_retry_def)
  from get_attempt_logged [OF this] show ?thesis
    by (auto simp: MAX_GET_ATTEMPTS_def MAX_RETRY_WAIT_def secs_def)
qed

text \<open>A server that always throttles and asks for an hour.\<close>

definition busy_reply :: reply where
  "busy_reply = \<lparr>rp_answer = \<lparr>a_status = 429, a_json = None, a_text = ''busy''\<rparr>,
     rp_retry_after = Some ''3600'', rp_length = None, rp_reads = []\<rparr>"

definition busy :: "unit read_http" where
  "busy = \<lparr>rh_get = (\<lambda>url t w. (Inr busy_reply, w)), rh_now = (\<lambda>w. 0), rh_sleep = (\<lambda>d w. w)\<rparr>"

lemma busy_wait:
  "retry_wait n (Inr busy_reply) = (if MAX_GET_ATTEMPTS \<le> n then None else Some MAX_RETRY_WAIT)"
proof -
  have "parse_u64 (trim ''3600'') = Some 3600"
    by (simp add: parse_u64_def trim_def ascii_space_def read_nat_def digit_val_def)
  then show ?thesis
    by (simp add: retry_wait_def busy_reply_def is_retryable_status_def rp_status_def parse_retry_after_def)
      (simp add: MAX_RETRY_WAIT_def secs_def)
qed

lemma busy_step:
  "get_attempt (logged busy) \<lparr>gr_base = b, gr_deadline = None\<rparr> u n ((), log) =
     (if MAX_GET_ATTEMPTS \<le> n then (Inr busy_reply, (), log @ [Sent u])
      else get_attempt (logged busy) \<lparr>gr_base = b, gr_deadline = None\<rparr> u (Suc n) ((), log @ [Sent u, Slept MAX_RETRY_WAIT]))"
proof -
  have get: "rh_get busy u t () = (Inr busy_reply, ())" "rh_sleep busy d () = ()" for t d
    by (simp_all add: busy_def)
  show ?thesis
    by (subst get_attempt.simps)
      (simp add: remaining_operation_budget_def sleep_for_get_retry_def busy_wait get)
qed

theorem read_effort_bounded_witness:
  "case get_with_retry (logged busy) \<lparr>gr_base = [], gr_deadline = None\<rparr> ''u'' ((), []) of (r, w, es) \<Rightarrow>
     requests es = [''u'', ''u'', ''u'', ''u''] \<and> slept es = secs 60 \<and> length (requests es) \<le> 4 \<and> slept es \<le> secs 60"
proof -
  let ?g = "\<lparr>gr_base = [], gr_deadline = None\<rparr>" and ?round = "[Sent ''u'', Slept MAX_RETRY_WAIT]"
  obtain r w es where run: "get_with_retry (logged busy) ?g ''u'' ((), []) = (r, w, es)" by (metis prod_cases3)
  have "get_with_retry (logged busy) ?g ''u'' ((), []) = (Inr busy_reply, (), ?round @ ?round @ ?round @ [Sent ''u''])"
    unfolding get_with_retry_def by (subst busy_step, simp add: MAX_GET_ATTEMPTS_def)+
  with run have "es = ?round @ ?round @ ?round @ [Sent ''u'']" by simp
  then show ?thesis using read_effort_bounded [OF run]
    by (simp add: run MAX_RETRY_WAIT_def) (simp add: secs_def)
qed

text \<open>C35: With an operation deadline a listing always returns, by the deadline, whatever the server does: pages
  that link in a circle and endless listings included. The HTTP client is only required to honour its
  timeouts; \<open>slack\<close> is how much a request or a sleep may overrun.\<close>

theorem listing_returns_by_deadline:
  assumes "gr_deadline g = Some d" and "keeps_time slack h" and "rh_now h w \<le> d + slack"
  shows "\<exists>r w'. get_json_paged h g url w = Some (r, w') \<and> rh_now h w' \<le> d + slack"
  unfolding get_json_paged_def using assms by (rule listing_loop_with_deadline)

text \<open>A listing whose first page is followed by itself; each request takes a millisecond of the clock.\<close>

definition circular :: "nat read_http" where
  "circular = \<lparr>rh_get = (\<lambda>url t w.
       (Inr \<lparr>rp_answer = \<lparr>a_status = 200, a_json = Some (JObj [(''@odata.nextLink'', JStr url)]), a_text = []\<rparr>,
          rp_retry_after = None, rp_length = None, rp_reads = []\<rparr>, w + millis 1)),
     rh_now = id, rh_sleep = (\<lambda>d w. w + d)\<rparr>"

theorem listing_returns_by_deadline_witness:
  "\<exists>r w'. get_json_paged circular \<lparr>gr_base = ''https://g'', gr_deadline = Some (secs 5)\<rparr> ''/me'' 0 = Some (r, w')
     \<and> w' \<le> secs 5 + millis 1"
proof -
  have "keeps_time (millis 1) circular" by (simp add: keeps_time_def circular_def millis_def)
  from listing_returns_by_deadline [OF _ this, of "\<lparr>gr_base = ''https://g'', gr_deadline = Some (secs 5)\<rparr>" "secs 5" 0 "''/me''"]
  show ?thesis by (simp add: circular_def)
qed

text \<open>Without a deadline the same listing is followed forever.\<close>

lemma circular_step:
  "get_with_retry circular \<lparr>gr_base = b, gr_deadline = None\<rparr> url w =
     (Inr \<lparr>rp_answer = \<lparr>a_status = 200, a_json = Some (JObj [(''@odata.nextLink'', JStr url)]), a_text = []\<rparr>,
        rp_retry_after = None, rp_length = None, rp_reads = []\<rparr>, w + millis 1)"
  by (simp add: get_with_retry_def get_attempt.simps remaining_operation_budget_def circular_def retry_wait_def
      is_retryable_status_def rp_status_def)

lemma circular_loop_diverges: "listing_loop circular \<lparr>gr_base = b, gr_deadline = None\<rparr> url found w = None"
proof (cases "listing_loop circular \<lparr>gr_base = b, gr_deadline = None\<rparr> url found w")
  case (Some r)
  have "circular = circular \<longrightarrow> \<lparr>gr_base = b, gr_deadline = None\<rparr> = \<lparr>gr_base = b, gr_deadline = None\<rparr> \<longrightarrow> False"
  proof (rule listing_loop.raw_induct [where P = "\<lambda>h g url found w r.
        h = circular \<longrightarrow> g = \<lparr>gr_base = b, gr_deadline = None\<rparr> \<longrightarrow> False", OF _ Some], intro impI, goal_cases)
    case (1 loop h g url found w r)
    then have "loop h g url (found @ page_items (JObj [(''@odata.nextLink'', JStr url)])) (w + millis 1) = Some r"
      by (simp add: circular_step json_or_err_def answer_json_def json_gets)
    with 1 show ?case by blast
  qed
  then show ?thesis by simp
qed

lemma circular_listing_never_returns:
  "get_json_paged circular \<lparr>gr_base = b, gr_deadline = None\<rparr> url w = None"
  by (simp add: get_json_paged_def circular_loop_diverges)

text \<open>The bounded read returns exactly the bodies that arrive whole and fit the limit; it returns what the
  plain read returns, which a declared length that is too large only shortcuts.\<close>

theorem bounded_read_exact:
  "get_bytes_bounded h g url n w = (Inr b, w') \<longleftrightarrow>
     (\<exists>r. get_with_retry h g (abs_url g url) w = (Inr r, w') \<and> get_bytes h g url w = (Inr b, w') \<and> length b \<le> n
        \<and> (case rp_length r of Some m \<Rightarrow> m \<le> n | None \<Rightarrow> True))"
  by (auto simp: get_bytes_bounded_def get_bytes_def read_then_def ok_reply_def read_bounded_iff
      split: sum.split prod.split option.split)

end
