(* ===== verification/Drive_Client.thy ===== *)
theory Drive_Client
  imports Pass_Types Drive_Safety Graph_Reads Graph_Requests
begin

text \<open>
  The Graph client behind the traits of the OneDrive connector (\<^verbatim>\<open>connectors/src/onedrive.rs\<close>): downloads over
  the retried reads, deletions, corrected times, replacements, and uploads whose resumable session is kept in
  the index. What the sync pass does with this client: it keeps the index well typed and touches only the
  drive of its account. And what the encoding of the upload URLs does to names with spaces.
\<close>

section \<open>Upload sessions in the index\<close>

text \<open>The store of upload sessions that an upload sees. An upload only changes the entry of its own destination,
  by \<^verbatim>\<open>save\<close> and \<^verbatim>\<open>clear\<close>; the last of these calls decides what the index holds.\<close>

definition resume_load :: "string \<Rightarrow> item_db \<Rightarrow> resume_store" where
  "resume_load account db dest =
     map_option (\<lambda>r. (us_upload_url r, unat (of_int (us_total r) :: u64), unat (of_int (us_next_offset r) :: u64)))
       (row_by upload_key (account, DRIVE, dest) (db_uploads db))"

definition as_i64 :: "nat \<Rightarrow> int" where
  "as_i64 n = sint (of_nat n :: u64)"

definition resume_save :: "string \<Rightarrow> string \<Rightarrow> (string \<times> nat \<times> nat) option \<Rightarrow> item_db \<Rightarrow> item_db" where
  "resume_save account dest entry db =
     (if entry = resume_load account db dest then db
      else case entry of
             None \<Rightarrow> clear_upload_session account DRIVE dest db
           | Some (url, n, off) \<Rightarrow> save_upload_session account DRIVE dest url (as_i64 n) (as_i64 off) db)"

section \<open>The client\<close>

definition UPLOAD_FRAGMENT :: nat where
  "UPLOAD_FRAGMENT = 10 * 1024 * 1024"

text \<open>When the connection is gone after \<open>lives\<close> fragments, the next request cannot be sent.\<close>

definition graph_upload_resumable ::
  "'c http \<Rightarrow> nat \<Rightarrow> string \<Rightarrow> string \<Rightarrow> bytes \<Rightarrow> item_db \<times> 'c \<Rightarrow> (string + json) \<times> item_db \<times> 'c" where
  "graph_upload_resumable h lives account dest payload dc =
     (case dc of (db, c) \<Rightarrow>
        (case upload_file_resumable h dest payload UPLOAD_FRAGMENT lives (c, resume_load account db) of
           (out, c, rs) \<Rightarrow>
             (map_sum show_upload_error id
                (case out of Some r \<Rightarrow> r | None \<Rightarrow> Inl (Transport Connect ''connection lost'')),
              resume_save account dest (rs dest) db, c)))"

definition mtime_body :: "string \<Rightarrow> json" where
  "mtime_body t = JObj [(''fileSystemInfo'', JObj [(''lastModifiedDateTime'', JStr t)])]"

definition graph_set_mtime :: "'c drive_http \<Rightarrow> string \<Rightarrow> string \<Rightarrow> 'c \<Rightarrow> (string + json) \<times> 'c" where
  "graph_set_mtime d i t c = texted Inr (answered json_or_err (dh_patch d i (mtime_body t) c))"

definition graph_writer :: "'c http \<Rightarrow> 'c drive_http \<Rightarrow> nat \<Rightarrow> 'c remote_writer" where
  "graph_writer h d lives =
     \<lparr>rw_upload_resumable = graph_upload_resumable h lives, rw_delete = graph_delete d,
      rw_set_mtime = graph_set_mtime d\<rparr>"

definition graph_replacer :: "'c drive_http \<Rightarrow> 'c content_replacer" where
  "graph_replacer d =
     \<lparr>cr_replace_if_match = (\<lambda>i payload etag c. texted Inr (replace_content_if_match d i payload etag c)),
      cr_set_mtime = graph_set_mtime d\<rparr>"

definition graph_downloader :: "'c read_http \<Rightarrow> graph_reader \<Rightarrow> 'c downloader" where
  "graph_downloader h g i c = texted Inr (download_content h g i c)"

definition graph_drive_client ::
  "'c transport \<Rightarrow> 'c read_http \<Rightarrow> graph_reader \<Rightarrow> 'c http \<Rightarrow> 'c drive_http \<Rightarrow> nat \<Rightarrow> 'c drive_client" where
  "graph_drive_client t reads g h d lives =
     \<lparr>dc_transport = t, dc_download = graph_downloader reads g, dc_writer = graph_writer h d lives,
      dc_replacer = graph_replacer d\<rparr>"

section \<open>The client keeps the index\<close>

lemma resume_save_evolves: "evolves account db (resume_save account dest entry db)"
  by (auto simp: resume_save_def evolves_refl intro: evolving split: option.split prod.split)

lemma graph_writer_keeps: "writer_keeps account (graph_writer h d lives)"
  by (auto simp: writer_keeps_def graph_writer_def graph_upload_resumable_def resume_save_evolves split: prod.split)

lemma resume_load_saved:
  assumes "\<And>url n off. entry = Some (url, n, off) \<Longrightarrow> n < 2 ^ 64 \<and> off < 2 ^ 64"
  shows "resume_load account (resume_save account dest entry db) dest = entry"
proof (cases "entry = resume_load account db dest")
  case False
  then show ?thesis
  proof (cases entry)
    case None
    with False show ?thesis
      using upload_table.row_by_delete [of "(account, DRIVE, dest)" "(account, DRIVE, dest)" "db_uploads db"]
      by (simp add: resume_save_def resume_load_def clear_upload_session_def)
  next
    case (Some e)
    obtain url n off where e: "e = (url, n, off)" by (metis prod_cases3)
    have wrap: "unat (of_int (as_i64 k) :: u64) = k" if "k < 2 ^ 64" for k
      using that by (simp add: as_i64_def unat_of_nat take_bit_nat_eq_self)
    show ?thesis
      using assms [of url n off] False Some e wrap
      by (auto simp: resume_save_def resume_load_def save_upload_session_def upload_table.row_by_upsert split: option.splits)
  qed
qed (simp add: resume_save_def)

section \<open>Properties of the pass\<close>

text \<open>C5: Whatever the cloud answers, and wherever the pass ends early, the index stays well typed: one row per
  item, scope and destination, every row of the drive in a known state and of a known type, with a deletion time
  when it is deleted. The writer may do with the index what the Graph client does with its upload sessions.\<close>

theorem sync_keeps_index_typed:
  assumes "writer_keeps account (dc_writer client)" and "items_ok (dw_db w)" and "drive_typed account (dw_db w)"
    and "sync_once env fp cfg account client host now w = Some (r, w')"
  shows "items_ok (dw_db w') \<and> drive_typed account (dw_db w')"
  using keeps_sync_once [OF assms(1,4)] assms(2,3) by (simp add: evolves_def)

text \<open>A small cloud: one page with one file, every body is one byte, uploads and changes are refused.\<close>

definition small_page :: json where
  "small_page = JObj [(''value'', JArr [JObj [(''id'', JStr ''i1''), (''name'', JStr ''a.txt''), (''size'', JNum 1)]]),
     (''@odata.deltaLink'', JStr ''d1'')]"

definition refused :: answer where
  "refused = \<lparr>a_status = 403, a_json = None, a_text = ''no''\<rparr>"

definition small_reads :: "unit read_http" where
  "small_reads = \<lparr>rh_get = (\<lambda>url t w. (Inr \<lparr>rp_answer = \<lparr>a_status = 200, a_json = None, a_text = []\<rparr>,
       rp_retry_after = None, rp_length = Some 1, rp_reads = [Inr [7]]\<rparr>, w)), rh_now = (\<lambda>w. 0), rh_sleep = (\<lambda>d w. w)\<rparr>"

definition small_client :: "unit drive_client" where
  "small_client = graph_drive_client
     (\<lambda>url c. (\<lparr>status = 200, retry_after = None, body = Some small_page\<rparr>, c), \<lambda>d c. c)
     small_reads \<lparr>gr_base = ''https://g'', gr_deadline = None\<rparr>
     \<lparr>http_put_content = (\<lambda>dest b c. (Inr refused, c)), http_create_session = (\<lambda>dest c. (Inr refused, c)),
      http_put_range = (\<lambda>u r b c. (Inr refused, c)), http_get = (\<lambda>u c. (Inr refused, c))\<rparr>
     \<lparr>dh_post_folder = (\<lambda>p n c. (Inr refused, c)), dh_children = (\<lambda>p c. (Inr [], c)), dh_patch = (\<lambda>i b c. (Inr refused, c)),
      dh_delete = (\<lambda>i c. (Inr refused, c)), dh_put_child = (\<lambda>p n b c. (Inr refused, c)),
      dh_put_content = (\<lambda>i b e c. (Inr refused, c))\<rparr> 3"

definition small_config :: Config where
  "small_config = \<lparr>cfg_accounts = [\<lparr>ac_id = ''acc'', ac_sync_root = (True, [''r'']), ac_archive_root = (True, [''ar'']),
     ac_cache_root = (True, [''c''])\<rparr>], cfg_sync = \<lparr>delete_guard = default_guard, wifi_only = False, charging_only = False, min_free_bytes = 0\<rparr>, cfg_onedrive_modes = []\<rparr>"

text \<open>An index with the cursor of another service.\<close>

definition small_world :: "unit drive_world" where
  "small_world = demo_world (set_delta_cursor ''acc'' ''mail'' ''inbox'' ''m1'' empty_items)
     \<lparr>nodes = [[''r''] \<mapsto> Dir, [''ar''] \<mapsto> Dir], entries = [[''r''], [''ar'']], io_faults = [], wall_clock = 9\<rparr> ()"

lemma small_world_typed: "items_ok (dw_db small_world)" "drive_typed account (dw_db small_world)"
proof -
  have "items_ok (item_exec (CallCursor ''acc'' ''mail'' ''inbox'' ''m1'') empty_items)"
    by (rule item_exec_keeps_ok) (rule empty_items_ok)
  then show "items_ok (dw_db small_world)" by (simp add: small_world_def)
  show "drive_typed account (dw_db small_world)"
    by (simp add: small_world_def drive_typed_def set_delta_cursor_def empty_items_def)
qed

lemma small_client_keeps: "writer_keeps account (dc_writer small_client)"
  by (simp add: small_client_def graph_drive_client_def graph_writer_keeps)

lemma small_pass_returns:
  "\<exists>r w'. sync_once demo_env exact_f64 small_config ''acc'' small_client ''pc'' ''now'' small_world = Some (r, w')"
proof -
  obtain acc where "find_account small_config ''acc'' = Some acc" by (simp add: find_account_def small_config_def)
  moreover have "\<exists>d. run_delta (fst (dc_transport small_client)) (snd (dc_transport small_client)) ROOT_DELTA start 5 c = Some d"
    for start c
    by (simp add: run_delta_def delta_loop.simps small_client_def graph_drive_client_def classify_def small_page_def json_gets)
  then obtain d where "run_delta (fst (dc_transport small_client)) (snd (dc_transport small_client)) ROOT_DELTA
      (get_delta_cursor ''acc'' DRIVE [] (dw_db small_world)) 5 (dw_cloud small_world) = Some d" by blast
  ultimately have "\<exists>x. sync_once demo_env exact_f64 small_config ''acc'' small_client ''pc'' ''now'' small_world = Some x"
    unfolding sync_once_def incremental_sync_def by (simp del: split_paired_Ex)
  then show ?thesis by auto
qed

theorem sync_keeps_index_typed_witness:
  "\<exists>r w'. sync_once demo_env exact_f64 small_config ''acc'' small_client ''pc'' ''now'' small_world = Some (r, w')
     \<and> items_ok (dw_db w') \<and> drive_typed ''acc'' (dw_db w')"
  using small_pass_returns sync_keeps_index_typed [OF small_client_keeps small_world_typed] by blast

text \<open>C6: A pass touches only the drive of its account: rows, cursors and upload sessions of other accounts and
  services are byte for byte and in their order what they were, and no run is logged.\<close>

theorem sync_touches_only_its_drive:
  assumes "writer_keeps account (dc_writer client)"
    and "sync_once env fp cfg account client host now w = Some (r, w')"
  shows "rest_of_index account (dw_db w') = rest_of_index account (dw_db w)"
  using keeps_sync_once [OF assms] by (simp add: evolves_def)


theorem sync_touches_only_its_drive_witness:
  "\<exists>r w'. sync_once demo_env exact_f64 small_config ''acc'' small_client ''pc'' ''now'' small_world = Some (r, w')
     \<and> rest_of_index ''acc'' (dw_db w') =
          ([], [\<lparr>ds_account_id = ''acc'', ds_service = ''mail'', ds_scope = ''inbox'', ds_cursor = ''m1'', ds_generation = 1\<rparr>],
           [], [])"
proof -
  have "rest_of_index ''acc'' (dw_db small_world) =
      ([], [\<lparr>ds_account_id = ''acc'', ds_service = ''mail'', ds_scope = ''inbox'', ds_cursor = ''m1'', ds_generation = 1\<rparr>], [], [])"
    by (simp add: small_world_def rest_of_index_def set_delta_cursor_def sql_upsert_def row_by_def empty_items_def DRIVE_def)
  then show ?thesis
    using small_pass_returns sync_touches_only_its_drive [OF small_client_keeps] by metis
qed

section \<open>Names with spaces\<close>

text \<open>A drive that is addressed by URL: what is put under a URL replaces what was there.\<close>

type_synonym url_drive = "string \<Rightarrow> bytes option"

definition url_item :: "string \<Rightarrow> answer" where
  "url_item url = \<lparr>a_status = 200, a_json = Some (JObj [(''id'', JStr url)]), a_text = []\<rparr>"

definition url_requests :: "url_drive raw_http" where
  "url_requests = \<lparr>rq_put = (\<lambda>url b c. (Inr (url_item url), c(url \<mapsto> b))), rq_post = (\<lambda>url c. (Inr refused, c)),
     rq_put_range = (\<lambda>u r b c. (Inr refused, c)), rq_get = (\<lambda>u c. (Inr refused, c))\<rparr>"

definition url_changes :: "url_drive drive_http" where
  "url_changes = \<lparr>dh_post_folder = (\<lambda>p n c. (Inr refused, c)), dh_children = (\<lambda>p c. (Inr [], c)),
     dh_patch = (\<lambda>i b c. (Inr (url_item i), c)), dh_delete = (\<lambda>i c. (Inr refused, c)),
     dh_put_child = (\<lambda>p n b c. (Inr refused, c)), dh_put_content = (\<lambda>i b e c. (Inr refused, c))\<rparr>"

definition url_writer :: "string \<Rightarrow> url_drive remote_writer" where
  "url_writer b = graph_writer (uploads_over b url_requests) url_changes 0"

lemma ingest_url_item:
  "\<exists>w'. ingest_item env account (JObj [(''id'', JStr url)]) now state None w = (Inr Upserted, w')
     \<and> dw_disk w' = dw_disk w \<and> dw_cloud w' = dw_cloud w"
  by (auto simp: ingest_item_def json_gets removed_def store_item_def try_then_def split: prod.split)

lemma push_small:
  assumes "length payload \<le> CHUNK_ALIGN"
  shows "\<exists>w'. push_upload env (url_writer b) account dest payload mtime w = (Inr (simple_upload_url b dest), w')
    \<and> dw_disk w' = dw_disk w \<and> dw_cloud w' = (dw_cloud w)(simple_upload_url b dest \<mapsto> payload)"
proof -
  let ?url = "simple_upload_url b dest" and ?item = "JObj [(''id'', JStr (simple_upload_url b dest))]"
  let ?w = "w\<lparr>dw_cloud := (dw_cloud w)(?url \<mapsto> payload)\<rparr>"
  have up: "upload_through (url_writer b) account dest payload w = (Inr ?item, ?w)"
    using assms
    by (simp add: upload_through_def url_writer_def graph_writer_def graph_upload_resumable_def upload_file_resumable_def
        simple_upload_def uploads_over_def url_requests_def url_item_def json_or_err_def answer_json_def resume_save_def)
  have set: "rw_set_mtime (url_writer b) i t c = (Inr (JObj [(''id'', JStr i)]), c)" for i t c
    by (simp add: url_writer_def graph_writer_def graph_set_mtime_def url_changes_def url_item_def texted_def answered_def
        json_or_err_def answer_json_def)
  obtain w' where w': "ingest_item env account ?item [] ''clean'' None ?w = (Inr Upserted, w')" "dw_disk w' = dw_disk w"
    "dw_cloud w' = (dw_cloud w)(?url \<mapsto> payload)"
    using ingest_url_item [of env account ?url "[]" "''clean''" ?w] by auto
  then have "push_upload env (url_writer b) account dest payload mtime w = (Inr ?url, w')"
    by (cases mtime) (simp_all add: push_upload_def up remote_def try_then_def json_gets set on_dcloud_def)
  with w' show ?thesis by blast
qed

lemma record_synced_rest [simp]:
  "dw_disk (record_synced_state account i full h w) = dw_disk w"
  "dw_cloud (record_synced_state account i full h w) = dw_cloud w"
  by (simp_all add: record_synced_state_def split: option.split prod.split)

lemma enc_append_escaped: "enc (a @ escape_spaces b) = enc (a @ b)"
proof (induction a)
  case (Cons c a)
  then show ?case
    by (cases "c = CHR ''/''") (auto simp: enc_def escape_spaces_def escape_spaces_again [unfolded escape_spaces_def])
qed (simp add: enc_escaped)

text \<open>A name that the cloud stores as it is.\<close>

definition plain_name :: "string \<Rightarrow> bool" where
  "plain_name n \<longleftrightarrow> n \<noteq> ''..'' \<and> utf8_encode (to_cloud (utf8_decode n)) = n"

text \<open>C31: The path-addressed upload escapes spaces but no percent signs, so two files whose names differ only in
  that one has \<^verbatim>\<open>%20\<close> for the spaces of the other have the same URL. Pushed in one pass, both count as created, and
  the second body replaces the first: the cloud holds one item with the second body.\<close>

theorem escaped_twin_overwrites:
  assumes "plain_name n" and "plain_name (escape_spaces n)"
    and "body_at (de_keys env) (path_join base (False, dirs @ [n])) (dw_disk w) = Some p"
    and "body_at (de_keys env) (path_join base (False, dirs @ [escape_spaces n])) (dw_disk w) = Some q"
    and "length p \<le> CHUNK_ALIGN" and "length q \<le> CHUNK_ALIGN"
  shows "\<exists>w'. push_local_creates env (url_writer b) account base [(False, dirs @ [n]), (False, dirs @ [escape_spaces n])] 0 w = (Inr 2, w')
    \<and> dw_cloud w' = (dw_cloud w)(simple_upload_url b (cloud_dest_path (False, dirs @ [n])) \<mapsto> q)"
proof -
  let ?r = "(False, dirs @ [n])" and ?s = "(False, dirs @ [escape_spaces n])"
  have "cloud_dest_path ?r = cloud_dest_path (False, dirs) @ CHR ''/'' # n"
    "cloud_dest_path ?s = cloud_dest_path (False, dirs) @ CHR ''/'' # escape_spaces n"
    using assms(1,2) by (simp_all add: cloud_dest_path_def plain_name_def)
  then have url: "simple_upload_url b (cloud_dest_path ?s) = simple_upload_url b (cloud_dest_path ?r)"
    using enc_append_escaped [of "cloud_dest_path (False, dirs) @ ''/''" n] by (simp add: simple_upload_url_def)
  let ?url = "simple_upload_url b (cloud_dest_path ?r)"
  obtain w1 where w1: "push_upload env (url_writer b) account (cloud_dest_path ?r) p
      (local_mtime_secs (path_join base ?r) (dw_disk w)) w = (Inr ?url, w1)" "dw_disk w1 = dw_disk w"
    using push_small [OF assms(5)] by metis
  define w2 where "w2 = record_synced_state account ?url (path_join base ?r) (Some (quickxor_base64 p)) w1"
  have w2: "dw_disk w2 = dw_disk w" by (simp add: w2_def w1)
  obtain w3 where w3: "push_upload env (url_writer b) account (cloud_dest_path ?s) q
      (local_mtime_secs (path_join base ?s) (dw_disk w)) w2 = (Inr ?url, w3)" "dw_cloud w3 = (dw_cloud w2)(?url \<mapsto> q)"
    using push_small [OF assms(6)] url by metis
  have "dw_cloud w1 = (dw_cloud w)(?url \<mapsto> p)" using w1(1) push_small [OF assms(5)] by (metis prod.inject)
  then have cloud: "dw_cloud w3 = (dw_cloud w)(?url \<mapsto> q)" by (simp add: w3(2) w2_def)
  have "push_local_creates env (url_writer b) account base [?r, ?s] 0 w =
      (Inr 2, record_synced_state account ?url (path_join base ?s) (Some (quickxor_base64 q)) w3)"
    using assms(3,4) w1 w3 w2 by (simp add: Let_def try_then_def w2_def [symmetric])
  with cloud show ?thesis by simp
qed

definition twin_disk :: disk where
  "twin_disk = \<lparr>nodes = [[''r''] \<mapsto> Dir, [''r'', ''a b''] \<mapsto> File [1] 5, [''r'', ''a%20b''] \<mapsto> File [2] 6],
     entries = [[''r''], [''r'', ''a b''], [''r'', ''a%20b'']], io_faults = [], wall_clock = 9\<rparr>"

theorem escaped_twin_overwrites_witness:
  "\<exists>w'. push_local_creates demo_env (url_writer ''https://g'') ''acc'' (True, [''r''])
       [(False, [''a b'']), (False, [''a%20b''])] 0 (demo_world empty_items twin_disk Map.empty) = (Inr 2, w')
     \<and> dw_cloud w' = [''https://g/me/drive/root:/a%20b:/content'' \<mapsto> [2]]"
proof -
  let ?w = "demo_world empty_items twin_disk (Map.empty :: url_drive)"
  have twin: "escape_spaces ''a b'' = ''a%20b''" by code_simp
  have names: "plain_name ''a b''" "plain_name (escape_spaces ''a b'')" by code_simp+
  have bodies: "body_at (de_keys demo_env) (path_join (True, [''r'']) (False, [] @ [''a b''])) (dw_disk ?w) = Some [1]"
    "body_at (de_keys demo_env) (path_join (True, [''r'']) (False, [] @ [escape_spaces ''a b''])) (dw_disk ?w) = Some [2]"
    by code_simp+
  have url: "simple_upload_url ''https://g'' (cloud_dest_path (False, [] @ [''a b''])) = ''https://g/me/drive/root:/a%20b:/content''"
    by code_simp
  have "length [1 :: u8] \<le> CHUNK_ALIGN" "length [2 :: u8] \<le> CHUNK_ALIGN" by (simp_all add: CHUNK_ALIGN_def)
  from escaped_twin_overwrites [OF names bodies this, of "''https://g''" "''acc''"] show ?thesis
    by (simp add: twin url [simplified] del: split_paired_Ex push_local_creates.simps)
qed

end
