(* ===== verification/Transfers.thy ===== *)
theory Transfers
  imports Prelude
begin

text \<open>
  The in-flight transfers of a materialize pass (\<^verbatim>\<open>SharedProgress\<close> of \<^verbatim>\<open>connectors/src/onedrive.rs\<close>): the slots
  shown in the transfer panel, one-shot cancel requests and persistent pauses. The trait \<^verbatim>\<open>ProgressSink\<close> is a
  record of operations with its two implementations, the shared set and the no-op of the desktop.
\<close>

record TransferSlot =
  ts_id :: string
  ts_name :: string
  ts_bytes_done :: nat
  ts_bytes_total :: nat
  ts_retry_after_secs :: nat

record SharedProgress =
  slots :: "TransferSlot list"
  cancels :: "string set"
  pauses :: "string set"

definition no_transfers :: SharedProgress where
  "no_transfers = \<lparr>slots = [], cancels = {}, pauses = {}\<rparr>"

definition snapshot_transfers :: "SharedProgress \<Rightarrow> TransferSlot list" where
  "snapshot_transfers p = slots p"

definition request_cancel :: "string \<Rightarrow> SharedProgress \<Rightarrow> SharedProgress" where
  "request_cancel i p = p\<lparr>cancels := insert i (cancels p)\<rparr>"

definition request_pause :: "string \<Rightarrow> SharedProgress \<Rightarrow> SharedProgress" where
  "request_pause i p = p\<lparr>pauses := insert i (pauses p)\<rparr>"

definition resume_transfer :: "string \<Rightarrow> SharedProgress \<Rightarrow> SharedProgress" where
  "resume_transfer i p = p\<lparr>pauses := pauses p - {i}\<rparr>"

definition is_paused_id :: "string \<Rightarrow> SharedProgress \<Rightarrow> bool" where
  "is_paused_id i p \<longleftrightarrow> i \<in> pauses p"

text \<open>\<^verbatim>\<open>iter_mut().find(|s| s.id == id)\<close>: the first slot of the transfer is changed.\<close>

fun at_slot :: "string \<Rightarrow> (TransferSlot \<Rightarrow> TransferSlot) \<Rightarrow> TransferSlot list \<Rightarrow> TransferSlot list" where
  "at_slot i f [] = []"
| "at_slot i f (s # ss) = (if ts_id s = i then f s # ss else s # at_slot i f ss)"

definition with_slots :: "(TransferSlot list \<Rightarrow> TransferSlot list) \<Rightarrow> SharedProgress \<Rightarrow> SharedProgress" where
  "with_slots f p = p\<lparr>slots := f (slots p)\<rparr>"

definition retry_now :: "string \<Rightarrow> SharedProgress \<Rightarrow> SharedProgress" where
  "retry_now i p = with_slots (at_slot i (\<lambda>s. s\<lparr>ts_retry_after_secs := 0\<rparr>)) (resume_transfer i p)"

definition begin_transfer :: "string \<Rightarrow> string \<Rightarrow> nat \<Rightarrow> SharedProgress \<Rightarrow> SharedProgress" where
  "begin_transfer i name bytes_total =
     with_slots (\<lambda>ss.
       if \<exists>s \<in> set ss. ts_id s = i
       then at_slot i (\<lambda>s. s\<lparr>ts_name := name, ts_bytes_total := bytes_total, ts_bytes_done := 0, ts_retry_after_secs := 0\<rparr>) ss
       else ss @ [\<lparr>ts_id = i, ts_name = name, ts_bytes_done = 0, ts_bytes_total = bytes_total, ts_retry_after_secs = 0\<rparr>])"

definition advance_transfer :: "string \<Rightarrow> nat \<Rightarrow> SharedProgress \<Rightarrow> SharedProgress" where
  "advance_transfer i done = with_slots (at_slot i (\<lambda>s. s\<lparr>ts_bytes_done := done\<rparr>))"

definition retry_after_transfer :: "string \<Rightarrow> nat \<Rightarrow> SharedProgress \<Rightarrow> SharedProgress" where
  "retry_after_transfer i secs = with_slots (at_slot i (\<lambda>s. s\<lparr>ts_retry_after_secs := secs\<rparr>))"

definition finish_transfer :: "string \<Rightarrow> SharedProgress \<Rightarrow> SharedProgress" where
  "finish_transfer i p =
     (with_slots (filter (\<lambda>s. ts_id s \<noteq> i)) p)\<lparr>cancels := cancels p - {i}, pauses := pauses p - {i}\<rparr>"

definition is_cancelled :: "string \<Rightarrow> SharedProgress \<Rightarrow> bool" where
  "is_cancelled i p \<longleftrightarrow> i \<in> cancels p"

definition consume_cancel :: "string \<Rightarrow> SharedProgress \<Rightarrow> SharedProgress" where
  "consume_cancel i p = p\<lparr>cancels := cancels p - {i}\<rparr>"

section \<open>The trait\<close>

record 'p sink =
  pk_begin :: "string \<Rightarrow> string \<Rightarrow> nat \<Rightarrow> 'p \<Rightarrow> 'p"
  pk_advance :: "string \<Rightarrow> nat \<Rightarrow> 'p \<Rightarrow> 'p"
  pk_retry_after :: "string \<Rightarrow> nat \<Rightarrow> 'p \<Rightarrow> 'p"
  pk_finish :: "string \<Rightarrow> 'p \<Rightarrow> 'p"
  pk_is_cancelled :: "string \<Rightarrow> 'p \<Rightarrow> bool"
  pk_consume_cancel :: "string \<Rightarrow> 'p \<Rightarrow> 'p"
  pk_is_paused :: "string \<Rightarrow> 'p \<Rightarrow> bool"

definition shared_sink :: "SharedProgress sink" where
  "shared_sink = \<lparr>pk_begin = begin_transfer, pk_advance = advance_transfer, pk_retry_after = retry_after_transfer,
     pk_finish = finish_transfer, pk_is_cancelled = is_cancelled, pk_consume_cancel = consume_cancel,
     pk_is_paused = is_paused_id\<rparr>"

definition unit_sink :: "unit sink" where
  "unit_sink = \<lparr>pk_begin = (\<lambda>i name n p. p), pk_advance = (\<lambda>i n p. p), pk_retry_after = (\<lambda>i n p. p),
     pk_finish = (\<lambda>i p. p), pk_is_cancelled = (\<lambda>i p. False), pk_consume_cancel = (\<lambda>i p. p),
     pk_is_paused = (\<lambda>i p. False)\<rparr>"

end
