(* ===== verification/Drive_Scopes.thy ===== *)
theory Drive_Scopes
  imports Drive_Files Sync_Policies Transfers Cloud_Ledger
begin

text \<open>
  The scoped half of the OneDrive connector, for folders in mode sync or offline: the delta of each scope
  walked page by page with its own cursor, ownership of items by the deepest scope, materializing the bodies
  of offline scopes under a transfer policy, freeing and fetching single bodies, and the cleanup when a
  folder leaves the offline mode (\<^verbatim>\<open>connectors/src/onedrive.rs\<close>).
\<close>

section \<open>Ancestry\<close>

definition item_delta_url :: "string \<Rightarrow> string" where
  "item_delta_url folder_id = ''https://graph.microsoft.com/v1.0/me/drive/items/'' @ folder_id @ ''/delta''"

text \<open>\<open>n\<close> more ids at most; \<open>seen\<close> holds the anc itself.\<close>

fun ancestry_from :: "item_db \<Rightarrow> string \<Rightarrow> nat \<Rightarrow> string list \<Rightarrow> string \<Rightarrow> string list" where
  "ancestry_from db account 0 anc cur = anc"
| "ancestry_from db account (Suc n) anc cur =
     (case Option.bind (get_item account DRIVE cur db) it_parent_remote_id of
        None \<Rightarrow> anc
      | Some p \<Rightarrow> if p \<in> set anc then anc else ancestry_from db account n (anc @ [p]) p)"

definition store_ancestry :: "item_db \<Rightarrow> string \<Rightarrow> string \<Rightarrow> string list" where
  "store_ancestry db account i = ancestry_from db account 255 [i] i"

definition scope_depth :: "item_db \<Rightarrow> string \<Rightarrow> string set \<Rightarrow> string \<Rightarrow> nat" where
  "scope_depth db account actives folder_id = length (filter (\<lambda>i. i \<in> actives) (store_ancestry db account folder_id))"

section \<open>The delta of one scope\<close>

partial_function (option) scope_loop ::
  "'c transport \<Rightarrow> string \<Rightarrow> string \<Rightarrow> string \<Rightarrow> nat
     \<Rightarrow> (json list \<Rightarrow> SyncReport \<Rightarrow> 'c drive_world \<Rightarrow> (SyncError + SyncReport) \<times> 'c drive_world)
     \<Rightarrow> string \<Rightarrow> bool \<Rightarrow> nat \<Rightarrow> Pacer \<Rightarrow> SyncReport \<Rightarrow> 'c drive_world
     \<Rightarrow> ((SyncError + bool) \<times> SyncReport \<times> 'c drive_world) option" where
  "scope_loop t account scope base_url max_retries on_page url res retries pacer rep w =
     (case on_dcloud (fst t url) w of (resp, w) \<Rightarrow>
        (case Graph_Transport.classify (status resp) (retry_after resp) of
           Ok \<Rightarrow>
             (case body resp of
                None \<Rightarrow> Some (Inl (Delta MissingBody), rep, w)
              | Some b \<Rightarrow>
                  (case on_page (page_values b) rep w of
                     (Inl e, w) \<Rightarrow> Some (Inl e, rep, w)
                   | (Inr rep, w) \<Rightarrow>
                       (case get_str ''@odata.nextLink'' b of
                          Some nxt \<Rightarrow>
                            scope_loop t account scope base_url max_retries on_page nxt res 0
                              (snd (pacer_update Success pacer)) rep
                              (update_db (set_delta_cursor account DRIVE scope nxt) w)
                        | None \<Rightarrow>
                            (case get_str ''@odata.deltaLink'' b of
                               Some d \<Rightarrow> Some (Inr res, rep, update_db (set_delta_cursor account DRIVE scope d) w)
                             | None \<Rightarrow> Some (Inl (Delta NoCursor), rep, w)))))
         | Retry after \<Rightarrow>
             if retries + 1 > max_retries then Some (Inl (Delta TooManyRetries), rep, w)
             else (case pacer_update (Throttled after) pacer of (delay, pacer) \<Rightarrow>
                     scope_loop t account scope base_url max_retries on_page url res (retries + 1) pacer rep
                       (w\<lparr>dw_cloud := snd t delay (dw_cloud w)\<rparr>))
         | Resync \<Rightarrow>
             scope_loop t account scope base_url max_retries on_page base_url True 0 pacer rep
               (update_db (\<lambda>db. snd (clear_delta_cursor account DRIVE scope db)) w)
         | RefreshAuth \<Rightarrow> Some (Inl (Delta AuthExpired), rep, w)
         | _ \<Rightarrow> Some (Inl (Delta (FatalStatus (status resp))), rep, w)))"

definition walk_scope_delta ::
  "'c transport \<Rightarrow> string \<Rightarrow> string \<Rightarrow> string \<Rightarrow> nat
     \<Rightarrow> (json list \<Rightarrow> SyncReport \<Rightarrow> 'c drive_world \<Rightarrow> (SyncError + SyncReport) \<times> 'c drive_world)
     \<Rightarrow> SyncReport \<Rightarrow> 'c drive_world \<Rightarrow> ((SyncError + bool) \<times> SyncReport \<times> 'c drive_world) option" where
  "walk_scope_delta t account scope base_url max_retries on_page rep w =
     scope_loop t account scope base_url max_retries on_page
       (case get_delta_cursor account DRIVE scope (dw_db w) of Some c \<Rightarrow> c | None \<Rightarrow> base_url)
       False 0 Pacer_new rep w"

definition owned_elsewhere :: "item_db \<Rightarrow> string \<Rightarrow> string \<Rightarrow> string set \<Rightarrow> string \<Rightarrow> bool" where
  "owned_elsewhere db account scope actives i =
     (case owning_scope (store_ancestry db account i) actives of Some owner \<Rightarrow> owner \<noteq> scope | None \<Rightarrow> False)"

definition ingest_item_scoped ::
  "drive_env \<Rightarrow> string \<Rightarrow> string \<Rightarrow> string set \<Rightarrow> string \<Rightarrow> PathBuf option \<Rightarrow> json \<Rightarrow> 'c drive_world
     \<Rightarrow> (SyncError + Ingest) \<times> 'c drive_world" where
  "ingest_item_scoped env account scope actives now archive item w =
     (case get_str ''id'' item of
        None \<Rightarrow> (Inl (Malformed ''item has no id''), w)
      | Some i \<Rightarrow>
          if removed item then
            (if owned_elsewhere (dw_db w) account scope actives i then (Inr Skipped, w)
             else (Inr Drive_Items.Deleted, tombstone account i now archive w))
          else if get ''root'' item \<noteq> None then (Inr Skipped, w)
          else try_then (store_item env account i item ''remote_dirty'' archive w) (\<lambda>_ w.
                 (Inr (if owned_elsewhere (dw_db w) account scope actives i then Skipped else Upserted), w)))"

fun sync_scopes ::
  "drive_env \<Rightarrow> 'c transport \<Rightarrow> string \<Rightarrow> string \<Rightarrow> PathBuf \<Rightarrow> string set \<Rightarrow> FolderScope list \<Rightarrow> SyncReport
     \<Rightarrow> 'c drive_world \<Rightarrow> ((SyncError + SyncReport) \<times> 'c drive_world) option" where
  "sync_scopes env t account now archive actives [] rep w = Some (Inr rep, w)"
| "sync_scopes env t account now archive actives (s # ss) rep w =
     Option.bind
       (walk_scope_delta t account (fs_folder_id s) (item_delta_url (fs_folder_id s)) 5
          (ingest_items (ingest_item_scoped env account (fs_folder_id s) actives now (Some archive))) rep w)
       (\<lambda>(out, rep, w).
          case out of
            Inr res \<Rightarrow> sync_scopes env t account now archive actives ss (rep\<lparr>sr_resynced := sr_resynced rep \<or> res\<rparr>) w
          | Inl e \<Rightarrow>
              if e = Delta (FatalStatus 404)
              then sync_scopes env t account now archive actives ss (rep\<lparr>sr_skipped := sr_skipped rep + 1\<rparr>) w
              else Some (Inl e, w))"

definition incremental_sync_scoped ::
  "drive_env \<Rightarrow> 'c transport \<Rightarrow> string \<Rightarrow> string \<Rightarrow> PathBuf \<Rightarrow> FolderScope list \<Rightarrow> 'c drive_world
     \<Rightarrow> ((SyncError + SyncReport) \<times> 'c drive_world) option" where
  "incremental_sync_scoped env t account now archive scopes w =
     (let actives = fs_folder_id ` set scopes;
          ordered = sort_key (\<lambda>s. - int (scope_depth (dw_db w) account actives (fs_folder_id s))) scopes
      in sync_scopes env t account now archive actives ordered
           \<lparr>sr_upserted = 0, sr_deleted = 0, sr_skipped = 0, sr_resynced = False\<rparr> w)"

end
