(* ===== verification/Scoped_Files.thy ===== *)
theory Scoped_Files
  imports Drive_Scopes
begin

text \<open>
  The bodies of the scoped half of the OneDrive connector (\<^verbatim>\<open>connectors/src/onedrive.rs\<close>): materializing what
  an offline scope owns under the transfer policy and with progress, the scans restricted to offline scopes,
  freeing and fetching single bodies, and the cleanup when a folder leaves the offline mode.
\<close>

section \<open>Ownership by offline scopes\<close>

definition item_in_offline :: "item_db \<Rightarrow> string \<Rightarrow> string \<Rightarrow> string set \<Rightarrow> bool" where
  "item_in_offline db account i offline_ids \<longleftrightarrow> owning_scope (store_ancestry db account i) offline_ids \<noteq> None"

definition offline_scope_prefixes :: "item_db \<Rightarrow> string \<Rightarrow> string set \<Rightarrow> PathBuf set" where
  "offline_scope_prefixes db account offline_ids =
     (let m = by_id (all_items_by_service account DRIVE db)
      in {rel. \<exists>i \<in> offline_ids. Option.bind (m i) (local_rel_path m) = Some rel})"

section \<open>Materializing offline scopes\<close>

type_synonym 'c streaming_downloader = "string \<Rightarrow> 'c \<Rightarrow> (nat list \<times> (string + bytes)) \<times> 'c"

text \<open>The default of the trait: the body is fetched whole and its length reported once.\<close>

definition with_progress :: "'c downloader \<Rightarrow> 'c streaming_downloader" where
  "with_progress download i c =
     (case download i c of
        (Inl e, c) \<Rightarrow> (([], Inl e), c)
      | (Inr payload, c) \<Rightarrow> (([length payload], Inr payload), c))"

definition fetch_reporting ::
  "'p sink \<Rightarrow> 'c streaming_downloader \<Rightarrow> string \<Rightarrow> 'c drive_world \<times> 'p \<Rightarrow> (string + bytes) \<times> 'c drive_world \<times> 'p" where
  "fetch_reporting k download i wp =
     (case on_dcloud (download i) (fst wp) of
        ((reports, r), w) \<Rightarrow> (r, w, fold (pk_advance k i) reports (snd wp)))"

definition item_total :: "Item \<Rightarrow> nat" where
  "item_total it = (case it_size it of Some n \<Rightarrow> nat (max n 0) | None \<Rightarrow> 0)"

definition content :: "string \<Rightarrow> string \<Rightarrow> string option \<Rightarrow> string \<Rightarrow> string \<Rightarrow> string option \<Rightarrow> 'c drive_world \<Rightarrow> 'c drive_world" where
  "content account i st location body_state since =
     update_db (set_content_state account DRIVE i st (Some location) (Some body_state) since)"

definition keep_local_edit_scoped ::
  "drive_env \<Rightarrow> string \<Rightarrow> PathBuf \<Rightarrow> string \<Rightarrow> string \<Rightarrow> PathBuf \<Rightarrow> MaterializeReport \<times> 'c drive_world
     \<Rightarrow> MaterializeReport \<times> 'c drive_world" where
  "keep_local_edit_scoped env account base host i full rw =
     (case rw of (r, w) \<Rightarrow>
        (case get_synced_state account DRIVE i (dw_db w) of
           None \<Rightarrow> (r, w)
         | Some (ssize, smtime, shash) \<Rightarrow>
             if locally_edited_since_sync env full ssize smtime shash (dw_disk w)
             then
               let dir = dir_of base full;
                   copy = unique_conflict_copy dir (name_of full) host (dw_disk w)
               in (case on_disk (rename full (path_join dir (path_of copy))) w of
                     (True, w) \<Rightarrow>
                       (r\<lparr>mr_conflicts := mr_conflicts r + 1\<rparr>, update_db (set_conflict_state account DRIVE i (Some copy)) w)
                   | (False, w) \<Rightarrow> (r, w))
             else (r, w)))"

definition download_scoped ::
  "drive_env \<Rightarrow> 'c streaming_downloader \<Rightarrow> 'p sink \<Rightarrow> string \<Rightarrow> string \<Rightarrow> string \<Rightarrow> Item \<Rightarrow> PathBuf
     \<Rightarrow> MaterializeReport \<times> 'c drive_world \<times> 'p \<Rightarrow> MaterializeReport \<times> 'c drive_world \<times> 'p" where
  "download_scoped env download k account now name it full rwp =
     (case rwp of (r, w, p) \<Rightarrow>
        let i = it_remote_id it;
            w = (case path_parent full of Some q \<Rightarrow> snd (on_disk (create_dir_all q) w) | None \<Rightarrow> w);
            p = pk_begin k i name (item_total it) p
        in (case fetch_reporting k download i (content account i None ''sync'' ''downloading'' None w, p) of
              (Inl e, w, p) \<Rightarrow>
                (r\<lparr>mr_failed := mr_failed r + 1\<rparr>, content account i None ''sync'' ''failed'' None w, pk_finish k i p)
            | (Inr payload, w, p) \<Rightarrow>
                (case on_disk (atomic_write env full payload) w of
                   (False, w) \<Rightarrow>
                     (r\<lparr>mr_failed := mr_failed r + 1\<rparr>, content account i None ''sync'' ''failed'' None w, pk_finish k i p)
                 | (True, w) \<Rightarrow>
                     let w = (case it_remote_mtime it of
                            Some mt \<Rightarrow> w\<lparr>dw_disk := set_file_mtime full mt (dw_disk w)\<rparr> | None \<Rightarrow> w);
                         w = record_synced_state account i full (Some (quickxor_base64 payload)) (mark_clean account i w)
                     in (r\<lparr>mr_downloaded := mr_downloaded r + 1\<rparr>,
                         content account i (Some ''materialized'') ''sync'' ''available'' (Some now) w, pk_finish k i p))))"

definition materialize_file_scoped ::
  "drive_env \<Rightarrow> 'c streaming_downloader \<Rightarrow> 'p sink \<Rightarrow> SyncConfig \<Rightarrow> DeviceState \<Rightarrow> string \<Rightarrow> string \<Rightarrow> PathBuf \<Rightarrow> string
     \<Rightarrow> string \<Rightarrow> Item \<Rightarrow> PathBuf \<Rightarrow> MaterializeReport \<times> 'c drive_world \<times> 'p \<Rightarrow> MaterializeReport \<times> 'c drive_world \<times> 'p" where
  "materialize_file_scoped env download k cfg dev account now base host name it full rwp =
     (case rwp of (r, w, p) \<Rightarrow>
        let i = it_remote_id it
        in if local_file_matches_synced_remote account full it w then
             (r\<lparr>mr_skipped := mr_skipped r + 1\<rparr>,
              content account i (Some ''materialized'') ''sync'' ''available'' (Some now)
                (record_synced_state account i full (it_quickxorhash it) (mark_clean account i w)), p)
           else if pk_is_cancelled k i p then
             (r\<lparr>mr_cancelled := mr_cancelled r + 1\<rparr>, w, pk_consume_cancel k i p)
           else if pk_is_paused k i p then (r, w, p)
           else if \<not> is_allowed (evaluate cfg dev) then
             (r\<lparr>mr_failed := mr_failed r + 1\<rparr>, content account i None ''sync'' ''missing'' None w, p)
           else
             (case keep_local_edit_scoped env account base host i full (r, w) of
                (r, w) \<Rightarrow> download_scoped env download k account now name it full (r, w, p)))"

definition materialize_item_scoped ::
  "drive_env \<Rightarrow> 'c streaming_downloader \<Rightarrow> 'p sink \<Rightarrow> SyncConfig \<Rightarrow> DeviceState \<Rightarrow> string \<Rightarrow> string \<Rightarrow> PathBuf \<Rightarrow> string
     \<Rightarrow> string set \<Rightarrow> (string \<Rightarrow> Item option) \<Rightarrow> bool \<Rightarrow> Item
     \<Rightarrow> MaterializeReport \<times> 'c drive_world \<times> 'p \<Rightarrow> MaterializeReport \<times> 'c drive_world \<times> 'p" where
  "materialize_item_scoped env download k cfg dev account now base host offline_ids m pass_folders it rwp =
     (case rwp of (r, w, p) \<Rightarrow>
        let is_folder = (it_item_type it = ''folder'')
        in if is_folder \<noteq> pass_folders \<or> it_sync_state it \<noteq> ''remote_dirty'' then (r, w, p)
           else if \<not> item_in_offline (dw_db w) account (it_remote_id it) offline_ids then (r, w, p)
           else (case local_rel_path m it of
                   None \<Rightarrow> (r\<lparr>mr_failed := mr_failed r + 1\<rparr>, w, p)
                 | Some rel \<Rightarrow>
                     let full = path_join base rel
                     in if is_folder then (case materialize_folder account (it_remote_id it) full (r, w) of (r, w) \<Rightarrow> (r, w, p))
                        else materialize_file_scoped env download k cfg dev account now base host (name_of rel) it full (r, w, p)))"

definition materialize_downloads_scoped ::
  "drive_env \<Rightarrow> 'c streaming_downloader \<Rightarrow> 'p sink \<Rightarrow> SyncConfig \<Rightarrow> DeviceState \<Rightarrow> string \<Rightarrow> PathBuf \<Rightarrow> string \<Rightarrow> string
     \<Rightarrow> string set \<Rightarrow> 'c drive_world \<times> 'p \<Rightarrow> MaterializeReport \<times> 'c drive_world \<times> 'p" where
  "materialize_downloads_scoped env download k cfg dev account base host now offline_ids wp =
     (let its = items_by_service account DRIVE (dw_db (fst wp));
          m = by_id its
      in fold (\<lambda>pass rwp. fold (materialize_item_scoped env download k cfg dev account now base host offline_ids m pass) its rwp)
           [True, False] (no_downloads, wp))"

section \<open>Scans restricted to offline scopes\<close>

definition scan_local_creates_scoped :: "string \<Rightarrow> PathBuf \<Rightarrow> string set \<Rightarrow> 'c drive_world \<Rightarrow> PathBuf list" where
  "scan_local_creates_scoped account base offline_ids w =
     filter (\<lambda>rel. \<exists>p \<in> offline_scope_prefixes (dw_db w) account offline_ids. path_starts_with rel p)
       (scan_local_creates account base w)"

definition scan_local_modifies_scoped ::
  "drive_env \<Rightarrow> string \<Rightarrow> PathBuf \<Rightarrow> string set \<Rightarrow> 'c drive_world \<Rightarrow> (string \<times> PathBuf \<times> string) list" where
  "scan_local_modifies_scoped env account base offline_ids w =
     filter (\<lambda>m. item_in_offline (dw_db w) account (fst m) offline_ids) (scan_local_modifies env account base w)"

definition scan_local_deletes_scoped :: "string \<Rightarrow> PathBuf \<Rightarrow> string set \<Rightarrow> 'c drive_world \<Rightarrow> string list" where
  "scan_local_deletes_scoped account base offline_ids w =
     filter (\<lambda>i. item_in_offline (dw_db w) account i offline_ids) (scan_local_deletes account base w)"

section \<open>Single bodies\<close>

definition dematerialize_one ::
  "string \<Rightarrow> string \<Rightarrow> PathBuf \<Rightarrow> PathBuf \<Rightarrow> 'c drive_world \<Rightarrow> (SyncError + bool) \<times> 'c drive_world" where
  "dematerialize_one account i sync_root cache_root w =
     (let m = by_id (items_by_service account DRIVE (dw_db w))
      in case m i of
           None \<Rightarrow> (Inl (Malformed (''free-up: unknown item '' @ i)), w)
         | Some it \<Rightarrow>
             (case (case local_rel_path m it of
                      None \<Rightarrow> (False, w)
                    | Some rel \<Rightarrow>
                        on_disk (remove_file (path_join
                          (if it_body_location it = Some ''cache'' then cache_root else sync_root) rel)) w) of
                (gone, w) \<Rightarrow> (Inr gone, content account i (Some ''cached'') ''none'' ''missing'' None w)))"

datatype DownloadBodyTarget = Cache | SyncRoot

definition target_root :: "DownloadBodyTarget \<Rightarrow> PathBuf \<Rightarrow> PathBuf \<Rightarrow> PathBuf" where
  "target_root t sync_root cache_root = (case t of Cache \<Rightarrow> cache_root | SyncRoot \<Rightarrow> sync_root)"

primrec body_location :: "DownloadBodyTarget \<Rightarrow> string" where
  "body_location Cache = ''cache''"
| "body_location SyncRoot = ''sync''"

primrec downloading_content_state :: "DownloadBodyTarget \<Rightarrow> string option" where
  "downloading_content_state Cache = Some ''cached''"
| "downloading_content_state SyncRoot = None"

primrec missing_content_state :: "DownloadBodyTarget \<Rightarrow> string option" where
  "missing_content_state Cache = Some ''cached''"
| "missing_content_state SyncRoot = None"

primrec available_content_state :: "DownloadBodyTarget \<Rightarrow> string" where
  "available_content_state Cache = ''cached''"
| "available_content_state SyncRoot = ''materialized''"

definition records_synced_reference :: "DownloadBodyTarget \<Rightarrow> bool" where
  "records_synced_reference t \<longleftrightarrow> t = SyncRoot"

text \<open>The body writer of the envelope on this disk: the temporary sibling, then the rename.\<close>

definition write_body :: "drive_env \<Rightarrow> PathBuf \<Rightarrow> bytes \<Rightarrow> disk \<Rightarrow> bool \<times> disk" where
  "write_body env p payload d =
     (let tmp = (fst p, tmp_sibling (snd p))
      in case write_file tmp (sealed_for_disk (de_keys env) payload) d of
           (False, d) \<Rightarrow> (False, d)
         | (True, d) \<Rightarrow> rename tmp p d)"

definition fetch_one ::
  "drive_env \<Rightarrow> 'c streaming_downloader \<Rightarrow> 'p sink \<Rightarrow> string \<Rightarrow> Item \<Rightarrow> PathBuf \<Rightarrow> DownloadBodyTarget \<Rightarrow> string
     \<Rightarrow> 'c drive_world \<times> 'p \<Rightarrow> (SyncError + bool) \<times> 'c drive_world \<times> 'p" where
  "fetch_one env download k account it full target now wp =
     (let i = it_remote_id it
      in case fetch_reporting k download i wp of
           (Inl e, w, p) \<Rightarrow> (Inl (Malformed e), w, p)
         | (Inr payload, w, p) \<Rightarrow>
             (case on_disk (write_body env full payload) w of
                (False, w) \<Rightarrow> (Inl (Malformed ''write''), w, p)
              | (True, w) \<Rightarrow>
                  let w = (case it_remote_mtime it of
                         Some mt \<Rightarrow> w\<lparr>dw_disk := set_file_mtime full mt (dw_disk w)\<rparr> | None \<Rightarrow> w);
                      w = mark_clean account i w;
                      w = (if records_synced_reference target
                           then record_synced_state account i full (Some (quickxor_base64 payload)) w else w)
                  in (Inr True,
                      content account i (Some (available_content_state target)) (body_location target) ''available''
                        (Some now) w, p)))"

definition download_one_to_target ::
  "drive_env \<Rightarrow> 'c streaming_downloader \<Rightarrow> 'p sink \<Rightarrow> SyncConfig \<Rightarrow> DeviceState \<Rightarrow> string \<Rightarrow> string \<Rightarrow> PathBuf \<Rightarrow> PathBuf
     \<Rightarrow> DownloadBodyTarget \<Rightarrow> string \<Rightarrow> 'c drive_world \<times> 'p \<Rightarrow> (SyncError + bool) \<times> 'c drive_world \<times> 'p" where
  "download_one_to_target env download k cfg dev account i sync_root cache_root target now wp =
     (case wp of (w, p) \<Rightarrow>
        let m = by_id (items_by_service account DRIVE (dw_db w))
        in case m i of
             None \<Rightarrow> (Inl (Malformed (''download-now: unknown item '' @ i)), w, p)
           | Some it \<Rightarrow>
               if it_item_type it = ''folder'' then (Inl (Malformed ''download-now: not a file''), w, p)
               else (case local_rel_path m it of
                       None \<Rightarrow> (Inl (Malformed ''download-now: no local path''), w, p)
                     | Some rel \<Rightarrow>
                         let full = path_join (target_root target sync_root cache_root) rel
                         in if \<not> is_allowed (evaluate cfg dev) then
                              (Inr False,
                               content account i (missing_content_state target) (body_location target) ''missing'' None w, p)
                            else
                              let w = (case path_parent full of
                                     Some q \<Rightarrow> snd (on_disk (create_dir_all q) w) | None \<Rightarrow> w);
                                  p = pk_begin k i (name_of rel) (item_total it) p;
                                  w = content account i (downloading_content_state target) (body_location target)
                                        ''downloading'' None w
                              in (case fetch_one env download k account it full target now (w, p) of
                                    (r, w, p) \<Rightarrow> (r, w, pk_finish k i p))))"

definition download_one ::
  "drive_env \<Rightarrow> 'c streaming_downloader \<Rightarrow> 'p sink \<Rightarrow> SyncConfig \<Rightarrow> DeviceState \<Rightarrow> string \<Rightarrow> string \<Rightarrow> PathBuf
     \<Rightarrow> string \<Rightarrow> 'c drive_world \<times> 'p \<Rightarrow> (SyncError + bool) \<times> 'c drive_world \<times> 'p" where
  "download_one env download k cfg dev account i sync_root now wp =
     download_one_to_target env download k cfg dev account i sync_root sync_root SyncRoot now wp"

section \<open>Leaving the offline mode\<close>

record CleanupReport =
  cl_freed :: nat
  cl_kept :: nat

definition provably_safe :: "drive_env \<Rightarrow> string \<Rightarrow> string set \<Rightarrow> Item \<Rightarrow> PathBuf \<Rightarrow> 'c drive_world \<Rightarrow> bool" where
  "provably_safe env account unfinished it full w \<longleftrightarrow>
     it_sync_state it = ''clean'' \<and> it_remote_id it \<notin> unfinished
     \<and> (case get_synced_state account DRIVE (it_remote_id it) (dw_db w) of
          Some (ssize, smtime, shash) \<Rightarrow> \<not> locally_edited_since_sync env full ssize smtime shash (dw_disk w)
        | None \<Rightarrow> False)"

definition move_to_trash :: "PathBuf \<Rightarrow> PathBuf \<Rightarrow> disk \<Rightarrow> bool \<times> disk" where
  "move_to_trash full dst d =
     (let d = (case path_parent dst of Some q \<Rightarrow> snd (create_dir_all q d) | None \<Rightarrow> d)
      in case rename full dst d of
           (True, d) \<Rightarrow> (True, d)
         | (False, d) \<Rightarrow>
             (case copy_file full dst d of
                (True, d) \<Rightarrow> remove_file full d
              | (False, d) \<Rightarrow> (False, d)))"

definition cleanup_item ::
  "drive_env \<Rightarrow> string \<Rightarrow> PathBuf \<Rightarrow> PathBuf \<Rightarrow> string set \<Rightarrow> string set \<Rightarrow> (string \<Rightarrow> Item option) \<Rightarrow> Item
     \<Rightarrow> CleanupReport \<times> 'c drive_world \<Rightarrow> CleanupReport \<times> 'c drive_world" where
  "cleanup_item env account sync_root trash_root offline_ids unfinished m it rw =
     (case rw of (r, w) \<Rightarrow>
        if it_content_state it \<noteq> Some ''materialized'' \<or> it_body_location it \<noteq> Some ''sync'' then (r, w)
        else if item_in_offline (dw_db w) account (it_remote_id it) offline_ids then (r, w)
        else (case local_rel_path m it of
                None \<Rightarrow> (r, w)
              | Some rel \<Rightarrow>
                  let full = path_join sync_root rel;
                      free = (\<lambda>w. (r\<lparr>cl_freed := cl_freed r + 1\<rparr>,
                                content account (it_remote_id it) (Some ''cached'') ''none'' ''missing'' None w))
                  in if \<not> provably_safe env account unfinished it full w then (r\<lparr>cl_kept := cl_kept r + 1\<rparr>, w)
                     else if path_exists full (dw_disk w) then
                       (case on_disk (move_to_trash full (path_join trash_root rel)) w of
                          (True, w) \<Rightarrow> free w
                        | (False, w) \<Rightarrow> (r\<lparr>cl_kept := cl_kept r + 1\<rparr>, w))
                     else free w))"

definition offline_folders :: "FolderScope list \<Rightarrow> string set" where
  "offline_folders scopes = fs_folder_id ` set (filter (\<lambda>s. fs_mode s = OfflineMode) scopes)"

definition cleanup_offline_to_online ::
  "drive_env \<Rightarrow> string \<Rightarrow> PathBuf \<Rightarrow> PathBuf \<Rightarrow> OneDriveModes option \<Rightarrow> cloud_ledger \<Rightarrow> 'c drive_world
     \<Rightarrow> CleanupReport \<times> 'c drive_world" where
  "cleanup_offline_to_online env account sync_root trash_root modes ledger w =
     (let offline_ids = offline_folders (scopes_from_modes modes);
          unfinished = set (List.map_filter cw_target_id (pending_cloud_writes account ledger));
          its = items_by_service account DRIVE (dw_db w)
      in fold (cleanup_item env account sync_root trash_root offline_ids unfinished (by_id its)) its
           (\<lparr>cl_freed = 0, cl_kept = 0\<rparr>, w))"

end
