(* ===== verification/Offline_Pass.thy ===== *)
theory Offline_Pass
  imports Sync_Pass Scoped_Files Cloud_Writes
begin

text \<open>
  The mobile pass for offline folders (\<^verbatim>\<open>offline_sync_once\<close> in \<^verbatim>\<open>engine/src/lib.rs\<close>): recovery of half-done
  cloud writes, the scoped delta, materializing under the transfer policy, and the write-back of local
  changes over the ledger of cloud writes. The ledger programs carry a crash budget; when it is used up the
  pass is gone where it stands. Also the requests for single bodies, which follow the mode of a folder.
\<close>

section \<open>The world of the pass\<close>

record ('c, 'p) pass_world =
  pw_drive :: "'c drive_world"
  pw_ledger :: cloud_ledger
  pw_progress :: 'p
  pw_budget :: nat

definition on_ledger_prog :: "('a, 'c) cw_prog \<Rightarrow> ('c, 'p) pass_world \<Rightarrow> 'a run \<times> ('c, 'p) pass_world" where
  "on_ledger_prog prog w =
     (case prog (pw_budget w) \<lparr>cw_ledger = pw_ledger w, cw_cloud = dw_cloud (pw_drive w)\<rparr> of
        (r, n, cw) \<Rightarrow>
          (r, w\<lparr>pw_drive := (pw_drive w)\<lparr>dw_cloud := cw_cloud cw\<rparr>, pw_ledger := cw_ledger cw, pw_budget := n\<rparr>))"

text \<open>A path as the text kept in the ledger, and the body found under such a text.\<close>

definition path_text :: "PathBuf \<Rightarrow> string" where
  "path_text p = (if fst p then ''/'' else []) @ concat (map (\<lambda>(i, c). if i = 0 then c else CHR ''/'' # c) (enumerate 0 (snd p)))"

definition body_of_text :: "drive_env \<Rightarrow> disk \<Rightarrow> string \<Rightarrow> string + bytes" where
  "body_of_text env d s = (case body_at (de_keys env) (path_of s) d of Some b \<Rightarrow> Inr b | None \<Rightarrow> Inl ''read'')"

record 'c offline_client =
  oc_transport :: "'c transport"
  oc_download :: "'c streaming_downloader"
  oc_writes :: "'c write_sink"
  oc_shares :: "'c share_sink"

text \<open>What every ledger write of the pass needs: the key function, the account, its secret and the clock.\<close>

record writeback =
  wb_hmac :: "bytes \<Rightarrow> bytes \<Rightarrow> bytes"
  wb_account :: string
  wb_secret :: bytes
  wb_now_secs :: int

definition write_through ::
  "drive_env \<Rightarrow> 'c offline_client \<Rightarrow> writeback \<Rightarrow> CloudWrite \<Rightarrow> ('c, 'p) pass_world
     \<Rightarrow> WriteOutcome run \<times> ('c, 'p) pass_world" where
  "write_through env client wb cw w =
     on_ledger_prog
       (run_cloud_write (wb_hmac wb) (body_of_text env (dw_disk (pw_drive w))) (oc_writes client) (oc_shares client)
          (wb_account wb) cw (wb_secret wb) (wb_now_secs wb)) w"

section \<open>Parents of new files\<close>

definition build_folder_id_map :: "string \<Rightarrow> item_db \<Rightarrow> PathBuf \<Rightarrow> string option" where
  "build_folder_id_map account db =
     (let its = all_items_by_service account DRIVE db;
          m = by_id its
      in fold (\<lambda>it ids.
           if it_item_type it = ''folder'' \<and> it_deleted_at it = None
           then (case local_rel_path m it of Some rel \<Rightarrow> ids(rel \<mapsto> it_remote_id it) | None \<Rightarrow> ids)
           else ids) its Map.empty)"

definition parent_dirs :: "PathBuf \<Rightarrow> PathBuf list" where
  "parent_dirs rel =
     (case path_parent rel of
        None \<Rightarrow> []
      | Some p \<Rightarrow> map (\<lambda>n. (fst p, take n (snd p))) [1..<Suc (length (snd p))])"

definition new_folder :: "string \<Rightarrow> PathBuf \<Rightarrow> CloudWrite" where
  "new_folder parent_id dir =
     \<lparr>wr_kind = CloudOpKind.Create, wr_target_id = parent_id,
      wr_name = (case file_name dir of Some n \<Rightarrow> n | None \<Rightarrow> []), wr_new_parent_id = None, wr_if_match = None,
      wr_local_path = None, wr_content_tag = None\<rparr>"

text \<open>The chain from the top down; folders created on the way are entered into the map.\<close>

fun ensure_chain ::
  "drive_env \<Rightarrow> 'c offline_client \<Rightarrow> writeback \<Rightarrow> PathBuf list \<Rightarrow> string option \<Rightarrow> (PathBuf \<Rightarrow> string option)
     \<Rightarrow> ('c, 'p) pass_world \<Rightarrow> string option run \<times> (PathBuf \<Rightarrow> string option) \<times> ('c, 'p) pass_world" where
  "ensure_chain env client wb [] last_id ids w = (Finished (Inr last_id), ids, w)"
| "ensure_chain env client wb (dir # dirs) last_id ids w =
     (case ids dir of
        Some i \<Rightarrow> ensure_chain env client wb dirs (Some i) ids w
      | None \<Rightarrow>
          (case last_id of
             None \<Rightarrow> (Finished (Inr None), ids, w)
           | Some parent_id \<Rightarrow>
               (case write_through env client wb (new_folder parent_id dir) w of
                  (Finished (Inr (WriteOutcome.Applied i)), w) \<Rightarrow>
                    ensure_chain env client wb dirs (Some i) (ids(dir \<mapsto> i)) w
                | (Finished (Inr WriteOutcome.Conflict), w) \<Rightarrow> (Finished (Inr None), ids, w)
                | (Finished (Inl e), w) \<Rightarrow> (Finished (Inl e), ids, w)
                | (Killed, w) \<Rightarrow> (Killed, ids, w))))"

definition ensure_parent_folder ::
  "drive_env \<Rightarrow> 'c offline_client \<Rightarrow> writeback \<Rightarrow> PathBuf \<Rightarrow> (PathBuf \<Rightarrow> string option) \<Rightarrow> ('c, 'p) pass_world
     \<Rightarrow> string option run \<times> (PathBuf \<Rightarrow> string option) \<times> ('c, 'p) pass_world" where
  "ensure_parent_folder env client wb rel ids w = ensure_chain env client wb (parent_dirs rel) None ids w"

definition keep_both_local :: "PathBuf \<Rightarrow> PathBuf \<Rightarrow> string \<Rightarrow> disk \<Rightarrow> bool \<times> disk" where
  "keep_both_local sroot rel host d =
     (let src = path_join sroot rel; dir = dir_of sroot src
      in case List.find (\<lambda>p. \<not> path_exists p d)
                (map (\<lambda>n. path_join dir (path_of (conflict_copy_name (name_of rel) host n))) [1..<10000]) of
           None \<Rightarrow> (False, d)
         | Some dst \<Rightarrow> rename src dst d)"

section \<open>Write-back\<close>

definition upload_write :: "string \<Rightarrow> PathBuf \<Rightarrow> PathBuf \<Rightarrow> CloudWrite" where
  "upload_write parent_id sroot rel =
     \<lparr>wr_kind = CloudOpKind.Upload, wr_target_id = parent_id,
      wr_name = (case file_name rel of Some n \<Rightarrow> n | None \<Rightarrow> []), wr_new_parent_id = None, wr_if_match = None,
      wr_local_path = Some (path_text (path_join sroot rel)), wr_content_tag = None\<rparr>"

definition replace_write :: "string \<Rightarrow> string \<Rightarrow> PathBuf \<Rightarrow> bytes \<Rightarrow> CloudWrite" where
  "replace_write i etag full payload =
     \<lparr>wr_kind = CloudOpKind.Replace, wr_target_id = i, wr_name = [], wr_new_parent_id = None, wr_if_match = Some etag,
      wr_local_path = Some (path_text full), wr_content_tag = Some (quickxor_base64 payload)\<rparr>"

definition delete_write :: "string \<Rightarrow> CloudWrite" where
  "delete_write i =
     \<lparr>wr_kind = CloudOpKind.Delete, wr_target_id = i, wr_name = [], wr_new_parent_id = None, wr_if_match = None,
      wr_local_path = None, wr_content_tag = None\<rparr>"

abbreviation failed_one :: "PassReport \<Rightarrow> PassReport" where
  "failed_one out \<equiv> out\<lparr>pr_modified_failed := pr_modified_failed out + 1\<rparr>"

fun offline_creates ::
  "drive_env \<Rightarrow> 'c offline_client \<Rightarrow> writeback \<Rightarrow> PathBuf \<Rightarrow> PathBuf list \<Rightarrow> (PathBuf \<Rightarrow> string option) \<Rightarrow> PassReport
     \<Rightarrow> ('c, 'p) pass_world \<Rightarrow> PassReport run \<times> ('c, 'p) pass_world" where
  "offline_creates env client wb sroot [] ids out w = (Finished (Inr out), w)"
| "offline_creates env client wb sroot (rel # rels) ids out w =
     (case ensure_parent_folder env client wb rel ids w of
        (Killed, ids, w) \<Rightarrow> (Killed, w)
      | (Finished (Inr (Some parent_id)), ids, w) \<Rightarrow>
          (case write_through env client wb (upload_write parent_id sroot rel) w of
             (Killed, w) \<Rightarrow> (Killed, w)
           | (Finished (Inr r), w) \<Rightarrow>
               offline_creates env client wb sroot rels ids (out\<lparr>pr_uploaded_creates := pr_uploaded_creates out + 1\<rparr>) w
           | (Finished (Inl e), w) \<Rightarrow> offline_creates env client wb sroot rels ids (failed_one out) w)
      | (Finished x, ids, w) \<Rightarrow> offline_creates env client wb sroot rels ids (failed_one out) w)"

definition set_aside :: "string \<Rightarrow> PathBuf \<Rightarrow> string \<Rightarrow> string \<Rightarrow> PathBuf \<Rightarrow> PassReport \<Rightarrow> ('c, 'p) pass_world
     \<Rightarrow> PassReport \<times> ('c, 'p) pass_world" where
  "set_aside account sroot host i rel out w =
     (case on_disk (keep_both_local sroot rel host) (pw_drive w) of
        (True, dw) \<Rightarrow>
          (out\<lparr>pr_modified_conflicts := pr_modified_conflicts out + 1\<rparr>,
           w\<lparr>pw_drive := update_db (\<lambda>db. snd (set_sync_state account DRIVE i ''remote_dirty'' db)) dw\<rparr>)
      | (False, dw) \<Rightarrow> (failed_one out, w\<lparr>pw_drive := dw\<rparr>))"

fun offline_modifies ::
  "drive_env \<Rightarrow> 'c offline_client \<Rightarrow> writeback \<Rightarrow> PathBuf \<Rightarrow> string \<Rightarrow> (string \<times> PathBuf \<times> string) list \<Rightarrow> PassReport
     \<Rightarrow> ('c, 'p) pass_world \<Rightarrow> PassReport run \<times> ('c, 'p) pass_world" where
  "offline_modifies env client wb sroot host [] out w = (Finished (Inr out), w)"
| "offline_modifies env client wb sroot host ((i, rel, etag) # ms) out w =
     (case body_at (de_keys env) (path_join sroot rel) (dw_disk (pw_drive w)) of
        None \<Rightarrow> offline_modifies env client wb sroot host ms (failed_one out) w
      | Some payload \<Rightarrow>
          (case write_through env client wb (replace_write i etag (path_join sroot rel) payload) w of
             (Killed, w) \<Rightarrow> (Killed, w)
           | (Finished (Inl e), w) \<Rightarrow> offline_modifies env client wb sroot host ms (failed_one out) w
           | (Finished (Inr (WriteOutcome.Applied x)), w) \<Rightarrow>
               offline_modifies env client wb sroot host ms
                 (out\<lparr>pr_modified_uploaded := pr_modified_uploaded out + 1\<rparr>) w
           | (Finished (Inr WriteOutcome.Conflict), w) \<Rightarrow>
               (case set_aside (wb_account wb) sroot host i rel out w of
                  (out, w) \<Rightarrow> offline_modifies env client wb sroot host ms out w)))"

fun offline_deletes ::
  "drive_env \<Rightarrow> 'c offline_client \<Rightarrow> writeback \<Rightarrow> string \<Rightarrow> string list \<Rightarrow> PassReport \<Rightarrow> ('c, 'p) pass_world
     \<Rightarrow> PassReport run \<times> ('c, 'p) pass_world" where
  "offline_deletes env client wb now [] out w = (Finished (Inr out), w)"
| "offline_deletes env client wb now (i # ids) out w =
     (case write_through env client wb (delete_write i) w of
        (Killed, w) \<Rightarrow> (Killed, w)
      | (Finished (Inl e), w) \<Rightarrow> offline_deletes env client wb now ids out w
      | (Finished (Inr r), w) \<Rightarrow>
          offline_deletes env client wb now ids (out\<lparr>pr_cloud_deleted := pr_cloud_deleted out + 1\<rparr>)
            (w\<lparr>pw_drive := update_db (\<lambda>db. snd (mark_deleted (wb_account wb) DRIVE i now db)) (pw_drive w)\<rparr>))"

section \<open>The pass\<close>

text \<open>Sequencing of a step that can end the pass or kill it.\<close>

definition run_then ::
  "PassReport run \<times> ('c, 'p) pass_world \<Rightarrow> (PassReport \<Rightarrow> ('c, 'p) pass_world \<Rightarrow> PassReport run \<times> ('c, 'p) pass_world)
     \<Rightarrow> PassReport run \<times> ('c, 'p) pass_world" where
  "run_then r f =
     (case r of
        (Finished (Inr out), w) \<Rightarrow> f out w
      | (x, w) \<Rightarrow> (x, w))"

definition create_back ::
  "drive_env \<Rightarrow> 'c offline_client \<Rightarrow> writeback \<Rightarrow> PathBuf \<Rightarrow> string set \<Rightarrow> PassReport \<Rightarrow> ('c, 'p) pass_world
     \<Rightarrow> PassReport run \<times> ('c, 'p) pass_world" where
  "create_back env client wb sroot offline_ids out w =
     offline_creates env client wb sroot (scan_local_creates_scoped (wb_account wb) sroot offline_ids (pw_drive w))
       (build_folder_id_map (wb_account wb) (dw_db (pw_drive w))) out w"

definition modify_back ::
  "drive_env \<Rightarrow> 'c offline_client \<Rightarrow> writeback \<Rightarrow> PathBuf \<Rightarrow> string \<Rightarrow> string set \<Rightarrow> PassReport \<Rightarrow> ('c, 'p) pass_world
     \<Rightarrow> PassReport run \<times> ('c, 'p) pass_world" where
  "modify_back env client wb sroot host offline_ids out w =
     offline_modifies env client wb sroot host
       (scan_local_modifies_scoped env (wb_account wb) sroot offline_ids (pw_drive w)) out w"

definition delete_back ::
  "drive_env \<Rightarrow> 'c offline_client \<Rightarrow> writeback \<Rightarrow> f64 \<Rightarrow> DeleteGuard \<Rightarrow> string \<Rightarrow> PathBuf \<Rightarrow> string set \<Rightarrow> PassReport
     \<Rightarrow> ('c, 'p) pass_world \<Rightarrow> PassReport run \<times> ('c, 'p) pass_world" where
  "delete_back env client wb fp g now sroot offline_ids out w =
     (let ids = scan_local_deletes_scoped (wb_account wb) sroot offline_ids (pw_drive w)
      in if ids = [] then (Finished (Inr out), w)
         else (case guard_evaluate fp g (length ids)
                      (count_by_service (wb_account wb) DRIVE (dw_db (pw_drive w))) LocalToCloud of
                 Block reason \<Rightarrow> (Finished (Inr (out\<lparr>pr_cloud_delete_blocked := Some reason\<rparr>)), w)
               | Proceed \<Rightarrow> offline_deletes env client wb now ids out w))"

text \<open>An error of a connector step ends the pass with its text, which is left open here.\<close>

definition as_run ::
  "(PassError + PassReport) \<times> 'c drive_world \<Rightarrow> ('c, 'p) pass_world \<Rightarrow> PassReport run \<times> ('c, 'p) pass_world" where
  "as_run r w = (Finished (map_sum (\<lambda>e. ''step failed'') id (fst r)), w\<lparr>pw_drive := snd r\<rparr>)"

definition write_back ::
  "drive_env \<Rightarrow> f64 \<Rightarrow> Config \<Rightarrow> AccountConfig \<Rightarrow> 'c offline_client \<Rightarrow> 'p sink \<Rightarrow> DeviceState \<Rightarrow> writeback \<Rightarrow> string \<Rightarrow> string
     \<Rightarrow> string set \<Rightarrow> PassReport \<Rightarrow> ('c, 'p) pass_world \<Rightarrow> PassReport run \<times> ('c, 'p) pass_world" where
  "write_back env fp cfg acc client k dev wb host now offline_ids out w =
     (let sroot = ac_sync_root acc; account = wb_account wb; g = delete_guard (cfg_sync cfg)
      in case materialize_downloads_scoped env (oc_download client) k (cfg_sync cfg) dev account sroot host now offline_ids
                (pw_drive w, pw_progress w) of
           (m, dw, p) \<Rightarrow>
             run_then (run_then (run_then
               (as_run (trash_step fp g account sroot (trash_root acc) (materialized m out, dw)) (w\<lparr>pw_progress := p\<rparr>))
               (create_back env client wb sroot offline_ids))
               (modify_back env client wb sroot host offline_ids))
               (delete_back env client wb fp g now sroot offline_ids))"

definition scoped_ingest ::
  "drive_env \<Rightarrow> 'c offline_client \<Rightarrow> AccountConfig \<Rightarrow> string \<Rightarrow> string \<Rightarrow> FolderScope list \<Rightarrow> ('c, 'p) pass_world
     \<Rightarrow> (PassReport run \<times> ('c, 'p) pass_world) option" where
  "scoped_ingest env client acc account now scopes w =
     map_option (\<lambda>r. as_run (reported r (\<lambda>ing. ingested ing no_pass)) w)
       (incremental_sync_scoped env (oc_transport client) account now (ac_archive_root acc) scopes
          ((pw_drive w)\<lparr>dw_map := Map.empty\<rparr>))"

definition offline_sync_once ::
  "drive_env \<Rightarrow> f64 \<Rightarrow> Config \<Rightarrow> string \<Rightarrow> 'c offline_client \<Rightarrow> 'p sink \<Rightarrow> DeviceState \<Rightarrow> (bytes \<Rightarrow> bytes \<Rightarrow> bytes)
     \<Rightarrow> string + bytes \<Rightarrow> string \<Rightarrow> string \<Rightarrow> int \<Rightarrow> ('c, 'p) pass_world
     \<Rightarrow> (PassReport run \<times> ('c, 'p) pass_world) option" where
  "offline_sync_once env fp cfg account client k dev hmac secret host now now_secs w =
     (case find_account cfg account of
        None \<Rightarrow> Some (Finished (Inl (''no account '' @ [CHR 0x27] @ account @ [CHR 0x27] @ '' in config'')), w)
      | Some acc \<Rightarrow>
          let scopes = scopes_from_modes (map_of (cfg_onedrive_modes cfg) account)
          in if scopes = [] then Some (Finished (Inr no_pass), w)
             else (case secret of
                     Inl e \<Rightarrow> Some (Finished (Inl e), w)
                   | Inr key \<Rightarrow>
                       let wb = \<lparr>wb_hmac = hmac, wb_account = account, wb_secret = key, wb_now_secs = now_secs\<rparr>;
                           d = dw_disk (pw_drive w)
                       in (case on_ledger_prog
                                  (recover_pending_cloud_writes hmac (body_of_text env d) (\<lambda>s. path_exists (path_of s) d)
                                     (oc_writes client) (oc_shares client) account key now_secs) w of
                             (Killed, w) \<Rightarrow> Some (Killed, w)
                           | (Finished (Inl e), w) \<Rightarrow> Some (Finished (Inl e), w)
                           | (Finished (Inr n), w) \<Rightarrow>
                               map_option
                                 (\<lambda>r. run_then r (write_back env fp cfg acc client k dev wb host now (offline_folders scopes)))
                                 (scoped_ingest env client acc account now scopes w))))"

section \<open>Single bodies by mode\<close>

fun item_ancestry :: "(string \<Rightarrow> Item option) \<Rightarrow> nat \<Rightarrow> Item \<Rightarrow> string list" where
  "item_ancestry m 0 it = []"
| "item_ancestry m (Suc n) it =
     (case it_parent_remote_id it of
        None \<Rightarrow> []
      | Some parent \<Rightarrow> parent # (case m parent of Some nxt \<Rightarrow> item_ancestry m n nxt | None \<Rightarrow> []))"

definition onedrive_item_ancestry :: "(string \<Rightarrow> Item option) \<Rightarrow> Item \<Rightarrow> string list" where
  "onedrive_item_ancestry m it = item_ancestry m 256 it"

definition onedrive_effective_mode_for_item ::
  "Config \<Rightarrow> string \<Rightarrow> (string \<Rightarrow> Item option) \<Rightarrow> Item \<Rightarrow> OneDriveMode" where
  "onedrive_effective_mode_for_item cfg account m it =
     effective_mode (it_remote_id it) (onedrive_item_ancestry m it)
       (case map_of (cfg_onedrive_modes cfg) account of Some ms \<Rightarrow> ms | None \<Rightarrow> default_modes)"

definition download_now_target_for_mode :: "OneDriveMode \<Rightarrow> string + DownloadBodyTarget" where
  "download_now_target_for_mode mode =
     (case mode of
        Sync \<Rightarrow> Inr Cache
      | Offline \<Rightarrow> Inr SyncRoot
      | Online \<Rightarrow> Inl ''download-now: online item unavailable'')"

record DownloadNowResult =
  dn_downloaded :: bool
  dn_target :: DownloadBodyTarget

definition download_now_for_inner ::
  "drive_env \<Rightarrow> 'c streaming_downloader \<Rightarrow> 'p sink \<Rightarrow> Config \<Rightarrow> string \<Rightarrow> string \<Rightarrow> DeviceState \<Rightarrow> string
     \<Rightarrow> 'c drive_world \<times> 'p \<Rightarrow> (PassError + DownloadNowResult) \<times> 'c drive_world \<times> 'p" where
  "download_now_for_inner env download k cfg account i dev now wp =
     (case find_account cfg account of
        None \<Rightarrow> (Inl (NoAccount account), wp)
      | Some acc \<Rightarrow>
          let m = by_id (items_by_service account DRIVE (dw_db (fst wp)))
          in (case m i of
                None \<Rightarrow> (Inl (StepText (''download-now: unknown item '' @ i)), wp)
              | Some it \<Rightarrow>
                  (case download_now_target_for_mode (onedrive_effective_mode_for_item cfg account m it) of
                     Inl e \<Rightarrow> (Inl (StepText e), wp)
                   | Inr target \<Rightarrow>
                       (case download_one_to_target env download k (cfg_sync cfg) dev account i (ac_sync_root acc)
                               (ac_cache_root acc) target now wp of
                          (Inl e, wp) \<Rightarrow> (Inl (StepFailed e), wp)
                        | (Inr done, wp) \<Rightarrow> (Inr \<lparr>dn_downloaded = done, dn_target = target\<rparr>, wp)))))"

end
