(* ===== verification/Offline_Safety.thy ===== *)
theory Offline_Safety
  imports Offline_Pass Drive_Safety Pass_Types OneDrive_Sink
begin

text \<open>
  What the passes do with local files they hold no reference for: a file the index has never synchronised is
  overwritten by a download, and the offline pass leaves no reference for the files it uploads.
\<close>

section \<open>The write-back does not touch the index\<close>

definition same_drive :: "('c, 'p) pass_world \<Rightarrow> ('c, 'p) pass_world \<Rightarrow> bool" where
  "same_drive w w' \<longleftrightarrow> dw_db (pw_drive w') = dw_db (pw_drive w) \<and> dw_disk (pw_drive w') = dw_disk (pw_drive w)
     \<and> dw_map (pw_drive w') = dw_map (pw_drive w)"

lemma same_drive_refl [simp]: "same_drive w w"
  by (simp add: same_drive_def)

lemma same_drive_trans: "same_drive w w' \<Longrightarrow> same_drive w' w'' \<Longrightarrow> same_drive w w''"
  by (simp add: same_drive_def)

lemma write_through_drive: "write_through env client wb cw w = (r, w') \<Longrightarrow> same_drive w w'"
  by (auto simp: write_through_def on_ledger_prog_def same_drive_def split: prod.splits)

lemma ensure_chain_drive: "ensure_chain env client wb dirs last_id ids w = (r, ids', w') \<Longrightarrow> same_drive w w'"
proof (induction dirs arbitrary: last_id ids w)
  case (Cons dir dirs)
  show ?case
  proof (cases "ids dir")
    case None
    show ?thesis
    proof (cases last_id)
      case (Some parent_id)
      obtain x w1 where x: "write_through env client wb (Offline_Pass.new_folder parent_id dir) w = (x, w1)" by fastforce
      note same = write_through_drive [OF x]
      show ?thesis
      proof (cases "\<exists>i. x = Finished (Inr (WriteOutcome.Applied i))")
        case True
        then show ?thesis using Cons None Some x same by (auto intro: same_drive_trans)
      next
        case False
        then have "w' = w1" using Cons.prems None Some x
          by (cases x) (auto split: sum.splits WriteOutcome.splits)
        with same show ?thesis by simp
      qed
    qed (use Cons.prems None in simp)
  qed (use Cons in simp)
qed simp

lemma offline_creates_drive: "offline_creates env client wb sroot rels ids out w = (r, w') \<Longrightarrow> same_drive w w'"
proof (induction rels arbitrary: ids out w)
  case (Cons rel rels)
  obtain x ids1 w1 where x: "ensure_parent_folder env client wb rel ids w = (x, ids1, w1)" by (metis prod_cases3)
  have w1: "same_drive w w1" using ensure_chain_drive x by (simp add: ensure_parent_folder_def)
  show ?case
  proof (cases "\<exists>parent_id. x = Finished (Inr (Some parent_id))")
    case True
    then obtain parent_id where parent: "x = Finished (Inr (Some parent_id))" by blast
    obtain y w2 where y: "write_through env client wb (upload_write parent_id sroot rel) w1 = (y, w2)" by fastforce
    have w2: "same_drive w w2" using w1 write_through_drive [OF y] by (rule same_drive_trans)
    show ?thesis
    proof (cases y)
      case Killed
      then show ?thesis using Cons.prems x parent y w2 by simp
    next
      case (Finished z)
      then show ?thesis using Cons x parent y w2 by (cases z) (auto intro: same_drive_trans)
    qed
  next
    case False
    show ?thesis
    proof (cases x)
      case Killed
      then show ?thesis using Cons.prems x w1 by simp
    next
      case (Finished z)
      have "\<exists>out1. offline_creates env client wb sroot rels ids1 out1 w1 = (r, w')"
      proof (cases z)
        case (Inl e)
        then show ?thesis using Cons.prems x Finished by auto
      next
        case (Inr p)
        then show ?thesis using Cons.prems x Finished False by (cases p) auto
      qed
      then show ?thesis using Cons.IH w1 by (blast intro: same_drive_trans)
    qed
  qed
qed simp

section \<open>Items without a reference\<close>

lemma no_reference_after_ingest:
  assumes "row_by key_of (account, DRIVE, i) (db_items (dw_db w)) = None"
    and "get_str ''id'' item = Some i"
    and "ingest_item_scoped env account scope actives now archive item w = (res, w')"
  shows "get_synced_state account DRIVE i (dw_db w') = None"
proof -
  have key: "key_of (item_of_json account i item n st) = (account, DRIVE, i)" for n st
    by (simp add: item_of_json_def Item_new_def)
  have stored: "get_synced_state account DRIVE i (dw_db (snd (store_item env account i item st archive w))) = None" for st
    using assms(1)
    by (auto simp: store_item_def Let_def get_synced_state_def row_by_upsert_item key inserted_row_def Item.defs split: prod.split option.split)
  have gone: "get_synced_state account DRIVE i (dw_db (tombstone account i now archive w)) = None"
    using assms(1) by (simp add: tombstone_def mark_deleted_def split_beta get_synced_state_def row_by_update_item)
  have none: "get_synced_state account DRIVE i (dw_db w) = None" using assms(1) by (simp add: get_synced_state_def)
  show ?thesis
    using assms(2,3) stored [of "''remote_dirty''"] gone none
    by (cases "store_item env account i item ''remote_dirty'' archive w")
      (auto simp: ingest_item_scoped_def try_then_def split: if_splits sum.splits)
qed

lemma content_disk [simp]: "dw_disk (content account i st loc bs t w) = dw_disk w"
  "dw_cloud (content account i st loc bs t w) = dw_cloud w"
  by (simp_all add: content_def)

lemma download_scoped_there:
  assumes "placed full (dw_disk w)" and "io_faults (dw_disk w) = []" and "nodes (dw_disk w) (snd full) \<noteq> Some Dir"
    and "nodes (dw_disk w) (sibling full (scratch_name (last (snd full)))) \<noteq> Some Dir"
    and "download (it_remote_id it) (dw_cloud w) = ((reports, Inr payload), c)"
    and "download_scoped env download k account now name it full (r, w, p) = (r', w', p')"
  shows "r' = r\<lparr>mr_downloaded := mr_downloaded r + 1\<rparr>"
    and "\<exists>m. nodes (dw_disk w') (snd full) = Some (File (sealed_for_disk (de_keys env) payload) m)"
    and "\<And>q. q \<noteq> snd full \<Longrightarrow> q \<noteq> sibling full (scratch_name (last (snd full))) \<Longrightarrow> nodes (dw_disk w') q = nodes (dw_disk w) q"
proof -
  let ?d = "dw_disk w" and ?s = "sibling full (scratch_name (last (snd full)))"
  let ?b = "sealed_for_disk (de_keys env) payload"
  obtain d' where wrote: "atomic_write env full payload ?d = (True, d')"
    and d': "nodes d' = (nodes ?d)(?s := None, snd full := Some (File ?b (wall_clock ?d)))"
    using atomic_write_there [OF assms(1-4)] by blast
  define d2 where "d2 = (case it_remote_mtime it of Some mt \<Rightarrow> set_file_mtime full mt d' | None \<Rightarrow> d')"
  have res: "r' = r\<lparr>mr_downloaded := mr_downloaded r + 1\<rparr>" "dw_disk w' = d2"
    using assms(5,6) create_parent [OF assms(1,2)] wrote path_parent_placed [OF assms(1)]
    by (auto simp: download_scoped_def fetch_reporting_def on_disk_def on_dcloud_def Let_def d2_def split: option.splits)
  then show "r' = r\<lparr>mr_downloaded := mr_downloaded r + 1\<rparr>" by simp
  have d2: "nodes d2 q = nodes d' q \<or> (q = snd full \<and> (\<exists>b t m. nodes d' q = Some (File b t) \<and> nodes d2 q = Some (File b m)))" for q
    using nodes_set_file_mtime [of full _ d' q] placed_resolve [OF assms(1)] by (auto simp: d2_def split: option.split)
  show "\<exists>m. nodes (dw_disk w') (snd full) = Some (File ?b m)" using d2 [of "snd full"] res(2) d' by auto
  show "nodes (dw_disk w') q = nodes ?d q" if "q \<noteq> snd full" "q \<noteq> ?s" for q using d2 [of q] that res(2) d' by auto
qed

section \<open>Properties\<close>

text \<open>A local file that the index holds no reference for is overwritten by a download: nothing is moved
  aside, no conflict is counted, and its body is gone. So it is for a file that the user creates where another
  device has just created one of the same name.\<close>

theorem unreferenced_file_is_overwritten:
  assumes "placed full (dw_disk w)" and "nodes (dw_disk w) (snd full) = Some (File b t)"
    and "io_faults (dw_disk w) = []"
    and "nodes (dw_disk w) (sibling full (scratch_name (last (snd full)))) \<noteq> Some Dir"
    and "get_synced_state account DRIVE (it_remote_id it) (dw_db w) = None"
    and "it_size it \<noteq> Some (plain_len_i64 full (dw_disk w)) \<or> it_quickxorhash it \<noteq> None"
    and "download (it_remote_id it) (dw_cloud w) = (Inr payload, c)"
    and "materialize_file env download account sroot host it full (no_downloads, w) = (r, w')"
  shows "r = no_downloads\<lparr>mr_downloaded := 1\<rparr>
    \<and> (\<exists>m. nodes (dw_disk w') (snd full) = Some (File (sealed_for_disk (de_keys env) payload) m))
    \<and> (\<forall>q. q \<noteq> snd full \<longrightarrow> q \<noteq> sibling full (scratch_name (last (snd full))) \<longrightarrow> nodes (dw_disk w') q = nodes (dw_disk w) q)"
proof -
  have "\<not> local_file_matches_synced_remote account full it w"
    using assms(5,6) by (auto simp: local_file_matches_synced_remote_def local_file_matches_def split: option.splits)
  then have "download_file env download account it full (no_downloads, w) = (r, w')"
    using assms(5,8) by (simp add: materialize_file_def keep_local_edit_def)
  from download_there [OF assms(1,3) _ assms(4,7) this] assms(2) show ?thesis by (simp add: no_downloads_def)
qed

theorem unreferenced_file_is_overwritten_witness:
  "let (r, w') = materialize_file demo_env (\<lambda>i c. (Inr [7, 7], c)) ''acc'' (True, [''r'']) ''pc''
         (demo_file ''remote_dirty'' None (Some 2)) demo_full
         (no_downloads, demo_world (upsert_item (demo_file ''remote_dirty'' None (Some 2)) empty_items) (demo_disk [1, 2, 3] 6 []) ())
   in mr_downloaded r = 1 \<and> mr_conflicts r = 0
      \<and> (\<exists>m. nodes (dw_disk w') [''r'', ''a.txt''] = Some (File (sealed_for_disk (de_keys demo_env) [7, 7]) m))"
proof -
  let ?it = "demo_file ''remote_dirty'' None (Some 2)"
  let ?w = "demo_world (upsert_item ?it empty_items) (demo_disk [1, 2, 3] 6 []) ()"
  have item: "it_remote_id ?it = ''i1''" "it_size ?it = Some 2" "it_quickxorhash ?it = None"
    by (simp_all add: demo_file_def Item_new_def)
  have full: "snd demo_full = [''r'', ''a.txt'']" by (simp add: demo_full_def)
  have none: "get_synced_state ''acc'' DRIVE ''i1'' (upsert_item ?it empty_items) = None"
    by (simp add: get_synced_state_def upsert_item_def sql_upsert_def empty_items_def demo_file_def Item_new_def
        inserted_row_def Item.defs row_by_Cons)
  have size: "plain_len_i64 demo_full (demo_disk [1, 2, 3] 6 []) = 3" by code_simp
  obtain r w' where run: "materialize_file demo_env (\<lambda>i c. (Inr [7, 7], c)) ''acc'' (True, [''r'']) ''pc'' ?it demo_full (no_downloads, ?w) = (r, w')"
    by fastforce
  from unreferenced_file_is_overwritten [OF _ _ _ _ _ _ _ run, of "[1, 2, 3]" 6 "[7, 7]" "()"]
  have "r = no_downloads\<lparr>mr_downloaded := 1\<rparr>"
    "\<exists>m. nodes (dw_disk w') (snd demo_full) = Some (File (sealed_for_disk (de_keys demo_env) [7, 7]) m)"
    using demo_placed by (auto simp: full item none size demo_scratch sibling_def)
  then show ?thesis unfolding run Let_def prod.case by (simp add: full no_downloads_def)
qed

text \<open>C29: The offline pass uploads a new file but records no reference for it. When the file is edited before the
  next pass has fetched its item, that pass overwrites the edit without a conflict copy and reports one
  download.\<close>

theorem edit_after_offline_upload_is_lost:
  assumes "row_by key_of (wb_account wb, DRIVE, i) (db_items (dw_db (pw_drive v))) = None"
    and "offline_creates env client wb base rels ids out v = (x, v')"
    and "get_str ''id'' item = Some i" and "it_remote_id it = i" and "it_quickxorhash it \<noteq> None"
    and "ingest_item_scoped env (wb_account wb) scope actives now archive item (pw_drive v') = (res, w1)"
    and "dw_db w = dw_db w1"
    and "placed full (dw_disk w)" and "nodes (dw_disk w) (snd full) = Some (File b t)"
    and "io_faults (dw_disk w) = []"
    and "nodes (dw_disk w) (sibling full (scratch_name (last (snd full)))) \<noteq> Some Dir"
    and "download i (dw_cloud w) = ((reports, Inr payload), c)"
    and "\<not> pk_is_cancelled k i p" and "\<not> pk_is_paused k i p" and "is_allowed (evaluate cfg dev)"
    and "materialize_file_scoped env download k cfg dev (wb_account wb) now' base host name it full (no_downloads, w, p) = (r, w', p')"
  shows "r = no_downloads\<lparr>mr_downloaded := 1\<rparr>
    \<and> (\<exists>m. nodes (dw_disk w') (snd full) = Some (File (sealed_for_disk (de_keys env) payload) m))
    \<and> (\<forall>q. q \<noteq> snd full \<longrightarrow> q \<noteq> sibling full (scratch_name (last (snd full))) \<longrightarrow> nodes (dw_disk w') q = nodes (dw_disk w) q)"
proof -
  have "dw_db (pw_drive v') = dw_db (pw_drive v)" using offline_creates_drive [OF assms(2)] by (simp add: same_drive_def)
  then have none: "get_synced_state (wb_account wb) DRIVE i (dw_db w) = None"
    using no_reference_after_ingest [OF _ assms(3,6)] assms(1,7) by simp
  then have "\<not> local_file_matches_synced_remote (wb_account wb) full it w"
    using assms(4,5) by (auto simp: local_file_matches_synced_remote_def split: option.splits)
  then have "download_scoped env download k (wb_account wb) now' name it full (no_downloads, w, p) = (r, w', p')"
    using none assms(4,13-16) by (simp add: materialize_file_scoped_def keep_local_edit_scoped_def)
  from download_scoped_there [OF assms(8,10) _ assms(11) _ this] assms(4,9,12) show ?thesis by (simp add: no_downloads_def)
qed

text \<open>A file of a folder that the pass uploads, and the item the cloud makes of it.\<close>

definition new_full :: PathBuf where
  "new_full = (True, [''r'', ''d'', ''a.txt''])"

definition new_disk :: "bytes \<Rightarrow> int \<Rightarrow> disk" where
  "new_disk b t = \<lparr>nodes = [[''r''] \<mapsto> Dir, [''r'', ''d''] \<mapsto> Dir, [''r'', ''d'', ''a.txt''] \<mapsto> File b t],
     entries = [[''r''], [''r'', ''d''], [''r'', ''d'', ''a.txt'']], io_faults = [], wall_clock = 9\<rparr>"

definition new_item :: json where
  "new_item = JObj [(''id'', JStr ''i1''), (''name'', JStr ''a.txt''), (''size'', JNum 1),
     (''file'', JObj [(''hashes'', JObj [(''quickXorHash'', JStr ''h'')])])]"

definition phone_client :: "unit offline_client" where
  "phone_client = \<lparr>oc_transport = (\<lambda>u c. (\<lparr>status = 503, retry_after = None, body = None\<rparr>, c), \<lambda>d c. c),
     oc_download = (\<lambda>i c. (([1], Inr [7]), c)),
     oc_writes = offline_writes\<lparr>ws_upload := (\<lambda>p n b c. (Inr ''i1'', c))\<rparr>, oc_shares = offline_shares\<rparr>"

definition phone_writeback :: writeback where
  "phone_writeback = \<lparr>wb_hmac = (\<lambda>k m. take 8 m), wb_account = ''acc'', wb_secret = [1], wb_now_secs = 100\<rparr>"

definition phone_config :: SyncConfig where
  "phone_config = \<lparr>delete_guard = default_guard, wifi_only = False, charging_only = False, min_free_bytes = 0\<rparr>"

theorem edit_after_offline_upload_is_lost_witness:
  "\<exists>x v' res w1 r w' p'.
     offline_creates demo_env phone_client phone_writeback (True, [''r'']) [(False, [''d'', ''a.txt''])]
       [(False, [''d'']) \<mapsto> ''f1''] no_pass
       \<lparr>pw_drive = demo_world empty_items (new_disk [1] 5) (), pw_ledger = [], pw_progress = (), pw_budget = 50\<rparr> = (x, v')
     \<and> ingest_item_scoped demo_env ''acc'' ''f1'' {''f1''} ''now'' None new_item (pw_drive v') = (res, w1)
     \<and> materialize_file_scoped demo_env (oc_download phone_client) unit_sink phone_config (always_on 0) ''acc'' ''now'' (True, [''r'']) ''pc''
         ''a.txt'' (item_of_json ''acc'' ''i1'' new_item ''a.txt'' ''remote_dirty'') new_full
         (no_downloads, w1\<lparr>dw_disk := new_disk [5, 5, 5] 8, dw_cloud := ()\<rparr>, ()) = (r, w', p')
     \<and> mr_conflicts r = 0 \<and> mr_downloaded r = 1
     \<and> (\<exists>m. nodes (dw_disk w') [''r'', ''d'', ''a.txt''] = Some (File (sealed_for_disk (de_keys demo_env) [7]) m))"
proof -
  let ?v = "\<lparr>pw_drive = demo_world empty_items (new_disk [1] 5) (), pw_ledger = [], pw_progress = (), pw_budget = 50\<rparr>"
  let ?it = "item_of_json ''acc'' ''i1'' new_item ''a.txt'' ''remote_dirty''"
  obtain x v' where up: "offline_creates demo_env phone_client phone_writeback (True, [''r'']) [(False, [''d'', ''a.txt''])]
      [(False, [''d'']) \<mapsto> ''f1''] no_pass ?v = (x, v')" by fastforce
  obtain res w1 where ing: "ingest_item_scoped demo_env ''acc'' ''f1'' {''f1''} ''now'' None new_item (pw_drive v') = (res, w1)" by fastforce
  let ?w = "w1\<lparr>dw_disk := new_disk [5, 5, 5] 8, dw_cloud := ()\<rparr>"
  obtain r w' p' where run: "materialize_file_scoped demo_env (oc_download phone_client) unit_sink phone_config (always_on 0) ''acc'' ''now''
      (True, [''r'']) ''pc'' ''a.txt'' ?it new_full (no_downloads, ?w, ()) = (r, w', p')" by (metis prod_cases3)
  have full: "snd new_full = [''r'', ''d'', ''a.txt'']" by (simp add: new_full_def)
  have disk: "nodes (new_disk b t) = [[''r''] \<mapsto> Dir, [''r'', ''d''] \<mapsto> Dir, [''r'', ''d'', ''a.txt''] \<mapsto> File b t]"
    "io_faults (new_disk b t) = []" for b t by (simp_all add: new_disk_def)
  have placed: "placed new_full (new_disk b t)" for b t
    by (auto simp: placed_def new_full_def dir_at_def less_Suc_eq disk)
  have item: "get_str ''id'' new_item = Some ''i1''" "it_remote_id ?it = ''i1''" "it_quickxorhash ?it \<noteq> None"
    by (simp_all add: new_item_def item_of_json_def Item_new_def json_gets get_path_str_def get_path_def)
  have wb: "wb_account phone_writeback = ''acc''" by (simp add: phone_writeback_def)
  have sink: "\<not> pk_is_cancelled unit_sink ''i1'' ()" "\<not> pk_is_paused unit_sink ''i1'' ()" by (simp_all add: unit_sink_def)
  have allowed: "is_allowed (evaluate phone_config (always_on 0))" by code_simp
  have none: "row_by key_of (wb_account phone_writeback, DRIVE, ''i1'') (db_items (dw_db (pw_drive ?v))) = None"
    by (simp add: empty_items_def row_by_def)
  have down: "oc_download phone_client ''i1'' (dw_cloud ?w) = (([1], Inr [7]), ())" by (simp add: phone_client_def)
  have ing': "ingest_item_scoped demo_env (wb_account phone_writeback) ''f1'' {''f1''} ''now'' None new_item (pw_drive v') = (res, w1)"
    using ing by (simp only: wb)
  have run': "materialize_file_scoped demo_env (oc_download phone_client) unit_sink phone_config (always_on 0)
      (wb_account phone_writeback) ''now'' (True, [''r'']) ''pc'' ''a.txt'' ?it new_full (no_downloads, ?w, ()) = (r, w', p')"
    using run by (simp only: wb)
  have "r = no_downloads\<lparr>mr_downloaded := 1\<rparr>
    \<and> (\<exists>m. nodes (dw_disk w') (snd new_full) = Some (File (sealed_for_disk (de_keys demo_env) [7]) m))
    \<and> (\<forall>q. q \<noteq> snd new_full \<longrightarrow> q \<noteq> sibling new_full (scratch_name (last (snd new_full))) \<longrightarrow> nodes (dw_disk w') q = nodes (dw_disk ?w) q)"
    by (rule edit_after_offline_upload_is_lost [OF none up item ing' _ _ _ _ _ down sink allowed run'])
      (simp_all add: placed full disk demo_scratch sibling_def)
  then show ?thesis using up ing run by (fastforce simp: no_downloads_def full)
qed

end
