(* ===== verification/Spec2Isabelle.thy ===== *)
theory Spec2Isabelle
  imports Account_Receipts Account_Leases Restore_Engine Mobile_Jobs Sync_Automaton Pending_Actions Envelope Pathmap Graph_Transport Change_Source Fanotify Cloud_Entries Drive_Client Offline_Safety
begin

text \<open>
  A verification development of isyncyou, a two-way mirror and archive of a personal Microsoft account.

  \<^bold>\<open>The program.\<close> A daemon (\<^verbatim>\<open>bin/daemon\<close>) runs passes of the engine (\<^verbatim>\<open>crates/engine\<close>) on a schedule or when a
  file system watcher (\<^verbatim>\<open>crates/change-source\<close>) reports a change. A pass walks the delta of a service through
  the Graph client (\<^verbatim>\<open>crates/graph\<close>), lets a connector (\<^verbatim>\<open>crates/connectors\<close>) ingest it into the item index
  (\<^verbatim>\<open>crates/store\<close>, SQLite), brings the bodies to disk under names that the mapping table (\<^verbatim>\<open>crates/pathmap\<close>)
  assigns, and pushes local changes back. Decisions that need no I/O are pure functions of \<^verbatim>\<open>crates/core\<close>: the
  per-item automaton, conflicts, the mass-delete guard, transfer policies, folder modes, confirmation tokens
  and the envelope of encrypted bodies. Writes to the cloud that must not happen twice (restores, OneDrive
  writes, invitations) go through ledgers in the store, which survive a crash; mobile clients queue their work
  there. The host of the application (\<^verbatim>\<open>crates/app-host\<close>) keeps the account lifecycle of the agent's providers.

  \<^bold>\<open>Theories and sources.\<close>
  \<^item> \<open>Prelude\<close>, \<open>BTree_Map\<close>, \<open>Json\<close>, \<open>Text_Ops\<close>, \<open>Utf8\<close>, \<open>Civil_Time\<close>, \<open>Local_Disk\<close>: the vocabulary the models
    share (tables of rows, ordered maps, \<^verbatim>\<open>serde_json\<close> values, \<^verbatim>\<open>str\<close> operations, RFC 3339 times, paths and
    files with failing operations) with their laws, and the interfaces as locales: enums with a text form,
    transition tables, keyed rows. Each locale is interpreted where its provider is modelled.
  \<^item> \<open>Item_Store\<close>, \<open>Restore_Ledger\<close>, \<open>Mobile_Jobs\<close>, \<open>Cloud_Ledger\<close>: the tables of \<^verbatim>\<open>store/src/lib.rs\<close> and the methods
    on them. A table is the list of its rows; a method returns its result and the new table.
  \<^item> \<open>Restore_Key\<close>, \<open>Restore_Engine\<close>: the restore drivers, flows and boot recovery (\<^verbatim>\<open>restore_*.rs\<close>,
    \<^verbatim>\<open>mail_restore.rs\<close> of the engine) as programs in which the process can die.
  \<^item> \<open>Ledger_Prog\<close>, \<open>Cloud_Shares\<close>, \<open>Cloud_Writes\<close>, \<open>OneDrive_Sink\<close>, \<open>Cloud_Entries\<close>: OneDrive writes, links and
    invitations over the ledger of cloud writes (\<^verbatim>\<open>engine/src/onedrive_write.rs\<close>) with the production sink.
  \<^item> \<open>Sync_Automaton\<close>, \<open>Sync_Policies\<close>, \<open>Pending_Actions\<close>, \<open>Envelope\<close>: \<^verbatim>\<open>crates/core\<close>.
  \<^item> \<open>Pathmap\<close>: \<^verbatim>\<open>crates/pathmap\<close>. \<open>Quickxor\<close>: the content hash. \<open>Change_Source\<close>, \<open>Fanotify\<close>: change detection and
    the daemon's scheduler.
  \<^item> \<open>Graph_Transport\<close>, \<open>Graph_Requests\<close>, \<open>Graph_Reads\<close>, \<open>Upload_Session\<close>: the Graph client (\<^verbatim>\<open>graph/src\<close>): delta
    walks, pacing, URLs, batches, retried reads with their deadline, resumable uploads.
  \<^item> \<open>Drive_Items\<close>, \<open>Drive_Files\<close>, \<open>Drive_Paths\<close>, \<open>Drive_Scopes\<close>, \<open>Scoped_Files\<close>, \<open>Transfers\<close>, \<open>Drive_Client\<close>: the
    OneDrive connector (\<^verbatim>\<open>connectors/src/onedrive.rs\<close>). \<open>Sync_Pass\<close>, \<open>Offline_Pass\<close>: the passes of
    \<^verbatim>\<open>engine/src/lib.rs\<close>. \<open>Pass_Types\<close>, \<open>Drive_Safety\<close>, \<open>Offline_Safety\<close>: what whole passes keep and lose.
  \<^item> \<open>Account_Types\<close>, \<open>Account_Repo\<close>, \<open>Account_Ops\<close>, \<open>Account_Exchange\<close>: the account lifecycle
    (\<^verbatim>\<open>app-host/src/account_lifecycle.rs\<close>): its durable records and validators, the store with derived ids, and
    the operations on them, from the reservation of an operation to the compaction of its receipt. \<open>Account_Rules\<close>
    has the rules by which a program of the repository keeps a predicate on its files, \<open>Account_Contract\<close> the
    interface of such predicates (a locale, with the preservation by every operation), \<open>Account_Blocked\<close> two
    instances of it, \<open>Account_Receipts\<close> the retention of receipts. \<open>Account_Leases\<close>: the leases on a provider.

  \<^bold>\<open>What the lemmas show.\<close> Of every store: the invariant of its tables and that each method keeps it (the index,
  both ledgers, the job queue). Of the ledgers with their drivers: at most one effect in the cloud whatever the
  crashes, and completion when the cloud recovers; leases exclude each other and final states stay final. Of
  codecs and texts: reversibility (names, paths, times, keys, hashes, envelopes). Of optimised routines:
  equality with a reference (the content hash, the poll against the diff of snapshots, the bounded read). Of
  the transport: completeness of a walk, bounds on retries and waiting, and which loops end only by a
  deadline. Of the account lifecycle: the order of operations and journals, which operations can never end, how
  long receipts are kept, exclusion of leases. Of the passes: typing and locality of the index, and under which conditions a local edit survives.
  Where the code does less than it means to, the lemma says exactly what happens and the manifest of the
  development lists it as a finding.

  \<^bold>\<open>Effects, bounds and fuel.\<close> An error is a value of a sum or an option, a failing system call an entry of a list of
  faults. Crashes are budgets of effects (\<open>Restore_Engine\<close>, \<open>Ledger_Prog\<close>, the pass budget of \<open>Offline_Pass\<close>) or
  numbers of fragments a process lives for (\<open>lives\<close>): a statement for every budget is one for a crash between any
  two effects, and completion is shown for every budget that is large enough. Loops that need not end are
  partial functions into \<open>option\<close> (delta walks, listings, the search for a free name). The bounds of the code
  are kept: 255 steps of ancestry with refusal at 256, \<open>MAX_PATH_DEPTH\<close>, \<open>MAX_GET_ATTEMPTS\<close>, eight attempts and
  64 receipts of the lifecycle; the directory walk ends by the number of entries, which bounds its rounds.

  \<^bold>\<open>Parameters.\<close> What is not in the repository is an argument of the definitions: SHA-256, HMAC and AES-GCM (\<^verbatim>\<open>ring\<close>),
  the HTTP client (\<^verbatim>\<open>reqwest\<close>), Unicode case folding, the serialization of JSON, clocks and random bytes. The
  hypotheses on them are those of their documentation, and each property that has one is applied to a concrete
  instance.

  \<^bold>\<open>Not modelled.\<close> Full-text search, opening, encrypting and migrating the database; the request router and the
  web interface, tray, D-Bus, FUSE, command line and mobile bridge, which are presentation and glue; OAuth and
  push messages; the connectors of the other services, whose walk and index are the modelled ones while the
  shaping of their JSON is not; the agent (conversation, retrieval, encrypted sessions, providers), a program of
  its own behind the data paths in order of importance; the daemon's process handling and the reading of
  fanotify descriptors, which are system calls.
\<close>

end
